(* ===== verification/Prelude.thy ===== *)
theory Prelude
  imports Main "HOL-Library.Word" "HOL-Library.Sublist"
begin

text \<open>
  The prelude of the development: bytes, UTF-8 text, results, and the handful of
  standard-library string operations the Resonator crates use.

  A Rust \<open>String\<close> is a sequence of UTF-8 bytes. It is a HOL \<open>string\<close> here, one
  \<open>char\<close> (of 256) per byte, so \<open>length\<close> is \<open>str::len\<close> and literals read as in the
  source. Operations of the source that walk over Unicode scalar values (\<open>chars()\<close>)
  single out ASCII characters only and copy everything else; no byte of a multi-byte
  UTF-8 sequence is an ASCII byte, so walking over the bytes is the same computation.

  A \<open>Result<T, E>\<close> is a sum with the error on the left; the \<open>?\<close> operator is \<open>rbind\<close>.
\<close>

named_theorems result_simps \<open>rewriting of results and the question-mark operator\<close>
named_theorems text_simps \<open>rewriting of string operations\<close>

type_synonym byte = "8 word"
type_synonym u32 = "32 word"
type_synonym ('e, 'a) result = "'e + 'a"

subsection \<open>Results\<close>

definition rbind :: "('e, 'a) result \<Rightarrow> ('a \<Rightarrow> ('e, 'b) result) \<Rightarrow> ('e, 'b) result" where
  "rbind m f = (case m of Inl e \<Rightarrow> Inl e | Inr x \<Rightarrow> f x)"

lemma rbind_simps [simp, result_simps]:
  "rbind (Inl e) f = Inl e"
  "rbind (Inr x) f = f x"
  by (simp_all add: rbind_def)

lemma rbind_Inr_iff [result_simps]: "rbind m f = Inr y \<longleftrightarrow> (\<exists>x. m = Inr x \<and> f x = Inr y)"
  by (cases m) auto

lemma rbind_assoc: "rbind (rbind m f) g = rbind m (\<lambda>x. rbind (f x) g)"
  by (cases m) auto

text \<open>\<open>iter().map(f).collect::<Result<Vec<_>, _>>()\<close>: the first error wins.\<close>

fun mapM :: "('a \<Rightarrow> ('e, 'b) result) \<Rightarrow> 'a list \<Rightarrow> ('e, 'b list) result" where
  "mapM f [] = Inr []"
| "mapM f (x # xs) = rbind (f x) (\<lambda>y. rbind (mapM f xs) (\<lambda>ys. Inr (y # ys)))"

lemma mapM_cong [fundef_cong]:
  "xs = ys \<Longrightarrow> (\<And>x. x \<in> set ys \<Longrightarrow> f x = g x) \<Longrightarrow> mapM f xs = mapM g ys"
  by (induction ys arbitrary: xs) auto

lemma mapM_all_Inr: "(\<And>x. x \<in> set xs \<Longrightarrow> f x = Inr (g x)) \<Longrightarrow> mapM f xs = Inr (map g xs)"
  by (induction xs) auto

lemma mapM_Inr_length: "mapM f xs = Inr ys \<Longrightarrow> length ys = length xs"
  by (induction xs arbitrary: ys) (auto simp: rbind_Inr_iff)

text \<open>\<open>Option::ok_or_else\<close>.\<close>

definition ok_or :: "'a option \<Rightarrow> 'e \<Rightarrow> ('e, 'a) result" where
  "ok_or x e = (case x of None \<Rightarrow> Inl e | Some y \<Rightarrow> Inr y)"

lemma ok_or_simps [simp, result_simps]: "ok_or None e = Inl e" "ok_or (Some x) e = Inr x"
  by (simp_all add: ok_or_def)

subsection \<open>Bytes and UTF-8\<close>

definition byte_of :: "char \<Rightarrow> byte" where
  "byte_of c = word_of_nat (of_char c)"

definition char_of_byte :: "byte \<Rightarrow> char" where
  "char_of_byte b = char_of (unat b)"

lemma of_char_less [simp]: "(of_char c :: nat) < 256"
  using of_char_mod_256 [of c, where 'a = nat] by (metis mod_less_divisor zero_less_numeral)

lemma unat_byte_of [simp]: "unat (byte_of c) = of_char c"
  by (simp add: byte_of_def unat_of_nat take_bit_nat_eq_self)

lemma char_of_byte_of [simp]: "char_of_byte (byte_of c) = c"
  by (simp add: char_of_byte_def)

lemma byte_of_char_of_byte [simp]: "byte_of (char_of_byte b) = b"
proof -
  have "unat b < 256" using unsigned_less [of b] by simp
  then show ?thesis by (simp add: byte_of_def char_of_byte_def of_char_of)
qed

definition as_bytes :: "string \<Rightarrow> byte list" where
  "as_bytes s = map byte_of s"

lemma length_as_bytes [simp]: "length (as_bytes s) = length s"
  by (simp add: as_bytes_def)

lemma as_bytes_append [simp]: "as_bytes (s @ t) = as_bytes s @ as_bytes t"
  by (simp add: as_bytes_def)

definition cont_byte :: "nat \<Rightarrow> bool" where
  "cont_byte b \<longleftrightarrow> 128 \<le> b \<and> b < 192"

text \<open>The second byte a three-byte or four-byte lead admits (Unicode Table 3-7).\<close>

definition second3 :: "nat \<Rightarrow> nat \<Rightarrow> bool" where
  "second3 a b \<longleftrightarrow>
     (if a = 224 then 160 \<le> b \<and> b < 192
      else if a = 237 then 128 \<le> b \<and> b < 160
      else 225 \<le> a \<and> a \<le> 239 \<and> cont_byte b)"

definition second4 :: "nat \<Rightarrow> nat \<Rightarrow> bool" where
  "second4 a b \<longleftrightarrow>
     (if a = 240 then 144 \<le> b \<and> b < 192
      else if a = 244 then 128 \<le> b \<and> b < 144
      else 241 \<le> a \<and> a \<le> 243 \<and> cont_byte b)"

text \<open>The well-formed byte sequences \<open>String::from_utf8\<close> accepts.\<close>

fun utf8_ok :: "nat list \<Rightarrow> bool" where
  "utf8_ok [] = True"
| "utf8_ok (a # r) =
     (if a < 128 then utf8_ok r
      else case r of [] \<Rightarrow> False
      | b # r1 \<Rightarrow>
          if 194 \<le> a \<and> a \<le> 223 then cont_byte b \<and> utf8_ok r1
          else case r1 of [] \<Rightarrow> False
          | c # r2 \<Rightarrow>
              if a \<le> 239 then second3 a b \<and> cont_byte c \<and> utf8_ok r2
              else case r2 of [] \<Rightarrow> False
              | d # r3 \<Rightarrow> second4 a b \<and> cont_byte c \<and> cont_byte d \<and> utf8_ok r3)"

declare utf8_ok.simps(2) [simp del]

definition utf8_string :: "string \<Rightarrow> bool" where
  "utf8_string s \<longleftrightarrow> utf8_ok (map of_char s)"

definition from_utf8 :: "byte list \<Rightarrow> string option" where
  "from_utf8 bs = (if utf8_ok (map unat bs) then Some (map char_of_byte bs) else None)"

lemma from_utf8_as_bytes: "from_utf8 (as_bytes s) = (if utf8_string s then Some s else None)"
  by (simp add: from_utf8_def as_bytes_def utf8_string_def comp_def)

lemma from_utf8_SomeD: "from_utf8 bs = Some s \<Longrightarrow> as_bytes s = bs \<and> utf8_string s"
proof -
  assume a: "from_utf8 bs = Some s"
  then have s: "s = map char_of_byte bs" by (simp add: from_utf8_def split: if_splits)
  then have "as_bytes s = bs" by (simp add: as_bytes_def comp_def)
  moreover from this a have "utf8_string s"
    using from_utf8_as_bytes [of s] by (simp split: if_splits)
  ultimately show ?thesis by simp
qed

lemma utf8_ok_append: "utf8_ok xs \<Longrightarrow> utf8_ok (xs @ ys) \<longleftrightarrow> utf8_ok ys"
proof (induction xs rule: utf8_ok.induct)
  case 1
  then show ?case by simp
next
  case (2 a r)
  then show ?case
    by (auto simp: utf8_ok.simps(2) [of a r] utf8_ok.simps(2) [of a "r @ ys"]
        split: list.splits if_splits)
qed

lemma utf8_string_append: "utf8_string s \<Longrightarrow> utf8_string (s @ t) \<longleftrightarrow> utf8_string t"
  by (simp add: utf8_string_def utf8_ok_append)

definition ascii_char :: "char \<Rightarrow> bool" where
  "ascii_char c \<longleftrightarrow> (of_char c :: nat) < 128"

lemma utf8_string_Nil [simp]: "utf8_string []"
  by (simp add: utf8_string_def)

lemma utf8_string_ascii: "list_all ascii_char s \<Longrightarrow> utf8_string s"
  by (induction s) (auto simp: utf8_string_def ascii_char_def utf8_ok.simps(2))

subsection \<open>Little-endian 32-bit integers\<close>

definition to_le_bytes :: "u32 \<Rightarrow> byte list" where
  "to_le_bytes w =
     (let n = unat w
      in map word_of_nat [n mod 256, n div 256 mod 256, n div 65536 mod 256, n div 16777216 mod 256])"

definition from_le_bytes :: "byte \<Rightarrow> byte \<Rightarrow> byte \<Rightarrow> byte \<Rightarrow> u32" where
  "from_le_bytes b0 b1 b2 b3 =
     word_of_nat (unat b0 + 256 * unat b1 + 65536 * unat b2 + 16777216 * unat b3)"

lemma length_to_le_bytes [simp]: "length (to_le_bytes w) = 4"
  by (simp add: to_le_bytes_def Let_def)

lemma base256_digits:
  fixes n :: nat
  assumes "n < 4294967296"
  shows "n mod 256 + 256 * (n div 256 mod 256) + 65536 * (n div 65536 mod 256)
    + 16777216 * (n div 16777216 mod 256) = n"
proof -
  have "n div 16777216 < 256" using assms by simp
  then have d3: "n div 16777216 mod 256 = n div 16777216" by simp
  have d1: "n div 65536 = n div 256 div 256" and d2: "n div 16777216 = n div 65536 div 256"
    by (simp_all add: div_mult2_eq [symmetric])
  have "n = 256 * (n div 256) + n mod 256"
    and "n div 256 = 256 * (n div 65536) + n div 256 mod 256"
    and "n div 65536 = 256 * (n div 16777216) + n div 65536 mod 256"
    using d1 d2 by (simp_all only: mult_div_mod_eq)
  with d3 show ?thesis by linarith
qed

lemma unat_byte_of_nat: "unat (word_of_nat (n mod 256) :: byte) = n mod 256"
  by (simp add: unat_of_nat take_bit_nat_def)

lemma from_to_le_bytes:
  assumes "to_le_bytes w = [b0, b1, b2, b3]"
  shows "from_le_bytes b0 b1 b2 b3 = w"
proof -
  let ?n = "unat w"
  have lt: "?n < 4294967296" using unsigned_less [of w] by simp
  have b: "b0 = word_of_nat (?n mod 256)" "b1 = word_of_nat (?n div 256 mod 256)"
    "b2 = word_of_nat (?n div 65536 mod 256)" "b3 = word_of_nat (?n div 16777216 mod 256)"
    using assms by (simp_all only: to_le_bytes_def Let_def list.map list.inject)
  show ?thesis
    unfolding from_le_bytes_def b unat_byte_of_nat base256_digits [OF lt] by simp
qed

lemma to_le_bytes_cases:
  obtains b0 b1 b2 b3 where "to_le_bytes w = [b0, b1, b2, b3]" "from_le_bytes b0 b1 b2 b3 = w"
proof -
  obtain b0 b1 b2 b3 where "to_le_bytes w = [b0, b1, b2, b3]"
    by (simp add: to_le_bytes_def Let_def)
  with from_to_le_bytes that show ?thesis by blast
qed

lemma byte_bound: "unat (b :: byte) < 256"
  using unsigned_less [of b] by simp

lemma base256_parts:
  fixes a b c d :: nat
  assumes "a < 256" "b < 256" "c < 256" "d < 256"
  defines "n \<equiv> a + 256 * b + 65536 * c + 16777216 * d"
  shows "n < 4294967296" "n mod 256 = a" "n div 256 mod 256 = b" "n div 65536 mod 256 = c"
    "n div 16777216 mod 256 = d"
proof -
  show "n < 4294967296" using assms by simp
  have n1: "n = a + 256 * (b + 256 * (c + 256 * d))" by (simp add: n_def)
  then have d1: "n div 256 = b + 256 * (c + 256 * d)" using assms(1) by simp
  have "n div 65536 = n div 256 div 256" by (simp add: div_mult2_eq [symmetric])
  then have d2: "n div 65536 = c + 256 * d" using d1 assms(2) by simp
  have "n div 16777216 = n div 65536 div 256" by (simp add: div_mult2_eq [symmetric])
  then have d3: "n div 16777216 = d" using d2 assms(3) by simp
  show "n mod 256 = a" unfolding n1 mod_mult_self2 using assms(1) by simp
  show "n div 256 mod 256 = b" unfolding d1 mod_mult_self2 using assms(2) by simp
  show "n div 65536 mod 256 = c" unfolding d2 mod_mult_self2 using assms(3) by simp
  show "n div 16777216 mod 256 = d" using d3 assms(4) by simp
qed

lemma to_from_le_bytes: "to_le_bytes (from_le_bytes b0 b1 b2 b3) = [b0, b1, b2, b3]"
proof -
  let ?n = "unat b0 + 256 * unat b1 + 65536 * unat b2 + 16777216 * unat b3"
  note p = base256_parts [OF byte_bound byte_bound byte_bound byte_bound, of b0 b1 b2 b3]
  have "unat (word_of_nat ?n :: u32) = ?n"
    using p(1) by (simp only: unat_of_nat take_bit_nat_eq_self) (simp add: take_bit_nat_def)
  then show ?thesis unfolding to_le_bytes_def from_le_bytes_def Let_def
    by (simp only: p list.map) simp
qed

lemma length4_obtain: "4 \<le> length xs \<Longrightarrow> \<exists>a b c d r. xs = a # b # c # d # r"
  by (auto simp: numeral_eq_Suc Suc_le_length_iff)

end
