(* ===== verification/Text_Lib.thy ===== *)
theory Text_Lib
  imports Prelude
begin

text \<open>
  The string operations of the Rust standard library that the crates call, over UTF-8
  byte strings: prefixes, \<open>split_once\<close>, \<open>trim\<close>, ASCII classes and case folding,
  decimal printing and parsing at a fixed width, hexadecimal digits, and \<open>chunks\<close>.
\<close>

subsection \<open>Prefixes and separators\<close>

fun strip_prefix :: "string \<Rightarrow> string \<Rightarrow> string option" where
  "strip_prefix [] s = Some s"
| "strip_prefix (p # ps) [] = None"
| "strip_prefix (p # ps) (c # cs) = (if p = c then strip_prefix ps cs else None)"

lemma strip_prefix_Some_iff: "strip_prefix p s = Some r \<longleftrightarrow> s = p @ r"
  by (induction p s rule: strip_prefix.induct) auto

lemma strip_prefix_append [simp, text_simps]: "strip_prefix p (p @ r) = Some r"
  by (simp add: strip_prefix_Some_iff)

lemma strip_prefix_None_iff: "strip_prefix p s = None \<longleftrightarrow> \<not> prefix p s"
  by (metis not_Some_eq prefix_def strip_prefix_Some_iff)

text \<open>\<open>str::split_once\<close> at the first occurrence of a one-byte separator.\<close>

fun split_once :: "char \<Rightarrow> string \<Rightarrow> (string \<times> string) option" where
  "split_once c [] = None"
| "split_once c (x # xs) =
     (if x = c then Some ([], xs) else map_option (\<lambda>(a, b). (x # a, b)) (split_once c xs))"

lemma split_once_Some_iff: "split_once c s = Some (a, b) \<longleftrightarrow> s = a @ c # b \<and> c \<notin> set a"
proof (induction s arbitrary: a)
  case Nil
  then show ?case by simp
next
  case (Cons x xs)
  then show ?case by (cases a) auto
qed

lemma split_once_None_iff: "split_once c s = None \<longleftrightarrow> c \<notin> set s"
  by (induction s) auto

text \<open>\<open>[_].join(sep)\<close>.\<close>

fun join :: "string \<Rightarrow> string list \<Rightarrow> string" where
  "join sep [] = []"
| "join sep [x] = x"
| "join sep (x # y # ys) = x @ sep @ join sep (y # ys)"

text \<open>\<open>slice::chunks(n)\<close>.\<close>

function chunks :: "nat \<Rightarrow> 'a list \<Rightarrow> 'a list list" where
  "chunks n xs = (if xs = [] \<or> n = 0 then [] else take n xs # chunks n (drop n xs))"
  by pat_completeness auto
termination
  by (relation "measure (\<lambda>(n, xs). length xs)") auto

declare chunks.simps [simp del]

lemma concat_chunks: "0 < n \<Longrightarrow> concat (chunks n xs) = xs"
  by (induction n xs rule: chunks.induct) (simp add: chunks.simps)

subsection \<open>ASCII classes\<close>

definition is_digit :: "char \<Rightarrow> bool" where
  "is_digit c \<longleftrightarrow> (let n = (of_char c :: nat) in 48 \<le> n \<and> n \<le> 57)"

definition is_upper :: "char \<Rightarrow> bool" where
  "is_upper c \<longleftrightarrow> (let n = (of_char c :: nat) in 65 \<le> n \<and> n \<le> 90)"

definition is_lower :: "char \<Rightarrow> bool" where
  "is_lower c \<longleftrightarrow> (let n = (of_char c :: nat) in 97 \<le> n \<and> n \<le> 122)"

definition is_alnum :: "char \<Rightarrow> bool" where
  "is_alnum c \<longleftrightarrow> is_upper c \<or> is_lower c \<or> is_digit c"

definition to_lower :: "char \<Rightarrow> char" where
  "to_lower c = (if is_upper c then char_of (of_char c + 32 :: nat) else c)"

lemma char_eq_of_char: "c = d \<longleftrightarrow> (of_char c :: nat) = of_char d"
  by (simp add: of_char_eq_iff)

lemma of_char_of_nat [simp]: "(n :: nat) < 256 \<Longrightarrow> (of_char (char_of n :: char) :: nat) = n"
  by (simp add: of_char_of)

lemma to_lower_idem [simp]: "to_lower (to_lower c) = to_lower c"
  by (auto simp: to_lower_def is_upper_def Let_def)

subsection \<open>Trimming\<close>

text \<open>The UTF-8 encodings of the code points with the \<open>White_Space\<close> property.\<close>

definition white_space :: "string list" where
  "white_space = map (map char_of)
     [[9 :: nat], [10], [11], [12], [13], [32], [194, 133], [194, 160], [225, 154, 128],
      [226, 128, 128], [226, 128, 129], [226, 128, 130], [226, 128, 131], [226, 128, 132],
      [226, 128, 133], [226, 128, 134], [226, 128, 135], [226, 128, 136], [226, 128, 137],
      [226, 128, 138], [226, 128, 168], [226, 128, 169], [226, 128, 175], [226, 129, 159],
      [227, 128, 128]]"

definition strip_any :: "string list \<Rightarrow> string \<Rightarrow> string option" where
  "strip_any pats s =
     (case List.find (\<lambda>p. strip_prefix p s \<noteq> None) pats of None \<Rightarrow> None | Some p \<Rightarrow> strip_prefix p s)"

lemma strip_any_length:
  "strip_any pats s = Some r \<Longrightarrow> [] \<notin> set pats \<Longrightarrow> length r < length s"
  by (auto simp: strip_any_def strip_prefix_Some_iff find_Some_iff split: option.splits)
    (metis length_greater_0_conv nth_mem)

text \<open>Strip matches from the front while any pattern matches.\<close>

function strip_all :: "string list \<Rightarrow> string \<Rightarrow> string" where
  "strip_all pats s =
     (if [] \<in> set pats then s
      else case strip_any pats s of None \<Rightarrow> s | Some r \<Rightarrow> strip_all pats r)"
  by pat_completeness auto
termination
  by (relation "measure (\<lambda>(pats, s). length s)") (auto dest: strip_any_length)

declare strip_all.simps [simp del]

definition trim :: "string \<Rightarrow> string" where
  "trim s = rev (strip_all (map rev white_space) (rev (strip_all white_space s)))"

definition no_space :: "char \<Rightarrow> bool" where
  "no_space c \<longleftrightarrow> (let n = (of_char c :: nat) in 32 < n \<and> n < 128)"

lemma strip_all_stop: "strip_any pats s = None \<Longrightarrow> strip_all pats s = s"
  by (subst strip_all.simps) simp

lemma strip_any_no_space:
  assumes "\<forall>p \<in> set pats. \<exists>c cs. p = c # cs \<and> \<not> no_space c" and "s = [] \<or> no_space (hd s)"
  shows "strip_any pats s = None"
proof -
  have "strip_prefix p s = None" if "p \<in> set pats" for p
  proof -
    from assms(1) that obtain c cs where "p = c # cs" "\<not> no_space c" by blast
    with assms(2) show ?thesis by (cases s) auto
  qed
  then have "List.find (\<lambda>p. strip_prefix p s \<noteq> None) pats = None" by (auto simp: find_None_iff)
  then show ?thesis by (simp add: strip_any_def)
qed

lemma white_space_heads:
  "\<forall>p \<in> set white_space. \<exists>c cs. p = c # cs \<and> \<not> no_space c"
  "\<forall>p \<in> set (map rev white_space). \<exists>c cs. p = c # cs \<and> \<not> no_space c"
  by (simp_all add: white_space_def no_space_def)

lemma trim_no_space [text_simps]: "list_all no_space s \<Longrightarrow> trim s = s"
proof -
  assume a: "list_all no_space s"
  have h: "s = [] \<or> no_space (hd s)" "rev s = [] \<or> no_space (hd (rev s))"
    using a by (cases s; simp; fail) (use a in \<open>cases s rule: rev_cases; simp\<close>)
  have "strip_all white_space s = s"
    by (rule strip_all_stop, rule strip_any_no_space [OF white_space_heads(1) h(1)])
  moreover have "strip_all (map rev white_space) (rev s) = rev s"
    by (rule strip_all_stop, rule strip_any_no_space [OF white_space_heads(2) h(2)])
  ultimately show ?thesis by (simp add: trim_def)
qed

subsection \<open>Decimal numbers\<close>

definition digit_char :: "nat \<Rightarrow> char" where
  "digit_char d = char_of (48 + d)"

definition digit_val :: "char \<Rightarrow> nat" where
  "digit_val c = of_char c - 48"

lemma digit_char_simps [simp]:
  "d < 10 \<Longrightarrow> is_digit (digit_char d)" "d < 10 \<Longrightarrow> digit_val (digit_char d) = d"
  by (simp_all add: is_digit_def digit_char_def digit_val_def)

text \<open>\<open>ToString\<close> of an unsigned integer.\<close>

fun show_nat :: "nat \<Rightarrow> string" where
  "show_nat n = (if n < 10 then [digit_char n] else show_nat (n div 10) @ [digit_char (n mod 10)])"

declare show_nat.simps [simp del]

definition show_int :: "int \<Rightarrow> string" where
  "show_int i = (if i < 0 then CHR ''-'' # show_nat (nat (- i)) else show_nat (nat i))"

text \<open>The digits of a decimal numeral, most significant first; \<open>None\<close> on any other byte.\<close>

fun digits_from :: "nat \<Rightarrow> string \<Rightarrow> nat option" where
  "digits_from acc [] = Some acc"
| "digits_from acc (c # cs) = (if is_digit c then digits_from (10 * acc + digit_val c) cs else None)"

definition parse_digits :: "string \<Rightarrow> nat option" where
  "parse_digits s = (if s = [] then None else digits_from 0 s)"

text \<open>
  \<open>i64::from_str\<close> and \<open>u64::from_str\<close>: an optional sign (a minus sign only for the
  signed type), at least one digit, nothing else, and a value in range.
\<close>

definition parse_i64 :: "string \<Rightarrow> int option" where
  "parse_i64 s =
     (let (neg, body) = (case s of c # cs \<Rightarrow> if c = CHR ''-'' then (True, cs)
                                    else if c = CHR ''+'' then (False, cs) else (False, s)
                         | [] \<Rightarrow> (False, s))
      in case parse_digits body of
           None \<Rightarrow> None
         | Some n \<Rightarrow>
             let i = (if neg then - int n else int n)
             in if - (2 ^ 63) \<le> i \<and> i < 2 ^ 63 then Some i else None)"

definition parse_u64 :: "string \<Rightarrow> nat option" where
  "parse_u64 s =
     (let body = (case s of c # cs \<Rightarrow> if c = CHR ''+'' then cs else s | [] \<Rightarrow> s)
      in case parse_digits body of
           None \<Rightarrow> None
         | Some n \<Rightarrow> if n < 2 ^ 64 then Some n else None)"

definition is_i64 :: "int \<Rightarrow> bool" where
  "is_i64 i \<longleftrightarrow> - (2 ^ 63) \<le> i \<and> i < 2 ^ 63"

lemma show_nat_digits: "list_all is_digit (show_nat n)"
proof (induction n rule: show_nat.induct)
  case (1 n)
  then show ?case by (subst show_nat.simps) auto
qed

lemma show_nat_nonempty [simp]: "show_nat n \<noteq> []"
  by (subst show_nat.simps) simp

lemma digits_from_snoc:
  "digits_from acc (s @ [c]) =
     (case digits_from acc s of None \<Rightarrow> None
      | Some v \<Rightarrow> if is_digit c then Some (10 * v + digit_val c) else None)"
  by (induction s arbitrary: acc) auto

lemma digits_from_show_nat: "digits_from 0 (show_nat n) = Some n"
proof (induction n rule: show_nat.induct)
  case (1 n)
  show ?case
  proof (cases "n < 10")
    case True
    then show ?thesis by (subst show_nat.simps) simp
  next
    case False
    then show ?thesis using 1 by (subst show_nat.simps) (simp add: digits_from_snoc)
  qed
qed

lemma parse_digits_show_nat [simp, text_simps]: "parse_digits (show_nat n) = Some n"
  by (simp add: parse_digits_def digits_from_show_nat)

lemma sign_not_digit: "\<not> is_digit (CHR ''-'')" "\<not> is_digit (CHR ''+'')"
  by (simp_all add: is_digit_def)

lemma show_nat_hd: "show_nat n = c # cs \<Longrightarrow> is_digit c"
  using show_nat_digits [of n] by simp

lemma parse_i64_show_int: "is_i64 i \<Longrightarrow> parse_i64 (show_int i) = Some i"
proof (cases "i < 0")
  case True
  assume "is_i64 i"
  then show ?thesis
    using True by (simp add: parse_i64_def show_int_def is_i64_def Let_def)
next
  case False
  assume i: "is_i64 i"
  obtain c cs where c: "show_nat (nat i) = c # cs" by (cases "show_nat (nat i)") auto
  then have "is_digit c" by (rule show_nat_hd)
  with sign_not_digit have "c \<noteq> CHR ''-''" "c \<noteq> CHR ''+''" by auto
  moreover have "parse_digits (c # cs) = Some (nat i)"
    using parse_digits_show_nat [of "nat i"] c by simp
  ultimately show ?thesis
    using False i c by (simp add: parse_i64_def show_int_def is_i64_def Let_def)
qed

lemma parse_i64_range: "parse_i64 s = Some i \<Longrightarrow> is_i64 i"
  by (auto simp: parse_i64_def is_i64_def Let_def split: option.splits prod.splits if_splits)

lemma parse_u64_show_nat: "n < 2 ^ 64 \<Longrightarrow> parse_u64 (show_nat n) = Some n"
proof -
  assume n: "n < 2 ^ 64"
  obtain c cs where c: "show_nat n = c # cs" by (cases "show_nat n") auto
  then have "is_digit c" by (rule show_nat_hd)
  with sign_not_digit have "c \<noteq> CHR ''+''" by auto
  with n c parse_digits_show_nat [of n] show ?thesis by (simp add: parse_u64_def Let_def)
qed

lemma digit_no_space: "is_digit c \<Longrightarrow> no_space c"
  by (simp add: is_digit_def no_space_def Let_def)

lemma show_nat_no_space: "list_all no_space (show_nat n)"
  using show_nat_digits [of n] by (auto simp: list_all_iff intro: digit_no_space)

lemma show_int_no_space: "list_all no_space (show_int i)"
  by (simp add: show_int_def show_nat_no_space) (simp add: no_space_def)

lemma trim_show [simp, text_simps]: "trim (show_nat n) = show_nat n" "trim (show_int i) = show_int i"
  by (simp_all add: trim_no_space show_nat_no_space show_int_no_space)

subsection \<open>Hexadecimal digits\<close>

text \<open>One hexadecimal digit, upper or lower case; \<open>char::to_digit(16)\<close> reads both.\<close>

definition hex_digit :: "bool \<Rightarrow> nat \<Rightarrow> char" where
  "hex_digit up d = (if d < 10 then char_of (48 + d) else char_of ((if up then 55 else 87) + d))"

definition hex_val :: "char \<Rightarrow> nat option" where
  "hex_val c =
     (let n = of_char c
      in if 48 \<le> n \<and> n \<le> 57 then Some (n - 48)
         else if 65 \<le> n \<and> n \<le> 70 then Some (n - 55)
         else if 97 \<le> n \<and> n \<le> 102 then Some (n - 87)
         else None)"

lemma hex_val_digit [simp, text_simps]: "d < 16 \<Longrightarrow> hex_val (hex_digit up d) = Some d"
  by (simp add: hex_val_def hex_digit_def Let_def)

lemma hex_digit_alnum: "d < 16 \<Longrightarrow> is_alnum (hex_digit up d)"
  by (auto simp: hex_digit_def is_alnum_def is_upper_def is_lower_def is_digit_def Let_def)

text \<open>\<open>format!("{b:02x}")\<close> and \<open>format!("{b:02X}")\<close>.\<close>

definition hex2 :: "bool \<Rightarrow> nat \<Rightarrow> string" where
  "hex2 up b = [hex_digit up (b div 16), hex_digit up (b mod 16)]"

end
