(* ===== verification/Float64.thy ===== *)
theory Float64
  imports Text_Lib
begin

text \<open>
  The text forms of \<open>f64\<close> in the Rust standard library, as the value codec uses them:
  \<open>str::parse::<f64>\<close> (decimal to nearest double, ties to even) and \<open>format!("{f:e}")\<close>
  (the shortest decimal that reads back as the same double).

  A double is its 64 bits; the codec compares doubles by their bits. A finite double of
  magnitude bits \<open>n\<close> has the value \<open>scaled n / 2 ^ sub_exp\<close>, so everything is arithmetic on
  natural numbers.
\<close>

type_synonym f64 = "64 word"

text \<open>The weight of the last bit of a subnormal double is \<open>2 ^ - sub_exp\<close>.\<close>

definition sub_exp :: nat where "sub_exp = 1074"

definition sign_bit :: nat where "sign_bit = 2 ^ 63"
definition inf_bits :: nat where "inf_bits = 2047 * 2 ^ 52"
definition nan_bits :: nat where "nan_bits = inf_bits + 2 ^ 51"

definition f_neg :: "f64 \<Rightarrow> bool" where
  "f_neg f \<longleftrightarrow> sign_bit \<le> unat f"

text \<open>The 63 magnitude bits.\<close>

definition f_mag :: "f64 \<Rightarrow> nat" where
  "f_mag f = unat f mod sign_bit"

definition is_nan :: "f64 \<Rightarrow> bool" where
  "is_nan f \<longleftrightarrow> inf_bits < f_mag f"

definition is_inf :: "f64 \<Rightarrow> bool" where
  "is_inf f \<longleftrightarrow> f_mag f = inf_bits"

definition mk_f64 :: "bool \<Rightarrow> nat \<Rightarrow> f64" where
  "mk_f64 neg mag = word_of_nat ((if neg then sign_bit else 0) + mag)"

lemma mk_f64_parts: "mk_f64 (f_neg f) (f_mag f) = f"
proof -
  have "unat f < 2 * sign_bit" using unsigned_less [of f] by (simp add: sign_bit_def)
  then have "(if f_neg f then sign_bit else 0) + f_mag f = unat f"
    by (auto simp: f_neg_def f_mag_def mod_if le_mod_geq)
  then show ?thesis unfolding mk_f64_def by simp
qed

subsection \<open>Decimal to binary\<close>

text \<open>Round \<open>a / b\<close> to the nearest natural number, ties to even.\<close>

definition rne :: "nat \<Rightarrow> nat \<Rightarrow> nat" where
  "rne a b =
     (let q = a div b; r = a mod b
      in if 2 * r < b then q else if b < 2 * r then q + 1 else if even q then q else q + 1)"

fun bit_length :: "nat \<Rightarrow> nat" where
  "bit_length n = (if n = 0 then 0 else Suc (bit_length (n div 2)))"

declare bit_length.simps [simp del]

lemma bit_length_0 [simp]: "bit_length 0 = 0"
  by (subst bit_length.simps) simp

text \<open>
  The magnitude bits of the double nearest to \<open>num / den\<close>. The value is scaled by
  \<open>2 ^ sub_exp\<close> (the weight of the last subnormal bit); \<open>s\<close> bits beyond the 53 of a
  significand are rounded off; a carry out of the significand and the overflow to
  infinity fall out of adding the significand to the exponent field.
\<close>

definition round_mag :: "nat \<Rightarrow> nat \<Rightarrow> nat" where
  "round_mag num den =
     (let n = num * 2 ^ sub_exp;
          s = bit_length (n div den) - 53;
          q = rne n (den * 2 ^ s)
      in min inf_bits (s * 2 ^ 52 + q))"

definition dec_mag :: "nat \<Rightarrow> int \<Rightarrow> nat" where
  "dec_mag d e =
     (if 0 \<le> e then round_mag (d * 10 ^ nat e) 1 else round_mag d (10 ^ nat (- e)))"

text \<open>\<open>digits [. digits] [(e|E) [sign] digits]\<close> with at least one mantissa digit.\<close>

definition parse_exponent :: "string \<Rightarrow> int option" where
  "parse_exponent s =
     (case s of
        [] \<Rightarrow> Some 0
      | c # r \<Rightarrow>
          if c \<noteq> CHR ''e'' \<and> c \<noteq> CHR ''E'' then None
          else (case r of
                  [] \<Rightarrow> None
                | d # r' \<Rightarrow>
                    if d = CHR ''-'' then map_option (\<lambda>n. - int n) (parse_digits r')
                    else if d = CHR ''+'' then map_option int (parse_digits r')
                    else map_option int (parse_digits r)))"

definition parse_decimal :: "string \<Rightarrow> (nat \<times> int) option" where
  "parse_decimal s =
     (let ip = takeWhile is_digit s; r = dropWhile is_digit s;
          (fp, r') = (case r of
                        c # t \<Rightarrow> if c = CHR ''.'' then (takeWhile is_digit t, dropWhile is_digit t)
                                else ([], r)
                      | [] \<Rightarrow> ([], r))
      in case parse_digits (ip @ fp) of
           None \<Rightarrow> None
         | Some d \<Rightarrow>
             (case parse_exponent r' of None \<Rightarrow> None | Some x \<Rightarrow> Some (d, x - int (length fp))))"

definition parse_f64 :: "string \<Rightarrow> f64 option" where
  "parse_f64 s =
     (let (neg, body) = (case s of
                           c # t \<Rightarrow> if c = CHR ''-'' then (True, t)
                                   else if c = CHR ''+'' then (False, t) else (False, s)
                         | [] \<Rightarrow> (False, s));
          low = map to_lower body
      in if low = ''inf'' \<or> low = ''infinity'' then Some (mk_f64 neg inf_bits)
         else if low = ''nan'' then Some (mk_f64 neg nan_bits)
         else map_option (\<lambda>(d, e). mk_f64 neg (dec_mag d e)) (parse_decimal body))"

subsection \<open>Binary to shortest decimal\<close>

text \<open>The value of finite magnitude bits, in units of \<open>2 ^ - sub_exp\<close>.\<close>

definition scaled :: "nat \<Rightarrow> nat" where
  "scaled mag =
     (let e = mag div 2 ^ 52; m = mag mod 2 ^ 52 in if e = 0 then m else (m + 2 ^ 52) * 2 ^ (e - 1))"

text \<open>
  All decimal digits of a finite value: it is \<open>exact_digits mag * 10 ^ - sub_exp\<close>.
\<close>

definition exact_digits :: "nat \<Rightarrow> nat" where
  "exact_digits mag = scaled mag * 5 ^ sub_exp"

text \<open>
  Try \<open>k\<close> significant digits, then more: the two \<open>k\<close>-digit neighbours of the exact
  value, the nearer one first when both read back as the same double (the upper one on a
  tie). With all digits the value itself reads back, so the search ends.
\<close>

function shortest :: "nat \<Rightarrow> nat \<Rightarrow> nat \<times> int" where
  "shortest mag k =
     (let x = exact_digits mag; l = length (show_nat x); p = 10 ^ (l - k);
          lo = x div p; hi = lo + 1; e = int (l - k) - int sub_exp;
          lo_ok = (0 < lo \<and> dec_mag lo e = mag); hi_ok = (dec_mag hi e = mag)
      in if lo_ok \<and> hi_ok then (if 2 * (x mod p) < p then lo else hi, e)
         else if lo_ok then (lo, e)
         else if hi_ok then (hi, e)
         else if l \<le> k then (x, - int sub_exp)
         else shortest mag (k + 1))"
  by pat_completeness auto
termination
  by (relation "measure (\<lambda>(mag, k). length (show_nat (exact_digits mag)) - k)")
     (auto simp: Let_def)

declare shortest.simps [simp del]

text \<open>Drop trailing zeros of the digits.\<close>

fun strip_zeros :: "nat \<Rightarrow> int \<Rightarrow> nat \<times> int" where
  "strip_zeros d e = (if d \<noteq> 0 \<and> d mod 10 = 0 then strip_zeros (d div 10) (e + 1) else (d, e))"

declare strip_zeros.simps [simp del]

text \<open>\<open>d.ddd\<close>, \<open>e\<close>, exponent.\<close>

definition show_exp :: "nat \<Rightarrow> int \<Rightarrow> string" where
  "show_exp d e =
     (let ds = show_nat d
      in hd ds # (if tl ds = [] then [] else CHR ''.'' # tl ds)
         @ CHR ''e'' # show_int (e + int (length ds - 1)))"

text \<open>\<open>format!("{f:e}")\<close> of a finite double.\<close>

definition lower_exp :: "f64 \<Rightarrow> string" where
  "lower_exp f =
     (let (d, e) = (if f_mag f = 0 then (0, 0) else case shortest (f_mag f) 1 of (d, e) \<Rightarrow> strip_zeros d e)
      in (if f_neg f then ''-'' else []) @ show_exp d e)"

subsection \<open>Reading back what was printed\<close>

lemma takeWhile_digits_show_nat:
  "takeWhile is_digit (show_nat n) = show_nat n" "dropWhile is_digit (show_nat n) = []"
  using show_nat_digits [of n] by (simp_all add: list_all_iff)

lemma parse_exponent_show: "parse_exponent (CHR ''e'' # show_int x) = Some x"
proof (cases "x < 0")
  case True
  then show ?thesis by (simp add: parse_exponent_def show_int_def)
next
  case False
  obtain c cs where c: "show_nat (nat x) = c # cs" by (cases "show_nat (nat x)") auto
  then have "is_digit c" by (rule show_nat_hd)
  with sign_not_digit have "c \<noteq> CHR ''-''" "c \<noteq> CHR ''+''" by auto
  with False c parse_digits_show_nat [of "nat x"] show ?thesis
    by (simp add: parse_exponent_def show_int_def)
qed

lemma not_digit_chars: "\<not> is_digit (CHR ''.'')" "\<not> is_digit (CHR ''e'')"
  by (simp_all add: is_digit_def)

lemma parse_decimal_show_exp: "parse_decimal (show_exp d e) = Some (d, e)"
proof -
  obtain c cs where c: "show_nat d = c # cs" by (cases "show_nat d") auto
  have dig: "is_digit c" "list_all is_digit cs" using show_nat_digits [of d] c by simp_all
  have all: "\<forall>x \<in> set cs. is_digit x" using dig(2) by (simp add: list_all_iff)
  have pd: "parse_digits (c # cs) = Some d" using parse_digits_show_nat [of d] c by simp
  have tw: "takeWhile is_digit (cs @ CHR ''e'' # r) = cs"
    "dropWhile is_digit (cs @ CHR ''e'' # r) = CHR ''e'' # r" for r
    using all by (simp_all add: takeWhile_append dropWhile_append not_digit_chars)
  show ?thesis
  proof (cases "cs = []")
    case True
    then show ?thesis
      using c dig pd by (simp add: parse_decimal_def show_exp_def Let_def not_digit_chars
          parse_exponent_show)
  next
    case False
    then show ?thesis
      using c dig pd by (simp add: parse_decimal_def show_exp_def Let_def not_digit_chars
          parse_exponent_show tw)
  qed
qed

lemma rne_scale: "0 < c \<Longrightarrow> rne (c * a) (c * b) = rne a b"
  by (simp add: rne_def Let_def mult_mod_right [symmetric] mult.left_commute [of 2])

lemma rne_exact: "0 < b \<Longrightarrow> rne (a * b) b = a"
  by (simp add: rne_def)

lemma round_mag_scale:
  assumes "0 < c"
  shows "round_mag (c * a) (c * b) = round_mag a b"
proof -
  have "rne (c * a * 2 ^ sub_exp) (c * b * 2 ^ s) = rne (a * 2 ^ sub_exp) (b * 2 ^ s)" for s
    using rne_scale [OF assms, of "a * 2 ^ sub_exp" "b * 2 ^ s"] by (simp only: mult.assoc)
  moreover have "c * a * 2 ^ sub_exp div (c * b) = a * 2 ^ sub_exp div b"
    using assms by (simp only: mult.assoc) simp
  ultimately show ?thesis by (simp add: round_mag_def Let_def)
qed

lemma dec_mag_shift: "dec_mag (10 * d) e = dec_mag d (e + 1)"
proof -
  consider "0 \<le> e" | "e = -1" | "e < -1" by linarith
  then show ?thesis
  proof cases
    case 1
    then show ?thesis by (simp add: dec_mag_def nat_add_distrib ac_simps)
  next
    case 2
    then show ?thesis using round_mag_scale [of 10 d 1] by (simp add: dec_mag_def)
  next
    case 3
    define k where "k = nat (- (e + 1))"
    with 3 have "nat (- e) = Suc k" "nat (- (e + 1)) = k" by linarith+
    with 3 show ?thesis using round_mag_scale [of 10 d "10 ^ k"] by (simp add: dec_mag_def)
  qed
qed

lemma strip_zeros_dec_mag: "strip_zeros d e = (d', e') \<Longrightarrow> dec_mag d' e' = dec_mag d e"
proof (induction d e rule: strip_zeros.induct)
  case (1 d e)
  show ?case
  proof (cases "d \<noteq> 0 \<and> d mod 10 = 0")
    case True
    then have "dec_mag d' e' = dec_mag (d div 10) (e + 1)"
      using 1 by (simp add: strip_zeros.simps [of d e])
    also have "\<dots> = dec_mag (10 * (d div 10)) e" by (rule dec_mag_shift [symmetric])
    also have "10 * (d div 10) = d" using True by auto
    finally show ?thesis .
  next
    case False
    then show ?thesis using 1(2) by (auto simp: strip_zeros.simps [of d e])
  qed
qed

lemma bit_length_le: "n < 2 ^ k \<Longrightarrow> bit_length n \<le> k"
proof (induction n arbitrary: k rule: bit_length.induct)
  case (1 n)
  show ?case
  proof (cases "n = 0")
    case True
    then show ?thesis by (simp add: bit_length.simps)
  next
    case False
    with 1(2) obtain j where "k = Suc j" by (cases k) auto
    with False 1 have "bit_length (n div 2) \<le> j" by auto
    with False \<open>k = Suc j\<close> show ?thesis by (simp add: bit_length.simps [of n])
  qed
qed

lemma bit_length_exact: "2 ^ k \<le> n \<Longrightarrow> n < 2 ^ Suc k \<Longrightarrow> bit_length n = Suc k"
proof (induction k arbitrary: n)
  case 0
  then have "n = 1" by simp
  then show ?case by (simp add: bit_length.simps)
next
  case (Suc k)
  then have "bit_length (n div 2) = Suc k" by simp
  moreover have "n \<noteq> 0" using Suc.prems by auto
  ultimately show ?case by (simp add: bit_length.simps [of n])
qed

text \<open>Rounding the exact value of a finite double gives that double.\<close>

lemma rne_scaled:
  assumes "mag < inf_bits"
  defines "s \<equiv> bit_length (scaled mag) - 53"
  shows "s * 2 ^ 52 + rne (scaled mag) (2 ^ s) = mag"
proof -
  let ?e = "mag div 2 ^ 52" and ?m = "mag mod 2 ^ 52"
  have m: "?m < 2 ^ 52" by simp
  have mag: "?e * 2 ^ 52 + ?m = mag" by simp
  show ?thesis
  proof (cases "?e \<le> 1")
    case True
    then have sc: "scaled mag = mag"
    proof (cases "?e = 0")
      case True
      with mag show ?thesis by (simp add: scaled_def Let_def)
    next
      case False
      with True have e: "?e = 1" by linarith
      then have "2 ^ 52 + ?m = mag" using mag by (metis mult_1)
      with e show ?thesis by (simp only: scaled_def Let_def) simp
    qed
    have "mag < 2 ^ 53" using True m mag by simp
    then have "s = 0" unfolding s_def sc using bit_length_le [of mag 53] by simp
    then show ?thesis by (simp add: sc rne_def)
  next
    case False
    then obtain j where j: "?e = Suc j" "0 < j" by (cases ?e) auto
    then have sc: "scaled mag = (?m + 2 ^ 52) * 2 ^ j" by (simp add: scaled_def Let_def)
    have "2 ^ (52 + j) \<le> scaled mag" unfolding sc power_add by simp
    moreover have "scaled mag < 2 ^ 53 * 2 ^ j" unfolding sc using m by simp
    then have "scaled mag < 2 ^ Suc (52 + j)" by (simp add: power_add)
    ultimately have "bit_length (scaled mag) = Suc (52 + j)" by (rule bit_length_exact)
    then have s: "s = j" by (simp add: s_def)
    have "Suc j * 2 ^ 52 + ?m = mag" using mag j(1) by metis
    then show ?thesis unfolding s sc by (simp add: rne_exact)
  qed
qed

lemma dec_mag_exact:
  assumes "mag < inf_bits"
  shows "dec_mag (exact_digits mag) (- int sub_exp) = mag"
proof -
  let ?p = "10 ^ sub_exp :: nat" and ?v = "scaled mag"
  have ten: "?p = 5 ^ sub_exp * 2 ^ sub_exp" by (simp flip: power_mult_distrib)
  have n: "exact_digits mag * 2 ^ sub_exp = ?p * ?v" by (simp add: exact_digits_def ten)
  have q: "rne (?p * ?v) (?p * 2 ^ s) = rne ?v (2 ^ s)" for s by (simp add: rne_scale)
  have "sub_exp \<noteq> 0" by (simp add: sub_exp_def)
  then have "dec_mag (exact_digits mag) (- int sub_exp) = round_mag (exact_digits mag) ?p"
    by (simp add: dec_mag_def)
  also have "\<dots> = mag"
    using rne_scaled [OF assms] assms by (simp add: round_mag_def Let_def n q)
  finally show ?thesis .
qed

lemma shortest_dec_mag:
  "mag < inf_bits \<Longrightarrow> shortest mag k = (d, e) \<Longrightarrow> dec_mag d e = mag"
proof (induction mag k rule: shortest.induct)
  case (1 mag k)
  note IH = 1(1) [OF refl refl refl refl refl refl refl refl _ _ _ _ 1(2)]
  show ?case
    using 1(3) dec_mag_exact [OF 1(2)] IH
    by (simp only: shortest.simps [of mag k] Let_def split: if_splits) auto
qed

lemma show_exp_hd: "show_exp d e = c # r \<Longrightarrow> is_digit c"
  by (cases "show_nat d") (auto simp: show_exp_def Let_def dest: show_nat_hd)

lemma show_exp_nonempty [simp]: "show_exp d e \<noteq> []"
  by (simp add: show_exp_def Let_def)

lemma to_lower_digit: "is_digit c \<Longrightarrow> to_lower c = c"
  by (simp add: to_lower_def is_digit_def is_upper_def Let_def)

lemma parse_f64_show_exp:
  "parse_f64 ((if neg then ''-'' else []) @ show_exp d e) = Some (mk_f64 neg (dec_mag d e))"
proof -
  obtain c r where c: "show_exp d e = c # r" by (cases "show_exp d e") auto
  then have dig: "is_digit c" by (rule show_exp_hd)
  then have ne: "c \<noteq> CHR ''-''" "c \<noteq> CHR ''+''" "c \<noteq> CHR ''i''" "c \<noteq> CHR ''n''"
    by (auto simp: is_digit_def)
  have pd: "parse_decimal (c # r) = Some (d, e)" using parse_decimal_show_exp [of d e] c by simp
  show ?thesis
    using ne dig pd c by (cases neg) (auto simp: parse_f64_def Let_def to_lower_digit)
qed

lemma parse_lower_exp: "f_mag f < inf_bits \<Longrightarrow> parse_f64 (lower_exp f) = Some f"
proof -
  assume fin: "f_mag f < inf_bits"
  define de where
    "de = (if f_mag f = 0 then (0, 0) else case shortest (f_mag f) 1 of (d, e) \<Rightarrow> strip_zeros d e)"
  obtain d e where de: "de = (d, e)" by (cases de)
  have "dec_mag d e = f_mag f"
  proof (cases "f_mag f = 0")
    case True
    then show ?thesis using de by (simp add: de_def dec_mag_def round_mag_def rne_def)
  next
    case False
    obtain d0 e0 where s: "shortest (f_mag f) 1 = (d0, e0)" by (cases "shortest (f_mag f) 1")
    with False de have "strip_zeros d0 e0 = (d, e)" by (simp add: de_def)
    then have "dec_mag d e = dec_mag d0 e0" by (rule strip_zeros_dec_mag)
    also have "\<dots> = f_mag f" using shortest_dec_mag [OF fin s] .
    finally show ?thesis .
  qed
  moreover have "lower_exp f = (if f_neg f then ''-'' else []) @ show_exp d e"
    unfolding lower_exp_def Let_def de_def [symmetric] de by simp
  ultimately show ?thesis by (simp add: parse_f64_show_exp mk_f64_parts)
qed

lemma show_exp_no_space: "list_all no_space (show_exp d e)"
proof -
  have "list_all no_space (show_nat d)" by (rule show_nat_no_space)
  then show ?thesis
    by (cases "show_nat d") (simp_all add: show_exp_def Let_def show_int_no_space, simp_all add: no_space_def)
qed

lemma lower_exp_no_space: "list_all no_space (lower_exp f)"
  by (simp add: lower_exp_def show_exp_no_space split: prod.splits) (simp add: no_space_def)

end
