(* ===== verification/Protocol_Error.thy ===== *)
theory Protocol_Error
  imports Text_Lib
begin

text \<open>
  The errors of the protocol crate (\<open>crates/protocol/src/error.rs\<close>).

  \<open>Malformed\<close> and \<open>Choreography\<close> carry a message in the source. Here they carry one
  constructor per place that builds such a message, with the data the message shows
  where later code or a caller can tell the cases apart; the English text itself is not
  part of the model.
\<close>

datatype malformed =
    InvalidDouble string
  | InvalidInteger string
  | InvalidBase64
  | UnknownErrorCode string
  | InvalidRequestId string
  | ExpectedRequest string
  | ExpectedLiteral string
  | MissingProperty string
  | InvalidBoolean string
  | ExpectedIri string
  | MissingIriProperty string
  | InvalidListNode
  | ListWithoutFirst
  | ListWithoutRest
  | ListTooLong
  | ExpectedStringInList string
  | UnexpectedIri string
  | InvalidBytesLiteral string
  | NotABlobRef
  | UnsupportedDatatype string
  | NoEnvelopeObject
  | NonRsntrClass string
  | TooManySubjects nat
  | RepeatedSubject string
  | SeqNotLiteral
  | RowWithoutSeq
  | ExpectedNode
  | OffersEntryNotIri
  | PointTypeNotIri
  | VibrationWithoutSeq
  | GraphWithoutSeq
  | TruncatedEscape string
  | InvalidEscape string
  | ColumnNotUtf8 string
  | EmptyRowFrame
  | GenericClassNotPlain string

datatype choreography =
    AlreadyFailed
  | AfterCompletion string
  | ResultOutOfOrder
  | RowBeforeHeader
  | EmptyRowBatch
  | RowSeq int int
  | UndeclaredColumn string
  | GraphOutOfOrder
  | GraphSeq int int
  | GenericOutOfOrder
  | DoneBeforeAny
  | DeniedAfterStart
  | HelpAfterStart
  | MediaAfterStart
  | NotAResponse string
  | EndedBeforeAnyFrame
  | EndedWithoutTrailer
  | IdMismatch string string string
  | VibrationBeforeAck
  | VibrationPoint string string
  | VibrationSeq int int
  | DeniedAfterAck
  | NotAnEntrainment string
  | EndedBeforeAck

datatype protocol_error =
    FrameTooLarge nat
  | TruncatedFrame nat
  | InvalidUtf8
  | Syntax
  | Malformed malformed
  | Choreography choreography

text \<open>The seven wire error codes and their text form.\<close>

datatype error_code =
    AuthDenied | Timeout | LimitExceeded | ModUnsupported | EngineError | ProtocolErrorCode
  | PointUnknown

definition all_codes :: "error_code list" where
  "all_codes =
     [AuthDenied, Timeout, LimitExceeded, ModUnsupported, EngineError, ProtocolErrorCode,
      PointUnknown]"

fun code_as_str :: "error_code \<Rightarrow> string" where
  "code_as_str AuthDenied = ''auth-denied''"
| "code_as_str Timeout = ''timeout''"
| "code_as_str LimitExceeded = ''limit-exceeded''"
| "code_as_str ModUnsupported = ''mod-unsupported''"
| "code_as_str EngineError = ''engine-error''"
| "code_as_str ProtocolErrorCode = ''protocol-error''"
| "code_as_str PointUnknown = ''point-unknown''"

definition code_from_str :: "string \<Rightarrow> (protocol_error, error_code) result" where
  "code_from_str s =
     ok_or (List.find (\<lambda>c. code_as_str c = s) all_codes) (Malformed (UnknownErrorCode s))"

lemma all_codes_complete: "c \<in> set all_codes"
  by (cases c) (simp_all add: all_codes_def)

lemma code_as_str_inject: "code_as_str c = code_as_str d \<longleftrightarrow> c = d"
  by (cases c; cases d; simp)

text \<open>
  The error codes: the wire form of a code parses back to that code, and a string that
  parses to a code is that code's wire form, so every other string is an error.
\<close>

theorem code_round_trip: "code_from_str s = Inr c \<longleftrightarrow> s = code_as_str c"
proof
  assume "code_from_str s = Inr c"
  then show "s = code_as_str c"
    by (auto simp: code_from_str_def ok_or_def find_Some_iff split: option.splits)
next
  assume s: "s = code_as_str c"
  have "List.find (\<lambda>d. code_as_str d = s) all_codes = Some c"
    by (cases c) (simp_all add: s all_codes_def)
  then show "code_from_str s = Inr c" by (simp add: code_from_str_def)
qed

end
