(* ===== verification/Vocab.thy ===== *)
theory Vocab
  imports Protocol_Error
begin

text \<open>
  The \<open>rsntr:\<close> vocabulary (\<open>crates/protocol/src/vocab.rs\<close>) and the RDF terms envelopes
  are made of. IRIs are strings. The term, literal and triple types are those of the
  \<open>oxrdf\<close> crate, restricted to what the envelope code observes of them.
\<close>

definition RSNTR_NS :: string where
  "RSNTR_NS = ''http://resonator.network/v3/rsntr#''"

definition XSD_NS :: string where
  "XSD_NS = ''http://www.w3.org/2001/XMLSchema#''"

definition RDF_NS :: string where
  "RDF_NS = ''http://www.w3.org/1999/02/22-rdf-syntax-ns#''"

definition RDFS_NS :: string where
  "RDFS_NS = ''http://www.w3.org/2000/01/rdf-schema#''"

definition IMPLIED_PREFIXES :: "(string \<times> string) list" where
  "IMPLIED_PREFIXES =
     [(''rsntr'', RSNTR_NS), (''xsd'', XSD_NS), (''rdf'', RDF_NS), (''rdfs'', RDFS_NS)]"

text \<open>The macro \<open>rsntr_iri!\<close>, and the other namespaces' names.\<close>

definition rsntr_iri :: "string \<Rightarrow> string" where
  "rsntr_iri local = RSNTR_NS @ local"

definition xsd_iri :: "string \<Rightarrow> string" where
  "xsd_iri local = XSD_NS @ local"

definition rdf_iri :: "string \<Rightarrow> string" where
  "rdf_iri local = RDF_NS @ local"

definition rdfs_iri :: "string \<Rightarrow> string" where
  "rdfs_iri local = RDFS_NS @ local"

lemma iri_inject [simp]:
  "rsntr_iri a = rsntr_iri b \<longleftrightarrow> a = b" "xsd_iri a = xsd_iri b \<longleftrightarrow> a = b"
  "rdf_iri a = rdf_iri b \<longleftrightarrow> a = b" "rdfs_iri a = rdfs_iri b \<longleftrightarrow> a = b"
  by (simp_all add: rsntr_iri_def xsd_iri_def rdf_iri_def rdfs_iri_def)

lemma iri_distinct [simp]:
  "rsntr_iri a \<noteq> xsd_iri b" "rsntr_iri a \<noteq> rdf_iri b" "rsntr_iri a \<noteq> rdfs_iri b"
  "xsd_iri b \<noteq> rsntr_iri a" "rdf_iri b \<noteq> rsntr_iri a" "rdfs_iri b \<noteq> rsntr_iri a"
  "rdf_iri a \<noteq> rdfs_iri b" "rdfs_iri b \<noteq> rdf_iri a"
  by (simp_all add: rsntr_iri_def xsd_iri_def rdf_iri_def rdfs_iri_def
      RSNTR_NS_def XSD_NS_def RDF_NS_def RDFS_NS_def)

lemma strip_RSNTR_NS [simp]:
  "strip_prefix RSNTR_NS (rsntr_iri l) = Some l"
  "strip_prefix RSNTR_NS (rdf_iri l) = None"
  "strip_prefix RSNTR_NS (rdfs_iri l) = None"
  "strip_prefix RSNTR_NS (xsd_iri l) = None"
  by (simp_all add: rsntr_iri_def rdf_iri_def rdfs_iri_def xsd_iri_def)
     (simp_all add: RSNTR_NS_def XSD_NS_def RDF_NS_def RDFS_NS_def)

text \<open>Local names of the envelope classes (\<open>mod cls\<close>) and properties (\<open>mod prop\<close>).\<close>

definition cls_names :: "string list" where
  "cls_names =
     [''Query'', ''Execute'', ''Result'', ''Row'', ''Done'', ''Denied'', ''Error'', ''Hello'',
      ''Knock'', ''Presence'', ''Decision'', ''Help'', ''Media'', ''Graph'', ''BlobRef'',
      ''Message'', ''Projection'', ''ResonancePoint'', ''Excitable'', ''Radiant'',
      ''Sympathetic'', ''Coupling'', ''Field'', ''Entrain'', ''Vibration'', ''Damp'']"

definition prop_names :: "string list" where
  "prop_names =
     [''id'', ''mod'', ''signal'', ''params'', ''database'', ''rowLimit'', ''byteLimit'',
      ''timeoutMs'', ''column'', ''declType'', ''seq'', ''rowCount'', ''affectedRows'',
      ''lastInsertRowid'', ''truncated'', ''code'', ''reason'', ''ver'', ''enc'', ''mods'',
      ''hint'', ''topic'', ''contentType'', ''accepts'', ''at'', ''status'', ''endpoint'',
      ''message'', ''decision'', ''decidedBy'', ''hash'', ''bytes'', ''null'', ''from'',
      ''room'', ''body'', ''attachment'', ''re'', ''tag'', ''offers'', ''projects'',
      ''coupling'', ''field'', ''name'', ''datatype'', ''required'', ''default'', ''oneOf'',
      ''icon'', ''role'', ''fires'', ''signalTemplate'', ''paramsOrder'', ''point'']"

definition RDFS_LABEL :: string where "RDFS_LABEL = rdfs_iri ''label''"
definition RDFS_COMMENT :: string where "RDFS_COMMENT = rdfs_iri ''comment''"
definition XSD_BASE64_BINARY :: string where "XSD_BASE64_BINARY = xsd_iri ''base64Binary''"
definition COL_PREFIX :: string where "COL_PREFIX = ''col_''"

text \<open>Modulation tags: a base tag matches itself and any version suffixed after a dash.\<close>

definition mod_matches :: "string \<Rightarrow> string \<Rightarrow> bool" where
  "mod_matches requested advertised \<longleftrightarrow>
     advertised = requested
     \<or> (case strip_prefix requested advertised of
          None \<Rightarrow> False
        | Some rest \<Rightarrow>
            (case strip_prefix ''-'' rest of
               None \<Rightarrow> False
             | Some v \<Rightarrow> (case v of [] \<Rightarrow> False | c # _ \<Rightarrow> is_digit c)))"

lemma mod_matches_iff:
  "mod_matches r a \<longleftrightarrow> a = r \<or> (\<exists>d v. a = r @ ''-'' @ d # v \<and> is_digit d)"
  by (auto simp: mod_matches_def strip_prefix_Some_iff split: option.splits list.splits)

subsection \<open>RDF terms\<close>

datatype node = NamedNode string | BlankNode string

datatype rdf_literal =
  Lit (lit_value: string) (lit_datatype: string) (lit_lang: "string option")

datatype rdf_term = TNamed string | TBlank string | TLiteral rdf_literal

fun term_of_node :: "node \<Rightarrow> rdf_term" where
  "term_of_node (NamedNode i) = TNamed i"
| "term_of_node (BlankNode b) = TBlank b"

record triple =
  subject :: node
  predicate :: string
  object :: rdf_term

abbreviation plain_lit :: "string \<Rightarrow> rdf_term" where
  "plain_lit s \<equiv> TLiteral (Lit s (xsd_iri ''string'') None)"

abbreviation typed_lit :: "string \<Rightarrow> string \<Rightarrow> rdf_term" where
  "typed_lit s dt \<equiv> TLiteral (Lit s dt None)"

end
