(* ===== verification/Value.thy ===== *)
theory Value
  imports Float64 Vocab
begin

text \<open>
  Engine values and their literal mapping (\<open>crates/protocol/src/value.rs\<close>).

  An \<open>i64\<close> is an integer in the range \<open>is_i64\<close> (parsing rejects the rest), a \<open>u64\<close> a
  natural number below \<open>2 ^ 64\<close>, an \<open>f64\<close> its 64 bits, so that equality of values is
  the bitwise equality the source defines. The \<open>base64\<close>, \<open>oxrdf\<close> and \<open>oxttl\<close> crates
  are parameters, collected in the record \<open>ext\<close>: the base64 engine, the \<open>Display\<close>
  forms of terms, and the Turtle parser (with the implied prefixes registered) from a
  document to its triples.
\<close>

datatype wire_value =
    VNull
  | Integer int
  | Real f64
  | Text string
  | Blob "byte list"
  | BlobRef string nat

record ext =
  b64_encode :: "byte list \<Rightarrow> string"
  b64_decode :: "string \<Rightarrow> byte list option"
  disp_node :: "node \<Rightarrow> string"
  disp_iri :: "string \<Rightarrow> string"
  disp_term :: "rdf_term \<Rightarrow> string"
  turtle :: "string \<Rightarrow> (unit, triple list) result"

text \<open>The impl of \<open>PartialEq\<close>.\<close>

fun value_eq :: "wire_value \<Rightarrow> wire_value \<Rightarrow> bool" where
  "value_eq VNull VNull = True"
| "value_eq (Integer a) (Integer b) = (a = b)"
| "value_eq (Real a) (Real b) = (unat a = unat b)"
| "value_eq (Text a) (Text b) = (a = b)"
| "value_eq (Blob a) (Blob b) = (a = b)"
| "value_eq (BlobRef h1 b1) (BlobRef h2 b2) = (h1 = h2 \<and> b1 = b2)"
| "value_eq _ _ = False"

lemma value_eq_iff: "value_eq v w \<longleftrightarrow> v = w"
  by (cases v; cases w) (simp_all add: word_unat_eq_iff)

definition format_double :: "f64 \<Rightarrow> string" where
  "format_double f =
     (if is_nan f then ''NaN''
      else if is_inf f \<and> \<not> f_neg f then ''INF''
      else if is_inf f \<and> f_neg f then ''-INF''
      else lower_exp f)"

definition parse_double :: "string \<Rightarrow> (protocol_error, f64) result" where
  "parse_double lx =
     (if lx = ''INF'' \<or> lx = ''+INF'' then Inr (mk_f64 False inf_bits)
      else if lx = ''-INF'' then Inr (mk_f64 True inf_bits)
      else if lx = ''NaN'' then Inr (mk_f64 False nan_bits)
      else ok_or (parse_f64 (trim lx)) (Malformed (InvalidDouble lx)))"

definition parse_integer :: "string \<Rightarrow> (protocol_error, int) result" where
  "parse_integer lx = ok_or (parse_i64 (trim lx)) (Malformed (InvalidInteger lx))"

definition encode_base64 :: "ext \<Rightarrow> byte list \<Rightarrow> string" where
  "encode_base64 x bs = b64_encode x bs"

definition ascii_whitespace :: "char \<Rightarrow> bool" where
  "ascii_whitespace c \<longleftrightarrow> (of_char c :: nat) \<in> {9, 10, 12, 13, 32}"

definition decode_base64 :: "ext \<Rightarrow> string \<Rightarrow> (protocol_error, byte list) result" where
  "decode_base64 x lx =
     ok_or (b64_decode x (filter (\<lambda>c. \<not> ascii_whitespace c) lx)) (Malformed InvalidBase64)"

text \<open>
  What the source relies on from the base64 engine: the alphabet of \<open>STANDARD\<close> is
  printable ASCII, and decoding inverts encoding.
\<close>

definition b64_law :: "ext \<Rightarrow> bool" where
  "b64_law x \<longleftrightarrow>
     (\<forall>bs. b64_decode x (b64_encode x bs) = Some bs \<and> list_all no_space (b64_encode x bs))"

subsection \<open>Round trips\<close>

lemma lower_exp_not_special:
  "lower_exp f \<noteq> ''INF''" "lower_exp f \<noteq> ''+INF''" "lower_exp f \<noteq> ''-INF''" "lower_exp f \<noteq> ''NaN''"
proof -
  obtain d e where le: "lower_exp f = (if f_neg f then ''-'' else []) @ show_exp d e"
    unfolding lower_exp_def Let_def by (cases "if f_mag f = 0 then (0, 0) else
      case shortest (f_mag f) 1 of (d, e) \<Rightarrow> strip_zeros d e") auto
  obtain c r where c: "show_exp d e = c # r" by (cases "show_exp d e") auto
  then have "is_digit c" by (rule show_exp_hd)
  then have "c \<noteq> CHR ''I''" "c \<noteq> CHR ''N''" "c \<noteq> CHR ''+''" "c \<noteq> CHR ''-''"
    by (auto simp: is_digit_def)
  with le c show "lower_exp f \<noteq> ''INF''" "lower_exp f \<noteq> ''+INF''" "lower_exp f \<noteq> ''-INF''"
    "lower_exp f \<noteq> ''NaN''" by auto
qed

lemma f_inf: "is_inf f \<Longrightarrow> mk_f64 (f_neg f) inf_bits = f"
  using mk_f64_parts [of f] by (simp add: is_inf_def)

lemma double_finite:
  "\<not> is_nan f \<Longrightarrow> \<not> is_inf f \<Longrightarrow> parse_double (lower_exp f) = Inr f"
  by (simp add: parse_double_def lower_exp_not_special trim_no_space lower_exp_no_space
      parse_lower_exp is_nan_def is_inf_def)

lemma parse_format_double:
  "\<not> is_nan f \<or> f = mk_f64 False nan_bits \<Longrightarrow> parse_double (format_double f) = Inr f"
proof (cases "is_nan f")
  case True
  moreover assume "\<not> is_nan f \<or> f = mk_f64 False nan_bits"
  ultimately show ?thesis by (simp add: format_double_def parse_double_def)
next
  case False
  then show ?thesis
    using f_inf [of f] by (cases "is_inf f"; cases "f_neg f")
      (simp_all add: format_double_def double_finite, simp_all add: parse_double_def)
qed

lemma parse_integer_show: "is_i64 i \<Longrightarrow> parse_integer (show_int i) = Inr i"
  by (simp add: parse_integer_def parse_i64_show_int)

lemma parse_integer_range: "parse_integer s = Inr i \<Longrightarrow> is_i64 i"
  by (auto simp: parse_integer_def ok_or_def split: option.splits dest: parse_i64_range)

lemma no_space_not_ws: "no_space c \<Longrightarrow> \<not> ascii_whitespace c"
  by (auto simp: no_space_def ascii_whitespace_def Let_def)

lemma filter_no_space: "list_all no_space s \<Longrightarrow> filter (\<lambda>c. \<not> ascii_whitespace c) s = s"
  by (auto simp: filter_id_conv list_all_iff dest: no_space_not_ws)

lemma base64_round_trip: "b64_law x \<Longrightarrow> decode_base64 x (encode_base64 x bs) = Inr bs"
  by (simp add: decode_base64_def encode_base64_def b64_law_def filter_no_space)

end
