(* ===== verification/Envelope_Types.thy ===== *)
theory Envelope_Types
  imports Value
begin

text \<open>
  The envelope objects (\<open>crates/protocol/src/envelope.rs\<close>, the type definitions): one
  record per wire class, and the sum of them that one frame decodes to. A field carries
  the source's name behind a prefix for its struct.
\<close>

record statement =
  st_id :: string
  st_modulation :: string
  st_signal :: string
  st_params :: "wire_value list"
  st_database :: "string option"
  st_row_limit :: "int option"
  st_byte_limit :: "int option"
  st_timeout_ms :: "int option"

record result_header =
  rh_id :: string
  rh_columns :: "string list"
  rh_decl_types :: "string list"

record row =
  row_seq :: int
  row_cells :: "(string \<times> wire_value) list"

record done_trailer =
  dn_id :: string
  dn_row_count :: "int option"
  dn_affected_rows :: "int option"
  dn_last_insert_rowid :: "int option"
  dn_truncated :: bool

record denied =
  de_id :: "string option"
  de_reason :: "string option"

record error_envelope =
  er_id :: "string option"
  er_code :: string
  er_reason :: "string option"

record hello =
  he_envelope_version :: string
  he_encodings :: "string list"
  he_mods :: "string list"
  he_hint :: "string option"

record knock =
  kn_id :: "string option"
  kn_message :: string

record presence =
  pr_at :: string
  pr_status :: "string option"
  pr_endpoint :: "string option"

record wire_decision =
  wd_id :: "string option"
  wd_decision :: string
  wd_decided_by :: string
  wd_reason :: "string option"
  wd_at :: "string option"

record help_text =
  hp_id :: "string option"
  hp_signal :: string
  hp_topics :: "string list"

record media =
  md_id :: string
  md_content_type :: string

record audio_duplex =
  ad_id :: string
  ad_content_type :: "string option"
  ad_accepts :: string

record graph =
  gr_id :: string
  gr_seq :: int
  gr_payload :: "triple list"

record generic =
  ge_class :: string
  ge_props :: "(string \<times> rdf_term) list"

subsection \<open>Projection vocabulary\<close>

datatype point_kind = Excitable | Radiant | Sympathetic | Bare | Other string

record point_field =
  pf_name :: string
  pf_datatype :: "string option"
  pf_required :: bool
  pf_default :: "wire_value option"
  pf_one_of :: "wire_value list"
  pf_hint :: "string option"

record point =
  pt_iri :: string
  pt_kind :: point_kind
  pt_label :: "string option"
  pt_comment :: "string option"
  pt_icon :: "string option"
  pt_role :: "string option"
  pt_projects :: "string option"
  pt_coupling :: "point_field list"
  pt_modulation :: "string option"
  pt_signal :: "string option"
  pt_params_order :: "string list"
  pt_signal_template :: "string option"
  pt_fires :: "string option"

record projection =
  pj_id :: "string option"
  pj_offers :: "point list"

record entrain =
  en_id :: string
  en_point :: string

record damp =
  da_id :: "string option"
  da_point :: string

record vibration =
  vi_id :: string
  vi_point :: string
  vi_seq :: int
  vi_at :: "string option"
  vi_payload :: "triple list"

datatype envelope_object =
    Query statement
  | Execute statement
  | Result result_header
  | Row "row list"
  | Done done_trailer
  | Denied denied
  | Error error_envelope
  | Hello hello
  | Knock knock
  | Presence presence
  | Decision wire_decision
  | Help help_text
  | Media media
  | AudioDuplex audio_duplex
  | Projection projection
  | Entrain entrain
  | Vibration vibration
  | Damp damp
  | Graph graph
  | Generic generic

text \<open>\<open>envelope_class_name\<close> of \<open>crates/protocol/src/request.rs\<close>, for error messages.\<close>

fun envelope_class_name :: "envelope_object \<Rightarrow> string" where
  "envelope_class_name (Query _) = ''rsntr:Query''"
| "envelope_class_name (Execute _) = ''rsntr:Execute''"
| "envelope_class_name (Result _) = ''rsntr:Result''"
| "envelope_class_name (Row _) = ''rsntr:Row''"
| "envelope_class_name (Done _) = ''rsntr:Done''"
| "envelope_class_name (Denied _) = ''rsntr:Denied''"
| "envelope_class_name (Error _) = ''rsntr:Error''"
| "envelope_class_name (Hello _) = ''rsntr:Hello''"
| "envelope_class_name (Knock _) = ''rsntr:Knock''"
| "envelope_class_name (Presence _) = ''rsntr:Presence''"
| "envelope_class_name (Decision _) = ''rsntr:Decision''"
| "envelope_class_name (Help _) = ''rsntr:Help''"
| "envelope_class_name (Media _) = ''rsntr:Media''"
| "envelope_class_name (AudioDuplex _) = ''rsntr:AudioDuplex''"
| "envelope_class_name (Projection _) = ''rsntr:Projection''"
| "envelope_class_name (Entrain _) = ''rsntr:Entrain''"
| "envelope_class_name (Vibration _) = ''rsntr:Vibration''"
| "envelope_class_name (Damp _) = ''rsntr:Damp''"
| "envelope_class_name (Graph _) = ''rsntr:Graph''"
| "envelope_class_name (Generic _) = ''a generic rsntr frame''"

text \<open>The row size estimate used to split batches; \<open>usize\<close> sums of in-memory lengths.\<close>

fun estimate_value_bytes :: "wire_value \<Rightarrow> nat" where
  "estimate_value_bytes VNull = 0"
| "estimate_value_bytes (Integer _) = 20"
| "estimate_value_bytes (Real _) = 26"
| "estimate_value_bytes (Text t) = length t + 16"
| "estimate_value_bytes (Blob b) = length b * 4 div 3 + 32"
| "estimate_value_bytes (BlobRef h _) = length h + 64"

definition estimate_row_bytes :: "row \<Rightarrow> nat" where
  "estimate_row_bytes r =
     32 + sum_list (map (\<lambda>(name, v). length name + 12 + estimate_value_bytes v) (row_cells r))"

end
