(* ===== verification/Column_Name.thy ===== *)
theory Column_Name
  imports Protocol_Error
begin

text \<open>
  Column predicates \<open>rsntr:col_<name>\<close>: the percent encoding of column names
  (\<open>encode_column_name\<close> and \<open>decode_column_name\<close> of \<open>crates/protocol/src/envelope.rs\<close>).
\<close>

definition plain_name_char :: "char \<Rightarrow> bool" where
  "plain_name_char c \<longleftrightarrow> is_alnum c \<or> c = CHR ''_''"

fun encode_column_name :: "string \<Rightarrow> string" where
  "encode_column_name [] = []"
| "encode_column_name (b # bs) =
     (if plain_name_char b then [b] else CHR ''%'' # hex2 True (of_char b)) @ encode_column_name bs"

definition hex_pair :: "char \<Rightarrow> char \<Rightarrow> nat option" where
  "hex_pair hi lo =
     (case hex_val hi of None \<Rightarrow> None
      | Some a \<Rightarrow> (case hex_val lo of None \<Rightarrow> None | Some b \<Rightarrow> Some (a * 16 + b)))"

text \<open>The byte loop of the decoder; the first argument is the whole input, for errors.\<close>

fun unescape_bytes :: "string \<Rightarrow> string \<Rightarrow> (protocol_error, string) result" where
  "unescape_bytes enc [] = Inr []"
| "unescape_bytes enc (b # r) =
     (if b \<noteq> CHR ''%'' then rbind (unescape_bytes enc r) (\<lambda>bs. Inr (b # bs))
      else case r of
        hi # lo # r' \<Rightarrow>
          (case hex_pair hi lo of
             None \<Rightarrow> Inl (Malformed (InvalidEscape enc))
           | Some v \<Rightarrow> rbind (unescape_bytes enc r') (\<lambda>bs. Inr (char_of v # bs)))
      | _ \<Rightarrow> Inl (Malformed (TruncatedEscape enc)))"

definition decode_column_name :: "string \<Rightarrow> (protocol_error, string) result" where
  "decode_column_name enc =
     rbind (unescape_bytes enc enc)
       (\<lambda>bs. if utf8_string bs then Inr bs else Inl (Malformed (ColumnNotUtf8 enc)))"

lemma hex_pair_hex2: "n < 256 \<Longrightarrow> hex_pair (hex_digit up (n div 16)) (hex_digit up (n mod 16)) = Some n"
  by (simp add: hex_pair_def less_mult_imp_div_less)

lemma percent_not_plain: "\<not> plain_name_char (CHR ''%'')"
  by (simp add: plain_name_char_def is_alnum_def is_upper_def is_lower_def is_digit_def)

lemma unescape_encode: "unescape_bytes enc (encode_column_name s) = Inr s"
proof (induction s)
  case Nil
  then show ?case by simp
next
  case (Cons b bs)
  then show ?case
    using percent_not_plain by (auto simp: hex2_def hex_pair_hex2)
qed

lemma decode_encode_column_name:
  "decode_column_name (encode_column_name s) =
     (if utf8_string s then Inr s else Inl (Malformed (ColumnNotUtf8 (encode_column_name s))))"
  by (simp add: decode_column_name_def unescape_encode)

lemma encode_column_name_chars:
  "c \<in> set (encode_column_name s) \<Longrightarrow> plain_name_char c \<or> c = CHR ''%''"
proof (induction s)
  case Nil
  then show ?case by simp
next
  case (Cons b bs)
  have h: "plain_name_char (hex_digit True (of_char b div 16))"
    "plain_name_char (hex_digit True (of_char b mod 16))"
    by (auto simp: plain_name_char_def less_mult_imp_div_less intro!: hex_digit_alnum)
  from Cons h show ?case by (auto simp: hex2_def split: if_splits)
qed

lemma encode_column_name_inject:
  "encode_column_name s = encode_column_name t \<longleftrightarrow> s = t"
  using unescape_encode by (metis sum.inject(2))

end
