(* ===== verification/Envelope_Decode.thy ===== *)
theory Envelope_Decode
  imports Envelope_Types Column_Name
begin

text \<open>
  From the triples of one frame to an envelope object (\<open>crates/protocol/src/envelope.rs\<close>,
  the decoding half). A frame's document is the list of its triples in document order,
  as the Turtle parser yields them.
\<close>

type_synonym doc = "triple list"

definition bad :: "malformed \<Rightarrow> protocol_error" where
  "bad m = Malformed m"

subsection \<open>Accessors of \<open>Doc\<close>\<close>

definition pairs :: "doc \<Rightarrow> node \<Rightarrow> (string \<times> rdf_term) list" where
  "pairs d s = map (\<lambda>t. (predicate t, object t)) (filter (\<lambda>t. subject t = s) d)"

definition one :: "doc \<Rightarrow> node \<Rightarrow> string \<Rightarrow> rdf_term option" where
  "one d s p = map_of (pairs d s) p"

definition get_text :: "doc \<Rightarrow> node \<Rightarrow> string \<Rightarrow> (protocol_error, string option) result" where
  "get_text d s p =
     (case one d s p of
        None \<Rightarrow> Inr None
      | Some (TLiteral l) \<Rightarrow> Inr (Some (lit_value l))
      | Some _ \<Rightarrow> Inl (bad (ExpectedLiteral p)))"

definition need_text :: "doc \<Rightarrow> node \<Rightarrow> string \<Rightarrow> (protocol_error, string) result" where
  "need_text d s p = rbind (get_text d s p) (\<lambda>v. ok_or v (bad (MissingProperty p)))"

definition get_int :: "doc \<Rightarrow> node \<Rightarrow> string \<Rightarrow> (protocol_error, int option) result" where
  "get_int d s p =
     rbind (get_text d s p)
       (\<lambda>v. case v of None \<Rightarrow> Inr None | Some l \<Rightarrow> rbind (parse_integer l) (\<lambda>i. Inr (Some i)))"

definition get_bool :: "doc \<Rightarrow> node \<Rightarrow> string \<Rightarrow> (protocol_error, bool option) result" where
  "get_bool d s p =
     rbind (get_text d s p)
       (\<lambda>v. case v of
          None \<Rightarrow> Inr None
        | Some l \<Rightarrow>
            (let b = trim l
             in if b = ''true'' \<or> b = ''1'' then Inr (Some True)
                else if b = ''false'' \<or> b = ''0'' then Inr (Some False)
                else Inl (bad (InvalidBoolean b))))"

definition get_texts :: "doc \<Rightarrow> node \<Rightarrow> string \<Rightarrow> (protocol_error, string list) result" where
  "get_texts d s p =
     mapM (\<lambda>(_, obj). case obj of TLiteral l \<Rightarrow> Inr (lit_value l) | _ \<Rightarrow> Inl (bad (ExpectedLiteral p)))
       (filter (\<lambda>(q, _). q = p) (pairs d s))"

definition get_iri :: "doc \<Rightarrow> node \<Rightarrow> string \<Rightarrow> (protocol_error, string option) result" where
  "get_iri d s p =
     (case one d s p of
        None \<Rightarrow> Inr None
      | Some (TNamed n) \<Rightarrow> Inr (Some n)
      | Some _ \<Rightarrow> Inl (bad (ExpectedIri p)))"

definition need_iri :: "doc \<Rightarrow> node \<Rightarrow> string \<Rightarrow> (protocol_error, string) result" where
  "need_iri d s p = rbind (get_iri d s p) (\<lambda>v. ok_or v (bad (MissingIriProperty p)))"

text \<open>The rdf:List walk; the first argument is the iterations left.\<close>

fun list_walk :: "nat \<Rightarrow> doc \<Rightarrow> rdf_term \<Rightarrow> (protocol_error, rdf_term list) result" where
  "list_walk 0 d here = Inl (bad ListTooLong)"
| "list_walk (Suc n) d here =
     (if here = TNamed (rdf_iri ''nil'') then Inr []
      else rbind (case here of
                    TNamed i \<Rightarrow> Inr (NamedNode i)
                  | TBlank b \<Rightarrow> Inr (BlankNode b)
                  | _ \<Rightarrow> Inl (bad InvalidListNode))
        (\<lambda>node. rbind (ok_or (one d node (rdf_iri ''first'')) (bad ListWithoutFirst))
          (\<lambda>item. rbind (ok_or (one d node (rdf_iri ''rest'')) (bad ListWithoutRest))
            (\<lambda>rest. rbind (list_walk n d rest) (\<lambda>items. Inr (item # items))))))"

definition LIST_BOUND :: nat where
  "LIST_BOUND = 1000000"

definition doc_list :: "doc \<Rightarrow> rdf_term \<Rightarrow> (protocol_error, rdf_term list) result" where
  "doc_list d head = list_walk LIST_BOUND d head"

definition text_list :: "doc \<Rightarrow> node \<Rightarrow> string \<Rightarrow> (protocol_error, string list) result" where
  "text_list d s p =
     (case one d s p of
        None \<Rightarrow> Inr []
      | Some head \<Rightarrow>
          rbind (doc_list d head)
            (mapM (\<lambda>t. case t of TLiteral l \<Rightarrow> Inr (lit_value l)
                       | _ \<Rightarrow> Inl (bad (ExpectedStringInList p)))))"

text \<open>One RDF term in value position.\<close>

definition value_of :: "ext \<Rightarrow> doc \<Rightarrow> rdf_term \<Rightarrow> (protocol_error, wire_value) result" where
  "value_of x d t =
     (case t of
        TNamed n \<Rightarrow> if n = rsntr_iri ''null'' then Inr VNull else Inl (bad (UnexpectedIri n))
      | TBlank b \<Rightarrow>
          (let s = BlankNode b
           in if one d s (rdf_iri ''type'') = Some (TNamed (rsntr_iri ''BlobRef''))
              then rbind (need_text d s (rsntr_iri ''hash''))
                (\<lambda>hash. rbind (need_text d s (rsntr_iri ''bytes''))
                  (\<lambda>lx. rbind (ok_or (parse_u64 (trim lx)) (bad (InvalidBytesLiteral lx)))
                    (\<lambda>bytes. Inr (BlobRef hash bytes))))
              else Inl (bad NotABlobRef))
      | TLiteral l \<Rightarrow>
          (let dt = lit_datatype l
           in if dt = xsd_iri ''string'' then Inr (Text (lit_value l))
              else if dt = xsd_iri ''integer''
              then rbind (parse_integer (lit_value l)) (\<lambda>i. Inr (Integer i))
              else if dt = xsd_iri ''double'' \<or> dt = xsd_iri ''float'' \<or> dt = xsd_iri ''decimal''
              then rbind (parse_double (lit_value l)) (\<lambda>f. Inr (Real f))
              else if dt = XSD_BASE64_BINARY
              then rbind (decode_base64 x (lit_value l)) (\<lambda>b. Inr (Blob b))
              else Inl (bad (UnsupportedDatatype dt))))"

definition value_list :: "ext \<Rightarrow> doc \<Rightarrow> node \<Rightarrow> string \<Rightarrow> (protocol_error, wire_value list) result" where
  "value_list x d s p =
     (case one d s p of
        None \<Rightarrow> Inr []
      | Some head \<Rightarrow> rbind (doc_list d head) (mapM (value_of x d)))"

subsection \<open>Reading the classes\<close>

definition read_statement :: "ext \<Rightarrow> doc \<Rightarrow> node \<Rightarrow> (protocol_error, statement) result" where
  "read_statement x d s =
     rbind (need_text d s (rsntr_iri ''id'')) (\<lambda>i.
     rbind (need_text d s (rsntr_iri ''mod'')) (\<lambda>m.
     rbind (need_text d s (rsntr_iri ''signal'')) (\<lambda>sig.
     rbind (value_list x d s (rsntr_iri ''params'')) (\<lambda>ps.
     rbind (get_text d s (rsntr_iri ''database'')) (\<lambda>db.
     rbind (get_int d s (rsntr_iri ''rowLimit'')) (\<lambda>rl.
     rbind (get_int d s (rsntr_iri ''byteLimit'')) (\<lambda>bl.
     rbind (get_int d s (rsntr_iri ''timeoutMs'')) (\<lambda>tm.
       Inr \<lparr>st_id = i, st_modulation = m, st_signal = sig, st_params = ps, st_database = db,
            st_row_limit = rl, st_byte_limit = bl, st_timeout_ms = tm\<rparr>))))))))"

text \<open>One \<open>rsntr:Row\<close>: the loop over its pairs, with the sequence number seen so far.\<close>

fun read_row_pairs ::
  "ext \<Rightarrow> doc \<Rightarrow> (string \<times> rdf_term) list \<Rightarrow> int option \<Rightarrow> (string \<times> wire_value) list
    \<Rightarrow> (protocol_error, int option \<times> (string \<times> wire_value) list) result" where
  "read_row_pairs x d [] sq cells = Inr (sq, cells)"
| "read_row_pairs x d ((p, obj) # r) sq cells =
     (if p = rdf_iri ''type'' then read_row_pairs x d r sq cells
      else if p = rsntr_iri ''seq''
      then (case obj of
              TLiteral l \<Rightarrow>
                rbind (parse_integer (lit_value l)) (\<lambda>i. read_row_pairs x d r (Some i) cells)
            | _ \<Rightarrow> Inl (bad SeqNotLiteral))
      else case Option.bind (strip_prefix RSNTR_NS p) (strip_prefix COL_PREFIX) of
        Some enc \<Rightarrow>
          rbind (decode_column_name enc) (\<lambda>name.
          rbind (value_of x d obj) (\<lambda>v. read_row_pairs x d r sq (cells @ [(name, v)])))
      | None \<Rightarrow> read_row_pairs x d r sq cells)"

definition read_row :: "ext \<Rightarrow> doc \<Rightarrow> node \<Rightarrow> (protocol_error, row) result" where
  "read_row x d s =
     rbind (read_row_pairs x d (pairs d s) None []) (\<lambda>(sq, cells).
     rbind (ok_or sq (bad RowWithoutSeq)) (\<lambda>q. Inr \<lparr>row_seq = q, row_cells = cells\<rparr>))"

definition as_node :: "rdf_term \<Rightarrow> (protocol_error, node) result" where
  "as_node t =
     (case t of TNamed n \<Rightarrow> Inr (NamedNode n) | TBlank b \<Rightarrow> Inr (BlankNode b)
      | _ \<Rightarrow> Inl (bad ExpectedNode))"

definition read_field :: "ext \<Rightarrow> doc \<Rightarrow> rdf_term \<Rightarrow> (protocol_error, point_field) result" where
  "read_field x d t =
     rbind (as_node t) (\<lambda>n.
     rbind (case one d n (rsntr_iri ''default'') of
              None \<Rightarrow> Inr None
            | Some obj \<Rightarrow> rbind (value_of x d obj) (\<lambda>v. Inr (Some v))) (\<lambda>dflt.
     rbind (need_text d n (rsntr_iri ''name'')) (\<lambda>name.
     rbind (get_iri d n (rsntr_iri ''datatype'')) (\<lambda>dt.
     rbind (get_bool d n (rsntr_iri ''required'')) (\<lambda>req.
     rbind (value_list x d n (rsntr_iri ''oneOf'')) (\<lambda>oneof.
     rbind (get_text d n (rsntr_iri ''hint'')) (\<lambda>hint.
       Inr \<lparr>pf_name = name, pf_datatype = dt,
            pf_required = (case req of None \<Rightarrow> False | Some b \<Rightarrow> b), pf_default = dflt,
            pf_one_of = oneof, pf_hint = hint\<rparr>)))))))"

definition read_coupling :: "ext \<Rightarrow> doc \<Rightarrow> rdf_term \<Rightarrow> (protocol_error, point_field list) result" where
  "read_coupling x d t =
     rbind (as_node t) (\<lambda>n.
       case one d n (rsntr_iri ''field'') of
         None \<Rightarrow> Inr []
       | Some head \<Rightarrow> rbind (doc_list d head) (mapM (read_field x d)))"

definition read_point_kind :: "doc \<Rightarrow> node \<Rightarrow> (protocol_error, point_kind) result" where
  "read_point_kind d s =
     (case one d s (rdf_iri ''type'') of
        None \<Rightarrow> Inr Bare
      | Some (TNamed c) \<Rightarrow>
          if c = rsntr_iri ''Excitable'' then Inr Excitable
          else if c = rsntr_iri ''Radiant'' then Inr Radiant
          else if c = rsntr_iri ''Sympathetic'' then Inr Sympathetic
          else if c = rsntr_iri ''ResonancePoint'' then Inr Bare
          else Inr (Other c)
      | Some _ \<Rightarrow> Inl (bad PointTypeNotIri))"

definition read_point :: "ext \<Rightarrow> doc \<Rightarrow> string \<Rightarrow> (protocol_error, point) result" where
  "read_point x d iri =
     (let s = NamedNode iri in
     rbind (read_point_kind d s) (\<lambda>kind.
     rbind (case one d s (rsntr_iri ''coupling'') of
              None \<Rightarrow> Inr [] | Some t \<Rightarrow> read_coupling x d t) (\<lambda>coupling.
     rbind (get_text d s RDFS_LABEL) (\<lambda>label.
     rbind (get_text d s RDFS_COMMENT) (\<lambda>cmt.
     rbind (get_text d s (rsntr_iri ''icon'')) (\<lambda>icon.
     rbind (get_text d s (rsntr_iri ''role'')) (\<lambda>role.
     rbind (get_text d s (rsntr_iri ''projects'')) (\<lambda>projects.
     rbind (get_text d s (rsntr_iri ''mod'')) (\<lambda>modulation.
     rbind (get_text d s (rsntr_iri ''signal'')) (\<lambda>sig.
     rbind (text_list d s (rsntr_iri ''paramsOrder'')) (\<lambda>order.
     rbind (get_text d s (rsntr_iri ''signalTemplate'')) (\<lambda>template.
     rbind (get_text d s (rsntr_iri ''fires'')) (\<lambda>fires.
       Inr \<lparr>pt_iri = iri, pt_kind = kind, pt_label = label, pt_comment = cmt, pt_icon = icon,
            pt_role = role, pt_projects = projects, pt_coupling = coupling,
            pt_modulation = modulation, pt_signal = sig, pt_params_order = order,
            pt_signal_template = template, pt_fires = fires\<rparr>)))))))))))))"

definition read_projection :: "ext \<Rightarrow> doc \<Rightarrow> node \<Rightarrow> (protocol_error, envelope_object) result" where
  "read_projection x d s =
     rbind (get_text d s (rsntr_iri ''id'')) (\<lambda>i.
     rbind (case one d s (rsntr_iri ''offers'') of
              None \<Rightarrow> Inr []
            | Some head \<Rightarrow>
                rbind (doc_list d head)
                  (mapM (\<lambda>t. case t of TNamed iri \<Rightarrow> read_point x d iri
                             | _ \<Rightarrow> Inl (bad OffersEntryNotIri)))) (\<lambda>offers.
       Inr (Projection \<lparr>pj_id = i, pj_offers = offers\<rparr>)))"

definition companions :: "doc \<Rightarrow> node \<Rightarrow> triple list" where
  "companions d s = filter (\<lambda>t. subject t \<noteq> s) d"

definition read_vibration :: "doc \<Rightarrow> node \<Rightarrow> (protocol_error, envelope_object) result" where
  "read_vibration d s =
     rbind (need_text d s (rsntr_iri ''id'')) (\<lambda>i.
     rbind (need_iri d s (rsntr_iri ''point'')) (\<lambda>p.
     rbind (get_int d s (rsntr_iri ''seq'')) (\<lambda>sq.
     rbind (ok_or sq (bad VibrationWithoutSeq)) (\<lambda>q.
     rbind (get_text d s (rsntr_iri ''at'')) (\<lambda>at.
       Inr (Vibration \<lparr>vi_id = i, vi_point = p, vi_seq = q, vi_at = at,
                       vi_payload = companions d s\<rparr>))))))"

definition read_graph :: "doc \<Rightarrow> node \<Rightarrow> (protocol_error, envelope_object) result" where
  "read_graph d s =
     rbind (need_text d s (rsntr_iri ''id'')) (\<lambda>i.
     rbind (get_int d s (rsntr_iri ''seq'')) (\<lambda>sq.
     rbind (ok_or sq (bad GraphWithoutSeq)) (\<lambda>q.
       Inr (Graph \<lparr>gr_id = i, gr_seq = q, gr_payload = companions d s\<rparr>))))"

subsection \<open>Dispatch\<close>

text \<open>
  The scan for typed subjects: the subjects with an \<open>rsntr:\<close> class (first class wins,
  document order, \<open>BlobRef\<close> left out) and the first class outside the namespace.
\<close>

fun scan_types ::
  "triple list \<Rightarrow> (node \<times> string) list \<Rightarrow> string option \<Rightarrow> (node \<times> string) list \<times> string option" where
  "scan_types [] typed alien = (typed, alien)"
| "scan_types (t # ts) typed alien =
     (if predicate t \<noteq> rdf_iri ''type'' then scan_types ts typed alien
      else case object t of
        TNamed class \<Rightarrow>
          (case strip_prefix RSNTR_NS class of
             None \<Rightarrow> scan_types ts typed (case alien of None \<Rightarrow> Some class | Some a \<Rightarrow> Some a)
           | Some local \<Rightarrow>
               if local = ''BlobRef'' then scan_types ts typed alien
               else if subject t \<in> fst ` set typed then scan_types ts typed alien
               else scan_types ts (typed @ [(subject t, local)]) alien)
      | _ \<Rightarrow> scan_types ts typed alien)"

text \<open>The single subject carrying a class, if any.\<close>

definition only :: "(node \<times> string) list \<Rightarrow> string \<Rightarrow> (protocol_error, node option) result" where
  "only typed class =
     (case filter (\<lambda>(_, c). c = class) typed of
        [] \<Rightarrow> Inr None
      | [(s, _)] \<Rightarrow> Inr (Some s)
      | _ \<Rightarrow> Inl (bad (RepeatedSubject class)))"

definition decode_class :: "ext \<Rightarrow> doc \<Rightarrow> node \<Rightarrow> string \<Rightarrow> (protocol_error, envelope_object) result" where
  "decode_class x d s class =
     (if class = ''Query'' then rbind (read_statement x d s) (\<lambda>st. Inr (Query st))
      else if class = ''Execute'' then rbind (read_statement x d s) (\<lambda>st. Inr (Execute st))
      else if class = ''Result'' then
        rbind (need_text d s (rsntr_iri ''id'')) (\<lambda>i.
        rbind (text_list d s (rsntr_iri ''column'')) (\<lambda>cols.
        rbind (text_list d s (rsntr_iri ''declType'')) (\<lambda>decl.
          Inr (Result \<lparr>rh_id = i, rh_columns = cols, rh_decl_types = decl\<rparr>))))
      else if class = ''Done'' then
        rbind (need_text d s (rsntr_iri ''id'')) (\<lambda>i.
        rbind (get_int d s (rsntr_iri ''rowCount'')) (\<lambda>rc.
        rbind (get_int d s (rsntr_iri ''affectedRows'')) (\<lambda>ar.
        rbind (get_int d s (rsntr_iri ''lastInsertRowid'')) (\<lambda>li.
        rbind (get_bool d s (rsntr_iri ''truncated'')) (\<lambda>tr.
          Inr (Done \<lparr>dn_id = i, dn_row_count = rc, dn_affected_rows = ar,
                     dn_last_insert_rowid = li,
                     dn_truncated = (case tr of None \<Rightarrow> False | Some b \<Rightarrow> b)\<rparr>))))))
      else if class = ''Denied'' then
        rbind (get_text d s (rsntr_iri ''id'')) (\<lambda>i.
        rbind (get_text d s (rsntr_iri ''reason'')) (\<lambda>r.
          Inr (Denied \<lparr>de_id = i, de_reason = r\<rparr>)))
      else if class = ''Error'' then
        rbind (get_text d s (rsntr_iri ''id'')) (\<lambda>i.
        rbind (need_text d s (rsntr_iri ''code'')) (\<lambda>c.
        rbind (get_text d s (rsntr_iri ''reason'')) (\<lambda>r.
          Inr (Error \<lparr>er_id = i, er_code = c, er_reason = r\<rparr>))))
      else if class = ''Hello'' then
        rbind (need_text d s (rsntr_iri ''ver'')) (\<lambda>v.
        rbind (get_texts d s (rsntr_iri ''enc'')) (\<lambda>enc.
        rbind (get_texts d s (rsntr_iri ''mods'')) (\<lambda>mods.
        rbind (get_text d s (rsntr_iri ''hint'')) (\<lambda>hint.
          Inr (Hello \<lparr>he_envelope_version = v, he_encodings = enc, he_mods = mods,
                      he_hint = hint\<rparr>)))))
      else if class = ''Knock'' then
        rbind (get_text d s (rsntr_iri ''id'')) (\<lambda>i.
        rbind (need_text d s (rsntr_iri ''message'')) (\<lambda>m.
          Inr (Knock \<lparr>kn_id = i, kn_message = m\<rparr>)))
      else if class = ''Presence'' then
        rbind (need_text d s (rsntr_iri ''at'')) (\<lambda>at.
        rbind (get_text d s (rsntr_iri ''status'')) (\<lambda>st.
        rbind (get_text d s (rsntr_iri ''endpoint'')) (\<lambda>e.
          Inr (Presence \<lparr>pr_at = at, pr_status = st, pr_endpoint = e\<rparr>))))
      else if class = ''Decision'' then
        rbind (get_text d s (rsntr_iri ''id'')) (\<lambda>i.
        rbind (need_text d s (rsntr_iri ''decision'')) (\<lambda>dec.
        rbind (need_text d s (rsntr_iri ''decidedBy'')) (\<lambda>by.
        rbind (get_text d s (rsntr_iri ''reason'')) (\<lambda>r.
        rbind (get_text d s (rsntr_iri ''at'')) (\<lambda>at.
          Inr (Decision \<lparr>wd_id = i, wd_decision = dec, wd_decided_by = by, wd_reason = r,
                         wd_at = at\<rparr>))))))
      else if class = ''Help'' then
        rbind (get_text d s (rsntr_iri ''id'')) (\<lambda>i.
        rbind (need_text d s (rsntr_iri ''signal'')) (\<lambda>sig.
        rbind (get_texts d s (rsntr_iri ''topic'')) (\<lambda>tps.
          Inr (Help \<lparr>hp_id = i, hp_signal = sig, hp_topics = tps\<rparr>))))
      else if class = ''Media'' then
        rbind (need_text d s (rsntr_iri ''id'')) (\<lambda>i.
        rbind (need_text d s (rsntr_iri ''contentType'')) (\<lambda>ct.
          Inr (Media \<lparr>md_id = i, md_content_type = ct\<rparr>)))
      else if class = ''AudioDuplex'' then
        rbind (need_text d s (rsntr_iri ''id'')) (\<lambda>i.
        rbind (get_text d s (rsntr_iri ''contentType'')) (\<lambda>ct.
        rbind (need_text d s (rsntr_iri ''accepts'')) (\<lambda>acc.
          Inr (AudioDuplex \<lparr>ad_id = i, ad_content_type = ct, ad_accepts = acc\<rparr>))))
      else if class = ''Entrain'' then
        rbind (need_text d s (rsntr_iri ''id'')) (\<lambda>i.
        rbind (need_iri d s (rsntr_iri ''point'')) (\<lambda>p.
          Inr (Entrain \<lparr>en_id = i, en_point = p\<rparr>)))
      else if class = ''Damp'' then
        rbind (get_text d s (rsntr_iri ''id'')) (\<lambda>i.
        rbind (need_iri d s (rsntr_iri ''point'')) (\<lambda>p.
          Inr (Damp \<lparr>da_id = i, da_point = p\<rparr>)))
      else Inr (Generic \<lparr>ge_class = class,
                         ge_props = filter (\<lambda>(p, _). p \<noteq> rdf_iri ''type'') (pairs d s)\<rparr>))"

definition decode :: "ext \<Rightarrow> triple list \<Rightarrow> (protocol_error, envelope_object) result" where
  "decode x d =
     (case scan_types d [] None of (typed, alien) \<Rightarrow>
        if typed = [] then Inl (bad NoEnvelopeObject)
        else if list_all (\<lambda>(_, c). c = ''Row'') typed then
          (case alien of
             Some class \<Rightarrow> Inl (bad (NonRsntrClass class))
           | None \<Rightarrow> rbind (mapM (\<lambda>(s, _). read_row x d s) typed) (\<lambda>rows. Inr (Row rows)))
        else
          rbind (only typed ''Projection'') (\<lambda>pj.
          case pj of Some s \<Rightarrow> read_projection x d s | None \<Rightarrow>
          rbind (only typed ''Vibration'') (\<lambda>vi.
          case vi of Some s \<Rightarrow> read_vibration d s | None \<Rightarrow>
          rbind (only typed ''Graph'') (\<lambda>gr.
          case gr of Some s \<Rightarrow> read_graph d s | None \<Rightarrow>
          (case alien of
             Some class \<Rightarrow> Inl (bad (NonRsntrClass class))
           | None \<Rightarrow>
               if 1 < length typed then Inl (bad (TooManySubjects (length typed)))
               else case hd typed of (s, class) \<Rightarrow> decode_class x d s class)))))"

subsection \<open>The incremental parser\<close>

text \<open>
  \<open>EnvelopeParser\<close>: the chunks pushed so far. The Turtle parser is a parameter that maps
  the whole document to its triples or a syntax error; a syntax error the source may
  report at an earlier \<open>push\<close> is reported at \<open>finish\<close> here, and every caller returns it
  either way.
\<close>

record envelope_parser =
  pushed :: string

definition parser_new :: envelope_parser where
  "parser_new = \<lparr>pushed = []\<rparr>"

definition parser_push :: "envelope_parser \<Rightarrow> string \<Rightarrow> envelope_parser" where
  "parser_push p chunk = p\<lparr>pushed := pushed p @ chunk\<rparr>"

definition parser_finish :: "ext \<Rightarrow> envelope_parser \<Rightarrow> (protocol_error, envelope_object) result" where
  "parser_finish x p =
     (case turtle x (pushed p) of Inl _ \<Rightarrow> Inl Syntax | Inr ts \<Rightarrow> decode x ts)"

definition from_turtle :: "ext \<Rightarrow> string \<Rightarrow> (protocol_error, envelope_object) result" where
  "from_turtle x doc = parser_finish x (parser_push parser_new doc)"

lemma parser_push_chunks: "pushed (foldl parser_push p cs) = pushed p @ concat cs"
  by (induction cs arbitrary: p) (auto simp: parser_push_def)

text \<open>Chunking does not matter: the result depends on the concatenation only.\<close>

lemma parser_chunks:
  "parser_finish x (foldl parser_push parser_new cs) = from_turtle x (concat cs)"
  by (simp add: from_turtle_def parser_finish_def parser_push_chunks)
     (simp add: parser_push_def parser_new_def)

end
