(* ===== verification/Envelope_Encode.thy ===== *)
theory Envelope_Encode
  imports Envelope_Decode
begin

text \<open>
  From an envelope object to a Turtle document (\<open>crates/protocol/src/envelope.rs\<close>, the
  encoding half). The text is built byte for byte as in the source. Payload triples and
  generic properties print through the \<open>Display\<close> impls of \<open>oxrdf\<close>, which are
  parameters.
\<close>

subsection \<open>String literals\<close>

definition DQ :: char where "DQ = CHR 0x22"
definition BSL :: char where "BSL = CHR 0x5C"
definition NL :: char where "NL = CHR 0x0A"
definition CR :: char where "CR = CHR 0x0D"
definition TAB :: char where "TAB = CHR 0x09"

definition u_escape :: "char \<Rightarrow> string" where
  "u_escape c = BSL # ''u00'' @ hex2 True (of_char c)"

definition quote_char :: "char \<Rightarrow> string" where
  "quote_char c =
     (if c = DQ then [BSL, DQ]
      else if c = BSL then [BSL, BSL]
      else if c = NL then BSL # ''n''
      else if c = CR then BSL # ''r''
      else if (of_char c :: nat) < 32 then u_escape c
      else [c])"

definition quote :: "string \<Rightarrow> string" where
  "quote s = DQ # concat (map quote_char s) @ [DQ]"

definition quote_long_char :: "char \<Rightarrow> string" where
  "quote_long_char c =
     (if c = DQ then [BSL, DQ]
      else if c = BSL then [BSL, BSL]
      else if c = NL \<or> c = TAB then [c]
      else if c = CR then BSL # ''r''
      else if (of_char c :: nat) < 32 then u_escape c
      else [c])"

definition quote_long :: "string \<Rightarrow> string" where
  "quote_long s = [DQ, DQ, DQ] @ concat (map quote_long_char s) @ [DQ, DQ, DQ]"

definition quote_text :: "string \<Rightarrow> string" where
  "quote_text s = (if NL \<in> set s then quote_long s else quote s)"

definition iri_term :: "string \<Rightarrow> string" where
  "iri_term i = ''<'' @ i @ ''>''"

definition value_term :: "ext \<Rightarrow> wire_value \<Rightarrow> string" where
  "value_term x v =
     (case v of
        VNull \<Rightarrow> ''rsntr:null''
      | Integer i \<Rightarrow> show_int i
      | Real f \<Rightarrow> quote (format_double f) @ ''^^xsd:double''
      | Text s \<Rightarrow> quote s
      | Blob b \<Rightarrow> quote (encode_base64 x b) @ ''^^xsd:base64Binary''
      | BlobRef h n \<Rightarrow>
          ''[ a rsntr:BlobRef ; rsntr:hash '' @ quote h @ '' ; rsntr:bytes '' @ show_nat n @ '' ]'')"

definition text_collection :: "string list \<Rightarrow> string" where
  "text_collection items = ''('' @ join '' '' (map quote items) @ '')''"

definition value_collection :: "ext \<Rightarrow> wire_value list \<Rightarrow> string" where
  "value_collection x items = ''('' @ join '' '' (map (value_term x) items) @ '')''"

subsection \<open>The block builder\<close>

type_synonym block = string

definition block_anon :: "string \<Rightarrow> block" where
  "block_anon class = ''[] a rsntr:'' @ class"

definition block_named :: "string \<Rightarrow> string \<Rightarrow> block" where
  "block_named iri class_term = iri_term iri @ '' a '' @ class_term"

definition block_pair :: "string \<Rightarrow> string \<Rightarrow> block \<Rightarrow> block" where
  "block_pair pred obj b = b @ '' ;'' @ NL # ''   '' @ pred @ '' '' @ obj"

definition block_opt :: "('a \<Rightarrow> string) \<Rightarrow> string \<Rightarrow> 'a option \<Rightarrow> block \<Rightarrow> block" where
  "block_opt f pred v b = (case v of None \<Rightarrow> b | Some a \<Rightarrow> block_pair pred (f a) b)"

definition opt_text :: "string \<Rightarrow> string option \<Rightarrow> block \<Rightarrow> block" where
  "opt_text pred v b = block_opt quote pred v b"

definition opt_int :: "string \<Rightarrow> int option \<Rightarrow> block \<Rightarrow> block" where
  "opt_int pred v b = block_opt show_int pred v b"

definition repeated :: "string \<Rightarrow> string list \<Rightarrow> block \<Rightarrow> block" where
  "repeated pred items b =
     (if items = [] then b else block_pair pred (join '', '' (map quote items)) b)"

definition datetime_term :: "string \<Rightarrow> string" where
  "datetime_term v = quote v @ ''^^xsd:dateTime''"

definition opt_datetime :: "string \<Rightarrow> string option \<Rightarrow> block \<Rightarrow> block" where
  "opt_datetime pred v b = block_opt datetime_term pred v b"

definition block_close :: "block \<Rightarrow> string" where
  "block_close b = b @ '' .'' @ [NL]"

definition statement_block :: "ext \<Rightarrow> string \<Rightarrow> statement \<Rightarrow> string" where
  "statement_block x class st =
     (let b = block_pair ''rsntr:signal'' (quote_text (st_signal st))
                (block_pair ''rsntr:mod'' (quote (st_modulation st))
                  (block_pair ''rsntr:id'' (quote (st_id st)) (block_anon class)));
          b = (if st_params st = [] then b
               else block_pair ''rsntr:params'' (value_collection x (st_params st)) b)
      in block_close (opt_int ''rsntr:timeoutMs'' (st_timeout_ms st)
           (opt_int ''rsntr:byteLimit'' (st_byte_limit st)
             (opt_int ''rsntr:rowLimit'' (st_row_limit st)
               (opt_text ''rsntr:database'' (st_database st) b)))))"

definition append_payload :: "ext \<Rightarrow> triple list \<Rightarrow> string" where
  "append_payload x ts =
     concat (map (\<lambda>t. disp_node x (subject t) @ '' '' @ disp_iri x (predicate t) @ '' ''
                      @ disp_term x (object t) @ '' .'' @ [NL]) ts)"

subsection \<open>Projections\<close>

fun point_class_term :: "point_kind \<Rightarrow> string" where
  "point_class_term Excitable = ''rsntr:Excitable''"
| "point_class_term Radiant = ''rsntr:Radiant''"
| "point_class_term Sympathetic = ''rsntr:Sympathetic''"
| "point_class_term Bare = ''rsntr:ResonancePoint''"
| "point_class_term (Other iri) = iri_term iri"

definition datatype_term :: "string \<Rightarrow> string" where
  "datatype_term iri =
     (case strip_prefix XSD_NS iri of Some local \<Rightarrow> ''xsd:'' @ local | None \<Rightarrow> iri_term iri)"

definition field_term :: "ext \<Rightarrow> point_field \<Rightarrow> string" where
  "field_term x f =
     (let parts =
        [''rsntr:name '' @ quote (pf_name f)]
        @ (case pf_datatype f of None \<Rightarrow> [] | Some dt \<Rightarrow> [''rsntr:datatype '' @ datatype_term dt])
        @ (if pf_required f then [''rsntr:required true''] else [])
        @ (case pf_default f of None \<Rightarrow> [] | Some v \<Rightarrow> [''rsntr:default '' @ value_term x v])
        @ (if pf_one_of f = [] then [] else [''rsntr:oneOf '' @ value_collection x (pf_one_of f)])
        @ (case pf_hint f of None \<Rightarrow> [] | Some h \<Rightarrow> [''rsntr:hint '' @ quote h])
      in ''[ '' @ join '' ; '' parts @ '' ]'')"

definition point_block :: "ext \<Rightarrow> point \<Rightarrow> string" where
  "point_block x pt =
     (let b = opt_text ''rsntr:projects'' (pt_projects pt)
                (opt_text ''rsntr:role'' (pt_role pt)
                  (opt_text ''rsntr:icon'' (pt_icon pt)
                    (opt_text ''rdfs:comment'' (pt_comment pt)
                      (opt_text ''rdfs:label'' (pt_label pt)
                        (block_named (pt_iri pt) (point_class_term (pt_kind pt)))))));
          b = (if pt_coupling pt = [] then b
               else block_pair ''rsntr:coupling''
                 (''[ rsntr:field ('' @ join '' '' (map (field_term x) (pt_coupling pt)) @ '') ]'') b);
          b = opt_text ''rsntr:mod'' (pt_modulation pt) b;
          b = block_opt quote_text ''rsntr:signal'' (pt_signal pt) b;
          b = (if pt_params_order pt = [] then b
               else block_pair ''rsntr:paramsOrder'' (text_collection (pt_params_order pt)) b);
          b = block_opt quote_text ''rsntr:signalTemplate'' (pt_signal_template pt) b
      in block_close (opt_text ''rsntr:fires'' (pt_fires pt) b))"

subsection \<open>The encoder\<close>

definition row_block :: "ext \<Rightarrow> row \<Rightarrow> string" where
  "row_block x r =
     ''[] a rsntr:Row ; rsntr:seq '' @ show_int (row_seq r)
     @ concat (map (\<lambda>(name, v).
         if v = VNull then []
         else '' ; rsntr:'' @ COL_PREFIX @ encode_column_name name @ '' '' @ value_term x v)
         (row_cells r))
     @ '' .'' @ [NL]"

definition show_bool :: "bool \<Rightarrow> string" where
  "show_bool b = (if b then ''true'' else ''false'')"

definition encode :: "ext \<Rightarrow> envelope_object \<Rightarrow> (protocol_error, string) result" where
  "encode x obj =
     (case obj of
        Query st \<Rightarrow> Inr (statement_block x ''Query'' st)
      | Execute st \<Rightarrow> Inr (statement_block x ''Execute'' st)
      | Result h \<Rightarrow>
          (let b = block_pair ''rsntr:column'' (text_collection (rh_columns h))
                     (block_pair ''rsntr:id'' (quote (rh_id h)) (block_anon ''Result''));
               b = (if rh_decl_types h = [] then b
                    else block_pair ''rsntr:declType'' (text_collection (rh_decl_types h)) b)
           in Inr (block_close b))
      | Row rows \<Rightarrow>
          if rows = [] then Inl (bad EmptyRowFrame)
          else Inr (concat (map (row_block x) rows))
      | Done d \<Rightarrow>
          Inr (block_close
            (block_pair ''rsntr:truncated'' (show_bool (dn_truncated d))
              (opt_int ''rsntr:lastInsertRowid'' (dn_last_insert_rowid d)
                (opt_int ''rsntr:affectedRows'' (dn_affected_rows d)
                  (opt_int ''rsntr:rowCount'' (dn_row_count d)
                    (block_pair ''rsntr:id'' (quote (dn_id d)) (block_anon ''Done'')))))))
      | Denied d \<Rightarrow>
          Inr (block_close (opt_text ''rsntr:reason'' (de_reason d)
            (opt_text ''rsntr:id'' (de_id d) (block_anon ''Denied''))))
      | Error e \<Rightarrow>
          Inr (block_close (opt_text ''rsntr:reason'' (er_reason e)
            (block_pair ''rsntr:code'' (quote (er_code e))
              (opt_text ''rsntr:id'' (er_id e) (block_anon ''Error'')))))
      | Hello h \<Rightarrow>
          Inr (block_close (opt_text ''rsntr:hint'' (he_hint h)
            (repeated ''rsntr:mods'' (he_mods h)
              (repeated ''rsntr:enc'' (he_encodings h)
                (block_pair ''rsntr:ver'' (quote (he_envelope_version h)) (block_anon ''Hello''))))))
      | Knock k \<Rightarrow>
          Inr (block_close (block_pair ''rsntr:message'' (quote (kn_message k))
            (opt_text ''rsntr:id'' (kn_id k) (block_anon ''Knock''))))
      | Presence p \<Rightarrow>
          Inr (block_close (opt_text ''rsntr:endpoint'' (pr_endpoint p)
            (opt_text ''rsntr:status'' (pr_status p)
              (block_pair ''rsntr:at'' (datetime_term (pr_at p)) (block_anon ''Presence'')))))
      | Decision d \<Rightarrow>
          Inr (block_close (opt_datetime ''rsntr:at'' (wd_at d)
            (opt_text ''rsntr:reason'' (wd_reason d)
              (block_pair ''rsntr:decidedBy'' (quote (wd_decided_by d))
                (block_pair ''rsntr:decision'' (quote (wd_decision d))
                  (opt_text ''rsntr:id'' (wd_id d) (block_anon ''Decision'')))))))
      | Help h \<Rightarrow>
          Inr (block_close (block_pair ''rsntr:signal'' (quote_text (hp_signal h))
            (repeated ''rsntr:topic'' (hp_topics h)
              (opt_text ''rsntr:id'' (hp_id h) (block_anon ''Help'')))))
      | Media m \<Rightarrow>
          Inr (block_close (block_pair ''rsntr:contentType'' (quote (md_content_type m))
            (block_pair ''rsntr:id'' (quote (md_id m)) (block_anon ''Media''))))
      | AudioDuplex d \<Rightarrow>
          Inr (block_close (block_pair ''rsntr:accepts'' (quote (ad_accepts d))
            (opt_text ''rsntr:contentType'' (ad_content_type d)
              (block_pair ''rsntr:id'' (quote (ad_id d)) (block_anon ''AudioDuplex'')))))
      | Graph g \<Rightarrow>
          Inr (block_close (block_pair ''rsntr:seq'' (show_int (gr_seq g))
            (block_pair ''rsntr:id'' (quote (gr_id g)) (block_anon ''Graph'')))
            @ append_payload x (gr_payload g))
      | Generic g \<Rightarrow>
          if ge_class g \<noteq> [] \<and> list_all plain_name_char (ge_class g)
          then Inr (block_close
            (foldl (\<lambda>b (p, obj). block_pair (disp_iri x p) (disp_term x obj) b)
              (block_anon (ge_class g)) (ge_props g)))
          else Inl (bad (GenericClassNotPlain (ge_class g)))
      | Projection p \<Rightarrow>
          (let b = opt_text ''rsntr:id'' (pj_id p) (block_anon ''Projection'');
               b = (if pj_offers p = [] then b
                    else block_pair ''rsntr:offers''
                      (''('' @ join '' '' (map (\<lambda>pt. iri_term (pt_iri pt)) (pj_offers p)) @ '')'') b)
           in Inr (block_close b @ concat (map (\<lambda>pt. NL # point_block x pt) (pj_offers p))))
      | Entrain e \<Rightarrow>
          Inr (block_close (block_pair ''rsntr:point'' (iri_term (en_point e))
            (block_pair ''rsntr:id'' (quote (en_id e)) (block_anon ''Entrain''))))
      | Damp d \<Rightarrow>
          Inr (block_close (block_pair ''rsntr:point'' (iri_term (da_point d))
            (opt_text ''rsntr:id'' (da_id d) (block_anon ''Damp''))))
      | Vibration v \<Rightarrow>
          Inr (block_close (opt_datetime ''rsntr:at'' (vi_at v)
            (block_pair ''rsntr:seq'' (show_int (vi_seq v))
              (block_pair ''rsntr:point'' (iri_term (vi_point v))
                (block_pair ''rsntr:id'' (quote (vi_id v)) (block_anon ''Vibration'')))))
            @ append_payload x (vi_payload v)))"

definition to_turtle :: "ext \<Rightarrow> envelope_object \<Rightarrow> (protocol_error, string) result" where
  "to_turtle x obj = encode x obj"

subsection \<open>What the literal escapes mean\<close>

text \<open>
  The string tokens of the Turtle grammar, as a reader takes them off the input: short
  strings end at the first unescaped quote and hold no raw quote, backslash, line feed or
  carriage return; long strings end at the first unescaped run of three quotes.
\<close>

definition hex4 :: "char \<Rightarrow> char \<Rightarrow> char \<Rightarrow> char \<Rightarrow> nat option" where
  "hex4 a b c d =
     (case hex_pair a b of None \<Rightarrow> None
      | Some h \<Rightarrow> (case hex_pair c d of None \<Rightarrow> None | Some l \<Rightarrow> Some (h * 256 + l)))"

definition echar :: "char \<Rightarrow> char option" where
  "echar c =
     (if c = CHR ''n'' then Some NL else if c = CHR ''r'' then Some CR
      else if c = CHR ''t'' then Some TAB else if c = DQ then Some DQ
      else if c = BSL then Some BSL else None)"

text \<open>One escape sequence after its backslash; code points below 128 only.\<close>

fun read_escape :: "string \<Rightarrow> (char \<times> string) option" where
  "read_escape (u # a # b # c # d # r) =
     (if u = CHR ''u'' then
        (case hex4 a b c d of
           Some n \<Rightarrow> if n < 128 then Some (char_of n, r) else None
         | None \<Rightarrow> None)
      else map_option (\<lambda>e. (e, a # b # c # d # r)) (echar u))"
| "read_escape (u # r) = map_option (\<lambda>e. (e, r)) (echar u)"
| "read_escape [] = None"

lemma read_escape_length: "read_escape s = Some (c, r) \<Longrightarrow> length r < length s"
  by (induction s rule: read_escape.induct) (auto split: if_splits option.splits)

function read_short :: "string \<Rightarrow> (string \<times> string) option" where
  "read_short s =
     (case s of
        [] \<Rightarrow> None
      | c # r \<Rightarrow>
          if c = DQ then Some ([], r)
          else if c = BSL then
            (case read_escape r of
               None \<Rightarrow> None
             | Some (e, r') \<Rightarrow> map_option (\<lambda>(v, t). (e # v, t)) (read_short r'))
          else if c = NL \<or> c = CR then None
          else map_option (\<lambda>(v, t). (c # v, t)) (read_short r))"
  by pat_completeness auto
termination
  by (relation "measure length") (auto dest: read_escape_length)

declare read_short.simps [simp del]

function read_long :: "string \<Rightarrow> (string \<times> string) option" where
  "read_long s =
     (if take 3 s = [DQ, DQ, DQ] then Some ([], drop 3 s)
      else case s of
        [] \<Rightarrow> None
      | c # r \<Rightarrow>
          if c = BSL then
            (case read_escape r of
               None \<Rightarrow> None
             | Some (e, r') \<Rightarrow> map_option (\<lambda>(v, t). (e # v, t)) (read_long r'))
          else map_option (\<lambda>(v, t). (c # v, t)) (read_long r))"
  by pat_completeness auto
termination
  by (relation "measure length") (auto dest: read_escape_length)

declare read_long.simps [simp del]

text \<open>A string token of either form, and the input after it.\<close>

definition string_token :: "string \<Rightarrow> (string \<times> string) option" where
  "string_token s =
     (if take 3 s = [DQ, DQ, DQ] then read_long (drop 3 s)
      else case s of c # r \<Rightarrow> if c = DQ then read_short r else None | [] \<Rightarrow> None)"

lemma special_chars [simp]:
  "DQ \<noteq> BSL" "BSL \<noteq> DQ" "DQ \<noteq> NL" "NL \<noteq> DQ" "DQ \<noteq> CR" "CR \<noteq> DQ" "BSL \<noteq> NL" "NL \<noteq> BSL"
  "BSL \<noteq> CR" "CR \<noteq> BSL" "NL \<noteq> CR" "CR \<noteq> NL" "TAB \<noteq> BSL" "TAB \<noteq> DQ" "TAB \<noteq> NL" "TAB \<noteq> CR"
  "BSL \<noteq> TAB" "DQ \<noteq> TAB" "NL \<noteq> TAB" "CR \<noteq> TAB"
  by (simp_all add: DQ_def BSL_def NL_def CR_def TAB_def)

lemma read_escape_simple:
  "read_escape (BSL # t) = Some (BSL, t)" "read_escape (DQ # t) = Some (DQ, t)"
  "read_escape (CHR ''n'' # t) = Some (NL, t)" "read_escape (CHR ''r'' # t) = Some (CR, t)"
proof -
  have e: "echar BSL = Some BSL" "echar DQ = Some DQ" "echar (CHR ''n'') = Some NL"
    "echar (CHR ''r'') = Some CR"
    by (simp_all add: echar_def BSL_def DQ_def)
  have "read_escape (u # t) = map_option (\<lambda>e. (e, t)) (echar u)" if "u \<noteq> CHR ''u''" for u
    using that by (cases "u # t" rule: read_escape.cases) auto
  with e show "read_escape (BSL # t) = Some (BSL, t)" "read_escape (DQ # t) = Some (DQ, t)"
    "read_escape (CHR ''n'' # t) = Some (NL, t)" "read_escape (CHR ''r'' # t) = Some (CR, t)"
    by (simp_all add: BSL_def DQ_def)
qed

lemma read_escape_u:
  assumes "(of_char c :: nat) < 32"
  shows "read_escape (''u00'' @ hex2 True (of_char c) @ t) = Some (c, t)"
proof -
  have "hex_pair (CHR ''0'') (CHR ''0'') = Some 0" by (simp add: hex_pair_def hex_val_def)
  with assms show ?thesis by (simp add: hex2_def hex4_def hex_pair_hex2)
qed

lemma read_short_char:
  "read_short (quote_char c @ t) = map_option (\<lambda>(v, u). (c # v, u)) (read_short t)"
proof -
  consider "c = DQ" | "c = BSL" | "c = NL" | "c = CR"
    | (ctl) "c \<noteq> DQ" "c \<noteq> BSL" "c \<noteq> NL" "c \<noteq> CR" "(of_char c :: nat) < 32"
    | (plain) "c \<noteq> DQ" "c \<noteq> BSL" "c \<noteq> NL" "c \<noteq> CR" "\<not> (of_char c :: nat) < 32"
    by blast
  then show ?thesis
  proof cases
    case ctl
    then show ?thesis
      using read_escape_u [OF ctl(5), of t]
      by (simp add: quote_char_def u_escape_def read_short.simps [of "BSL # _"])
  next
    case plain
    then show ?thesis by (simp add: quote_char_def read_short.simps [of "c # t"])
  qed (simp_all add: quote_char_def read_short.simps [of "BSL # _"] read_escape_simple)
qed

lemma read_short_quoted: "read_short (concat (map quote_char s) @ DQ # t) = Some (s, t)"
proof (induction s)
  case Nil
  then show ?case by (simp add: read_short.simps [of "DQ # t"])
next
  case (Cons c s)
  then show ?case by (simp add: read_short_char)
qed

lemma read_long_char:
  "read_long (quote_long_char c @ t) = map_option (\<lambda>(v, u). (c # v, u)) (read_long t)"
proof -
  consider "c = DQ" | "c = BSL" | "c = CR" | "c = NL \<or> c = TAB"
    | (ctl) "c \<noteq> DQ" "c \<noteq> BSL" "c \<noteq> NL" "c \<noteq> CR" "c \<noteq> TAB" "(of_char c :: nat) < 32"
    | (plain) "c \<noteq> DQ" "c \<noteq> BSL" "c \<noteq> NL" "c \<noteq> CR" "c \<noteq> TAB" "\<not> (of_char c :: nat) < 32"
    by blast
  then show ?thesis
  proof cases
    case 4
    then show ?thesis by (auto simp: quote_long_char_def read_long.simps [of "c # t"])
  next
    case ctl
    then show ?thesis
      using read_escape_u [OF ctl(6), of t]
      by (simp add: quote_long_char_def u_escape_def read_long.simps [of "BSL # _"])
  next
    case plain
    then show ?thesis by (simp add: quote_long_char_def read_long.simps [of "c # t"])
  qed (simp_all add: quote_long_char_def read_long.simps [of "BSL # _"] read_escape_simple)
qed

lemma read_long_quoted: "read_long (concat (map quote_long_char s) @ DQ # DQ # DQ # t) = Some (s, t)"
proof (induction s)
  case Nil
  then show ?case by (simp add: read_long.simps [of "DQ # DQ # DQ # t"])
next
  case (Cons c s)
  then show ?case by (simp add: read_long_char)
qed

text \<open>
  A short literal is not mistaken for a long one: only an empty string prints as two
  quotes, and what follows a literal in a document never starts with a quote.
\<close>

lemma quote_char_not_DQ: "hd (quote_char c @ t) \<noteq> DQ"
  by (auto simp: quote_char_def u_escape_def)

lemma quote_char_nonempty [simp]: "quote_char c \<noteq> []"
  by (simp add: quote_char_def u_escape_def)

lemma string_token_quote:
  assumes "t = [] \<or> hd t \<noteq> DQ"
  shows "string_token (quote s @ t) = Some (s, t)"
proof -
  have "take 3 (quote s @ t) \<noteq> [DQ, DQ, DQ]"
  proof (cases s)
    case Nil
    with assms show ?thesis by (cases t) (auto simp: quote_def)
  next
    case (Cons c r)
    then obtain h u where "quote_char c = h # u" "h \<noteq> DQ"
      using quote_char_not_DQ [of c "[]"] by (cases "quote_char c") auto
    with Cons show ?thesis by (simp add: quote_def)
  qed
  with read_short_quoted [of s t] show ?thesis by (simp add: string_token_def quote_def)
qed

lemma string_token_quote_long: "string_token (quote_long s @ t) = Some (s, t)"
  using read_long_quoted [of s t] by (simp add: string_token_def quote_long_def)

lemma string_token_quote_text:
  "t = [] \<or> hd t \<noteq> DQ \<Longrightarrow> string_token (quote_text s @ t) = Some (s, t)"
  by (simp add: quote_text_def string_token_quote string_token_quote_long)

end
