(* ===== verification/Frame.thy ===== *)
theory Frame
  imports Envelope_Encode
begin

text \<open>
  The frame codec (\<open>crates/protocol/src/frame.rs\<close>): a little-endian 32-bit length and a
  UTF-8 payload, and the framed streams over it (\<open>recv\<close> of
  \<open>crates/transport/src/iroh_transport.rs\<close> and \<open>crates/cli/src/owner.rs\<close>,
  \<open>decode_frames_body\<close> of \<open>crates/web/src/frames.rs\<close>).

  A byte buffer (\<open>BytesMut\<close>) that a function consumes is passed in and returned. The
  network is the list of the results its reads will give.
\<close>

definition MAX_FRAME_LEN :: nat where
  "MAX_FRAME_LEN = 256 * 1024"

definition encode_frame :: "byte list \<Rightarrow> byte list \<Rightarrow> (protocol_error, unit) result \<times> byte list" where
  "encode_frame payload dst =
     (if MAX_FRAME_LEN < length payload then (Inl (FrameTooLarge (length payload)), dst)
      else (Inr (), dst @ to_le_bytes (word_of_nat (length payload)) @ payload))"

definition frame_len :: "byte list \<Rightarrow> nat" where
  "frame_len src = unat (from_le_bytes (src ! 0) (src ! 1) (src ! 2) (src ! 3))"

definition decode_frame ::
  "byte list \<Rightarrow> (protocol_error, string option) result \<times> byte list" where
  "decode_frame src =
     (if length src < 4 then (Inr None, src)
      else
        let len = frame_len src
        in if MAX_FRAME_LEN < len then (Inl (FrameTooLarge len), src)
           else if length src < 4 + len then (Inr None, src)
           else
             let payload = take len (drop 4 src); rest = drop len (drop 4 src)
             in case from_utf8 payload of
                  None \<Rightarrow> (Inl InvalidUtf8, rest)
                | Some text \<Rightarrow> (Inr (Some text), rest))"

definition decode_frame_eof ::
  "byte list \<Rightarrow> (protocol_error, string option) result \<times> byte list" where
  "decode_frame_eof src =
     (case decode_frame src of
        (Inl e, rest) \<Rightarrow> (Inl e, rest)
      | (Inr (Some payload), rest) \<Rightarrow> (Inr (Some payload), rest)
      | (Inr None, rest) \<Rightarrow>
          if rest = [] then (Inr None, rest) else (Inl (TruncatedFrame (length rest)), rest))"

definition encode_envelope ::
  "ext \<Rightarrow> envelope_object \<Rightarrow> byte list \<Rightarrow> (protocol_error, unit) result \<times> byte list" where
  "encode_envelope x obj dst =
     (case to_turtle x obj of
        Inl e \<Rightarrow> (Inl e, dst)
      | Inr ttl \<Rightarrow> encode_frame (as_bytes ttl) dst)"

definition decode_envelope ::
  "ext \<Rightarrow> byte list \<Rightarrow> (protocol_error, envelope_object option) result \<times> byte list" where
  "decode_envelope x src =
     (case decode_frame src of
        (Inl e, rest) \<Rightarrow> (Inl e, rest)
      | (Inr None, rest) \<Rightarrow> (Inr None, rest)
      | (Inr (Some payload), rest) \<Rightarrow>
          (rbind (parser_finish x (foldl parser_push parser_new (chunks (8 * 1024) payload)))
             (\<lambda>obj. Inr (Some obj)), rest))"

subsection \<open>Laws of the frame codec\<close>

lemma frame_len_prefix:
  assumes "n < 2 ^ 32"
  shows "frame_len (to_le_bytes (word_of_nat n) @ r) = n"
proof -
  obtain b0 b1 b2 b3 where b: "to_le_bytes (word_of_nat n) = [b0, b1, b2, b3]"
    "from_le_bytes b0 b1 b2 b3 = word_of_nat n" by (rule to_le_bytes_cases)
  with assms show ?thesis by (simp add: frame_len_def unat_of_nat take_bit_nat_eq_self)
qed

lemma max_frame_u32: "n \<le> MAX_FRAME_LEN \<Longrightarrow> n < 2 ^ 32"
  by (simp add: MAX_FRAME_LEN_def)

lemma decode_frame_complete:
  assumes "length payload \<le> MAX_FRAME_LEN"
  shows "decode_frame (to_le_bytes (word_of_nat (length payload)) @ payload @ rest) =
    ((case from_utf8 payload of None \<Rightarrow> Inl InvalidUtf8 | Some t \<Rightarrow> Inr (Some t)), rest)"
  using assms frame_len_prefix [OF max_frame_u32 [OF assms], of "payload @ rest"]
  by (simp add: decode_frame_def Let_def split: option.splits)

lemma decode_frame_partial:
  assumes "length payload \<le> MAX_FRAME_LEN"
    and "strict_prefix src (to_le_bytes (word_of_nat (length payload)) @ payload)"
  shows "decode_frame src = (Inr None, src)"
proof -
  let ?h = "to_le_bytes (word_of_nat (length payload)) :: byte list"
  obtain t where t: "?h @ payload = src @ t" "t \<noteq> []"
    using assms(2) by (auto simp: strict_prefix_def prefix_def)
  show ?thesis
  proof (cases "length src < 4")
    case True
    then show ?thesis by (simp add: decode_frame_def)
  next
    case False
    have "take 4 (?h @ payload) = take 4 (src @ t)" by (simp only: t(1))
    with False have h: "take 4 src = ?h" by simp
    define r where "r = drop 4 src"
    have "src = ?h @ r" unfolding r_def h [symmetric] by simp
    moreover from this t(1) have "payload = r @ t" by simp
    ultimately have r: "src = ?h @ r" "payload = r @ t" .
    then have "frame_len src = length payload"
      using frame_len_prefix [OF max_frame_u32 [OF assms(1)]] by simp
    then show ?thesis using False r t assms(1) by (simp add: decode_frame_def Let_def)
  qed
qed

lemma decode_envelope_alt:
  "decode_envelope x src =
     (case decode_frame src of
        (Inl e, rest) \<Rightarrow> (Inl e, rest)
      | (Inr None, rest) \<Rightarrow> (Inr None, rest)
      | (Inr (Some payload), rest) \<Rightarrow> (rbind (from_turtle x payload) (\<lambda>obj. Inr (Some obj)), rest))"
  by (simp add: decode_envelope_def parser_chunks concat_chunks split: prod.splits sum.splits option.splits)

text \<open>What is taken off the buffer is exactly one frame of the returned text.\<close>

lemma decode_frame_SomeD:
  assumes "decode_frame src = (Inr (Some txt), rest)"
  shows "src = to_le_bytes (word_of_nat (length txt)) @ as_bytes txt @ rest
    \<and> length txt \<le> MAX_FRAME_LEN \<and> utf8_string txt"
proof -
  have "4 \<le> length src"
    using assms by (auto simp: decode_frame_def split: if_splits)
  then obtain b0 b1 b2 b3 r where src: "src = b0 # b1 # b2 # b3 # r"
    using length4_obtain by blast
  define n where "n = unat (from_le_bytes b0 b1 b2 b3)"
  have n: "n \<le> MAX_FRAME_LEN" "n \<le> length r" "from_utf8 (take n r) = Some txt" "rest = drop n r"
    using assms by (auto simp: decode_frame_def src frame_len_def n_def Let_def
        split: if_splits option.splits)
  have tx: "as_bytes txt = take n r" "utf8_string txt"
    using from_utf8_SomeD [OF n(3)] by simp_all
  then have len: "length txt = n" using n(2) length_as_bytes [of "txt"] by simp
  have "word_of_nat n = from_le_bytes b0 b1 b2 b3" by (simp add: n_def)
  then have "to_le_bytes (word_of_nat n) = [b0, b1, b2, b3]" by (simp add: to_from_le_bytes)
  with tx len n show ?thesis by (simp add: src)
qed

end
