(* ===== verification/Frame_Stream.thy ===== *)
theory Frame_Stream
  imports Frame
begin

text \<open>
  Framed streams: how the transports take whole frames off a byte stream that arrives in
  arbitrary pieces (\<open>recv\<close> of \<open>crates/transport/src/iroh_transport.rs\<close> and of
  \<open>crates/cli/src/owner.rs\<close>), and how the web surface splits a request body into frames
  (\<open>decode_frames_body\<close> of \<open>crates/web/src/frames.rs\<close>).

  The network side of a stream is the list of what its reads will return; an exhausted
  list reads as end of stream.
\<close>

datatype net_read = Data "byte list" | ReadError

datatype transport_error = Protocol protocol_error | MidFrame nat | ReadFailed

record request_stream =
  rs_buf :: "byte list"
  rs_eof :: bool
  rs_wire :: "net_read list"

type_synonym ('e, 'p) decoder = "byte list \<Rightarrow> ('e, 'p option) result \<times> byte list"

definition stream_measure :: "request_stream \<Rightarrow> nat" where
  "stream_measure s = 2 * length (rs_wire s) + (if rs_eof s then 0 else 1)"

text \<open>The loop of \<open>IrohRequestStream::recv\<close>, over the decoder it calls.\<close>

function recv_loop ::
  "(protocol_error, 'p) decoder \<Rightarrow> request_stream
    \<Rightarrow> (transport_error, 'p option) result \<times> request_stream" where
  "recv_loop dec s =
     (case dec (rs_buf s) of
        (Inl e, b) \<Rightarrow> (Inl (Protocol e), s\<lparr>rs_buf := b\<rparr>)
      | (Inr (Some p), b) \<Rightarrow> (Inr (Some p), s\<lparr>rs_buf := b\<rparr>)
      | (Inr None, b) \<Rightarrow>
          if rs_eof s then
            (if b = [] then (Inr None, s\<lparr>rs_buf := b\<rparr>)
             else (Inl (MidFrame (length b)), s\<lparr>rs_buf := b\<rparr>))
          else case rs_wire s of
            [] \<Rightarrow> recv_loop dec (s\<lparr>rs_buf := b, rs_eof := True\<rparr>)
          | ReadError # w \<Rightarrow> (Inl ReadFailed, s\<lparr>rs_buf := b, rs_wire := w\<rparr>)
          | Data bs # w \<Rightarrow> recv_loop dec (s\<lparr>rs_buf := b @ bs, rs_wire := w\<rparr>))"
  by pat_completeness auto
termination
  by (relation "measure (\<lambda>(dec, s). stream_measure s)") (auto simp: stream_measure_def)

declare recv_loop.simps [simp del]

definition iroh_recv ::
  "ext \<Rightarrow> request_stream \<Rightarrow> (transport_error, envelope_object option) result \<times> request_stream" where
  "iroh_recv x s = recv_loop (decode_envelope x) s"

text \<open>The loop of \<open>OwnerStream::recv\<close>: a read of no bytes is the end of the stream.\<close>

function owner_recv_loop ::
  "(protocol_error, 'p) decoder \<Rightarrow> request_stream
    \<Rightarrow> (transport_error, 'p option) result \<times> request_stream" where
  "owner_recv_loop dec s =
     (case dec (rs_buf s) of
        (Inl e, b) \<Rightarrow> (Inl (Protocol e), s\<lparr>rs_buf := b\<rparr>)
      | (Inr (Some p), b) \<Rightarrow> (Inr (Some p), s\<lparr>rs_buf := b\<rparr>)
      | (Inr None, b) \<Rightarrow>
          if rs_eof s then (Inr None, s\<lparr>rs_buf := b\<rparr>)
          else case rs_wire s of
            ReadError # w \<Rightarrow> (Inl ReadFailed, s\<lparr>rs_buf := b, rs_wire := w\<rparr>)
          | Data (c # cs) # w \<Rightarrow> owner_recv_loop dec (s\<lparr>rs_buf := b @ c # cs, rs_wire := w\<rparr>)
          | w \<Rightarrow>
              (if b = [] then Inr None else Inl (MidFrame (length b)),
               s\<lparr>rs_buf := b, rs_eof := True, rs_wire := tl w\<rparr>))"
  by pat_completeness auto
termination
  by (relation "measure (\<lambda>(dec, s). length (rs_wire s))") auto

declare owner_recv_loop.simps [simp del]

definition owner_recv ::
  "ext \<Rightarrow> request_stream \<Rightarrow> (transport_error, envelope_object option) result \<times> request_stream" where
  "owner_recv x s = owner_recv_loop (decode_envelope x) s"

text \<open>Bytes past the framed part (\<open>recv_raw\<close>): the buffer first, then the wire.\<close>

definition recv_raw :: "request_stream \<Rightarrow> (transport_error, byte list option) result \<times> request_stream" where
  "recv_raw s =
     (if rs_buf s \<noteq> [] then (Inr (Some (rs_buf s)), s\<lparr>rs_buf := []\<rparr>)
      else if rs_eof s then (Inr None, s)
      else case rs_wire s of
        [] \<Rightarrow> (Inr None, s\<lparr>rs_eof := True\<rparr>)
      | ReadError # w \<Rightarrow> (Inl ReadFailed, s\<lparr>rs_wire := w\<rparr>)
      | Data bs # w \<Rightarrow> (Inr (Some bs), s\<lparr>rs_wire := w\<rparr>))"

text \<open>Repeated calls of a receiver: what each returned, and the stream after them.\<close>

fun recv_times ::
  "(request_stream \<Rightarrow> ('e, 'p option) result \<times> request_stream) \<Rightarrow> nat \<Rightarrow> request_stream
    \<Rightarrow> ('e, 'p option) result list \<times> request_stream" where
  "recv_times recv 0 s = ([], s)"
| "recv_times recv (Suc n) s =
     (case recv s of (r, s') \<Rightarrow> case recv_times recv n s' of (rs, s'') \<Rightarrow> (r # rs, s''))"

subsection \<open>The framing interface\<close>

text \<open>
  What a stream reader needs from a frame codec: a whole frame at the front decodes to what
  its payload reads as, a value or an error, and leaves the rest, and a proper part of a frame
  decodes to nothing and stays in the buffer.
\<close>

text \<open>What \<open>recv\<close> returns for a frame that reads as \<open>v\<close>.\<close>

definition received :: "(protocol_error, 'q) result \<Rightarrow> (transport_error, 'q option) result" where
  "received v = (case v of Inl e \<Rightarrow> Inl (Protocol e) | Inr q \<Rightarrow> Inr (Some q))"

lemma received_simps [simp]: "received (Inl e) = Inl (Protocol e)" "received (Inr q) = Inr (Some q)"
  by (simp_all add: received_def)

definition wire_bytes :: "request_stream \<Rightarrow> byte list list \<Rightarrow> byte list" where
  "wire_bytes s cs = rs_buf s @ concat cs"

definition live :: "request_stream \<Rightarrow> byte list list \<Rightarrow> bool" where
  "live s cs \<longleftrightarrow> \<not> rs_eof s \<and> rs_wire s = map Data cs"

locale framing =
  fixes enc :: "'p \<Rightarrow> byte list"
    and valid :: "'p \<Rightarrow> bool"
    and reads :: "'p \<Rightarrow> (protocol_error, 'q) result"
    and dec :: "(protocol_error, 'q) decoder"
  assumes whole: "valid p \<Longrightarrow> dec (enc p @ r) = (rbind (reads p) (\<lambda>q. Inr (Some q)), r)"
    and part: "valid p \<Longrightarrow> strict_prefix s (enc p) \<Longrightarrow> dec s = (Inr None, s)"
    and nonempty: "valid p \<Longrightarrow> enc p \<noteq> []"
begin

lemma prefix_cases:
  assumes "b @ c = enc p @ r" "valid p"
  obtains (whole_frame) r' where "b = enc p @ r'" "r = r' @ c"
    | (part_frame) "strict_prefix b (enc p)"
proof (cases "length b < length (enc p)")
  case True
  with assms(1) have "prefix b (enc p)"
    by (metis append_eq_append_conv_if less_imp_le_nat prefixI append_take_drop_id)
  with True show thesis by (metis part_frame less_irrefl strict_prefixI)
next
  case False
  with assms(1) have "b = enc p @ drop (length (enc p)) b"
    by (metis append_eq_append_conv_if not_less append_take_drop_id)
  with assms(1) show thesis by (metis append_assoc append_same_eq same_append_eq whole_frame)
qed

lemma empty_none: "valid p \<Longrightarrow> dec [] = (Inr None, [])"
  using part [of p "[]"] nonempty [of p] by (simp add: strict_prefix_def)

text \<open>One \<open>recv\<close> returns the next frame, however the bytes are cut into pieces.\<close>

lemma recv_one:
  assumes "live s cs" "wire_bytes s cs = enc p @ r" "valid p"
  shows "\<exists>s' cs'. recv_loop dec s = (received (reads p), s') \<and> live s' cs' \<and> wire_bytes s' cs' = r"
  using assms
proof (induction cs arbitrary: s)
  case Nil
  then have "dec (rs_buf s) = (rbind (reads p) (\<lambda>q. Inr (Some q)), r)" by (simp add: wire_bytes_def whole)
  then show ?case
    using Nil by (cases "reads p"; intro exI [of _ "s\<lparr>rs_buf := r\<rparr>"] exI [of _ "[]"])
      (simp_all add: recv_loop.simps [of dec s] live_def wire_bytes_def)
next
  case (Cons c cs)
  from Cons.prems(2) have "rs_buf s @ (c @ concat cs) = enc p @ r" by (simp add: wire_bytes_def)
  from this Cons.prems(3) show ?case
  proof (cases rule: prefix_cases)
    case (whole_frame r')
    then have "dec (rs_buf s) = (rbind (reads p) (\<lambda>q. Inr (Some q)), r')" by (simp add: whole Cons.prems(3))
    then show ?thesis
      using Cons.prems whole_frame by (cases "reads p"; intro exI [of _ "s\<lparr>rs_buf := r'\<rparr>"] exI [of _ "c # cs"])
        (simp_all add: recv_loop.simps [of dec s] live_def wire_bytes_def)
  next
    case part_frame
    let ?s = "s\<lparr>rs_buf := rs_buf s @ c, rs_wire := map Data cs\<rparr>"
    have "recv_loop dec s = recv_loop dec ?s"
      using part [OF Cons.prems(3) part_frame] Cons.prems(1)
      by (subst recv_loop.simps) (simp add: live_def)
    with Cons.IH [of ?s] Cons.prems show ?thesis by (simp add: live_def wire_bytes_def)
  qed
qed

lemma recv_many:
  assumes "live s cs" "wire_bytes s cs = concat (map enc ps) @ r" "list_all valid ps"
  shows "\<exists>s' cs'. recv_times (recv_loop dec) (length ps) s = (map (received \<circ> reads) ps, s')
    \<and> live s' cs' \<and> wire_bytes s' cs' = r"
  using assms
proof (induction ps arbitrary: s cs)
  case Nil
  then show ?case by auto
next
  case (Cons p ps)
  then obtain s1 cs1 where "recv_loop dec s = (received (reads p), s1)" "live s1 cs1"
    "wire_bytes s1 cs1 = concat (map enc ps) @ r"
    using recv_one [of s cs p "concat (map enc ps) @ r"] by auto
  moreover from this Cons.IH [of s1 cs1] Cons.prems obtain s2 cs2 where
    "recv_times (recv_loop dec) (length ps) s1 = (map (received \<circ> reads) ps, s2)" "live s2 cs2"
    "wire_bytes s2 cs2 = r" by auto
  ultimately show ?case by (auto split: prod.splits)
qed

text \<open>At the end of a stream cut inside a frame, \<open>recv\<close> reports the leftover bytes.\<close>

lemma recv_end:
  assumes "live s cs" "strict_prefix (wire_bytes s cs) (enc p)" "valid p"
  shows "\<exists>s'. recv_loop dec s =
    (if wire_bytes s cs = [] then Inr None else Inl (MidFrame (length (wire_bytes s cs))), s')"
  using assms
proof (induction cs arbitrary: s)
  case Nil
  let ?s = "s\<lparr>rs_eof := True\<rparr>"
  have d: "dec (rs_buf s) = (Inr None, rs_buf s)"
    using Nil by (simp add: wire_bytes_def part)
  then have "recv_loop dec s = recv_loop dec ?s"
    using Nil by (subst recv_loop.simps) (simp add: live_def)
  also have "\<dots> = (if rs_buf s = [] then Inr None else Inl (MidFrame (length (rs_buf s))), ?s)"
    using d by (subst recv_loop.simps) simp
  finally show ?case by (auto simp: wire_bytes_def)
next
  case (Cons c cs)
  have "prefix (rs_buf s) (wire_bytes s (c # cs))" by (simp add: wire_bytes_def)
  from prefix_order.le_less_trans [OF this Cons.prems(2)]
  have "strict_prefix (rs_buf s) (enc p)" .
  then have d: "dec (rs_buf s) = (Inr None, rs_buf s)" using part Cons.prems(3) by blast
  let ?s = "s\<lparr>rs_buf := rs_buf s @ c, rs_wire := map Data cs\<rparr>"
  have "recv_loop dec s = recv_loop dec ?s"
    using d Cons.prems(1) by (subst recv_loop.simps) (simp add: live_def)
  moreover have w: "wire_bytes ?s cs = wire_bytes s (c # cs)" by (simp add: wire_bytes_def)
  have "live ?s cs" using Cons.prems(1) by (simp add: live_def)
  from Cons.IH [OF this] Cons.prems(2,3) w
  have "\<exists>s'. recv_loop dec ?s = (if wire_bytes s (c # cs) = [] then Inr None
    else Inl (MidFrame (length (wire_bytes s (c # cs)))), s')" by metis
  ultimately show ?case by metis
qed

end

text \<open>Frames of text, and frames of envelope objects. The bytes of a text read as that text, if they
  are UTF-8, as those of every \<open>String\<close> are; the frame of an object reads as its Turtle
  document does.\<close>

definition enc_text :: "string \<Rightarrow> byte list" where
  "enc_text t = to_le_bytes (word_of_nat (length t)) @ as_bytes t"

definition read_text :: "string \<Rightarrow> (protocol_error, string) result" where
  "read_text t = (case from_utf8 (as_bytes t) of None \<Rightarrow> Inl InvalidUtf8 | Some t \<Rightarrow> Inr t)"

lemma read_text_utf8: "utf8_string t \<Longrightarrow> read_text t = Inr t"
  by (simp add: read_text_def from_utf8_as_bytes)

interpretation text_frames: framing enc_text "\<lambda>t. length t \<le> MAX_FRAME_LEN" read_text decode_frame
proof unfold_locales
  show "decode_frame (enc_text p @ r) = (rbind (read_text p) (\<lambda>q. Inr (Some q)), r)"
    if "length p \<le> MAX_FRAME_LEN" for p r
    using that decode_frame_complete [of "as_bytes p" r]
    by (simp add: enc_text_def read_text_def split: option.split)
  show "decode_frame s = (Inr None, s)" if "length p \<le> MAX_FRAME_LEN" "strict_prefix s (enc_text p)" for p s
    using that decode_frame_partial [of "as_bytes p" s] by (simp add: enc_text_def)
  show "enc_text p \<noteq> []" for p
  proof -
    have "4 \<le> length (enc_text p)" by (simp add: enc_text_def)
    then show ?thesis by auto
  qed
qed

definition enc_object :: "ext \<Rightarrow> envelope_object \<Rightarrow> byte list" where
  "enc_object x obj = snd (encode_envelope x obj [])"

definition encodes :: "ext \<Rightarrow> envelope_object \<Rightarrow> bool" where
  "encodes x obj \<longleftrightarrow> fst (encode_envelope x obj []) = Inr ()"

definition read_object :: "ext \<Rightarrow> envelope_object \<Rightarrow> (protocol_error, envelope_object) result" where
  "read_object x obj = rbind (rbind (to_turtle x obj) read_text) (from_turtle x)"

lemma encodes_enc:
  assumes "encodes x obj"
  obtains t where "to_turtle x obj = Inr t" "length t \<le> MAX_FRAME_LEN" "enc_object x obj = enc_text t"
  using assms by (auto simp: encodes_def enc_object_def encode_envelope_def encode_frame_def enc_text_def
      split: sum.splits if_splits)

interpretation object_frames: framing "enc_object x" "encodes x" "read_object x" "decode_envelope x" for x
proof unfold_locales
  show "decode_envelope x (enc_object x p @ r) = (rbind (read_object x p) (\<lambda>q. Inr (Some q)), r)"
    if p: "encodes x p" for p r
  proof -
    obtain t where t: "to_turtle x p = Inr t" "length t \<le> MAX_FRAME_LEN" "enc_object x p = enc_text t"
      by (rule encodes_enc [OF p])
    then show ?thesis
      by (cases "read_text t") (simp_all add: decode_envelope_alt text_frames.whole read_object_def)
  qed
  show "decode_envelope x s = (Inr None, s)"
    if p: "encodes x p" "strict_prefix s (enc_object x p)" for p s
  proof -
    obtain t where "length t \<le> MAX_FRAME_LEN" "enc_object x p = enc_text t" by (rule encodes_enc [OF p(1)])
    with text_frames.part [of t s] p(2) show ?thesis by (simp add: decode_envelope_alt)
  qed
  show "enc_object x p \<noteq> []" if p: "encodes x p" for p
  proof -
    obtain t where "length t \<le> MAX_FRAME_LEN" "enc_object x p = enc_text t" by (rule encodes_enc [OF p])
    with text_frames.nonempty [of t] show ?thesis by simp
  qed
qed

subsection \<open>The owner channel agrees\<close>

text \<open>
  On pieces that carry bytes the owner channel's loop returns the same frame and leaves
  the same stream as the transport's.
\<close>

lemma recv_loop_step:
  "recv_loop dec s =
     (case dec (rs_buf s) of
        (Inr None, b) \<Rightarrow>
          if rs_eof s then
            (if b = [] then Inr None else Inl (MidFrame (length b)), s\<lparr>rs_buf := b\<rparr>)
          else (case rs_wire s of
            [] \<Rightarrow> recv_loop dec (s\<lparr>rs_buf := b, rs_eof := True\<rparr>)
          | ReadError # w \<Rightarrow> (Inl ReadFailed, s\<lparr>rs_buf := b, rs_wire := w\<rparr>)
          | Data bs # w \<Rightarrow> recv_loop dec (s\<lparr>rs_buf := b @ bs, rs_wire := w\<rparr>))
      | (Inr (Some p), b) \<Rightarrow> (Inr (Some p), s\<lparr>rs_buf := b\<rparr>)
      | (Inl e, b) \<Rightarrow> (Inl (Protocol e), s\<lparr>rs_buf := b\<rparr>))"
  by (subst recv_loop.simps) (auto split: prod.splits sum.splits option.splits)

lemma owner_recv_agrees:
  assumes keeps: "\<And>b b'. dec b = (Inr None, b') \<Longrightarrow> b' = b"
  shows "live s cs \<Longrightarrow> [] \<notin> set cs \<Longrightarrow> fst (recv_loop dec s) = Inr (Some p) \<Longrightarrow>
    owner_recv_loop dec s = recv_loop dec s"
proof (induction cs arbitrary: s)
  case Nil
  obtain r b where d: "dec (rs_buf s) = (r, b)" by (cases "dec (rs_buf s)")
  have "r \<noteq> Inr None"
  proof
    assume "r = Inr None"
    with d keeps have d: "dec (rs_buf s) = (Inr None, rs_buf s)" by blast
    then have "recv_loop dec s = recv_loop dec (s\<lparr>rs_eof := True\<rparr>)"
      using Nil.prems(1) by (subst recv_loop_step) (simp add: live_def)
    also have "fst \<dots> \<noteq> Inr (Some p)" using d by (subst recv_loop_step) simp
    finally show False using Nil.prems(3) by simp
  qed
  with d show ?case
    by (subst recv_loop_step, subst owner_recv_loop.simps) (auto split: sum.splits option.splits)
next
  case (Cons c cs)
  obtain r b where d: "dec (rs_buf s) = (r, b)" by (cases "dec (rs_buf s)")
  obtain y ys where c: "c = y # ys" using Cons.prems(2) by (cases c) auto
  let ?s = "s\<lparr>rs_buf := b @ c, rs_wire := map Data cs\<rparr>"
  show ?case
  proof (cases "r = Inr None")
    case True
    have r: "recv_loop dec s = recv_loop dec ?s"
      using True d Cons.prems(1) by (subst recv_loop_step) (simp add: live_def)
    moreover have "owner_recv_loop dec s = owner_recv_loop dec ?s"
      using True d Cons.prems(1) by (subst owner_recv_loop.simps) (simp add: live_def c)
    moreover have "owner_recv_loop dec ?s = recv_loop dec ?s"
      using Cons.IH [of ?s] Cons.prems r by (simp add: live_def)
    ultimately show ?thesis by simp
  next
    case False
    with d show ?thesis
      by (subst recv_loop_step, subst owner_recv_loop.simps) (auto split: sum.splits option.splits)
  qed
qed

lemma decode_envelope_keeps: "decode_envelope x b = (Inr None, b') \<Longrightarrow> b' = b"
  by (auto simp: decode_envelope_alt decode_frame_def Let_def rbind_Inr_iff
      split: prod.splits sum.splits option.splits if_splits)

subsection \<open>Request bodies\<close>

text \<open>The status and wire code \<open>decode_frames_body\<close> refuses a body with.\<close>

datatype body_error = BodyError (status: nat) (wire_code: error_code)

definition FRAMES_CONTENT_TYPE :: string where
  "FRAMES_CONTENT_TYPE = ''application/rsntr-frames''"

definition is_frames_content_type :: "string option \<Rightarrow> bool" where
  "is_frames_content_type header =
     (case header of
        None \<Rightarrow> False
      | Some v \<Rightarrow>
          map to_lower (trim (takeWhile (\<lambda>c. c \<noteq> CHR '';'') v)) = map to_lower FRAMES_CONTENT_TYPE)"

lemma decode_frame_eof_shrinks:
  "decode_frame_eof src = (Inr (Some t), rest) \<Longrightarrow> length rest < length src"
proof -
  assume "decode_frame_eof src = (Inr (Some t), rest)"
  then have "decode_frame src = (Inr (Some t), rest)"
    by (auto simp: decode_frame_eof_def split: prod.splits sum.splits option.splits if_splits)
  from decode_frame_SomeD [OF this] show ?thesis by (auto simp del: as_bytes_append)
qed

function body_frames :: "ext \<Rightarrow> byte list \<Rightarrow> (body_error, envelope_object list) result" where
  "body_frames x buf =
     (case decode_frame_eof buf of
        (Inr None, _) \<Rightarrow> Inr []
      | (Inr (Some doc), rest) \<Rightarrow>
          (case from_turtle x doc of
             Inl _ \<Rightarrow> Inl (BodyError 400 ProtocolErrorCode)
           | Inr obj \<Rightarrow> rbind (body_frames x rest) (\<lambda>objs. Inr (obj # objs)))
      | (Inl (FrameTooLarge _), _) \<Rightarrow> Inl (BodyError 413 LimitExceeded)
      | (Inl _, _) \<Rightarrow> Inl (BodyError 400 ProtocolErrorCode))"
  by pat_completeness auto
termination
  by (relation "measure (\<lambda>(x, buf). length buf)") (auto dest: sym decode_frame_eof_shrinks)

declare body_frames.simps [simp del]

definition decode_frames_body ::
  "ext \<Rightarrow> string option \<Rightarrow> byte list \<Rightarrow> nat \<Rightarrow> (body_error, envelope_object list) result" where
  "decode_frames_body x content_type body max_bytes =
     (if \<not> is_frames_content_type content_type then Inl (BodyError 415 ProtocolErrorCode)
      else if max_bytes < length body then Inl (BodyError 413 LimitExceeded)
      else body_frames x body)"

definition read_one_frame ::
  "ext \<Rightarrow> string option \<Rightarrow> byte list \<Rightarrow> (body_error, envelope_object) result" where
  "read_one_frame x content_type body =
     rbind (decode_frames_body x content_type body (4 + MAX_FRAME_LEN))
       (\<lambda>frames. case frames of [obj] \<Rightarrow> Inr obj | _ \<Rightarrow> Inl (BodyError 400 ProtocolErrorCode))"

text \<open>The objects of a body, read one by one up to the first that does not read.\<close>

lemma body_frames_all:
  "list_all (encodes x) objs \<Longrightarrow> body_frames x (concat (map (enc_object x) objs)) =
     (case mapM (read_object x) objs of Inl _ \<Rightarrow> Inl (BodyError 400 ProtocolErrorCode) | Inr read \<Rightarrow> Inr read)"
proof (induction objs)
  case Nil
  then show ?case by (simp add: body_frames.simps decode_frame_eof_def decode_frame_def)
next
  case (Cons obj objs)
  then have "encodes x obj" by simp
  then obtain t where t: "to_turtle x obj = Inr t" "length t \<le> MAX_FRAME_LEN" "enc_object x obj = enc_text t"
    by (rule encodes_enc)
  let ?rest = "concat (map (enc_object x) objs)"
  have d: "decode_frame (enc_object x obj @ ?rest) = (rbind (read_text t) (\<lambda>q. Inr (Some q)), ?rest)"
    using t by (simp add: text_frames.whole)
  have r: "read_object x obj = rbind (read_text t) (from_turtle x)" by (simp add: read_object_def t(1))
  from d r Cons show ?case
    by (subst body_frames.simps)
      (auto simp: decode_frame_eof_def read_text_def split: sum.splits option.splits)
qed

end
