(* ===== verification/Request.thy ===== *)
theory Request
  imports Envelope_Types
begin

text \<open>
  The in-memory request (\<open>crates/protocol/src/request.rs\<close>). The \<open>ulid\<close> crate is a
  parameter: its text form of 16 bytes and the parser of that form.
\<close>

datatype request_kind = RQuery | RExecute

record request_options =
  ro_row_limit :: "int option"
  ro_byte_limit :: "int option"
  ro_timeout_ms :: "int option"

record request =
  rq_id :: "byte list"
  rq_kind :: request_kind
  rq_modulation :: string
  rq_signal :: string
  rq_params :: "wire_value list"
  rq_database :: "string option"
  rq_options :: request_options

record ulid =
  ulid_string :: "byte list \<Rightarrow> string"
  ulid_parse :: "string \<Rightarrow> byte list option"

text \<open>The text form of an id parses back to its 16 bytes.\<close>

definition ulid_law :: "ulid \<Rightarrow> bool" where
  "ulid_law u \<longleftrightarrow> (\<forall>bs. length bs = 16 \<longrightarrow> ulid_parse u (ulid_string u bs) = Some bs)"

text \<open>\<open>Request::new\<close>; the fresh id is the generator's.\<close>

definition request_new :: "byte list \<Rightarrow> request_kind \<Rightarrow> string \<Rightarrow> string \<Rightarrow> request" where
  "request_new fresh kind modulation sig =
     \<lparr>rq_id = fresh, rq_kind = kind, rq_modulation = modulation, rq_signal = sig, rq_params = [],
      rq_database = None,
      rq_options = \<lparr>ro_row_limit = None, ro_byte_limit = None, ro_timeout_ms = None\<rparr>\<rparr>"

definition id_string :: "ulid \<Rightarrow> request \<Rightarrow> string" where
  "id_string u r = ulid_string u (rq_id r)"

definition parse_id :: "ulid \<Rightarrow> string \<Rightarrow> (protocol_error, byte list) result" where
  "parse_id u s = ok_or (ulid_parse u s) (Malformed (InvalidRequestId s))"

definition to_envelope :: "ulid \<Rightarrow> request \<Rightarrow> envelope_object" where
  "to_envelope u r =
     (let st = \<lparr>st_id = id_string u r, st_modulation = rq_modulation r, st_signal = rq_signal r,
                st_params = rq_params r, st_database = rq_database r,
                st_row_limit = ro_row_limit (rq_options r),
                st_byte_limit = ro_byte_limit (rq_options r),
                st_timeout_ms = ro_timeout_ms (rq_options r)\<rparr>
      in case rq_kind r of RQuery \<Rightarrow> Query st | RExecute \<Rightarrow> Execute st)"

definition request_of :: "ulid \<Rightarrow> request_kind \<Rightarrow> statement \<Rightarrow> (protocol_error, request) result" where
  "request_of u kind st =
     rbind (parse_id u (st_id st)) (\<lambda>bytes.
       Inr \<lparr>rq_id = bytes, rq_kind = kind, rq_modulation = st_modulation st,
            rq_signal = st_signal st, rq_params = st_params st, rq_database = st_database st,
            rq_options = \<lparr>ro_row_limit = st_row_limit st, ro_byte_limit = st_byte_limit st,
                          ro_timeout_ms = st_timeout_ms st\<rparr>\<rparr>)"

definition from_envelope :: "ulid \<Rightarrow> envelope_object \<Rightarrow> (protocol_error, request) result" where
  "from_envelope u obj =
     (case obj of
        Query st \<Rightarrow> request_of u RQuery st
      | Execute st \<Rightarrow> request_of u RExecute st
      | other \<Rightarrow> Inl (Malformed (ExpectedRequest (envelope_class_name other))))"

lemma request_round_trip:
  "ulid_law u \<Longrightarrow> length (rq_id r) = 16 \<Longrightarrow> from_envelope u (to_envelope u r) = Inr r"
  by (cases r; cases "rq_options r"; cases "rq_kind r")
     (simp_all add: from_envelope_def to_envelope_def request_of_def parse_id_def id_string_def
       ulid_law_def Let_def)

end
