(* ===== verification/Reader.thy ===== *)
theory Reader
  imports Envelope_Types
begin

text \<open>
  What the two frame readers of the protocol crate have in common: a state machine that
  consumes one decoded frame at a time and yields a typed event, that is poisoned by its
  first error and closed by a terminal event.
\<close>

text \<open>Feeding a list of frames to a reader.\<close>

fun feed :: "('s \<Rightarrow> 'f \<Rightarrow> ('e, 'v) result \<times> 's) \<Rightarrow> 's \<Rightarrow> 'f list \<Rightarrow> ('e, 'v) result list \<times> 's" where
  "feed step s [] = ([], s)"
| "feed step s (f # fs) =
     (case step s f of (r, s') \<Rightarrow> case feed step s' fs of (rs, s'') \<Rightarrow> (r # rs, s''))"

lemma feed_append:
  "feed step s (fs @ gs) =
     (case feed step s fs of (rs, s') \<Rightarrow> case feed step s' gs of (rs', s'') \<Rightarrow> (rs @ rs', s''))"
  by (induction fs arbitrary: s) (auto split: prod.splits)

lemma feed_length: "feed step s fs = (rs, s') \<Longrightarrow> length rs = length fs"
  by (induction fs arbitrary: s rs) (auto split: prod.splits)

definition is_ok :: "('e, 'a) result \<Rightarrow> bool" where
  "is_ok r = (case r of Inl _ \<Rightarrow> False | Inr _ \<Rightarrow> True)"

lemma is_ok_simps [simp]: "is_ok (Inr x)" "\<not> is_ok (Inl e)"
  by (simp_all add: is_ok_def)

locale stream_reader =
  fixes step :: "'s \<Rightarrow> 'f \<Rightarrow> ('e, 'v) result \<times> 's"
    and failed :: "'s \<Rightarrow> bool"
    and closed :: "'s \<Rightarrow> bool"
    and terminal :: "'v \<Rightarrow> bool"
  assumes error_poisons: "step s f = (Inl e, s') \<Longrightarrow> failed s'"
    and failed_rejects: "failed s \<Longrightarrow> \<not> is_ok (fst (step s f))"
    and closed_rejects: "closed s \<Longrightarrow> \<not> is_ok (fst (step s f))"
    and terminal_closes: "step s f = (Inr v, s') \<Longrightarrow> terminal v \<longleftrightarrow> closed s'"
begin

lemma failed_stays: "failed s \<Longrightarrow> failed (snd (step s f))"
  using failed_rejects [of s f] error_poisons [of s f] by (cases "step s f") (auto simp: is_ok_def split: sum.splits)

text \<open>After an error every further frame is an error.\<close>

lemma failed_feed: "failed s \<Longrightarrow> list_all (\<lambda>r. \<not> is_ok r) (fst (feed step s fs))"
proof (induction fs arbitrary: s)
  case Nil
  then show ?case by simp
next
  case (Cons f fs)
  then have "\<not> is_ok (fst (step s f))" "failed (snd (step s f))"
    by (simp_all add: failed_rejects failed_stays)
  with Cons.IH [of "snd (step s f)"] show ?case by (auto split: prod.splits)
qed

lemma closed_feed:
  assumes "closed s"
  shows "list_all (\<lambda>r. \<not> is_ok r) (fst (feed step s fs))"
proof (cases fs)
  case (Cons f gs)
  obtain r s' where st: "step s f = (r, s')" by (cases "step s f")
  with closed_rejects [OF assms, of f] obtain e where "r = Inl e" by (cases r) auto
  with st error_poisons have "failed s'" by blast
  with failed_feed [of s' gs] st \<open>r = Inl e\<close> Cons show ?thesis by (auto split: prod.splits)
qed simp

text \<open>
  In any run, the frames accepted are a first part of the input, and only the last of
  them may be terminal.
\<close>

lemma accepted_prefix:
  assumes "feed step s fs = (rs, s')"
  shows "\<exists>vs n. rs = map Inr vs @ drop n rs \<and> n = length vs
    \<and> list_all (\<lambda>r. \<not> is_ok r) (drop n rs)
    \<and> (\<forall>v \<in> set (butlast vs). \<not> terminal v)"
  using assms
proof (induction fs arbitrary: s rs s')
  case Nil
  then show ?case by auto
next
  case (Cons f fs)
  obtain r s1 where st: "step s f = (r, s1)" by (cases "step s f")
  obtain rs1 s2 where fd: "feed step s1 fs = (rs1, s2)" by (cases "feed step s1 fs")
  have rs: "rs = r # rs1" using Cons.prems st fd by simp
  show ?case
  proof (cases r)
    case (Inl e)
    with st error_poisons have "failed s1" by blast
    with failed_feed [of s1 fs] fd Inl rs show ?thesis by (intro exI [of _ "[]"]) simp
  next
    case (Inr v)
    from Cons.IH [OF fd] obtain vs where vs: "rs1 = map Inr vs @ drop (length vs) rs1"
      "list_all (\<lambda>r. \<not> is_ok r) (drop (length vs) rs1)" "\<forall>v \<in> set (butlast vs). \<not> terminal v"
      by blast
    have "\<not> terminal v" if "vs \<noteq> []"
    proof
      assume "terminal v"
      with terminal_closes st Inr have "closed s1" by blast
      then have "list_all (\<lambda>r. \<not> is_ok r) rs1" using closed_feed [of s1 fs] fd by simp
      with vs(1) that show False by (cases vs) (auto, metis is_ok_simps(1) list.pred_inject(2))
    qed
    with vs Inr rs show ?thesis by (intro exI [of _ "v # vs"]) auto
  qed
qed

end

end
