(* ===== verification/Response.thy ===== *)
theory Response
  imports Reader
begin

text \<open>
  The response stream choreography (\<open>crates/protocol/src/response.rs\<close>): the reader of
  one request's response frames. The sequence counter is an integer; as an \<open>i64\<close> it
  would take \<open>2 ^ 63\<close> rows to leave its range.
\<close>

datatype response_event =
    EvHeader result_header
  | EvRows "row list"
  | EvGraph graph
  | EvGeneric generic
  | EvDone done_trailer
  | EvDenied denied
  | EvError error_envelope
  | EvHelp string "string list"
  | EvMedia media

fun is_terminal :: "response_event \<Rightarrow> bool" where
  "is_terminal (EvDone _) = True"
| "is_terminal (EvDenied _) = True"
| "is_terminal (EvError _) = True"
| "is_terminal (EvHelp _ _) = True"
| "is_terminal (EvMedia _) = True"
| "is_terminal _ = False"

datatype rstate =
  AwaitHeader | Rows "string list" | Graphs | Generics | Finished | Failed

record response_reader =
  rr_id :: string
  rr_state :: rstate
  rr_next_seq :: int

definition reader_new :: "string \<Rightarrow> response_reader" where
  "reader_new i = \<lparr>rr_id = i, rr_state = AwaitHeader, rr_next_seq = 0\<rparr>"

definition is_finished :: "response_reader \<Rightarrow> bool" where
  "is_finished r \<longleftrightarrow> rr_state r = Finished"

definition check_id :: "string \<Rightarrow> string option \<Rightarrow> string \<Rightarrow> (protocol_error, unit) result" where
  "check_id self got class =
     (case got of
        None \<Rightarrow> Inr ()
      | Some i \<Rightarrow> if i = self then Inr () else Inl (Choreography (IdMismatch class i self)))"

text \<open>The row loop: sequence numbers count up, and cells name declared columns.\<close>

fun check_rows :: "string list \<Rightarrow> row list \<Rightarrow> int \<Rightarrow> (protocol_error, unit) result \<times> int" where
  "check_rows columns [] n = (Inr (), n)"
| "check_rows columns (r # rows) n =
     (if row_seq r \<noteq> n then (Inl (Choreography (RowSeq (row_seq r) n)), n)
      else case List.find (\<lambda>name. name \<notin> set columns) (map fst (row_cells r)) of
        Some name \<Rightarrow> (Inl (Choreography (UndeclaredColumn name)), n)
      | None \<Rightarrow> check_rows columns rows (n + 1))"

text \<open>A frame that ends the stream, after its id is checked.\<close>

definition close_with ::
  "response_reader \<Rightarrow> string option \<Rightarrow> string \<Rightarrow> response_event
    \<Rightarrow> (protocol_error, response_event) result \<times> response_reader" where
  "close_with r got class ev =
     (case check_id (rr_id r) got class of
        Inl e \<Rightarrow> (Inl e, r)
      | Inr _ \<Rightarrow> (Inr ev, r\<lparr>rr_state := Finished\<rparr>))"

definition try_accept ::
  "response_reader \<Rightarrow> envelope_object
    \<Rightarrow> (protocol_error, response_event) result \<times> response_reader" where
  "try_accept r obj =
     (if rr_state r = Failed then (Inl (Choreography AlreadyFailed), r)
      else if rr_state r = Finished
      then (Inl (Choreography (AfterCompletion (envelope_class_name obj))), r)
      else
        let at_start = (rr_state r = AwaitHeader)
        in case obj of
          Result h \<Rightarrow>
            if \<not> at_start then (Inl (Choreography ResultOutOfOrder), r)
            else (case check_id (rr_id r) (Some (rh_id h)) ''rsntr:Result'' of
                    Inl e \<Rightarrow> (Inl e, r)
                  | Inr _ \<Rightarrow> (Inr (EvHeader h), r\<lparr>rr_state := Rows (rh_columns h)\<rparr>))
        | Row rows \<Rightarrow>
            (case rr_state r of
               Rows columns \<Rightarrow>
                 if rows = [] then (Inl (Choreography EmptyRowBatch), r)
                 else (case check_rows columns rows (rr_next_seq r) of
                         (Inl e, n) \<Rightarrow> (Inl e, r\<lparr>rr_next_seq := n\<rparr>)
                       | (Inr _, n) \<Rightarrow> (Inr (EvRows rows), r\<lparr>rr_next_seq := n\<rparr>))
             | _ \<Rightarrow> (Inl (Choreography RowBeforeHeader), r))
        | Graph g \<Rightarrow>
            if \<not> at_start \<and> rr_state r \<noteq> Graphs then (Inl (Choreography GraphOutOfOrder), r)
            else (case check_id (rr_id r) (Some (gr_id g)) ''rsntr:Graph'' of
                    Inl e \<Rightarrow> (Inl e, r)
                  | Inr _ \<Rightarrow>
                      if gr_seq g \<noteq> rr_next_seq r
                      then (Inl (Choreography (GraphSeq (gr_seq g) (rr_next_seq r))), r)
                      else (Inr (EvGraph g),
                            r\<lparr>rr_next_seq := rr_next_seq r + 1, rr_state := Graphs\<rparr>))
        | Generic g \<Rightarrow>
            if \<not> at_start \<and> rr_state r \<noteq> Generics then (Inl (Choreography GenericOutOfOrder), r)
            else (Inr (EvGeneric g), r\<lparr>rr_state := Generics\<rparr>)
        | Done d \<Rightarrow>
            if at_start then (Inl (Choreography DoneBeforeAny), r)
            else close_with r (Some (dn_id d)) ''rsntr:Done'' (EvDone d)
        | Denied d \<Rightarrow>
            if \<not> at_start then (Inl (Choreography DeniedAfterStart), r)
            else close_with r (de_id d) ''rsntr:Denied'' (EvDenied d)
        | Error e \<Rightarrow> close_with r (er_id e) ''rsntr:Error'' (EvError e)
        | Help h \<Rightarrow>
            if \<not> at_start then (Inl (Choreography HelpAfterStart), r)
            else close_with r (hp_id h) ''rsntr:Help'' (EvHelp (hp_signal h) (hp_topics h))
        | Media m \<Rightarrow>
            if \<not> at_start then (Inl (Choreography MediaAfterStart), r)
            else close_with r (Some (md_id m)) ''rsntr:Media'' (EvMedia m)
        | other \<Rightarrow> (Inl (Choreography (NotAResponse (envelope_class_name other))), r))"

definition accept ::
  "response_reader \<Rightarrow> envelope_object
    \<Rightarrow> (protocol_error, response_event) result \<times> response_reader" where
  "accept r obj =
     (case try_accept r obj of
        (Inr ev, r') \<Rightarrow> (Inr ev, r')
      | (Inl e, r') \<Rightarrow> (Inl e, r'\<lparr>rr_state := Failed\<rparr>))"

definition finish :: "response_reader \<Rightarrow> (protocol_error, unit) result" where
  "finish r =
     (case rr_state r of
        Finished \<Rightarrow> Inr ()
      | AwaitHeader \<Rightarrow> Inl (Choreography EndedBeforeAnyFrame)
      | Failed \<Rightarrow> Inl (Choreography AlreadyFailed)
      | _ \<Rightarrow> Inl (Choreography EndedWithoutTrailer))"

subsection \<open>The reader interface\<close>

lemma close_with_cases:
  "close_with r got class ev = (res, r') \<Longrightarrow>
     (\<exists>e. res = Inl e \<and> r' = r) \<or> (res = Inr ev \<and> rr_state r' = Finished)"
  by (auto simp: close_with_def split: sum.splits)

lemma try_accept_Inr:
  assumes "try_accept r obj = (Inr ev, r')"
  shows "is_terminal ev \<longleftrightarrow> rr_state r' = Finished"
  using assms
  by (auto simp: try_accept_def Let_def close_with_def check_id_def
      split: envelope_object.splits if_splits sum.splits rstate.splits option.splits prod.splits)

interpretation resp_reader: stream_reader accept
  "\<lambda>r. rr_state r = Failed" "\<lambda>r. rr_state r = Finished" is_terminal
proof unfold_locales
  fix s f e s'
  assume "accept s f = (Inl e, s')"
  then show "rr_state s' = Failed"
    by (auto simp: accept_def split: prod.splits sum.splits)
next
  fix s :: response_reader and f
  assume "rr_state s = Failed"
  then show "\<not> is_ok (fst (accept s f))" by (simp add: accept_def try_accept_def)
next
  fix s :: response_reader and f
  assume "rr_state s = Finished"
  then show "\<not> is_ok (fst (accept s f))" by (simp add: accept_def try_accept_def)
next
  fix s f v s'
  assume "accept s f = (Inr v, s')"
  then have "try_accept s f = (Inr v, s')" by (auto simp: accept_def split: prod.splits sum.splits)
  then show "is_terminal v \<longleftrightarrow> rr_state s' = Finished" by (rule try_accept_Inr)
qed

subsection \<open>The responses the reader completes\<close>

text \<open>
  The abstract choreography: what the documentation of a response stream says, as a
  description of whole frame lists, with no reader state.
\<close>

definition id_ok :: "string \<Rightarrow> string option \<Rightarrow> bool" where
  "id_ok i got \<longleftrightarrow> got = None \<or> got = Some i"

definition trailer :: "string \<Rightarrow> envelope_object \<Rightarrow> bool" where
  "trailer i t = (case t of Done d \<Rightarrow> dn_id d = i | Error e \<Rightarrow> id_ok i (er_id e) | _ \<Rightarrow> False)"

fun rows_ok :: "string list \<Rightarrow> int \<Rightarrow> row list \<Rightarrow> bool" where
  "rows_ok columns n [] = True"
| "rows_ok columns n (r # rows) =
     (row_seq r = n \<and> fst ` set (row_cells r) \<subseteq> set columns \<and> rows_ok columns (n + 1) rows)"

fun graphs_ok :: "string \<Rightarrow> int \<Rightarrow> graph list \<Rightarrow> bool" where
  "graphs_ok i n [] = True"
| "graphs_ok i n (g # gs) = (gr_id g = i \<and> gr_seq g = n \<and> graphs_ok i (n + 1) gs)"

definition lone :: "string \<Rightarrow> envelope_object \<Rightarrow> bool" where
  "lone i t =
     (case t of Denied d \<Rightarrow> id_ok i (de_id d) | Error e \<Rightarrow> id_ok i (er_id e)
      | Help h \<Rightarrow> id_ok i (hp_id h) | Media m \<Rightarrow> md_id m = i | _ \<Rightarrow> False)"

inductive response_shape :: "string \<Rightarrow> envelope_object list \<Rightarrow> bool" for i where
  table: "rh_id h = i \<Longrightarrow> [] \<notin> set batches \<Longrightarrow> rows_ok (rh_columns h) 0 (concat batches) \<Longrightarrow>
    trailer i t \<Longrightarrow> response_shape i (Result h # map Row batches @ [t])"
| graphs: "gs \<noteq> [] \<Longrightarrow> graphs_ok i 0 gs \<Longrightarrow> trailer i t \<Longrightarrow> response_shape i (map Graph gs @ [t])"
| generics: "gs \<noteq> [] \<Longrightarrow> trailer i t \<Longrightarrow> response_shape i (map Generic gs @ [t])"
| single: "lone i t \<Longrightarrow> response_shape i [t]"

definition completes :: "response_reader \<Rightarrow> envelope_object list \<Rightarrow> bool" where
  "completes r objs \<longleftrightarrow> finish (snd (feed accept r objs)) = Inr ()"

lemma check_id_ok: "check_id i got class = Inr () \<longleftrightarrow> id_ok i got"
  by (auto simp: check_id_def id_ok_def split: option.splits)

lemma undeclared_None:
  "List.find (\<lambda>name. name \<notin> set columns) (map fst cells) = None \<longleftrightarrow> fst ` set cells \<subseteq> set columns"
  by (auto simp: find_None_iff)

lemma check_rows_ok:
  "rows_ok columns n rows \<Longrightarrow> check_rows columns rows n = (Inr (), n + int (length rows))"
proof (induction rows arbitrary: n)
  case (Cons r rows)
  then have "List.find (\<lambda>name. name \<notin> set columns) (map fst (row_cells r)) = None"
    by (simp add: undeclared_None)
  with Cons show ?case by simp
qed simp

lemma check_rows_bad:
  "\<not> rows_ok columns n rows \<Longrightarrow> \<exists>e n'. check_rows columns rows n = (Inl e, n')"
proof (induction rows arbitrary: n)
  case (Cons r rows)
  show ?case
  proof (cases "List.find (\<lambda>name. name \<notin> set columns) (map fst (row_cells r))")
    case None
    with undeclared_None [of columns "row_cells r"] have "fst ` set (row_cells r) \<subseteq> set columns" by simp
    with Cons None show ?thesis by auto
  qed simp
qed simp

lemma rows_ok_append:
  "rows_ok columns n (xs @ ys) \<longleftrightarrow> rows_ok columns n xs \<and> rows_ok columns (n + int (length xs)) ys"
  by (induction xs arbitrary: n) (auto simp: algebra_simps)

lemma completes_Nil: "completes r [] \<longleftrightarrow> rr_state r = Finished"
  by (auto simp: completes_def finish_def split: rstate.splits)

lemma completes_Cons: "completes r (x # xs) \<longleftrightarrow> completes (snd (accept r x)) xs"
  by (simp add: completes_def split: prod.splits)

lemma failed_completes: "rr_state r = Failed \<Longrightarrow> \<not> completes r xs"
proof (induction xs arbitrary: r)
  case Nil
  then show ?case by (simp add: completes_Nil)
next
  case (Cons x xs)
  then show ?case using resp_reader.failed_stays [of r x] by (simp add: completes_Cons)
qed

lemma finished_completes: "rr_state r = Finished \<Longrightarrow> completes r xs \<longleftrightarrow> xs = []"
  by (cases xs) (simp_all add: completes_Nil completes_Cons accept_def try_accept_def failed_completes)

text \<open>How each state goes on, one frame at a time.\<close>

lemmas accept_simps = accept_def try_accept_def close_with_def Let_def check_id_def

lemma rows_step:
  assumes "rr_state r = Rows columns"
  shows "completes r (x # xs) \<longleftrightarrow>
    (case x of
       Row rows \<Rightarrow> rows \<noteq> [] \<and> rows_ok columns (rr_next_seq r) rows
         \<and> completes (r\<lparr>rr_next_seq := rr_next_seq r + int (length rows)\<rparr>) xs
     | _ \<Rightarrow> trailer (rr_id r) x \<and> xs = [])"
proof (cases x)
  case (Row rows)
  show ?thesis
  proof (cases "rows_ok columns (rr_next_seq r) rows")
    case True
    then have "check_rows columns rows (rr_next_seq r) = (Inr (), rr_next_seq r + int (length rows))"
      by (rule check_rows_ok)
    with True Row assms show ?thesis
      by (simp add: completes_Cons accept_simps failed_completes)
  next
    case False
    with Row assms check_rows_bad [OF False] show ?thesis
      by (auto simp: completes_Cons accept_simps failed_completes)
  qed
qed (use assms in \<open>auto simp: completes_Cons accept_simps trailer_def id_ok_def
    failed_completes finished_completes split: option.splits\<close>)

lemma graphs_step:
  assumes "rr_state r = Graphs"
  shows "completes r (x # xs) \<longleftrightarrow>
    (case x of
       Graph g \<Rightarrow> gr_id g = rr_id r \<and> gr_seq g = rr_next_seq r
         \<and> completes (r\<lparr>rr_next_seq := rr_next_seq r + 1, rr_state := Graphs\<rparr>) xs
     | _ \<Rightarrow> trailer (rr_id r) x \<and> xs = [])"
  using assms
  by (cases x) (auto simp: completes_Cons accept_simps trailer_def id_ok_def
    failed_completes finished_completes split: option.splits)

lemma generics_step:
  assumes "rr_state r = Generics"
  shows "completes r (x # xs) \<longleftrightarrow>
    (case x of Generic g \<Rightarrow> completes (r\<lparr>rr_state := Generics\<rparr>) xs | _ \<Rightarrow> trailer (rr_id r) x \<and> xs = [])"
  using assms
  by (cases x) (auto simp: completes_Cons accept_simps trailer_def id_ok_def
    failed_completes finished_completes split: option.splits)

lemma start_step:
  assumes "rr_state r = AwaitHeader"
  shows "completes r (x # xs) \<longleftrightarrow>
    (case x of
       Result h \<Rightarrow> rh_id h = rr_id r \<and> completes (r\<lparr>rr_state := Rows (rh_columns h)\<rparr>) xs
     | Graph g \<Rightarrow> gr_id g = rr_id r \<and> gr_seq g = rr_next_seq r
         \<and> completes (r\<lparr>rr_next_seq := rr_next_seq r + 1, rr_state := Graphs\<rparr>) xs
     | Generic g \<Rightarrow> completes (r\<lparr>rr_state := Generics\<rparr>) xs
     | _ \<Rightarrow> lone (rr_id r) x \<and> xs = [])"
  using assms
  by (cases x) (auto simp: completes_Cons accept_simps lone_def id_ok_def
    failed_completes finished_completes split: option.splits)

text \<open>What completes from inside a table, a graph sequence and a passthrough sequence.\<close>

lemma tagged_run:
  "(\<exists>gs t. x # xs = map C gs @ [t] \<and> P gs t) \<longleftrightarrow>
     (xs = [] \<and> P [] x) \<or> (\<exists>g hs t. x = C g \<and> xs = map C hs @ [t] \<and> P (g # hs) t)"
  (is "?L \<longleftrightarrow> ?R")
proof
  assume ?L
  then obtain gs t where "x # xs = map C gs @ [t]" "P gs t" by blast
  then show ?R by (cases gs) auto
next
  assume ?R
  then consider "xs = []" "P [] x"
    | g hs t where "x = C g" "xs = map C hs @ [t]" "P (g # hs) t" by blast
  then show ?L
  proof cases
    case 1
    then show ?thesis by (intro exI [of _ "[]"] exI [of _ x]) simp
  next
    case 2
    then show ?thesis by (intro exI [of _ "g # hs"] exI [of _ t]) simp
  qed
qed

lemma rows_completes:
  "rr_state r = Rows columns \<Longrightarrow> completes r xs \<longleftrightarrow>
    (\<exists>batches t. xs = map Row batches @ [t] \<and> [] \<notin> set batches
      \<and> rows_ok columns (rr_next_seq r) (concat batches) \<and> trailer (rr_id r) t)"
proof (induction xs arbitrary: r)
  case Nil
  then show ?case by (simp add: completes_Nil)
next
  case (Cons x xs)
  note step = rows_step [OF Cons.prems, of x xs]
  have "completes (r\<lparr>rr_next_seq := rr_next_seq r + int (length rows)\<rparr>) xs \<longleftrightarrow>
    (\<exists>batches t. xs = map Row batches @ [t] \<and> [] \<notin> set batches
      \<and> rows_ok columns (rr_next_seq r + int (length rows)) (concat batches) \<and> trailer (rr_id r) t)" for rows
    using Cons.IH [of "r\<lparr>rr_next_seq := rr_next_seq r + int (length rows)\<rparr>"] Cons.prems by simp
  with step show ?case
    unfolding tagged_run by (cases x) (auto simp: rows_ok_append trailer_def)
qed

lemma graphs_completes:
  "rr_state r = Graphs \<Longrightarrow> completes r xs \<longleftrightarrow>
    (\<exists>gs t. xs = map Graph gs @ [t] \<and> graphs_ok (rr_id r) (rr_next_seq r) gs \<and> trailer (rr_id r) t)"
proof (induction xs arbitrary: r)
  case Nil
  then show ?case by (simp add: completes_Nil)
next
  case (Cons x xs)
  note step = graphs_step [OF Cons.prems, of x xs]
  have "completes (r\<lparr>rr_next_seq := rr_next_seq r + 1, rr_state := Graphs\<rparr>) xs \<longleftrightarrow>
    (\<exists>gs t. xs = map Graph gs @ [t] \<and> graphs_ok (rr_id r) (rr_next_seq r + 1) gs \<and> trailer (rr_id r) t)"
    using Cons.IH [of "r\<lparr>rr_next_seq := rr_next_seq r + 1, rr_state := Graphs\<rparr>"] by simp
  with step show ?case
    unfolding tagged_run by (cases x) (auto simp: trailer_def)
qed

lemma generics_completes:
  "rr_state r = Generics \<Longrightarrow> completes r xs \<longleftrightarrow>
    (\<exists>gs t. xs = map Generic gs @ [t] \<and> trailer (rr_id r) t)"
proof (induction xs arbitrary: r)
  case Nil
  then show ?case by (simp add: completes_Nil)
next
  case (Cons x xs)
  note step = generics_step [OF Cons.prems, of x xs]
  have "completes (r\<lparr>rr_state := Generics\<rparr>) xs \<longleftrightarrow>
    (\<exists>gs t. xs = map Generic gs @ [t] \<and> trailer (rr_id r) t)"
    using Cons.IH [of "r\<lparr>rr_state := Generics\<rparr>"] by simp
  with step show ?case
    unfolding tagged_run by (cases x) (auto simp: trailer_def)
qed

lemma reader_new_sel [simp]:
  "rr_id (reader_new i) = i" "rr_state (reader_new i) = AwaitHeader" "rr_next_seq (reader_new i) = 0"
  by (simp_all add: reader_new_def)

lemma shape_completes: "response_shape i xs \<Longrightarrow> completes (reader_new i) xs"
proof (induction rule: response_shape.induct)
  case (table h batches t)
  let ?r = "(reader_new i)\<lparr>rr_state := Rows (rh_columns h)\<rparr>"
  have "completes ?r (map Row batches @ [t])"
    using table by (subst rows_completes [of _ "rh_columns h"]) auto
  with table show ?case by (simp add: start_step)
next
  case (graphs gs t)
  then obtain g hs where gs: "gs = g # hs" by (cases gs) auto
  let ?r = "(reader_new i)\<lparr>rr_next_seq := 1, rr_state := Graphs\<rparr>"
  have "completes ?r (map Graph hs @ [t])"
    using graphs gs by (subst graphs_completes) auto
  with graphs gs show ?case by (simp add: start_step)
next
  case (generics gs t)
  then obtain g hs where gs: "gs = g # hs" by (cases gs) auto
  let ?r = "(reader_new i)\<lparr>rr_state := Generics\<rparr>"
  have "completes ?r (map Generic hs @ [t])"
    using generics gs by (subst generics_completes) auto
  with gs show ?case by (simp add: start_step)
next
  case (single t)
  then show ?case by (cases t) (simp_all add: start_step lone_def)
qed

lemma completes_shape:
  assumes c: "completes (reader_new i) xs"
  shows "response_shape i xs"
proof (cases xs)
  case Nil
  with c show ?thesis by (simp add: completes_Nil)
next
  case (Cons x ys)
  note s = c [unfolded Cons, simplified start_step [OF reader_new_sel(2)] reader_new_sel]
  show ?thesis
  proof (cases x)
    case (Result h)
    with s have "completes ((reader_new i)\<lparr>rr_state := Rows (rh_columns h)\<rparr>) ys" "rh_id h = i" by auto
    with Result Cons show ?thesis
      by (auto simp: rows_completes [of _ "rh_columns h"] intro: response_shape.table)
  next
    case (Graph g)
    with s obtain hs t where "ys = map Graph hs @ [t]" "graphs_ok i 1 hs" "trailer i t"
      by (auto simp: graphs_completes)
    with Graph s Cons response_shape.graphs [of "g # hs" i t] show ?thesis by simp
  next
    case (Generic g)
    with s obtain hs t where "ys = map Generic hs @ [t]" "trailer i t"
      by (auto simp: generics_completes)
    with Generic Cons response_shape.generics [of "g # hs" i t] show ?thesis by simp
  qed (use s Cons in \<open>auto intro: response_shape.single\<close>)
qed

end
