(* ===== verification/Entrainment.thy ===== *)
theory Entrainment
  imports Reader
begin

text \<open>
  The entrainment stream choreography (\<open>crates/protocol/src/entrainment.rs\<close>): one
  acknowledgment, then vibrations in sequence until the stream is damped or closes.
\<close>

datatype entrainment_event =
    Entrained
  | EvVibration vibration
  | Damped
  | EvEDenied denied
  | EvEError error_envelope

datatype estate = AwaitAck | Flowing | EFinished | EFailed

record entrainment_reader =
  ent_id :: string
  ent_point :: string
  ent_state :: estate
  ent_next_seq :: int

definition entrainment_new :: "string \<Rightarrow> string \<Rightarrow> entrainment_reader" where
  "entrainment_new i p = \<lparr>ent_id = i, ent_point = p, ent_state = AwaitAck, ent_next_seq = 0\<rparr>"

definition is_flowing :: "entrainment_reader \<Rightarrow> bool" where
  "is_flowing r \<longleftrightarrow> ent_state r = Flowing"

definition entrainment_is_finished :: "entrainment_reader \<Rightarrow> bool" where
  "entrainment_is_finished r \<longleftrightarrow> ent_state r = EFinished"

definition entrainment_check_id ::
  "entrainment_reader \<Rightarrow> string option \<Rightarrow> string \<Rightarrow> (protocol_error, unit) result" where
  "entrainment_check_id r got class =
     (case got of
        None \<Rightarrow> Inr ()
      | Some i \<Rightarrow> if i = ent_id r then Inr ()
                  else Inl (Choreography (IdMismatch class i (ent_id r))))"

definition entrainment_try_accept ::
  "entrainment_reader \<Rightarrow> envelope_object
    \<Rightarrow> (protocol_error, entrainment_event) result \<times> entrainment_reader" where
  "entrainment_try_accept r obj =
     (if ent_state r = EFailed then (Inl (Choreography AlreadyFailed), r)
      else if ent_state r = EFinished
      then (Inl (Choreography (AfterCompletion (envelope_class_name obj))), r)
      else
        let flowing = (ent_state r = Flowing)
        in case obj of
          Done d \<Rightarrow>
            (case entrainment_check_id r (Some (dn_id d)) ''rsntr:Done'' of
               Inl e \<Rightarrow> (Inl e, r)
             | Inr _ \<Rightarrow>
                 if flowing then (Inr Damped, r\<lparr>ent_state := EFinished\<rparr>)
                 else (Inr Entrained, r\<lparr>ent_state := Flowing\<rparr>))
        | Vibration v \<Rightarrow>
            if \<not> flowing then (Inl (Choreography VibrationBeforeAck), r)
            else (case entrainment_check_id r (Some (vi_id v)) ''rsntr:Vibration'' of
                    Inl e \<Rightarrow> (Inl e, r)
                  | Inr _ \<Rightarrow>
                      if vi_point v \<noteq> ent_point r
                      then (Inl (Choreography (VibrationPoint (vi_point v) (ent_point r))), r)
                      else if vi_seq v \<noteq> ent_next_seq r
                      then (Inl (Choreography (VibrationSeq (vi_seq v) (ent_next_seq r))), r)
                      else (Inr (EvVibration v), r\<lparr>ent_next_seq := ent_next_seq r + 1\<rparr>))
        | Denied d \<Rightarrow>
            if flowing then (Inl (Choreography DeniedAfterAck), r)
            else (case entrainment_check_id r (de_id d) ''rsntr:Denied'' of
                    Inl e \<Rightarrow> (Inl e, r)
                  | Inr _ \<Rightarrow> (Inr (EvEDenied d), r\<lparr>ent_state := EFinished\<rparr>))
        | Error e \<Rightarrow>
            (case entrainment_check_id r (er_id e) ''rsntr:Error'' of
               Inl err \<Rightarrow> (Inl err, r)
             | Inr _ \<Rightarrow> (Inr (EvEError e), r\<lparr>ent_state := EFinished\<rparr>))
        | other \<Rightarrow> (Inl (Choreography (NotAnEntrainment (envelope_class_name other))), r))"

definition entrainment_accept ::
  "entrainment_reader \<Rightarrow> envelope_object
    \<Rightarrow> (protocol_error, entrainment_event) result \<times> entrainment_reader" where
  "entrainment_accept r obj =
     (case entrainment_try_accept r obj of
        (Inr ev, r') \<Rightarrow> (Inr ev, r')
      | (Inl e, r') \<Rightarrow> (Inl e, r'\<lparr>ent_state := EFailed\<rparr>))"

definition entrainment_finish :: "entrainment_reader \<Rightarrow> (protocol_error, unit) result" where
  "entrainment_finish r =
     (case ent_state r of
        Flowing \<Rightarrow> Inr ()
      | EFinished \<Rightarrow> Inr ()
      | AwaitAck \<Rightarrow> Inl (Choreography EndedBeforeAnyFrame)
      | EFailed \<Rightarrow> Inl (Choreography AlreadyFailed))"

subsection \<open>The reader interface\<close>

fun ends_entrainment :: "entrainment_event \<Rightarrow> bool" where
  "ends_entrainment Entrained = False"
| "ends_entrainment (EvVibration _) = False"
| "ends_entrainment _ = True"

lemmas entrainment_simps =
  entrainment_accept_def entrainment_try_accept_def Let_def entrainment_check_id_def

interpretation ent_reader: stream_reader entrainment_accept
  "\<lambda>r. ent_state r = EFailed" "\<lambda>r. ent_state r = EFinished" ends_entrainment
proof unfold_locales
  fix s f e s'
  assume "entrainment_accept s f = (Inl e, s')"
  then show "ent_state s' = EFailed"
    by (auto simp: entrainment_accept_def split: prod.splits sum.splits)
next
  fix s :: entrainment_reader and f
  assume "ent_state s = EFailed"
  then show "\<not> is_ok (fst (entrainment_accept s f))"
    by (simp add: entrainment_accept_def entrainment_try_accept_def)
next
  fix s :: entrainment_reader and f
  assume "ent_state s = EFinished"
  then show "\<not> is_ok (fst (entrainment_accept s f))"
    by (simp add: entrainment_accept_def entrainment_try_accept_def)
next
  fix s f v s'
  assume "entrainment_accept s f = (Inr v, s')"
  then show "ends_entrainment v \<longleftrightarrow> ent_state s' = EFinished"
    by (auto simp: entrainment_simps
        split: envelope_object.splits if_splits sum.splits option.splits prod.splits)
qed

subsection \<open>The streams the reader completes\<close>

definition ent_id_ok :: "string \<Rightarrow> string option \<Rightarrow> bool" where
  "ent_id_ok i got \<longleftrightarrow> got = None \<or> got = Some i"

fun vibrations_ok :: "string \<Rightarrow> string \<Rightarrow> int \<Rightarrow> vibration list \<Rightarrow> bool" where
  "vibrations_ok i p n [] = True"
| "vibrations_ok i p n (v # vs) =
     (vi_id v = i \<and> vi_point v = p \<and> vi_seq v = n \<and> vibrations_ok i p (n + 1) vs)"

definition damping :: "string \<Rightarrow> envelope_object \<Rightarrow> bool" where
  "damping i t = (case t of Done d \<Rightarrow> dn_id d = i | Error e \<Rightarrow> ent_id_ok i (er_id e) | _ \<Rightarrow> False)"

definition refusal :: "string \<Rightarrow> envelope_object \<Rightarrow> bool" where
  "refusal i t =
     (case t of Denied d \<Rightarrow> ent_id_ok i (de_id d) | Error e \<Rightarrow> ent_id_ok i (er_id e) | _ \<Rightarrow> False)"

inductive entrainment_shape :: "string \<Rightarrow> string \<Rightarrow> envelope_object list \<Rightarrow> bool" for i p where
  refused: "refusal i t \<Longrightarrow> entrainment_shape i p [t]"
| flowing: "dn_id d = i \<Longrightarrow> vibrations_ok i p 0 vs \<Longrightarrow>
    entrainment_shape i p (Done d # map Vibration vs)"
| damped: "dn_id d = i \<Longrightarrow> vibrations_ok i p 0 vs \<Longrightarrow> damping i t \<Longrightarrow>
    entrainment_shape i p (Done d # map Vibration vs @ [t])"

definition ent_completes :: "entrainment_reader \<Rightarrow> envelope_object list \<Rightarrow> bool" where
  "ent_completes r objs \<longleftrightarrow> entrainment_finish (snd (feed entrainment_accept r objs)) = Inr ()"

lemma ent_completes_Nil: "ent_completes r [] \<longleftrightarrow> ent_state r \<in> {Flowing, EFinished}"
  by (auto simp: ent_completes_def entrainment_finish_def split: estate.splits)

lemma ent_completes_Cons: "ent_completes r (x # xs) \<longleftrightarrow> ent_completes (snd (entrainment_accept r x)) xs"
  by (simp add: ent_completes_def split: prod.splits)

lemma failed_ent_completes: "ent_state r = EFailed \<Longrightarrow> \<not> ent_completes r xs"
proof (induction xs arbitrary: r)
  case Nil
  then show ?case by (simp add: ent_completes_Nil)
next
  case (Cons x xs)
  then show ?case using ent_reader.failed_stays [of r x] by (simp add: ent_completes_Cons)
qed

lemma finished_ent_completes: "ent_state r = EFinished \<Longrightarrow> ent_completes r xs \<longleftrightarrow> xs = []"
  by (cases xs) (simp_all add: ent_completes_Nil ent_completes_Cons entrainment_accept_def
    entrainment_try_accept_def failed_ent_completes)

lemmas ent_step_simps = ent_completes_Cons entrainment_simps damping_def refusal_def ent_id_ok_def
  failed_ent_completes finished_ent_completes

lemma flowing_step:
  assumes "ent_state r = Flowing"
  shows "ent_completes r (x # xs) \<longleftrightarrow>
    (case x of
       Vibration v \<Rightarrow> vi_id v = ent_id r \<and> vi_point v = ent_point r \<and> vi_seq v = ent_next_seq r
         \<and> ent_completes (r\<lparr>ent_next_seq := ent_next_seq r + 1\<rparr>) xs
     | _ \<Rightarrow> damping (ent_id r) x \<and> xs = [])"
  using assms by (cases x) (auto simp: ent_step_simps split: option.splits)

lemma await_step:
  assumes "ent_state r = AwaitAck"
  shows "ent_completes r (x # xs) \<longleftrightarrow>
    (case x of
       Done d \<Rightarrow> dn_id d = ent_id r \<and> ent_completes (r\<lparr>ent_state := Flowing\<rparr>) xs
     | _ \<Rightarrow> refusal (ent_id r) x \<and> xs = [])"
  using assms by (cases x) (auto simp: ent_step_simps split: option.splits)

lemma flowing_completes:
  "ent_state r = Flowing \<Longrightarrow> ent_completes r xs \<longleftrightarrow>
    (\<exists>vs ts. xs = map Vibration vs @ ts \<and> vibrations_ok (ent_id r) (ent_point r) (ent_next_seq r) vs
      \<and> (ts = [] \<or> (\<exists>t. ts = [t] \<and> damping (ent_id r) t)))"
proof (induction xs arbitrary: r)
  case Nil
  then show ?case by (simp add: ent_completes_Nil)
next
  case (Cons x xs)
  let ?r = "r\<lparr>ent_next_seq := ent_next_seq r + 1\<rparr>"
  have ih: "ent_completes ?r xs \<longleftrightarrow>
    (\<exists>vs ts. xs = map Vibration vs @ ts \<and> vibrations_ok (ent_id r) (ent_point r) (ent_next_seq r + 1) vs
      \<and> (ts = [] \<or> (\<exists>t. ts = [t] \<and> damping (ent_id r) t)))"
    using Cons.IH [of ?r] Cons.prems by simp
  have split: "(\<exists>vs ts. x # xs = map Vibration vs @ ts \<and> P vs ts) \<longleftrightarrow>
    P [] (x # xs) \<or> (\<exists>v vs ts. x = Vibration v \<and> xs = map Vibration vs @ ts \<and> P (v # vs) ts)" for P
    by (auto simp: Cons_eq_append_conv Cons_eq_map_conv) metis+
  show ?case
    unfolding split using flowing_step [OF Cons.prems, of x xs] ih
    by (cases x) (auto simp: damping_def)
qed

lemma entrainment_new_sel [simp]:
  "ent_id (entrainment_new i p) = i" "ent_point (entrainment_new i p) = p"
  "ent_state (entrainment_new i p) = AwaitAck" "ent_next_seq (entrainment_new i p) = 0"
  by (simp_all add: entrainment_new_def)

lemma shape_ent_completes: "entrainment_shape i p xs \<Longrightarrow> ent_completes (entrainment_new i p) xs"
proof (induction rule: entrainment_shape.induct)
  case (refused t)
  then show ?case by (cases t) (simp_all add: await_step refusal_def)
next
  case (flowing d vs)
  then have "ent_completes ((entrainment_new i p)\<lparr>ent_state := Flowing\<rparr>) (map Vibration vs)"
    by (subst flowing_completes) auto
  with flowing show ?case by (simp add: await_step)
next
  case (damped d vs t)
  then have "ent_completes ((entrainment_new i p)\<lparr>ent_state := Flowing\<rparr>) (map Vibration vs @ [t])"
    by (subst flowing_completes) auto
  with damped show ?case by (simp add: await_step)
qed

lemma ent_completes_shape:
  assumes c: "ent_completes (entrainment_new i p) xs"
  shows "entrainment_shape i p xs"
proof (cases xs)
  case Nil
  with c show ?thesis by (simp add: ent_completes_Nil)
next
  case (Cons x ys)
  note s = c [unfolded Cons, simplified await_step [OF entrainment_new_sel(3)] entrainment_new_sel]
  show ?thesis
  proof (cases x)
    case (Done d)
    with s obtain vs ts where "dn_id d = i" "ys = map Vibration vs @ ts" "vibrations_ok i p 0 vs"
      "ts = [] \<or> (\<exists>t. ts = [t] \<and> damping i t)"
      by (auto simp: flowing_completes)
    with Done Cons show ?thesis by (auto intro: entrainment_shape.intros)
  qed (use s Cons in \<open>auto intro: entrainment_shape.refused\<close>)
qed

end
