(* ===== verification/Protocol_Properties.thy ===== *)
theory Protocol_Properties
  imports Frame_Stream Request Response Entrainment
begin

text \<open>
  What the protocol crate and the framed streams over it guarantee.
\<close>

subsection \<open>Framed streams\<close>

text \<open>A third-party Turtle parser that knows one document, for the witnesses.\<close>

definition sample_object :: envelope_object where
  "sample_object = Damp \<lparr>da_id = None, da_point = ''urn:p''\<rparr>"

definition sample_doc :: string where
  "sample_doc = ''[] a rsntr:Damp ;'' @ NL # ''   rsntr:point <urn:p> .'' @ [NL]"

definition sample_ext :: ext where
  "sample_ext =
     \<lparr>b64_encode = \<lambda>_. [], b64_decode = \<lambda>_. None, disp_node = \<lambda>_. [], disp_iri = \<lambda>_. [],
      disp_term = \<lambda>_. [],
      turtle = \<lambda>doc. if doc = sample_doc
        then Inr [\<lparr>subject = BlankNode ''b0'', predicate = rdf_iri ''type'',
                    object = TNamed (rsntr_iri ''Damp'')\<rparr>,
                  \<lparr>subject = BlankNode ''b0'', predicate = rsntr_iri ''point'',
                    object = TNamed ''urn:p''\<rparr>]
        else Inl ()\<rparr>"

lemma sample_turtle: "to_turtle sample_ext sample_object = Inr sample_doc"
  by (simp add: to_turtle_def encode_def sample_object_def sample_doc_def block_close_def block_pair_def
      opt_text_def block_opt_def block_anon_def iri_term_def)

lemma sample_scan:
  "scan_types [\<lparr>subject = BlankNode ''b0'', predicate = rdf_iri ''type'', object = TNamed (rsntr_iri ''Damp'')\<rparr>,
     \<lparr>subject = BlankNode ''b0'', predicate = rsntr_iri ''point'', object = TNamed ''urn:p''\<rparr>] [] None
   = ([(BlankNode ''b0'', ''Damp'')], None)"
  by simp

lemma sample_reads: "from_turtle sample_ext sample_doc = Inr sample_object"
  by (simp add: from_turtle_def parser_finish_def parser_push_def parser_new_def sample_ext_def
      decode_def sample_scan only_def decode_class_def get_text_def need_iri_def get_iri_def one_def
      pairs_def sample_object_def)

definition frame_text :: "string \<Rightarrow> bool" where
  "frame_text t \<longleftrightarrow> utf8_string t \<and> length t \<le> MAX_FRAME_LEN"

lemma sample_frame_text: "frame_text sample_doc"
  by (simp add: frame_text_def sample_doc_def NL_def MAX_FRAME_LEN_def utf8_string_def utf8_ok.simps)

lemma sample_encodes: "encodes sample_ext sample_object"
  using sample_frame_text by (simp add: encodes_def encode_envelope_def encode_frame_def sample_turtle frame_text_def)

lemma sample_read: "read_object sample_ext sample_object = Inr sample_object"
  using sample_frame_text by (simp add: read_object_def sample_turtle frame_text_def read_text_utf8 sample_reads)

definition sample_bytes :: "byte list" where
  "sample_bytes = enc_object sample_ext sample_object"

lemma sample_bytes_length: "length sample_bytes = 4 + length sample_doc"
proof -
  obtain t where "to_turtle sample_ext sample_object = Inr t" "sample_bytes = enc_text t"
    unfolding sample_bytes_def by (rule encodes_enc [OF sample_encodes])
  then have e: "sample_bytes = enc_text sample_doc" by (simp add: sample_turtle)
  show ?thesis unfolding e by (simp add: enc_text_def)
qed

lemma sample_pieces: "take n sample_bytes @ drop n sample_bytes @ r = sample_bytes @ r"
  by (metis append.assoc append_take_drop_id)

text \<open>C12. When a stream carries the frames of a list of envelope objects, of any
  that can be encoded, one \<open>recv\<close> per frame returns what the document of that object reads
  as, the object or the parser's error, in order, however the transport cuts the bytes into
  pieces and whatever part of them is already buffered; what follows the frames is left for the
  next read.\<close>

theorem stream_delivers_frames:
  assumes "\<forall>obj \<in> set objs. fst (encode_envelope x obj []) = Inr ()"
    and "\<not> rs_eof s" "rs_wire s = map Data pieces"
    and "rs_buf s @ concat pieces = concat (map (\<lambda>obj. snd (encode_envelope x obj [])) objs) @ rest"
  shows "\<exists>s' pieces'. recv_times (iroh_recv x) (length objs) s =
      (map (\<lambda>obj. case rbind (rbind (to_turtle x obj) read_text) (from_turtle x) of
                     Inl e \<Rightarrow> Inl (Protocol e) | Inr got \<Rightarrow> Inr (Some got)) objs, s')
    \<and> \<not> rs_eof s' \<and> rs_wire s' = map Data pieces' \<and> rs_buf s' @ concat pieces' = rest"
proof -
  have r: "iroh_recv x = recv_loop (decode_envelope x)" by (simp add: iroh_recv_def fun_eq_iff)
  have "list_all (encodes x) objs" using assms(1) by (simp add: list_all_iff encodes_def)
  from object_frames.recv_many [OF _ _ this, of s pieces rest] assms(2-) show ?thesis
    by (simp add: live_def wire_bytes_def comp_def r received_def read_object_def enc_object_def [abs_def])
qed

theorem stream_delivers_frames_witness:
  "\<exists>s' pieces'.
     recv_times (iroh_recv sample_ext) 2
       \<lparr>rs_buf = take 3 sample_bytes, rs_eof = False,
        rs_wire = map Data [drop 3 sample_bytes, [], sample_bytes @ [7]]\<rparr>
     = ([Inr (Some sample_object), Inr (Some sample_object)], s')
     \<and> \<not> rs_eof s' \<and> rs_wire s' = map Data pieces' \<and> rs_buf s' @ concat pieces' = [7]"
proof -
  let ?s = "\<lparr>rs_buf = take 3 sample_bytes, rs_eof = False,
        rs_wire = map Data [drop 3 sample_bytes, [], sample_bytes @ [7]]\<rparr>"
  have "\<forall>obj \<in> set [sample_object, sample_object]. fst (encode_envelope sample_ext obj []) = Inr ()"
    using sample_encodes by (simp add: encodes_def)
  moreover have "rs_buf ?s @ concat [drop 3 sample_bytes, [], sample_bytes @ [7]]
      = concat (map (\<lambda>obj. snd (encode_envelope sample_ext obj [])) [sample_object, sample_object]) @ [7]"
    by (simp add: sample_pieces sample_bytes_def [unfolded enc_object_def, symmetric])
  ultimately show ?thesis
    using stream_delivers_frames [of "[sample_object, sample_object]" sample_ext ?s "[drop 3 sample_bytes, [], sample_bytes @ [7]]" "[7]"]
      sample_read [unfolded read_object_def] by (simp add: numeral_2_eq_2)
qed

text \<open>A stream that ends inside a frame is reported as a protocol error
  that names the leftover bytes; a stream that ends between frames ends cleanly.\<close>

theorem truncated_stream_is_reported:
  assumes "encodes x obj" "\<not> rs_eof s" "rs_wire s = map Data pieces"
    and "strict_prefix (rs_buf s @ concat pieces) (enc_object x obj)"
  shows "fst (iroh_recv x s) =
    (if rs_buf s @ concat pieces = [] then Inr None
     else Inl (MidFrame (length (rs_buf s @ concat pieces))))"
proof -
  obtain s' where "recv_loop (decode_envelope x) s =
    (if wire_bytes s pieces = [] then Inr None
     else Inl (MidFrame (length (wire_bytes s pieces))), s')"
    using object_frames.recv_end [of s pieces x obj] assms by (auto simp: live_def wire_bytes_def)
  then show ?thesis by (simp add: iroh_recv_def wire_bytes_def)
qed

theorem truncated_stream_is_reported_witness:
  "fst (iroh_recv sample_ext \<lparr>rs_buf = take 3 sample_bytes, rs_eof = False,
       rs_wire = map Data [take 2 (drop 3 sample_bytes)]\<rparr>) = Inl (MidFrame 5)"
proof -
  let ?s = "\<lparr>rs_buf = take 3 sample_bytes, rs_eof = False, rs_wire = map Data [take 2 (drop 3 sample_bytes)]\<rparr>"
  have p: "rs_buf ?s @ concat [take 2 (drop 3 sample_bytes)] = take 5 sample_bytes"
    using take_add [of 3 2 sample_bytes] by simp
  have len: "5 < length sample_bytes" by (simp add: sample_bytes_length sample_doc_def)
  then have l5: "length (take 5 sample_bytes) = 5" by simp
  then have "take 5 sample_bytes \<noteq> sample_bytes" using len by force
  then have "strict_prefix (take 5 sample_bytes) (enc_object sample_ext sample_object)"
    unfolding sample_bytes_def [symmetric] by (simp add: strict_prefix_def take_is_prefix)
  then have "strict_prefix (rs_buf ?s @ concat [take 2 (drop 3 sample_bytes)]) (enc_object sample_ext sample_object)"
    by (simp only: p)
  from truncated_stream_is_reported [OF sample_encodes _ _ this, unfolded p l5]
  show ?thesis using l5 by force
qed

text \<open>On a stream whose reads return bytes, a \<open>recv\<close> of the owner channel
  returns the frame the transport's \<open>recv\<close> returns and leaves the same stream.\<close>

theorem owner_channel_agrees:
  assumes "\<not> rs_eof s" "rs_wire s = map Data pieces" "[] \<notin> set pieces"
    and "fst (iroh_recv x s) = Inr (Some obj)"
  shows "owner_recv x s = iroh_recv x s"
proof -
  have "live s pieces" using assms by (simp add: live_def)
  moreover have "fst (recv_loop (decode_envelope x) s) = Inr (Some obj)"
    using assms(4) by (simp add: iroh_recv_def)
  ultimately have "owner_recv_loop (decode_envelope x) s = recv_loop (decode_envelope x) s"
    using owner_recv_agrees [where dec = "decode_envelope x" and s = s and cs = pieces and p = obj]
      decode_envelope_keeps [of x] assms(3) by simp
  then show ?thesis by (simp add: iroh_recv_def owner_recv_def)
qed

theorem owner_channel_agrees_witness:
  "owner_recv sample_ext \<lparr>rs_buf = sample_bytes, rs_eof = False, rs_wire = map Data [[1]]\<rparr>
     = iroh_recv sample_ext \<lparr>rs_buf = sample_bytes, rs_eof = False, rs_wire = map Data [[1]]\<rparr>"
proof (rule owner_channel_agrees [where pieces = "[[1]]"])
  have "decode_envelope sample_ext sample_bytes = (Inr (Some sample_object), [])"
    using object_frames.whole [OF sample_encodes, of "[]"] by (simp add: sample_bytes_def sample_read)
  then show "fst (iroh_recv sample_ext \<lparr>rs_buf = sample_bytes, rs_eof = False, rs_wire = map Data [[1]]\<rparr>)
    = Inr (Some sample_object)"
    by (simp add: iroh_recv_def recv_loop.simps [of _ "\<lparr>rs_buf = sample_bytes, rs_eof = False, rs_wire = w\<rparr>" for w])
qed simp_all

text \<open>A request body that is the frames of a list of envelope objects, of the
  right content type and within its bound, decodes to what their documents read as, and is refused
  when one does not read.\<close>

theorem body_holds_every_frame:
  assumes "list_all (encodes x) objs" "is_frames_content_type content_type"
    and "length (concat (map (enc_object x) objs)) \<le> max_bytes"
  shows "decode_frames_body x content_type (concat (map (enc_object x) objs)) max_bytes =
    (case mapM (read_object x) objs of Inl _ \<Rightarrow> Inl (BodyError 400 ProtocolErrorCode) | Inr read \<Rightarrow> Inr read)"
  using body_frames_all [OF assms(1)] assms(2,3) by (simp add: decode_frames_body_def)

theorem body_holds_every_frame_witness:
  "decode_frames_body sample_ext (Some ''Application/rsntr-frames; q=1'')
     (concat (map (enc_object sample_ext) [sample_object, sample_object])) 200 = Inr [sample_object, sample_object]"
proof -
  have "list_all (encodes sample_ext) [sample_object, sample_object]" by (simp add: sample_encodes)
  moreover have "is_frames_content_type (Some ''Application/rsntr-frames; q=1'')" by code_simp
  moreover have "length (concat (map (enc_object sample_ext) [sample_object, sample_object])) \<le> 200"
    using sample_bytes_length by (simp add: sample_doc_def flip: sample_bytes_def)
  ultimately show ?thesis by (simp only: body_holds_every_frame) (simp add: sample_read)
qed

text \<open>The frame decoder returns a text and a rest exactly when the buffer is the
  frame of that text, no longer than the bound, followed by that rest; in particular no
  buffer has two readings, and no byte beyond the frame is consumed.\<close>

theorem decode_frame_exact:
  "decode_frame src = (Inr (Some txt), rest) \<longleftrightarrow>
     src = to_le_bytes (word_of_nat (length txt)) @ as_bytes txt @ rest
     \<and> length txt \<le> MAX_FRAME_LEN \<and> utf8_string txt"
proof
  assume "src = to_le_bytes (word_of_nat (length txt)) @ as_bytes txt @ rest
    \<and> length txt \<le> MAX_FRAME_LEN \<and> utf8_string txt"
  with decode_frame_complete [of "as_bytes txt" rest] show "decode_frame src = (Inr (Some txt), rest)"
    by (simp add: from_utf8_as_bytes)
qed (rule decode_frame_SomeD)

text \<open>A frame whose length prefix is above the bound is refused as soon as its
  four length bytes are there, before any of its payload is read.\<close>

theorem oversized_frame_rejected:
  assumes "MAX_FRAME_LEN < n" "n < 2 ^ 32"
  shows "decode_frame (to_le_bytes (word_of_nat n) @ r) =
    (Inl (FrameTooLarge n), to_le_bytes (word_of_nat n) @ r)"
  using assms frame_len_prefix [OF assms(2), of r] by (simp add: decode_frame_def Let_def)

theorem oversized_frame_rejected_witness:
  "decode_frame (to_le_bytes (word_of_nat 262145)) = (Inl (FrameTooLarge 262145), to_le_bytes (word_of_nat 262145))"
  using oversized_frame_rejected [of 262145 "[]"] by (simp add: MAX_FRAME_LEN_def)

subsection \<open>Choreography\<close>

text \<open>C1. The response reader, fed a whole stream and then told of its
  end, reports success exactly on the streams of the documented shape: a header, row
  batches numbered from 0 whose cells name declared columns, and a trailer; or numbered
  graphs and a trailer; or generic frames and a trailer; or a single refusal, error, help
  or media frame; each with the id of the request.\<close>

theorem response_completed_iff_shape:
  "finish (snd (feed accept (reader_new i) frames)) = Inr () \<longleftrightarrow> response_shape i frames"
  using completes_shape shape_completes unfolding completes_def by blast

text \<open>In any run of the response reader the accepted frames are a first part
  of the stream, every later frame is refused, and an event that ends the response can
  only be the last one accepted.\<close>

theorem response_accepts_prefix:
  "\<exists>events rest. fst (feed accept (reader_new i) frames) = map Inr events @ rest
     \<and> list_all (\<lambda>r. \<not> is_ok r) rest \<and> filter is_terminal (butlast events) = []"
proof -
  obtain rs s' where f: "feed accept (reader_new i) frames = (rs, s')" by fastforce
  from resp_reader.accepted_prefix [OF f] obtain vs n where
    "rs = map Inr vs @ drop n rs" "list_all (\<lambda>r. \<not> is_ok r) (drop n rs)"
    "\<forall>v \<in> set (butlast vs). \<not> is_terminal v" by blast
  with f show ?thesis by (intro exI [of _ vs] exI [of _ "drop n rs"]) (simp add: filter_empty_conv)
qed

text \<open>The entrainment reader, fed a whole stream and then told of its end,
  reports success exactly on the streams of the documented shape: a single refusal; or the
  acknowledgment followed by vibrations of the entrained point numbered from 0, and after
  them nothing, a damping error, or the confirmation of a damp.\<close>

theorem entrainment_completed_iff_shape:
  "entrainment_finish (snd (feed entrainment_accept (entrainment_new i p) frames)) = Inr ()
     \<longleftrightarrow> entrainment_shape i p frames"
  using ent_completes_shape shape_ent_completes unfolding ent_completes_def by blast

text \<open>In any run of the entrainment reader the accepted frames are a first
  part of the stream, every later frame is refused, and an event that ends the entrainment
  can only be the last one accepted.\<close>

theorem entrainment_accepts_prefix:
  "\<exists>events rest. fst (feed entrainment_accept (entrainment_new i p) frames) = map Inr events @ rest
     \<and> list_all (\<lambda>r. \<not> is_ok r) rest \<and> filter ends_entrainment (butlast events) = []"
proof -
  obtain rs s' where f: "feed entrainment_accept (entrainment_new i p) frames = (rs, s')" by fastforce
  from ent_reader.accepted_prefix [OF f] obtain vs n where
    "rs = map Inr vs @ drop n rs" "list_all (\<lambda>r. \<not> is_ok r) (drop n rs)"
    "\<forall>v \<in> set (butlast vs). \<not> ends_entrainment v" by blast
  with f show ?thesis by (intro exI [of _ vs] exI [of _ "drop n rs"]) (simp add: filter_empty_conv)
qed

end
