(* ===== verification/Codec_Properties.thy ===== *)
theory Codec_Properties
  imports Frame Request
begin

text \<open>
  What the value, name, literal and request codecs of the protocol crate guarantee.
\<close>

subsection \<open>Literals of the documents\<close>

text \<open>The string literal the encoder writes for a text, short or long, is one
  string token of the Turtle grammar whose value is that text, whatever follows it in the
  document (no literal is ever followed directly by a quote).\<close>

theorem quoted_text_reads_back:
  assumes "t = [] \<or> hd t \<noteq> DQ"
  shows "string_token (quote_text s @ t) = Some (s, t) \<and> string_token (quote s @ t) = Some (s, t)"
  using assms string_token_quote_text string_token_quote by blast

theorem quoted_text_reads_back_witness:
  "string_token (quote_text [CHR ''a'', DQ, NL, BSL, CHR 0x01] @ '' .'')
     = Some ([CHR ''a'', DQ, NL, BSL, CHR 0x01], '' .'')"
  using quoted_text_reads_back [of "'' .''" "[CHR ''a'', DQ, NL, BSL, CHR 0x01]"]
  by (simp add: DQ_def)

text \<open>The lexical form of a double parses back to the same bits: signed zeros,
  subnormals, the largest and smallest values and the infinities included; of the
  not-a-number patterns only the canonical one survives.\<close>

theorem double_round_trip:
  "parse_double (format_double f) = Inr (if is_nan f then mk_f64 False nan_bits else f)"
proof (cases "is_nan f")
  case True
  then have "format_double f = format_double (mk_f64 False nan_bits)"
    by (simp add: format_double_def is_nan_def nan_bits_def mk_f64_def f_mag_def inf_bits_def
        sign_bit_def unat_of_nat)
  then show ?thesis using parse_format_double [of "mk_f64 False nan_bits"] True by simp
qed (use parse_format_double [of f] in simp)

text \<open>The decimal form of a 64-bit integer parses back to it, and a lexical form
  is only ever parsed to an integer in the 64-bit range.\<close>

theorem integer_round_trip:
  "(is_i64 i \<longrightarrow> parse_integer (show_int i) = Inr i) \<and> (parse_integer s = Inr j \<longrightarrow> is_i64 j)"
  using parse_integer_show parse_integer_range by blast

theorem integer_round_trip_witness: "parse_integer (show_int (- 9223372036854775808)) = Inr (- 9223372036854775808)"
proof -
  have "is_i64 (- 9223372036854775808)" by (simp add: is_i64_def)
  with integer_round_trip [of "- 9223372036854775808" "[]" 0] show ?thesis by blast
qed

text \<open>With a base64 engine that inverts its own encoding, the lexical form of a blob
  decodes to its bytes, whatever ASCII white space a document adds between characters.\<close>

theorem base64_blob_round_trip:
  assumes "b64_law x" "filter (\<lambda>c. \<not> ascii_whitespace c) lx = encode_base64 x bs"
  shows "decode_base64 x lx = Inr bs"
  using assms by (simp add: decode_base64_def encode_base64_def b64_law_def)

text \<open>A base64 engine for the witness: pairs of hexadecimal digits.\<close>

fun unhex :: "string \<Rightarrow> byte list option" where
  "unhex [] = Some []"
| "unhex [c] = None"
| "unhex (hi # lo # s) =
     (case hex_pair hi lo of None \<Rightarrow> None
      | Some n \<Rightarrow> map_option (Cons (word_of_nat n)) (unhex s))"

definition hex_engine :: ext where
  "hex_engine =
     \<lparr>b64_encode = \<lambda>bs. concat (map (\<lambda>b. hex2 True (unat b)) bs), b64_decode = unhex,
      disp_node = \<lambda>_. [], disp_iri = \<lambda>_. [], disp_term = \<lambda>_. [], turtle = \<lambda>_. Inl ()\<rparr>"

lemma alnum_no_space: "is_alnum c \<Longrightarrow> no_space c"
  by (auto simp: is_alnum_def is_upper_def is_lower_def is_digit_def no_space_def Let_def)

lemma hex_engine_law: "b64_law hex_engine"
proof -
  have "unhex (concat (map (\<lambda>b. hex2 True (unat b)) bs)) = Some bs" for bs :: "byte list"
    by (induction bs) (simp_all add: hex2_def hex_pair_hex2 byte_bound)
  moreover have "list_all no_space (hex2 True (unat b))" for b :: byte
    using byte_bound [of b]
    by (simp add: hex2_def alnum_no_space hex_digit_alnum less_mult_imp_div_less)
  then have "list_all no_space (concat (map (\<lambda>b. hex2 True (unat b)) bs))" for bs :: "byte list"
    by (induction bs) simp_all
  ultimately show ?thesis by (simp add: b64_law_def hex_engine_def)
qed

theorem base64_blob_round_trip_witness: "decode_base64 hex_engine '' 0 7FF'' = Inr [7, 255]"
  by (rule base64_blob_round_trip [OF hex_engine_law])
     (simp add: encode_base64_def hex_engine_def hex2_def hex_digit_def ascii_whitespace_def,
      simp add: char_eq_of_char)

subsection \<open>Names and codes\<close>

text \<open>A column name survives its predicate: the encoded name uses only letters,
  digits, underscores and percent signs, and decodes to the name it came from (which is
  UTF-8, as every Rust string is); two names never share a predicate.\<close>

theorem column_name_round_trip:
  assumes "utf8_string s"
  shows "decode_column_name (encode_column_name s) = Inr s
    \<and> list_all (\<lambda>c. plain_name_char c \<or> c = CHR ''%'') (encode_column_name s)
    \<and> (encode_column_name t = encode_column_name s \<longleftrightarrow> t = s)"
  using assms encode_column_name_chars encode_column_name_inject
  by (auto simp: decode_encode_column_name list_all_iff)

theorem column_name_round_trip_witness:
  "decode_column_name (encode_column_name ''a b%'') = Inr ''a b%''"
proof -
  have "utf8_string ''a b%''" by (simp add: utf8_string_def utf8_ok.simps)
  with column_name_round_trip [of "''a b%''" "[]"] show ?thesis by blast
qed

text \<open>The wire form of an error code parses back to it, and every other string is
  refused.\<close>

theorem error_code_round_trip: "code_from_str s = Inr c \<longleftrightarrow> s = code_as_str c"
  by (rule code_round_trip)

text \<open>A requested modulation tag matches an advertised one exactly when they are the
  same, or the advertised tag is the requested one with a dash and a version that starts
  with a digit.\<close>

theorem mod_tag_matching:
  "mod_matches requested advertised \<longleftrightarrow>
     advertised = requested \<or> (\<exists>d v. advertised = requested @ ''-'' @ d # v \<and> is_digit d)"
  by (rule mod_matches_iff)

subsection \<open>Requests\<close>

text \<open>A request comes back from its envelope unchanged: kind, identifier,
  modulation, signal, parameters, database and options.\<close>

theorem request_envelope_round_trip:
  assumes "ulid_law u" "length (rq_id r) = 16"
  shows "from_envelope u (to_envelope u r) = Inr r"
  using assms by (rule request_round_trip)

definition raw_ulid :: ulid where
  "raw_ulid = \<lparr>ulid_string = map char_of_byte, ulid_parse = \<lambda>s. Some (map byte_of s)\<rparr>"

lemma raw_ulid_law: "ulid_law raw_ulid"
  by (simp add: ulid_law_def raw_ulid_def comp_def)

theorem request_envelope_round_trip_witness:
  "from_envelope raw_ulid (to_envelope raw_ulid (request_new (replicate 16 7) RExecute ''sql'' ''SELECT 1''))
     = Inr (request_new (replicate 16 7) RExecute ''sql'' ''SELECT 1'')"
  by (rule request_envelope_round_trip [OF raw_ulid_law]) (simp add: request_new_def)

subsection \<open>The row estimate\<close>

text \<open>The size estimate of a row is not an upper bound: a row of one text cell of
  60000 control characters is estimated at 60061 bytes, under a quarter of the frame bound,
  and encodes to more than the frame bound, so its frame cannot be sent.\<close>

definition control_row :: row where
  "control_row = \<lparr>row_seq = 0, row_cells = [(''a'', Text (replicate 60000 (CHR 0x01)))]\<rparr>"

lemma control_row_length: "MAX_FRAME_LEN < length (row_block x control_row)"
proof -
  have "length (concat (map quote_char (replicate n (CHR 0x01)))) = 6 * n" for n
    by (induction n) (simp_all add: quote_char_def u_escape_def hex2_def DQ_def BSL_def NL_def CR_def)
  from this [of 60000] have "length (quote (replicate 60000 (CHR 0x01))) = 360002"
    by (simp add: quote_def)
  then show ?thesis
    by (simp add: row_block_def control_row_def value_term_def MAX_FRAME_LEN_def)
qed

theorem row_estimate_too_low:
  "estimate_row_bytes control_row = 60061
   \<and> (\<exists>n. fst (encode_envelope x (Row [control_row]) []) = Inl (FrameTooLarge n))"
proof
  show "estimate_row_bytes control_row = 60061"
    by (simp add: estimate_row_bytes_def control_row_def)
  show "\<exists>n. fst (encode_envelope x (Row [control_row]) []) = Inl (FrameTooLarge n)"
    using control_row_length [of x]
    by (simp add: encode_envelope_def to_turtle_def encode_def encode_frame_def)
qed

end
