(* ===== verification/Btree.thy ===== *)
theory Btree
  imports Text_Lib "HOL-Library.List_Lexorder" "HOL-Library.Char_ord"
begin

text \<open>
  \<open>BTreeSet<String>\<close> and \<open>BTreeMap<String, _>\<close> as strictly ascending lists: iteration order
  is list order, and the order of strings is the order of their bytes.
\<close>

type_synonym bset = "string list"
type_synonym 'v bmap = "(string \<times> 'v) list"

fun bset_insert :: "string \<Rightarrow> bset \<Rightarrow> bset" where
  "bset_insert x [] = [x]"
| "bset_insert x (y # ys) =
     (if x < y then x # y # ys else if x = y then y # ys else y # bset_insert x ys)"

definition bset_of :: "string list \<Rightarrow> bset" where
  "bset_of xs = foldl (\<lambda>s x. bset_insert x s) [] xs"

fun bmap_insert :: "string \<Rightarrow> 'v \<Rightarrow> 'v bmap \<Rightarrow> 'v bmap" where
  "bmap_insert k v [] = [(k, v)]"
| "bmap_insert k v ((k', v') # m) =
     (if k < k' then (k, v) # (k', v') # m
      else if k = k' then (k, v) # m
      else (k', v') # bmap_insert k v m)"

definition bmap_get :: "'v bmap \<Rightarrow> string \<Rightarrow> 'v option" where
  "bmap_get m k = map_of m k"

definition bset_ok :: "bset \<Rightarrow> bool" where
  "bset_ok s \<longleftrightarrow> sorted_wrt (<) s"

definition bmap_ok :: "'v bmap \<Rightarrow> bool" where
  "bmap_ok m \<longleftrightarrow> sorted_wrt (<) (map fst m)"

lemma bset_ok_Nil [simp]: "bset_ok []" by (simp add: bset_ok_def)
lemma bmap_ok_Nil [simp]: "bmap_ok []" by (simp add: bmap_ok_def)

lemma set_bset_insert [simp]: "set (bset_insert x s) = insert x (set s)"
  by (induction s) auto

lemma bset_insert_ok [intro]: "bset_ok s \<Longrightarrow> bset_ok (bset_insert x s)"
  unfolding bset_ok_def by (induction s) (auto simp: not_less_iff_gr_or_eq)

lemma bset_insert_mem: "bset_ok s \<Longrightarrow> x \<in> set s \<Longrightarrow> bset_insert x s = s"
  unfolding bset_ok_def by (induction s) auto

lemma bset_insert_not_Nil [simp]: "bset_insert x s \<noteq> []"
  by (cases s) auto

lemma keys_bmap_insert [simp]: "fst ` set (bmap_insert k v m) = insert k (fst ` set m)"
  by (induction k v m rule: bmap_insert.induct) (simp_all add: insert_commute)

lemma bmap_insert_ok [intro]: "bmap_ok m \<Longrightarrow> bmap_ok (bmap_insert k v m)"
proof (induction m)
  case (Cons p m)
  obtain k' v' where p: "p = (k', v')" by (cases p)
  have "\<And>x. x \<in> fst ` set (bmap_insert k v m) \<Longrightarrow> x = k \<or> x \<in> fst ` set m" by simp
  with Cons p show ?case by (fastforce simp: bmap_ok_def not_less_iff_gr_or_eq)
qed (simp add: bmap_ok_def)

lemma bmap_get_insert:
  "bmap_ok m \<Longrightarrow> bmap_get (bmap_insert k v m) j = (if j = k then Some v else bmap_get m j)"
proof (induction m)
  case (Cons p m)
  obtain k' v' where p: "p = (k', v')" by (cases p)
  with Cons show ?case by (auto simp: bmap_get_def bmap_ok_def)
qed (simp add: bmap_get_def)

lemma bmap_get_dom: "bmap_get m k = None \<longleftrightarrow> k \<notin> fst ` set m"
  by (simp add: bmap_get_def map_of_eq_None_iff)

end
