(* ===== verification/Auth_Types.thy ===== *)
theory Auth_Types
  imports Btree Float64
begin

text \<open>
  The types shared by the authenticator tiers and the node
  (\<open>crates/authenticator/src/types.rs\<close>), and the tables of the node's database the tiers
  read and write.
\<close>

datatype action_kind = Read | Write | Other

fun kind_as_str :: "action_kind \<Rightarrow> string" where
  "kind_as_str Read = ''read''"
| "kind_as_str Write = ''write''"
| "kind_as_str Other = ''other''"

fun default_action :: "action_kind \<Rightarrow> string" where
  "default_action Read = ''read''"
| "default_action Write = ''write''"
| "default_action Other = ''write''"

record footprint =
  fp_kind :: action_kind
  fp_tables :: "bset bmap"
  fp_denied :: bset

definition footprint_default :: footprint where
  "footprint_default = \<lparr>fp_kind = Read, fp_tables = [], fp_denied = []\<rparr>"

definition is_empty :: "footprint \<Rightarrow> bool" where
  "is_empty f \<longleftrightarrow> fp_tables f = []"

definition has_denied :: "footprint \<Rightarrow> bool" where
  "has_denied f \<longleftrightarrow> fp_denied f \<noteq> []"

definition deny_construct :: "footprint \<Rightarrow> string \<Rightarrow> footprint" where
  "deny_construct f c = f\<lparr>fp_denied := bset_insert c (fp_denied f)\<rparr>"

definition from_tables :: "action_kind \<Rightarrow> (string \<times> string list) list \<Rightarrow> footprint" where
  "from_tables k items =
     \<lparr>fp_kind = k,
      fp_tables = foldl (\<lambda>m (t, cols). bmap_insert t (bset_of cols) m) [] items,
      fp_denied = []\<rparr>"

definition footprint_ok :: "footprint \<Rightarrow> bool" where
  "footprint_ok f \<longleftrightarrow>
     bmap_ok (fp_tables f) \<and> (\<forall>(t, cols) \<in> set (fp_tables f). bset_ok cols) \<and> bset_ok (fp_denied f)"

datatype decision =
    Allow
  | AllowNarrowed string
  | Deny string
  | Escalate

fun audit_str :: "decision \<Rightarrow> string option" where
  "audit_str Allow = Some ''allow''"
| "audit_str (AllowNarrowed _) = Some ''allow_narrowed''"
| "audit_str (Deny _) = Some ''deny''"
| "audit_str Escalate = None"

text \<open>An answer that lets the request through.\<close>

fun lets_through :: "decision \<Rightarrow> bool" where
  "lets_through Allow = True"
| "lets_through (AllowNarrowed _) = True"
| "lets_through _ = False"

subsection \<open>Doubles as times\<close>

text \<open>
  Expiry times are doubles: the sum is the exact sum rounded to nearest even, and the
  comparison is that of the numbers, false when a side is not a number.
\<close>

definition f_scaled :: "f64 \<Rightarrow> int" where
  "f_scaled f = (if f_neg f then - int (scaled (f_mag f)) else int (scaled (f_mag f)))"

definition f_add :: "f64 \<Rightarrow> f64 \<Rightarrow> f64" where
  "f_add a b =
     (if is_nan a \<or> is_nan b \<or> (is_inf a \<and> is_inf b \<and> f_neg a \<noteq> f_neg b) then mk_f64 False nan_bits
      else if is_inf a then a
      else if is_inf b then b
      else
        let s = f_scaled a + f_scaled b
        in mk_f64 (s < 0 \<or> (s = 0 \<and> f_neg a \<and> f_neg b)) (round_mag (nat \<bar>s\<bar>) (2 ^ sub_exp)))"

definition f_less :: "f64 \<Rightarrow> f64 \<Rightarrow> bool" where
  "f_less a b \<longleftrightarrow> \<not> is_nan a \<and> \<not> is_nan b \<and> f_scaled a < f_scaled b"

subsection \<open>The authenticator's tables\<close>

text \<open>
  A missing table is \<open>None\<close>: every statement that names it fails. Rows are in the order
  of insertion. Columns that are declared \<open>NOT NULL\<close> hold a value, the others an option.
\<close>

record policy_row =
  po_peer :: string
  po_table :: string
  po_action :: string
  po_effect :: string
  po_note :: "string option"

record script_row =
  sc_name :: string
  sc_body :: string
  sc_enabled :: int

record decision_row =
  dr_peer :: string
  dr_fingerprint :: string
  dr_decision :: string
  dr_reason :: "string option"
  dr_decided_by :: string
  dr_created_at :: string
  dr_expires_at :: "f64 option"

record inbox_row =
  ib_request_id :: string
  ib_peer :: string
  ib_sql :: string
  ib_params :: string
  ib_decision :: "string option"
  ib_decided_by :: "string option"
  ib_received_at :: string

record peer_row =
  pe_endpoint_id :: string
  pe_added_at :: string
  pe_notes :: "string option"

record auth_db =
  db_rsntr :: "(string \<times> string) list option"
  db_policy :: "policy_row list option"
  db_scripts :: "script_row list option"
  db_decisions :: "decision_row list option"
  db_inbox :: "inbox_row list option"
  db_peers :: "peer_row list option"

text \<open>What one call reads of the outside world: the clock and a new identifier.\<close>

record call_env =
  env_secs :: nat
  env_now :: f64
  env_ulid :: string

text \<open>
  One request as a tier sees it, and a tier: the answer, \<open>None\<close> when the tier panics, and
  the database it leaves.
\<close>

record auth_request =
  rq_peer :: string
  rq_action :: string
  rq_footprint :: footprint
  rq_statement :: string

type_synonym tier = "call_env \<Rightarrow> auth_db \<Rightarrow> auth_request \<Rightarrow> decision option \<times> auth_db"

lemma deny_construct_ok [intro]: "footprint_ok f \<Longrightarrow> footprint_ok (deny_construct f c)"
  by (auto simp: footprint_ok_def deny_construct_def)

lemma deny_construct_denied [simp]: "has_denied (deny_construct f c)"
  by (simp add: has_denied_def deny_construct_def)

end
