(* ===== verification/Chain.thy ===== *)
theory Chain
  imports Auth_Types
begin

text \<open>
  The decider chain (\<open>crates/authenticator/src/chain.rs\<close>): the tiers named by
  \<open>auth_chain\<close> are asked in order, each within its authority mask, and the tail denies.

  The JSON reader of the two configuration values is a parameter: \<open>json_names\<close> and
  \<open>json_masks\<close> give what \<open>serde_json::from_str\<close> makes of the text, \<open>None\<close> for an error.
\<close>

record tier_mask =
  tm_allow :: "string list"
  tm_allow_narrowed :: "string list"
  tm_deny :: "string list"

definition permits :: "tier_mask \<Rightarrow> decision \<Rightarrow> string \<Rightarrow> bool" where
  "permits m d action =
     (let listed = (\<lambda>l. list_ex (\<lambda>a. a = ''*'' \<or> a = action) l)
      in case d of
           Allow \<Rightarrow> listed (tm_allow m)
         | AllowNarrowed _ \<Rightarrow> listed (tm_allow_narrowed m)
         | Deny _ \<Rightarrow> listed (tm_deny m)
         | Escalate \<Rightarrow> True)"

record decided =
  dc_decision :: decision
  dc_decided_by :: string

definition DEFAULT_DENY_REASON :: string where
  "DEFAULT_DENY_REASON = ''no decider in the chain allowed the request''"

definition default_deny :: decided where
  "default_deny = \<lparr>dc_decision = Deny DEFAULT_DENY_REASON, dc_decided_by = ''default''\<rparr>"

type_synonym registry = "string \<Rightarrow> tier option"

definition chain_new :: registry where
  "chain_new = (\<lambda>_. None)"

definition register :: "string \<Rightarrow> tier \<Rightarrow> registry \<Rightarrow> registry" where
  "register name t r = r(name := Some t)"

record config_json =
  json_names :: "string \<Rightarrow> string list option"
  json_masks :: "string \<Rightarrow> (string \<Rightarrow> tier_mask option) option"

definition read_rsntr :: "auth_db \<Rightarrow> string \<Rightarrow> string option" where
  "read_rsntr db key = (case db_rsntr db of None \<Rightarrow> None | Some kv \<Rightarrow> map_of kv key)"

definition read_config :: "config_json \<Rightarrow> auth_db \<Rightarrow> string list \<times> (string \<Rightarrow> tier_mask option)" where
  "read_config j db =
     (case (case read_rsntr db ''auth_chain'' of
              Some raw \<Rightarrow> json_names j raw
            | None \<Rightarrow> Some []) of
        None \<Rightarrow> ([], \<lambda>_. None)
      | Some names \<Rightarrow>
          (case (case read_rsntr db ''auth_masks'' of
                   Some raw \<Rightarrow> json_masks j raw
                 | None \<Rightarrow> Some (\<lambda>_. None)) of
             None \<Rightarrow> ([], \<lambda>_. None)
           | Some masks \<Rightarrow> (names, masks)))"

text \<open>What the chain takes from one tier: a panic is an abstention, and so is an answer
  its mask does not permit.\<close>

definition permitted :: "(string \<Rightarrow> tier_mask option) \<Rightarrow> string \<Rightarrow> decision \<Rightarrow> string \<Rightarrow> bool" where
  "permitted masks name d action = (case masks name of None \<Rightarrow> True | Some m \<Rightarrow> permits m d action)"

fun run_chain ::
  "registry \<Rightarrow> (string \<Rightarrow> tier_mask option) \<Rightarrow> call_env \<Rightarrow> auth_request \<Rightarrow> string list \<Rightarrow> auth_db
    \<Rightarrow> decided \<times> auth_db" where
  "run_chain reg masks env rq [] db = (default_deny, db)"
| "run_chain reg masks env rq (name # names) db =
     (case reg name of
        None \<Rightarrow> run_chain reg masks env rq names db
      | Some t \<Rightarrow>
          (case t env db rq of
             (answer, db') \<Rightarrow>
               let d = (case answer of None \<Rightarrow> Escalate | Some d \<Rightarrow> d)
               in if d = Escalate then run_chain reg masks env rq names db'
                  else if \<not> permitted masks name d (rq_action rq)
                  then run_chain reg masks env rq names db'
                  else (\<lparr>dc_decision = d, dc_decided_by = name\<rparr>, db')))"

definition chain_decide ::
  "config_json \<Rightarrow> registry \<Rightarrow> call_env \<Rightarrow> auth_db \<Rightarrow> auth_request \<Rightarrow> decided \<times> auth_db" where
  "chain_decide j reg env db rq =
     (case read_config j db of (names, masks) \<Rightarrow> run_chain reg masks env rq names db)"

subsection \<open>The chain against its description\<close>

text \<open>
  One tier's effective answer and the database it leaves; the abstract chain is the first
  effective answer that is not an abstention.
\<close>

definition effective ::
  "registry \<Rightarrow> (string \<Rightarrow> tier_mask option) \<Rightarrow> call_env \<Rightarrow> auth_request \<Rightarrow> string \<Rightarrow> auth_db
    \<Rightarrow> decision \<times> auth_db" where
  "effective reg masks env rq name db =
     (case reg name of
        None \<Rightarrow> (Escalate, db)
      | Some t \<Rightarrow>
          (case t env db rq of
             (Some d, db') \<Rightarrow>
               (if permitted masks name d (rq_action rq) then d else Escalate, db')
           | (None, db') \<Rightarrow> (Escalate, db')))"

text \<open>The tiers of \<open>names\<close> all abstain, one after the other, taking the database along.\<close>

inductive abstain ::
  "registry \<Rightarrow> (string \<Rightarrow> tier_mask option) \<Rightarrow> call_env \<Rightarrow> auth_request \<Rightarrow> string list \<Rightarrow> auth_db \<Rightarrow> auth_db \<Rightarrow> bool"
  for reg masks env rq where
  none: "abstain reg masks env rq [] db db"
| more: "effective reg masks env rq name db = (Escalate, db') \<Longrightarrow>
    abstain reg masks env rq names db' db'' \<Longrightarrow> abstain reg masks env rq (name # names) db db''"

inductive_simps abstain_Nil [simp]: "abstain reg masks env rq [] db db'"
inductive_simps abstain_Cons: "abstain reg masks env rq (n # ns) db db'"

lemma run_chain_step:
  "run_chain reg masks env rq (name # names) db =
     (case effective reg masks env rq name db of
        (Escalate, db') \<Rightarrow> run_chain reg masks env rq names db'
      | (d, db') \<Rightarrow> (\<lparr>dc_decision = d, dc_decided_by = name\<rparr>, db'))"
  by (auto simp: effective_def Let_def permitted_def permits_def
      split: option.splits prod.splits decision.splits if_splits)

declare run_chain.simps(2) [simp del]

lemma run_chain_cases:
  "(run_chain reg masks env rq names db = (r, db')) \<longleftrightarrow>
     (abstain reg masks env rq names db db' \<and> r = default_deny) \<or>
     (\<exists>pre name post db1 d. names = pre @ name # post \<and> abstain reg masks env rq pre db db1
        \<and> effective reg masks env rq name db1 = (d, db') \<and> d \<noteq> Escalate
        \<and> r = \<lparr>dc_decision = d, dc_decided_by = name\<rparr>)"
proof (induction names arbitrary: db)
  case Nil
  then show ?case by auto
next
  case (Cons n ns)
  obtain d db1 where e: "effective reg masks env rq n db = (d, db1)"
    by (cases "effective reg masks env rq n db")
  have split: "(\<exists>pre name post db2 d'. n # ns = pre @ name # post \<and> P pre name post db2 d') \<longleftrightarrow>
    (\<exists>db2 d'. P [] n ns db2 d') \<or>
    (\<exists>pre name post db2 d'. ns = pre @ name # post \<and> P (n # pre) name post db2 d')" for P
    by (auto simp: Cons_eq_append_conv) metis+
  show ?case
    unfolding split using Cons.IH [of db1] e
    by (cases "d = Escalate") (auto simp: run_chain_step abstain_Cons split: decision.splits)
qed

lemma run_chain_total: "\<exists>r db'. run_chain reg masks env rq names db = (r, db')"
  by (cases "run_chain reg masks env rq names db") auto

lemma default_deny_not_Escalate [simp]: "dc_decision default_deny = Deny DEFAULT_DENY_REASON"
  by (simp add: default_deny_def)

lemma run_chain_not_Escalate: "dc_decision (fst (run_chain reg masks env rq names db)) \<noteq> Escalate"
proof -
  obtain r db' where r: "run_chain reg masks env rq names db = (r, db')"
    using run_chain_total by blast
  from this [unfolded run_chain_cases] show ?thesis by (auto simp: r)
qed

subsection \<open>The contract of a tier\<close>

text \<open>
  A property of answers that every tier of a chain keeps is kept by the chain: \<open>bad\<close> is a
  set of requests, and \<open>wrong\<close> the answers a tier must not give on them.
\<close>

locale guarded_chain =
  fixes reg :: registry
    and names :: "string list"
    and bad :: "auth_request \<Rightarrow> bool"
    and wrong :: "decision \<Rightarrow> bool"
  assumes tier_guard: "name \<in> set names \<Longrightarrow> reg name = Some t \<Longrightarrow> bad rq \<Longrightarrow>
      fst (t env db rq) = Some d \<Longrightarrow> \<not> wrong d"
    and abstention_fine: "\<not> wrong Escalate"
    and denial_fine: "\<not> wrong (Deny r)"
begin

lemma effective_fine: "name \<in> set names \<Longrightarrow> bad rq \<Longrightarrow>
    \<not> wrong (fst (effective reg masks env rq name db))"
  using tier_guard abstention_fine
  by (auto simp: effective_def split: option.splits prod.splits) (metis fst_conv)

lemma chain_fine:
  assumes "bad rq"
  shows "\<not> wrong (dc_decision (fst (run_chain reg masks env rq names db)))"
proof -
  obtain r db' where r: "run_chain reg masks env rq names db = (r, db')"
    using run_chain_total by blast
  from this [unfolded run_chain_cases] show ?thesis
    using effective_fine [OF _ assms] denial_fine by (auto simp: r) (metis fst_conv)
qed

end

end
