(* ===== verification/Script.thy ===== *)
theory Script
  imports Chain
begin

text \<open>
  The script tier (\<open>crates/authenticator/src/script.rs\<close>). The Rhai engine is a parameter:
  given the instruction budget, the four constants of the scope and the body, it yields the
  value of the script, \<open>None\<close> for an error or an exhausted budget.
\<close>

datatype verdict = VAllow | VDeny string | VEscalate

datatype rhai_value = IsVerdict verdict | NoVerdict

record script_scope =
  ss_peer :: string
  ss_action :: string
  ss_statement :: string
  ss_footprint :: "bset bmap"

type_synonym rhai = "nat \<Rightarrow> script_scope \<Rightarrow> string \<Rightarrow> rhai_value option"

definition DEFAULT_MAX_OPERATIONS :: nat where
  "DEFAULT_MAX_OPERATIONS = 100000"

definition ensure_scripts_table :: "auth_db \<Rightarrow> auth_db" where
  "ensure_scripts_table db =
     (case db_scripts db of None \<Rightarrow> db\<lparr>db_scripts := Some []\<rparr> | Some _ \<Rightarrow> db)"

fun run_scripts :: "rhai \<Rightarrow> nat \<Rightarrow> auth_request \<Rightarrow> (string \<times> string) list \<Rightarrow> decision" where
  "run_scripts rhai budget rq [] = Escalate"
| "run_scripts rhai budget rq ((name, body) # scripts) =
     (case rhai budget
             \<lparr>ss_peer = rq_peer rq, ss_action = rq_action rq, ss_statement = rq_statement rq,
              ss_footprint = fp_tables (rq_footprint rq)\<rparr> body of
        None \<Rightarrow> run_scripts rhai budget rq scripts
      | Some (IsVerdict VAllow) \<Rightarrow> Allow
      | Some (IsVerdict (VDeny reason)) \<Rightarrow> Deny (''script '' @ name @ '': '' @ reason)
      | Some (IsVerdict VEscalate) \<Rightarrow> run_scripts rhai budget rq scripts
      | Some NoVerdict \<Rightarrow> run_scripts rhai budget rq scripts)"

definition enabled_scripts :: "script_row list \<Rightarrow> (string \<times> string) list" where
  "enabled_scripts rows =
     map (\<lambda>r. (sc_name r, sc_body r)) (sort_key sc_name (filter (\<lambda>r. sc_enabled r = 1) rows))"

definition script_decide :: "rhai \<Rightarrow> nat \<Rightarrow> tier" where
  "script_decide rhai budget env db rq =
     (Some (case db_scripts db of
              None \<Rightarrow> Escalate
            | Some rows \<Rightarrow>
                let scripts = enabled_scripts rows
                in if scripts = [] then Escalate else run_scripts rhai budget rq scripts),
      db)"

subsection \<open>The first verdict in name order\<close>

definition script_verdict :: "rhai \<Rightarrow> nat \<Rightarrow> auth_request \<Rightarrow> string \<Rightarrow> verdict" where
  "script_verdict rhai budget rq body =
     (case rhai budget
             \<lparr>ss_peer = rq_peer rq, ss_action = rq_action rq, ss_statement = rq_statement rq,
              ss_footprint = fp_tables (rq_footprint rq)\<rparr> body of
        Some (IsVerdict v) \<Rightarrow> v
      | _ \<Rightarrow> VEscalate)"

fun verdict_answer :: "string \<Rightarrow> verdict \<Rightarrow> decision" where
  "verdict_answer name VAllow = Allow"
| "verdict_answer name (VDeny r) = Deny (''script '' @ name @ '': '' @ r)"
| "verdict_answer name VEscalate = Escalate"

lemma run_scripts_first:
  "run_scripts rhai budget rq scripts =
     (case List.find (\<lambda>(name, body). script_verdict rhai budget rq body \<noteq> VEscalate) scripts of
        None \<Rightarrow> Escalate
      | Some (name, body) \<Rightarrow> verdict_answer name (script_verdict rhai budget rq body))"
  by (induction scripts rule: run_scripts.induct)
     (auto simp: script_verdict_def split: option.splits rhai_value.splits verdict.splits)

lemma enabled_scripts_sorted:
  "sorted (map fst (enabled_scripts rows))"
  "set (enabled_scripts rows) = {(sc_name r, sc_body r) | r. r \<in> set rows \<and> sc_enabled r = 1}"
  by (auto simp: enabled_scripts_def comp_def)

lemma script_decide_alt:
  "script_decide rhai budget env db rq =
     (Some (case db_scripts db of None \<Rightarrow> Escalate
            | Some rows \<Rightarrow> run_scripts rhai budget rq (enabled_scripts rows)), db)"
  by (auto simp: script_decide_def Let_def split: option.splits)

end
