(* ===== verification/Fingerprint.thy ===== *)
theory Fingerprint
  imports Auth_Types
begin

text \<open>
  Statement fingerprints (\<open>crates/authenticator/src/fingerprint.rs\<close>): the key a decision
  is remembered under. The scanner walks over the bytes of the statement and reads each
  as a character of its own, so a byte above 127 is pushed as the two bytes of the
  Latin-1 character it names, and the bytes 133 and 160 count as white space.

  The hash function is a parameter \<open>sha :: byte list \<Rightarrow> byte list\<close>.
\<close>

definition SQ :: char where "SQ = CHR 0x27"

definition latin_space :: "char \<Rightarrow> bool" where
  "latin_space c \<longleftrightarrow> of_char c \<in> {9, 10, 11, 12, 13, 32, 133, 160 :: nat}"

definition num_char :: "char \<Rightarrow> bool" where
  "num_char c \<longleftrightarrow> is_alnum c \<or> c = CHR ''.'' \<or> c = CHR ''_''"

text \<open>\<open>String::push\<close> of the character a byte names.\<close>

definition push_char :: "char \<Rightarrow> string" where
  "push_char c =
     (let n = of_char c :: nat
      in if n < 128 then [c] else [char_of (192 + n div 64), char_of (128 + n mod 64)])"

fun skip_string :: "string \<Rightarrow> string" where
  "skip_string [] = []"
| "skip_string [c] = []"
| "skip_string (c # d # s) =
     (if c = SQ then (if d = SQ then skip_string s else d # s) else skip_string (d # s))"

fun take_quoted :: "char \<Rightarrow> string \<Rightarrow> string \<times> string" where
  "take_quoted q [] = ([], [])"
| "take_quoted q (b # s) =
     (if b = q then (push_char (to_lower b), s)
      else case take_quoted q s of (t, r) \<Rightarrow> (push_char (to_lower b) @ t, r))"

lemma skip_string_length: "length (skip_string s) \<le> length s"
  by (induction s rule: skip_string.induct) auto

lemma take_quoted_length: "take_quoted q s = (t, r) \<Longrightarrow> length r \<le> length s"
  by (induction q s arbitrary: t rule: take_quoted.induct) (auto split: if_splits prod.splits)

function norm_loop :: "string \<Rightarrow> string \<Rightarrow> bool \<Rightarrow> string" where
  "norm_loop [] out in_word = out"
| "norm_loop (c # s) out in_word =
     (if c = SQ then norm_loop (skip_string s) (out @ ''?'') False
      else if c = CHR 0x22 \<or> c = CHR 0x60
      then (case take_quoted c s of (t, r) \<Rightarrow> norm_loop r (out @ push_char c @ t) True)
      else if is_digit c \<and> \<not> in_word then norm_loop (dropWhile num_char s) (out @ ''?'') False
      else if latin_space c
      then norm_loop (dropWhile latin_space s)
             (if out \<noteq> [] \<and> last out \<noteq> CHR '' '' then out @ '' '' else out) False
      else norm_loop s (out @ push_char (to_lower c)) (is_alnum c \<or> c = CHR ''_''))"
  by pat_completeness auto
termination
  by (relation "measure (\<lambda>(s, out, w). length s)")
     (auto simp: less_Suc_eq_le skip_string_length length_dropWhile_le
       dest!: take_quoted_length [OF sym])

declare norm_loop.simps(2) [simp del]

definition normalize_statement :: "string \<Rightarrow> string" where
  "normalize_statement statement =
     rev (dropWhile (\<lambda>c. c = CHR '' '' \<or> c = CHR '';'') (rev (norm_loop statement [] False)))"

definition fingerprint_input :: "string \<Rightarrow> string \<Rightarrow> footprint \<Rightarrow> byte list" where
  "fingerprint_input action statement f =
     as_bytes action @ [0] @ as_bytes (normalize_statement statement) @ [0]
     @ as_bytes (kind_as_str (fp_kind f))
     @ concat (map (\<lambda>(table, cols). 0 # as_bytes table @ concat (map (\<lambda>col. 1 # as_bytes col) cols))
                (fp_tables f))"

definition statement_fingerprint ::
  "(byte list \<Rightarrow> byte list) \<Rightarrow> string \<Rightarrow> string \<Rightarrow> footprint \<Rightarrow> string" where
  "statement_fingerprint sha action statement f =
     concat (map (\<lambda>b. hex2 False (unat b)) (sha (fingerprint_input action statement f)))"

subsection \<open>Literals are blanked\<close>

definition string_literal :: "string \<Rightarrow> bool" where
  "string_literal l \<longleftrightarrow>
     (\<exists>body. l = SQ # concat (map (\<lambda>c. if c = SQ then [SQ, SQ] else [c]) body) @ [SQ])"

definition number_literal :: "string \<Rightarrow> bool" where
  "number_literal l \<longleftrightarrow> l \<noteq> [] \<and> is_digit (hd l) \<and> list_all num_char l"

definition literal_end :: "string \<Rightarrow> bool" where
  "literal_end post \<longleftrightarrow> (case post of [] \<Rightarrow> True | c # _ \<Rightarrow> \<not> num_char c \<and> c \<noteq> SQ)"

definition plain_start :: "string \<Rightarrow> bool" where
  "plain_start pre \<longleftrightarrow>
     list_all (\<lambda>c. c \<noteq> SQ \<and> c \<noteq> CHR 0x22 \<and> c \<noteq> CHR 0x60) pre
     \<and> (pre = [] \<or> \<not> num_char (last pre))"

lemma skip_string_steps:
  "c \<noteq> SQ \<Longrightarrow> skip_string (c # s) = skip_string s"
  "skip_string (SQ # SQ # s) = skip_string s"
  "post = [] \<or> hd post \<noteq> SQ \<Longrightarrow> skip_string (SQ # post) = post"
  by (cases s; cases post; simp)+

lemma skip_string_body:
  assumes "post = [] \<or> hd post \<noteq> SQ"
  shows "skip_string (concat (map (\<lambda>c. if c = SQ then [SQ, SQ] else [c]) body) @ SQ # post) = post"
  by (induction body) (use assms in \<open>auto simp: skip_string_steps simp del: skip_string.simps\<close>)

lemma digit_num_char: "is_digit c \<Longrightarrow> num_char c"
  by (simp add: num_char_def is_alnum_def)

lemma digit_not_quote: "is_digit c \<Longrightarrow> c \<noteq> SQ \<and> c \<noteq> CHR 0x22 \<and> c \<noteq> CHR 0x60 \<and> \<not> latin_space c"
  by (auto simp: is_digit_def SQ_def latin_space_def)

lemma SQ_facts: "\<not> latin_space SQ" "\<not> num_char SQ" "SQ \<noteq> CHR 0x22" "SQ \<noteq> CHR 0x60"
  by (simp_all add: SQ_def latin_space_def num_char_def is_alnum_def is_upper_def is_lower_def is_digit_def)

lemma norm_loop_literal:
  assumes "string_literal l \<or> number_literal l" "literal_end post"
  shows "norm_loop (l @ post) out False = norm_loop post (out @ ''?'') False"
  using assms(1)
proof
  assume "string_literal l"
  then obtain body where
    l: "l = SQ # concat (map (\<lambda>c. if c = SQ then [SQ, SQ] else [c]) body) @ [SQ]"
    unfolding string_literal_def by blast
  have "post = [] \<or> hd post \<noteq> SQ"
    using assms(2) by (auto simp: literal_end_def split: list.splits)
  from skip_string_body [OF this, of body] show ?thesis by (simp add: l norm_loop.simps)
next
  assume "number_literal l"
  then obtain c ds where l: "l = c # ds" "is_digit c" "list_all num_char ds"
    by (cases l) (auto simp: number_literal_def)
  then have "dropWhile num_char (ds @ post) = dropWhile num_char post"
    by (simp add: dropWhile_append2 list_all_iff)
  also have "\<dots> = post"
    using assms(2) by (auto simp: literal_end_def split: list.splits)
  finally show ?thesis using l digit_not_quote [OF l(2)] by (simp add: norm_loop.simps)
qed

text \<open>The scanner has taken \<open>pre\<close> and stands before the rest outside a word.\<close>

definition taken :: "string \<Rightarrow> string \<Rightarrow> bool \<Rightarrow> string \<Rightarrow> bool" where
  "taken pre out w out' \<longleftrightarrow>
     (\<forall>rest. rest = [] \<or> \<not> latin_space (hd rest) \<longrightarrow>
        norm_loop (pre @ rest) out w = norm_loop rest out' False)"

lemma plain_start_Cons:
  assumes "plain_start (c # s)"
  shows "c \<noteq> SQ" "c \<noteq> CHR 0x22" "c \<noteq> CHR 0x60" "s = [] \<Longrightarrow> \<not> num_char c"
    "s \<noteq> [] \<Longrightarrow> \<not> num_char (last s)"
  using assms by (auto simp: plain_start_def)

lemma plain_start_drop:
  assumes "plain_start (c # s)" "dropWhile P s \<noteq> []"
  shows "plain_start (dropWhile P s)"
proof -
  have "last (dropWhile P s) = last (c # s)"
    using assms(2) by (metis dropWhile.simps(1) last_ConsR last_append takeWhile_dropWhile_id)
  then show ?thesis using assms by (auto simp: plain_start_def list_all_iff dest: set_dropWhileD)
qed

lemma taken_digit:
  assumes "is_digit c" "\<not> w" "x \<in> set s" "\<not> num_char x"
    and "taken (dropWhile num_char s) (out @ ''?'') False out'"
  shows "taken (c # s) out w out'"
  using assms(1,2,5) digit_not_quote [OF assms(1)]
  by (simp add: taken_def norm_loop.simps(2) [of c] dropWhile_append1 [of x s num_char, OF assms(3,4)])

lemma taken_space:
  assumes "\<not> (is_digit c \<and> \<not> w)" "latin_space c" "c \<noteq> SQ" "c \<noteq> CHR 0x22" "c \<noteq> CHR 0x60"
    and "dropWhile latin_space s = [] \<and> out' = o1 \<or> taken (dropWhile latin_space s) o1 False out'"
    and "o1 = (if out \<noteq> [] \<and> last out \<noteq> CHR '' '' then out @ '' '' else out)"
  shows "taken (c # s) out w out'"
proof -
  have "dropWhile latin_space (s @ rest) = dropWhile latin_space s @ rest"
    if "rest = [] \<or> \<not> latin_space (hd rest)" for rest
  proof (cases "\<exists>x \<in> set s. \<not> latin_space x")
    case True
    then show ?thesis by (auto simp: dropWhile_append1)
  next
    case False
    with that show ?thesis by (cases rest) (auto simp: dropWhile_append2 dropWhile_eq_Nil_conv)
  qed
  moreover have "norm_loop ((c # s) @ rest) out w = norm_loop (dropWhile latin_space (s @ rest)) o1 False" for rest
    using assms(1-5) by (simp only: append_Cons norm_loop.simps(2) [of c] assms(7) if_False if_True simp_thms)
  ultimately show ?thesis using assms(6) unfolding taken_def by (metis append_Nil)
qed

lemma taken_char:
  assumes "\<not> (is_digit c \<and> \<not> w)" "\<not> latin_space c" "c \<noteq> SQ" "c \<noteq> CHR 0x22" "c \<noteq> CHR 0x60"
    and "s = [] \<and> out' = out @ push_char (to_lower c) \<and> \<not> num_char c \<or>
      taken s (out @ push_char (to_lower c)) (is_alnum c \<or> c = CHR ''_'') out'"
  shows "taken (c # s) out w out'"
  using assms by (auto simp: taken_def norm_loop.simps(2) [of c] num_char_def)

lemma norm_loop_start:
  "pre \<noteq> [] \<Longrightarrow> plain_start pre \<Longrightarrow> \<exists>out'. taken pre out w out'"
proof (induction pre arbitrary: out w rule: length_induct)
  case (1 pre)
  then obtain c s where pre: "pre = c # s" by (cases pre) auto
  note plain = plain_start_Cons [OF 1(3) [unfolded pre]]
  have sub: "\<exists>out'. taken (dropWhile P s) o' w' out'" if "dropWhile P s \<noteq> []" for P o' w'
    using 1(1) that plain_start_drop [OF 1(3) [unfolded pre] that]
    by (simp add: pre length_dropWhile_le less_Suc_eq_le)
  consider "is_digit c \<and> \<not> w" | "\<not> (is_digit c \<and> \<not> w)" "latin_space c"
    | "\<not> (is_digit c \<and> \<not> w)" "\<not> latin_space c" by blast
  then show ?case
  proof cases
    case 1
    then have "s \<noteq> []" using plain(4) digit_num_char [of c] by blast
    with plain(5) have x: "last s \<in> set s" "\<not> num_char (last s)" by simp_all
    then have "dropWhile num_char s \<noteq> []" by (auto simp: dropWhile_eq_Nil_conv)
    from sub [OF this] taken_digit [OF _ _ x] 1 show ?thesis unfolding pre by blast
  next
    case 2
    define o1 where "o1 = (if out \<noteq> [] \<and> last out \<noteq> CHR '' '' then out @ '' '' else out)"
    have "\<exists>out'. dropWhile latin_space s = [] \<and> out' = o1 \<or> taken (dropWhile latin_space s) o1 False out'"
      using sub [of latin_space o1 False] by blast
    with taken_space [OF 2 plain(1,2,3) _ o1_def] show ?thesis unfolding pre by blast
  next
    case 3
    have "\<exists>out'. s = [] \<and> out' = out @ push_char (to_lower c) \<and> \<not> num_char c \<or>
      taken s (out @ push_char (to_lower c)) (is_alnum c \<or> c = CHR ''_'') out'"
    proof (cases "s = []")
      case True
      with plain(4) show ?thesis by blast
    next
      case False
      have "dropWhile (\<lambda>_. False) s = s" by (cases s) auto
      with sub [of "\<lambda>_. False"] False show ?thesis by auto
    qed
    with taken_char [OF 3 plain(1,2,3)] show ?thesis unfolding pre by blast
  qed
qed

lemma literal_start:
  "string_literal l \<or> number_literal l \<Longrightarrow> l \<noteq> [] \<and> \<not> latin_space (hd l)"
  by (auto simp: string_literal_def number_literal_def SQ_facts dest: digit_not_quote)

lemma normalize_literal:
  assumes "plain_start pre" "literal_end post"
    and "string_literal l \<or> number_literal l" "string_literal m \<or> number_literal m"
  shows "normalize_statement (pre @ l @ post) = normalize_statement (pre @ m @ post)"
proof -
  note ends = norm_loop_literal [OF assms(3,2)] norm_loop_literal [OF assms(4,2)]
  have "norm_loop (pre @ l @ post) [] False = norm_loop (pre @ m @ post) [] False"
  proof (cases "pre = []")
    case False
    from norm_loop_start [OF this assms(1), of "[]" False] obtain out' where
      "\<And>rest. rest = [] \<or> \<not> latin_space (hd rest) \<Longrightarrow>
        norm_loop (pre @ rest) [] False = norm_loop rest out' False" unfolding taken_def by blast
    from this [of "l @ post"] this [of "m @ post"] literal_start [OF assms(3)] literal_start [OF assms(4)]
    show ?thesis by (simp add: ends)
  qed (simp add: ends)
  then show ?thesis by (simp add: normalize_statement_def)
qed

subsection \<open>The hashed text determines the shape\<close>

lemma separated_inject:
  assumes "z \<notin> set x" "z \<notin> set y" "\<forall>b \<in> set bs. z \<notin> set b" "\<forall>b \<in> set cs. z \<notin> set b"
    and "x @ concat (map (Cons z) bs) = y @ concat (map (Cons z) cs)"
  shows "x = y \<and> bs = cs"
  using assms
proof (induction bs arbitrary: x y cs)
  case Nil
  then show ?case by (cases cs) auto
next
  case (Cons b bs)
  show ?case
  proof (cases cs)
    case Nil
    with Cons.prems show ?thesis by auto
  next
    case (Cons c cs')
    with Cons.prems have "x @ z # (b @ concat (map ((#) z) bs)) = y @ z # (c @ concat (map ((#) z) cs'))"
      by simp
    moreover have "takeWhile (\<lambda>a. a \<noteq> z) (x @ z # u) = x" "takeWhile (\<lambda>a. a \<noteq> z) (y @ z # u) = y" for u
      using Cons.prems(1,2) by (auto simp: takeWhile_append)
    ultimately have "x = y" by metis
    with \<open>x @ z # _ = _\<close> have "b @ concat (map ((#) z) bs) = c @ concat (map ((#) z) cs')" by simp
    from Cons.IH [OF _ _ _ _ this] Cons.prems Cons \<open>x = y\<close> show ?thesis by simp
  qed
qed

definition no_byte :: "byte \<Rightarrow> string \<Rightarrow> bool" where
  "no_byte z s \<longleftrightarrow> z \<notin> set (as_bytes s)"

definition clean_footprint :: "footprint \<Rightarrow> bool" where
  "clean_footprint f \<longleftrightarrow>
     (\<forall>(t, cols) \<in> set (fp_tables f). no_byte 0 t \<and> no_byte 1 t \<and> (\<forall>c \<in> set cols. no_byte 0 c \<and> no_byte 1 c))"

definition table_block :: "string \<times> string list \<Rightarrow> byte list" where
  "table_block p = as_bytes (fst p) @ concat (map (Cons 1) (map as_bytes (snd p)))"

lemma fingerprint_input_fields:
  "fingerprint_input action statement f =
     as_bytes action @ concat (map (Cons 0)
       (as_bytes (normalize_statement statement) # as_bytes (kind_as_str (fp_kind f))
         # map table_block (fp_tables f)))"
  by (simp add: fingerprint_input_def table_block_def case_prod_unfold comp_def)

lemma kind_no_byte: "no_byte 0 (kind_as_str k)"
  by (cases k) (simp_all add: no_byte_def as_bytes_def byte_of_def)

lemma as_bytes_inject: "as_bytes s = as_bytes t \<longleftrightarrow> s = t"
proof
  assume "as_bytes s = as_bytes t"
  then have "map char_of_byte (as_bytes s) = map char_of_byte (as_bytes t)" by simp
  then show "s = t" by (simp add: as_bytes_def comp_def)
qed simp

lemma kind_as_str_inject: "kind_as_str a = kind_as_str b \<longleftrightarrow> a = b"
  by (cases a; cases b) simp_all

lemma table_block_inject:
  assumes "clean_footprint f" "clean_footprint g"
    and "map table_block (fp_tables f) = map table_block (fp_tables g)"
  shows "fp_tables f = fp_tables g"
proof (rule map_inj_on [OF assms(3)], rule inj_onI)
  fix p q assume pq: "p \<in> set (fp_tables f) \<union> set (fp_tables g)"
    "q \<in> set (fp_tables f) \<union> set (fp_tables g)" "table_block p = table_block q"
  have clean: "no_byte 1 (fst r)" "\<forall>b \<in> set (map as_bytes (snd r)). 1 \<notin> set b"
    if "r \<in> set (fp_tables f) \<union> set (fp_tables g)" for r
    using that assms(1,2) by (auto simp: clean_footprint_def no_byte_def)
  from separated_inject [OF clean(1) [OF pq(1), unfolded no_byte_def]
      clean(1) [OF pq(2), unfolded no_byte_def] clean(2) [OF pq(1)] clean(2) [OF pq(2)]] pq(3)
  have "as_bytes (fst p) = as_bytes (fst q)" "map as_bytes (snd p) = map as_bytes (snd q)"
    by (simp_all add: table_block_def)
  moreover have "inj as_bytes" by (rule injI) (simp add: as_bytes_inject)
  ultimately show "p = q" by (simp add: as_bytes_inject prod_eq_iff inj_map_eq_map)
qed

lemma fingerprint_input_inject:
  assumes "no_byte 0 a" "no_byte 0 b"
    and "no_byte 0 (normalize_statement s)" "no_byte 0 (normalize_statement t)"
    and "clean_footprint f" "clean_footprint g"
  shows "fingerprint_input a s f = fingerprint_input b t g \<longleftrightarrow>
    a = b \<and> normalize_statement s = normalize_statement t \<and> fp_kind f = fp_kind g
    \<and> fp_tables f = fp_tables g"
proof
  assume eq: "fingerprint_input a s f = fingerprint_input b t g"
  have block: "\<forall>p \<in> set (map table_block (fp_tables h)). 0 \<notin> set p" if "clean_footprint h" for h
  proof
    fix p assume "p \<in> set (map table_block (fp_tables h))"
    then obtain t cols where "(t, cols) \<in> set (fp_tables h)" "p = table_block (t, cols)" by auto
    with that show "0 \<notin> set p" by (auto simp: clean_footprint_def table_block_def no_byte_def)
  qed
  have "\<forall>p \<in> set (as_bytes (normalize_statement u) # as_bytes (kind_as_str (fp_kind h))
      # map table_block (fp_tables h)). 0 \<notin> set p"
    if "clean_footprint h" "no_byte 0 (normalize_statement u)" for h u
    using block [OF that(1)] that(2) kind_no_byte [of "fp_kind h"] by (simp add: no_byte_def)
  from separated_inject [OF _ _ this [OF assms(5,3)] this [OF assms(6,4)], of "as_bytes a" "as_bytes b"]
    eq assms(1,2)
  have "as_bytes a = as_bytes b" "as_bytes (normalize_statement s) = as_bytes (normalize_statement t)"
    "as_bytes (kind_as_str (fp_kind f)) = as_bytes (kind_as_str (fp_kind g))"
    "map table_block (fp_tables f) = map table_block (fp_tables g)"
    by (simp_all add: fingerprint_input_fields no_byte_def)
  with table_block_inject [OF assms(5,6)]
  show "a = b \<and> normalize_statement s = normalize_statement t \<and> fp_kind f = fp_kind g
    \<and> fp_tables f = fp_tables g" by (simp add: as_bytes_inject kind_as_str_inject)
qed (auto simp: fingerprint_input_def)

lemma hex_digit_inject: "m < 16 \<Longrightarrow> n < 16 \<Longrightarrow> hex_digit False m = hex_digit False n \<longleftrightarrow> m = n"
  by (metis hex_val_digit option.inject)

lemma hex2_inject: "hex2 False (unat (x :: byte)) = hex2 False (unat y) \<longleftrightarrow> x = y"
proof
  assume "hex2 False (unat x) = hex2 False (unat y)"
  then have "unat x div 16 = unat y div 16" "unat x mod 16 = unat y mod 16"
    using byte_bound [of x] byte_bound [of y] by (simp_all add: hex2_def hex_digit_inject)
  then have "unat x = unat y" by (metis div_mult_mod_eq)
  then show "x = y" by (rule word_unat_eq_iff [THEN iffD2])
qed simp

lemma hex_pairs_inject:
  "concat (map (\<lambda>b :: byte. hex2 False (unat b)) xs) = concat (map (\<lambda>b. hex2 False (unat b)) ys) \<longleftrightarrow> xs = ys"
proof (induction xs arbitrary: ys)
  case Nil
  then show ?case by (cases ys) (simp_all add: hex2_def)
next
  case (Cons x xs)
  have len: "length (hex2 False (unat (b :: byte))) = 2" for b by (simp add: hex2_def)
  show ?case
  proof (cases ys)
    case (Cons y zs)
    then show ?thesis using Cons.IH [of zs] len [of x] len [of y] by (simp add: hex2_inject)
  qed (simp add: hex2_def)
qed

end
