(* ===== verification/Clock.thy ===== *)
theory Clock
  imports Text_Lib "HOL-Library.Signed_Division"
begin

text \<open>
  Timestamps (\<open>crates/node/src/clock.rs\<close>, and the same two functions in
  \<open>crates/authenticator/src/human.rs\<close>). The arguments stay far inside \<open>i64\<close> (a \<open>u64\<close>
  number of seconds has fewer than \<open>2 ^ 48\<close> days), so \<open>int\<close> needs no wrap-around; division
  truncates.
\<close>

definition civil_from_days :: "int \<Rightarrow> int \<times> int \<times> int" where
  "civil_from_days z0 =
     (let z = z0 + 719468;
          era = (if 0 \<le> z then z else z - 146096) sdiv 146097;
          doe = z - era * 146097;
          yoe = (doe - doe sdiv 1460 + doe sdiv 36524 - doe sdiv 146096) sdiv 365;
          y = yoe + era * 400;
          doy = doe - (365 * yoe + yoe sdiv 4 - yoe sdiv 100);
          mp = (5 * doy + 2) sdiv 153;
          d = doy - (153 * mp + 2) sdiv 5 + 1;
          m = (if mp < 10 then mp + 3 else mp - 9)
      in (if m \<le> 2 then y + 1 else y, m, d))"

text \<open>\<open>{:02}\<close> and \<open>{:04}\<close> of a number that is not negative.\<close>

definition pad_num :: "nat \<Rightarrow> int \<Rightarrow> string" where
  "pad_num w n = (let s = show_nat (nat n) in replicate (w - length s) (CHR ''0'') @ s)"

definition rfc3339 :: "nat \<Rightarrow> string" where
  "rfc3339 secs =
     (let days = int (secs div 86400); rem = int (secs mod 86400); (y, m, d) = civil_from_days days
      in pad_num 4 y @ ''-'' @ pad_num 2 m @ ''-'' @ pad_num 2 d @ ''T''
         @ pad_num 2 (rem div 3600) @ '':'' @ pad_num 2 ((rem mod 3600) div 60) @ '':''
         @ pad_num 2 (rem mod 60) @ ''Z'')"

subsection \<open>The calendar\<close>

text \<open>
  The specification: the proleptic Gregorian calendar. \<open>days_before\<close> counts the days from
  the epoch to a date, year by year and month by month.
\<close>

definition leap :: "int \<Rightarrow> bool" where
  "leap y \<longleftrightarrow> y mod 4 = 0 \<and> (y mod 100 \<noteq> 0 \<or> y mod 400 = 0)"

definition month_days :: "int \<Rightarrow> int \<Rightarrow> int" where
  "month_days y m =
     (if m = 2 then (if leap y then 29 else 28) else if m \<in> {4, 6, 9, 11} then 30 else 31)"

definition valid_date :: "int \<times> int \<times> int \<Rightarrow> bool" where
  "valid_date dt = (case dt of (y, m, d) \<Rightarrow> 1 \<le> m \<and> m \<le> 12 \<and> 1 \<le> d \<and> d \<le> month_days y m)"

definition next_day :: "int \<times> int \<times> int \<Rightarrow> int \<times> int \<times> int" where
  "next_day dt = (case dt of (y, m, d) \<Rightarrow>
     if d < month_days y m then (y, m, d + 1)
     else if m < 12 then (y, m + 1, 1) else (y + 1, 1, 1))"

text \<open>Within an era of 400 years that begin in March: the days before a year.\<close>

definition year_start :: "int \<Rightarrow> int" where
  "year_start y = 365 * y + y div 4 - y div 100"

definition year_num :: "int \<Rightarrow> int" where
  "year_num d = d - d div 1460 + d div 36524 - d div 146096"

definition month_of :: "int \<Rightarrow> int \<times> int" where
  "month_of doy =
     (let mp = (5 * doy + 2) div 153
      in (if mp < 10 then mp + 3 else mp - 9, doy - (153 * mp + 2) div 5 + 1))"

text \<open>The day number \<open>doy\<close> of the March year \<open>y\<close> as a date.\<close>

definition march_date :: "int \<Rightarrow> int \<Rightarrow> int \<times> int \<times> int" where
  "march_date y doy = (case month_of doy of (m, d) \<Rightarrow> (if m \<le> 2 then y + 1 else y, m, d))"

lemma sdiv_nonneg: "0 \<le> a \<Longrightarrow> 0 < b \<Longrightarrow> (a :: int) sdiv b = a div b"
  by (cases "a = 0") (simp_all add: signed_divide_int_def)

lemma minus_div_mono:
  assumes "(a :: int) \<le> b" "0 < k"
  shows "a - a div k \<le> b - b div k"
proof -
  have "b \<le> a + (b - a) * k"
    using assms mult_left_mono [of 1 k "b - a"] by simp
  then have "b div k \<le> (a + (b - a) * k) div k" using assms(2) by (rule zdiv_mono1)
  also have "\<dots> = a div k + (b - a)" using assms(2) by simp
  finally show ?thesis by simp
qed

lemma year_num_mono:
  assumes "0 \<le> a" "a \<le> b" "b \<le> 146096"
  shows "year_num a \<le> year_num b"
proof -
  have low: "year_num c \<le> year_num d" if "0 \<le> c" "c \<le> d" "d < 146096" for c d
    using minus_div_mono [of c d 1460] zdiv_mono1 [of c d 36524] that
    by (simp add: year_num_def div_pos_pos_trivial)
  show ?thesis
  proof (cases "b = 146096 \<and> a < b")
    case True
    then have "year_num a \<le> year_num 146095" using low [of a 146095] assms(1) by simp
    then show ?thesis using True by (simp add: year_num_def)
  next
    case False
    then show ?thesis using low [of a b] assms by (cases "a = b") auto
  qed
qed

text \<open>The boundaries of the 400 years, one by one.\<close>

definition year_bounds_ok :: "int \<Rightarrow> bool" where
  "year_bounds_ok y \<longleftrightarrow> 365 * y \<le> year_num (year_start y)
     \<and> (0 < y \<longrightarrow> year_num (year_start y - 1) < 365 * y)"

lemma year_bounds: "list_all year_bounds_ok [0..399]"
  by code_simp

lemma year_bounds_at:
  assumes "0 \<le> y" "y < 400"
  shows "365 * y \<le> year_num (year_start y)" "0 < y \<Longrightarrow> year_num (year_start y - 1) < 365 * y"
proof -
  have "y \<in> set [0..399]" using assms by simp
  with year_bounds have "year_bounds_ok y" unfolding list_all_iff by blast
  then show "365 * y \<le> year_num (year_start y)" "0 < y \<Longrightarrow> year_num (year_start y - 1) < 365 * y"
    by (auto simp: year_bounds_ok_def)
qed

text \<open>The day of the year that follows year \<open>y\<close> of an era; the last year has one day more.\<close>

definition year_end :: "int \<Rightarrow> int" where
  "year_end y = (if y = 399 then 146097 else year_start (y + 1))"

lemma year_start_mono: "0 \<le> a \<Longrightarrow> a \<le> b \<Longrightarrow> year_start a \<le> year_start b"
  using zdiv_mono1 [of a b 4] minus_div_mono [of a b 100] by (simp add: year_start_def)

lemma year_end_le: "0 \<le> y \<Longrightarrow> y < 400 \<Longrightarrow> year_end y \<le> 146097"
proof -
  have "year_start 399 = 145731" by (simp add: year_start_def)
  moreover assume "0 \<le> y" "y < 400"
  ultimately show ?thesis
    using year_start_mono [of "y + 1" 399] by (cases "y = 399") (simp_all add: year_end_def)
qed

lemma year_of_era:
  assumes "0 \<le> doe" "doe < 146097"
  defines "y \<equiv> year_num doe div 365"
  shows "0 \<le> y" "y < 400" "year_start y \<le> doe" "doe < year_end y"
proof -
  have "year_num 0 \<le> year_num doe" "year_num doe \<le> year_num 146096"
    using year_num_mono assms by simp_all
  then have n: "0 \<le> year_num doe" "year_num doe \<le> 145999" by (simp_all add: year_num_def)
  then show y: "0 \<le> y" "y < 400" unfolding y_def by simp_all
  have y_le: "365 * y \<le> year_num doe" "year_num doe < 365 * (y + 1)"
  proof -
    obtain m where "year_num doe = 365 * y + m" "0 \<le> m" "m < 365"
      by (rule that [of "year_num doe mod 365"]) (simp_all add: y_def)
    then show "365 * y \<le> year_num doe" "year_num doe < 365 * (y + 1)" by simp_all
  qed
  have top: "year_start y \<le> 145731" using year_start_mono [of y 399] y by (simp add: year_start_def)
  have pos: "0 \<le> year_start y" using year_start_mono [of 0 y] y by (simp add: year_start_def)
  show "year_start y \<le> doe"
  proof (rule ccontr)
    assume "\<not> year_start y \<le> doe"
    then have lt: "doe \<le> year_start y - 1" by simp
    with assms(1) have "0 < y" using y by (cases "y = 0") (auto simp: year_start_def)
    from lt have "year_num doe \<le> year_num (year_start y - 1)"
      using year_num_mono [OF assms(1)] top by simp
    with year_bounds_at(2) [OF y \<open>0 < y\<close>] y_le show False by linarith
  qed
  show "doe < year_end y"
  proof (cases "y = 399")
    case True
    then show ?thesis using assms by (simp add: year_end_def)
  next
    case False
    then have y1: "0 \<le> y + 1" "y + 1 < 400" using y by simp_all
    show ?thesis
    proof (rule ccontr)
      assume "\<not> doe < year_end y"
      with False have "year_start (y + 1) \<le> doe" by (simp add: year_end_def)
      moreover have "0 \<le> year_start (y + 1)" using year_start_mono [of 0 "y + 1"] y1 by (simp add: year_start_def)
      ultimately have "year_num (year_start (y + 1)) \<le> year_num doe"
        using year_num_mono [of "year_start (y + 1)" doe] assms(2) by simp
      with year_bounds_at(1) [OF y1] y_le show False by linarith
    qed
  qed
qed

lemma year_of_era_unique:
  assumes "0 \<le> y" "y < 400" "year_start y \<le> doe" "doe < year_end y"
  shows "year_num doe div 365 = y"
proof -
  let ?x = "year_num doe div 365"
  have "year_end y \<le> 146097" using year_end_le assms by simp
  moreover have "0 \<le> year_start y" using year_start_mono [of 0 y] assms by (simp add: year_start_def)
  ultimately have "0 \<le> doe" "doe < 146097" using assms by simp_all
  note x = year_of_era [OF this]
  have False if "0 \<le> a" "a < b" "b < 400" "year_start b \<le> doe" "doe < year_end a" for a b
    using that year_start_mono [of "a + 1" b] by (auto simp: year_end_def split: if_splits)
  from this [of ?x y] this [of y ?x] x assms show ?thesis by (metis linorder_cases)
qed

lemma era_floor: "(if 0 \<le> z then z else z - 146096) sdiv 146097 = z div (146097 :: int)"
proof (cases "0 \<le> z")
  case False
  then have "(z - 146096) sdiv 146097 = - ((146096 - z) div 146097)"
    by (simp add: signed_divide_int_def)
  also have "\<dots> = z div 146097" using False by linarith
  finally show ?thesis using False by simp
qed (simp add: sdiv_nonneg)

lemma civil_alt:
  assumes "z0 + 719468 = era * 146097 + year_start y + doy"
    and "0 \<le> y" "y < 400" "0 \<le> doy" "year_start y + doy < year_end y"
  shows "civil_from_days z0 = march_date (y + era * 400) doy"
proof -
  define z where "z = z0 + 719468"
  define doe where "doe = year_start y + doy"
  have pos: "0 \<le> year_start y" using year_start_mono [of 0 y] assms by (simp add: year_start_def)
  have "year_end y \<le> 146097" using year_end_le assms by simp
  then have doe: "0 \<le> doe" "doe < 146097" using assms pos by (simp_all add: doe_def)
  have z: "z = era * 146097 + doe" using assms(1) by (simp add: z_def doe_def)
  then have era: "z div 146097 = era" using doe by simp
  have y: "year_num doe div 365 = y"
    using year_of_era_unique [of y doe] assms by (simp add: doe_def)
  have n: "0 \<le> year_num doe" using year_num_mono [of 0 doe] doe by (simp add: year_num_def)
  have ys: "(doe - doe sdiv 1460 + doe sdiv 36524 - doe sdiv 146096) sdiv 365 = y"
    using doe n y by (simp add: sdiv_nonneg year_num_def)
  have dy: "doe - (365 * y + y sdiv 4 - y sdiv 100) = doy"
    using assms(2) by (simp add: doe_def sdiv_nonneg year_start_def)
  have "(5 * doy + 2) sdiv 153 = (5 * doy + 2) div 153"
    "(153 * ((5 * doy + 2) div 153) + 2) sdiv 5 = (153 * ((5 * doy + 2) div 153) + 2) div 5"
    using assms(4) by (simp_all add: sdiv_nonneg)
  then show ?thesis
    unfolding civil_from_days_def march_date_def month_of_def Let_def
    by (simp only: z_def [symmetric] era_floor era) (simp add: z ys dy)
qed

text \<open>The months of a year that begins in March, day by day.\<close>

definition month_len :: "int \<Rightarrow> int" where
  "month_len m = (if m = 2 then 29 else if m \<in> {4, 6, 9, 11} then 30 else 31)"

definition month_step_ok :: "int \<Rightarrow> bool" where
  "month_step_ok doy =
     (case month_of doy of (m, d) \<Rightarrow> case month_of (doy + 1) of (m', d') \<Rightarrow>
        1 \<le> m \<and> m \<le> 12 \<and> 1 \<le> d \<and> d \<le> month_len m \<and> (m = 2 \<longrightarrow> (d = 29 \<longleftrightarrow> doy = 365) \<and> (d = 28 \<longleftrightarrow> doy = 364))
        \<and> (364 \<le> doy \<longrightarrow> m = 2)
        \<and> (doy < 365 \<longrightarrow>
            (d < month_len m \<and> m' = m \<and> d' = d + 1) \<or>
            (d = month_len m \<and> m \<noteq> 2 \<and> m' = (if m = 12 then 1 else m + 1) \<and> d' = 1)))"

lemma month_steps: "list_all month_step_ok [0..365]"
  by code_simp

lemma month_step_at: "0 \<le> doy \<Longrightarrow> doy \<le> 365 \<Longrightarrow> month_step_ok doy"
  using month_steps by (auto simp: list_all_iff)

definition year_length_ok :: "int \<Rightarrow> bool" where
  "year_length_ok y \<longleftrightarrow> year_end y = year_start y + (if leap (y + 1) then 366 else 365)"

lemma year_lengths: "list_all year_length_ok [0..399]"
  by code_simp

lemma year_length:
  assumes "0 \<le> y" "y < 400"
  shows "year_end y = year_start y + (if leap (y + 1 + era * 400) then 366 else 365)"
proof -
  have "(y + 1 + era * 400) mod 4 = (y + 1) mod 4" "(y + 1 + era * 400) mod 100 = (y + 1) mod 100"
    using mod_mult_self1 [of "y + 1" "era * 100" 4] mod_mult_self1 [of "y + 1" "era * 4" 100]
    by (simp_all add: mult.assoc)
  then have "leap (y + 1 + era * 400) = leap (y + 1)" by (simp add: leap_def)
  moreover have "year_length_ok y" using year_lengths assms by (auto simp: list_all_iff)
  ultimately show ?thesis by (simp add: year_length_ok_def)
qed

lemma march_month:
  assumes "0 \<le> doy" "doy \<le> 365" "month_of doy = (m, d)"
  shows "1 \<le> m" "m \<le> 12" "1 \<le> d" "d \<le> month_len m"
    and "m = 2 \<Longrightarrow> d = 29 \<longleftrightarrow> doy = 365" "m = 2 \<Longrightarrow> d = 28 \<longleftrightarrow> doy = 364"
    and "364 \<le> doy \<Longrightarrow> m = 2"
    and "doy < 365 \<Longrightarrow> d < month_len m \<and> month_of (doy + 1) = (m, d + 1) \<or>
      d = month_len m \<and> m \<noteq> 2 \<and> month_of (doy + 1) = (if m = 12 then 1 else m + 1, 1)"
proof -
  obtain m' d' where "month_of (doy + 1) = (m', d')" by (cases "month_of (doy + 1)")
  with month_step_at [OF assms(1,2)] assms(3)
  show "1 \<le> m" "m \<le> 12" "1 \<le> d" "d \<le> month_len m"
    "m = 2 \<Longrightarrow> d = 29 \<longleftrightarrow> doy = 365" "m = 2 \<Longrightarrow> d = 28 \<longleftrightarrow> doy = 364" "364 \<le> doy \<Longrightarrow> m = 2"
    "doy < 365 \<Longrightarrow> d < month_len m \<and> month_of (doy + 1) = (m, d + 1) \<or>
      d = month_len m \<and> m \<noteq> 2 \<and> month_of (doy + 1) = (if m = 12 then 1 else m + 1, 1)"
    by (simp_all add: month_step_ok_def)
qed

lemma month_days_len:
  "m \<noteq> 2 \<Longrightarrow> month_days y m = month_len m" "month_days y 2 = (if leap y then 29 else 28)"
  by (simp_all add: month_days_def month_len_def)

lemma march_date_valid:
  assumes "0 \<le> doy" "doy < (if leap (y + 1) then 366 else 365)"
  shows "valid_date (march_date y doy)"
proof -
  obtain m d where md: "month_of doy = (m, d)" by (cases "month_of doy")
  have "doy \<le> 365" using assms(2) by (simp split: if_splits)
  note f = march_month [OF assms(1) this md]
  have "d \<le> month_days (if m \<le> 2 then y + 1 else y) m"
  proof (cases "m = 2")
    case True
    then show ?thesis using f(4,5) assms(2) by (auto simp: month_days_len month_len_def split: if_splits)
  qed (use f(4) in \<open>simp add: month_days_len\<close>)
  with f(1-3) show ?thesis by (simp add: valid_date_def march_date_def md)
qed

lemma march_date_next:
  assumes "0 \<le> doy" "doy + 1 < (if leap (y + 1) then 366 else 365)"
  shows "march_date y (doy + 1) = next_day (march_date y doy)"
proof -
  obtain m d where md: "month_of doy = (m, d)" by (cases "month_of doy")
  have doy: "doy \<le> 365" "doy < 365" using assms(2) by (simp_all split: if_splits)
  note f = march_month [OF assms(1) doy(1) md]
  from f(8) [OF doy(2)] show ?thesis
  proof
    assume s: "d < month_len m \<and> month_of (doy + 1) = (m, d + 1)"
    have "d < month_days (if m \<le> 2 then y + 1 else y) m"
    proof (cases "m = 2")
      case True
      then show ?thesis using s f(6) assms(2) by (auto simp: month_days_len month_len_def split: if_splits)
    qed (use s in \<open>simp add: month_days_len\<close>)
    with s show ?thesis by (simp add: next_day_def march_date_def md)
  next
    assume s: "d = month_len m \<and> m \<noteq> 2 \<and> month_of (doy + 1) = (if m = 12 then 1 else m + 1, 1)"
    then have "month_days (if m \<le> 2 then y + 1 else y) m = d" by (simp add: month_days_len)
    with s f(1,2) show ?thesis by (auto simp: next_day_def march_date_def md)
  qed
qed

lemma march_date_wrap:
  assumes "doy + 1 = (if leap (y + 1) then 366 else 365)"
  shows "march_date (y + 1) 0 = next_day (march_date y doy)"
proof -
  have "month_of 0 = (3, 1)" "month_of 365 = (2, 29)" "month_of 364 = (2, 28)"
    by (simp_all add: month_of_def Let_def)
  moreover have "doy = (if leap (y + 1) then 365 else 364)" using assms by auto
  ultimately show ?thesis by (simp add: next_day_def march_date_def month_days_def)
qed

lemma locate:
  obtains era y doy where "z0 + 719468 = era * 146097 + year_start y + doy"
    "0 \<le> y" "y < 400" "0 \<le> doy" "year_start y + doy < year_end y"
proof -
  define z where "z = z0 + 719468"
  define doe where "doe = z mod 146097"
  have "0 \<le> doe" "doe < 146097" by (simp_all add: doe_def)
  note y = year_of_era [OF this]
  have "z = (z div 146097) * 146097 + doe" by (simp add: doe_def)
  with y that [of "z div 146097" "year_num doe div 365" "doe - year_start (year_num doe div 365)"]
  show thesis by (simp add: z_def)
qed

lemma civil_from_days_valid: "valid_date (civil_from_days z)"
proof (cases z rule: locate [case_names l])
  case (l era y doy)
  have L: "(leap (y + 1 + era * 400)) = leap (y + era * 400 + 1)" by (simp add: algebra_simps)
  show ?thesis
    using civil_alt [OF l] year_length [OF l(2,3), of era] l(5) march_date_valid [OF l(4), of "y + era * 400"]
    unfolding L by simp
qed

lemma civil_from_days_next: "civil_from_days (z + 1) = next_day (civil_from_days z)"
proof (cases z rule: locate [case_names l])
  case (l era y doy)
  let ?Y = "y + era * 400"
  note len = year_length [OF l(2,3), of era]
  have L: "(leap (y + 1 + era * 400)) = leap (?Y + 1)" by (simp add: algebra_simps)
  show ?thesis
  proof (cases "year_start y + (doy + 1) < year_end y")
    case True
    then have "civil_from_days (z + 1) = march_date ?Y (doy + 1)"
      using l by (intro civil_alt) simp_all
    moreover have "doy + 1 < (if leap (?Y + 1) then 366 else 365)" using True len L by simp
    ultimately show ?thesis using civil_alt [OF l] march_date_next [OF l(4)] by simp
  next
    case False
    with l(5) have wrap: "year_start y + doy + 1 = year_end y" by simp
    then have w: "doy + 1 = (if leap (?Y + 1) then 366 else 365)" using len L by simp
    have "civil_from_days (z + 1) = march_date (?Y + 1) 0"
    proof (cases "y = 399")
      case True
      have "z + 1 + 719468 = (era + 1) * 146097 + year_start 0 + 0"
        using l(1) wrap True by (simp add: year_end_def year_start_def)
      from civil_alt [OF this] True show ?thesis by (simp add: year_end_def year_start_def algebra_simps)
    next
      case False
      then have "z + 1 + 719468 = era * 146097 + year_start (y + 1) + 0"
        using l(1) wrap by (simp add: year_end_def)
      from civil_alt [OF this] l False show ?thesis
        using year_length [of "y + 1" 0] by (simp add: algebra_simps split: if_splits)
    qed
    with civil_alt [OF l] march_date_wrap [OF w] show ?thesis by simp
  qed
qed

end
