(* ===== verification/Cache.thy ===== *)
theory Cache
  imports Chain Fingerprint Clock
begin

text \<open>
  The decision cache (\<open>crates/authenticator/src/cache.rs\<close>): final answers remembered under
  the peer and the fingerprint of the request.
\<close>

definition ensure_decisions_table :: "auth_db \<Rightarrow> auth_db" where
  "ensure_decisions_table db =
     (case db_decisions db of None \<Rightarrow> db\<lparr>db_decisions := Some []\<rparr> | Some _ \<Rightarrow> db)"

definition decision_key :: "decision_row \<Rightarrow> string \<times> string" where
  "decision_key r = (dr_peer r, dr_fingerprint r)"

text \<open>The upsert: the primary key is \<open>(peer, fingerprint)\<close>.\<close>

definition upsert_decision :: "decision_row \<Rightarrow> decision_row list \<Rightarrow> decision_row list" where
  "upsert_decision r rows =
     (if decision_key r \<in> set (map decision_key rows)
      then map (\<lambda>old. if decision_key old = decision_key r then r else old) rows
      else rows @ [r])"

text \<open>\<open>None\<close> is a database error. An expiry that is not a number is stored as \<open>NULL\<close>.\<close>

definition record_decision ::
  "call_env \<Rightarrow> auth_db \<Rightarrow> string \<Rightarrow> string \<Rightarrow> string \<Rightarrow> string option \<Rightarrow> string \<Rightarrow> f64 option
    \<Rightarrow> auth_db option" where
  "record_decision env db peer fingerprint decision reason decided_by ttl_secs =
     (case db_decisions db of
        None \<Rightarrow> None
      | Some rows \<Rightarrow>
          let expires = map_option (f_add (env_now env)) ttl_secs
          in Some (db\<lparr>db_decisions := Some (upsert_decision
               \<lparr>dr_peer = peer, dr_fingerprint = fingerprint, dr_decision = decision,
                dr_reason = reason, dr_decided_by = decided_by,
                dr_created_at = rfc3339 (env_secs env),
                dr_expires_at = (case expires of
                    None \<Rightarrow> None | Some e \<Rightarrow> if is_nan e then None else Some e)\<rparr> rows)\<rparr>))"

definition invalidate_decisions :: "auth_db \<Rightarrow> auth_db option" where
  "invalidate_decisions db =
     (case db_decisions db of None \<Rightarrow> None | Some _ \<Rightarrow> Some (db\<lparr>db_decisions := Some []\<rparr>))"

definition live_row :: "f64 \<Rightarrow> string \<Rightarrow> string \<Rightarrow> decision_row \<Rightarrow> bool" where
  "live_row now peer fp r \<longleftrightarrow>
     dr_peer r = peer \<and> dr_fingerprint r = fp
     \<and> (case dr_expires_at r of None \<Rightarrow> True | Some e \<Rightarrow> f_less now e)"

definition cache_decide :: "(byte list \<Rightarrow> byte list) \<Rightarrow> tier" where
  "cache_decide sha env db rq =
     (Some
       (if has_denied (rq_footprint rq) then Escalate
        else if rq_action rq = ''knock'' then Escalate
        else
          let fp = statement_fingerprint sha (rq_action rq) (rq_statement rq) (rq_footprint rq)
          in case db_decisions db of
               None \<Rightarrow> Escalate
             | Some rows \<Rightarrow>
                 (case List.find (live_row (env_now env) (rq_peer rq) fp) rows of
                    None \<Rightarrow> Escalate
                  | Some r \<Rightarrow>
                      if dr_decision r = ''allow'' then Allow
                      else if dr_decision r = ''deny''
                      then Deny (case dr_reason r of
                             None \<Rightarrow> ''denied by remembered decision'' | Some t \<Rightarrow> t)
                      else Escalate)),
      db)"

subsection \<open>The table as a map\<close>

definition keys_unique :: "decision_row list \<Rightarrow> bool" where
  "keys_unique rows \<longleftrightarrow> distinct (map decision_key rows)"

lemma upsert_keys:
  "map decision_key (upsert_decision r rows) =
     (if decision_key r \<in> set (map decision_key rows) then map decision_key rows
      else map decision_key rows @ [decision_key r])"
  by (auto simp: upsert_decision_def)

lemma upsert_unique: "keys_unique rows \<Longrightarrow> keys_unique (upsert_decision r rows)"
  by (simp add: keys_unique_def upsert_keys)

text \<open>What a lookup finds after an upsert: the new row for its key, the old rows elsewhere.\<close>

definition lookup_decision :: "decision_row list \<Rightarrow> string \<times> string \<Rightarrow> decision_row option" where
  "lookup_decision rows k = List.find (\<lambda>r. decision_key r = k) rows"

lemma find_append:
  "List.find P (xs @ ys) = (case List.find P xs of None \<Rightarrow> List.find P ys | Some x \<Rightarrow> Some x)"
  by (induction xs) auto

lemma lookup_upsert:
  "lookup_decision (upsert_decision r rows) k =
     (if k = decision_key r then Some r else lookup_decision rows k)"
proof (cases "decision_key r \<in> set (map decision_key rows)")
  case True
  have "List.find (\<lambda>r'. decision_key r' = k)
      (map (\<lambda>old. if decision_key old = decision_key r then r else old) rows) =
    (if k = decision_key r \<and> decision_key r \<in> set (map decision_key rows) then Some r
     else List.find (\<lambda>r'. decision_key r' = k) rows)"
    by (induction rows) auto
  with True show ?thesis by (simp only: lookup_decision_def upsert_decision_def) simp
next
  case False
  then have "List.find (\<lambda>r'. decision_key r' = decision_key r) rows = None"
    by (auto simp: find_None_iff image_iff dest: sym)
  with False show ?thesis
    by (simp add: lookup_decision_def upsert_decision_def find_append split: option.splits)
qed

text \<open>With unique keys the expiry test can be made after the lookup.\<close>

lemma find_live:
  assumes "keys_unique rows"
  shows "List.find (live_row now p fp) rows =
    (case lookup_decision rows (p, fp) of
       None \<Rightarrow> None | Some r \<Rightarrow> if live_row now p fp r then Some r else None)"
  using assms
proof (induction rows)
  case (Cons r rows)
  have none: "lookup_decision rows (p, fp) = None" if "decision_key r = (p, fp)"
    using that Cons.prems by (auto simp: keys_unique_def lookup_decision_def find_None_iff rev_image_eqI)
  have "live_row now p fp r \<Longrightarrow> decision_key r = (p, fp)" by (simp add: live_row_def decision_key_def)
  with Cons none show ?case
    by (auto simp: keys_unique_def lookup_decision_def split: option.splits)
qed (simp add: lookup_decision_def)

subsection \<open>What the tier answers\<close>

lemma cache_never_knock: "rq_action rq = ''knock'' \<Longrightarrow> cache_decide sha env db rq = (Some Escalate, db)"
  by (simp add: cache_decide_def)

lemma cache_never_denied: "has_denied (rq_footprint rq) \<Longrightarrow> cache_decide sha env db rq = (Some Escalate, db)"
  by (simp add: cache_decide_def)

lemma cache_hit:
  assumes "\<not> has_denied (rq_footprint rq)" "rq_action rq \<noteq> ''knock''"
    and "db_decisions db = Some rows" "keys_unique rows"
    and "lookup_decision rows (rq_peer rq,
           statement_fingerprint sha (rq_action rq) (rq_statement rq) (rq_footprint rq)) = Some r"
    and "case dr_expires_at r of None \<Rightarrow> True | Some e \<Rightarrow> f_less (env_now env) e"
  shows "cache_decide sha env db rq =
    (Some (if dr_decision r = ''allow'' then Allow
           else if dr_decision r = ''deny''
           then Deny (case dr_reason r of None \<Rightarrow> ''denied by remembered decision'' | Some t \<Rightarrow> t)
           else Escalate), db)"
proof -
  have "decision_key r = (rq_peer rq,
      statement_fingerprint sha (rq_action rq) (rq_statement rq) (rq_footprint rq))"
    using assms(5) by (auto simp: lookup_decision_def find_Some_iff)
  with assms(6) have "live_row (env_now env) (rq_peer rq)
      (statement_fingerprint sha (rq_action rq) (rq_statement rq) (rq_footprint rq)) r"
    by (simp add: live_row_def decision_key_def)
  with assms show ?thesis by (simp add: cache_decide_def Let_def find_live)
qed

lemma cache_miss:
  assumes "db_decisions db = Some rows" "keys_unique rows"
    and "lookup_decision rows (rq_peer rq,
           statement_fingerprint sha (rq_action rq) (rq_statement rq) (rq_footprint rq)) = None"
  shows "cache_decide sha env db rq = (Some Escalate, db)"
  using assms by (simp add: cache_decide_def Let_def find_live)

end
