(* ===== verification/Policy.thy ===== *)
theory Policy
  imports Chain
begin

text \<open>
  The policy tier (\<open>crates/authenticator/src/policy.rs\<close>): rules of the \<open>_policy\<close> table,
  the most specific first, denial winning among equals.
\<close>

text \<open>Creating the table leaves an existing one as it is.\<close>

definition ensure_policy_table :: "auth_db \<Rightarrow> auth_db" where
  "ensure_policy_table db =
     (case db_policy db of None \<Rightarrow> db\<lparr>db_policy := Some []\<rparr> | Some _ \<Rightarrow> db)"

datatype resolved = RAllow | RDeny | Unmatched

definition rule_matches :: "string \<Rightarrow> string \<Rightarrow> string \<Rightarrow> policy_row \<Rightarrow> bool" where
  "rule_matches peer table action r \<longleftrightarrow>
     po_action r = action \<and> (po_peer r = peer \<or> po_peer r = ''*'')
     \<and> (po_table r = table \<or> po_table r = ''*'')"

definition score :: "policy_row \<Rightarrow> nat" where
  "score r = (if po_peer r \<noteq> ''*'' then 1 else 0) * 2 + (if po_table r \<noteq> ''*'' then 1 else 0)"

definition better :: "(nat \<times> bool) option \<Rightarrow> policy_row \<Rightarrow> (nat \<times> bool) option" where
  "better best r =
     (let sc = score r; is_allow = (po_effect r = ''allow'')
      in case best of
           None \<Rightarrow> Some (sc, is_allow)
         | Some (s, a) \<Rightarrow>
             if s < sc then Some (sc, is_allow)
             else if sc = s then Some (s, a \<and> is_allow)
             else Some (s, a))"

definition resolve :: "auth_db \<Rightarrow> string \<Rightarrow> string \<Rightarrow> string \<Rightarrow> resolved option" where
  "resolve db peer table action =
     (case db_policy db of
        None \<Rightarrow> None
      | Some rows \<Rightarrow>
          Some (case foldl better None (filter (rule_matches peer table action) rows) of
                  None \<Rightarrow> Unmatched
                | Some (_, True) \<Rightarrow> RAllow
                | Some (_, False) \<Rightarrow> RDeny))"

text \<open>The loop over the resources of a request, \<open>unmatched\<close> carried along.\<close>

fun check_resources :: "auth_db \<Rightarrow> string \<Rightarrow> string \<Rightarrow> string list \<Rightarrow> bool \<Rightarrow> decision" where
  "check_resources db peer action [] unmatched = (if unmatched then Escalate else Allow)"
| "check_resources db peer action (t # ts) unmatched =
     (case resolve db peer t action of
        Some RAllow \<Rightarrow> check_resources db peer action ts unmatched
      | Some RDeny \<Rightarrow>
          Deny (''policy: '' @ action @ '' on '' @ t @ '' denied for '' @ peer)
      | Some Unmatched \<Rightarrow> check_resources db peer action ts True
      | None \<Rightarrow> Escalate)"

definition policy_decide :: tier where
  "policy_decide env db rq =
     (let f = rq_footprint rq
      in if has_denied f
         then (Some (Deny (''policy: statement uses denied constructs: '' @ join '', '' (fp_denied f))), db)
         else
           let resources = (if is_empty f then [''*''] else map fst (fp_tables f))
           in (Some (check_resources db (rq_peer rq) (rq_action rq) resources False), db))"

subsection \<open>Most specific first, denial among equals\<close>

definition top_score :: "policy_row list \<Rightarrow> nat" where
  "top_score rows = Max (score ` set rows)"

text \<open>The rules that decide: those of the highest score among the matching ones.\<close>

definition deciding :: "policy_row list \<Rightarrow> string \<Rightarrow> string \<Rightarrow> string \<Rightarrow> policy_row set" where
  "deciding rows peer table action =
     {r \<in> set rows. rule_matches peer table action r
        \<and> (\<forall>r' \<in> set rows. rule_matches peer table action r' \<longrightarrow> score r' \<le> score r)}"

lemma foldl_better:
  "rows \<noteq> [] \<Longrightarrow> foldl better None rows =
     Some (top_score rows, \<forall>r \<in> set rows. score r = top_score rows \<longrightarrow> po_effect r = ''allow'')"
proof (induction rows rule: rev_induct)
  case (snoc r rows)
  show ?case
  proof (cases "rows = []")
    case True
    then show ?thesis by (simp add: better_def Let_def top_score_def)
  next
    case False
    then have m: "top_score (rows @ [r]) = max (score r) (top_score rows)"
      by (simp add: top_score_def)
    have le: "\<And>x. x \<in> set rows \<Longrightarrow> score x \<le> top_score rows"
      using False by (simp add: top_score_def)
    show ?thesis
      using snoc.IH [OF False] m le
      by (auto simp: better_def Let_def max_def) force+
  qed
qed simp

lemma deciding_top:
  assumes "filter (rule_matches peer table action) rows = ms"
  shows "deciding rows peer table action = {r \<in> set ms. score r = top_score ms}"
proof -
  have s: "set ms = {r \<in> set rows. rule_matches peer table action r}" using assms by auto
  show ?thesis
  proof (intro set_eqI iffI)
    fix r assume r: "r \<in> deciding rows peer table action"
    then have "r \<in> set ms" "\<And>x. x \<in> set ms \<Longrightarrow> score x \<le> score r"
      by (auto simp: deciding_def s)
    then have "score r = top_score ms" unfolding top_score_def
      by (intro Max_eqI [symmetric]) auto
    with \<open>r \<in> set ms\<close> show "r \<in> {r \<in> set ms. score r = top_score ms}" by simp
  next
    fix r assume r: "r \<in> {r \<in> set ms. score r = top_score ms}"
    then have "\<And>x. x \<in> set ms \<Longrightarrow> score x \<le> score r" by (auto simp: top_score_def)
    with r show "r \<in> deciding rows peer table action" by (auto simp: deciding_def s)
  qed
qed

lemma deciding_empty: "deciding rows peer table action = {} \<longleftrightarrow> filter (rule_matches peer table action) rows = []"
proof -
  define ms where "ms = filter (rule_matches peer table action) rows"
  have "\<exists>r \<in> set ms. score r = top_score ms" if "ms \<noteq> []"
  proof -
    have "Max (score ` set ms) \<in> score ` set ms" using that by (intro Max_in) auto
    then show ?thesis by (auto simp: top_score_def)
  qed
  then show ?thesis using deciding_top [OF ms_def [symmetric]] by (auto simp: ms_def [symmetric])
qed

lemma resolve_spec:
  assumes "db_policy db = Some rows"
  shows "resolve db peer table action = Some
    (if deciding rows peer table action = {} then Unmatched
     else if \<forall>r \<in> deciding rows peer table action. po_effect r = ''allow'' then RAllow else RDeny)"
proof -
  define ms where "ms = filter (rule_matches peer table action) rows"
  note top = deciding_top [OF ms_def [symmetric]] and emp = deciding_empty [of rows peer table action]
  show ?thesis
    using assms foldl_better [of ms] emp
    by (cases "ms = []") (auto simp: resolve_def top ms_def [symmetric] split: bool.splits)
qed

text \<open>The whole tier: how it answers a list of resources.\<close>

lemma check_resources_Allow:
  "check_resources db peer action ts u = Allow \<longleftrightarrow>
     \<not> u \<and> (\<forall>t \<in> set ts. resolve db peer t action = Some RAllow)"
  by (induction ts arbitrary: u) (auto split: option.splits resolved.splits)

lemma check_resources_Deny:
  assumes "db_policy db \<noteq> None"
  shows "(\<exists>r. check_resources db peer action ts u = Deny r) \<longleftrightarrow>
    (\<exists>t \<in> set ts. resolve db peer t action = Some RDeny)"
proof -
  have some: "resolve db peer t action \<noteq> None" for t
    using assms by (auto simp: resolve_def)
  show ?thesis
  proof (induction ts arbitrary: u)
    case (Cons t ts)
    obtain x where "resolve db peer t action = Some x" using some [of t] by auto
    with Cons show ?case by (cases x) auto
  qed simp
qed

lemma check_resources_not_narrowed: "check_resources db peer action ts u \<noteq> AllowNarrowed s"
  by (induction ts arbitrary: u) (auto split: option.splits resolved.splits)

lemma policy_denied: "has_denied (rq_footprint rq) \<Longrightarrow> \<exists>r. policy_decide env db rq = (Some (Deny r), db)"
  by (simp add: policy_decide_def Let_def)

end
