(* ===== verification/Human.thy ===== *)
theory Human
  imports Cache Policy
begin

text \<open>
  The human tier and the answers to its inbox (\<open>crates/authenticator/src/human.rs\<close>).

  Parameters: the hash, \<open>serde_json\<close> on the parked parameters, and SQLite's
  \<open>json_extract(params, '$.fingerprint')\<close>, whose outer \<open>None\<close> is an error and whose inner
  \<open>None\<close> is \<open>NULL\<close>. Each statement is committed on its own, so a failing call leaves what
  the earlier ones wrote.
\<close>

definition PENDING_REASON :: string where
  "PENDING_REASON = ''pending human decision''"

record parked_params =
  pp_action :: string
  pp_fingerprint :: string
  pp_footprint :: footprint

record human_ext =
  hx_sha :: "byte list \<Rightarrow> byte list"
  hx_encode :: "parked_params \<Rightarrow> string option"
  hx_decode :: "string \<Rightarrow> parked_params option"
  hx_fingerprint :: "string \<Rightarrow> string option option"

text \<open>The scan for a pending row of the same shape: \<open>None\<close> is an error of the query.\<close>

fun find_pending ::
  "(string \<Rightarrow> string option option) \<Rightarrow> string \<Rightarrow> string \<Rightarrow> inbox_row list \<Rightarrow> bool option" where
  "find_pending extract peer fp [] = Some False"
| "find_pending extract peer fp (r # rows) =
     (if ib_peer r = peer \<and> ib_decision r = None \<and> ib_sql r \<noteq> []
      then (case extract (ib_params r) of
              None \<Rightarrow> None
            | Some v \<Rightarrow> if v = Some fp then Some True else find_pending extract peer fp rows)
      else find_pending extract peer fp rows)"

definition insert_inbox :: "inbox_row \<Rightarrow> auth_db \<Rightarrow> auth_db option" where
  "insert_inbox r db =
     (case db_inbox db of
        None \<Rightarrow> None
      | Some rows \<Rightarrow>
          if ib_request_id r \<in> set (map ib_request_id rows) then None
          else Some (db\<lparr>db_inbox := Some (rows @ [r])\<rparr>))"

definition parked_row :: "call_env \<Rightarrow> auth_request \<Rightarrow> string \<Rightarrow> inbox_row" where
  "parked_row env rq params =
     \<lparr>ib_request_id = env_ulid env, ib_peer = rq_peer rq, ib_sql = rq_statement rq,
      ib_params = params, ib_decision = None, ib_decided_by = None,
      ib_received_at = rfc3339 (env_secs env)\<rparr>"

definition request_fingerprint :: "human_ext \<Rightarrow> auth_request \<Rightarrow> string" where
  "request_fingerprint hx rq =
     statement_fingerprint (hx_sha hx) (rq_action rq) (rq_statement rq) (rq_footprint rq)"

definition park_params :: "human_ext \<Rightarrow> auth_request \<Rightarrow> parked_params" where
  "park_params hx rq =
     \<lparr>pp_action = rq_action rq, pp_fingerprint = request_fingerprint hx rq,
      pp_footprint = rq_footprint rq\<rparr>"

definition human_decide :: "human_ext \<Rightarrow> tier" where
  "human_decide hx env db rq =
     (if rq_statement rq = [] \<or> rq_action rq = ''knock'' then (Some Escalate, db)
      else if has_denied (rq_footprint rq) then (Some Escalate, db)
      else
        let fp = request_fingerprint hx rq
        in case (case db_inbox db of
                   None \<Rightarrow> None
                 | Some rows \<Rightarrow> find_pending (hx_fingerprint hx) (rq_peer rq) fp rows) of
             Some True \<Rightarrow> (Some (Deny PENDING_REASON), db)
           | None \<Rightarrow> (Some Escalate, db)
           | Some False \<Rightarrow>
               (case hx_encode hx (park_params hx rq) of
                  None \<Rightarrow> (Some Escalate, db)
                | Some params \<Rightarrow>
                    (case insert_inbox (parked_row env rq params) db of
                       Some db' \<Rightarrow> (Some (Deny PENDING_REASON), db')
                     | None \<Rightarrow> (Some Escalate, db))))"

subsection \<open>Answers\<close>

record inbox_answer =
  ia_peer :: string
  ia_knock :: bool
  ia_remembered :: "string list"
  ia_granted :: "string list"

datatype answer_error =
    NoInboxRow string
  | AlreadyDecided string string
  | UnreadableParams string
  | BadGrant string
  | DatabaseError

definition mark_decided :: "string \<Rightarrow> string \<Rightarrow> inbox_row list \<Rightarrow> inbox_row list" where
  "mark_decided i d rows =
     map (\<lambda>r. if ib_request_id r = i then r\<lparr>ib_decision := Some d, ib_decided_by := Some ''human''\<rparr> else r)
       rows"

definition insert_peer :: "peer_row \<Rightarrow> auth_db \<Rightarrow> auth_db option" where
  "insert_peer r db =
     (case db_peers db of
        None \<Rightarrow> None
      | Some rows \<Rightarrow>
          if pe_endpoint_id r \<in> set (map pe_endpoint_id rows) then Some db
          else Some (db\<lparr>db_peers := Some (rows @ [r])\<rparr>))"

definition insert_policy :: "policy_row \<Rightarrow> auth_db \<Rightarrow> auth_db option" where
  "insert_policy r db =
     (case db_policy db of None \<Rightarrow> None | Some rows \<Rightarrow> Some (db\<lparr>db_policy := Some (rows @ [r])\<rparr>))"

text \<open>The insertion of a grant, unless the same allow rule is there.\<close>

definition grant_policy :: "policy_row \<Rightarrow> auth_db \<Rightarrow> auth_db option" where
  "grant_policy r db =
     (case db_policy db of
        None \<Rightarrow> None
      | Some rows \<Rightarrow>
          if list_ex (\<lambda>o'. po_peer o' = po_peer r \<and> po_table o' = po_table r
                \<and> po_action o' = po_action r \<and> po_effect o' = ''allow'') rows
          then Some db else Some (db\<lparr>db_policy := Some (rows @ [r])\<rparr>))"

fun write_grants ::
  "string \<Rightarrow> string \<Rightarrow> string list \<Rightarrow> auth_db \<Rightarrow> string list
    \<Rightarrow> (answer_error, string list) result \<times> auth_db" where
  "write_grants peer i [] db granted = (Inr granted, db)"
| "write_grants peer i (g # gs) db granted =
     (case split_once (CHR ''='') g of
        None \<Rightarrow> (Inl (BadGrant g), db)
      | Some (table, action) \<Rightarrow>
          (case grant_policy
                  \<lparr>po_peer = peer, po_table = table, po_action = action, po_effect = ''allow'',
                   po_note = Some (''granted with inbox answer '' @ i)\<rparr> db of
             None \<Rightarrow> (Inl DatabaseError, db)
           | Some db' \<Rightarrow> write_grants peer i gs db' (granted @ [g])))"

fun remember_tables ::
  "string \<Rightarrow> string \<Rightarrow> string \<Rightarrow> string \<Rightarrow> string list \<Rightarrow> auth_db \<Rightarrow> string list
    \<Rightarrow> (answer_error, string list) result \<times> auth_db" where
  "remember_tables peer i action effect [] db done' = (Inr done', db)"
| "remember_tables peer i action effect (t # ts) db done' =
     (case insert_policy
             \<lparr>po_peer = peer, po_table = t, po_action = action, po_effect = effect,
              po_note = Some (''remembered from inbox '' @ i)\<rparr> db of
        None \<Rightarrow> (Inl DatabaseError, db)
      | Some db' \<Rightarrow> remember_tables peer i action effect ts db' (done' @ [t]))"

text \<open>After the row is marked: a knock admits the peer, a statement feeds the cache.\<close>

definition answer_knock ::
  "call_env \<Rightarrow> auth_db \<Rightarrow> string \<Rightarrow> string \<Rightarrow> bool \<Rightarrow> string list
    \<Rightarrow> (answer_error, inbox_answer) result \<times> auth_db" where
  "answer_knock env db i peer allow grants =
     (if allow then
        (case insert_peer
                \<lparr>pe_endpoint_id = peer, pe_added_at = rfc3339 (env_secs env),
                 pe_notes = Some (''admitted via inbox '' @ i)\<rparr> db of
           None \<Rightarrow> (Inl DatabaseError, db)
         | Some db1 \<Rightarrow>
             (case write_grants peer i grants db1 [] of
                (Inl e, db2) \<Rightarrow> (Inl e, db2)
              | (Inr granted, db2) \<Rightarrow>
                  (Inr \<lparr>ia_peer = peer, ia_knock = True, ia_remembered = [], ia_granted = granted\<rparr>, db2)))
      else (Inr \<lparr>ia_peer = peer, ia_knock = True, ia_remembered = [], ia_granted = []\<rparr>, db))"

definition answer_statement ::
  "call_env \<Rightarrow> auth_db \<Rightarrow> string \<Rightarrow> string \<Rightarrow> parked_params \<Rightarrow> bool \<Rightarrow> bool \<Rightarrow> string list
    \<Rightarrow> (answer_error, inbox_answer) result \<times> auth_db" where
  "answer_statement env db i peer parked allow remember grants =
     (let decision_str = (if allow then ''allow'' else ''deny'')
      in case record_decision env db peer (pp_fingerprint parked) decision_str
                (Some (''answered from _inbox '' @ i)) ''human'' None of
           None \<Rightarrow> (Inl DatabaseError, db)
         | Some db1 \<Rightarrow>
             (case (if remember then
                      remember_tables peer i (pp_action parked) decision_str
                        (if fp_tables (pp_footprint parked) = [] then [''*'']
                         else map fst (fp_tables (pp_footprint parked))) db1 []
                    else (Inr [], db1)) of
                (Inl e, db2) \<Rightarrow> (Inl e, db2)
              | (Inr remembered, db2) \<Rightarrow>
                  (case (if allow then write_grants peer i grants db2 [] else (Inr [], db2)) of
                     (Inl e, db3) \<Rightarrow> (Inl e, db3)
                   | (Inr granted, db3) \<Rightarrow>
                       (Inr \<lparr>ia_peer = peer, ia_knock = False, ia_remembered = remembered,
                             ia_granted = granted\<rparr>, db3))))"

definition answer_inbox ::
  "human_ext \<Rightarrow> call_env \<Rightarrow> auth_db \<Rightarrow> string \<Rightarrow> bool \<Rightarrow> bool \<Rightarrow> string list
    \<Rightarrow> (answer_error, inbox_answer) result \<times> auth_db" where
  "answer_inbox hx env db i allow remember grants =
     (case db_inbox db of
        None \<Rightarrow> (Inl DatabaseError, db)
      | Some rows \<Rightarrow>
          (case List.find (\<lambda>r. ib_request_id r = i) rows of
             None \<Rightarrow> (Inl (NoInboxRow i), db)
           | Some r \<Rightarrow>
               (case ib_decision r of
                  Some d \<Rightarrow> (Inl (AlreadyDecided i d), db)
                | None \<Rightarrow>
                    let marked = db\<lparr>db_inbox := Some (mark_decided i
                          (if allow then ''allow'' else ''deny'') rows)\<rparr>
                    in if ib_sql r = [] then answer_knock env marked i (ib_peer r) allow grants
                       else (case hx_decode hx (ib_params r) of
                               None \<Rightarrow> (Inl (UnreadableParams i), db)
                             | Some parked \<Rightarrow>
                                 answer_statement env marked i (ib_peer r) parked allow remember grants))))"

subsection \<open>What the tier answers\<close>

text \<open>What the model uses of the JSON libraries: a parked row reads back, and its fingerprint
  can be extracted.\<close>

definition json_law :: "human_ext \<Rightarrow> bool" where
  "json_law hx \<longleftrightarrow>
     (\<forall>p. \<exists>j. hx_encode hx p = Some j \<and> hx_decode hx j = Some p
        \<and> hx_fingerprint hx j = Some (Some (pp_fingerprint p)))"

lemma human_answers:
  "fst (human_decide hx env db rq) \<in> {Some Escalate, Some (Deny PENDING_REASON)}"
  by (auto simp: human_decide_def Let_def split: option.splits bool.splits)

lemma human_keeps_other_tables:
  "human_decide hx env db rq = (a, db') \<Longrightarrow> db' = db\<lparr>db_inbox := db_inbox db'\<rparr>"
  by (auto simp: human_decide_def Let_def insert_inbox_def split: option.splits bool.splits if_splits)

text \<open>The pending rows of a peer and a shape.\<close>

definition pending_row :: "human_ext \<Rightarrow> string \<Rightarrow> string \<Rightarrow> inbox_row \<Rightarrow> bool" where
  "pending_row hx peer fp r \<longleftrightarrow>
     ib_peer r = peer \<and> ib_decision r = None \<and> ib_sql r \<noteq> []
     \<and> hx_fingerprint hx (ib_params r) = Some (Some fp)"

definition pending_count :: "human_ext \<Rightarrow> auth_db \<Rightarrow> string \<Rightarrow> string \<Rightarrow> nat" where
  "pending_count hx db peer fp =
     (case db_inbox db of None \<Rightarrow> 0 | Some rows \<Rightarrow> length (filter (pending_row hx peer fp) rows))"

lemma find_pending_False:
  "find_pending (hx_fingerprint hx) peer fp rows = Some False \<Longrightarrow>
     filter (pending_row hx peer fp) rows = []"
  by (induction rows) (auto simp: pending_row_def split: if_splits option.splits)

lemma find_pending_True:
  "find_pending (hx_fingerprint hx) peer fp rows = Some True \<Longrightarrow>
     filter (pending_row hx peer fp) rows \<noteq> []"
  by (induction rows) (auto simp: pending_row_def split: if_splits option.splits)

text \<open>
  The inbox invariant: request identifiers are unique, the parameters of pending statement
  rows are readable, and no peer has two pending rows of one shape.
\<close>

definition inbox_ok :: "human_ext \<Rightarrow> auth_db \<Rightarrow> bool" where
  "inbox_ok hx db \<longleftrightarrow>
     (case db_inbox db of
        None \<Rightarrow> True
      | Some rows \<Rightarrow>
          distinct (map ib_request_id rows)
          \<and> (\<forall>peer fp. length (filter (pending_row hx peer fp) rows) \<le> 1))"

lemma human_cases:
  assumes "human_decide hx env db rq = (a, db')"
  obtains (escalates) "a = Some Escalate" "db' = db"
    | (waits) rows where "a = Some (Deny PENDING_REASON)" "db' = db" "db_inbox db = Some rows"
        "find_pending (hx_fingerprint hx) (rq_peer rq) (request_fingerprint hx rq) rows = Some True"
    | (parks) rows params where "a = Some (Deny PENDING_REASON)" "db_inbox db = Some rows"
        "find_pending (hx_fingerprint hx) (rq_peer rq) (request_fingerprint hx rq) rows = Some False"
        "hx_encode hx (park_params hx rq) = Some params" "env_ulid env \<notin> set (map ib_request_id rows)"
        "rq_statement rq \<noteq> []"
        "db' = db\<lparr>db_inbox := Some (rows @ [parked_row env rq params])\<rparr>"
proof (cases "rq_statement rq = [] \<or> rq_action rq = ''knock'' \<or> has_denied (rq_footprint rq)")
  case True
  then have "human_decide hx env db rq = (Some Escalate, db)"
    by (elim disjE) (simp_all add: human_decide_def)
  then show thesis using assms escalates by simp
next
  case False
  then have skip: "rq_statement rq \<noteq> []" "rq_action rq \<noteq> ''knock''" "\<not> has_denied (rq_footprint rq)"
    by simp_all
  define found where "found = (case db_inbox db of None \<Rightarrow> None
    | Some rows \<Rightarrow> find_pending (hx_fingerprint hx) (rq_peer rq) (request_fingerprint hx rq) rows)"
  have step: "(a, db') = (case found of
      Some True \<Rightarrow> (Some (Deny PENDING_REASON), db)
    | None \<Rightarrow> (Some Escalate, db)
    | Some False \<Rightarrow>
        (case hx_encode hx (park_params hx rq) of
           None \<Rightarrow> (Some Escalate, db)
         | Some params \<Rightarrow>
             (case insert_inbox (parked_row env rq params) db of
                Some db' \<Rightarrow> (Some (Deny PENDING_REASON), db')
              | None \<Rightarrow> (Some Escalate, db))))"
    using assms skip by (simp add: human_decide_def Let_def found_def)
  show thesis
  proof (cases found)
    case None
    then show thesis using step escalates by simp
  next
    case (Some b)
    then obtain rows where rows: "db_inbox db = Some rows"
      "find_pending (hx_fingerprint hx) (rq_peer rq) (request_fingerprint hx rq) rows = Some b"
      by (auto simp: found_def split: option.splits)
    show thesis
    proof (cases b)
      case True
      then show thesis using step Some rows waits by simp
    next
      case False
      show thesis
      proof (cases "hx_encode hx (park_params hx rq)")
        case None
        then show thesis using step Some False escalates by simp
      next
        case (Some params)
        note p = this
        show thesis
        proof (cases "env_ulid env \<in> set (map ib_request_id rows)")
          case True
          then have "insert_inbox (parked_row env rq params) db = None"
            using rows by (simp add: insert_inbox_def parked_row_def)
          then show thesis using step \<open>found = Some b\<close> False p escalates by simp
        next
          case fresh: False
          then have "insert_inbox (parked_row env rq params) db =
            Some (db\<lparr>db_inbox := Some (rows @ [parked_row env rq params])\<rparr>)"
            using rows by (simp add: insert_inbox_def parked_row_def)
          then show thesis using step \<open>found = Some b\<close> False p rows fresh skip(1) parks by simp
        qed
      qed
    qed
  qed
qed

lemma parked_fingerprint:
  "json_law hx \<Longrightarrow> hx_encode hx (park_params hx rq) = Some params \<Longrightarrow>
     hx_fingerprint hx params = Some (Some (request_fingerprint hx rq))
     \<and> hx_decode hx params = Some (park_params hx rq)"
  unfolding json_law_def by (metis option.inject park_params_def parked_params.select_convs(2))

lemma pending_parked:
  assumes "json_law hx" "hx_encode hx (park_params hx rq) = Some params" "rq_statement rq \<noteq> []"
  shows "pending_row hx peer fp (parked_row env rq params) \<longleftrightarrow>
    peer = rq_peer rq \<and> fp = request_fingerprint hx rq"
  using parked_fingerprint [OF assms(1,2)] assms(3) by (auto simp: pending_row_def parked_row_def)

lemma human_inbox_ok:
  assumes law: "json_law hx" and ok: "inbox_ok hx db"
    and step: "human_decide hx env db rq = (a, db')"
  shows "inbox_ok hx db'"
  using step
proof (cases rule: human_cases)
  case (parks rows params)
  have none: "filter (pending_row hx (rq_peer rq) (request_fingerprint hx rq)) rows = []"
    using find_pending_False [OF parks(3)] .
  have old: "distinct (map ib_request_id rows)" "length (filter (pending_row hx peer fp) rows) \<le> 1" for peer fp
    using ok parks(2) by (simp_all add: inbox_ok_def)
  have "length (filter (pending_row hx peer fp) (rows @ [parked_row env rq params])) \<le> 1" for peer fp
  proof (cases "peer = rq_peer rq \<and> fp = request_fingerprint hx rq")
    case True
    with none show ?thesis by simp
  next
    case False
    with pending_parked [OF law parks(4,6), of peer fp env] old(2) [of peer fp] show ?thesis by simp
  qed
  moreover have "distinct (map ib_request_id (rows @ [parked_row env rq params]))"
    using old(1) parks(5) by (simp add: parked_row_def)
  ultimately show ?thesis by (simp add: inbox_ok_def parks(7))
qed (use ok in simp_all)

text \<open>A request the tier denies is pending, once.\<close>

lemma human_parks:
  assumes law: "json_law hx" and ok: "inbox_ok hx db"
    and step: "human_decide hx env db rq = (Some (Deny r), db')"
  shows "pending_count hx db' (rq_peer rq) (request_fingerprint hx rq) = 1"
proof -
  let ?P = "pending_row hx (rq_peer rq) (request_fingerprint hx rq)"
  from step have "\<exists>rows. db_inbox db' = Some rows \<and> filter ?P rows \<noteq> []"
  proof (cases rule: human_cases)
    case (waits rows)
    then show ?thesis using find_pending_True by blast
  next
    case (parks rows params)
    then show ?thesis using pending_parked [OF law parks(4,6)] by simp
  qed simp
  then obtain rows where rows: "db_inbox db' = Some rows" "filter ?P rows \<noteq> []" by blast
  from human_inbox_ok [OF law ok step] rows have "length (filter ?P rows) \<le> 1"
    by (simp add: inbox_ok_def)
  with rows(2) have "length (filter ?P rows) = 1" by (cases "filter ?P rows") auto
  with rows show ?thesis by (simp add: pending_count_def)
qed

subsection \<open>What an answer does\<close>

lemma remember_tables_ok:
  assumes "db_policy db = Some rules"
  shows "remember_tables peer i action effect ts db done' =
    (Inr (done' @ ts), db\<lparr>db_policy := Some (rules @ map (\<lambda>t.
       \<lparr>po_peer = peer, po_table = t, po_action = action, po_effect = effect,
        po_note = Some (''remembered from inbox '' @ i)\<rparr>) ts)\<rparr>)"
  using assms by (induction ts arbitrary: db rules done') (simp_all add: insert_policy_def)

text \<open>An answer touches only a pending row, and a decided row stays as it is.\<close>

lemma answer_decided:
  assumes "db_inbox db = Some rows" "List.find (\<lambda>r. ib_request_id r = i) rows = Some r"
    and "ib_decision r = Some d"
  shows "answer_inbox hx env db i allow remember grants = (Inl (AlreadyDecided i d), db)"
  using assms by (simp add: answer_inbox_def)

lemma find_by_id:
  assumes "distinct (map ib_request_id rows)" "r \<in> set rows"
  shows "List.find (\<lambda>x. ib_request_id x = ib_request_id r) rows = Some r"
  using assms by (induction rows) (auto simp: rev_image_eqI)

text \<open>The answer to a parked statement, with no grants: the row is decided, the decision is
  remembered, and with \<open>remember\<close> the rules are written.\<close>

lemma answer_parked:
  assumes "json_law hx" "inbox_ok hx db" "db_inbox db = Some rows" "r \<in> set rows"
    and "r = parked_row env0 rq params" "hx_encode hx (park_params hx rq) = Some params"
    and "rq_statement rq \<noteq> []"
    and "db_decisions db = Some ds"
  shows "answer_inbox hx env db (ib_request_id r) allow False [] =
    (Inr \<lparr>ia_peer = rq_peer rq, ia_knock = False, ia_remembered = [], ia_granted = []\<rparr>,
     db\<lparr>db_inbox := Some (mark_decided (ib_request_id r) (if allow then ''allow'' else ''deny'') rows),
        db_decisions := Some (upsert_decision
          \<lparr>dr_peer = rq_peer rq, dr_fingerprint = request_fingerprint hx rq,
           dr_decision = (if allow then ''allow'' else ''deny''),
           dr_reason = Some (''answered from _inbox '' @ ib_request_id r), dr_decided_by = ''human'',
           dr_created_at = rfc3339 (env_secs env), dr_expires_at = None\<rparr> ds)\<rparr>)"
proof -
  have "List.find (\<lambda>x. ib_request_id x = ib_request_id r) rows = Some r"
    using assms(2,3,4) by (intro find_by_id) (simp_all add: inbox_ok_def)
  moreover have "ib_decision r = None" "ib_sql r \<noteq> []" "ib_peer r = rq_peer rq"
    "hx_decode hx (ib_params r) = Some (park_params hx rq)"
    using parked_fingerprint [OF assms(1,6)] assms(5,7) by (simp_all add: parked_row_def)
  ultimately show ?thesis
    using assms(3,8)
    by (simp add: answer_inbox_def Let_def answer_statement_def record_decision_def park_params_def)
qed

end
