(* ===== verification/Authenticator.thy ===== *)
theory Authenticator
  imports Script Human
begin

text \<open>
  The built-in registry (\<open>Chain::with_builtin_tiers\<close> of
  \<open>crates/authenticator/src/chain.rs\<close>) and the properties that span the tiers.
\<close>

record auth_ext =
  ax_config :: config_json
  ax_rhai :: rhai
  ax_human :: human_ext

text \<open>\<open>scripted\<close> is the crate's \<open>script\<close> feature.\<close>

definition with_builtin_tiers :: "auth_ext \<Rightarrow> bool \<Rightarrow> registry" where
  "with_builtin_tiers ax scripted =
     (let c = register ''cache'' (cache_decide (hx_sha (ax_human ax))) chain_new;
          c = register ''policy'' policy_decide c;
          c = (if scripted
               then register ''script'' (script_decide (ax_rhai ax) DEFAULT_MAX_OPERATIONS) c else c)
      in register ''human'' (human_decide (ax_human ax)) c)"

lemma builtin_cases:
  "with_builtin_tiers ax scripted name = Some t \<longleftrightarrow>
     (name = ''cache'' \<and> t = cache_decide (hx_sha (ax_human ax))) \<or>
     (name = ''policy'' \<and> t = policy_decide) \<or>
     (scripted \<and> name = ''script'' \<and> t = script_decide (ax_rhai ax) DEFAULT_MAX_OPERATIONS) \<or>
     (name = ''human'' \<and> t = human_decide (ax_human ax))"
  by (auto simp: with_builtin_tiers_def Let_def register_def chain_new_def)

lemma human_never_lets_through: "fst (human_decide hx env db rq) = Some d \<Longrightarrow> \<not> lets_through d"
  using human_answers [of hx env db rq] by auto

text \<open>No built-in tier but the script tier lets a request with denied constructs through.\<close>

interpretation denied_guard: guarded_chain "with_builtin_tiers ax scripted"
  "filter (\<lambda>n. n \<noteq> ''script'') names" "\<lambda>rq. has_denied (rq_footprint rq)" lets_through
  for ax scripted names
proof unfold_locales
  fix name t rq env db d
  assume "name \<in> set (filter (\<lambda>n. n \<noteq> ''script'') names)"
    "with_builtin_tiers ax scripted name = Some t" "has_denied (rq_footprint rq)"
    "fst (t env db rq) = Some d"
  then consider "d = Escalate" | "fst (policy_decide env db rq) = Some d"
    | "fst (human_decide (ax_human ax) env db rq) = Some d"
    by (auto simp: builtin_cases cache_never_denied)
  then show "\<not> lets_through d"
  proof cases
    case 2
    with policy_denied [OF \<open>has_denied _\<close>, of env db] show ?thesis by auto
  next
    case 3
    then show ?thesis by (rule human_never_lets_through)
  qed simp
qed simp_all

text \<open>Neither the cache nor the human tier lets a knock through.\<close>

interpretation knock_guard: guarded_chain "with_builtin_tiers ax scripted"
  "filter (\<lambda>n. n = ''cache'' \<or> n = ''human'') names" "\<lambda>rq. rq_action rq = ''knock''" lets_through
  for ax scripted names
proof unfold_locales
  fix name t rq env db d
  assume "name \<in> set (filter (\<lambda>n. n = ''cache'' \<or> n = ''human'') names)"
    "with_builtin_tiers ax scripted name = Some t" "rq_action rq = ''knock''"
    "fst (t env db rq) = Some d"
  then consider "d = Escalate" | "fst (human_decide (ax_human ax) env db rq) = Some d"
    by (auto simp: builtin_cases cache_never_knock)
  then show "\<not> lets_through d"
    by cases (auto dest: human_never_lets_through)
qed simp_all

subsection \<open>The answered request\<close>

text \<open>The request is parked, the owner answers, and the cache answers every request of the
  same peer and shape from then on.\<close>

lemma parked_first:
  assumes "pending_count hx db (rq_peer rq) (request_fingerprint hx rq) = 0"
    and "human_decide hx env db rq = (Some (Deny r), db1)"
  obtains rows params where "db_inbox db = Some rows"
    "hx_encode hx (park_params hx rq) = Some params" "rq_statement rq \<noteq> []"
    "env_ulid env \<notin> set (map ib_request_id rows)"
    "db1 = db\<lparr>db_inbox := Some (rows @ [parked_row env rq params])\<rparr>"
  using assms(2)
proof (cases rule: human_cases)
  case (waits rows)
  then have "filter (pending_row hx (rq_peer rq) (request_fingerprint hx rq)) rows \<noteq> []"
    using find_pending_True by blast
  with waits assms(1) show thesis by (simp add: pending_count_def)
next
  case (parks rows params)
  with that show thesis by blast
qed simp

lemma answered_then_cached:
  assumes law: "json_law hx" and ok: "inbox_ok hx db"
    and ds: "db_decisions db = Some ds" "keys_unique ds"
    and fresh: "pending_count hx db (rq_peer rq) (request_fingerprint hx rq) = 0"
    and parked: "human_decide hx env db rq = (Some (Deny r), db1)"
  shows "\<exists>a db2. answer_inbox hx env' db1 (env_ulid env) allow False [] = (Inr a, db2)
    \<and> db_rsntr db2 = db_rsntr db
    \<and> (\<forall>env'' rq'. rq_peer rq' = rq_peer rq \<and> rq_action rq' \<noteq> ''knock''
         \<and> \<not> has_denied (rq_footprint rq')
         \<and> request_fingerprint hx rq' = request_fingerprint hx rq \<longrightarrow>
         cache_decide (hx_sha hx) env'' db2 rq' =
           (Some (if allow then Allow else Deny (''answered from _inbox '' @ env_ulid env)), db2))"
proof -
  obtain rows params where rows: "db_inbox db = Some rows"
    "hx_encode hx (park_params hx rq) = Some params" "rq_statement rq \<noteq> []"
    "env_ulid env \<notin> set (map ib_request_id rows)"
    "db1 = db\<lparr>db_inbox := Some (rows @ [parked_row env rq params])\<rparr>"
    using parked_first [OF fresh parked] .
  let ?r = "parked_row env rq params"
  have id: "ib_request_id ?r = env_ulid env" by (simp add: parked_row_def)
  let ?d = "\<lparr>dr_peer = rq_peer rq, dr_fingerprint = request_fingerprint hx rq,
    dr_decision = (if allow then ''allow'' else ''deny''),
    dr_reason = Some (''answered from _inbox '' @ env_ulid env), dr_decided_by = ''human'',
    dr_created_at = rfc3339 (env_secs env'), dr_expires_at = None\<rparr>"
  define db2 where "db2 = db1\<lparr>db_inbox := Some (mark_decided (env_ulid env)
      (if allow then ''allow'' else ''deny'') (rows @ [?r])), db_decisions := Some (upsert_decision ?d ds)\<rparr>"
  have "inbox_ok hx db1" by (rule human_inbox_ok [OF law ok parked])
  then have "\<exists>a. answer_inbox hx env' db1 (env_ulid env) allow False [] = (Inr a, db2)"
    using answer_parked [OF law, of db1 "rows @ [?r]" ?r env rq params ds env' allow] rows ds
    by (simp add: id db2_def)
  moreover have "cache_decide (hx_sha hx) env'' db2 rq' =
      (Some (if allow then Allow else Deny (''answered from _inbox '' @ env_ulid env)), db2)"
    if "rq_peer rq' = rq_peer rq" "rq_action rq' \<noteq> ''knock''" "\<not> has_denied (rq_footprint rq')"
      "request_fingerprint hx rq' = request_fingerprint hx rq" for env'' rq'
  proof -
    have "lookup_decision (upsert_decision ?d ds) (rq_peer rq', request_fingerprint hx rq') = Some ?d"
      using that by (simp add: lookup_upsert decision_key_def)
    note hit = cache_hit [of rq' db2 "upsert_decision ?d ds" "hx_sha hx" ?d env'',
        folded request_fingerprint_def, OF that(3,2) _ upsert_unique [OF ds(2)] this]
    have "db_decisions db2 = Some (upsert_decision ?d ds)" by (simp add: db2_def)
    from hit [OF this] show ?thesis by simp
  qed
  moreover have "db_rsntr db2 = db_rsntr db" by (simp add: db2_def rows(5))
  ultimately show ?thesis by blast
qed

text \<open>At the level of the chain: \<open>cache\<close> comes first, as configured.\<close>

lemma read_config_cong: "db_rsntr db = db_rsntr db' \<Longrightarrow> read_config j db = read_config j db'"
proof -
  assume "db_rsntr db = db_rsntr db'"
  then have "read_rsntr db = read_rsntr db'" by (simp add: read_rsntr_def fun_eq_iff)
  then show ?thesis by (simp only: read_config_def)
qed

lemma chain_cache_first:
  assumes "read_config (ax_config ax) db = (''cache'' # names, masks)"
    and "cache_decide (hx_sha (ax_human ax)) env db rq = (Some d, db)" "d \<noteq> Escalate"
    and "permitted masks ''cache'' d (rq_action rq)"
  shows "chain_decide (ax_config ax) (with_builtin_tiers ax scripted) env db rq =
    (\<lparr>dc_decision = d, dc_decided_by = ''cache''\<rparr>, db)"
proof -
  have "with_builtin_tiers ax scripted ''cache'' = Some (cache_decide (hx_sha (ax_human ax)))"
    by (simp add: builtin_cases)
  then have "effective (with_builtin_tiers ax scripted) masks env rq ''cache'' db = (d, db)"
    using assms(2,4) by (simp add: effective_def)
  with assms(1,3) show ?thesis
    by (simp add: chain_decide_def run_chain_step split: decision.splits)
qed

subsection \<open>Remembered answers\<close>

lemma score_le: "score r \<le> 3"
  by (simp add: score_def)

lemma score_full: "score r = 3 \<longleftrightarrow> po_peer r \<noteq> ''*'' \<and> po_table r \<noteq> ''*''"
  by (auto simp: score_def)

definition own_rule :: "string \<Rightarrow> string \<Rightarrow> string \<Rightarrow> policy_row \<Rightarrow> bool" where
  "own_rule peer t action r \<longleftrightarrow> po_peer r = peer \<and> po_table r = t \<and> po_action r = action"

lemma own_rule_matches: "own_rule peer t action r \<Longrightarrow> rule_matches peer t action r"
  by (simp add: own_rule_def rule_matches_def)

lemma full_match:
  assumes "peer \<noteq> ''*''" "t \<noteq> ''*''"
  shows "rule_matches peer t action r \<and> score r = 3 \<longleftrightarrow> own_rule peer t action r"
  using assms by (auto simp: own_rule_def rule_matches_def score_full simp del: One_nat_def)

lemma resolve_remembered:
  assumes "db_policy db = Some rules" "peer \<noteq> ''*''" "t \<noteq> ''*''"
    and own: "r0 \<in> set rules" "own_rule peer t action r0"
    and agree: "\<And>r. r \<in> set rules \<Longrightarrow> own_rule peer t action r \<Longrightarrow> po_effect r = ''allow''"
  shows "resolve db peer t action = Some RAllow"
proof -
  have m0: "rule_matches peer t action r0" "score r0 = 3"
    using full_match [OF assms(2,3)] own(2) by blast+
  have "r0 \<in> deciding rules peer t action"
    unfolding deciding_def using m0 own(1) score_le by auto
  moreover have "po_effect r = ''allow''" if "r \<in> deciding rules peer t action" for r
  proof -
    have r: "r \<in> set rules" "rule_matches peer t action r" "score r0 \<le> score r"
      using that m0(1) own(1) unfolding deciding_def by blast+
    then have "score r = 3" using m0(2) score_le [of r] by simp
    with r full_match [OF assms(2,3)] agree show ?thesis by blast
  qed
  ultimately have "deciding rules peer t action \<noteq> {}"
    "\<forall>r \<in> deciding rules peer t action. po_effect r = ''allow''" by blast+
  with resolve_spec [OF assms(1), of peer t action] show ?thesis by simp
qed

lemma remembered_allows:
  assumes "db_policy db = Some rules" "rq_peer rq \<noteq> ''*''"
    and "\<not> has_denied (rq_footprint rq)" "fp_tables (rq_footprint rq) \<noteq> []"
    and "''*'' \<notin> fst ` set (fp_tables (rq_footprint rq))"
    and "\<And>r. r \<in> set rules \<Longrightarrow> po_peer r = rq_peer rq \<Longrightarrow> po_action r = rq_action rq \<Longrightarrow>
      po_effect r = ''allow''"
    and "remember_tables (rq_peer rq) i (rq_action rq) ''allow'' (map fst (fp_tables (rq_footprint rq))) db []
      = (Inr ts, db')"
  shows "policy_decide env db' rq = (Some Allow, db')"
proof -
  let ?new = "map (\<lambda>t. \<lparr>po_peer = rq_peer rq, po_table = t, po_action = rq_action rq,
    po_effect = ''allow'', po_note = Some (''remembered from inbox '' @ i)\<rparr>)
    (map fst (fp_tables (rq_footprint rq)))"
  have db': "db_policy db' = Some (rules @ ?new)"
    using assms(7) remember_tables_ok [OF assms(1)] by auto
  have "resolve db' (rq_peer rq) t (rq_action rq) = Some RAllow"
    if t: "t \<in> fst ` set (fp_tables (rq_footprint rq))" for t
  proof (rule resolve_remembered [OF db' assms(2)])
    show "t \<noteq> ''*''" using assms(5) t by metis
    show "\<lparr>po_peer = rq_peer rq, po_table = t, po_action = rq_action rq,
        po_effect = ''allow'', po_note = Some (''remembered from inbox '' @ i)\<rparr> \<in> set (rules @ ?new)"
      using t by auto
    show "own_rule (rq_peer rq) t (rq_action rq) \<lparr>po_peer = rq_peer rq, po_table = t,
        po_action = rq_action rq, po_effect = ''allow'', po_note = Some (''remembered from inbox '' @ i)\<rparr>"
      by (simp only: own_rule_def policy_row.simps)
    show "po_effect r = ''allow''" if "r \<in> set (rules @ ?new)" "own_rule (rq_peer rq) t (rq_action rq) r" for r
      using that assms(6) unfolding own_rule_def by auto
  qed
  then have "check_resources db' (rq_peer rq) (rq_action rq) (map fst (fp_tables (rq_footprint rq))) False = Allow"
    by (simp add: check_resources_Allow)
  with assms(3,4) show ?thesis by (simp add: policy_decide_def Let_def is_empty_def)
qed

end
