(* ===== verification/Inbox.thy ===== *)
theory Inbox
  imports Human
begin

text \<open>
  The inbox over time: what the requests that reach the human tier and the owner's answers
  do to the \<open>_inbox\<close> table, as a step relation.
\<close>

subsection \<open>What an answer leaves of the inbox\<close>

lemma grant_policy_inbox: "grant_policy r db = Some db' \<Longrightarrow> db_inbox db' = db_inbox db"
  by (auto simp: grant_policy_def split: option.splits if_splits)

lemma insert_policy_inbox: "insert_policy r db = Some db' \<Longrightarrow> db_inbox db' = db_inbox db"
  by (auto simp: insert_policy_def split: option.splits)

lemma insert_peer_inbox: "insert_peer r db = Some db' \<Longrightarrow> db_inbox db' = db_inbox db"
  by (auto simp: insert_peer_def split: option.splits if_splits)

lemma record_decision_inbox:
  "record_decision env db peer fp d r who ttl = Some db' \<Longrightarrow> db_inbox db' = db_inbox db"
  by (auto simp: record_decision_def Let_def split: option.splits)

lemma write_grants_inbox: "db_inbox (snd (write_grants peer i gs db granted)) = db_inbox db"
proof (induction gs arbitrary: db granted)
  case (Cons g gs)
  show ?case
  proof (cases "split_once (CHR ''='') g")
    case (Some p)
    obtain t a where p: "p = (t, a)" by (cases p)
    let ?r = "\<lparr>po_peer = peer, po_table = t, po_action = a, po_effect = ''allow'',
      po_note = Some (''granted with inbox answer '' @ i)\<rparr>"
    show ?thesis
    proof (cases "grant_policy ?r db")
      case None
      with Some p show ?thesis by (simp only: write_grants.simps option.case prod.case snd_conv)
    next
      case (Some db1)
      with \<open>split_once _ g = _\<close> p Cons.IH [of db1 "granted @ [g]"] grant_policy_inbox [OF Some]
      show ?thesis by (simp only: write_grants.simps option.case prod.case)
    qed
  qed simp
qed simp

lemma remember_tables_inbox:
  "db_inbox (snd (remember_tables peer i action effect ts db d)) = db_inbox db"
proof (induction ts arbitrary: db d)
  case (Cons t ts)
  let ?r = "\<lparr>po_peer = peer, po_table = t, po_action = action, po_effect = effect,
    po_note = Some (''remembered from inbox '' @ i)\<rparr>"
  show ?case
  proof (cases "insert_policy ?r db")
    case None
    then show ?thesis by (simp only: remember_tables.simps option.case snd_conv)
  next
    case (Some db1)
    with Cons.IH [of db1 "d @ [t]"] insert_policy_inbox [OF Some] show ?thesis
      by (simp only: remember_tables.simps option.case)
  qed
qed simp

lemma answer_knock_inbox: "db_inbox (snd (answer_knock env db i peer allow grants)) = db_inbox db"
proof (cases allow)
  case True
  define r where "r = \<lparr>pe_endpoint_id = peer, pe_added_at = rfc3339 (env_secs env),
    pe_notes = Some (''admitted via inbox '' @ i)\<rparr>"
  show ?thesis
  proof (cases "insert_peer r db")
    case None
    with True show ?thesis unfolding answer_knock_def r_def [symmetric] by simp
  next
    case (Some db1)
    then show ?thesis
      using True write_grants_inbox [of peer i grants db1 "[]"] insert_peer_inbox [OF Some]
      unfolding answer_knock_def r_def [symmetric] by (auto split: prod.splits sum.splits)
  qed
qed (simp add: answer_knock_def)

lemma answer_statement_inbox:
  "db_inbox (snd (answer_statement env db i peer parked allow remember grants)) = db_inbox db"
proof -
  define effect where "effect = (if allow then ''allow'' else ''deny'')"
  define rec where "rec = record_decision env db peer (pp_fingerprint parked) effect
    (Some (''answered from _inbox '' @ i)) ''human'' None"
  show ?thesis
  proof (cases rec)
    case None
    then show ?thesis
      unfolding answer_statement_def Let_def effect_def [symmetric] rec_def [symmetric] by simp
  next
    case (Some db1)
    then have in1: "db_inbox db1 = db_inbox db" unfolding rec_def by (rule record_decision_inbox)
    define mem where "mem = (if remember then
        remember_tables peer i (pp_action parked) effect
          (if fp_tables (pp_footprint parked) = [] then [''*'']
           else map fst (fp_tables (pp_footprint parked))) db1 []
      else (Inr [], db1))"
    have in2: "db_inbox (snd mem) = db_inbox db" by (simp add: mem_def remember_tables_inbox in1)
    obtain res db2 where mem: "mem = (res, db2)" by (cases mem)
    define gr where "gr = (if allow then write_grants peer i grants db2 [] else (Inr [], db2))"
    have in3: "db_inbox (snd gr) = db_inbox db" using in2 by (simp add: gr_def write_grants_inbox mem)
    have "answer_statement env db i peer parked allow remember grants =
      (case res of Inl e \<Rightarrow> (Inl e, db2)
       | Inr remembered \<Rightarrow> (case gr of
           (Inl e, db3) \<Rightarrow> (Inl e, db3)
         | (Inr granted, db3) \<Rightarrow>
             (Inr \<lparr>ia_peer = peer, ia_knock = False, ia_remembered = remembered, ia_granted = granted\<rparr>, db3)))"
      unfolding answer_statement_def Let_def effect_def [symmetric] rec_def [symmetric] Some
      by (simp only: option.case mem_def [symmetric] mem prod.case gr_def [symmetric])
    with in2 in3 show ?thesis by (cases res; cases gr; cases "fst gr") (auto simp: mem)
  qed
qed

lemma answer_inbox_rows:
  "db_inbox (snd (answer_inbox hx env db i allow remember grants)) = db_inbox db \<or>
    (\<exists>rows d. db_inbox db = Some rows
       \<and> db_inbox (snd (answer_inbox hx env db i allow remember grants)) = Some (mark_decided i d rows))"
proof (cases "db_inbox db")
  case (Some rows)
  define m where "m = db\<lparr>db_inbox := Some (mark_decided i (if allow then ''allow'' else ''deny'') rows)\<rparr>"
  have in_m: "db_inbox m = Some (mark_decided i (if allow then ''allow'' else ''deny'') rows)"
    by (simp add: m_def)
  let ?A = "answer_inbox hx env db i allow remember grants"
  have ins: "db_inbox (snd ?A) \<in> {db_inbox db, db_inbox m}"
    unfolding answer_inbox_def Some option.case Let_def m_def [symmetric]
    by (simp add: Some answer_knock_inbox answer_statement_inbox split: option.split)
  with Some in_m show ?thesis by auto
qed (simp add: answer_inbox_def)

lemma mark_decided_ids: "map ib_request_id (mark_decided i d rows) = map ib_request_id rows"
  by (induction rows) (simp_all add: mark_decided_def)

lemma mark_decided_pending:
  "length (filter (pending_row hx peer fp) (mark_decided i d rows)) \<le> length (filter (pending_row hx peer fp) rows)"
  by (induction rows) (simp_all add: mark_decided_def pending_row_def)

subsection \<open>Steps\<close>

text \<open>A request reaches the human tier, or the owner answers a row; failing calls included.\<close>

inductive inbox_step :: "human_ext \<Rightarrow> auth_db \<Rightarrow> auth_db \<Rightarrow> bool" for hx where
  asked: "human_decide hx env db rq = (a, db') \<Longrightarrow> inbox_step hx db db'"
| answered: "answer_inbox hx env db i allow remember grants = (res, db') \<Longrightarrow> inbox_step hx db db'"

inductive_cases inbox_stepE: "inbox_step hx db db'"

lemma inbox_ok_rows:
  "db_inbox db = Some rows \<Longrightarrow> inbox_ok hx db \<longleftrightarrow> distinct (map ib_request_id rows)
     \<and> (\<forall>peer fp. length (filter (pending_row hx peer fp) rows) \<le> 1)"
  by (simp add: inbox_ok_def)

lemma inbox_ok_cong: "db_inbox db' = db_inbox db \<Longrightarrow> inbox_ok hx db' = inbox_ok hx db"
  by (simp add: inbox_ok_def)

lemma inbox_ok_marked:
  assumes "inbox_ok hx db" "db_inbox db = Some rows" "db_inbox db' = Some (mark_decided i d rows)"
  shows "inbox_ok hx db'"
proof -
  have "length (filter (pending_row hx peer fp) (mark_decided i d rows)) \<le> 1" for peer fp
    using assms(1) mark_decided_pending [of hx peer fp i d rows]
    by (simp only: inbox_ok_rows [OF assms(2)]) (meson le_trans)
  with assms(1) show ?thesis
    by (simp only: inbox_ok_rows [OF assms(2)] inbox_ok_rows [OF assms(3)] mark_decided_ids simp_thms)
qed

lemma inbox_step_ok:
  assumes "inbox_step hx db db'" "json_law hx" "inbox_ok hx db"
  shows "inbox_ok hx db'"
proof -
  from assms(1) consider (asked) env rq a where "human_decide hx env db rq = (a, db')"
    | (answered) env i allow remember grants
      where "db' = snd (answer_inbox hx env db i allow remember grants)"
    by (elim inbox_stepE) (auto, metis snd_conv)
  then show ?thesis
  proof cases
    case asked
    with assms(2,3) show ?thesis by (blast intro: human_inbox_ok)
  next
    case answered
    from answer_inbox_rows [of hx env db i allow remember grants] show ?thesis
      using inbox_ok_cong [of db' db hx] inbox_ok_marked [OF assms(3)] assms(3) unfolding answered by blast
  qed
qed

lemma inbox_steps_ok:
  "(inbox_step hx)\<^sup>*\<^sup>* db db' \<Longrightarrow> json_law hx \<Longrightarrow> inbox_ok hx db \<Longrightarrow> inbox_ok hx db'"
  by (induction rule: rtranclp_induct) (auto intro: inbox_step_ok)

end
