(* ===== verification/Auth_Properties.thy ===== *)
theory Auth_Properties
  imports Authenticator Inbox
begin

text \<open>
  What the authenticator guarantees: the chain, each tier, and the flow from a parked
  request to its remembered answer.
\<close>

subsection \<open>The chain\<close>

text \<open>C16. The chain's outcome is the first answer in the configured order that is
  not an abstention, taken from a registered tier within its authority mask, on the
  database the abstaining tiers before it left; a tier that is not registered, panics,
  escalates or exceeds its mask abstains; when all abstain the answer is the default
  denial.\<close>

theorem chain_first_answer_wins:
  assumes "read_config j db = (names, masks)"
  shows "chain_decide j reg env db rq = (r, db') \<longleftrightarrow>
     (abstain reg masks env rq names db db' \<and> r = default_deny) \<or>
     (\<exists>pre name post db1 d. names = pre @ name # post \<and> abstain reg masks env rq pre db db1
        \<and> effective reg masks env rq name db1 = (d, db') \<and> d \<noteq> Escalate
        \<and> r = \<lparr>dc_decision = d, dc_decided_by = name\<rparr>)"
  using assms run_chain_cases [of reg masks env rq names db r db'] by (simp add: chain_decide_def)

definition empty_db :: auth_db where
  "empty_db =
     \<lparr>db_rsntr = Some [(''auth_chain'', ''c'')], db_policy = Some [], db_scripts = Some [],
      db_decisions = Some [], db_inbox = Some [], db_peers = Some []\<rparr>"

definition sample_json :: config_json where
  "sample_json = \<lparr>json_names = \<lambda>s. if s = ''c'' then Some [''cache'', ''ghost'', ''human''] else None,
                  json_masks = \<lambda>_. None\<rparr>"

definition sample_env :: call_env where
  "sample_env = \<lparr>env_secs = 0, env_now = 0, env_ulid = ''01''\<rparr>"

definition sample_rq :: auth_request where
  "sample_rq = \<lparr>rq_peer = ''p'', rq_action = ''read'',
     rq_footprint = from_tables Read [(''t'', [''a''])], rq_statement = ''SELECT a''\<rparr>"

lemma sample_config: "read_config sample_json empty_db = ([''cache'', ''ghost'', ''human''], \<lambda>_. None)"
  by (simp add: read_config_def read_rsntr_def sample_json_def empty_db_def)

theorem chain_first_answer_wins_witness:
  "chain_decide sample_json (register ''human'' (\<lambda>_ db _. (Some Allow, db)) chain_new) sample_env empty_db sample_rq
     = (\<lparr>dc_decision = Allow, dc_decided_by = ''human''\<rparr>, empty_db)"
proof (rule chain_first_answer_wins [OF sample_config, THEN iffD2], rule disjI2)
  let ?reg = "register ''human'' (\<lambda>_ db _. (Some Allow, db)) chain_new"
  have "abstain ?reg (\<lambda>_. None) sample_env sample_rq [''cache'', ''ghost''] empty_db empty_db"
    by (simp add: abstain_Cons effective_def register_def chain_new_def)
  moreover have "effective ?reg (\<lambda>_. None) sample_env sample_rq ''human'' empty_db = (Allow, empty_db)"
    by (simp add: effective_def register_def permitted_def)
  ultimately show "\<exists>pre name post db1 d. [''cache'', ''ghost'', ''human''] = pre @ name # post
      \<and> abstain ?reg (\<lambda>_. None) sample_env sample_rq pre empty_db db1
      \<and> effective ?reg (\<lambda>_. None) sample_env sample_rq name db1 = (d, empty_db) \<and> d \<noteq> Escalate
      \<and> \<lparr>dc_decision = Allow, dc_decided_by = ''human''\<rparr> = \<lparr>dc_decision = d, dc_decided_by = name\<rparr>"
    by (intro exI [of _ "[''cache'', ''ghost'']"] exI [of _ "''human''"] exI [of _ "[]"]
        exI [of _ empty_db] exI [of _ Allow]) simp
qed

text \<open>Whatever is configured and whatever the tiers do, the chain never answers
  \<open>Escalate\<close>; its answer always has an audit value.\<close>

theorem chain_never_escalates:
  "audit_str (dc_decision (fst (chain_decide j reg env db rq))) \<noteq> None"
  using run_chain_not_Escalate [of reg "snd (read_config j db)" env rq "fst (read_config j db)" db]
  by (cases "dc_decision (fst (chain_decide j reg env db rq))")
     (auto simp: chain_decide_def split: prod.splits)

text \<open>The configuration fails closed: when the chain is missing, or the chain or the
  masks do not parse, no tier is asked and every request gets the default denial.\<close>

theorem bad_config_denies:
  assumes "read_rsntr db ''auth_chain'' = None
    \<or> (\<exists>raw. read_rsntr db ''auth_chain'' = Some raw \<and> json_names j raw = None)
    \<or> (\<exists>raw. read_rsntr db ''auth_masks'' = Some raw \<and> json_masks j raw = None)"
  shows "chain_decide j reg env db rq = (default_deny, db)"
  using assms by (auto simp: chain_decide_def read_config_def split: option.splits prod.splits)

theorem bad_config_denies_witness:
  "chain_decide sample_json (register ''cache'' (\<lambda>_ db _. (Some Allow, db)) chain_new) sample_env
     (empty_db\<lparr>db_rsntr := Some [(''auth_chain'', ''c''), (''auth_masks'', ''oops!'')]\<rparr>) sample_rq
   = (default_deny, empty_db\<lparr>db_rsntr := Some [(''auth_chain'', ''c''), (''auth_masks'', ''oops!'')]\<rparr>)"
  by (rule bad_config_denies) (simp add: read_rsntr_def sample_json_def)

text \<open>C17. Over the built-in tiers, a chain that does not name the script tier
  never lets a request through whose footprint carries a construct the authorizer denied,
  whatever the tables hold and whatever the masks say.\<close>

theorem denied_constructs_never_pass:
  assumes "read_config (ax_config ax) db = (names, masks)" "''script'' \<notin> set names"
    and "has_denied (rq_footprint rq)"
  shows "\<not> lets_through (dc_decision (fst
    (chain_decide (ax_config ax) (with_builtin_tiers ax scripted) env db rq)))"
proof -
  have "filter (\<lambda>n. n \<noteq> ''script'') names = names" using assms(2) by (auto simp: filter_id_conv)
  with denied_guard.chain_fine [OF assms(3), of ax scripted masks env names db] assms(1)
  show ?thesis by (simp add: chain_decide_def)
qed

definition unhex_any :: "string \<Rightarrow> parked_params option" where
  "unhex_any s = None"

definition sample_ax :: auth_ext where
  "sample_ax =
     \<lparr>ax_config = sample_json, ax_rhai = \<lambda>_ _ _. None,
      ax_human = \<lparr>hx_sha = id, hx_encode = \<lambda>_. None, hx_decode = unhex_any, hx_fingerprint = \<lambda>_. None\<rparr>\<rparr>"

theorem denied_constructs_never_pass_witness:
  "\<not> lets_through (dc_decision (fst (chain_decide (ax_config sample_ax) (with_builtin_tiers sample_ax True)
     sample_env empty_db
     (sample_rq\<lparr>rq_footprint := deny_construct (rq_footprint sample_rq) ''attach''\<rparr>))))"
  by (rule denied_constructs_never_pass [where names = "[''cache'', ''ghost'', ''human'']" and masks = "\<lambda>_. None"])
     (simp_all add: sample_ax_def sample_config)

text \<open>A chain over the cache and human tiers alone never lets a knock through: a
  knock is not answered from memory, and a person's answer comes later.\<close>

theorem knock_never_from_memory:
  assumes "read_config (ax_config ax) db = (names, masks)" "set names \<subseteq> {''cache'', ''human''}"
    and "rq_action rq = ''knock''"
  shows "\<not> lets_through (dc_decision (fst
    (chain_decide (ax_config ax) (with_builtin_tiers ax scripted) env db rq)))"
proof -
  have "filter (\<lambda>n. n = ''cache'' \<or> n = ''human'') names = names"
    using assms(2) by (auto simp: filter_id_conv)
  with knock_guard.chain_fine [OF assms(3), of ax scripted masks env names db] assms(1)
  show ?thesis by (simp add: chain_decide_def)
qed

theorem knock_never_from_memory_witness:
  "\<not> lets_through (dc_decision (fst (chain_decide (ax_config sample_ax) (with_builtin_tiers sample_ax True)
     sample_env (empty_db\<lparr>db_rsntr := None\<rparr>) (sample_rq\<lparr>rq_action := ''knock''\<rparr>))))"
  by (rule knock_never_from_memory [where names = "[]" and masks = "\<lambda>_. None"])
     (simp_all add: read_config_def read_rsntr_def)

subsection \<open>The policy tier\<close>

text \<open>A resource is decided by the matching rules of the highest
  specificity alone (peer before table), and it is allowed exactly when all of these say
  allow; the order of the rules does not matter, and without a matching rule the resource
  is unmatched.\<close>

theorem policy_most_specific_wins:
  assumes "db_policy db = Some rows"
  shows "resolve db peer table action = Some
    (if deciding rows peer table action = {} then Unmatched
     else if \<forall>r \<in> deciding rows peer table action. po_effect r = ''allow'' then RAllow else RDeny)"
  using assms by (rule resolve_spec)

definition sample_rules :: "policy_row list" where
  "sample_rules =
     [\<lparr>po_peer = ''*'', po_table = ''*'', po_action = ''read'', po_effect = ''deny'', po_note = None\<rparr>,
      \<lparr>po_peer = ''p'', po_table = ''*'', po_action = ''read'', po_effect = ''allow'', po_note = None\<rparr>]"

lemma sample_deciding: "deciding sample_rules ''p'' ''t'' ''read'' =
    {\<lparr>po_peer = ''p'', po_table = ''*'', po_action = ''read'', po_effect = ''allow'', po_note = None\<rparr>}"
  by (auto simp: deciding_def sample_rules_def rule_matches_def score_def)

theorem policy_most_specific_wins_witness:
  "resolve (empty_db\<lparr>db_policy := Some sample_rules\<rparr>) ''p'' ''t'' ''read'' = Some RAllow"
  using policy_most_specific_wins [of "empty_db\<lparr>db_policy := Some sample_rules\<rparr>" sample_rules "''p''" "''t''" "''read''"]
  by (simp add: sample_deciding)

text \<open>The policy tier allows a request exactly when the footprint has no denied
  construct and every table it touches (the wildcard resource when it touches none)
  resolves to allow.\<close>

theorem policy_allows_only_covered:
  "fst (policy_decide env db rq) = Some Allow \<longleftrightarrow>
     \<not> has_denied (rq_footprint rq)
     \<and> (\<forall>t \<in> (if is_empty (rq_footprint rq) then {''*''} else fst ` set (fp_tables (rq_footprint rq))).
          resolve db (rq_peer rq) t (rq_action rq) = Some RAllow)"
  by (auto simp: policy_decide_def Let_def check_resources_Allow simp del: check_resources.simps)

theorem policy_allows_only_covered_witness:
  "fst (policy_decide sample_env (empty_db\<lparr>db_policy := Some sample_rules\<rparr>) sample_rq) = Some Allow"
proof -
  have t: "fp_tables (rq_footprint sample_rq) = [(''t'', [''a''])]"
    by (simp add: sample_rq_def from_tables_def bset_of_def)
  have "resolve (empty_db\<lparr>db_policy := Some sample_rules\<rparr>) ''p'' ''t'' ''read'' = Some RAllow"
    using resolve_spec [of "empty_db\<lparr>db_policy := Some sample_rules\<rparr>" sample_rules "''p''" "''t''" "''read''"]
    by (simp add: sample_deciding)
  then show ?thesis
    by (subst policy_allows_only_covered)
       (simp add: t is_empty_def, simp add: sample_rq_def has_denied_def from_tables_def)
qed

text \<open>With its table there, the policy tier denies a request exactly when the
  footprint has a denied construct or some table it touches resolves to deny.\<close>

theorem policy_denies_on_any:
  assumes "db_policy db \<noteq> None"
  shows "(\<exists>reason. fst (policy_decide env db rq) = Some (Deny reason)) \<longleftrightarrow>
     has_denied (rq_footprint rq)
     \<or> (\<exists>t \<in> (if is_empty (rq_footprint rq) then {''*''} else fst ` set (fp_tables (rq_footprint rq))).
          resolve db (rq_peer rq) t (rq_action rq) = Some RDeny)"
  by (auto simp: policy_decide_def Let_def check_resources_Deny [OF assms] simp del: check_resources.simps)

theorem policy_denies_on_any_witness:
  "\<exists>reason. fst (policy_decide sample_env empty_db
     (sample_rq\<lparr>rq_footprint := deny_construct (rq_footprint sample_rq) ''attach''\<rparr>)) = Some (Deny reason)"
  by (rule policy_denies_on_any [THEN iffD2]) (simp_all add: empty_db_def)

subsection \<open>Fingerprints\<close>

text \<open>Two requests that differ in one literal, a string or a number in
  either, have the same cache key: the literal stands at the start of the statement or
  after a character that is not part of a word or number, no quote stands before it, and
  the next character does not continue it.\<close>

theorem literals_share_a_fingerprint:
  assumes "plain_start pre" "literal_end post"
    and "string_literal l \<or> number_literal l" "string_literal m \<or> number_literal m"
  shows "statement_fingerprint sha action (pre @ l @ post) f = statement_fingerprint sha action (pre @ m @ post) f"
  using normalize_literal [OF assms] by (simp add: statement_fingerprint_def fingerprint_input_def)

lemma string_literal_plain: "SQ \<notin> set s \<Longrightarrow> string_literal (SQ # s @ [SQ])"
proof -
  assume "SQ \<notin> set s"
  then have "concat (map (\<lambda>c. if c = SQ then [SQ, SQ] else [c]) s) = s" by (induction s) auto
  then show ?thesis unfolding string_literal_def by (intro exI [of _ s]) simp
qed

theorem literals_share_a_fingerprint_witness:
  "statement_fingerprint id ''read'' (''SELECT a FROM t WHERE id = '' @ ''42'' @ '' LIMIT 1'') footprint_default
     = statement_fingerprint id ''read'' (''SELECT a FROM t WHERE id = '' @ (SQ # ''x'' @ [SQ]) @ '' LIMIT 1'') footprint_default"
proof (rule literals_share_a_fingerprint)
  show "plain_start ''SELECT a FROM t WHERE id = ''" "literal_end '' LIMIT 1''"
    "string_literal ''42'' \<or> number_literal ''42''"
    by (simp_all add: plain_start_def literal_end_def number_literal_def num_char_def
       is_alnum_def is_upper_def is_lower_def is_digit_def SQ_def)
  show "string_literal (SQ # ''x'' @ [SQ]) \<or> number_literal (SQ # ''x'' @ [SQ])"
    using string_literal_plain [of "''x''"] by (simp add: SQ_def)
qed

text \<open>When the hash does not collide on the two hashed texts, two requests share
  a cache key only if they have the same action, the same normalized statement, the same
  kind and the same tables and columns: the separators 0 and 1 keep the fields apart.\<close>

theorem fingerprint_determines_shape:
  assumes "inj_on sha {fingerprint_input a s f, fingerprint_input b t g}"
    and "no_byte 0 a" "no_byte 0 b" "no_byte 0 (normalize_statement s)" "no_byte 0 (normalize_statement t)"
    and "clean_footprint f" "clean_footprint g"
  shows "statement_fingerprint sha a s f = statement_fingerprint sha b t g \<longleftrightarrow>
    a = b \<and> normalize_statement s = normalize_statement t \<and> fp_kind f = fp_kind g
    \<and> fp_tables f = fp_tables g"
proof -
  have "sha (fingerprint_input a s f) = sha (fingerprint_input b t g) \<longleftrightarrow>
    fingerprint_input a s f = fingerprint_input b t g"
    by (rule inj_on_eq_iff [OF assms(1)]) simp_all
  with fingerprint_input_inject [OF assms(2-)] show ?thesis
    by (simp only: statement_fingerprint_def hex_pairs_inject)
qed

theorem fingerprint_determines_shape_witness:
  "statement_fingerprint id ''knock'' [] footprint_default \<noteq> statement_fingerprint id ''media'' [] footprint_default"
  using fingerprint_determines_shape [of id "''knock''" "[]" footprint_default "''media''" "[]" footprint_default]
  by (simp add: no_byte_def as_bytes_def byte_of_def normalize_statement_def clean_footprint_def footprint_default_def)

text \<open>The scanner does not know SQL comments: a quote in a line comment opens
  a literal for it, and what stands between that quote and the next is blanked. So a
  statement with a \<open>WHERE\<close> clause and one without it have the same normalized form, and with
  it the same cache key.\<close>

definition limited_query :: string where
  "limited_query = ''SELECT a FROM t --'' @ SQ # [CHR 0x0A] @ ''WHERE a = 1 --'' @ [SQ]"

definition unlimited_query :: string where
  "unlimited_query = ''SELECT a FROM t --'' @ SQ # [CHR 0x0A] @ ''--'' @ [SQ]"


theorem quote_in_comment_hides_clause:
  "statement_fingerprint sha action limited_query f = statement_fingerprint sha action unlimited_query f"
proof -
  have "normalize_statement (''SELECT a FROM t --'' @ (SQ # ([CHR 0x0A] @ ''WHERE a = 1 --'') @ [SQ]) @ []) =
    normalize_statement (''SELECT a FROM t --'' @ (SQ # ([CHR 0x0A] @ ''--'') @ [SQ]) @ [])"
  proof (rule normalize_literal)
    show "plain_start ''SELECT a FROM t --''" "literal_end []"
      by (simp_all add: plain_start_def literal_end_def num_char_def is_alnum_def is_upper_def
          is_lower_def is_digit_def SQ_def)
    show "string_literal (SQ # ([CHR 0x0A] @ ''WHERE a = 1 --'') @ [SQ]) \<or>
        number_literal (SQ # ([CHR 0x0A] @ ''WHERE a = 1 --'') @ [SQ])"
      "string_literal (SQ # ([CHR 0x0A] @ ''--'') @ [SQ]) \<or> number_literal (SQ # ([CHR 0x0A] @ ''--'') @ [SQ])"
      using string_literal_plain [of "[CHR 0x0A] @ ''WHERE a = 1 --''"] string_literal_plain [of "[CHR 0x0A] @ ''--''"]
      by (simp_all add: SQ_def)
  qed
  then show ?thesis
    by (simp add: statement_fingerprint_def fingerprint_input_def limited_query_def unlimited_query_def)
qed

subsection \<open>The cache\<close>

text \<open>The cache tier lets a request through only on a row that says allow, for
  the same peer and fingerprint, that has no expiry or one still ahead; never a knock, never
  a request with denied constructs; and it changes nothing.\<close>

theorem cache_allows_only_remembered:
  assumes "cache_decide sha env db rq = (Some Allow, db')"
  shows "\<exists>rows r. db_decisions db = Some rows \<and> r \<in> set rows \<and> dr_decision r = ''allow''
    \<and> dr_peer r = rq_peer rq
    \<and> dr_fingerprint r = statement_fingerprint sha (rq_action rq) (rq_statement rq) (rq_footprint rq)
    \<and> (case dr_expires_at r of None \<Rightarrow> True | Some e \<Rightarrow> f_less (env_now env) e)
    \<and> rq_action rq \<noteq> ''knock'' \<and> \<not> has_denied (rq_footprint rq) \<and> db' = db"
proof -
  let ?fp = "statement_fingerprint sha (rq_action rq) (rq_statement rq) (rq_footprint rq)"
  from assms have "\<exists>rows r. db_decisions db = Some rows
    \<and> List.find (live_row (env_now env) (rq_peer rq) ?fp) rows = Some r
    \<and> dr_decision r = ''allow'' \<and> rq_action rq \<noteq> ''knock'' \<and> \<not> has_denied (rq_footprint rq) \<and> db' = db"
    unfolding cache_decide_def Let_def by (simp split: if_splits option.splits)
  then obtain rows r where "db_decisions db = Some rows"
    "List.find (live_row (env_now env) (rq_peer rq) ?fp) rows = Some r"
    "dr_decision r = ''allow''" "rq_action rq \<noteq> ''knock''" "\<not> has_denied (rq_footprint rq)" "db' = db" by blast
  moreover from this(2) have "r \<in> set rows" "live_row (env_now env) (rq_peer rq) ?fp r"
    by (auto simp: find_Some_iff)
  ultimately show ?thesis by (auto simp: live_row_def)
qed

definition allow_row :: decision_row where
  "allow_row =
     \<lparr>dr_peer = ''p'', dr_fingerprint = statement_fingerprint (\<lambda>_. []) ''read'' ''SELECT a'' (rq_footprint sample_rq),
      dr_decision = ''allow'', dr_reason = None, dr_decided_by = ''human'', dr_created_at = [], dr_expires_at = None\<rparr>"

lemma sample_cached: "cache_decide (\<lambda>_. []) sample_env (empty_db\<lparr>db_decisions := Some [allow_row]\<rparr>) sample_rq
    = (Some Allow, empty_db\<lparr>db_decisions := Some [allow_row]\<rparr>)"
  by (simp add: cache_decide_def Let_def sample_rq_def live_row_def allow_row_def has_denied_def from_tables_def)

theorem cache_allows_only_remembered_witness:
  "\<exists>r \<in> {allow_row}. dr_decision r = ''allow'' \<and> dr_peer r = rq_peer sample_rq"
  using cache_allows_only_remembered [OF sample_cached] by (auto simp: empty_db_def)

subsection \<open>The inbox\<close>

text \<open>
  A JSON library for the witnesses: the text of the parked parameters is the action, the
  fingerprint and the footprint, each string after its length in unary.
\<close>

definition put_string :: "string \<Rightarrow> string" where
  "put_string s = replicate (length s) (CHR ''1'') @ CHR ''0'' # s"

definition get_string :: "string \<Rightarrow> string \<times> string" where
  "get_string s =
     (let n = length (takeWhile (\<lambda>c. c = CHR ''1'') s)
      in (take n (drop (n + 1) s), drop (n + n + 1) s))"

lemma get_put_string [simp]: "get_string (put_string s @ r) = (s, r)"
proof -
  have "takeWhile (\<lambda>c. c = CHR ''1'') (put_string s @ r) = replicate (length s) (CHR ''1'')"
    by (simp add: put_string_def takeWhile_append)
  then show ?thesis by (simp add: get_string_def Let_def put_string_def)
qed

definition put_list :: "('a \<Rightarrow> string) \<Rightarrow> 'a list \<Rightarrow> string" where
  "put_list f xs = concat (map (\<lambda>x. CHR ''+'' # f x) xs) @ ''.''"

fun get_list :: "nat \<Rightarrow> (string \<Rightarrow> 'a \<times> string) \<Rightarrow> string \<Rightarrow> 'a list \<times> string" where
  "get_list 0 g s = ([], s)"
| "get_list (Suc n) g s =
     (case s of
        [] \<Rightarrow> ([], [])
      | c # r \<Rightarrow>
          if c = CHR ''+'' then
            (case g r of (x, r') \<Rightarrow> case get_list n g r' of (xs, r'') \<Rightarrow> (x # xs, r''))
          else ([], r))"

lemma get_put_list:
  assumes "\<And>x r. g (f x @ r) = (x, r)"
  shows "length xs < n \<Longrightarrow> get_list n g (put_list f xs @ r) = (xs, r)"
proof (induction xs arbitrary: n)
  case Nil
  then show ?case by (cases n) (simp_all add: put_list_def)
next
  case (Cons x xs)
  then obtain m where n: "n = Suc m" "length xs < m" by (cases n) auto
  from Cons.IH [OF n(2)] show ?case by (simp add: n(1) put_list_def assms)
qed

lemma put_list_length: "length xs < length (put_list f xs)"
  by (induction xs) (simp_all add: put_list_def)

definition get_all :: "(string \<Rightarrow> 'a \<times> string) \<Rightarrow> string \<Rightarrow> 'a list \<times> string" where
  "get_all g s = get_list (length s) g s"

lemma get_all_put:
  assumes "\<And>x r. g (f x @ r) = (x, r)"
  shows "get_all g (put_list f xs @ r) = (xs, r)"
  using get_put_list [of g f xs "length (put_list f xs @ r)" r] assms put_list_length [of xs f]
  by (simp add: get_all_def)

definition put_table :: "string \<times> string list \<Rightarrow> string" where
  "put_table p = put_string (fst p) @ put_list put_string (snd p)"

definition get_table :: "string \<Rightarrow> (string \<times> string list) \<times> string" where
  "get_table s = (case get_string s of (t, r) \<Rightarrow> case get_all get_string r of (cs, r') \<Rightarrow> ((t, cs), r'))"

lemma get_put_table: "get_table (put_table p @ r) = (p, r)"
  by (simp add: get_table_def put_table_def get_all_put)

definition put_params :: "parked_params \<Rightarrow> string" where
  "put_params p =
     put_string (pp_action p) @ put_string (pp_fingerprint p)
     @ put_string (kind_as_str (fp_kind (pp_footprint p)))
     @ put_list put_table (fp_tables (pp_footprint p)) @ put_list put_string (fp_denied (pp_footprint p))"

definition kind_of_str :: "string \<Rightarrow> action_kind" where
  "kind_of_str s = (if s = ''read'' then Read else if s = ''write'' then Write else Other)"

definition get_params :: "string \<Rightarrow> parked_params" where
  "get_params s =
     (case get_string s of (a, s) \<Rightarrow> case get_string s of (fp, s) \<Rightarrow> case get_string s of (k, s) \<Rightarrow>
      case get_all get_table s of (ts, s) \<Rightarrow> case get_all get_string s of (ds, s) \<Rightarrow>
        \<lparr>pp_action = a, pp_fingerprint = fp,
         pp_footprint = \<lparr>fp_kind = kind_of_str k, fp_tables = ts, fp_denied = ds\<rparr>\<rparr>)"

lemma get_put_params: "get_params (put_params p) = p"
proof -
  have "kind_of_str (kind_as_str k) = k" for k by (cases k) (simp_all add: kind_of_str_def)
  moreover have "get_all get_string (put_list put_string ds) = (ds, [])" for ds
    using get_all_put [of get_string put_string ds "[]"] by simp
  ultimately show ?thesis
    by (cases p; cases "pp_footprint p")
      (simp add: get_params_def put_params_def get_all_put get_put_table)
qed

definition plain_hx :: human_ext where
  "plain_hx =
     \<lparr>hx_sha = \<lambda>_. [], hx_encode = \<lambda>p. Some (put_params p), hx_decode = \<lambda>s. Some (get_params s),
      hx_fingerprint = \<lambda>s. Some (Some (pp_fingerprint (get_params s)))\<rparr>"

lemma plain_json_law: "json_law plain_hx"
  by (simp add: json_law_def plain_hx_def get_put_params)

lemma empty_inbox_ok: "inbox_ok hx empty_db"
  by (simp add: inbox_ok_def empty_db_def)

text \<open>C22. Along any sequence of requests to the human tier and answers, failing ones
  included, request identifiers stay unique and no peer has two pending rows of the same
  shape.\<close>

theorem inbox_stays_consistent:
  assumes "json_law hx" "inbox_ok hx db" "(inbox_step hx)\<^sup>*\<^sup>* db db'"
  shows "inbox_ok hx db'"
  using inbox_steps_ok [OF assms(3,1,2)] .

definition parked_db :: auth_db where
  "parked_db = snd (human_decide plain_hx sample_env empty_db sample_rq)"

lemma sample_parks: "human_decide plain_hx sample_env empty_db sample_rq = (Some (Deny PENDING_REASON), parked_db)"
  by (simp add: parked_db_def human_decide_def Let_def sample_rq_def empty_db_def has_denied_def
      from_tables_def insert_inbox_def plain_hx_def)

theorem inbox_stays_consistent_witness: "inbox_ok plain_hx parked_db"
  by (rule inbox_stays_consistent [OF plain_json_law empty_inbox_ok])
     (rule r_into_rtranclp, rule inbox_step.asked [OF sample_parks])

text \<open>When the human tier answers at all, it denies with the pending reason, and
  the request is then pending in the inbox exactly once, however often the peer repeats it
  or a literal variant of it.\<close>

theorem request_parked_once:
  assumes "json_law hx" "inbox_ok hx db" "human_decide hx env db rq = (Some d, db')"
  shows "d = Escalate \<or> (d = Deny PENDING_REASON
    \<and> pending_count hx db' (rq_peer rq) (request_fingerprint hx rq) = 1)"
  using human_answers [of hx env db rq] human_parks [OF assms(1,2)] assms(3) by auto

theorem request_parked_once_witness:
  "pending_count plain_hx parked_db ''p'' (request_fingerprint plain_hx sample_rq) = 1"
  using request_parked_once [OF plain_json_law empty_inbox_ok sample_parks]
  by (simp add: sample_rq_def)

text \<open>C8. With the cache first in the chain: once the owner has answered a parked
  request, every later request of that peer with the same fingerprint (a repeat, or a
  literal variant) gets the owner's answer from the cache, allow or deny, unless it is a
  knock or its footprint has a denied construct, as long as the table is not changed
  otherwise.\<close>

theorem answered_request_passes:
  assumes "json_law (ax_human ax)" "inbox_ok (ax_human ax) db"
    and "db_decisions db = Some ds" "keys_unique ds"
    and "read_config (ax_config ax) db = (''cache'' # names, \<lambda>_. None)"
    and "pending_count (ax_human ax) db (rq_peer rq) (request_fingerprint (ax_human ax) rq) = 0"
    and "human_decide (ax_human ax) env db rq = (Some (Deny r), db1)"
  shows "\<exists>a db2. answer_inbox (ax_human ax) env' db1 (env_ulid env) allow False [] = (Inr a, db2)
    \<and> (\<forall>env'' rq'. rq_peer rq' = rq_peer rq \<and> rq_action rq' \<noteq> ''knock''
         \<and> \<not> has_denied (rq_footprint rq')
         \<and> request_fingerprint (ax_human ax) rq' = request_fingerprint (ax_human ax) rq \<longrightarrow>
         chain_decide (ax_config ax) (with_builtin_tiers ax scripted) env'' db2 rq' =
           (\<lparr>dc_decision = (if allow then Allow else Deny (''answered from _inbox '' @ env_ulid env)),
             dc_decided_by = ''cache''\<rparr>, db2))"
proof -
  obtain a db2 where ans: "answer_inbox (ax_human ax) env' db1 (env_ulid env) allow False [] = (Inr a, db2)"
    and same: "db_rsntr db2 = db_rsntr db"
    and hit: "\<And>env'' rq'. rq_peer rq' = rq_peer rq \<Longrightarrow> rq_action rq' \<noteq> ''knock'' \<Longrightarrow>
      \<not> has_denied (rq_footprint rq') \<Longrightarrow>
      request_fingerprint (ax_human ax) rq' = request_fingerprint (ax_human ax) rq \<Longrightarrow>
      cache_decide (hx_sha (ax_human ax)) env'' db2 rq' =
        (Some (if allow then Allow else Deny (''answered from _inbox '' @ env_ulid env)), db2)"
    using answered_then_cached [OF assms(1-4,6,7), of env' allow] by blast
  have "read_config (ax_config ax) db2 = (''cache'' # names, \<lambda>_. None)"
    using assms(5) read_config_cong [OF same] by simp
  from chain_cache_first [OF this hit] ans show ?thesis
    by (intro exI [of _ a] exI [of _ db2]) (simp add: permitted_def)
qed

definition plain_ax :: auth_ext where
  "plain_ax = \<lparr>ax_config = sample_json, ax_rhai = \<lambda>_ _ _. None, ax_human = plain_hx\<rparr>"

theorem answered_request_passes_witness:
  "\<exists>a db2. answer_inbox plain_hx sample_env parked_db ''01'' True False [] = (Inr a, db2)
    \<and> chain_decide sample_json (with_builtin_tiers plain_ax True) sample_env db2 sample_rq =
        (\<lparr>dc_decision = Allow, dc_decided_by = ''cache''\<rparr>, db2)"
proof -
  have h: "ax_human plain_ax = plain_hx" "ax_config plain_ax = sample_json" by (simp_all add: plain_ax_def)
  have "db_decisions empty_db = Some []" "keys_unique []"
    by (simp_all add: empty_db_def keys_unique_def)
  moreover have "pending_count plain_hx empty_db fp q = 0" for fp q
    by (simp add: pending_count_def empty_db_def)
  moreover have "rq_action sample_rq \<noteq> ''knock''" "\<not> has_denied (rq_footprint sample_rq)" "env_ulid sample_env = ''01''"
    by (simp_all add: sample_rq_def has_denied_def from_tables_def sample_env_def)
  ultimately show ?thesis
    using answered_request_passes [of plain_ax empty_db "[]" "[''ghost'', ''human'']" sample_rq sample_env
        PENDING_REASON parked_db sample_env True True]
      plain_json_law empty_inbox_ok [of plain_hx] sample_config sample_parks
    unfolding h by auto
qed

text \<open>After an allow that is remembered, the policy tier itself allows the same
  tables for the same peer and action, whatever more general rules say, unless the peer
  already had a denying rule of its own for the action.\<close>

theorem remembered_answer_allows:
  assumes "db_policy db = Some rules" "rq_peer rq \<noteq> ''*''"
    and "\<not> has_denied (rq_footprint rq)" "fp_tables (rq_footprint rq) \<noteq> []"
    and "''*'' \<notin> fst ` set (fp_tables (rq_footprint rq))"
    and "\<And>r. r \<in> set rules \<Longrightarrow> po_peer r = rq_peer rq \<Longrightarrow> po_action r = rq_action rq \<Longrightarrow>
      po_effect r = ''allow''"
    and "remember_tables (rq_peer rq) i (rq_action rq) ''allow'' (map fst (fp_tables (rq_footprint rq))) db []
      = (Inr ts, db')"
  shows "policy_decide env db' rq = (Some Allow, db')"
  using assms by (rule remembered_allows)

lemma sample_tables: "fp_tables (rq_footprint sample_rq) = [(''t'', [''a''])]"
  by (simp add: sample_rq_def from_tables_def bset_of_def)

theorem remembered_answer_allows_witness:
  "\<exists>db'. policy_decide sample_env db' sample_rq = (Some Allow, db')"
proof -
  let ?db = "empty_db\<lparr>db_policy := Some sample_rules\<rparr>"
  have "remember_tables (rq_peer sample_rq) ''i'' (rq_action sample_rq) ''allow''
      (map fst (fp_tables (rq_footprint sample_rq))) ?db [] =
    (Inr [''t''], snd (remember_tables (rq_peer sample_rq) ''i'' (rq_action sample_rq) ''allow''
      (map fst (fp_tables (rq_footprint sample_rq))) ?db []))"
    by (simp add: remember_tables_ok [where rules = sample_rules] sample_tables del: remember_tables.simps)
  moreover have "db_policy ?db = Some sample_rules" "rq_peer sample_rq \<noteq> ''*''"
    "\<not> has_denied (rq_footprint sample_rq)" "fp_tables (rq_footprint sample_rq) \<noteq> []"
    "''*'' \<notin> fst ` set (fp_tables (rq_footprint sample_rq))"
    by (simp_all add: sample_tables) (simp_all add: sample_rq_def has_denied_def from_tables_def)
  moreover have "po_effect r = ''allow''"
    if "r \<in> set sample_rules" "po_peer r = rq_peer sample_rq" "po_action r = rq_action sample_rq" for r
    using that by (auto simp: sample_rules_def sample_rq_def)
  ultimately show ?thesis using remembered_answer_allows [of ?db sample_rules sample_rq] by blast
qed

text \<open>Grants are checked only when they are written: allowing a parked knock
  with a malformed grant reports the bad grant, but the row is already decided and the peer
  already admitted, and a second answer is refused.\<close>

theorem bad_grant_leaves_row_decided:
  assumes "db_inbox db = Some rows" "List.find (\<lambda>r. ib_request_id r = i) rows = Some r"
    and "ib_decision r = None" "ib_sql r = []" "db_peers db = Some peers"
    and "split_once (CHR ''='') g = None"
  shows "\<exists>db'. answer_inbox hx env db i True remember [g] = (Inl (BadGrant g), db')
    \<and> answer_inbox hx env db' i allow' remember' grants' = (Inl (AlreadyDecided i ''allow''), db')
    \<and> (\<exists>peers'. db_peers db' = Some peers' \<and> ib_peer r \<in> set (map pe_endpoint_id peers'))"
proof -
  define m where "m = db\<lparr>db_inbox := Some (mark_decided i ''allow'' rows)\<rparr>"
  define pr where "pr = \<lparr>pe_endpoint_id = ib_peer r, pe_added_at = rfc3339 (env_secs env),
    pe_notes = Some (''admitted via inbox '' @ i)\<rparr>"
  have "db_peers m = Some peers" using assms(5) by (simp add: m_def)
  then obtain db' peers' where ins: "insert_peer pr m = Some db'" "db_inbox db' = db_inbox m"
    "db_peers db' = Some peers'" "ib_peer r \<in> set (map pe_endpoint_id peers')"
    by (cases "pe_endpoint_id pr \<in> set (map pe_endpoint_id peers)") (auto simp: insert_peer_def pr_def)
  have a: "answer_inbox hx env db i True remember [g] = (Inl (BadGrant g), db')"
    using assms ins(1) by (simp add: answer_inbox_def Let_def answer_knock_def
        m_def [symmetric] pr_def [symmetric, simplified])
  have "List.find (\<lambda>r. ib_request_id r = i) (mark_decided i d xs) =
      map_option (\<lambda>r. r\<lparr>ib_decision := Some d, ib_decided_by := Some ''human''\<rparr>)
        (List.find (\<lambda>r. ib_request_id r = i) xs)" for d xs
    by (induction xs) (simp_all add: mark_decided_def)
  then have "answer_inbox hx env db' i allow' remember' grants' = (Inl (AlreadyDecided i ''allow''), db')"
    using answer_decided [of db' "mark_decided i ''allow'' rows" i _ "''allow''"] ins(2) assms(2)
    by (simp add: m_def)
  with a ins(3,4) show ?thesis by blast
qed

definition knock_row :: inbox_row where
  "knock_row = \<lparr>ib_request_id = ''01'', ib_peer = ''p'', ib_sql = [], ib_params = ''{}'', ib_decision = None,
     ib_decided_by = None, ib_received_at = []\<rparr>"

theorem bad_grant_leaves_row_decided_witness:
  "\<exists>db'. answer_inbox plain_hx sample_env (empty_db\<lparr>db_inbox := Some [knock_row]\<rparr>) ''01'' True False [''oops'']
      = (Inl (BadGrant ''oops''), db')"
proof -
  have "db_inbox (empty_db\<lparr>db_inbox := Some [knock_row]\<rparr>) = Some [knock_row]"
    "List.find (\<lambda>r. ib_request_id r = ''01'') [knock_row] = Some knock_row"
    "ib_decision knock_row = None" "ib_sql knock_row = []"
    "db_peers (empty_db\<lparr>db_inbox := Some [knock_row]\<rparr>) = Some []"
    "split_once (CHR ''='') ''oops'' = None"
    by (simp_all add: knock_row_def empty_db_def)
  from bad_grant_leaves_row_decided [OF this, of plain_hx sample_env False True False "[]"]
  show ?thesis by blast
qed

subsection \<open>Scripts\<close>

text \<open>The script tier's answer is the verdict of the first enabled script, in
  name order, whose value is a verdict other than \<open>escalate()\<close>; failing scripts and other
  values are passed over, and without such a script, or without the table, it abstains.\<close>

theorem first_script_verdict_wins:
  "script_decide rhai budget env db rq =
     (Some (case db_scripts db of
        None \<Rightarrow> Escalate
      | Some rows \<Rightarrow>
          (case List.find (\<lambda>(name, body). script_verdict rhai budget rq body \<noteq> VEscalate) (enabled_scripts rows) of
             None \<Rightarrow> Escalate
           | Some (name, body) \<Rightarrow> verdict_answer name (script_verdict rhai budget rq body))), db)
   \<and> sorted (map fst (enabled_scripts rows'))"
  by (auto simp: script_decide_alt run_scripts_first enabled_scripts_sorted split: option.splits)

subsection \<open>Timestamps\<close>

text \<open>The date arithmetic is the Gregorian calendar: day 0 is 1970-01-01, every day number
  gives a date that exists, and the next day number gives the next day, before and after
  the epoch, over month ends, leap days and the 400-year cycle.\<close>

theorem civil_calendar:
  "civil_from_days 0 = (1970, 1, 1) \<and> valid_date (civil_from_days z)
   \<and> civil_from_days (z + 1) = next_day (civil_from_days z)"
proof -
  have "civil_from_days 0 = (1970, 1, 1)" by code_simp
  with civil_from_days_valid civil_from_days_next show ?thesis by blast
qed

end
