(* ===== verification/Csv.thy ===== *)
theory Csv
  imports Column_Name Envelope_Types
begin

text \<open>
  CSV both ways (\<open>crates/web/src/csv.rs\<close>): the cell codec, the document parser, the
  document an export writes, and the checks an import makes before it touches the database.
  The statements that read and insert rows go through the node and are not part of this
  theory.
\<close>

definition CSV_DQ :: char where "CSV_DQ = CHR 0x22"
definition CSV_SQ :: char where "CSV_SQ = CHR 0x27"
definition CSV_CR :: char where "CSV_CR = CHR 0x0D"
definition CSV_LF :: char where "CSV_LF = CHR 0x0A"

definition strip_suffix_char :: "char \<Rightarrow> string \<Rightarrow> string option" where
  "strip_suffix_char c s = (if s \<noteq> [] \<and> last s = c then Some (butlast s) else None)"

subsection \<open>Cells\<close>

text \<open>The hexadecimal digits of a blob literal, if the field is one.\<close>

definition blob_hex :: "string \<Rightarrow> string option" where
  "blob_hex field =
     (case (case strip_prefix [CHR ''x'', CSV_SQ] field of
              Some r \<Rightarrow> Some r | None \<Rightarrow> strip_prefix [CHR ''X'', CSV_SQ] field) of
        None \<Rightarrow> None
      | Some rest \<Rightarrow> strip_suffix_char CSV_SQ rest)"

definition is_blob_lexical :: "string \<Rightarrow> bool" where
  "is_blob_lexical field =
     (case blob_hex field of
        None \<Rightarrow> False
      | Some hex \<Rightarrow> length hex mod 2 = 0 \<and> list_all (\<lambda>c. hex_val c \<noteq> None) hex)"

definition csv_quote :: "string \<Rightarrow> string" where
  "csv_quote t = CSV_DQ # concat (map (\<lambda>c. if c = CSV_DQ then [CSV_DQ, c] else [c]) t) @ [CSV_DQ]"

definition encode_text :: "string \<Rightarrow> string" where
  "encode_text t =
     (if t = [] then [CSV_DQ, CSV_DQ]
      else if CHR '','' \<in> set t \<or> CSV_DQ \<in> set t \<or> CSV_LF \<in> set t \<or> CSV_CR \<in> set t
        \<or> is_blob_lexical t
      then csv_quote t else t)"

text \<open>\<open>f64::to_string\<close>: the shortest digits that read back, without an exponent.\<close>

definition positional :: "nat \<Rightarrow> int \<Rightarrow> string" where
  "positional d e =
     (let ds = show_nat d
      in if 0 \<le> e then ds @ replicate (nat e) (CHR ''0'')
         else
           let k = nat (- e);
               padded = replicate (Suc k - length ds) (CHR ''0'') @ ds;
               i = length padded - k
           in take i padded @ CHR ''.'' # drop i padded)"

definition show_f64 :: "f64 \<Rightarrow> string" where
  "show_f64 f =
     (if is_nan f then ''NaN''
      else (if f_neg f then ''-'' else [])
        @ (if is_inf f then ''inf''
           else if f_mag f = 0 then ''0''
           else case shortest (f_mag f) 1 of (d, e) \<Rightarrow> case strip_zeros d e of (d', e') \<Rightarrow> positional d' e'))"

definition encode_field :: "wire_value \<Rightarrow> string" where
  "encode_field v =
     (case v of
        VNull \<Rightarrow> []
      | Integer i \<Rightarrow> show_int i
      | Real f \<Rightarrow> show_f64 f
      | Blob b \<Rightarrow> [CHR ''x'', CSV_SQ] @ concat (map (\<lambda>x. hex2 False (unat x)) b) @ [CSV_SQ]
      | BlobRef h n \<Rightarrow> csv_quote (''blobref('' @ h @ '', '' @ show_nat n @ '' bytes)'')
      | Text t \<Rightarrow> encode_text t)"

fun hex_bytes :: "string \<Rightarrow> byte list" where
  "hex_bytes (a # b # r) =
     (case hex_pair a b of Some n \<Rightarrow> word_of_nat n # hex_bytes r | None \<Rightarrow> hex_bytes r)"
| "hex_bytes _ = []"

definition field_value :: "string \<Rightarrow> bool \<Rightarrow> wire_value" where
  "field_value field quoted =
     (if \<not> quoted \<and> field = [] then VNull
      else if \<not> quoted \<and> is_blob_lexical field
      then Blob (hex_bytes (take (length field - 3) (drop 2 field)))
      else Text field)"

subsection \<open>Documents\<close>

datatype csv_error = QuoteInUnquoted | DataAfterQuote | UnterminatedQuote | EmptyDocument

type_synonym csv_row = "(string \<times> bool) list"

text \<open>
  The character loop. White space after a closing quote is a whole character, so its bytes
  are taken together.
\<close>

function csv_loop ::
  "string \<Rightarrow> string \<Rightarrow> bool \<Rightarrow> bool \<Rightarrow> csv_row \<Rightarrow> csv_row list \<Rightarrow> (csv_error, csv_row list) result" where
  "csv_loop [] field quoted in_quotes row rows =
     (if in_quotes then Inl UnterminatedQuote
      else if field \<noteq> [] \<or> quoted \<or> row \<noteq> [] then Inr (rows @ [row @ [(field, quoted)]])
      else Inr rows)"
| "csv_loop (c # s) field quoted in_quotes row rows =
     (if in_quotes then
        (if c = CSV_DQ then
           (if s \<noteq> [] \<and> hd s = CSV_DQ then csv_loop (tl s) (field @ [CSV_DQ]) quoted True row rows
            else csv_loop s field quoted False row rows)
         else csv_loop s (field @ [c]) quoted True row rows)
      else if c = CSV_DQ then
        (if field = [] \<and> \<not> quoted then csv_loop s field True True row rows
         else Inl QuoteInUnquoted)
      else if c = CHR '','' then csv_loop s [] False False (row @ [(field, quoted)]) rows
      else if c = CSV_CR then
        csv_loop (if s \<noteq> [] \<and> hd s = CSV_LF then tl s else s) [] False False []
          (rows @ [row @ [(field, quoted)]])
      else if c = CSV_LF then csv_loop s [] False False [] (rows @ [row @ [(field, quoted)]])
      else if quoted then
        (case strip_any white_space (c # s) of
           None \<Rightarrow> Inl DataAfterQuote
         | Some r \<Rightarrow>
             csv_loop (drop (length (c # s) - length r - 1) s)
               (field @ take (length (c # s) - length r) (c # s)) quoted False row rows)
      else csv_loop s (field @ [c]) quoted False row rows)"
  by pat_completeness auto
termination
  by (relation "measure (\<lambda>(s, _). length s)") auto

declare csv_loop.simps(2) [simp del]

definition parse_csv :: "string \<Rightarrow> (csv_error, csv_row list) result" where
  "parse_csv text =
     (case csv_loop text [] False False [] [] of
        Inl e \<Rightarrow> Inl e
      | Inr rows \<Rightarrow> if text = [] then Inl EmptyDocument else Inr rows)"

text \<open>The document an export writes: \<open>cols\<close> are the table's columns, \<open>rows\<close> the rows the
  statement returned, in which a \<open>NULL\<close> cell is left out.\<close>

definition csv_line :: "string list \<Rightarrow> string" where
  "csv_line cs = join '','' cs @ [CSV_CR, CSV_LF]"

definition export_document :: "string list \<Rightarrow> row list \<Rightarrow> string" where
  "export_document cols rows =
     csv_line (map encode_text cols)
     @ concat (map (\<lambda>r. csv_line (map (\<lambda>name.
         case List.find (\<lambda>(n, _). n = name) (row_cells r) of
           Some (_, v) \<Rightarrow> encode_field v | None \<Rightarrow> []) cols)) rows)"

datatype import_error =
    BadCsv csv_error
  | NoHeader
  | EmptyHeaderField
  | DuplicateHeader
  | FieldCount nat nat nat

text \<open>
  The checks of an import, up to the point where it looks at the table: the header and the
  rows to bind. Lower-casing a header field is \<open>str::to_lowercase\<close>, given as \<open>lc\<close>.
\<close>

definition import_rows ::
  "(string \<Rightarrow> string) \<Rightarrow> string \<Rightarrow> (import_error, string list \<times> wire_value list list) result" where
  "import_rows lc text =
     (case parse_csv text of
        Inl e \<Rightarrow> Inl (BadCsv e)
      | Inr [] \<Rightarrow> Inl NoHeader
      | Inr (h # parsed) \<Rightarrow>
          let header = map fst h
          in if [] \<in> set header then Inl EmptyHeaderField
             else if \<not> distinct (map lc header) then Inl DuplicateHeader
             else case List.find (\<lambda>(i, r). length r \<noteq> length header) (enumerate 0 parsed) of
                    Some (i, r) \<Rightarrow> Inl (FieldCount (i + 1) (length r) (length header))
                  | None \<Rightarrow> Inr (header, map (map (\<lambda>(f, q). field_value f q)) parsed))"

subsection \<open>Reading back one field\<close>

lemma csv_chars [simp]:
  "CSV_DQ \<noteq> CHR '',''" "CSV_CR \<noteq> CHR '',''" "CSV_LF \<noteq> CHR '',''" "CSV_DQ \<noteq> CSV_CR" "CSV_CR \<noteq> CSV_DQ"
  "CSV_DQ \<noteq> CSV_LF" "CSV_LF \<noteq> CSV_DQ" "CSV_CR \<noteq> CSV_LF" "CSV_LF \<noteq> CSV_CR" "CHR '','' \<noteq> CSV_DQ"
  "CHR '','' \<noteq> CSV_CR" "CHR '','' \<noteq> CSV_LF" "CSV_SQ \<noteq> CSV_DQ" "CSV_SQ \<noteq> CHR '',''" "CSV_SQ \<noteq> CSV_CR"
  "CSV_SQ \<noteq> CSV_LF"
  by (simp_all add: CSV_DQ_def CSV_CR_def CSV_LF_def CSV_SQ_def)

definition plain_field :: "string \<Rightarrow> bool" where
  "plain_field t \<longleftrightarrow> CHR '','' \<notin> set t \<and> CSV_DQ \<notin> set t \<and> CSV_LF \<notin> set t \<and> CSV_CR \<notin> set t"

lemma csv_plain:
  "plain_field t \<Longrightarrow> csv_loop (t @ s) field False False row rows = csv_loop s (field @ t) False False row rows"
proof (induction t arbitrary: field)
  case (Cons c t)
  then have "csv_loop ((c # t) @ s) field False False row rows = csv_loop (t @ s) (field @ [c]) False False row rows"
    by (auto simp: plain_field_def csv_loop.simps(2) [of c])
  with Cons show ?case by (simp add: plain_field_def)
qed simp

lemma csv_quoted_body:
  "s = [] \<or> hd s \<noteq> CSV_DQ \<Longrightarrow>
   csv_loop (concat (map (\<lambda>c. if c = CSV_DQ then [CSV_DQ, c] else [c]) t) @ CSV_DQ # s) field True True row rows =
   csv_loop s (field @ t) True False row rows"
proof (induction t arbitrary: field)
  case Nil
  then show ?case by (auto simp: csv_loop.simps(2) [of CSV_DQ])
next
  case (Cons c t)
  have "csv_loop (concat (map (\<lambda>c. if c = CSV_DQ then [CSV_DQ, c] else [c]) (c # t)) @ CSV_DQ # s) field True True row rows =
    csv_loop (concat (map (\<lambda>c. if c = CSV_DQ then [CSV_DQ, c] else [c]) t) @ CSV_DQ # s) (field @ [c]) True True row rows"
    by (cases "c = CSV_DQ") (simp_all add: csv_loop.simps(2) [of c] csv_loop.simps(2) [of CSV_DQ])
  with Cons show ?case by simp
qed

lemma csv_quoted:
  "s = [] \<or> hd s \<noteq> CSV_DQ \<Longrightarrow>
   csv_loop (csv_quote t @ s) [] False False row rows = csv_loop s t True False row rows"
  using csv_quoted_body [of s t "[]" row rows] by (simp add: csv_quote_def csv_loop.simps(2) [of CSV_DQ])

text \<open>What a written field reads back as: its text and whether it was quoted.\<close>

definition reads_as :: "string \<Rightarrow> string \<times> bool \<Rightarrow> bool" where
  "reads_as written p \<longleftrightarrow>
     (\<forall>s row rows. s = [] \<or> hd s \<noteq> CSV_DQ \<longrightarrow>
        csv_loop (written @ s) [] False False row rows = csv_loop s (fst p) (snd p) False row rows)"

lemma reads_plain: "plain_field t \<Longrightarrow> reads_as t (t, False)"
  by (simp add: reads_as_def csv_plain)

lemma reads_quoted: "reads_as (csv_quote t) (t, True)"
  by (simp add: reads_as_def csv_quoted)

definition text_flag :: "string \<Rightarrow> bool" where
  "text_flag t \<longleftrightarrow> t = [] \<or> \<not> plain_field t \<or> is_blob_lexical t"

lemma reads_text: "reads_as (encode_text t) (t, text_flag t)"
proof (cases "t = []")
  case True
  then have "encode_text t = csv_quote t" by (simp add: encode_text_def csv_quote_def)
  with reads_quoted show ?thesis by (simp add: text_flag_def True)
next
  case False
  then show ?thesis
    using reads_quoted [of t] reads_plain [of t] by (auto simp: encode_text_def text_flag_def plain_field_def)
qed

text \<open>Numbers and blobs are plain.\<close>

lemma digits_plain: "list_all is_digit s \<Longrightarrow> plain_field s"
  by (auto simp: plain_field_def list_all_iff is_digit_def CSV_DQ_def CSV_LF_def CSV_CR_def)

lemma plain_append [simp]: "plain_field (s @ t) \<longleftrightarrow> plain_field s \<and> plain_field t"
  by (auto simp: plain_field_def)

lemma plain_Nil [simp]: "plain_field []" by (simp add: plain_field_def)

lemma plain_Cons: "plain_field (c # t) \<longleftrightarrow> c \<noteq> CHR '','' \<and> c \<noteq> CSV_DQ \<and> c \<noteq> CSV_LF \<and> c \<noteq> CSV_CR \<and> plain_field t"
  by (auto simp: plain_field_def)

lemma plain_subset: "plain_field s \<Longrightarrow> set t \<subseteq> set s \<Longrightarrow> plain_field t"
  by (auto simp: plain_field_def)

lemma show_nat_plain: "plain_field (show_nat n)"
  by (rule digits_plain [OF show_nat_digits])

lemma show_int_plain: "plain_field (show_int i)"
  by (simp add: show_int_def plain_Cons show_nat_plain CSV_DQ_def CSV_LF_def CSV_CR_def)

lemma replicate_zero_plain: "plain_field (replicate n (CHR ''0''))"
  by (simp add: plain_field_def CSV_DQ_def CSV_LF_def CSV_CR_def)

lemma positional_plain: "plain_field (positional d e)"
proof -
  have "plain_field (take i (replicate n (CHR ''0'') @ show_nat d))"
    "plain_field (drop i (replicate n (CHR ''0'') @ show_nat d))" for i n
    using plain_subset [of "replicate n (CHR ''0'') @ show_nat d"] set_take_subset set_drop_subset
    by (metis plain_append replicate_zero_plain show_nat_plain)+
  then show ?thesis
    by (simp add: positional_def Let_def plain_Cons replicate_zero_plain show_nat_plain del: take_append drop_append)
       (simp add: CSV_DQ_def CSV_LF_def CSV_CR_def)
qed

lemma show_f64_plain: "plain_field (show_f64 f)"
  by (auto simp: show_f64_def plain_Cons positional_plain CSV_DQ_def CSV_LF_def CSV_CR_def split: prod.split)

lemma hex_digit_plain: "n < 16 \<Longrightarrow> plain_field [hex_digit False n]"
  using hex_digit_alnum [of n False]
  by (auto simp: plain_Cons is_alnum_def is_upper_def is_lower_def is_digit_def CSV_DQ_def CSV_LF_def CSV_CR_def)

lemma hex_pairs_plain: "plain_field (concat (map (\<lambda>x. hex2 False (unat x)) (b :: byte list)))"
proof (induction b)
  case (Cons x b)
  have "plain_field (hex2 False (unat x))"
    using hex_digit_plain [of "unat x div 16"] hex_digit_plain [of "unat x mod 16"] byte_bound [of x]
    by (simp add: hex2_def plain_Cons)
  with Cons show ?case by simp
qed simp

text \<open>What an exported value reads back as.\<close>

fun csv_value :: "wire_value \<Rightarrow> wire_value" where
  "csv_value VNull = VNull"
| "csv_value (Integer i) = Text (show_int i)"
| "csv_value (Real f) = Text (show_f64 f)"
| "csv_value (Text t) = Text t"
| "csv_value (Blob b) = Blob b"
| "csv_value (BlobRef h n) = Text (''blobref('' @ h @ '', '' @ show_nat n @ '' bytes)'')"

fun csv_flag :: "wire_value \<Rightarrow> bool" where
  "csv_flag (Text t) = text_flag t"
| "csv_flag (BlobRef h n) = True"
| "csv_flag _ = False"

fun csv_content :: "wire_value \<Rightarrow> string" where
  "csv_content (Text t) = t"
| "csv_content (BlobRef h n) = ''blobref('' @ h @ '', '' @ show_nat n @ '' bytes)''"
| "csv_content v = encode_field v"

lemma reads_field: "reads_as (encode_field v) (csv_content v, csv_flag v)"
proof (cases v)
  case (Text t)
  then show ?thesis using reads_text by (simp add: encode_field_def)
next
  case (BlobRef h n)
  then show ?thesis using reads_quoted by (simp add: encode_field_def)
next
  case (Blob b)
  then show ?thesis
    using reads_plain [of "encode_field v"] hex_pairs_plain [of b]
    by (simp add: encode_field_def plain_Cons) (simp add: CSV_DQ_def CSV_LF_def CSV_CR_def)
qed (simp_all add: encode_field_def reads_plain show_int_plain show_f64_plain)

lemma hex_bytes_pairs: "hex_bytes (concat (map (\<lambda>x. hex2 False (unat x)) b)) = b"
  by (induction b) (simp_all add: hex2_def hex_pair_hex2 byte_bound)

lemma blob_lexical:
  "blob_hex ([CHR ''x'', CSV_SQ] @ h @ [CSV_SQ]) = Some h"
  by (simp add: blob_hex_def strip_suffix_char_def)

lemma hex_pairs_lexical:
  "length (concat (map (\<lambda>x. hex2 False (unat x)) (b :: byte list))) mod 2 = 0
   \<and> list_all (\<lambda>c. hex_val c \<noteq> None) (concat (map (\<lambda>x. hex2 False (unat x)) b))"
  by (induction b) (simp_all add: hex2_def byte_bound less_mult_imp_div_less)

lemma not_blob: "t = [] \<or> (hd t \<noteq> CHR ''x'' \<and> hd t \<noteq> CHR ''X'') \<Longrightarrow> \<not> is_blob_lexical t"
  by (cases t) (auto simp: is_blob_lexical_def blob_hex_def)

lemma digit_not_x: "is_digit c \<Longrightarrow> c \<noteq> CHR ''x'' \<and> c \<noteq> CHR ''X''"
  by (auto simp: is_digit_def)

lemma show_nat_first_digit: "show_nat n \<noteq> [] \<and> is_digit (hd (show_nat n))"
  using show_nat_digits [of n] by (cases "show_nat n") auto

lemma show_int_number: "show_int i \<noteq> [] \<and> hd (show_int i) \<noteq> CHR ''x'' \<and> hd (show_int i) \<noteq> CHR ''X''"
  using show_nat_first_digit digit_not_x by (simp add: show_int_def)

lemma positional_hd: "positional d e \<noteq> [] \<and> is_digit (hd (positional d e))"
proof (cases "0 \<le> e")
  case True
  then show ?thesis using show_nat_first_digit [of d] by (simp add: positional_def Let_def)
next
  case False
  define p where "p = replicate (Suc (nat (- e)) - length (show_nat d)) (CHR ''0'') @ show_nat d"
  have len: "nat (- e) < length p" by (simp add: p_def)
  have "is_digit (hd p)" using show_nat_first_digit [of d]
    by (cases "Suc (nat (- e)) - length (show_nat d)") (simp_all add: p_def is_digit_def)
  moreover have "positional d e = take (length p - nat (- e)) p @ CHR ''.'' # drop (length p - nat (- e)) p"
    using False by (simp only: positional_def Let_def p_def if_False)
  moreover have "0 < length p - nat (- e)" "p \<noteq> []" using len by auto
  ultimately show ?thesis by (cases p; cases "length p - nat (- e)") auto
qed

lemma show_f64_number: "show_f64 f \<noteq> [] \<and> hd (show_f64 f) \<noteq> CHR ''x'' \<and> hd (show_f64 f) \<noteq> CHR ''X''"
  using positional_hd digit_not_x by (auto simp: show_f64_def split: prod.split)

lemma csv_value_back: "field_value (csv_content v) (csv_flag v) = csv_value v"
proof (cases v)
  case (Blob b)
  have "is_blob_lexical (encode_field v)"
    using hex_pairs_lexical [of b] blob_lexical [of "concat (map (\<lambda>x. hex2 False (unat x)) b)"]
    by (simp add: Blob encode_field_def is_blob_lexical_def)
  moreover have "take (length (encode_field v) - 3) (drop 2 (encode_field v)) = concat (map (\<lambda>x. hex2 False (unat x)) b)"
    by (simp add: Blob encode_field_def)
  ultimately show ?thesis by (simp add: Blob field_value_def hex_bytes_pairs encode_field_def)
next
  case (Integer i)
  then show ?thesis using show_int_number [of i] not_blob [of "show_int i"]
    by (simp add: field_value_def encode_field_def)
next
  case (Real f)
  then show ?thesis using show_f64_number [of f] not_blob [of "show_f64 f"]
    by (simp add: field_value_def encode_field_def)
qed (auto simp: field_value_def encode_field_def text_flag_def)

subsection \<open>Reading back a document\<close>

lemma csv_line_back:
  assumes "cs \<noteq> []" "list_all2 reads_as cs ps"
  shows "csv_loop (csv_line cs @ s) [] False False row rows = csv_loop s [] False False [] (rows @ [row @ ps])"
  using assms
proof (induction cs arbitrary: ps row)
  case (Cons w ws)
  then obtain p qs where ps: "ps = p # qs" "reads_as w p" "list_all2 reads_as ws qs"
    by (cases ps) auto
  show ?case
  proof (cases ws)
    case Nil
    then have "csv_loop (csv_line (w # ws) @ s) [] False False row rows =
      csv_loop (CSV_CR # CSV_LF # s) (fst p) (snd p) False row rows"
      using ps(2) by (simp add: csv_line_def reads_as_def)
    with Nil ps show ?thesis by (simp add: csv_loop.simps(2) [of CSV_CR])
  next
    case (Cons x xs)
    then have line: "csv_line (w # ws) @ s = w @ CHR '','' # (csv_line ws @ s)" by (simp add: csv_line_def)
    have "csv_loop (csv_line (w # ws) @ s) [] False False row rows =
      csv_loop (CHR '','' # (csv_line ws @ s)) (fst p) (snd p) False row rows"
      unfolding line using ps(2) by (simp add: reads_as_def)
    also have "\<dots> = csv_loop (csv_line ws @ s) [] False False (row @ [p]) rows"
      by (simp add: csv_loop.simps(2) [of "CHR '',''"])
    also have "\<dots> = csv_loop s [] False False [] (rows @ [(row @ [p]) @ qs])"
      using Cons.IH ps(3) Cons by blast
    finally show ?thesis using ps(1) by simp
  qed
qed simp

lemma csv_lines_back:
  assumes "list_all2 (\<lambda>cs ps. cs \<noteq> [] \<and> list_all2 reads_as cs ps) lines pss"
  shows "csv_loop (concat (map csv_line lines)) [] False False [] rows = Inr (rows @ pss)"
  using assms
proof (induction lines arbitrary: pss rows)
  case (Cons l ls)
  then show ?case by (cases pss) (auto simp: csv_line_back)
qed simp

text \<open>The cell an export writes for a column, \<open>NULL\<close> when the row leaves it out.\<close>

definition cell_value :: "row \<Rightarrow> string \<Rightarrow> wire_value" where
  "cell_value r name =
     (case List.find (\<lambda>(n, _). n = name) (row_cells r) of Some (_, v) \<Rightarrow> v | None \<Rightarrow> VNull)"

lemma export_lines:
  "export_document cols rows =
     concat (map csv_line (map encode_text cols # map (\<lambda>r. map (\<lambda>name. encode_field (cell_value r name)) cols) rows))"
proof -
  have "(case List.find (\<lambda>(n, _). n = name) (row_cells r) of
      Some (_, v) \<Rightarrow> encode_field v | None \<Rightarrow> []) = encode_field (cell_value r name)" for r name
    using encode_field_def [of VNull] by (auto simp: cell_value_def split: option.splits)
  then show ?thesis by (simp add: export_document_def comp_def)
qed

lemma parse_export:
  assumes "cols \<noteq> []"
  shows "parse_csv (export_document cols rows) =
    Inr (map (\<lambda>c. (c, text_flag c)) cols
      # map (\<lambda>r. map (\<lambda>name. (csv_content (cell_value r name), csv_flag (cell_value r name))) cols) rows)"
proof -
  have "list_all2 (\<lambda>cs ps. cs \<noteq> [] \<and> list_all2 reads_as cs ps)
    (map encode_text cols # map (\<lambda>r. map (\<lambda>name. encode_field (cell_value r name)) cols) rows)
    (map (\<lambda>c. (c, text_flag c)) cols
      # map (\<lambda>r. map (\<lambda>name. (csv_content (cell_value r name), csv_flag (cell_value r name))) cols) rows)"
    using assms by (simp add: list.rel_map list.rel_refl reads_text reads_field)
  from csv_lines_back [OF this, of "[]"]
  have "csv_loop (export_document cols rows) [] False False [] [] =
    Inr (map (\<lambda>c. (c, text_flag c)) cols
      # map (\<lambda>r. map (\<lambda>name. (csv_content (cell_value r name), csv_flag (cell_value r name))) cols) rows)"
    by (simp only: export_lines append_Nil)
  moreover have "export_document cols rows \<noteq> []" by (simp add: export_document_def csv_line_def)
  ultimately show ?thesis by (simp add: parse_csv_def)
qed

lemma import_export:
  assumes "cols \<noteq> []" "[] \<notin> set cols" "distinct (map lc cols)"
  shows "import_rows lc (export_document cols rows) =
    Inr (cols, map (\<lambda>r. map (\<lambda>name. csv_value (cell_value r name)) cols) rows)"
proof -
  have "List.find (\<lambda>(i, r). length r \<noteq> length cols)
      (enumerate 0 (map (\<lambda>r. map (\<lambda>name. (csv_content (cell_value r name), csv_flag (cell_value r name))) cols) rows)) = None"
    by (auto simp: find_None_iff in_set_enumerate_eq)
  with assms show ?thesis
    by (simp add: import_rows_def parse_export Let_def comp_def csv_value_back)
qed

end
