(* ===== verification/Footprint.thy ===== *)
theory Footprint
  imports Auth_Types
begin

text \<open>
  Footprint collection and enforcement (\<open>crates/node/src/footprint.rs\<close>): the two callbacks
  SQLite asks about each action of a statement it prepares.

  The actions are those of \<open>rusqlite\<close>'s \<open>AuthAction\<close>; fields no callback looks at are left
  out, and the schema-changing actions are one constructor with their kind. A shared
  \<open>Mutex\<close> is the state passed to the callback and returned by it.
\<close>

datatype ddl_kind =
    CreateIndex | CreateTable | CreateTempIndex | CreateTempTable | CreateTempTrigger
  | CreateTempView | CreateTrigger | CreateView | DropIndex | DropTable | DropTempIndex
  | DropTempTable | DropTempTrigger | DropTempView | DropTrigger | DropView | AlterTable
  | Reindex | Analyze | CreateVtable | DropVtable

datatype auth_action =
    Attach
  | Detach
  | Pragma string
  | Function string
  | Transaction
  | Savepoint
  | Ddl ddl_kind
  | ReadCol string string
  | Insert string
  | Delete string
  | Update string string
  | Select
  | Recursive
  | Unknown int

datatype authorization = AAllow | ADeny

datatype lane = Remote | Owner

record collect_state =
  cs_footprint :: footprint
  cs_wrote :: bool
  cs_pragma :: bool
  cs_denied :: "string option"

definition collect_default :: collect_state where
  "collect_default = \<lparr>cs_footprint = footprint_default, cs_wrote = False, cs_pragma = False, cs_denied = None\<rparr>"

definition collect_kind :: "collect_state \<Rightarrow> action_kind" where
  "collect_kind st = (if cs_wrote st then Write else if cs_pragma st then Other else Read)"

definition collect_finish :: "collect_state \<Rightarrow> footprint" where
  "collect_finish st = (cs_footprint st)\<lparr>fp_kind := collect_kind st\<rparr>"

definition eq_ignore_case :: "string \<Rightarrow> string \<Rightarrow> bool" where
  "eq_ignore_case a b \<longleftrightarrow> map to_lower a = map to_lower b"

definition LOAD_EXTENSION :: string where
  "LOAD_EXTENSION = ''load_extension''"

fun banned :: "auth_action \<Rightarrow> string list \<Rightarrow> lane \<Rightarrow> (string \<times> string) option" where
  "banned Attach allowlist lane = Some (''attach'', ''ATTACH/DETACH is not allowed'')"
| "banned Detach allowlist lane = Some (''attach'', ''ATTACH/DETACH is not allowed'')"
| "banned (Pragma name) allowlist lane =
     (if lane = Owner \<or> list_ex (\<lambda>p. eq_ignore_case p name) allowlist then None
      else Some (''pragma'', ''PRAGMA '' @ name @ '' is not allowlisted''))"
| "banned (Function name) allowlist lane =
     (if eq_ignore_case name LOAD_EXTENSION
      then Some (''load_extension'', ''load_extension is not allowed'') else None)"
| "banned Transaction allowlist lane =
     (if lane = Owner then None
      else Some (''transaction'', ''client-issued transaction control is not allowed''))"
| "banned Savepoint allowlist lane =
     (if lane = Owner then None
      else Some (''transaction'', ''client-issued transaction control is not allowed''))"
| "banned (Ddl k) allowlist lane =
     (if lane = Owner then None else Some (''ddl'', ''DDL is not allowed''))"
| "banned (Unknown code) allowlist lane =
     Some (''unknown'', ''unknown sqlite action code '' @ show_int code @ '' denied'')"
| "banned _ allowlist lane = None"

text \<open>\<open>entry(table).or_default()\<close>, and the insertion of a column into it.\<close>

definition table_entry :: "string \<Rightarrow> footprint \<Rightarrow> bset" where
  "table_entry t f = (case bmap_get (fp_tables f) t of None \<Rightarrow> [] | Some cols \<Rightarrow> cols)"

definition touch_table :: "string \<Rightarrow> footprint \<Rightarrow> footprint" where
  "touch_table t f = f\<lparr>fp_tables := bmap_insert t (table_entry t f) (fp_tables f)\<rparr>"

definition touch_column :: "string \<Rightarrow> string \<Rightarrow> footprint \<Rightarrow> footprint" where
  "touch_column t c f = f\<lparr>fp_tables := bmap_insert t (bset_insert c (table_entry t f)) (fp_tables f)\<rparr>"

definition collect_authorizer ::
  "string list \<Rightarrow> lane \<Rightarrow> collect_state \<Rightarrow> auth_action \<Rightarrow> authorization \<times> collect_state" where
  "collect_authorizer allowlist lane st action =
     (case banned action allowlist lane of
        Some (construct, reason) \<Rightarrow>
          (ADeny, st\<lparr>cs_footprint := deny_construct (cs_footprint st) construct,
                    cs_denied := (case cs_denied st of None \<Rightarrow> Some reason | Some r \<Rightarrow> Some r)\<rparr>)
      | None \<Rightarrow>
          (AAllow,
           case action of
             ReadCol t c \<Rightarrow> st\<lparr>cs_footprint := touch_column t c (cs_footprint st)\<rparr>
           | Insert t \<Rightarrow> st\<lparr>cs_footprint := touch_table t (cs_footprint st), cs_wrote := True\<rparr>
           | Delete t \<Rightarrow> st\<lparr>cs_footprint := touch_table t (cs_footprint st), cs_wrote := True\<rparr>
           | Update t c \<Rightarrow> st\<lparr>cs_footprint := touch_column t c (cs_footprint st), cs_wrote := True\<rparr>
           | Pragma _ \<Rightarrow> st\<lparr>cs_pragma := True\<rparr>
           | _ \<Rightarrow> st))"

record approved =
  ap_footprint :: footprint
  ap_lane :: lane

definition read_ok :: "approved \<Rightarrow> string \<Rightarrow> string \<Rightarrow> bool" where
  "read_ok ap t c \<longleftrightarrow>
     (case bmap_get (fp_tables (ap_footprint ap)) t of None \<Rightarrow> False | Some cols \<Rightarrow> c \<in> set cols)"

definition write_ok :: "approved \<Rightarrow> string \<Rightarrow> bool" where
  "write_ok ap t \<longleftrightarrow>
     fp_kind (ap_footprint ap) = Write \<and> bmap_get (fp_tables (ap_footprint ap)) t \<noteq> None"

text \<open>A check of the enforce callback: allowed, or denied with the first reason kept.\<close>

definition check :: "bool \<Rightarrow> string \<Rightarrow> string option \<Rightarrow> authorization \<times> string option" where
  "check ok msg reason =
     (if ok then (AAllow, reason)
      else (ADeny, case reason of None \<Rightarrow> Some msg | Some r \<Rightarrow> Some r))"

text \<open>\<open>debug\<close> is the \<open>Debug\<close> form of an action, for the message of the last branch.\<close>

definition enforce_authorizer ::
  "(auth_action \<Rightarrow> string) \<Rightarrow> approved \<Rightarrow> string list \<Rightarrow> string option \<Rightarrow> auth_action
    \<Rightarrow> authorization \<times> string option" where
  "enforce_authorizer debug ap allowlist reason action =
     (case banned action allowlist (ap_lane ap) of
        Some (_, msg) \<Rightarrow> check False msg reason
      | None \<Rightarrow>
          (case action of
             ReadCol t c \<Rightarrow>
               check (read_ok ap t c) (''read of '' @ t @ ''.'' @ c @ '' exceeds the approved footprint'') reason
           | Insert t \<Rightarrow>
               check (write_ok ap t) (''write to '' @ t @ '' exceeds the approved footprint'') reason
           | Delete t \<Rightarrow>
               check (write_ok ap t) (''write to '' @ t @ '' exceeds the approved footprint'') reason
           | Update t c \<Rightarrow>
               check (write_ok ap t \<and> read_ok ap t c)
                 (''update of '' @ t @ ''.'' @ c @ '' exceeds the approved footprint'') reason
           | Pragma name \<Rightarrow>
               check (ap_lane ap = Owner \<or> fp_kind (ap_footprint ap) = Other)
                 (''PRAGMA '' @ name @ '' was not part of the approved statement'') reason
           | Select \<Rightarrow> (AAllow, reason)
           | Function _ \<Rightarrow> (AAllow, reason)
           | Recursive \<Rightarrow> (AAllow, reason)
           | other \<Rightarrow>
               check (ap_lane ap = Owner) (''action '' @ debug other @ '' denied by the enforce authorizer'') reason))"

subsection \<open>Passes over a statement\<close>

text \<open>A prepare asks about the statement's actions in order; a denial ends it.\<close>

fun collect_pass ::
  "string list \<Rightarrow> lane \<Rightarrow> collect_state \<Rightarrow> auth_action list \<Rightarrow> authorization \<times> collect_state" where
  "collect_pass al lane st [] = (AAllow, st)"
| "collect_pass al lane st (a # as) =
     (case collect_authorizer al lane st a of
        (ADeny, st') \<Rightarrow> (ADeny, st')
      | (AAllow, st') \<Rightarrow> collect_pass al lane st' as)"

fun enforce_pass ::
  "(auth_action \<Rightarrow> string) \<Rightarrow> approved \<Rightarrow> string list \<Rightarrow> string option \<Rightarrow> auth_action list
    \<Rightarrow> authorization \<times> string option" where
  "enforce_pass debug ap al r [] = (AAllow, r)"
| "enforce_pass debug ap al r (a # as) =
     (case enforce_authorizer debug ap al r a of
        (ADeny, r') \<Rightarrow> (ADeny, r')
      | (AAllow, r') \<Rightarrow> enforce_pass debug ap al r' as)"

text \<open>Coverage: the second footprint has every table and column of the first.\<close>

definition has_table :: "footprint \<Rightarrow> string \<Rightarrow> bool" where
  "has_table f t \<longleftrightarrow> bmap_get (fp_tables f) t \<noteq> None"

definition has_column :: "footprint \<Rightarrow> string \<Rightarrow> string \<Rightarrow> bool" where
  "has_column f t c \<longleftrightarrow> (case bmap_get (fp_tables f) t of None \<Rightarrow> False | Some cols \<Rightarrow> c \<in> set cols)"

definition within :: "footprint \<Rightarrow> footprint \<Rightarrow> bool" where
  "within f g \<longleftrightarrow> (\<forall>t. has_table f t \<longrightarrow> has_table g t) \<and> (\<forall>t c. has_column f t c \<longrightarrow> has_column g t c)"

lemma within_refl [simp]: "within f f" by (simp add: within_def)

lemma within_trans: "within f g \<Longrightarrow> within g h \<Longrightarrow> within f h" by (simp add: within_def)

lemma has_column_table: "has_column f t c \<Longrightarrow> has_table f t"
  by (auto simp: has_column_def has_table_def split: option.splits)

definition tables_ok :: "footprint \<Rightarrow> bool" where
  "tables_ok f \<longleftrightarrow> bmap_ok (fp_tables f)"

lemma touch_table_has:
  assumes "tables_ok f"
  shows "has_table (touch_table t f) t' \<longleftrightarrow> t' = t \<or> has_table f t'"
    and "has_column (touch_table t f) t' c \<longleftrightarrow> has_column f t' c"
    and "tables_ok (touch_table t f)"
  using assms
  by (auto simp: touch_table_def has_table_def has_column_def tables_ok_def bmap_get_insert
      table_entry_def split: option.splits)

lemma touch_column_has:
  assumes "tables_ok f"
  shows "has_table (touch_column t c f) t' \<longleftrightarrow> t' = t \<or> has_table f t'"
    and "has_column (touch_column t c f) t' c' \<longleftrightarrow> (t' = t \<and> c' = c) \<or> has_column f t' c'"
    and "tables_ok (touch_column t c f)"
  using assms
  by (auto simp: touch_column_def has_table_def has_column_def tables_ok_def bmap_get_insert
      table_entry_def split: option.splits)

lemma deny_construct_has [simp]:
  "has_table (deny_construct f x) t = has_table f t" "has_column (deny_construct f x) t c = has_column f t c"
  "tables_ok (deny_construct f x) = tables_ok f"
  by (simp_all add: deny_construct_def has_table_def has_column_def tables_ok_def)

lemma kind_has [simp]:
  "has_table (f\<lparr>fp_kind := k\<rparr>) t = has_table f t" "has_column (f\<lparr>fp_kind := k\<rparr>) t c = has_column f t c"
  by (simp_all add: has_table_def has_column_def)

lemma read_ok_iff: "read_ok ap t c \<longleftrightarrow> has_column (ap_footprint ap) t c"
  by (simp add: read_ok_def has_column_def)

lemma write_ok_iff: "write_ok ap t \<longleftrightarrow> fp_kind (ap_footprint ap) = Write \<and> has_table (ap_footprint ap) t"
  by (simp add: write_ok_def has_table_def)

lemma check_simps [simp]:
  "check True msg r = (AAllow, r)" "fst (check ok msg r) = AAllow \<longleftrightarrow> ok"
  "check ok msg r = (AAllow, r') \<longleftrightarrow> ok \<and> r' = r"
  by (auto simp: check_def)

subsection \<open>Collect\<close>

lemma collect_banned:
  "fst (collect_authorizer al lane st a) = ADeny \<longleftrightarrow> banned a al lane \<noteq> None"
  by (auto simp: collect_authorizer_def split: option.splits)

lemma collect_tables_ok:
  "tables_ok (cs_footprint st) \<Longrightarrow> tables_ok (cs_footprint (snd (collect_authorizer al lane st a)))"
  by (auto simp: collect_authorizer_def touch_table_has touch_column_has split: option.splits auth_action.splits)

lemma collect_grows:
  "tables_ok (cs_footprint st) \<Longrightarrow> within (cs_footprint st) (cs_footprint (snd (collect_authorizer al lane st a)))
     \<and> (cs_wrote st \<longrightarrow> cs_wrote (snd (collect_authorizer al lane st a)))
     \<and> (cs_pragma st \<longrightarrow> cs_pragma (snd (collect_authorizer al lane st a)))"
  by (auto simp: collect_authorizer_def within_def touch_table_has touch_column_has
      split: option.splits auth_action.splits)

lemma collect_pass_grows:
  assumes "tables_ok (cs_footprint st)"
  shows "within (cs_footprint st) (cs_footprint (snd (collect_pass al lane st as)))
     \<and> (cs_wrote st \<longrightarrow> cs_wrote (snd (collect_pass al lane st as)))
     \<and> (cs_pragma st \<longrightarrow> cs_pragma (snd (collect_pass al lane st as)))"
  using assms
proof (induction as arbitrary: st)
  case (Cons a as)
  obtain r st' where s: "collect_authorizer al lane st a = (r, st')" by (cases "collect_authorizer al lane st a")
  with collect_grows [OF Cons.prems, of al lane a] collect_tables_ok [OF Cons.prems, of al lane a]
    Cons.IH [of st'] show ?case
    by (cases r) (auto intro: within_trans)
qed simp

text \<open>A denied pass has recorded a construct and a reason.\<close>

lemma collect_pass_denied:
  "fst (collect_pass al lane st as) = ADeny \<Longrightarrow>
     has_denied (cs_footprint (snd (collect_pass al lane st as)))
     \<and> cs_denied (snd (collect_pass al lane st as)) \<noteq> None"
proof (induction as arbitrary: st)
  case (Cons a as)
  obtain r st' where s: "collect_authorizer al lane st a = (r, st')" by (cases "collect_authorizer al lane st a")
  show ?case
  proof (cases r)
    case AAllow
    with s Cons show ?thesis by simp
  next
    case ADeny
    with s have "has_denied (cs_footprint st') \<and> cs_denied st' \<noteq> None"
      by (auto simp: collect_authorizer_def split: option.splits)
    with s ADeny show ?thesis by simp
  qed
qed simp

subsection \<open>Enforce\<close>

lemma enforce_banned:
  "banned a al (ap_lane ap) \<noteq> None \<Longrightarrow> fst (enforce_authorizer debug ap al r a) = ADeny"
  by (auto simp: enforce_authorizer_def check_def)

text \<open>What the enforce callback lets pass.\<close>

fun covered :: "approved \<Rightarrow> auth_action \<Rightarrow> bool" where
  "covered ap (ReadCol t c) = has_column (ap_footprint ap) t c"
| "covered ap (Insert t) = (fp_kind (ap_footprint ap) = Write \<and> has_table (ap_footprint ap) t)"
| "covered ap (Delete t) = (fp_kind (ap_footprint ap) = Write \<and> has_table (ap_footprint ap) t)"
| "covered ap (Update t c) =
     (fp_kind (ap_footprint ap) = Write \<and> has_column (ap_footprint ap) t c)"
| "covered ap (Pragma name) = (ap_lane ap = Owner \<or> fp_kind (ap_footprint ap) = Other)"
| "covered ap _ = True"

lemma enforce_iff:
  "enforce_authorizer debug ap al r a = (AAllow, r') \<longleftrightarrow>
     banned a al (ap_lane ap) = None \<and> covered ap a \<and> r' = r"
proof (cases "banned a al (ap_lane ap)")
  case None
  have rest: "ap_lane ap = Owner" if "a \<in> {Attach, Detach, Transaction, Savepoint} \<or> (\<exists>k. a = Ddl k) \<or> (\<exists>n. a = Unknown n)"
    using that None by (cases a) (auto split: if_splits)
  show ?thesis
    using None rest has_column_table [of "ap_footprint ap"]
    by (cases a) (auto simp: enforce_authorizer_def read_ok_iff write_ok_iff)
next
  case (Some p)
  then show ?thesis by (cases p) (auto simp: enforce_authorizer_def check_def)
qed

lemma enforce_pass_iff:
  "enforce_pass debug ap al r as = (AAllow, r') \<longleftrightarrow>
     r' = r \<and> (\<forall>a \<in> set as. banned a al (ap_lane ap) = None \<and> covered ap a)"
proof (induction as arbitrary: r)
  case (Cons a as)
  obtain x r1 where s: "enforce_authorizer debug ap al r a = (x, r1)" by (cases "enforce_authorizer debug ap al r a")
  show ?case
  proof (cases x)
    case AAllow
    with s enforce_iff [of debug ap al r a r1] Cons.IH [of r1] show ?thesis by auto
  next
    case ADeny
    with s enforce_iff [of debug ap al r a r] show ?thesis by auto
  qed
qed auto

subsection \<open>The two passes agree\<close>

lemma collect_step_covered:
  assumes "tables_ok (cs_footprint st)" "collect_authorizer al lane st a = (AAllow, st')"
    and "within (cs_footprint st') f" "cs_wrote st' \<longrightarrow> fp_kind f = Write"
    and "cs_pragma st' \<longrightarrow> lane = Owner \<or> fp_kind f = Other"
  shows "banned a al lane = None \<and> covered \<lparr>ap_footprint = f, ap_lane = lane\<rparr> a"
  using assms
  by (cases a) (auto simp: collect_authorizer_def within_def touch_table_has touch_column_has split: option.splits if_splits)

lemma collect_pass_covered:
  assumes "tables_ok (cs_footprint st)" "collect_pass al lane st as = (AAllow, st')"
    and "within (cs_footprint st') f" "cs_wrote st' \<longrightarrow> fp_kind f = Write"
    and "cs_pragma st' \<longrightarrow> lane = Owner \<or> fp_kind f = Other"
  shows "\<forall>a \<in> set as. banned a al lane = None \<and> covered \<lparr>ap_footprint = f, ap_lane = lane\<rparr> a"
  using assms
proof (induction as arbitrary: st)
  case (Cons a as)
  obtain r st1 where s: "collect_authorizer al lane st a = (r, st1)" by (cases "collect_authorizer al lane st a")
  with Cons.prems(2) have r: "r = AAllow" "collect_pass al lane st1 as = (AAllow, st')"
    by (cases r; simp)+
  have ok1: "tables_ok (cs_footprint st1)" using collect_tables_ok [OF Cons.prems(1), of al lane a] s by simp
  have grows: "within (cs_footprint st1) (cs_footprint st')" "cs_wrote st1 \<longrightarrow> cs_wrote st'" "cs_pragma st1 \<longrightarrow> cs_pragma st'"
    using collect_pass_grows [OF ok1, of al lane as] r(2) by simp_all
  have "banned a al lane = None \<and> covered \<lparr>ap_footprint = f, ap_lane = lane\<rparr> a"
    using collect_step_covered [OF Cons.prems(1) s [unfolded r(1)], of f] grows Cons.prems(3-5) within_trans by blast
  with Cons.IH [OF ok1 r(2) Cons.prems(3-5)] show ?case by simp
qed simp

lemma covered_step:
  assumes "tables_ok (cs_footprint st)" "within (cs_footprint st) (ap_footprint ap)"
    and "cs_wrote st \<longrightarrow> fp_kind (ap_footprint ap) = Write"
    and "banned a al (ap_lane ap) = None" "covered ap a"
  shows "\<exists>st'. collect_authorizer al (ap_lane ap) st a = (AAllow, st') \<and> tables_ok (cs_footprint st')
    \<and> within (cs_footprint st') (ap_footprint ap) \<and> (cs_wrote st' \<longrightarrow> fp_kind (ap_footprint ap) = Write)"
  using assms has_column_table [of "ap_footprint ap"]
  by (cases a) (auto simp: collect_authorizer_def within_def touch_table_has touch_column_has)

lemma covered_pass:
  assumes "tables_ok (cs_footprint st)" "within (cs_footprint st) (ap_footprint ap)"
    and "cs_wrote st \<longrightarrow> fp_kind (ap_footprint ap) = Write"
    and "\<forall>a \<in> set as. banned a al (ap_lane ap) = None \<and> covered ap a"
  shows "\<exists>st'. collect_pass al (ap_lane ap) st as = (AAllow, st')
    \<and> within (cs_footprint st') (ap_footprint ap) \<and> (cs_wrote st' \<longrightarrow> fp_kind (ap_footprint ap) = Write)"
  using assms
proof (induction as arbitrary: st)
  case (Cons a as)
  from covered_step [OF Cons.prems(1-3), of a al] Cons.prems(4) obtain st1 where
    st1: "collect_authorizer al (ap_lane ap) st a = (AAllow, st1)" "tables_ok (cs_footprint st1)"
      "within (cs_footprint st1) (ap_footprint ap)" "cs_wrote st1 \<longrightarrow> fp_kind (ap_footprint ap) = Write"
    by auto
  from Cons.IH [OF st1(2-4)] Cons.prems(4) st1(1) show ?case by simp
qed simp

end
