(* ===== verification/Node_Properties.thy ===== *)
theory Node_Properties
  imports Csv Footprint
begin

text \<open>
  Properties of the node's statement authorization and of the CSV import and export.
\<close>

definition sample_actions :: "auth_action list" where
  "sample_actions = [Select, ReadCol ''t'' ''a'', ReadCol ''t'' ''b'', Update ''t'' ''b'']"

definition no_debug :: "auth_action \<Rightarrow> string" where
  "no_debug a = ''action''"

text \<open>C13. A statement whose collect pass was allowed runs under its own
  footprint: when the actions of the two passes are the same, and the statement did not both
  write and use a PRAGMA unless the owner asked for it, the enforce pass allows every action
  and leaves the reason as it was.\<close>
theorem enforce_replays_collect:
  assumes "collect_pass al lane collect_default as = (AAllow, st)"
    and "lane = Owner \<or> \<not> (cs_wrote st \<and> cs_pragma st)"
  shows "enforce_pass debug \<lparr>ap_footprint = collect_finish st, ap_lane = lane\<rparr> al r as = (AAllow, r)"
proof -
  have "\<forall>a \<in> set as. banned a al lane = None \<and> covered \<lparr>ap_footprint = collect_finish st, ap_lane = lane\<rparr> a"
  proof (rule collect_pass_covered [OF _ assms(1)])
    show "tables_ok (cs_footprint collect_default)"
      by (simp add: collect_default_def footprint_default_def tables_ok_def)
    show "within (cs_footprint st) (collect_finish st)" by (simp add: within_def collect_finish_def)
    show "cs_wrote st \<longrightarrow> fp_kind (collect_finish st) = Write"
      by (simp add: collect_finish_def collect_kind_def)
    show "cs_pragma st \<longrightarrow> lane = Owner \<or> fp_kind (collect_finish st) = Other"
      using assms(2) by (auto simp: collect_finish_def collect_kind_def)
  qed
  then show ?thesis by (simp add: enforce_pass_iff)
qed

theorem enforce_replays_collect_witness:
  "\<exists>st. collect_pass [] Remote collect_default sample_actions = (AAllow, st)
     \<and> enforce_pass no_debug \<lparr>ap_footprint = collect_finish st, ap_lane = Remote\<rparr> [] None sample_actions
       = (AAllow, None)"
proof -
  obtain x st where c: "collect_pass [] Remote collect_default sample_actions = (x, st)"
    by (cases "collect_pass [] Remote collect_default sample_actions")
  have x: "x = AAllow" and p: "\<not> cs_pragma st"
    using c by (auto simp: sample_actions_def collect_authorizer_def collect_default_def)
  have "enforce_pass no_debug \<lparr>ap_footprint = collect_finish st, ap_lane = Remote\<rparr> [] None sample_actions = (AAllow, None)"
    by (rule enforce_replays_collect) (use c x p in simp_all)
  with c x show ?thesis by simp
qed

text \<open>C19. A statement the enforce pass lets through does nothing the
  approved footprint does not name: collecting its actions finds only tables and columns of
  the approved footprint, and it writes only when the approved kind is a write.\<close>
theorem enforce_never_exceeds:
  assumes "enforce_pass debug ap al r as = (AAllow, r')"
  shows "\<exists>st. collect_pass al (ap_lane ap) collect_default as = (AAllow, st)
    \<and> within (collect_finish st) (ap_footprint ap)
    \<and> (fp_kind (collect_finish st) \<noteq> Write \<or> fp_kind (ap_footprint ap) = Write)"
proof -
  from assms have "\<forall>a \<in> set as. banned a al (ap_lane ap) = None \<and> covered ap a"
    by (simp add: enforce_pass_iff)
  moreover have "tables_ok (cs_footprint collect_default)" "\<not> cs_wrote collect_default"
      "within (cs_footprint collect_default) (ap_footprint ap)"
    by (simp_all add: collect_default_def footprint_default_def tables_ok_def within_def has_table_def
        has_column_def bmap_get_def)
  ultimately obtain st where
    "collect_pass al (ap_lane ap) collect_default as = (AAllow, st)"
    "within (cs_footprint st) (ap_footprint ap)" "cs_wrote st \<longrightarrow> fp_kind (ap_footprint ap) = Write"
    using covered_pass [of collect_default ap as al] by blast
  then show ?thesis by (auto simp: within_def collect_finish_def collect_kind_def)
qed

text \<open>The sample statement, run under a footprint that names one column more.\<close>

definition sample_approved :: approved where
  "sample_approved = \<lparr>ap_footprint = from_tables Write [(''t'', [''a'', ''b'', ''c''])], ap_lane = Remote\<rparr>"

theorem enforce_never_exceeds_witness:
  "\<exists>st. collect_pass [] Remote collect_default sample_actions = (AAllow, st)
    \<and> within (collect_finish st) (ap_footprint sample_approved)"
proof -
  have lane: "ap_lane sample_approved = Remote" by (simp add: sample_approved_def)
  have "\<forall>a \<in> set sample_actions. banned a [] (ap_lane sample_approved) = None \<and> covered sample_approved a"
    by (simp add: sample_actions_def sample_approved_def from_tables_def has_column_def
        has_table_def bmap_get_def bset_of_def)
  then have "enforce_pass no_debug sample_approved [] None sample_actions = (AAllow, None)"
    by (simp only: enforce_pass_iff)
  from enforce_never_exceeds [OF this] show ?thesis unfolding lane by blast
qed

text \<open>The two callbacks ban the same actions: when an action is banned
  the collect callback denies it, records a construct in the footprint and keeps the first
  reason, and the enforce callback denies it under every approved footprint. An action that
  is not banned is never denied by the collect callback.\<close>
theorem banned_in_both_passes:
  "case banned a al lane of
     None \<Rightarrow> fst (collect_authorizer al lane st a) = AAllow
   | Some (construct, reason) \<Rightarrow>
       collect_authorizer al lane st a =
         (ADeny, st\<lparr>cs_footprint := deny_construct (cs_footprint st) construct,
                   cs_denied := (if cs_denied st = None then Some reason else cs_denied st)\<rparr>)
       \<and> has_denied (cs_footprint (snd (collect_authorizer al lane st a)))
       \<and> enforce_authorizer debug \<lparr>ap_footprint = f, ap_lane = lane\<rparr> al r a
         = (ADeny, if r = None then Some reason else r)"
  by (auto simp: collect_authorizer_def enforce_authorizer_def check_def split: option.splits)

text \<open>A document written by an export is accepted by an import, with the
  table's columns as its header and each cell as the value the export wrote: texts, blobs and
  nulls come back as they were, numbers as their text, for the database to convert.\<close>
theorem csv_import_of_export:
  assumes "cols \<noteq> []" "[] \<notin> set cols" "distinct (map lc cols)"
  shows "import_rows lc (export_document cols rows) =
    Inr (cols, map (\<lambda>r. map (\<lambda>name. csv_value (cell_value r name)) cols) rows)"
  by (rule import_export [OF assms])

definition sample_cols :: "string list" where
  "sample_cols = [''id'', ''note'']"

definition sample_rows :: "row list" where
  "sample_rows = [\<lparr>row_seq = 0, row_cells = [(''id'', Integer 7), (''note'', Text ''a,b'')]\<rparr>,
                  \<lparr>row_seq = 1, row_cells = []\<rparr>]"

theorem csv_import_of_export_witness:
  "import_rows (map to_lower) (export_document sample_cols sample_rows)
   = Inr (sample_cols, [[Text ''7'', Text ''a,b''], [VNull, VNull]])"
proof -
  have "sample_cols \<noteq> []" "[] \<notin> set sample_cols" "distinct (map (map to_lower) sample_cols)"
    by (simp_all add: sample_cols_def to_lower_def)
  from csv_import_of_export [OF this, of sample_rows]
  show ?thesis
    by (simp add: sample_cols_def sample_rows_def cell_value_def show_int_def show_nat.simps digit_char_def char_of_def bit_Suc_0_iff)
qed

text \<open>A space after a closing quote is neither an error nor dropped: it
  becomes part of the field.\<close>
theorem space_after_quote_kept:
  "parse_csv (CSV_DQ # ''a'' @ [CSV_DQ] @ '' ,b'') = Inr [[(''a '', True), (''b'', False)]]"
  "parse_csv (CSV_DQ # ''a'' @ [CSV_DQ] @ ''b'') = Inl DataAfterQuote"
  by (code_simp)+

end
