(* ===== verification/Sparql_Ast.thy ===== *)
theory Sparql_Ast
  imports Text_Lib
begin

text \<open>
  RDF terms (\<open>crates/sparql/src/term.rs\<close>) and the syntax tree of the supported SPARQL
  subset (\<open>crates/sparql/src/ast.rs\<close>).
\<close>

subsection \<open>Terms\<close>

definition XSD :: string where
  "XSD = ''http://www.w3.org/2001/XMLSchema#''"

definition RDF_TYPE :: string where
  "RDF_TYPE = ''http://www.w3.org/1999/02/22-rdf-syntax-ns#type''"

definition K_IRI :: int where "K_IRI = 0"
definition K_BNODE :: int where "K_BNODE = 1"
definition K_LIT :: int where "K_LIT = 2"

lemma kinds [simp]:
  "K_IRI \<noteq> K_BNODE" "K_BNODE \<noteq> K_IRI" "K_IRI \<noteq> K_LIT" "K_LIT \<noteq> K_IRI" "K_BNODE \<noteq> K_LIT" "K_LIT \<noteq> K_BNODE"
  by (simp_all add: K_IRI_def K_BNODE_def K_LIT_def)

record rdf_term =
  tm_kind :: int
  tm_lex :: string
  tm_dtype :: string
  tm_lang :: string

definition term_iri :: "string \<Rightarrow> rdf_term" where
  "term_iri lx = \<lparr>tm_kind = K_IRI, tm_lex = lx, tm_dtype = [], tm_lang = []\<rparr>"

definition term_bnode :: "string \<Rightarrow> rdf_term" where
  "term_bnode label = \<lparr>tm_kind = K_BNODE, tm_lex = label, tm_dtype = [], tm_lang = []\<rparr>"

definition term_lit :: "string \<Rightarrow> rdf_term" where
  "term_lit lx = \<lparr>tm_kind = K_LIT, tm_lex = lx, tm_dtype = [], tm_lang = []\<rparr>"

definition term_lit_dt :: "string \<Rightarrow> string \<Rightarrow> rdf_term" where
  "term_lit_dt lx dt = \<lparr>tm_kind = K_LIT, tm_lex = lx, tm_dtype = dt, tm_lang = []\<rparr>"

definition term_lit_lang :: "string \<Rightarrow> string \<Rightarrow> rdf_term" where
  "term_lit_lang lx lg = \<lparr>tm_kind = K_LIT, tm_lex = lx, tm_dtype = [], tm_lang = lg\<rparr>"

lemma term_kinds [simp]:
  "tm_kind (term_iri l) = K_IRI" "tm_kind (term_bnode l) = K_BNODE" "tm_kind (term_lit l) = K_LIT"
  "tm_kind (term_lit_dt l d) = K_LIT" "tm_kind (term_lit_lang l g) = K_LIT"
  by (simp_all add: term_iri_def term_bnode_def term_lit_def term_lit_dt_def term_lit_lang_def)

definition numeric_types :: "string list" where
  "numeric_types =
     [''integer'', ''decimal'', ''double'', ''float'', ''long'', ''int'', ''short'', ''byte'',
      ''nonNegativeInteger'', ''positiveInteger'', ''negativeInteger'', ''nonPositiveInteger'',
      ''unsignedLong'', ''unsignedInt'', ''unsignedShort'', ''unsignedByte'']"

definition is_numeric_dtype :: "string \<Rightarrow> bool" where
  "is_numeric_dtype dt =
     (case strip_prefix XSD dt of None \<Rightarrow> False | Some r \<Rightarrow> r \<in> set numeric_types)"

subsection \<open>Syntax\<close>

datatype slot = SVar string | Ground rdf_term

fun slot_var :: "slot \<Rightarrow> string option" where
  "slot_var (SVar v) = Some v"
| "slot_var (Ground t) = None"

record triple_pattern =
  tp_s :: slot
  tp_p :: slot
  tp_o :: slot

definition slots :: "triple_pattern \<Rightarrow> slot list" where
  "slots tp = [tp_s tp, tp_p tp, tp_o tp]"

datatype cmp_op = CEq | CNe | CLt | CGt | CLe | CGe

fun cmp_sql :: "cmp_op \<Rightarrow> string" where
  "cmp_sql CEq = ''=''"
| "cmp_sql CNe = ''<>''"
| "cmp_sql CLt = ''<''"
| "cmp_sql CGt = ''>''"
| "cmp_sql CLe = ''<=''"
| "cmp_sql CGe = ''>=''"

datatype func = FNone | FStr | FLang | FDatatype

record val_operand =
  vl_func :: func
  vl_var :: "string option"
  vl_term :: "rdf_term option"

datatype expr =
    EOr expr expr
  | EAnd expr expr
  | ENot expr
  | EBound string
  | ERegex expr expr "expr option"
  | ECmp cmp_op expr expr
  | EVal val_operand

datatype group =
  Group (gr_triples: "triple_pattern list") (gr_filters: "expr list")
    (gr_optionals: "group list") (gr_unions: "group list list")

definition group_default :: group where
  "group_default = Group [] [] [] []"

datatype form = FSelect | FConstruct | FAsk

datatype agg = AggNone | AggCount | AggSum | AggMin | AggMax | AggAvg

record sel_item =
  si_agg :: agg
  si_distinct :: bool
  si_star :: bool
  si_var :: "string option"
  si_alias :: string

record ord_key =
  ok_var :: string
  ok_desc :: bool

record query =
  q_form :: form
  q_distinct :: bool
  q_star :: bool
  q_sel :: "sel_item list"
  q_group_by :: "string list"
  q_template :: "triple_pattern list"
  q_pattern :: group
  q_order :: "ord_key list"
  q_limit :: int
  q_offset :: int
  q_prefixes :: "(string \<times> string) list"
  q_base :: "string option"

datatype update_kind = InsertData | DeleteData | DeleteWhere

record update =
  up_kind :: update_kind
  up_triples :: "triple_pattern list"

datatype parsed = PQuery query | PUpdate update

end
