(* ===== verification/Sparql_Compile.thy ===== *)
theory Sparql_Compile
  imports Sparql_Ast
begin

text \<open>
  The compiler from a parsed query to one SQL statement (\<open>crates/sparql/src/compile.rs\<close>).

  \<open>ids\<close> is the dictionary: the identifier of a ground term, 0 when it is absent. A function
  of the code that appends to a string returns what it appends.
\<close>

type_synonym term_ids = "rdf_term \<Rightarrow> int"

datatype compile_error =
    UnionTooLarge | RegexOperand | CmpOperand | FilterForm | AggConstruct | StarAgg
  | NotGrouped string | StarNoVars | OrderNotProjected string | GroundValPanic

definition MAX_FLATS :: nat where "MAX_FLATS = 128"

subsection \<open>Flattening\<close>

record flat =
  fl_tps :: "triple_pattern list"
  fl_filts :: "expr list"
  fl_opts :: "group list"

definition flat_default :: flat where
  "flat_default = \<lparr>fl_tps = [], fl_filts = [], fl_opts = []\<rparr>"

definition add_group :: "group \<Rightarrow> flat \<Rightarrow> flat" where
  "add_group g f = f\<lparr>fl_tps := fl_tps f @ gr_triples g, fl_filts := fl_filts f @ gr_filters g,
                    fl_opts := fl_opts f @ gr_optionals g\<rparr>"

text \<open>The flats of one union block: \<open>todo\<close> are the pairs of a flat and a branch that are left,
  in the order of the two loops; \<open>fg\<close> flattens a branch seeded with a flat.\<close>

fun expand ::
  "('g \<Rightarrow> flat \<Rightarrow> (compile_error, flat list) result) \<Rightarrow> flat list \<Rightarrow> (flat \<times> 'g) list
    \<Rightarrow> (compile_error, flat list) result" where
  "expand fg acc [] = Inr acc"
| "expand fg acc ((f, br) # todo) =
     rbind (fg br f) (\<lambda>seeded.
       if MAX_FLATS < length (acc @ seeded) then Inl UnionTooLarge
       else expand fg (acc @ seeded) todo)"

lemma expand_cong [fundef_cong]:
  "\<lbrakk>acc = acc'; todo = todo'; \<And>f br. (f, br) \<in> set todo' \<Longrightarrow> fg br f = fg' br f\<rbrakk>
    \<Longrightarrow> expand fg acc todo = expand fg' acc' todo'"
proof (induction todo' arbitrary: acc acc' todo)
  case (Cons p ps)
  then show ?case by (cases p) (auto simp: rbind_def split: sum.splits)
qed simp

fun expand_all ::
  "('g \<Rightarrow> flat \<Rightarrow> (compile_error, flat list) result) \<Rightarrow> flat list \<Rightarrow> 'g list list
    \<Rightarrow> (compile_error, flat list) result" where
  "expand_all fg fs [] = Inr fs"
| "expand_all fg fs (brs # us) =
     rbind (expand fg [] (concat (map (\<lambda>f. map (Pair f) brs) fs))) (\<lambda>fs'. expand_all fg fs' us)"

lemma expand_all_cong [fundef_cong]:
  "\<lbrakk>fs = fs'; us = us'; \<And>brs br f. brs \<in> set us' \<Longrightarrow> br \<in> set brs \<Longrightarrow> fg br f = fg' br f\<rbrakk>
    \<Longrightarrow> expand_all fg fs us = expand_all fg' fs' us'"
proof (induction us' arbitrary: fs fs' us)
  case (Cons brs us')
  have "expand fg [] (concat (map (\<lambda>f. map (Pair f) brs) fs')) = expand fg' [] (concat (map (\<lambda>f. map (Pair f) brs) fs'))"
    using Cons.prems(3) by (intro expand_cong) auto
  moreover have "expand_all fg x us' = expand_all fg' x us'" for x
    by (rule Cons.IH) (use Cons.prems(3) in auto)
  ultimately show ?case using Cons.prems(1,2) by (auto simp: rbind_def split: sum.splits)
qed simp

text \<open>A group is flattened onto one flat; the code's list of flats only ever starts with one.\<close>

function flatten_group :: "group \<Rightarrow> flat \<Rightarrow> (compile_error, flat list) result" where
  "flatten_group (Group ts fs os us) f = expand_all flatten_group [add_group (Group ts fs os us) f] us"
  by pat_completeness auto
termination
proof (relation "measure (\<lambda>(g, f). size g)")
  fix ts :: "triple_pattern list" and fs :: "expr list" and os us brs and br :: group and f f' :: flat
  assume "brs \<in> set us" "br \<in> set brs"
  then have "size br < size_list (size_list size) us"
  proof (induction us)
    case (Cons b us)
    moreover have "size br < Suc (size_list size brs)" if "br \<in> set brs" for brs
      using that by (induction brs) auto
    ultimately show ?case by fastforce
  qed simp
  then show "((br, f'), (Group ts fs os us, f)) \<in> measure (\<lambda>(g, f). size g)"
    by simp
qed simp

subsection \<open>Variables\<close>

record vinfo =
  vi_name :: string
  vi_idref :: string
  vi_alias :: string
  vi_optional :: bool

type_synonym vlist = "vinfo list"

definition vl_find :: "vlist \<Rightarrow> string \<Rightarrow> vinfo option" where
  "vl_find vs name = List.find (\<lambda>vi. vi_name vi = name) vs"

definition vl_add :: "string \<Rightarrow> string \<Rightarrow> bool \<Rightarrow> string \<Rightarrow> vlist \<Rightarrow> vlist" where
  "vl_add name idref opt alias_prefix vs =
     vs @ [\<lparr>vi_name = name, vi_idref = idref, vi_alias = alias_prefix @ show_nat (length vs), vi_optional = opt\<rparr>]"

definition add_conj :: "string \<Rightarrow> string \<Rightarrow> string" where
  "add_conj w cond = (if w = [] then cond else w @ '' AND '' @ cond)"

definition push_new :: "string \<Rightarrow> string list \<Rightarrow> string list" where
  "push_new x out = (if x \<in> set out then out else out @ [x])"

primrec expr_collect_vars :: "expr \<Rightarrow> string list \<Rightarrow> string list" where
  "expr_collect_vars (EOr a b) out = expr_collect_vars b (expr_collect_vars a out)"
| "expr_collect_vars (EAnd a b) out = expr_collect_vars b (expr_collect_vars a out)"
| "expr_collect_vars (ENot a) out = expr_collect_vars a out"
| "expr_collect_vars (EBound v) out = push_new v out"
| "expr_collect_vars (ERegex tx pat fl) out =
     (let out' = expr_collect_vars pat (expr_collect_vars tx out)
      in case map_option expr_collect_vars fl of None \<Rightarrow> out' | Some f \<Rightarrow> f out')"
| "expr_collect_vars (ECmp op a b) out = expr_collect_vars b (expr_collect_vars a out)"
| "expr_collect_vars (EVal v) out = (case vl_var v of None \<Rightarrow> out | Some x \<Rightarrow> push_new x out)"

definition slots_collect_vars :: "triple_pattern list \<Rightarrow> string list \<Rightarrow> string list" where
  "slots_collect_vars tps out =
     foldl (\<lambda>acc v. push_new v acc) out (List.map_filter slot_var (concat (map slots tps)))"

definition flat_collect_vars :: "flat \<Rightarrow> string list \<Rightarrow> string list" where
  "flat_collect_vars fl out =
     foldl (\<lambda>acc og. slots_collect_vars (gr_triples og) acc) (slots_collect_vars (fl_tps fl) out) (fl_opts fl)"

subsection \<open>Expressions\<close>

definition SQ :: char where "SQ = CHR 0x27"

definition sql_quote :: "string \<Rightarrow> string" where
  "sql_quote s = SQ # concat (map (\<lambda>c. if c = SQ then [SQ, SQ] else [c]) s) @ [SQ]"

definition numeric_lit :: "rdf_term \<Rightarrow> bool" where
  "numeric_lit t \<longleftrightarrow> tm_kind t = K_LIT \<and> is_numeric_dtype (tm_dtype t)"

definition operand_is_numeric_lit :: "val_operand \<Rightarrow> bool" where
  "operand_is_numeric_lit v = (case vl_term v of None \<Rightarrow> False | Some t \<Rightarrow> numeric_lit t)"

definition lowered_text :: "bool \<Rightarrow> string \<Rightarrow> string" where
  "lowered_text lowered s = (if lowered then ''lower('' @ s @ '')'' else s)"

text \<open>An operand with neither variable nor term, which the code panics on, is an error here.\<close>

definition compile_value :: "val_operand \<Rightarrow> vlist \<Rightarrow> bool \<Rightarrow> bool \<Rightarrow> (compile_error, string) result" where
  "compile_value v vs numeric lowered =
     (case vl_var v of
        Some var \<Rightarrow>
          (case vl_find vs var of
             None \<Rightarrow> Inr ''NULL''
           | Some vi \<Rightarrow>
               Inr (lowered_text lowered
                 (if numeric \<and> vl_func v = FNone then ''CAST('' @ vi_alias vi @ ''.lex AS REAL)''
                  else vi_alias vi @ ''.''
                    @ (case vl_func v of FLang \<Rightarrow> ''lang'' | FDatatype \<Rightarrow> ''dtype'' | _ \<Rightarrow> ''lex''))))
      | None \<Rightarrow>
          (case vl_term v of
             None \<Rightarrow> Inl GroundValPanic
           | Some t \<Rightarrow>
               if numeric_lit t \<and> numeric then Inr (tm_lex t)
               else Inr (lowered_text lowered (sql_quote (tm_lex t)))))"

fun as_val :: "expr \<Rightarrow> (compile_error, val_operand) result" where
  "as_val (EVal v) = Inr v"
| "as_val _ = Inl RegexOperand"

definition compile_operand :: "expr \<Rightarrow> vlist \<Rightarrow> (compile_error, string) result" where
  "compile_operand e vs = rbind (as_val e) (\<lambda>v. compile_value v vs False False)"

definition compile_cmp :: "cmp_op \<Rightarrow> val_operand \<Rightarrow> val_operand \<Rightarrow> vlist \<Rightarrow> (compile_error, string) result" where
  "compile_cmp op av bv vs =
     (let numeric = (operand_is_numeric_lit av \<or> operand_is_numeric_lit bv);
          lowered = (vl_func av = FLang \<or> vl_func bv = FLang)
      in case (vl_var av, vl_var bv) of
        (Some a, Some b) \<Rightarrow>
          if (op = CEq \<or> op = CNe) \<and> vl_func av = FNone \<and> vl_func bv = FNone then
            (case (vl_find vs a, vl_find vs b) of
               (Some va, Some vb) \<Rightarrow>
                 Inr (''('' @ vi_alias va @ ''.id '' @ cmp_sql op @ '' '' @ vi_alias vb @ ''.id)'')
             | _ \<Rightarrow> Inr ''0'')
          else rbind (compile_value av vs numeric lowered) (\<lambda>x.
                 rbind (compile_value bv vs numeric lowered) (\<lambda>y.
                   Inr (''('' @ x @ '' '' @ cmp_sql op @ '' '' @ y @ '')'')))
      | _ \<Rightarrow>
          rbind (compile_value av vs numeric lowered) (\<lambda>x.
            rbind (compile_value bv vs numeric lowered) (\<lambda>y.
              Inr (''('' @ x @ '' '' @ cmp_sql op @ '' '' @ y @ '')''))))"

fun compile_expr :: "expr \<Rightarrow> vlist \<Rightarrow> (compile_error, string) result" where
  "compile_expr (EOr a b) vs =
     rbind (compile_expr a vs) (\<lambda>x. rbind (compile_expr b vs) (\<lambda>y. Inr (''('' @ x @ '' OR '' @ y @ '')'')))"
| "compile_expr (EAnd a b) vs =
     rbind (compile_expr a vs) (\<lambda>x. rbind (compile_expr b vs) (\<lambda>y. Inr (''('' @ x @ '' AND '' @ y @ '')'')))"
| "compile_expr (ENot a) vs = rbind (compile_expr a vs) (\<lambda>x. Inr (''(NOT '' @ x @ '')''))"
| "compile_expr (EBound var) vs =
     (case vl_find vs var of
        Some vi \<Rightarrow> Inr (''('' @ vi_alias vi @ ''.id IS NOT NULL)'')
      | None \<Rightarrow> Inr ''(0)'')"
| "compile_expr (ERegex tx pat fl) vs =
     rbind (compile_operand pat vs) (\<lambda>p.
       rbind (compile_operand tx vs) (\<lambda>t.
         rbind (case fl of None \<Rightarrow> Inr [SQ, SQ] | Some f \<Rightarrow> compile_operand f vs) (\<lambda>g.
           Inr (''rdf_regexp('' @ p @ '','' @ t @ '','' @ g @ '')''))))"
| "compile_expr (ECmp op a b) vs =
     (case (a, b) of
        (EVal av, EVal bv) \<Rightarrow> compile_cmp op av bv vs
      | _ \<Rightarrow> Inl CmpOperand)"
| "compile_expr (EVal v) vs =
     (case (vl_var v, vl_term v) of
        (None, Some t) \<Rightarrow>
          if tm_kind t = K_LIT \<and> tm_dtype t = XSD @ ''boolean''
          then Inr (if tm_lex t = ''true'' then ''1'' else ''0'')
          else Inl FilterForm
      | _ \<Rightarrow> Inl FilterForm)"

text \<open>A list of filters, each in brackets, joined to a condition.\<close>

fun add_filters :: "expr list \<Rightarrow> vlist \<Rightarrow> string \<Rightarrow> (compile_error, string) result" where
  "add_filters [] vs w = Inr w"
| "add_filters (f # fs) vs w =
     rbind (compile_expr f vs) (\<lambda>e. add_filters fs vs (add_conj w (''('' @ e @ '')'')))"

subsection \<open>One flat\<close>

definition slot_cols :: "string list" where
  "slot_cols = [''s'', ''p'', ''o'']"

text \<open>A slot of the pattern with table alias \<open>al\<close>: bind a new variable, or add a condition.\<close>

definition bind_slot ::
  "term_ids \<Rightarrow> string \<Rightarrow> string \<Rightarrow> string \<times> vlist \<Rightarrow> string \<times> slot \<Rightarrow> string \<times> vlist" where
  "bind_slot ids pre al st cs =
     (case (st, cs) of
        ((w, vs), (col, SVar v)) \<Rightarrow>
          (case vl_find vs v of
             Some vi \<Rightarrow> (add_conj w (al @ ''.'' @ col @ ''='' @ vi_idref vi), vs)
           | None \<Rightarrow> (w, vl_add v (al @ ''.'' @ col) False pre vs))
      | ((w, vs), (col, Ground t)) \<Rightarrow>
          (add_conj w (al @ ''.'' @ col @ ''='' @ show_int (ids t)), vs))"

text \<open>The joined triples, with the aliases \<open>name i\<close>.\<close>

fun bind_triples ::
  "term_ids \<Rightarrow> string \<Rightarrow> (nat \<Rightarrow> string) \<Rightarrow> nat \<Rightarrow> triple_pattern list \<Rightarrow> string \<times> string \<times> vlist
    \<Rightarrow> string \<times> string \<times> vlist" where
  "bind_triples ids pre name i [] st = st"
| "bind_triples ids pre name i (tp # tps) (from, w, vs) =
     (let al = name i;
          from' = from @ (if i = 0 then ''rdf_triples '' @ al else '' JOIN rdf_triples '' @ al @ '' ON 1=1'');
          (w', vs') = foldl (bind_slot ids pre al) (add_conj w (al @ ''.g=0''), vs) (zip slot_cols (slots tp))
      in bind_triples ids pre name (Suc i) tps (from', w', vs'))"

text \<open>The \<open>ON\<close> condition of an optional group, and the variables it adds.\<close>

fun join_vars :: "string \<Rightarrow> nat \<Rightarrow> vlist \<Rightarrow> string \<times> vlist \<Rightarrow> string \<times> vlist" where
  "join_vars opt j [] st = st"
| "join_vars opt j (iv # ivs) (cond, vs) =
     join_vars opt (Suc j) ivs
       (case vl_find vs (vi_name iv) of
          Some outer \<Rightarrow>
            if \<not> vi_optional outer
            then (add_conj cond (opt @ ''.c'' @ show_nat j @ ''='' @ vi_idref outer), vs)
            else (cond, vs)
        | None \<Rightarrow> (cond, vl_add (vi_name iv) (opt @ ''.c'' @ show_nat j) True ''v'' vs))"

definition or_default :: "string \<Rightarrow> string \<Rightarrow> string" where
  "or_default d s = (if s = [] then d else s)"

definition term_join :: "vinfo \<Rightarrow> string" where
  "term_join vi = '' rdf_terms '' @ vi_alias vi @ '' ON '' @ vi_alias vi @ ''.id='' @ vi_idref vi"

definition compile_optional ::
  "term_ids \<Rightarrow> nat \<Rightarrow> group \<Rightarrow> string \<times> vlist \<Rightarrow> (compile_error, string \<times> vlist) result" where
  "compile_optional ids gi og st =
     (if gr_triples og = [] then Inr st
      else case st of (from, vs) \<Rightarrow>
        (case bind_triples ids (''f'' @ show_nat gi @ ''_'') (\<lambda>j. ''o'' @ show_nat gi @ ''_'' @ show_nat j) 0
                (gr_triples og) ([], [], []) of
           (ifrom, iwhere, ivs) \<Rightarrow>
             let used = foldl (\<lambda>acc f. expr_collect_vars f acc) [] (gr_filters og);
                 ifrom' = ifrom @ concat (map (\<lambda>iv. '' JOIN'' @ term_join iv) (List.map_filter (vl_find ivs) used))
             in rbind (add_filters (gr_filters og) ivs iwhere) (\<lambda>iwhere'.
                  let opt = ''opt'' @ show_nat gi;
                      isel = join '','' (map (\<lambda>(j, iv). vi_idref iv @ '' AS c'' @ show_nat j) (enumerate 0 ivs));
                      (cond, vs') = join_vars opt 0 ivs ([], vs)
                  in Inr (from @ '' LEFT JOIN (SELECT '' @ or_default ''1'' isel @ '' FROM '' @ ifrom'
                            @ (if iwhere' = [] then [] else '' WHERE '') @ iwhere' @ '') '' @ opt @ '' ON ''
                            @ or_default ''1=1'' cond, vs'))))"

fun compile_optionals ::
  "term_ids \<Rightarrow> nat \<Rightarrow> group list \<Rightarrow> string \<times> vlist \<Rightarrow> (compile_error, string \<times> vlist) result" where
  "compile_optionals ids gi [] st = Inr st"
| "compile_optionals ids gi (og # ogs) st =
     rbind (compile_optional ids gi og st) (compile_optionals ids (Suc gi) ogs)"

text \<open>The five columns of a projected variable.\<close>

definition proj_cols :: "vlist \<Rightarrow> nat \<times> string \<Rightarrow> string" where
  "proj_cols vs iname =
     (case iname of (i, name) \<Rightarrow>
        let n = show_nat i
        in case vl_find vs name of
          Some vi \<Rightarrow>
            (let a = vi_alias vi
             in a @ ''.id AS i'' @ n @ '','' @ a @ ''.kind AS k'' @ n @ '','' @ a @ ''.lex AS x'' @ n @ '',''
                @ a @ ''.dtype AS d'' @ n @ '','' @ a @ ''.lang AS g'' @ n)
        | None \<Rightarrow>
            ''NULL AS i'' @ n @ '',NULL AS k'' @ n @ '',NULL AS x'' @ n @ '',NULL AS d'' @ n @ '',NULL AS g'' @ n)"

definition compile_flat :: "term_ids \<Rightarrow> flat \<Rightarrow> string list \<Rightarrow> (compile_error, string) result" where
  "compile_flat ids fl proj =
     (case bind_triples ids ''v'' (\<lambda>i. ''t'' @ show_nat i) 0 (fl_tps fl) ([], [], []) of
        (from, w, vs) \<Rightarrow>
          let from1 = (if fl_tps fl = [] then from @ ''(SELECT 1 AS one) one_'' else from)
          in rbind (compile_optionals ids 0 (fl_opts fl) (from1, vs)) (\<lambda>(from2, vs').
               let from3 = from2 @ concat (map (\<lambda>vi. (if vi_optional vi then '' LEFT JOIN'' else '' JOIN'') @ term_join vi) vs')
               in rbind (add_filters (fl_filts fl) vs' w) (\<lambda>w'.
                    let sel = join '','' (map (proj_cols vs') (enumerate 0 proj));
                        sel' = (if proj = [] then ''1 AS one_'' else sel)
                    in Inr (''SELECT '' @ sel' @ '' FROM '' @ from3 @ (if w' = [] then [] else '' WHERE '' @ w')))))"

subsection \<open>Whole queries\<close>

definition order_expr :: "string \<Rightarrow> nat \<Rightarrow> bool \<Rightarrow> string" where
  "order_expr ord idx desc =
     (let dir = (if desc then '' DESC'' else []);
          n = show_nat idx;
          ty = (\<lambda>t. [SQ] @ XSD @ t @ [SQ])
      in ord @ (if ord = [] then [] else '','')
         @ ''CASE WHEN d'' @ n @ '' IN (''
         @ join '','' (map ty [''integer'', ''decimal'', ''double'', ''float'', ''long'', ''int''])
         @ '') THEN CAST(x'' @ n @ '' AS REAL) END'' @ dir @ '',x'' @ n @ dir)"

text \<open>\<open>iter().position()\<close>; a missing column prints as \<open>usize::MAX\<close>.\<close>

fun position_of :: "string \<Rightarrow> string list \<Rightarrow> nat option" where
  "position_of x [] = None"
| "position_of x (y # ys) = (if y = x then Some 0 else map_option Suc (position_of x ys))"

definition column_of :: "string list \<Rightarrow> string option \<Rightarrow> nat" where
  "column_of inner v =
     (case Option.bind v (\<lambda>x. position_of x inner) of Some j \<Rightarrow> j | None \<Rightarrow> 2 ^ 64 - 1)"

definition agg_mode :: "query \<Rightarrow> bool" where
  "agg_mode q \<longleftrightarrow> q_group_by q \<noteq> [] \<or> list_ex (\<lambda>it. si_agg it \<noteq> AggNone) (q_sel q)"

text \<open>The visible names of an aggregate query.\<close>

fun grouped_names :: "string list \<Rightarrow> sel_item list \<Rightarrow> (compile_error, string list) result" where
  "grouped_names gs [] = Inr []"
| "grouped_names gs (it # its) =
     (let var = (case si_var it of None \<Rightarrow> [] | Some v \<Rightarrow> v)
      in if si_agg it = AggNone \<and> var \<notin> set gs then Inl (NotGrouped var)
         else rbind (grouped_names gs its) (\<lambda>ns. Inr (si_alias it # ns)))"

definition visible :: "query \<Rightarrow> flat list \<Rightarrow> (compile_error, string list) result" where
  "visible q flats =
     (case q_form q of
        FConstruct \<Rightarrow>
          if agg_mode q then Inl AggConstruct else Inr (slots_collect_vars (q_template q) [])
      | FAsk \<Rightarrow> Inr []
      | FSelect \<Rightarrow>
          if agg_mode q then (if q_star q then Inl StarAgg else grouped_names (q_group_by q) (q_sel q))
          else if q_star q then
            (let all = foldl (\<lambda>acc f. flat_collect_vars f acc) [] flats;
                 vis = foldl (\<lambda>acc v. push_new v acc) [] (filter (\<lambda>v. strip_prefix ''~bn~'' v = None) all)
             in if vis = [] then Inl StarNoVars else Inr vis)
          else Inr (map si_alias (q_sel q)))"

definition inner_names :: "query \<Rightarrow> string list \<Rightarrow> string list" where
  "inner_names q vis =
     (if agg_mode q then
        foldl (\<lambda>acc it. case si_var it of
                 Some v \<Rightarrow> if si_agg it \<noteq> AggNone then push_new v acc else acc | None \<Rightarrow> acc)
          (foldl (\<lambda>acc g. push_new g acc) [] (q_group_by q)) (q_sel q)
      else foldl (\<lambda>acc k. push_new (ok_var k) acc) vis (q_order q))"

definition agg_fun :: "agg \<Rightarrow> string" where
  "agg_fun a = (case a of AggSum \<Rightarrow> ''SUM'' | AggMin \<Rightarrow> ''MIN'' | AggMax \<Rightarrow> ''MAX'' | _ \<Rightarrow> ''AVG'')"

definition five_as :: "string \<Rightarrow> string \<Rightarrow> string" where
  "five_as j m =
     ''i'' @ j @ '' AS i'' @ m @ '',k'' @ j @ '' AS k'' @ m @ '',x'' @ j @ '' AS x'' @ m
     @ '',d'' @ j @ '' AS d'' @ m @ '',g'' @ j @ '' AS g'' @ m"

definition agg_cols :: "string list \<Rightarrow> nat \<times> sel_item \<Rightarrow> string" where
  "agg_cols inner mit =
     (case mit of (k, it) \<Rightarrow>
        let j = show_nat (column_of inner (si_var it));
            m = show_nat k;
            dist = (if si_distinct it then ''DISTINCT '' else [])
        in case si_agg it of
          AggNone \<Rightarrow> five_as j m
        | AggCount \<Rightarrow>
            ''1 AS i'' @ m @ '',2 AS k'' @ m @ '',''
            @ (if si_star it then ''COUNT(*)'' else ''COUNT('' @ dist @ ''i'' @ j @ '')'') @ '' AS x'' @ m
            @ '','' @ [SQ] @ XSD @ ''integer'' @ [SQ] @ '' AS d'' @ m @ '','' @ [SQ, SQ] @ '' AS g'' @ m
        | ag \<Rightarrow>
            (let eb = agg_fun ag @ ''('' @ dist @ ''CAST(x'' @ j @ '' AS REAL))''
             in ''CASE WHEN '' @ eb @ '' IS NULL THEN NULL ELSE 1 END AS i'' @ m @ '',2 AS k'' @ m
                @ '','' @ eb @ '' AS x'' @ m @ '','' @ [SQ] @ XSD @ ''decimal'' @ [SQ] @ '' AS d'' @ m
                @ '','' @ [SQ, SQ] @ '' AS g'' @ m))"

text \<open>Layer two of an aggregate query: its text and the pending sort keys.\<close>

definition agg_core :: "query \<Rightarrow> string list \<Rightarrow> string list \<Rightarrow> string \<Rightarrow> string \<times> string" where
  "agg_core q vis inner sub =
     (''SELECT '' @ (if q_distinct q then ''DISTINCT '' else [])
        @ join '','' (map (agg_cols inner) (enumerate 0 (q_sel q))) @ '' FROM ('' @ sub @ '') sub''
        @ (if q_group_by q = [] then []
           else '' GROUP BY '' @ join '','' (map (\<lambda>g. ''i'' @ show_nat (column_of inner (Some g))) (q_group_by q))),
      foldl (\<lambda>ord k. case position_of (ok_var k) vis of None \<Rightarrow> ord | Some m \<Rightarrow> order_expr ord m (ok_desc k))
        [] (q_order q))"

definition five :: "nat \<Rightarrow> string" where
  "five i = (let n = show_nat i in ''i'' @ n @ '',k'' @ n @ '',x'' @ n @ '',d'' @ n @ '',g'' @ n)"

fun plain_order ::
  "query \<Rightarrow> string list \<Rightarrow> string list \<Rightarrow> ord_key list \<Rightarrow> string \<Rightarrow> (compile_error, string) result" where
  "plain_order q vis inner [] ord = Inr ord"
| "plain_order q vis inner (k # ks) ord =
     (case position_of (ok_var k) inner of
        None \<Rightarrow> plain_order q vis inner ks ord
      | Some j \<Rightarrow>
          if q_distinct q \<and> length vis \<le> j then Inl (OrderNotProjected (ok_var k))
          else plain_order q vis inner ks (order_expr ord j (ok_desc k)))"

definition plain_core ::
  "query \<Rightarrow> string list \<Rightarrow> string list \<Rightarrow> string \<Rightarrow> (compile_error, string \<times> string) result" where
  "plain_core q vis inner sub =
     (let cols = join '','' (map five [0..<length vis])
      in rbind (plain_order q vis inner (q_order q) []) (\<lambda>ord.
           if q_distinct q then Inr (''SELECT DISTINCT '' @ cols @ '' FROM ('' @ sub @ '') sub'', ord)
           else if ord \<noteq> [] then Inr (''SELECT '' @ cols @ '' FROM ('' @ sub @ '') sub ORDER BY '' @ ord, [])
           else Inr (''SELECT '' @ cols @ '' FROM ('' @ sub @ '') sub'', ord)))"

definition limit_clause :: "query \<Rightarrow> string" where
  "limit_clause q =
     (if 0 \<le> q_limit q \<or> 0 < q_offset q
      then '' LIMIT '' @ show_int (if 0 \<le> q_limit q then q_limit q else - 1)
        @ (if 0 < q_offset q then '' OFFSET '' @ show_int (q_offset q) else [])
      else [])"

definition compile_query :: "query \<Rightarrow> term_ids \<Rightarrow> (compile_error, string \<times> string list) result" where
  "compile_query q ids =
     rbind (flatten_group (q_pattern q) flat_default) (\<lambda>flats.
       rbind (visible q flats) (\<lambda>vis.
         let inner = inner_names q vis
         in rbind (mapM (\<lambda>fl. compile_flat ids fl inner) flats) (\<lambda>ones.
              let sub = join '' UNION ALL '' ones
              in if q_form q = FAsk then Inr (''SELECT 1 FROM ('' @ sub @ '') sub LIMIT 1'', vis)
                 else rbind (if agg_mode q then Inr (agg_core q vis inner sub) else plain_core q vis inner sub)
                   (\<lambda>(core, ord).
                      Inr ((if ord = [] then core
                            else ''SELECT * FROM ('' @ core @ '') a ORDER BY '' @ ord) @ limit_clause q, vis)))))"

end
