(* ===== verification/Sparql_Lex.thy ===== *)
theory Sparql_Lex
  imports Sparql_Ast
begin

text \<open>
  The cursor and the tokens of the SPARQL parser (first part of
  \<open>crates/sparql/src/parser.rs\<close>).

  A cursor is the input that is left. An error carries its message and the input left where
  it arose, from which \<open>located\<close> computes line and column. Reading at the end gives the byte
  0, as \<open>peek\<close> does.
\<close>

datatype parse_msg =
    UnterminatedIri | BadIriUEscape | BadIriEscape | ExpectedColon | UnknownPrefix string
  | UnterminatedString | NewlineInString | BadStringUEscape | UnknownEscape | EmptyLangTag
  | EmptyVarName | EmptyBnodeLabel | NoPropertyPaths | ExpectedTerm | LiteralSubject
  | PredicateKind | ExpectedClose | BoundOpen | BoundVar | BoundClose | RegexOpen
  | RegexPattern | RegexClose | ExpectedExpr | BuiltinOpen | BuiltinVar | BuiltinClose
  | ComparisonOperand | ExpectedOpenBrace | UnterminatedGroup | NoSubqueries | UnionBrace
  | UnsupportedFeature | PrefixColon | PrefixIri | BaseIri | ExpectedInteger | ExpectedAgg
  | AggOpen | AggStar | AggVar | AggAlias | AliasVar | AggClose | GroupBy | GroupByVars
  | NoHaving | OrderBy | OrderOpen | OrderVar | OrderVars | UnterminatedData | NoGraph
  | SelectItems | ConstructBrace | UnterminatedTemplate | InsertOnlyData | InsertVars
  | TrailingContent | DeleteVars | DeleteWhereBasic | DeleteForms | NoDescribe | ExpectedForm

primrec msg_text :: "parse_msg \<Rightarrow> string" where
  "msg_text UnterminatedIri = ''unterminated IRI''"
| "msg_text BadIriUEscape = ''bad '' @ [CHR 0x5C] @ ''u escape in IRI''"
| "msg_text BadIriEscape = ''bad escape in IRI''"
| "msg_text ExpectedColon = ''expected '' @ [CHR 0x27] @ '':'' @ [CHR 0x27] @ '' in prefixed name''"
| "msg_text (UnknownPrefix p) = ''unknown prefix '' @ [CHR 0x27] @ p @ [CHR 0x27]"
| "msg_text UnterminatedString = ''unterminated string''"
| "msg_text NewlineInString = ''newline in short string''"
| "msg_text BadStringUEscape = ''bad '' @ [CHR 0x5C] @ ''u escape in string''"
| "msg_text UnknownEscape = ''unknown string escape''"
| "msg_text EmptyLangTag = ''empty language tag''"
| "msg_text EmptyVarName = ''empty variable name''"
| "msg_text EmptyBnodeLabel = ''empty blank node label''"
| "msg_text NoPropertyPaths = ''property paths are not supported in this subset''"
| "msg_text ExpectedTerm = ''expected a term''"
| "msg_text LiteralSubject = ''literal cannot be a subject''"
| "msg_text PredicateKind = ''predicate must be an IRI or variable''"
| "msg_text ExpectedClose = ''expected '' @ [CHR 0x27] @ '')'' @ [CHR 0x27]"
| "msg_text BoundOpen = ''expected '' @ [CHR 0x27] @ ''('' @ [CHR 0x27] @ '' after BOUND''"
| "msg_text BoundVar = ''BOUND takes a variable''"
| "msg_text BoundClose = ''expected '' @ [CHR 0x27] @ '')'' @ [CHR 0x27] @ '' after BOUND variable''"
| "msg_text RegexOpen = ''expected '' @ [CHR 0x27] @ ''('' @ [CHR 0x27] @ '' after REGEX''"
| "msg_text RegexPattern = ''REGEX needs a pattern argument''"
| "msg_text RegexClose = ''expected '' @ [CHR 0x27] @ '')'' @ [CHR 0x27] @ '' after REGEX''"
| "msg_text ExpectedExpr = ''expected expression''"
| "msg_text BuiltinOpen = ''expected '' @ [CHR 0x27] @ ''('' @ [CHR 0x27] @ '' after builtin''"
| "msg_text BuiltinVar = ''str/lang/datatype take a variable''"
| "msg_text BuiltinClose = ''expected '' @ [CHR 0x27] @ '')'' @ [CHR 0x27] @ '' after builtin argument''"
| "msg_text ComparisonOperand = ''unsupported comparison operand''"
| "msg_text ExpectedOpenBrace = ''expected '' @ [CHR 0x27] @ ''{'' @ [CHR 0x27]"
| "msg_text UnterminatedGroup = ''unterminated group pattern''"
| "msg_text NoSubqueries = ''subqueries are not supported in this subset''"
| "msg_text UnionBrace = ''expected '' @ [CHR 0x27] @ ''{'' @ [CHR 0x27] @ '' after UNION''"
| "msg_text UnsupportedFeature =
     ''unsupported SPARQL feature in this subset (GRAPH/MINUS/BIND/VALUES/SERVICE)''"
| "msg_text PrefixColon = ''expected '' @ [CHR 0x27] @ '':'' @ [CHR 0x27] @ '' in PREFIX''"
| "msg_text PrefixIri = ''expected IRI in PREFIX''"
| "msg_text BaseIri = ''expected IRI in BASE''"
| "msg_text ExpectedInteger = ''expected an integer''"
| "msg_text ExpectedAgg =
     ''expected an aggregate (COUNT/SUM/MIN/MAX/AVG) after '' @ [CHR 0x27] @ ''('' @ [CHR 0x27]"
| "msg_text AggOpen = ''expected '' @ [CHR 0x27] @ ''('' @ [CHR 0x27] @ '' after aggregate name''"
| "msg_text AggStar = [CHR 0x27] @ ''*'' @ [CHR 0x27] @ '' is only valid in COUNT(*)''"
| "msg_text AggVar =
     ''expected a variable or '' @ [CHR 0x27] @ ''*'' @ [CHR 0x27] @ '' inside the aggregate''"
| "msg_text AggAlias = ''aggregate needs an alias: (COUNT(?x) AS ?n)''"
| "msg_text AliasVar = ''expected ?alias after AS''"
| "msg_text AggClose =
     ''expected '' @ [CHR 0x27] @ '')'' @ [CHR 0x27] @ '' to close the aggregate item''"
| "msg_text GroupBy = ''expected BY after GROUP''"
| "msg_text GroupByVars = ''GROUP BY needs at least one variable''"
| "msg_text NoHaving =
     ''HAVING is not supported yet (filter in a wrapping SQL query over sparql() instead)''"
| "msg_text OrderBy = ''expected BY after ORDER''"
| "msg_text OrderOpen = ''expected '' @ [CHR 0x27] @ ''('' @ [CHR 0x27] @ '' after ASC/DESC''"
| "msg_text OrderVar = ''expected variable in ORDER BY''"
| "msg_text OrderVars = ''ORDER BY needs at least one variable''"
| "msg_text UnterminatedData = ''unterminated data block''"
| "msg_text NoGraph = ''GRAPH is not supported in this subset''"
| "msg_text SelectItems =
     ''SELECT needs '' @ [CHR 0x27] @ ''*'' @ [CHR 0x27] @ '' or at least one variable/aggregate''"
| "msg_text ConstructBrace = ''expected '' @ [CHR 0x27] @ ''{'' @ [CHR 0x27] @ '' after CONSTRUCT''"
| "msg_text UnterminatedTemplate = ''unterminated CONSTRUCT template''"
| "msg_text InsertOnlyData = ''only INSERT DATA is supported in this subset''"
| "msg_text InsertVars = ''variables are not allowed in INSERT DATA''"
| "msg_text TrailingContent = ''unexpected trailing content''"
| "msg_text DeleteVars = ''variables and blank nodes are not allowed in DELETE DATA''"
| "msg_text DeleteWhereBasic = ''DELETE WHERE supports basic graph patterns only''"
| "msg_text DeleteForms = ''only DELETE DATA and DELETE WHERE are supported in this subset''"
| "msg_text NoDescribe = ''DESCRIBE is not supported in this subset (use CONSTRUCT)''"
| "msg_text ExpectedForm = ''expected SELECT or CONSTRUCT''"

text \<open>Running out of fuel is an error of the model only; \<open>parse\<close> never has it.\<close>

datatype perr = PErr parse_msg string | OutOfFuel

type_synonym 'a pres = "(perr, 'a \<times> string) result"

text \<open>Line and column at the end of the consumed text.\<close>

fun line_col :: "string \<Rightarrow> nat \<Rightarrow> nat \<Rightarrow> nat \<times> nat" where
  "line_col [] line col = (line, col)"
| "line_col (b # s) line col =
     (if b = CHR 0x0A then line_col s (line + 1) 1 else line_col s line (col + 1))"

definition located :: "string \<Rightarrow> parse_msg \<Rightarrow> string \<Rightarrow> string" where
  "located text msg rest =
     (case line_col (take (length text - length rest) text) 1 1 of
        (line, col) \<Rightarrow>
          msg_text msg @ '' (line '' @ show_nat line @ '', col '' @ show_nat col @ '')'')"

subsection \<open>The cursor\<close>

definition peek :: "string \<Rightarrow> char" where
  "peek s = (case s of [] \<Rightarrow> CHR 0x00 | c # _ \<Rightarrow> c)"

definition peek_at :: "nat \<Rightarrow> string \<Rightarrow> char" where
  "peek_at k s = peek (drop k s)"

definition bump :: "string \<Rightarrow> string" where
  "bump s = drop 1 s"

function skipws :: "string \<Rightarrow> string" where
  "skipws [] = []"
| "skipws (c # s) =
     (if c = CHR '' '' \<or> c = CHR 0x09 \<or> c = CHR 0x0D \<or> c = CHR 0x0A then skipws s
      else if c = CHR ''#'' then skipws (dropWhile (\<lambda>b. b \<noteq> CHR 0x0A) s)
      else c # s)"
  by pat_completeness auto
termination
  by (relation "measure length") (auto simp: le_imp_less_Suc length_dropWhile_le)

declare skipws.simps(2) [simp del]

definition is_alpha :: "char \<Rightarrow> bool" where
  "is_alpha c \<longleftrightarrow> is_upper c \<or> is_lower c"

definition is_name_byte :: "char \<Rightarrow> bool" where
  "is_name_byte b \<longleftrightarrow> is_alnum b \<or> b = CHR ''_''"

definition kw :: "string \<Rightarrow> string \<Rightarrow> string option" where
  "kw w s =
     (if length s < length w then None
      else if map to_lower (take (length w) s) \<noteq> map to_lower w then None
      else if is_name_byte (peek_at (length w) s) then None
      else Some (drop (length w) s))"

definition take_while :: "(char \<Rightarrow> bool) \<Rightarrow> string \<Rightarrow> string \<times> string" where
  "take_while f s = (takeWhile f s, dropWhile f s)"

subsection \<open>IRIs\<close>

fun scheme_tail :: "string \<Rightarrow> bool" where
  "scheme_tail [] = False"
| "scheme_tail (c # s) =
     (if c = CHR '':'' then True
      else if is_alnum c \<or> c = CHR ''+'' \<or> c = CHR ''-'' \<or> c = CHR ''.'' then scheme_tail s
      else False)"

definition has_scheme :: "string \<Rightarrow> bool" where
  "has_scheme s = (case s of [] \<Rightarrow> False | c # r \<Rightarrow> is_alpha c \<and> scheme_tail r)"

text \<open>The text up to and including the first match, and what follows: \<open>str::find\<close>.\<close>

fun upto_sub :: "string \<Rightarrow> string \<Rightarrow> (string \<times> string) option" where
  "upto_sub p [] = (if p = [] then Some ([], []) else None)"
| "upto_sub p (c # s) =
     (case strip_prefix p (c # s) of
        Some r \<Rightarrow> Some (p, r)
      | None \<Rightarrow> map_option (\<lambda>(a, r). (c # a, r)) (upto_sub p s))"

definition resolve_iri :: "string option \<Rightarrow> string \<Rightarrow> string" where
  "resolve_iri base iri =
     (case base of
        None \<Rightarrow> iri
      | Some b \<Rightarrow>
          if has_scheme iri \<or> b = [] then iri
          else case strip_prefix ''//'' iri of
            Some rest \<Rightarrow>
              (case split_once (CHR '':'') b of None \<Rightarrow> [] | Some (sch, _) \<Rightarrow> sch @ '':'') @ ''//'' @ rest
          | None \<Rightarrow>
              if peek iri = CHR ''/'' then
                (case upto_sub ''://'' b of
                   Some (sch, r) \<Rightarrow> sch @ takeWhile (\<lambda>c. c \<noteq> CHR ''/'') r
                 | None \<Rightarrow> takeWhile (\<lambda>c. c \<noteq> CHR ''/'') b) @ iri
              else if peek iri = CHR ''#'' then takeWhile (\<lambda>c. c \<noteq> CHR ''#'') b @ iri
              else if CHR ''/'' \<in> set b then rev (dropWhile (\<lambda>c. c \<noteq> CHR ''/'') (rev b)) @ iri
              else iri)"

text \<open>\<open>char::from_u32\<close> and the UTF-8 encoding of the scalar.\<close>

definition utf8_of_code :: "nat \<Rightarrow> string option" where
  "utf8_of_code v =
     (if v < 128 then Some [char_of v]
      else if v < 2048 then Some (map char_of [192 + v div 64, 128 + v mod 64])
      else if 55296 \<le> v \<and> v < 57344 then None
      else if v < 65536 then Some (map char_of [224 + v div 4096, 128 + v div 64 mod 64, 128 + v mod 64])
      else if v < 1114112
      then Some (map char_of [240 + v div 262144, 128 + v div 4096 mod 64, 128 + v div 64 mod 64, 128 + v mod 64])
      else None)"

text \<open>\<open>n\<close> hexadecimal digits; \<open>Inl\<close> is the input at the first byte that is none.\<close>

fun read_hex :: "nat \<Rightarrow> nat \<Rightarrow> string \<Rightarrow> (string, nat \<times> string) result" where
  "read_hex 0 v s = Inr (v, s)"
| "read_hex (Suc n) v s =
     (case hex_val (peek s) of None \<Rightarrow> Inl s | Some d \<Rightarrow> read_hex n (v * 16 + d) (bump s))"

definition read_u_escape :: "parse_msg \<Rightarrow> nat \<Rightarrow> string \<Rightarrow> string pres" where
  "read_u_escape msg n s =
     (case read_hex n 0 s of
        Inl r \<Rightarrow> Inl (PErr msg r)
      | Inr (v, r) \<Rightarrow> (case utf8_of_code v of Some u \<Rightarrow> Inr (u, r) | None \<Rightarrow> Inl (PErr msg r)))"

lemma bump_length: "length (bump s) = length s - 1" by (simp add: bump_def)

lemma bump_le [simp]: "length (bump s) \<le> length s" by (simp add: bump_length)

lemma read_hex_length: "read_hex n v s = Inr (w, r) \<Longrightarrow> length r \<le> length s"
proof (induction n v s arbitrary: w r rule: read_hex.induct)
  case (2 n v s)
  then show ?case by (fastforce split: option.splits simp: bump_length)
qed simp

lemma read_u_escape_length: "read_u_escape msg n s = Inr (u, r) \<Longrightarrow> length r \<le> length s"
  by (auto simp: read_u_escape_def split: sum.splits option.splits dest: read_hex_length)

subsection \<open>Tokens\<close>

text \<open>The body of an IRI reference, after its opening bracket.\<close>

function read_iri_loop :: "string \<Rightarrow> string \<Rightarrow> string pres" where
  "read_iri_loop [] out = Inl (PErr UnterminatedIri [])"
| "read_iri_loop (b # s) out =
     (if b = CHR ''>'' then Inr (out, s)
      else if b = CHR 0x5C then
        (if peek s = CHR ''u'' \<or> peek s = CHR ''U'' then
           (case read_u_escape BadIriUEscape (if peek s = CHR ''u'' then 4 else 8) (bump s) of
              Inl e \<Rightarrow> Inl e
            | Inr (u, r) \<Rightarrow> read_iri_loop r (out @ u))
         else Inl (PErr BadIriEscape s))
      else read_iri_loop s (out @ [b]))"
  by pat_completeness auto
termination
  by (relation "measure (\<lambda>(s, out). length s)")
    (auto dest!: read_u_escape_length simp: bump_length split: if_splits)

declare read_iri_loop.simps(2) [simp del]

definition read_iriref :: "string \<Rightarrow> string pres" where
  "read_iriref s = read_iri_loop (bump s) []"

definition local_byte :: "char \<Rightarrow> bool" where
  "local_byte b \<longleftrightarrow> is_alnum b \<or> b = CHR ''_'' \<or> b = CHR ''-''"

text \<open>A dot belongs to a local name when a name byte or another dot follows.\<close>

definition local_name_byte :: "string \<Rightarrow> bool" where
  "local_name_byte s \<longleftrightarrow>
     local_byte (peek s)
     \<or> (peek s = CHR ''.'' \<and> (local_byte (peek_at 1 s) \<or> peek_at 1 s = CHR ''.''))"

fun local_span :: "string \<Rightarrow> string \<times> string" where
  "local_span [] = ([], [])"
| "local_span (b # s) =
     (if local_name_byte (b # s) then (case local_span s of (l, r) \<Rightarrow> (b # l, r)) else ([], b # s))"

definition read_pname :: "(string \<times> string) list \<Rightarrow> string \<Rightarrow> string pres" where
  "read_pname pfx s =
     (case take_while (\<lambda>b. local_byte b \<or> b = CHR ''.'') s of
        (pre, s1) \<Rightarrow>
          if peek s1 \<noteq> CHR '':'' then Inl (PErr ExpectedColon s1)
          else case local_span (bump s1) of
            (loc, s2) \<Rightarrow>
              (case List.find (\<lambda>(name, iri). name = pre) pfx of
                 Some (name, iri) \<Rightarrow> Inr (iri @ loc, s2)
               | None \<Rightarrow> Inl (PErr (UnknownPrefix pre) s2)))"

text \<open>The value of an escape letter other than \<open>u\<close>.\<close>

definition escape_char :: "char \<Rightarrow> char option" where
  "escape_char e =
     (if e = CHR ''t'' then Some (CHR 0x09)
      else if e = CHR ''b'' then Some (CHR 0x08)
      else if e = CHR ''n'' then Some (CHR 0x0A)
      else if e = CHR ''r'' then Some (CHR 0x0D)
      else if e = CHR ''f'' then Some (CHR 0x0C)
      else if e = CHR 0x22 \<or> e = CHR 0x27 \<or> e = CHR 0x5C then Some e
      else None)"

function str_loop :: "char \<Rightarrow> bool \<Rightarrow> string \<Rightarrow> string \<Rightarrow> string pres" where
  "str_loop quote long [] out = Inl (PErr UnterminatedString [])"
| "str_loop quote long (b # s) out =
     (if b = quote then
        (if long then
           (if peek s = quote \<and> peek_at 1 s = quote then Inr (out, drop 2 s)
            else str_loop quote long s (out @ [b]))
         else Inr (out, s))
      else if \<not> long \<and> (b = CHR 0x0A \<or> b = CHR 0x0D) then Inl (PErr NewlineInString (b # s))
      else if b = CHR 0x5C then
        (let e = peek s; r = bump s
         in case escape_char e of
              Some c \<Rightarrow> str_loop quote long r (out @ [c])
            | None \<Rightarrow>
                if e = CHR ''u'' \<or> e = CHR ''U'' then
                  (case read_u_escape BadStringUEscape (if e = CHR ''u'' then 4 else 8) r of
                     Inl er \<Rightarrow> Inl er
                   | Inr (u, r') \<Rightarrow> str_loop quote long r' (out @ u))
                else Inl (PErr UnknownEscape r))
      else str_loop quote long s (out @ [b]))"
  by pat_completeness auto
termination
  by (relation "measure (\<lambda>(q, l, s, out). length s)")
    (auto dest!: read_u_escape_length simp: bump_length less_Suc_eq_le intro: le_trans)

declare str_loop.simps(2) [simp del]

definition read_string :: "string \<Rightarrow> string pres" where
  "read_string s =
     (let quote = peek s; long = (peek_at 1 s = quote \<and> peek_at 2 s = quote)
      in str_loop quote long (drop (if long then 3 else 1) s) [])"

text \<open>An optional sign, digits, a fraction and an exponent.\<close>

definition span_sign :: "string \<Rightarrow> string \<times> string" where
  "span_sign s =
     (if peek s = CHR ''+'' \<or> peek s = CHR ''-'' then ([peek s], bump s) else ([], s))"

definition span_fraction :: "string \<Rightarrow> string \<times> string" where
  "span_fraction s =
     (if peek s = CHR ''.'' \<and> is_digit (peek_at 1 s)
      then (CHR ''.'' # takeWhile is_digit (bump s), dropWhile is_digit (bump s)) else ([], s))"

definition span_exponent :: "string \<Rightarrow> string \<times> string" where
  "span_exponent s =
     (if peek s = CHR ''e'' \<or> peek s = CHR ''E'' then
        (let off = (if peek_at 1 s = CHR ''+'' \<or> peek_at 1 s = CHR ''-'' then 2 else 1)
         in if is_digit (peek_at off s)
            then (take off s @ takeWhile is_digit (drop off s), dropWhile is_digit (drop off s))
            else ([], s))
      else ([], s))"

definition read_number :: "string \<Rightarrow> rdf_term pres" where
  "read_number s =
     (let (sg, s1) = span_sign s;
          (ds, s2) = take_while is_digit s1;
          (fr, s3) = span_fraction s2;
          (ex, s4) = span_exponent s3
      in Inr (term_lit_dt (sg @ ds @ fr @ ex)
           (XSD @ (if ex \<noteq> [] then ''double'' else if fr \<noteq> [] then ''decimal'' else ''integer'')), s4))"

record ctx =
  cx_prefixes :: "(string \<times> string) list"
  cx_base :: "string option"

definition number_start :: "string \<Rightarrow> bool" where
  "number_start s \<longleftrightarrow>
     is_digit (peek s)
     \<or> ((peek s = CHR ''+'' \<or> peek s = CHR ''-'')
         \<and> (is_digit (peek_at 1 s) \<or> (peek_at 1 s = CHR ''.'' \<and> is_digit (peek_at 2 s))))
     \<or> (peek s = CHR ''.'' \<and> is_digit (peek_at 1 s))"

text \<open>The suffix of a string literal: a language tag, a datatype, or nothing.\<close>

definition literal_suffix :: "ctx \<Rightarrow> string \<Rightarrow> string \<Rightarrow> rdf_term pres" where
  "literal_suffix cx lx s =
     (if peek s = CHR ''@'' then
        (case take_while (\<lambda>b. is_alnum b \<or> b = CHR ''-'') (bump s) of
           (tag, r) \<Rightarrow> if tag = [] then Inl (PErr EmptyLangTag r) else Inr (term_lit_lang lx tag, r))
      else if peek s = CHR ''^'' \<and> peek_at 1 s = CHR ''^'' then
        (let s1 = skipws (bump (bump s))
         in rbind (if peek s1 = CHR ''<''
                   then rbind (read_iriref s1) (\<lambda>(raw, r). Inr (resolve_iri (cx_base cx) raw, r))
                   else read_pname (cx_prefixes cx) s1)
              (\<lambda>(dt, r). Inr (term_lit_dt lx dt, r)))
      else Inr (term_lit lx, s))"

definition parse_term_common :: "ctx \<Rightarrow> string \<Rightarrow> rdf_term option pres" where
  "parse_term_common cx s0 =
     (let s = skipws s0; b = peek s
      in if b = CHR ''<'' then
           rbind (read_iriref s) (\<lambda>(raw, r). Inr (Some (term_iri (resolve_iri (cx_base cx) raw)), r))
         else if b = CHR 0x22 \<or> b = CHR 0x27 then
           rbind (read_string s) (\<lambda>(lx, r).
             rbind (literal_suffix cx lx r) (\<lambda>(t, r'). Inr (Some t, r')))
         else if number_start s then rbind (read_number s) (\<lambda>(t, r). Inr (Some t, r))
         else case kw ''true'' s of
           Some r \<Rightarrow> Inr (Some (term_lit_dt ''true'' (XSD @ ''boolean'')), r)
         | None \<Rightarrow>
             (case kw ''false'' s of
                Some r \<Rightarrow> Inr (Some (term_lit_dt ''false'' (XSD @ ''boolean'')), r)
              | None \<Rightarrow>
                  if is_alpha b \<or> b = CHR ''_'' \<or> b = CHR '':'' then
                    (if b = CHR ''_'' \<and> peek_at 1 s = CHR '':'' then Inr (None, s)
                     else rbind (read_pname (cx_prefixes cx) s) (\<lambda>(iri, r). Inr (Some (term_iri iri), r)))
                  else Inr (None, s)))"

end
