(* ===== verification/Sparql_Triples.thy ===== *)
theory Sparql_Triples
  imports Sparql_Lex
begin

text \<open>
  Terms and triples of the SPARQL parser (\<open>varname\<close>, \<open>qt\<close> and \<open>triples_block\<close> of
  \<open>crates/sparql/src/parser.rs\<close>), and the facts that make its loops end: every token
  reads at least one byte.
\<close>

lemma rbind_cong [fundef_cong]:
  "m = m' \<Longrightarrow> (\<And>x. m' = Inr x \<Longrightarrow> f x = g x) \<Longrightarrow> rbind m f = rbind m' g"
  by (cases m') auto

abbreviation fail :: "parse_msg \<Rightarrow> string \<Rightarrow> (perr, 'a) result" where
  "fail msg s \<equiv> Inl (PErr msg s)"

subsection \<open>Reading less\<close>

definition shrinks :: "'a pres \<Rightarrow> string \<Rightarrow> bool" where
  "shrinks m s \<longleftrightarrow> (\<forall>x r. m = Inr (x, r) \<longrightarrow> length r < length s)"

definition fueled :: "'a pres \<Rightarrow> bool" where
  "fueled m \<longleftrightarrow> m \<noteq> Inl OutOfFuel"

lemma shrinksD: "shrinks m s \<Longrightarrow> m = Inr (x, r) \<Longrightarrow> length r < length s"
  by (simp add: shrinks_def)

lemma shrinks_simps [simp]:
  "shrinks (Inl e) s" "shrinks (Inr (x, r)) s \<longleftrightarrow> length r < length s"
  "fueled (fail msg t)" "fueled (Inr y)" "\<not> fueled (Inl OutOfFuel)"
  by (auto simp: shrinks_def fueled_def)

lemma shrinks_rbind:
  assumes "\<And>x r. m = Inr (x, r) \<Longrightarrow> shrinks (f (x, r)) s"
  shows "shrinks (rbind m f) s"
  using assms by (cases m) auto

lemma fueled_rbind:
  assumes "fueled m" "\<And>x r. m = Inr (x, r) \<Longrightarrow> fueled (f (x, r))"
  shows "fueled (rbind m f)"
  using assms by (cases m) (auto simp: fueled_def)

lemma skipws_length [simp]: "length (skipws s) \<le> length s"
proof (induction s rule: skipws.induct)
  case (2 c s)
  then show ?case
    using length_dropWhile_le [of "\<lambda>b. b \<noteq> CHR 0x0A" s] by (auto simp: skipws.simps(2))
qed simp

lemma peek_bump: "peek s \<noteq> CHR 0x00 \<Longrightarrow> length (bump s) < length s"
  by (cases s) (auto simp: peek_def bump_def)

lemma kw_length: "kw w s = Some r \<Longrightarrow> length r = length s - length w \<and> length w \<le> length s"
  by (auto simp: kw_def split: if_splits)

lemma kw_less: "kw w s = Some r \<Longrightarrow> w \<noteq> [] \<Longrightarrow> length r < length s"
  using kw_length [of w s r] by (cases w) auto

lemma take_while_length: "take_while f s = (a, r) \<Longrightarrow> length r \<le> length s"
  by (auto simp: take_while_def length_dropWhile_le)

subsection \<open>Terms\<close>

definition var_start :: "string \<Rightarrow> bool" where
  "var_start s \<longleftrightarrow> peek s = CHR ''?'' \<or> peek s = CHR ''$''"

definition varname :: "string \<Rightarrow> string pres" where
  "varname s =
     (case take_while is_name_byte (bump s) of
        (name, r) \<Rightarrow> if name = [] then fail EmptyVarName r else Inr (name, r))"

definition bnode_prefix :: string where
  "bnode_prefix = ''~bn~''"

datatype position = Subject | Predicate | Object

definition path_operator :: "char \<Rightarrow> bool" where
  "path_operator b \<longleftrightarrow> b = CHR ''+'' \<or> b = CHR ''*'' \<or> b = CHR ''/'' \<or> b = CHR ''^''"

definition qt_term :: "ctx \<Rightarrow> position \<Rightarrow> string \<Rightarrow> slot pres" where
  "qt_term cx pos s =
     rbind (parse_term_common cx s) (\<lambda>(ot, r).
       case ot of
         None \<Rightarrow> fail ExpectedTerm r
       | Some t \<Rightarrow>
           if pos = Subject \<and> tm_kind t = K_LIT then fail LiteralSubject r
           else if pos = Predicate \<and> tm_kind t \<noteq> K_IRI then fail PredicateKind r
           else if pos = Predicate \<and> path_operator (peek r) then fail NoPropertyPaths r
           else Inr (Ground t, r))"

definition qt :: "ctx \<Rightarrow> position \<Rightarrow> string \<Rightarrow> slot pres" where
  "qt cx pos s0 =
     (let s = skipws s0
      in if var_start s then rbind (varname s) (\<lambda>(v, r). Inr (SVar v, r))
         else if peek s = CHR ''_'' \<and> peek_at 1 s = CHR '':'' then
           (case take_while is_name_byte (bump (bump s)) of
              (label, r) \<Rightarrow>
                if label = [] then fail EmptyBnodeLabel r else Inr (SVar (bnode_prefix @ label), r))
         else if pos = Predicate \<and> peek s = CHR ''^'' then fail NoPropertyPaths s
         else case (if pos = Predicate then kw ''a'' s else None) of
           Some r \<Rightarrow> Inr (Ground (term_iri RDF_TYPE), r)
         | None \<Rightarrow> qt_term cx pos s)"

subsubsection \<open>A token reads at least one byte\<close>

lemma read_iri_loop_length: "read_iri_loop s out = Inr (u, r) \<Longrightarrow> length r < length s"
proof (induction s out arbitrary: u r rule: read_iri_loop.induct)
  case (2 b s out)
  show ?case
  proof (cases "b = CHR ''>''")
    case True
    with "2.prems" show ?thesis by (simp add: read_iri_loop.simps(2))
  next
    case close: False
    show ?thesis
    proof (cases "b = CHR 0x5C")
      case False
      with close "2.prems" "2.IH"(2) [OF close False] show ?thesis
        by (fastforce simp: read_iri_loop.simps(2))
    next
      case True
      with close "2.prems" obtain v r1 where
        e: "peek s = CHR ''u'' \<or> peek s = CHR ''U''"
          "read_u_escape BadIriUEscape (if peek s = CHR ''u'' then 4 else 8) (bump s) = Inr (v, r1)"
          "read_iri_loop r1 (out @ v) = Inr (u, r)"
        by (simp add: read_iri_loop.simps(2) split: sum.splits prod.splits if_split_asm)
      from "2.IH"(1) [OF close True e(1,2) refl e(3)] read_u_escape_length [OF e(2)] bump_le [of s]
      show ?thesis by (simp del: bump_le)
    qed
  qed
qed simp

lemma read_iriref_less: "read_iriref s = Inr (u, r) \<Longrightarrow> length r < length s"
  using read_iri_loop_length [of "bump s" "[]" u r] by (simp add: read_iriref_def bump_length)

lemma local_span_length: "local_span s = (l, r) \<Longrightarrow> length r \<le> length s"
proof (induction s arbitrary: l r)
  case (Cons b s)
  then show ?case by (cases "local_span s") (auto split: if_splits)
qed simp

lemma read_pname_less:
  assumes "read_pname pfx s = Inr (u, r)"
  shows "length r < length s"
proof -
  obtain pre s1 where t: "take_while (\<lambda>b. local_byte b \<or> b = CHR ''.'') s = (pre, s1)"
    by (cases "take_while (\<lambda>b. local_byte b \<or> b = CHR ''.'') s")
  obtain l s2 where l: "local_span (bump s1) = (l, s2)" by (cases "local_span (bump s1)")
  have c: "peek s1 = CHR '':''" and r: "r = s2"
    using assms by (auto simp: read_pname_def t l split: if_splits option.splits)
  have "length s2 \<le> length (bump s1)" by (rule local_span_length [OF l])
  also have "\<dots> < length s1" by (rule peek_bump) (simp add: c)
  also have "\<dots> \<le> length s" by (rule take_while_length [OF t])
  finally show ?thesis by (simp add: r)
qed

lemma str_loop_length: "str_loop q long s out = Inr (u, r) \<Longrightarrow> length r < length s"
proof (induction q long s out arbitrary: u r rule: str_loop.induct)
  case (2 q long b s out)
  note prem = "2.prems" [unfolded str_loop.simps(2) [of q long b s out]]
  show ?case
  proof (cases "b = q")
    case True
    show ?thesis
    proof (cases "long \<and> \<not> (peek s = q \<and> peek_at 1 s = q)")
      case again: True
      then have "str_loop q long s (out @ [b]) = Inr (u, r)" using True prem by (auto split: if_splits)
      with "2.IH"(1) [OF True] again show ?thesis by fastforce
    next
      case False
      with True prem show ?thesis by (auto split: if_splits)
    qed
  next
    case other: False
    show ?thesis
    proof (cases "\<not> long \<and> (b = CHR 0x0A \<or> b = CHR 0x0D)")
      case True
      with other prem show ?thesis by simp
    next
      case line: False
      show ?thesis
      proof (cases "b = CHR 0x5C")
        case False
        with other line prem have "str_loop q long s (out @ [b]) = Inr (u, r)" by (simp split: if_split_asm)
        with "2.IH"(4) [OF other line False] show ?thesis by fastforce
      next
        case True
        note here = other line True
        show ?thesis
        proof (cases "escape_char (peek s)")
          case (Some c)
          with here prem have "str_loop q long (bump s) (out @ [c]) = Inr (u, r)" by (simp add: Let_def)
          with "2.IH"(3) [OF here refl refl Some] bump_le [of s] show ?thesis by (simp del: bump_le)
        next
          case None
          with here prem obtain v r1 where
            e: "peek s = CHR ''u'' \<or> peek s = CHR ''U''"
              "read_u_escape BadStringUEscape (if peek s = CHR ''u'' then 4 else 8) (bump s) = Inr (v, r1)"
              "str_loop q long r1 (out @ v) = Inr (u, r)"
            by (simp add: Let_def split: sum.splits prod.splits if_split_asm)
          from "2.IH"(2) [OF here refl refl None e(1,2) refl e(3)] read_u_escape_length [OF e(2)] bump_le [of s]
          show ?thesis by (simp del: bump_le)
        qed
      qed
    qed
  qed
qed simp

lemma read_string_length:
  assumes "read_string s = Inr (u, r)"
  shows "length r < length s"
proof -
  obtain q long k where k: "str_loop q long (drop k s) [] = Inr (u, r)"
    using assms unfolding read_string_def Let_def by blast
  from str_loop_length [OF this] show ?thesis by simp
qed

lemma peek_Cons: "peek s = c \<Longrightarrow> c \<noteq> CHR 0x00 \<Longrightarrow> s = c # bump s"
  by (cases s) (auto simp: peek_def bump_def)

lemma span_sign_split: "span_sign s = (a, r) \<Longrightarrow> s = a @ r"
  using peek_Cons [of s "CHR ''+''"] peek_Cons [of s "CHR ''-''"]
  by (auto simp: span_sign_def split: if_splits)

lemma span_fraction_split: "span_fraction s = (a, r) \<Longrightarrow> s = a @ r"
  using peek_Cons [of s "CHR ''.''"] by (auto simp: span_fraction_def split: if_splits)

lemma span_exponent_split: "span_exponent s = (a, r) \<Longrightarrow> s = a @ r"
  by (auto simp: span_exponent_def Let_def split: if_splits)

lemma peek_digit: "is_digit (peek s) \<Longrightarrow> s = peek s # bump s"
  by (cases s) (auto simp: peek_def bump_def is_digit_def)

text \<open>The parts of a number are the text that was read.\<close>

lemma read_number_split:
  "\<exists>lx dt r. read_number s = Inr (term_lit_dt lx dt, r) \<and> s = lx @ r \<and> (number_start s \<longrightarrow> lx \<noteq> [])"
proof -
  obtain sg s1 where 1: "span_sign s = (sg, s1)" by (cases "span_sign s")
  obtain ds s2 where 2: "take_while is_digit s1 = (ds, s2)" by (cases "take_while is_digit s1")
  obtain fr s3 where 3: "span_fraction s2 = (fr, s3)" by (cases "span_fraction s2")
  obtain ex s4 where 4: "span_exponent s3 = (ex, s4)" by (cases "span_exponent s3")
  have s: "s = sg @ ds @ fr @ ex @ s4"
    using span_sign_split [OF 1] 2 span_fraction_split [OF 3] span_exponent_split [OF 4]
    by (simp add: take_while_def) (metis takeWhile_dropWhile_id)
  have "sg @ ds @ fr @ ex \<noteq> []" if n: "number_start s"
  proof
    assume e: "sg @ ds @ fr @ ex = []"
    have 5: "s1 = s" "s2 = s" "ds = []"
      using e span_sign_split [OF 1] 2 by (auto simp: take_while_def) (metis append_Nil takeWhile_dropWhile_id)
    have 6: "\<not> is_digit (peek s)"
    proof
      assume d: "is_digit (peek s)"
      have "takeWhile is_digit s \<noteq> []" using d by (subst peek_digit [OF d]) simp
      with 2 5 show False by (simp add: take_while_def)
    qed
    have 7: "span_fraction s = ([], s3)" "span_sign s = ([], s)" using 1 3 5 e by simp_all
    have 8: "peek s \<noteq> CHR ''.'' \<or> \<not> is_digit (peek_at 1 s)"
      using 7(1) by (auto simp: span_fraction_def split: if_splits)
    have 9: "peek s \<noteq> CHR ''+''" "peek s \<noteq> CHR ''-''"
      using 7(2) by (auto simp: span_sign_def split: if_splits)
    from n 6 8 9 show False by (auto simp: number_start_def)
  qed
  moreover have "read_number s = Inr (term_lit_dt (sg @ ds @ fr @ ex)
    (XSD @ (if ex \<noteq> [] then ''double'' else if fr \<noteq> [] then ''decimal'' else ''integer'')), s4)"
    by (simp add: read_number_def 1 2 3 4)
  moreover have "s = (sg @ ds @ fr @ ex) @ s4" using s by simp
  ultimately show ?thesis by blast
qed

lemma literal_suffix_length:
  assumes "literal_suffix cx lx s = Inr (t, r)"
  shows "length r \<le> length s"
proof -
  have *: "length r' \<le> length s" if "length r' < length (skipws (bump (bump s)))" for r' :: string
    using that skipws_length [of "bump (bump s)"] bump_le [of "bump s"] bump_le [of s] by linarith
  have drop: "length (dropWhile f (bump s)) \<le> length s" for f
    using length_dropWhile_le [of f "bump s"] bump_le [of s] by linarith
  show ?thesis
    using assms * read_iriref_less read_pname_less drop
    by (auto simp: literal_suffix_def Let_def take_while_def rbind_Inr_iff split: if_splits)
qed

lemma parse_term_common_less:
  assumes "parse_term_common cx s0 = Inr (Some t, r)"
  shows "length r < length s0"
proof -
  define s where "s = skipws s0"
  have s0: "length s \<le> length s0" by (simp add: s_def)
  have "length r < length s"
  proof (cases "peek s = CHR ''<''")
    case True
    with assms show ?thesis
      by (auto simp: parse_term_common_def Let_def s_def [symmetric] rbind_Inr_iff dest: read_iriref_less)
  next
    case iri: False
    show ?thesis
    proof (cases "peek s = CHR 0x22 \<or> peek s = CHR 0x27")
      case True
      with iri assms show ?thesis
        by (auto simp: parse_term_common_def Let_def s_def [symmetric] rbind_Inr_iff
            dest!: read_string_length literal_suffix_length)
    next
      case str: False
      show ?thesis
      proof (cases "number_start s")
        case True
        from read_number_split [of s] True obtain lx dt r' where
          "read_number s = Inr (term_lit_dt lx dt, r')" "s = lx @ r'" "lx \<noteq> []" by blast
        with iri str True assms show ?thesis
          by (auto simp: parse_term_common_def Let_def s_def [symmetric])
      next
        case False
        with iri str assms show ?thesis
          by (auto simp: parse_term_common_def Let_def s_def [symmetric] rbind_Inr_iff
              split: option.splits if_splits dest: kw_less read_pname_less)
      qed
    qed
  qed
  with s0 show ?thesis by simp
qed

lemma varname_less: "varname s = Inr (v, r) \<Longrightarrow> length r < length s"
proof -
  assume a: "varname s = Inr (v, r)"
  then have t: "take_while is_name_byte (bump s) = (v, r)" "v \<noteq> []"
    by (auto simp: varname_def split: prod.splits if_splits)
  then have "bump s \<noteq> []" by (auto simp: take_while_def)
  then have "length (bump s) < length s" by (cases s) (auto simp: bump_def)
  with take_while_length [OF t(1)] show ?thesis by simp
qed

lemma qt_term_less: "qt_term cx pos s = Inr (x, r) \<Longrightarrow> length r < length s"
  by (auto simp: qt_term_def rbind_Inr_iff split: option.splits if_splits dest: parse_term_common_less)

lemma qt_less:
  assumes "qt cx pos s0 = Inr (x, r)"
  shows "length r < length s0"
proof -
  define s where "s = skipws s0"
  have s0: "length s \<le> length s0" by (simp add: s_def)
  have "length r < length s"
  proof (cases "peek s = CHR ''_''")
    case True
    then have "length (dropWhile is_name_byte (bump (bump s))) < length s"
      using length_dropWhile_le [of is_name_byte "bump (bump s)"] bump_le [of "bump s"] peek_bump [of s]
      by (simp del: bump_le)
    with True assms show ?thesis
      by (auto simp: qt_def Let_def s_def [symmetric] var_start_def take_while_def
          split: if_splits option.splits dest: qt_term_less kw_less)
  next
    case False
    with assms show ?thesis
      by (auto simp: qt_def Let_def s_def [symmetric] rbind_Inr_iff
          split: if_splits option.splits dest: qt_term_less kw_less varname_less)
  qed
  with s0 show ?thesis by simp
qed

subsubsection \<open>Tokens use no fuel\<close>

lemma read_u_escape_fueled [simp]: "fueled (read_u_escape msg n s)"
  by (auto simp: read_u_escape_def split: sum.splits option.splits)

lemma fueled_if [simp]: "fueled (if c then x else y) \<longleftrightarrow> (c \<longrightarrow> fueled x) \<and> (\<not> c \<longrightarrow> fueled y)"
  by simp

lemma fueled_case:
  "fueled m \<Longrightarrow> (\<And>u r. m = Inr (u, r) \<Longrightarrow> fueled (g u r)) \<Longrightarrow>
     fueled (case m of Inl e \<Rightarrow> Inl e | Inr (u, r) \<Rightarrow> g u r)"
  by (cases m) (auto simp: fueled_def)

lemma read_iri_loop_fueled [simp]: "fueled (read_iri_loop s out)"
proof (induction s out rule: read_iri_loop.induct)
  case (2 b s out)
  show ?case
    by (simp only: read_iri_loop.simps(2) fueled_if)
      (intro conjI impI fueled_case; (rule shrinks_simps read_u_escape_fueled "2.IH"; (assumption | rule refl)?)+)
qed simp

lemma str_loop_fueled [simp]: "fueled (str_loop q long s out)"
proof (induction q long s out rule: str_loop.induct)
  case (2 q long b s out)
  have "fueled (case escape_char (peek s) of
      Some c \<Rightarrow> str_loop q long (bump s) (out @ [c])
    | None \<Rightarrow> if peek s = CHR ''u'' \<or> peek s = CHR ''U'' then
          (case read_u_escape BadStringUEscape (if peek s = CHR ''u'' then 4 else 8) (bump s) of
             Inl er \<Rightarrow> Inl er | Inr (u, r') \<Rightarrow> str_loop q long r' (out @ u))
        else Inl (PErr UnknownEscape (bump s)))"
    if c: "b \<noteq> q" "\<not> (\<not> long \<and> (b = CHR 0x0A \<or> b = CHR 0x0D))" "b = CHR 0x5C"
  proof (cases "escape_char (peek s)")
    case None
    then show ?thesis
      by (simp only: option.case fueled_if)
        (intro conjI impI fueled_case; (rule shrinks_simps read_u_escape_fueled "2.IH"(2) [OF c refl refl None]; (assumption | rule refl)?)+)
  next
    case (Some e)
    with "2.IH"(3) [OF c refl refl Some] show ?thesis by simp
  qed
  with "2.IH"(1,4) show ?case
    by (simp only: str_loop.simps(2) fueled_if Let_def) (intro conjI impI; simp)
qed simp

lemma token_fueled [simp]:
  "fueled (read_iriref s)" "fueled (read_pname pfx s)" "fueled (read_string s)" "fueled (varname s)"
  by (auto simp: read_iriref_def read_pname_def read_string_def varname_def Let_def split: prod.splits option.splits)

lemma read_number_fueled [simp]: "fueled (read_number s)"
  using read_number_split [of s] by auto

lemma literal_suffix_fueled [simp]: "fueled (literal_suffix cx lx s)"
  by (auto simp: literal_suffix_def Let_def split: prod.splits intro!: fueled_rbind)

lemma parse_term_common_fueled [simp]: "fueled (parse_term_common cx s)"
  by (auto simp: parse_term_common_def Let_def split: option.splits intro!: fueled_rbind)

lemma qt_fueled [simp]: "fueled (qt cx pos s)"
  by (auto simp: qt_def qt_term_def Let_def split: option.splits prod.splits if_splits intro!: fueled_rbind)

subsection \<open>Triples\<close>

function skip_semis :: "string \<Rightarrow> string" where
  "skip_semis s = (if peek (skipws s) = CHR '';'' then skip_semis (bump (skipws s)) else skipws s)"
  by pat_completeness auto
termination
proof (relation "measure length")
  fix s
  assume "peek (skipws s) = CHR '';''"
  then have "length (bump (skipws s)) < length (skipws s)" by (intro peek_bump) simp
  with skipws_length [of s] show "(bump (skipws s), s) \<in> measure length" by (simp del: skipws_length)
qed simp

declare skip_semis.simps [simp del]

lemma skip_semis_length [simp]: "length (skip_semis s) \<le> length s"
proof (induction s rule: skip_semis.induct)
  case (1 s)
  show ?case
  proof (cases "peek (skipws s) = CHR '';''")
    case True
    with 1 have "length (skip_semis s) \<le> length (bump (skipws s))" by (simp add: skip_semis.simps [of s])
    also have "\<dots> \<le> length s" using bump_le [of "skipws s"] skipws_length [of s] by linarith
    finally show ?thesis .
  qed (simp add: skip_semis.simps [of s])
qed

lemma bump_skipws: "peek (skipws s) = c \<Longrightarrow> c \<noteq> CHR 0x00 \<Longrightarrow> length (bump (skipws s)) < length s"
  by (rule less_le_trans [OF peek_bump skipws_length]) simp

text \<open>The objects of a subject and predicate, separated by commas.\<close>

function obj_list :: "ctx \<Rightarrow> slot \<Rightarrow> slot \<Rightarrow> string \<Rightarrow> triple_pattern list pres" where
  "obj_list cx subj pred s =
     rbind (qt cx Object s) (\<lambda>(obj, r).
       let tp = \<lparr>tp_s = subj, tp_p = pred, tp_o = obj\<rparr>
       in if peek (skipws r) = CHR '','' then
            rbind (obj_list cx subj pred (bump (skipws r))) (\<lambda>(tps, r'). Inr (tp # tps, r'))
          else Inr ([tp], skipws r))"
  by pat_completeness auto
termination
  by (relation "measure (\<lambda>(cx, a, b, s). length s)") (auto dest!: bump_skipws qt_less)

declare obj_list.simps [simp del]

lemma obj_list_less: "obj_list cx subj pred s = Inr (x, r) \<Longrightarrow> length r < length s"
proof (induction cx subj pred s arbitrary: x r rule: obj_list.induct)
  case (1 cx subj pred s)
  from "1.prems" obtain obj r1 where q: "qt cx Object s = Inr (obj, r1)"
    by (subst (asm) obj_list.simps) (auto simp: rbind_Inr_iff)
  show ?case
  proof (cases "peek (skipws r1) = CHR '',''")
    case True
    with "1.prems" q obtain tps where "obj_list cx subj pred (bump (skipws r1)) = Inr (tps, r)"
      by (subst (asm) obj_list.simps) (auto simp: rbind_Inr_iff)
    from "1.IH" [OF q refl refl True this] bump_skipws [OF True] qt_less [OF q] show ?thesis by simp
  next
    case False
    with "1.prems" q have "r = skipws r1" by (subst (asm) obj_list.simps) simp
    with le_less_trans [OF skipws_length qt_less [OF q]] show ?thesis by simp
  qed
qed

text \<open>The predicates and objects of a subject, separated by semicolons.\<close>

definition block_end :: "string \<Rightarrow> bool" where
  "block_end s \<longleftrightarrow> peek s = CHR ''.'' \<or> peek s = CHR ''}'' \<or> peek s = CHR 0x00"

function pred_list :: "ctx \<Rightarrow> slot \<Rightarrow> string \<Rightarrow> triple_pattern list pres" where
  "pred_list cx subj s =
     rbind (qt cx Predicate s) (\<lambda>(pred, r1).
       rbind (obj_list cx subj pred r1) (\<lambda>(tps, r2).
         if peek (skipws r2) = CHR '';'' then
           let r3 = skip_semis (bump (skipws r2))
           in if block_end r3 then Inr (tps, r3)
              else rbind (pred_list cx subj r3) (\<lambda>(more, r'). Inr (tps @ more, r'))
         else Inr (tps, skipws r2)))"
  by pat_completeness auto
termination
proof (relation "measure (\<lambda>(cx, a, s). length s)")
  fix cx subj s a pred r1 b tps r2 r3
  assume "qt cx Predicate s = Inr a" "(pred, r1) = a" "obj_list cx subj pred r1 = Inr b" "(tps, r2) = b"
    "peek (skipws r2) = CHR '';''" "r3 = skip_semis (bump (skipws r2))"
  then have "length r1 < length s" "length r2 < length r1" "length (bump (skipws r2)) < length r2"
    "length r3 \<le> length (bump (skipws r2))"
    by (auto dest: qt_less obj_list_less bump_skipws)
  then show "((cx, subj, r3), cx, subj, s) \<in> measure (\<lambda>(cx, a, s). length s)" by simp
qed simp

declare pred_list.simps [simp del]

lemma pred_list_less: "pred_list cx subj s = Inr (x, r) \<Longrightarrow> length r < length s"
proof (induction cx subj s arbitrary: x r rule: pred_list.induct)
  case (1 cx subj s)
  from "1.prems" obtain pred r1 tps r2 where q: "qt cx Predicate s = Inr (pred, r1)"
      "obj_list cx subj pred r1 = Inr (tps, r2)"
    by (subst (asm) pred_list.simps) (auto simp: rbind_Inr_iff)
  note less = qt_less [OF q(1)] obj_list_less [OF q(2)]
  define r3 where "r3 = skip_semis (bump (skipws r2))"
  show ?case
  proof (cases "peek (skipws r2) = CHR '';''")
    case True
    have r3: "length r3 < length s"
    proof -
      have "length (bump (skipws r2)) < length r2" using bump_skipws [OF True] by simp
      with skip_semis_length [of "bump (skipws r2)"] less show ?thesis unfolding r3_def by linarith
    qed
    show ?thesis
    proof (cases "block_end r3")
      case True
      with "1.prems" q \<open>peek (skipws r2) = CHR '';''\<close> have "r = r3"
        by (subst (asm) pred_list.simps) (simp add: r3_def)
      with r3 show ?thesis by simp
    next
      case False
      with "1.prems" q \<open>peek (skipws r2) = CHR '';''\<close> obtain more where
        "pred_list cx subj r3 = Inr (more, r)"
        by (subst (asm) pred_list.simps) (auto simp: r3_def [symmetric] rbind_Inr_iff)
      from "1.IH" [OF q(1) refl q(2) refl \<open>peek (skipws r2) = CHR '';''\<close> r3_def False this] r3
      show ?thesis by simp
    qed
  next
    case False
    with "1.prems" q have "r = skipws r2" by (subst (asm) pred_list.simps) simp
    with less le_less_trans [OF skipws_length less(2)] show ?thesis by simp
  qed
qed

definition triples_block :: "ctx \<Rightarrow> string \<Rightarrow> triple_pattern list pres" where
  "triples_block cx s = rbind (qt cx Subject s) (\<lambda>(subj, r). pred_list cx subj r)"

lemma triples_block_less: "triples_block cx s = Inr (x, r) \<Longrightarrow> length r < length s"
  by (auto simp: triples_block_def rbind_Inr_iff dest!: qt_less pred_list_less)

lemma obj_list_fueled [simp]: "fueled (obj_list cx subj pred s)"
proof (induction cx subj pred s rule: obj_list.induct)
  case (1 cx subj pred s)
  then show ?case by (subst obj_list.simps) (auto simp: Let_def intro!: fueled_rbind)
qed

lemma pred_list_fueled [simp]: "fueled (pred_list cx subj s)"
proof (induction cx subj s rule: pred_list.induct)
  case (1 cx subj s)
  then show ?case by (subst pred_list.simps) (auto simp: Let_def intro!: fueled_rbind)
qed

lemma triples_block_fueled [simp]: "fueled (triples_block cx s)"
  by (auto simp: triples_block_def intro!: fueled_rbind)

end
