(* ===== verification/Sparql_Parser.thy ===== *)
theory Sparql_Parser
  imports Sparql_Triples
begin

text \<open>
  Expressions, groups, queries and updates of the SPARQL parser (last part of
  \<open>crates/sparql/src/parser.rs\<close>).

  The nesting of expressions and groups and the loops over their items are bounded by fuel.
  The fuel given is one more than the length of the text left; every step reads at least one
  byte, so it is never used up (\<open>parse_fueled\<close> and the lemmas before it).
\<close>

declare skipws_length [simp del] bump_le [simp del] skip_semis_length [simp del]

subsection \<open>Expressions\<close>

definition var_operand :: "func \<Rightarrow> string \<Rightarrow> expr" where
  "var_operand f v = EVal \<lparr>vl_func = f, vl_var = Some v, vl_term = None\<rparr>"

definition term_operand :: "rdf_term \<Rightarrow> expr" where
  "term_operand t = EVal \<lparr>vl_func = FNone, vl_var = None, vl_term = Some t\<rparr>"

text \<open>A byte that has to follow, after white space.\<close>

definition expect :: "char \<Rightarrow> parse_msg \<Rightarrow> string \<Rightarrow> (perr, string) result" where
  "expect c msg s = (if peek (skipws s) \<noteq> c then fail msg (skipws s) else Inr (bump (skipws s)))"

definition expect_var :: "parse_msg \<Rightarrow> string \<Rightarrow> string pres" where
  "expect_var msg s = (if \<not> var_start (skipws s) then fail msg (skipws s) else varname (skipws s))"

definition bound_expr :: "string \<Rightarrow> expr pres" where
  "bound_expr s =
     rbind (expect (CHR ''('') BoundOpen s) (\<lambda>r1.
       rbind (expect_var BoundVar r1) (\<lambda>(v, r2).
         rbind (expect (CHR '')'') BoundClose r2) (\<lambda>r3. Inr (EBound v, r3))))"

text \<open>\<open>u\<close> is the parser of the operands.\<close>

definition regex_flags :: "(string \<Rightarrow> expr pres) \<Rightarrow> string \<Rightarrow> expr option pres" where
  "regex_flags u s =
     (if peek (skipws s) = CHR '',''
      then rbind (u (bump (skipws s))) (\<lambda>(fl, r). Inr (Some fl, r))
      else Inr (None, skipws s))"

definition regex_expr :: "(string \<Rightarrow> expr pres) \<Rightarrow> string \<Rightarrow> expr pres" where
  "regex_expr u s =
     rbind (expect (CHR ''('') RegexOpen s) (\<lambda>r1.
       rbind (u r1) (\<lambda>(tx, r2).
         rbind (expect (CHR '','') RegexPattern r2) (\<lambda>r3.
           rbind (u r3) (\<lambda>(pat, r4).
             rbind (regex_flags u r4) (\<lambda>(flags, r5).
               rbind (expect (CHR '')'') RegexClose r5) (\<lambda>r6. Inr (ERegex tx pat flags, r6)))))))"

definition builtin_call :: "func \<Rightarrow> string \<Rightarrow> expr pres" where
  "builtin_call f s =
     rbind (expect (CHR ''('') BuiltinOpen s) (\<lambda>r1.
       rbind (expect_var BuiltinVar r1) (\<lambda>(v, r2).
         rbind (expect (CHR '')'') BuiltinClose r2) (\<lambda>r3. Inr (var_operand f v, r3))))"

definition unary_of :: "(string \<Rightarrow> expr pres) \<Rightarrow> string \<Rightarrow> expr pres" where
  "unary_of p s0 =
     (let s = skipws s0
      in case kw ''STR'' s of Some r \<Rightarrow> builtin_call FStr r
       | None \<Rightarrow>
           (case kw ''LANG'' s of Some r \<Rightarrow> builtin_call FLang r
            | None \<Rightarrow>
                (case kw ''DATATYPE'' s of Some r \<Rightarrow> builtin_call FDatatype r | None \<Rightarrow> p s)))"

definition rel_op :: "string \<Rightarrow> (cmp_op \<times> string) option" where
  "rel_op s =
     (if peek s = CHR ''!'' \<and> peek_at 1 s = CHR ''='' then Some (CNe, bump (bump s))
      else if peek s = CHR ''<'' \<and> peek_at 1 s = CHR ''='' then Some (CLe, bump (bump s))
      else if peek s = CHR ''>'' \<and> peek_at 1 s = CHR ''='' then Some (CGe, bump (bump s))
      else if peek s = CHR ''='' then Some (CEq, bump s)
      else if peek s = CHR ''<'' then Some (CLt, bump s)
      else if peek s = CHR ''>'' then Some (CGt, bump s)
      else None)"

fun is_val :: "expr \<Rightarrow> bool" where
  "is_val (EVal v) = True"
| "is_val _ = False"

definition rel_of :: "(string \<Rightarrow> expr pres) \<Rightarrow> string \<Rightarrow> expr pres" where
  "rel_of p s =
     rbind (unary_of p s) (\<lambda>(a, r).
       case rel_op (skipws r) of
         None \<Rightarrow> Inr (a, skipws r)
       | Some (op, r1) \<Rightarrow>
           rbind (unary_of p r1) (\<lambda>(b, r2).
             if \<not> is_val a \<or> \<not> is_val b then fail ComparisonOperand r2 else Inr (ECmp op a b, r2)))"

text \<open>A left-associative chain of operands joined by a doubled byte.\<close>

fun chain ::
  "nat \<Rightarrow> char \<Rightarrow> (expr \<Rightarrow> expr \<Rightarrow> expr) \<Rightarrow> (string \<Rightarrow> expr pres) \<Rightarrow> expr \<Rightarrow> string \<Rightarrow> expr pres" where
  "chain 0 c mk p a s = Inl OutOfFuel"
| "chain (Suc n) c mk p a s =
     (if peek (skipws s) = c \<and> peek_at 1 (skipws s) = c then
        rbind (p (bump (bump (skipws s)))) (\<lambda>(b, r). chain n c mk p (mk a b) r)
      else Inr (a, skipws s))"

definition and_of :: "(string \<Rightarrow> expr pres) \<Rightarrow> string \<Rightarrow> expr pres" where
  "and_of p s =
     rbind (rel_of p s) (\<lambda>(a, r). chain (Suc (length r)) (CHR ''&'') EAnd (rel_of p) a r)"

definition or_of :: "(string \<Rightarrow> expr pres) \<Rightarrow> string \<Rightarrow> expr pres" where
  "or_of p s =
     rbind (and_of p s) (\<lambda>(a, r). chain (Suc (length r)) (CHR ''|'') EOr (and_of p) a r)"

definition operand_term :: "ctx \<Rightarrow> string \<Rightarrow> expr pres" where
  "operand_term cx s =
     rbind (parse_term_common cx s) (\<lambda>(ot, r).
       case ot of None \<Rightarrow> fail ExpectedExpr r | Some t \<Rightarrow> Inr (term_operand t, r))"

fun primary :: "nat \<Rightarrow> ctx \<Rightarrow> string \<Rightarrow> expr pres" where
  "primary 0 cx s0 = Inl OutOfFuel"
| "primary (Suc n) cx s0 =
     (let s = skipws s0
      in if peek s = CHR ''('' then
           rbind (or_of (primary n cx) (bump s)) (\<lambda>(e, r1).
             rbind (expect (CHR '')'') ExpectedClose r1) (\<lambda>r2. Inr (e, r2)))
         else if peek s = CHR ''!'' \<and> peek_at 1 s \<noteq> CHR ''='' then
           rbind (primary n cx (bump s)) (\<lambda>(e, r). Inr (ENot e, r))
         else if var_start s then rbind (varname s) (\<lambda>(v, r). Inr (var_operand FNone v, r))
         else case kw ''BOUND'' s of Some r \<Rightarrow> bound_expr r
         | None \<Rightarrow>
             (case kw ''REGEX'' s of Some r \<Rightarrow> regex_expr (unary_of (primary n cx)) r
              | None \<Rightarrow> operand_term cx s))"

declare primary.simps(2) [simp del]

definition or_expr :: "ctx \<Rightarrow> string \<Rightarrow> expr pres" where
  "or_expr cx s = or_of (primary (Suc (length s)) cx) s"

subsection \<open>Groups\<close>

fun add_triples :: "triple_pattern list \<Rightarrow> group \<Rightarrow> group" where
  "add_triples tps (Group ts fs os us) = Group (ts @ tps) fs os us"

fun add_filter :: "expr \<Rightarrow> group \<Rightarrow> group" where
  "add_filter e (Group ts fs os us) = Group ts (fs @ [e]) os us"

fun add_optional :: "group \<Rightarrow> group \<Rightarrow> group" where
  "add_optional g (Group ts fs os us) = Group ts fs (os @ [g]) us"

fun add_union :: "group list \<Rightarrow> group \<Rightarrow> group" where
  "add_union bs (Group ts fs os us) = Group ts fs os (us @ [bs])"

text \<open>The first of the keywords that stands here.\<close>

fun any_kw :: "string list \<Rightarrow> string \<Rightarrow> string option" where
  "any_kw [] s = None"
| "any_kw (w # ws) s = (case kw w s of Some r \<Rightarrow> Some r | None \<Rightarrow> any_kw ws s)"

text \<open>The branches of a union; \<open>s\<close> stands at an opening brace, \<open>G\<close> parses a group.\<close>

fun union_loop :: "nat \<Rightarrow> (string \<Rightarrow> group pres) \<Rightarrow> group list \<Rightarrow> string \<Rightarrow> group list pres" where
  "union_loop 0 G bs s = Inl OutOfFuel"
| "union_loop (Suc n) G bs s =
     (case kw ''SELECT'' (skipws (bump s)) of
        Some r \<Rightarrow> fail NoSubqueries r
      | None \<Rightarrow>
          rbind (G s) (\<lambda>(b, r).
            case kw ''UNION'' (skipws r) of
              None \<Rightarrow> Inr (bs @ [b], skipws r)
            | Some r1 \<Rightarrow>
                if peek (skipws r1) \<noteq> CHR ''{'' then fail UnionBrace (skipws r1)
                else union_loop n G (bs @ [b]) (skipws r1)))"

text \<open>The items of a group, after its opening brace.\<close>

fun group_loop :: "nat \<Rightarrow> ctx \<Rightarrow> (string \<Rightarrow> group pres) \<Rightarrow> group \<Rightarrow> string \<Rightarrow> group pres" where
  "group_loop 0 cx G g s0 = Inl OutOfFuel"
| "group_loop (Suc n) cx G g s0 =
     (let s = skipws s0
      in if s = [] then fail UnterminatedGroup s
         else if peek s = CHR ''}'' then Inr (g, bump s)
         else if peek s = CHR ''.'' then group_loop n cx G g (bump s)
         else case kw ''OPTIONAL'' s of
           Some r \<Rightarrow> rbind (G r) (\<lambda>(ng, r'). group_loop n cx G (add_optional ng g) r')
         | None \<Rightarrow>
             (case kw ''FILTER'' s of
                Some r \<Rightarrow> rbind (or_expr cx r) (\<lambda>(e, r'). group_loop n cx G (add_filter e g) r')
              | None \<Rightarrow>
                  if peek s = CHR ''{'' then
                    rbind (union_loop (length s) G [] s) (\<lambda>(bs, r'). group_loop n cx G (add_union bs g) r')
                  else case any_kw [''GRAPH'', ''MINUS'', ''BIND'', ''VALUES'', ''SERVICE''] s of
                    Some r \<Rightarrow> fail UnsupportedFeature r
                  | None \<Rightarrow>
                      rbind (triples_block cx s) (\<lambda>(tps, r'). group_loop n cx G (add_triples tps g) r')))"

declare union_loop.simps(2) [simp del] group_loop.simps(2) [simp del]

fun group_at :: "nat \<Rightarrow> ctx \<Rightarrow> string \<Rightarrow> group pres" where
  "group_at 0 cx s0 = Inl OutOfFuel"
| "group_at (Suc n) cx s0 =
     (let s = skipws s0
      in if peek s \<noteq> CHR ''{'' then fail ExpectedOpenBrace s
         else group_loop (length s) cx (group_at n cx) group_default (bump s))"

declare group_at.simps(2) [simp del]

definition group :: "ctx \<Rightarrow> string \<Rightarrow> group pres" where
  "group cx s = group_at (Suc (length s)) cx s"

subsection \<open>Every parser reads less and has fuel enough\<close>

text \<open>A parser that reads at least a byte, and has its fuel on texts shorter than \<open>n\<close>.\<close>

definition steady :: "nat \<Rightarrow> (string \<Rightarrow> 'a pres) \<Rightarrow> bool" where
  "steady n p \<longleftrightarrow> (\<forall>s. shrinks (p s) s \<and> (length s < n \<longrightarrow> fueled (p s)))"

lemma steadyI:
  "(\<And>s x r. p s = Inr (x, r) \<Longrightarrow> length r < length s) \<Longrightarrow> (\<And>s. length s < n \<Longrightarrow> fueled (p s)) \<Longrightarrow> steady n p"
  by (simp add: steady_def shrinks_def)

lemma steady_less: "steady n p \<Longrightarrow> p s = Inr (x, r) \<Longrightarrow> length r < length s"
  by (auto simp: steady_def shrinks_def)

lemma steady_fueled: "steady n p \<Longrightarrow> length s < n \<Longrightarrow> fueled (p s)"
  by (simp add: steady_def)

lemma expect_less:
  assumes "expect c msg s = Inr r" "c \<noteq> CHR 0x00"
  shows "length r < length s"
  using assms bump_skipws [of s c] by (auto simp: expect_def split: if_splits)

lemma fueled_expect:
  "(\<And>r. expect c msg s = Inr r \<Longrightarrow> fueled (f r)) \<Longrightarrow> fueled (rbind (expect c msg s) f)"
  by (auto simp: expect_def)

lemma expect_var_less: "expect_var msg s = Inr (v, r) \<Longrightarrow> length r < length s"
  using less_le_trans [OF varname_less skipws_length] by (auto simp: expect_var_def split: if_splits)

lemma expect_var_fueled [simp]: "fueled (expect_var msg s)"
  by (simp add: expect_var_def)

lemma bound_expr_less: "bound_expr s = Inr (e, r) \<Longrightarrow> length r < length s"
  by (auto simp: bound_expr_def rbind_Inr_iff dest!: expect_less expect_var_less)

lemma builtin_call_less: "builtin_call f s = Inr (e, r) \<Longrightarrow> length r < length s"
  by (auto simp: builtin_call_def rbind_Inr_iff dest!: expect_less expect_var_less)

lemma call_fueled [simp]: "fueled (bound_expr s)" "fueled (builtin_call f s)"
  by (auto simp: bound_expr_def builtin_call_def intro!: fueled_expect fueled_rbind)

lemma regex_flags_length:
  assumes "\<And>s x r. u s = Inr (x, r) \<Longrightarrow> length r < length s" "regex_flags u s = Inr (e, r)"
  shows "length r \<le> length s"
proof (cases "peek (skipws s) = CHR '',''")
  case True
  with assms(2) obtain fl where "u (bump (skipws s)) = Inr (fl, r)" by (auto simp: regex_flags_def rbind_Inr_iff)
  from assms(1) [OF this] bump_skipws [OF True] show ?thesis by simp
next
  case False
  with assms(2) show ?thesis by (auto simp: regex_flags_def skipws_length)
qed

lemma regex_expr_less:
  assumes "\<And>s x r. u s = Inr (x, r) \<Longrightarrow> length r < length s" "regex_expr u s = Inr (e, r)"
  shows "length r < length s"
  using assms(2) regex_flags_length [of u, OF assms(1)]
  by (fastforce simp: regex_expr_def rbind_Inr_iff dest!: expect_less assms(1))

lemma regex_expr_fueled:
  assumes "steady n u" "length s \<le> n"
  shows "fueled (regex_expr u s)"
proof -
  note u = steady_less [OF assms(1)] and f = steady_fueled [OF assms(1)]
  have "fueled (regex_flags u r)" if "length r < n" for r
    using that f [of "bump (skipws r)"] bump_skipws [of r]
    by (auto simp: regex_flags_def intro!: fueled_rbind)
  then show ?thesis
    using assms(2) unfolding regex_expr_def
    by (auto intro!: fueled_expect fueled_rbind f dest!: expect_less u)
qed

lemma unary_of_steady:
  assumes "steady n p"
  shows "steady n (unary_of p)"
proof (rule steadyI)
  fix s x r
  assume "unary_of p s = Inr (x, r)"
  then have "length r < length (skipws s)"
    by (auto simp: unary_of_def Let_def split: option.splits
        dest!: kw_less builtin_call_less steady_less [OF assms])
  then show "length r < length s" using skipws_length [of s] by linarith
next
  fix s :: string
  assume "length s < n"
  then have "length (skipws s) < n" using skipws_length [of s] by linarith
  then show "fueled (unary_of p s)"
    by (auto simp: unary_of_def Let_def steady_fueled [OF assms] split: option.splits)
qed

lemma rel_op_length: "rel_op s = Some (op, r) \<Longrightarrow> length r \<le> length s"
  using bump_le [of s] bump_le [of "bump s"] by (auto simp: rel_op_def split: if_splits)

lemma rel_of_steady:
  assumes "steady n p"
  shows "steady n (rel_of p)"
proof -
  note u = unary_of_steady [OF assms]
  have r: "length r < length s" if "rel_op (skipws r1) = Some (op, r)" "length r1 < length s" for r1 r s :: string and op
    using rel_op_length [OF that(1)] skipws_length [of r1] that(2) by linarith
  show ?thesis
  proof (rule steadyI)
    fix s x r'
    assume "rel_of p s = Inr (x, r')"
    then obtain a r1 where a: "unary_of p s = Inr (a, r1)"
      and k: "(case rel_op (skipws r1) of None \<Rightarrow> Inr (a, skipws r1)
         | Some (op, r2) \<Rightarrow> rbind (unary_of p r2) (\<lambda>(b, r3).
             if \<not> is_val a \<or> \<not> is_val b then fail ComparisonOperand r3 else Inr (ECmp op a b, r3))) = Inr (x, r')"
      by (auto simp: rel_of_def rbind_Inr_iff)
    note a1 = steady_less [OF u a]
    show "length r' < length s"
    proof (cases "rel_op (skipws r1)")
      case None
      with k have "r' = skipws r1" by simp
      with a1 skipws_length [of r1] show ?thesis by simp
    next
      case (Some q)
      then obtain op r2 where q: "rel_op (skipws r1) = Some (op, r2)" by (cases q) auto
      with k obtain b where "unary_of p r2 = Inr (b, r')" by (auto simp: rbind_Inr_iff split: if_splits)
      from steady_less [OF u this] r [OF q a1] show ?thesis by simp
    qed
  next
    fix s :: string
    assume "length s < n"
    then show "fueled (rel_of p s)"
      using r [of _ _ _ s] steady_less [OF u, of s]
      by (auto simp: rel_of_def intro!: fueled_rbind steady_fueled [OF u] split: option.splits)
        (meson less_trans)
  qed
qed

lemma chain_length:
  assumes "steady m p"
  shows "chain n c mk p a s = Inr (x, r) \<Longrightarrow> length r \<le> length s"
proof (induction n arbitrary: a s)
  case (Suc n)
  show ?case
  proof (cases "peek (skipws s) = c \<and> peek_at 1 (skipws s) = c")
    case True
    with Suc.prems obtain b r1 where b: "p (bump (bump (skipws s))) = Inr (b, r1)"
      and n: "chain n c mk p (mk a b) r1 = Inr (x, r)"
      by (auto simp: rbind_Inr_iff)
    from Suc.IH [OF n] steady_less [OF assms b] bump_le [of "bump (skipws s)"] bump_le [of "skipws s"]
      skipws_length [of s] show ?thesis by simp
  next
    case False
    with Suc.prems show ?thesis using skipws_length [of s] by auto
  qed
qed simp

lemma chain_fueled:
  assumes "steady m p"
  shows "length s < n \<Longrightarrow> length s < m \<Longrightarrow> fueled (chain n c mk p a s)"
proof (induction n arbitrary: a s)
  case (Suc n)
  have l: "length (bump (bump (skipws s))) \<le> length s"
    using bump_le [of "bump (skipws s)"] bump_le [of "skipws s"] skipws_length [of s] by simp
  have "fueled (chain n c mk p b r)" if "p (bump (bump (skipws s))) = Inr (x, r)" for b x r
    using Suc.IH [of r] Suc.prems steady_less [OF assms that] l by simp
  then show ?case
    using l Suc.prems steady_fueled [OF assms, of "bump (bump (skipws s))"] by (auto intro!: fueled_rbind)
qed simp

lemma chained_steady:
  assumes "steady n p"
  shows "steady n (\<lambda>s. rbind (p s) (\<lambda>(a, r). chain (Suc (length r)) c mk p a r))"
proof (rule steadyI)
  fix s x r
  assume "rbind (p s) (\<lambda>(a, r). chain (Suc (length r)) c mk p a r) = Inr (x, r)"
  then obtain a r1 where a: "p s = Inr (a, r1)" and c: "chain (Suc (length r1)) c mk p a r1 = Inr (x, r)"
    by (auto simp: rbind_Inr_iff)
  from chain_length [OF assms c] steady_less [OF assms a] show "length r < length s" by simp
next
  fix s :: string
  assume s: "length s < n"
  have "fueled (chain (Suc (length r)) c mk p a r)" if "p s = Inr (a, r)" for a r
    using chain_fueled [OF assms, of r "Suc (length r)"] steady_less [OF assms that] s by simp
  then show "fueled (rbind (p s) (\<lambda>(a, r). chain (Suc (length r)) c mk p a r))"
    using steady_fueled [OF assms s] by (auto simp del: chain.simps intro!: fueled_rbind)
qed

lemma and_of_steady: "steady n p \<Longrightarrow> steady n (and_of p)"
  using chained_steady [OF rel_of_steady] by (simp add: and_of_def [abs_def])

lemma or_of_steady: "steady n p \<Longrightarrow> steady n (or_of p)"
  using chained_steady [OF and_of_steady] by (simp add: or_of_def [abs_def])

lemma operand_term_less: "operand_term cx s = Inr (e, r) \<Longrightarrow> length r < length s"
  by (auto simp: operand_term_def rbind_Inr_iff split: option.splits dest: parse_term_common_less)

lemma operand_term_fueled [simp]: "fueled (operand_term cx s)"
  by (auto simp: operand_term_def intro!: fueled_rbind split: option.splits)

lemma primary_steady: "steady n (primary n cx)"
proof (induction n)
  case 0
  show ?case by (rule steadyI) simp_all
next
  case (Suc n)
  note o = or_of_steady [OF Suc] and u = unary_of_steady [OF Suc]
  have b: "length (bump s) < n" if "length s < Suc n" "peek s \<noteq> CHR 0x00" for s
    using peek_bump [OF that(2)] that(1) by simp
  show ?case
  proof (rule steadyI)
    fix s0 x r
    assume p: "primary (Suc n) cx s0 = Inr (x, r)"
    define s where "s = skipws s0"
    have "length r < length s"
      using p bump_le [of s] regex_expr_less [OF steady_less [OF u]]
      by (fastforce simp: primary.simps(2) Let_def s_def [symmetric] rbind_Inr_iff
          split: if_splits option.splits
          dest!: steady_less [OF o] steady_less [OF Suc] expect_less kw_less bound_expr_less varname_less operand_term_less)
    with skipws_length [of s0] show "length r < length s0" by (simp add: s_def)
  next
    fix s0 :: string
    assume "length s0 < Suc n"
    with skipws_length [of s0] have s: "length (skipws s0) < Suc n" by simp
    define s where "s = skipws s0"
    have "fueled (or_of (primary n cx) (bump s))" if "peek s = CHR ''(''"
      using steady_fueled [OF o b] s that by (simp add: s_def)
    moreover have "fueled (primary n cx (bump s))" if "peek s = CHR ''!''"
      using steady_fueled [OF Suc b] s that by (simp add: s_def)
    moreover have "fueled (regex_expr (unary_of (primary n cx)) r)" if "kw ''REGEX'' s = Some r" for r
      using regex_expr_fueled [OF u, of r] kw_less [OF that] s by (simp add: s_def)
    ultimately show "fueled (primary (Suc n) cx s0)"
      by (auto simp: primary.simps(2) Let_def s_def [symmetric] intro!: fueled_rbind fueled_expect split: option.splits)
  qed
qed

lemma or_expr_less: "or_expr cx s = Inr (e, r) \<Longrightarrow> length r < length s"
  using steady_less [OF or_of_steady [OF primary_steady]] by (auto simp: or_expr_def)

lemma or_expr_fueled [simp]: "fueled (or_expr cx s)"
  using steady_fueled [OF or_of_steady [OF primary_steady], of s "Suc (length s)" cx] by (simp add: or_expr_def)

lemma union_loop_less:
  assumes "steady m G"
  shows "union_loop n G bs s = Inr (x, r) \<Longrightarrow> length r < length s"
proof (induction n arbitrary: bs s)
  case (Suc n)
  then obtain b r1 where b: "G s = Inr (b, r1)"
    and k: "(case kw ''UNION'' (skipws r1) of
              None \<Rightarrow> Inr (bs @ [b], skipws r1)
            | Some r2 \<Rightarrow>
                if peek (skipws r2) \<noteq> CHR ''{'' then fail UnionBrace (skipws r2)
                else union_loop n G (bs @ [b]) (skipws r2)) = Inr (x, r)"
    by (auto simp: union_loop.simps(2) rbind_Inr_iff split: option.splits)
  note l = steady_less [OF assms b] skipws_length [of r1]
  show ?case
  proof (cases "kw ''UNION'' (skipws r1)")
    case None
    with k l show ?thesis by simp
  next
    case (Some r2)
    with k have "union_loop n G (bs @ [b]) (skipws r2) = Inr (x, r)" by (simp split: if_splits)
    from Suc.IH [OF this] kw_less [OF Some] skipws_length [of r2] l show ?thesis by simp
  qed
qed simp

lemma union_loop_fueled:
  assumes "steady m G"
  shows "length s \<le> n \<Longrightarrow> s \<noteq> [] \<Longrightarrow> length s < m \<Longrightarrow> fueled (union_loop n G bs s)"
proof (induction n arbitrary: bs s)
  case (Suc n)
  have "fueled (union_loop n G (bs @ [b]) (skipws r2))"
    if "G s = Inr (b, r1)" "kw ''UNION'' (skipws r1) = Some r2" "peek (skipws r2) = CHR ''{''" for b r1 r2
  proof -
    have "length (skipws r2) < length s"
      using steady_less [OF assms that(1)] kw_less [OF that(2)] skipws_length [of r1] skipws_length [of r2] by simp
    moreover have "skipws r2 \<noteq> []" using that(3) by (auto simp: peek_def)
    ultimately show ?thesis using Suc by simp
  qed
  then show ?case
    using steady_fueled [OF assms, of s] Suc.prems
    by (auto simp: union_loop.simps(2) intro!: fueled_rbind split: option.splits)
qed simp

lemma group_loop_less:
  assumes "steady m G"
  shows "group_loop n cx G g s0 = Inr (x, r) \<Longrightarrow> length r < length s0"
proof (induction n arbitrary: g s0)
  case (Suc n)
  define s where "s = skipws s0"
  have "length r < length s"
    using Suc.prems peek_bump [of s]
    by (fastforce simp: group_loop.simps(2) Let_def s_def [symmetric] rbind_Inr_iff
        split: if_splits option.splits
        dest!: Suc.IH steady_less [OF assms] union_loop_less [OF assms] kw_less or_expr_less triples_block_less)
  with skipws_length [of s0] show ?case by (simp add: s_def)
qed simp

lemma group_loop_fueled:
  assumes "steady m G"
  shows "length s0 < n \<Longrightarrow> length s0 < m \<Longrightarrow> fueled (group_loop n cx G g s0)"
proof (induction n arbitrary: g s0)
  case (Suc n)
  define s where "s = skipws s0"
  have s: "length s \<le> n" "length s < m" using skipws_length [of s0] Suc.prems by (simp_all add: s_def)
  have IH: "fueled (group_loop n cx G g' r)" if "length r < length s" for g' r
    using Suc.IH [of r g'] that s by simp
  have G: "fueled (G r)" if "length r < length s" for r using steady_fueled [OF assms, of r] that s by simp
  have U: "fueled (union_loop (length s) G [] s)" if "s \<noteq> []"
    using union_loop_fueled [OF assms, of s "length s"] that s by simp
  show ?case
    using peek_bump [of s] IH G U
    by (auto simp: group_loop.simps(2) Let_def s_def [symmetric] intro!: fueled_rbind
        split: option.splits
        dest!: steady_less [OF assms] union_loop_less [OF assms] kw_less or_expr_less triples_block_less)
qed simp

lemma group_at_steady: "steady n (group_at n cx)"
proof (induction n)
  case 0
  show ?case by (rule steadyI) simp_all
next
  case (Suc n)
  show ?case
  proof (rule steadyI)
    fix s x r
    assume p: "group_at (Suc n) cx s = Inr (x, r)"
    then have "length r < length (bump (skipws s))"
      by (auto simp: group_at.simps(2) Let_def split: if_splits dest: group_loop_less [OF Suc])
    with bump_le [of "skipws s"] skipws_length [of s] show "length r < length s" by linarith
  next
    fix s :: string
    assume s: "length s < Suc n"
    have "fueled (group_loop (length (skipws s)) cx (group_at n cx) group_default (bump (skipws s)))"
      if "peek (skipws s) = CHR ''{''"
      using group_loop_fueled [OF Suc, of "bump (skipws s)" "length (skipws s)"] peek_bump [of "skipws s"]
        that s skipws_length [of s] by simp
    then show "fueled (group_at (Suc n) cx s)" by (auto simp: group_at.simps(2) Let_def)
  qed
qed

lemma group_less: "group cx s = Inr (g, r) \<Longrightarrow> length r < length s"
  using steady_less [OF group_at_steady] by (auto simp: group_def)

lemma group_fueled [simp]: "fueled (group cx s)"
  using steady_fueled [OF group_at_steady, of s "Suc (length s)" cx] by (simp add: group_def)

end
