(* ===== verification/Sparql_Query.thy ===== *)
theory Sparql_Query
  imports Sparql_Parser
begin

text \<open>
  Prologue, query forms, modifiers and updates of the SPARQL parser (\<open>prologue\<close>, \<open>int\<close>,
  \<open>agg_item\<close>, \<open>modifiers\<close>, \<open>data_block\<close> and \<open>parse\<close> of \<open>crates/sparql/src/parser.rs\<close>).
\<close>

definition opt_kw :: "string \<Rightarrow> string \<Rightarrow> string" where
  "opt_kw w s = (case kw w s of Some r \<Rightarrow> r | None \<Rightarrow> s)"

subsection \<open>Prologue\<close>

definition set_prefix :: "string \<Rightarrow> string \<Rightarrow> ctx \<Rightarrow> ctx" where
  "set_prefix name iri cx =
     cx\<lparr>cx_prefixes := filter (\<lambda>(n, _). n \<noteq> name) (cx_prefixes cx) @ [(name, iri)]\<rparr>"

definition prefix_decl :: "ctx \<Rightarrow> string \<Rightarrow> ctx pres" where
  "prefix_decl cx s =
     (case take_while (\<lambda>b. local_byte b \<or> b = CHR ''.'') (skipws s) of
        (name, r1) \<Rightarrow>
          if peek r1 \<noteq> CHR '':'' then fail PrefixColon r1
          else if peek (skipws (bump r1)) \<noteq> CHR ''<'' then fail PrefixIri (skipws (bump r1))
          else rbind (read_iriref (skipws (bump r1))) (\<lambda>(iri, r).
                 Inr (set_prefix name (resolve_iri (cx_base cx) iri) cx, r)))"

definition base_decl :: "ctx \<Rightarrow> string \<Rightarrow> ctx pres" where
  "base_decl cx s =
     (if peek (skipws s) \<noteq> CHR ''<'' then fail BaseIri (skipws s)
      else rbind (read_iriref (skipws s)) (\<lambda>(iri, r).
             Inr (cx\<lparr>cx_base := Some (resolve_iri (cx_base cx) iri)\<rparr>, r)))"

lemma prefix_decl_less:
  assumes "prefix_decl cx s = Inr (cx', r)"
  shows "length r < length s"
proof -
  obtain name r1 where t: "take_while (\<lambda>b. local_byte b \<or> b = CHR ''.'') (skipws s) = (name, r1)"
    by (cases "take_while (\<lambda>b. local_byte b \<or> b = CHR ''.'') (skipws s)")
  with assms obtain iri where "read_iriref (skipws (bump r1)) = Inr (iri, r)"
    by (auto simp: prefix_decl_def rbind_Inr_iff split: if_splits)
  from read_iriref_less [OF this] skipws_length [of "bump r1"] bump_le [of r1] take_while_length [OF t]
    skipws_length [of s] show ?thesis by linarith
qed

lemma base_decl_less: "base_decl cx s = Inr (cx', r) \<Longrightarrow> length r < length s"
  using less_le_trans [OF read_iriref_less skipws_length]
  by (auto simp: base_decl_def rbind_Inr_iff split: if_splits)

lemma decl_fueled [simp]: "fueled (prefix_decl cx s)" "fueled (base_decl cx s)"
  by (auto simp: prefix_decl_def base_decl_def intro!: fueled_rbind split: prod.splits)

lemma kw_skipws: "kw w (skipws s) = Some r \<Longrightarrow> w \<noteq> [] \<Longrightarrow> length r < length s"
  by (rule less_le_trans [OF kw_less skipws_length])

function prologue :: "ctx \<Rightarrow> string \<Rightarrow> ctx pres" where
  "prologue cx s =
     (case kw ''PREFIX'' (skipws s) of
        Some r \<Rightarrow> rbind (prefix_decl cx r) (\<lambda>(cx', r'). prologue cx' r')
      | None \<Rightarrow>
          (case kw ''BASE'' (skipws s) of
             Some r \<Rightarrow> rbind (base_decl cx r) (\<lambda>(cx', r'). prologue cx' r')
           | None \<Rightarrow> Inr (cx, skipws s)))"
  by pat_completeness auto
termination
  by (relation "measure (\<lambda>(cx, s). length s)")
    (auto dest!: kw_skipws prefix_decl_less base_decl_less)

declare prologue.simps [simp del]

lemma prologue_fueled [simp]: "fueled (prologue cx s)"
proof (induction cx s rule: prologue.induct)
  case (1 cx s)
  then show ?case by (subst prologue.simps) (auto intro!: fueled_rbind split: option.splits)
qed

lemma prologue_length: "prologue cx s = Inr (cx', r) \<Longrightarrow> length r \<le> length s"
proof (induction cx s arbitrary: cx' r rule: prologue.induct)
  case (1 cx s)
  show ?case
  proof (cases "kw ''PREFIX'' (skipws s)")
    case p: (Some r1)
    with "1.prems" obtain c2 r2 where d: "prefix_decl cx r1 = Inr (c2, r2)" and n: "prologue c2 r2 = Inr (cx', r)"
      by (subst (asm) prologue.simps) (auto simp: rbind_Inr_iff)
    from "1.IH"(2) [OF p d refl n] prefix_decl_less [OF d] kw_skipws [OF p] show ?thesis by simp
  next
    case p: None
    show ?thesis
    proof (cases "kw ''BASE'' (skipws s)")
      case b: (Some r1)
      with p "1.prems" obtain c2 r2 where d: "base_decl cx r1 = Inr (c2, r2)" and n: "prologue c2 r2 = Inr (cx', r)"
        by (subst (asm) prologue.simps) (auto simp: rbind_Inr_iff)
      from "1.IH"(1) [OF p b d refl n] base_decl_less [OF d] kw_skipws [OF b] show ?thesis by simp
    next
      case None
      with p "1.prems" show ?thesis using skipws_length [of s] by (subst (asm) prologue.simps) simp
    qed
  qed
qed

subsection \<open>Items and modifiers\<close>

definition read_int :: "string \<Rightarrow> int pres" where
  "read_int s =
     (case take_while is_digit (skipws s) of
        (ds, r) \<Rightarrow>
          if ds = [] then fail ExpectedInteger r
          else Inr (case parse_i64 ds of Some i \<Rightarrow> i | None \<Rightarrow> 0, r))"

definition agg_name :: "string \<Rightarrow> (agg \<times> string) option" where
  "agg_name s =
     (case kw ''COUNT'' s of Some r \<Rightarrow> Some (AggCount, r) | None \<Rightarrow>
     (case kw ''SUM'' s of Some r \<Rightarrow> Some (AggSum, r) | None \<Rightarrow>
     (case kw ''MIN'' s of Some r \<Rightarrow> Some (AggMin, r) | None \<Rightarrow>
     (case kw ''MAX'' s of Some r \<Rightarrow> Some (AggMax, r) | None \<Rightarrow>
     (case kw ''AVG'' s of Some r \<Rightarrow> Some (AggAvg, r) | None \<Rightarrow> None)))))"

text \<open>The argument of an aggregate: a star or a variable.\<close>

definition agg_arg :: "agg \<Rightarrow> string \<Rightarrow> (bool \<times> string option) pres" where
  "agg_arg ag s =
     (if peek s = CHR ''*'' then
        (if ag \<noteq> AggCount then fail AggStar s else Inr ((True, None), bump s))
      else if var_start s then rbind (varname s) (\<lambda>(v, r). Inr ((False, Some v), r))
      else fail AggVar s)"

definition agg_item :: "string \<Rightarrow> sel_item pres" where
  "agg_item s0 =
     (let s = skipws (bump s0)
      in case agg_name s of
        None \<Rightarrow> fail ExpectedAgg s
      | Some (ag, r0) \<Rightarrow>
          rbind (expect (CHR ''('') AggOpen r0) (\<lambda>r1.
            let dist = kw ''DISTINCT'' (skipws r1);
                r2 = (case dist of Some r \<Rightarrow> skipws r | None \<Rightarrow> skipws r1)
            in rbind (agg_arg ag r2) (\<lambda>((star, v), r3).
                 rbind (expect (CHR '')'') ExpectedClose r3) (\<lambda>r4.
                   case kw ''AS'' (skipws r4) of
                     None \<Rightarrow> fail AggAlias (skipws r4)
                   | Some r5 \<Rightarrow>
                       rbind (expect_var AliasVar r5) (\<lambda>(alias, r6).
                         rbind (expect (CHR '')'') AggClose r6) (\<lambda>r7.
                           Inr (\<lparr>si_agg = ag, si_distinct = (dist \<noteq> None), si_star = star,
                                 si_var = v, si_alias = alias\<rparr>, r7)))))))"

lemma agg_name_less: "agg_name s = Some (a, r) \<Longrightarrow> length r < length s"
  by (auto simp: agg_name_def split: option.splits dest: kw_less)

lemma agg_arg_length: "agg_arg ag s = Inr (x, r) \<Longrightarrow> length r \<le> length s"
  using bump_le [of s] by (auto simp: agg_arg_def rbind_Inr_iff split: if_splits dest!: varname_less)

lemma agg_item_less:
  assumes "agg_item s = Inr (x, r)"
  shows "length r < length s"
proof -
  obtain a r0 where a: "agg_name (skipws (bump s)) = Some (a, r0)"
    using assms by (auto simp: agg_item_def Let_def split: option.splits)
  obtain r1 where 1: "expect (CHR ''('') AggOpen r0 = Inr r1"
    using assms by (auto simp: agg_item_def Let_def a rbind_Inr_iff)
  define r2 where "r2 = (case kw ''DISTINCT'' (skipws r1) of Some r \<Rightarrow> skipws r | None \<Rightarrow> skipws r1)"
  obtain q r3 where 3: "agg_arg a r2 = Inr (q, r3)"
    using assms by (auto simp: agg_item_def Let_def a 1 rbind_Inr_iff r2_def [symmetric])
  obtain r4 where 4: "expect (CHR '')'') ExpectedClose r3 = Inr r4"
    using assms by (cases q) (auto simp: agg_item_def Let_def a 1 rbind_Inr_iff r2_def [symmetric] 3)
  obtain r5 where 5: "kw ''AS'' (skipws r4) = Some r5"
    using assms by (cases q) (auto simp: agg_item_def Let_def a 1 rbind_Inr_iff r2_def [symmetric] 3 4 split: option.splits)
  obtain al r6 where 6: "expect_var AliasVar r5 = Inr (al, r6)" and 7: "expect (CHR '')'') AggClose r6 = Inr r"
    using assms by (cases q) (auto simp: agg_item_def Let_def a 1 rbind_Inr_iff r2_def [symmetric] 3 4 5)
  have "length r2 \<le> length r1"
  proof (cases "kw ''DISTINCT'' (skipws r1)")
    case (Some r)
    with skipws_length [of r] kw_skipws [OF Some] show ?thesis by (simp add: r2_def)
  qed (use skipws_length [of r1] in \<open>simp add: r2_def\<close>)
  with agg_name_less [OF a] expect_less [OF 1] agg_arg_length [OF 3] expect_less [OF 4] kw_skipws [OF 5]
    expect_var_less [OF 6] expect_less [OF 7] bump_le [of s] skipws_length [of "bump s"]
  show ?thesis by simp
qed

lemma agg_item_fueled [simp]: "fueled (agg_item s)"
  by (auto simp: agg_item_def agg_arg_def Let_def intro!: fueled_rbind fueled_expect split: option.splits prod.splits)

text \<open>A list of variables, ended by anything else.\<close>

function var_list :: "string \<Rightarrow> string list pres" where
  "var_list s =
     (if \<not> var_start (skipws s) then Inr ([], skipws s)
      else rbind (varname (skipws s)) (\<lambda>(v, r). rbind (var_list r) (\<lambda>(vs, r'). Inr (v # vs, r'))))"
  by pat_completeness auto
termination
  by (relation "measure length") (auto dest: less_le_trans [OF varname_less skipws_length])

declare var_list.simps [simp del]

lemma var_list_fueled [simp]: "fueled (var_list s)"
proof (induction s rule: var_list.induct)
  case (1 s)
  then show ?case by (subst var_list.simps) (auto intro!: fueled_rbind)
qed

lemma var_list_length: "var_list s = Inr (vs, r) \<Longrightarrow> length r \<le> length s"
proof (induction s arbitrary: vs r rule: var_list.induct)
  case (1 s)
  show ?case
  proof (cases "var_start (skipws s)")
    case True
    with "1.prems" obtain v r1 vs1 where v: "varname (skipws s) = Inr (v, r1)" and n: "var_list r1 = Inr (vs1, r)"
      by (subst (asm) var_list.simps) (auto simp: rbind_Inr_iff)
    from "1.IH" [OF _ v refl n] True varname_less [OF v] skipws_length [of s] show ?thesis by simp
  next
    case False
    with "1.prems" show ?thesis using skipws_length [of s] by (subst (asm) var_list.simps) simp
  qed
qed

definition ord_call :: "bool \<Rightarrow> string \<Rightarrow> ord_key pres" where
  "ord_call desc s =
     rbind (expect (CHR ''('') OrderOpen s) (\<lambda>r1.
       rbind (expect_var OrderVar r1) (\<lambda>(v, r2).
         rbind (expect (CHR '')'') ExpectedClose r2) (\<lambda>r3. Inr (\<lparr>ok_var = v, ok_desc = desc\<rparr>, r3))))"

text \<open>One sort key, if one stands here.\<close>

definition ord_key_at :: "string \<Rightarrow> ord_key option pres" where
  "ord_key_at s =
     (case kw ''ASC'' s of
        Some r \<Rightarrow> rbind (ord_call False r) (\<lambda>(k, r'). Inr (Some k, r'))
      | None \<Rightarrow>
          (case kw ''DESC'' s of
             Some r \<Rightarrow> rbind (ord_call True r) (\<lambda>(k, r'). Inr (Some k, r'))
           | None \<Rightarrow>
               if var_start s
               then rbind (varname s) (\<lambda>(v, r). Inr (Some \<lparr>ok_var = v, ok_desc = False\<rparr>, r))
               else Inr (None, s)))"

lemma ord_call_less: "ord_call d s = Inr (k, r) \<Longrightarrow> length r < length s"
  by (auto simp: ord_call_def rbind_Inr_iff dest!: expect_less expect_var_less)

lemma ord_key_at_less: "ord_key_at s = Inr (Some k, r) \<Longrightarrow> length r < length s"
  by (auto simp: ord_key_at_def rbind_Inr_iff split: option.splits if_splits
      dest!: ord_call_less kw_less dest: varname_less)

lemma ord_key_at_none: "ord_key_at s = Inr (None, r) \<Longrightarrow> r = s"
  by (auto simp: ord_key_at_def rbind_Inr_iff split: option.splits if_splits)

lemma ord_fueled [simp]: "fueled (ord_call d s)" "fueled (ord_key_at s)"
  by (auto simp: ord_call_def ord_key_at_def intro!: fueled_rbind fueled_expect split: option.splits)

function ord_keys :: "string \<Rightarrow> ord_key list pres" where
  "ord_keys s =
     rbind (ord_key_at (skipws s)) (\<lambda>(ok, r).
       case ok of
         None \<Rightarrow> Inr ([], r)
       | Some k \<Rightarrow> rbind (ord_keys r) (\<lambda>(ks, r'). Inr (k # ks, r')))"
  by pat_completeness auto
termination
  by (relation "measure length") (auto dest: less_le_trans [OF ord_key_at_less skipws_length])

declare ord_keys.simps [simp del]

lemma ord_keys_fueled [simp]: "fueled (ord_keys s)"
proof (induction s rule: ord_keys.induct)
  case (1 s)
  then show ?case by (subst ord_keys.simps) (auto intro!: fueled_rbind split: option.splits)
qed

lemma ord_keys_length: "ord_keys s = Inr (ks, r) \<Longrightarrow> length r \<le> length s"
proof (induction s arbitrary: ks r rule: ord_keys.induct)
  case (1 s)
  from "1.prems" obtain ko r1 where k: "ord_key_at (skipws s) = Inr (ko, r1)"
    by (subst (asm) ord_keys.simps) (auto simp: rbind_Inr_iff)
  show ?case
  proof (cases ko)
    case None
    with "1.prems" k ord_key_at_none [of "skipws s" r1] show ?thesis
      using skipws_length [of s] by (subst (asm) ord_keys.simps) simp
  next
    case (Some k1)
    with "1.prems" k obtain ks1 where n: "ord_keys r1 = Inr (ks1, r)"
      by (subst (asm) ord_keys.simps) (auto simp: rbind_Inr_iff)
    from "1.IH" [OF k refl Some n] ord_key_at_less [OF k [unfolded Some]] skipws_length [of s]
    show ?thesis by simp
  qed
qed

subsubsection \<open>The modifiers\<close>

definition group_clause :: "query \<Rightarrow> string \<Rightarrow> query pres" where
  "group_clause q s =
     (case kw ''BY'' (skipws s) of
        None \<Rightarrow> fail GroupBy (skipws s)
      | Some r \<Rightarrow>
          rbind (var_list r) (\<lambda>(vs, r').
            if q_group_by q @ vs = [] then fail GroupByVars r'
            else Inr (q\<lparr>q_group_by := q_group_by q @ vs\<rparr>, r')))"

definition order_clause :: "query \<Rightarrow> string \<Rightarrow> query pres" where
  "order_clause q s =
     (case kw ''BY'' (skipws s) of
        None \<Rightarrow> fail OrderBy (skipws s)
      | Some r \<Rightarrow>
          rbind (ord_keys r) (\<lambda>(ks, r').
            if q_order q @ ks = [] then fail OrderVars r'
            else Inr (q\<lparr>q_order := q_order q @ ks\<rparr>, r')))"

lemma clause_length:
  "group_clause q s = Inr (q', r) \<Longrightarrow> length r \<le> length s"
  "order_clause q s = Inr (q', r) \<Longrightarrow> length r \<le> length s"
  by (auto simp: group_clause_def order_clause_def rbind_Inr_iff split: option.splits if_splits
      dest!: kw_skipws var_list_length ord_keys_length)

lemma read_int_length: "read_int s = Inr (i, r) \<Longrightarrow> length r \<le> length s"
  using skipws_length [of s]
  by (auto simp: read_int_def split: prod.splits if_splits dest!: take_while_length)

lemma clause_fueled [simp]: "fueled (group_clause q s)" "fueled (order_clause q s)" "fueled (read_int s)"
  by (auto simp: group_clause_def order_clause_def read_int_def intro!: fueled_rbind split: option.splits prod.splits)

function modifiers :: "query \<Rightarrow> string \<Rightarrow> query pres" where
  "modifiers q s0 =
     (let s = skipws s0
      in case kw ''GROUP'' s of
        Some r \<Rightarrow> rbind (group_clause q r) (\<lambda>(q', r'). modifiers q' r')
      | None \<Rightarrow>
          (case kw ''HAVING'' s of
             Some r \<Rightarrow> fail NoHaving r
           | None \<Rightarrow>
               (case kw ''ORDER'' s of
                  Some r \<Rightarrow> rbind (order_clause q r) (\<lambda>(q', r'). modifiers q' r')
                | None \<Rightarrow>
                    (case kw ''LIMIT'' s of
                       Some r \<Rightarrow> rbind (read_int r) (\<lambda>(i, r'). modifiers (q\<lparr>q_limit := i\<rparr>) r')
                     | None \<Rightarrow>
                         (case kw ''OFFSET'' s of
                            Some r \<Rightarrow> rbind (read_int r) (\<lambda>(i, r'). modifiers (q\<lparr>q_offset := i\<rparr>) r')
                          | None \<Rightarrow> Inr (q, s))))))"
  by pat_completeness auto
termination
  by (relation "measure (\<lambda>(q, s). length s)")
    (auto dest!: kw_skipws clause_length read_int_length)

declare modifiers.simps [simp del]

lemma modifiers_fueled [simp]: "fueled (modifiers q s)"
proof (induction q s rule: modifiers.induct)
  case (1 q s)
  then show ?case
    by (subst modifiers.simps) (auto simp: Let_def intro!: fueled_rbind split: option.splits)
qed

subsection \<open>Blocks of triples\<close>

function data_loop :: "ctx \<Rightarrow> triple_pattern list \<Rightarrow> string \<Rightarrow> triple_pattern list pres" where
  "data_loop cx tps s0 =
     (let s = skipws s0
      in if s = [] then fail UnterminatedData s
         else if peek s = CHR ''}'' then Inr (tps, bump s)
         else if peek s = CHR ''.'' then data_loop cx tps (bump s)
         else case kw ''GRAPH'' s of
           Some r \<Rightarrow> fail NoGraph r
         | None \<Rightarrow> rbind (triples_block cx s) (\<lambda>(ts, r). data_loop cx (tps @ ts) r))"
  by pat_completeness auto
termination
  by (relation "measure (\<lambda>(cx, tps, s). length s)")
    (auto dest: bump_skipws less_le_trans [OF triples_block_less skipws_length])

declare data_loop.simps [simp del]

definition data_block :: "ctx \<Rightarrow> string \<Rightarrow> triple_pattern list pres" where
  "data_block cx s = rbind (expect (CHR ''{'') ExpectedOpenBrace s) (\<lambda>r. data_loop cx [] r)"

text \<open>The template of a CONSTRUCT query, after its opening brace.\<close>

function template_loop :: "ctx \<Rightarrow> triple_pattern list \<Rightarrow> string \<Rightarrow> triple_pattern list pres" where
  "template_loop cx tps s0 =
     (let s = skipws s0
      in if peek s = CHR ''}'' then Inr (tps, bump s)
         else if peek s = CHR ''.'' then template_loop cx tps (bump s)
         else if s = [] then fail UnterminatedTemplate s
         else rbind (triples_block cx s) (\<lambda>(ts, r). template_loop cx (tps @ ts) r))"
  by pat_completeness auto
termination
  by (relation "measure (\<lambda>(cx, tps, s). length s)")
    (auto dest: bump_skipws less_le_trans [OF triples_block_less skipws_length])

declare template_loop.simps [simp del]

lemma data_loop_fueled [simp]: "fueled (data_loop cx tps s)"
proof (induction cx tps s rule: data_loop.induct)
  case (1 cx tps s)
  then show ?case
    by (subst data_loop.simps) (auto simp: Let_def intro!: fueled_rbind split: option.splits)
qed

lemma template_loop_fueled [simp]: "fueled (template_loop cx tps s)"
proof (induction cx tps s rule: template_loop.induct)
  case (1 cx tps s)
  then show ?case by (subst template_loop.simps) (auto simp: Let_def intro!: fueled_rbind)
qed

lemma data_block_fueled [simp]: "fueled (data_block cx s)"
  by (auto simp: data_block_def intro!: fueled_expect)

subsection \<open>Queries and updates\<close>

definition plain_item :: "string \<Rightarrow> sel_item" where
  "plain_item v =
     \<lparr>si_agg = AggNone, si_distinct = False, si_star = False, si_var = Some v, si_alias = v\<rparr>"

function sel_items :: "sel_item list \<Rightarrow> string \<Rightarrow> sel_item list pres" where
  "sel_items items s0 =
     (let s = skipws s0
      in if var_start s then rbind (varname s) (\<lambda>(v, r). sel_items (items @ [plain_item v]) r)
         else if peek s = CHR ''('' then rbind (agg_item s) (\<lambda>(it, r). sel_items (items @ [it]) r)
         else Inr (items, s))"
  by pat_completeness auto
termination
  by (relation "measure (\<lambda>(items, s). length s)")
    (auto dest: less_le_trans [OF varname_less skipws_length] less_le_trans [OF agg_item_less skipws_length])

declare sel_items.simps [simp del]

lemma sel_items_fueled [simp]: "fueled (sel_items items s)"
proof (induction items s rule: sel_items.induct)
  case (1 items s)
  then show ?case by (subst sel_items.simps) (auto simp: Let_def intro!: fueled_rbind)
qed

definition query_default :: query where
  "query_default =
     \<lparr>q_form = FSelect, q_distinct = False, q_star = False, q_sel = [], q_group_by = [],
      q_template = [], q_pattern = group_default, q_order = [], q_limit = -1, q_offset = 0,
      q_prefixes = [], q_base = None\<rparr>"

text \<open>An optional \<open>WHERE\<close> and the pattern.\<close>

definition where_pattern :: "ctx \<Rightarrow> query \<Rightarrow> string \<Rightarrow> query pres" where
  "where_pattern cx q s =
     rbind (group cx (opt_kw ''WHERE'' (skipws s))) (\<lambda>(g, r). Inr (q\<lparr>q_pattern := g\<rparr>, r))"

definition select_query :: "ctx \<Rightarrow> string \<Rightarrow> query pres" where
  "select_query cx s0 =
     (let s = skipws s0;
          dist = any_kw [''DISTINCT'', ''REDUCED''] s;
          s1 = skipws (case dist of Some r \<Rightarrow> r | None \<Rightarrow> s);
          q = query_default\<lparr>q_distinct := (dist \<noteq> None)\<rparr>
      in if peek s1 = CHR ''*'' then where_pattern cx (q\<lparr>q_star := True\<rparr>) (bump s1)
         else rbind (sel_items [] s1) (\<lambda>(items, r).
           if items = [] then fail SelectItems r
           else where_pattern cx (q\<lparr>q_sel := items\<rparr>) r))"

definition construct_query :: "ctx \<Rightarrow> string \<Rightarrow> query pres" where
  "construct_query cx s =
     rbind (expect (CHR ''{'') ConstructBrace s) (\<lambda>r.
       rbind (template_loop cx [] r) (\<lambda>(tps, r1).
         where_pattern cx (query_default\<lparr>q_form := FConstruct, q_template := tps\<rparr>) r1))"

definition ask_query :: "ctx \<Rightarrow> string \<Rightarrow> query pres" where
  "ask_query cx s = where_pattern cx (query_default\<lparr>q_form := FAsk\<rparr>) s"

text \<open>Nothing may follow.\<close>

definition at_end :: "'a \<Rightarrow> string \<Rightarrow> (perr, 'a) result" where
  "at_end x s = (if skipws s \<noteq> [] then fail TrailingContent (skipws s) else Inr x)"

definition finish_query :: "ctx \<Rightarrow> query \<Rightarrow> string \<Rightarrow> (perr, parsed) result" where
  "finish_query cx q s =
     rbind (modifiers q s) (\<lambda>(q', r).
       at_end (PQuery (q'\<lparr>q_prefixes := cx_prefixes cx, q_base := cx_base cx\<rparr>)) r)"

definition pattern_vars :: "triple_pattern list \<Rightarrow> string list" where
  "pattern_vars tps = List.map_filter slot_var (concat (map slots tps))"

definition insert_update :: "ctx \<Rightarrow> string \<Rightarrow> (perr, parsed) result" where
  "insert_update cx s =
     (case kw ''DATA'' (skipws s) of
        None \<Rightarrow> fail InsertOnlyData (skipws s)
      | Some r \<Rightarrow>
          rbind (data_block cx r) (\<lambda>(tps, r1).
            if list_ex (\<lambda>v. strip_prefix bnode_prefix v = None) (pattern_vars tps) then fail InsertVars r1
            else at_end (PUpdate \<lparr>up_kind = InsertData, up_triples = tps\<rparr>) r1))"

definition delete_data :: "ctx \<Rightarrow> string \<Rightarrow> update pres" where
  "delete_data cx s =
     rbind (data_block cx s) (\<lambda>(tps, r).
       if pattern_vars tps \<noteq> [] then fail DeleteVars r
       else Inr (\<lparr>up_kind = DeleteData, up_triples = tps\<rparr>, r))"

definition delete_where :: "ctx \<Rightarrow> string \<Rightarrow> update pres" where
  "delete_where cx s =
     rbind (group cx s) (\<lambda>(g, r).
       if gr_filters g \<noteq> [] \<or> gr_optionals g \<noteq> [] \<or> gr_unions g \<noteq> [] then fail DeleteWhereBasic r
       else Inr (\<lparr>up_kind = DeleteWhere, up_triples = gr_triples g\<rparr>, r))"

definition delete_update :: "ctx \<Rightarrow> string \<Rightarrow> (perr, parsed) result" where
  "delete_update cx s =
     rbind (case kw ''DATA'' (skipws s) of
              Some r \<Rightarrow> delete_data cx r
            | None \<Rightarrow>
                (case kw ''WHERE'' (skipws s) of
                   Some r \<Rightarrow> delete_where cx r
                 | None \<Rightarrow> fail DeleteForms (skipws s)))
       (\<lambda>(u, r). at_end (PUpdate u) r)"

definition parse_request :: "string \<Rightarrow> (perr, parsed) result" where
  "parse_request text =
     rbind (prologue \<lparr>cx_prefixes = [], cx_base = None\<rparr> text) (\<lambda>(cx, s0).
       let s = skipws s0
       in case kw ''SELECT'' s of
         Some r \<Rightarrow> rbind (select_query cx r) (\<lambda>(q, r1). finish_query cx q r1)
       | None \<Rightarrow>
       (case kw ''CONSTRUCT'' s of
          Some r \<Rightarrow> rbind (construct_query cx r) (\<lambda>(q, r1). finish_query cx q r1)
        | None \<Rightarrow>
       (case kw ''ASK'' s of
          Some r \<Rightarrow> rbind (ask_query cx r) (\<lambda>(q, r1). finish_query cx q r1)
        | None \<Rightarrow>
       (case kw ''INSERT'' s of
          Some r \<Rightarrow> insert_update cx r
        | None \<Rightarrow>
       (case kw ''DELETE'' s of
          Some r \<Rightarrow> delete_update cx r
        | None \<Rightarrow>
       (case kw ''DESCRIBE'' s of
          Some r \<Rightarrow> fail NoDescribe r
        | None \<Rightarrow> fail ExpectedForm s))))))"

text \<open>\<open>OutOfFuel\<close> has no text: it does not happen.\<close>

definition parse :: "string \<Rightarrow> (string, parsed) result" where
  "parse text =
     (case parse_request text of
        Inr p \<Rightarrow> Inr p
      | Inl (PErr msg r) \<Rightarrow> Inl (located text msg r)
      | Inl OutOfFuel \<Rightarrow> Inl [])"

definition fueled_result :: "(perr, 'a) result \<Rightarrow> bool" where
  "fueled_result m \<longleftrightarrow> m \<noteq> Inl OutOfFuel"

lemma fueled_result_simps [simp]: "fueled_result (fail msg s)" "fueled_result (Inr x)" "fueled_result (at_end x s)"
  by (simp_all add: fueled_result_def at_end_def)

lemma fueled_result_rbind:
  "fueled m \<Longrightarrow> (\<And>x r. m = Inr (x, r) \<Longrightarrow> fueled_result (f (x, r))) \<Longrightarrow> fueled_result (rbind m f)"
  by (cases m) (auto simp: fueled_result_def fueled_def)

lemma form_fueled [simp]:
  "fueled (where_pattern cx q s)" "fueled (select_query cx s)" "fueled (construct_query cx s)"
  "fueled (ask_query cx s)" "fueled (delete_data cx s)" "fueled (delete_where cx s)"
  by (auto simp: where_pattern_def select_query_def construct_query_def ask_query_def delete_data_def
      delete_where_def Let_def intro!: fueled_rbind fueled_expect)

lemma form_fueled_result [simp]:
  "fueled_result (finish_query cx q s)" "fueled_result (insert_update cx s)" "fueled_result (delete_update cx s)"
  by (auto simp: finish_query_def insert_update_def delete_update_def split: option.splits
      intro!: fueled_result_rbind)

text \<open>The fuel of the model is never used up.\<close>

lemma parse_fueled: "parse_request text \<noteq> Inl OutOfFuel"
proof -
  have "fueled_result (parse_request text)"
    unfolding parse_request_def
    by (rule fueled_result_rbind)
      (auto simp: Let_def split: option.splits intro!: fueled_result_rbind)
  then show ?thesis by (simp add: fueled_result_def)
qed

end
