(* ===== verification/Sparql_Serialize.thy ===== *)
theory Sparql_Serialize
  imports Sparql_Ast "HOL-Library.Product_Lexorder" "HOL-Library.List_Lexorder" "HOL-Library.Char_ord"
begin

text \<open>
  The result serializers (\<open>crates/sparql/src/serialize.rs\<close>): SPARQL JSON results, Turtle
  and N-Triples. A function that appends to a buffer returns what it appends.
\<close>

subsection \<open>JSON\<close>

definition json_char :: "char \<Rightarrow> string" where
  "json_char c =
     (if c = CHR 0x22 then [CHR 0x5C, CHR 0x22]
      else if c = CHR 0x5C then [CHR 0x5C, CHR 0x5C]
      else if c = CHR 0x0A then [CHR 0x5C, CHR ''n'']
      else if c = CHR 0x0D then [CHR 0x5C, CHR ''r'']
      else if c = CHR 0x09 then [CHR 0x5C, CHR ''t'']
      else if (of_char c :: nat) < 32 then [CHR 0x5C, CHR ''u'', CHR ''0'', CHR ''0''] @ hex2 False (of_char c)
      else [c])"

definition json_escape :: "string \<Rightarrow> string" where
  "json_escape s = concat (map json_char s)"

definition json_string :: "string \<Rightarrow> string" where
  "json_string s = CHR 0x22 # json_escape s @ [CHR 0x22]"

definition json_term :: "rdf_term \<Rightarrow> string" where
  "json_term t =
     ''{'' @ json_string ''type'' @ '':'' @ CHR 0x22
     # (if tm_kind t = K_IRI then ''uri'' else if tm_kind t = K_BNODE then ''bnode'' else ''literal'')
     @ CHR 0x22 # '','' @ json_string ''value'' @ '':'' @ json_string (tm_lex t)
     @ (if tm_kind t = 2 \<and> tm_lang t \<noteq> [] then '','' @ json_string ''xml:lang'' @ '':'' @ json_string (tm_lang t)
        else if tm_kind t = 2 \<and> tm_dtype t \<noteq> []
        then '','' @ json_string ''datatype'' @ '':'' @ json_string (tm_dtype t)
        else [])
     @ ''}''"

text \<open>The bound cells of a row with their variables. A row is never longer than the variables.\<close>

definition bound_cells :: "string list \<Rightarrow> rdf_term option list \<Rightarrow> (string \<times> rdf_term) list" where
  "bound_cells vars row = List.map_filter (\<lambda>(v, c). map_option (Pair v) c) (zip vars row)"

definition select_results_json :: "string list \<Rightarrow> rdf_term option list list \<Rightarrow> string" where
  "select_results_json vars rows =
     ''{'' @ json_string ''head'' @ '':{'' @ json_string ''vars'' @ '':['' @ join '','' (map json_string vars)
     @ '']},'' @ json_string ''results'' @ '':{'' @ json_string ''bindings'' @ '':[''
     @ join '','' (map (\<lambda>row. ''{''
         @ join '','' (map (\<lambda>(v, t). json_string v @ '':'' @ json_term t) (bound_cells vars row)) @ ''}'') rows)
     @ '']}}''"

definition ask_json :: "bool \<Rightarrow> string" where
  "ask_json b =
     ''{'' @ json_string ''head'' @ '':{},'' @ json_string ''boolean'' @ '':''
     @ (if b then ''true'' else ''false'') @ ''}''"

definition binding_object :: "string list \<Rightarrow> rdf_term option list \<Rightarrow> string" where
  "binding_object vars row =
     ''{'' @ join '','' (map (\<lambda>(v, t). json_string v @ '':'' @ json_string (tm_lex t)) (bound_cells vars row)) @ ''}''"

subsection \<open>Turtle terms\<close>

definition local_ok_for_prefix :: "string \<Rightarrow> bool" where
  "local_ok_for_prefix rest =
     (if (rest \<noteq> [] \<and> hd rest = CHR ''.'') \<or> (rest \<noteq> [] \<and> last rest = CHR ''.'') then False
      else list_all (\<lambda>c. is_alnum c \<or> c = CHR ''_'' \<or> c = CHR ''-'' \<or> c = CHR ''.'') rest)"

text \<open>The prefix to write an IRI with: the longest one, the first of those as long.\<close>

fun best_prefix :: "string \<Rightarrow> (string \<times> nat) option \<Rightarrow> (string \<times> string) list \<Rightarrow> (string \<times> nat) option" where
  "best_prefix iri best [] = best"
| "best_prefix iri best ((name, piri) # ps) =
     (case strip_prefix piri iri of
        Some rest \<Rightarrow>
          if (case best of None \<Rightarrow> 0 | Some (_, l) \<Rightarrow> l) < length piri \<and> local_ok_for_prefix rest
          then best_prefix iri (Some (name, length piri)) ps
          else best_prefix iri best ps
      | None \<Rightarrow> best_prefix iri best ps)"

definition iri_ref :: "string \<Rightarrow> string" where
  "iri_ref iri = ''<'' @ iri @ ''>''"

definition turtle_write_iri :: "(string \<times> string) list \<Rightarrow> string \<Rightarrow> string" where
  "turtle_write_iri px iri =
     (case best_prefix iri None px of
        Some (name, len) \<Rightarrow> name @ '':'' @ drop len iri
      | None \<Rightarrow> iri_ref iri)"

definition literal_char :: "char \<Rightarrow> string" where
  "literal_char c =
     (if c = CHR 0x5C then [CHR 0x5C, CHR 0x5C]
      else if c = CHR 0x22 then [CHR 0x5C, CHR 0x22]
      else if c = CHR 0x0A then [CHR 0x5C, CHR ''n'']
      else if c = CHR 0x0D then [CHR 0x5C, CHR ''r'']
      else if c = CHR 0x09 then [CHR 0x5C, CHR ''t'']
      else [c])"

definition write_quoted_literal :: "string \<Rightarrow> string" where
  "write_quoted_literal lx = CHR 0x22 # concat (map literal_char lx) @ [CHR 0x22]"

definition strip_sign :: "string \<Rightarrow> string" where
  "strip_sign s = (case s of [] \<Rightarrow> [] | c # r \<Rightarrow> if c = CHR ''+'' \<or> c = CHR ''-'' then r else s)"

definition lex_is_integer :: "string \<Rightarrow> bool" where
  "lex_is_integer s \<longleftrightarrow> strip_sign s \<noteq> [] \<and> list_all is_digit (strip_sign s)"

definition lex_is_decimal :: "string \<Rightarrow> bool" where
  "lex_is_decimal s =
     (case split_once (CHR ''.'') (strip_sign s) of
        None \<Rightarrow> False
      | Some (i, frac) \<Rightarrow> frac \<noteq> [] \<and> list_all is_digit i \<and> list_all is_digit frac)"

text \<open>A literal that Turtle has a short form for.\<close>

definition bare_literal :: "rdf_term \<Rightarrow> bool" where
  "bare_literal t \<longleftrightarrow>
     tm_lang t = []
     \<and> ((tm_dtype t = XSD @ ''integer'' \<and> lex_is_integer (tm_lex t))
        \<or> (tm_dtype t = XSD @ ''decimal'' \<and> lex_is_decimal (tm_lex t))
        \<or> (tm_dtype t = XSD @ ''boolean'' \<and> (tm_lex t = ''true'' \<or> tm_lex t = ''false'')))"

definition turtle_write_term :: "(string \<times> string) list \<Rightarrow> rdf_term \<Rightarrow> string" where
  "turtle_write_term px t =
     (if tm_kind t = K_IRI then turtle_write_iri px (tm_lex t)
      else if tm_kind t = K_BNODE then ''_:'' @ tm_lex t
      else if bare_literal t then tm_lex t
      else write_quoted_literal (tm_lex t)
        @ (if tm_lang t \<noteq> [] then ''@'' @ tm_lang t
           else if tm_dtype t \<noteq> [] then ''^^'' @ turtle_write_iri px (tm_dtype t)
           else []))"

subsection \<open>Documents\<close>

type_synonym triple = "rdf_term \<times> rdf_term \<times> rdf_term"

definition term_key :: "rdf_term \<Rightarrow> int \<times> string \<times> string \<times> string" where
  "term_key t = (tm_kind t, tm_lex t, tm_dtype t, tm_lang t)"

definition triple_key ::
  "triple \<Rightarrow> (int \<times> string \<times> string \<times> string) \<times> (int \<times> string \<times> string \<times> string)
    \<times> (int \<times> string \<times> string \<times> string)" where
  "triple_key t = (case t of (s, p, ob) \<Rightarrow> (term_key s, term_key p, term_key ob))"

definition sort_triples :: "triple list \<Rightarrow> triple list" where
  "sort_triples ts = sort_key triple_key ts"

definition turtle_header :: "(string \<times> string) list \<Rightarrow> string" where
  "turtle_header px =
     concat (map (\<lambda>(name, iri). ''@prefix '' @ name @ '': <'' @ iri @ ''> .'' @ [CHR 0x0A]) px)
     @ (if px = [] then [] else [CHR 0x0A])"

text \<open>What a triple adds after the one before it.\<close>

definition turtle_triple :: "(string \<times> string) list \<Rightarrow> triple option \<Rightarrow> triple \<Rightarrow> string" where
  "turtle_triple px prev cur =
     (case cur of (s, p, ob) \<Rightarrow>
        let full = turtle_write_term px s @ '' '' @ turtle_write_term px p @ '' '' @ turtle_write_term px ob
        in case prev of
             None \<Rightarrow> full
           | Some (s', p', _) \<Rightarrow>
               if s \<noteq> s' then '' .'' @ [CHR 0x0A] @ full
               else if p \<noteq> p'
               then '' ;'' @ [CHR 0x0A] @ ''    '' @ turtle_write_term px p @ '' '' @ turtle_write_term px ob
               else '', '' @ turtle_write_term px ob)"

fun turtle_triples :: "(string \<times> string) list \<Rightarrow> triple option \<Rightarrow> triple list \<Rightarrow> string" where
  "turtle_triples px prev [] = (case prev of None \<Rightarrow> [] | Some _ \<Rightarrow> '' .'' @ [CHR 0x0A])"
| "turtle_triples px prev (t # ts) = turtle_triple px prev t @ turtle_triples px (Some t) ts"

definition serialize_turtle :: "triple list \<Rightarrow> (string \<times> string) list \<Rightarrow> string" where
  "serialize_turtle ts px = turtle_header px @ turtle_triples px None (sort_triples ts)"

definition nt_write_term :: "rdf_term \<Rightarrow> string" where
  "nt_write_term t =
     (if tm_kind t = K_IRI then iri_ref (tm_lex t)
      else if tm_kind t = K_BNODE then ''_:'' @ tm_lex t
      else write_quoted_literal (tm_lex t)
        @ (if tm_lang t \<noteq> [] then ''@'' @ tm_lang t
           else if tm_dtype t \<noteq> [] then ''^^'' @ iri_ref (tm_dtype t)
           else []))"

definition nt_triple :: "triple \<Rightarrow> string" where
  "nt_triple t =
     (case t of (s, p, ob) \<Rightarrow>
        nt_write_term s @ '' '' @ nt_write_term p @ '' '' @ nt_write_term ob @ '' .'' @ [CHR 0x0A])"

definition serialize_ntriples :: "triple list \<Rightarrow> string" where
  "serialize_ntriples ts = concat (map nt_triple (sort_triples ts))"

end
