(* ===== verification/Sparql_Store.thy ===== *)
theory Sparql_Store
  imports Sparql_Compile Sparql_Query Sparql_Serialize
begin

text \<open>
  The store (\<open>crates/sparql/src/store.rs\<close>): the term dictionary and the triples, the Turtle
  loader, queries and updates.

  The two tables are the state: \<open>rs_terms\<close> has the rows of \<open>rdf_terms\<close> (identifier and term,
  unique in both, new identifiers one above the largest), \<open>rs_triples\<close> the rows of
  \<open>rdf_triples\<close>, all of graph 0. Statements on the two tables succeed. Running the SQL text
  of a compiled query is SQLite's work: \<open>run\<close> gives the solutions, one optional term per
  column group, or the error text, and the store after it. A query can change the store: the
  text is run on the writable connection, where \<open>rdf_update\<close> and \<open>rdf_load_turtle\<close> are
  registered as functions, and a numeric literal of a FILTER is pasted into it. The Turtle parser is a third-party package: a load gets
  the list of items it yields.
\<close>

record rdf_store =
  rs_terms :: "(int \<times> rdf_term) list"
  rs_triples :: "(int \<times> int \<times> int) list"

definition empty_store :: rdf_store where
  "empty_store = \<lparr>rs_terms = [], rs_triples = []\<rparr>"

subsection \<open>Dictionary and triples\<close>

definition lookup_term_id :: "rdf_store \<Rightarrow> rdf_term \<Rightarrow> int" where
  "lookup_term_id st t =
     (case List.find (\<lambda>(i, u). u = t) (rs_terms st) of Some (i, _) \<Rightarrow> i | None \<Rightarrow> 0)"

definition max_id :: "rdf_store \<Rightarrow> int" where
  "max_id st = foldl max 0 (map fst (rs_terms st))"

definition insert_or_ignore_term :: "rdf_term \<Rightarrow> rdf_store \<Rightarrow> rdf_store" where
  "insert_or_ignore_term t st =
     (if t \<in> snd ` set (rs_terms st) then st
      else st\<lparr>rs_terms := rs_terms st @ [(max_id st + 1, t)]\<rparr>)"

definition LOOKUP_FAILED :: string where
  "LOOKUP_FAILED = ''term lookup failed after insert''"

definition intern_term :: "rdf_term \<Rightarrow> rdf_store \<Rightarrow> (string, int) result \<times> rdf_store" where
  "intern_term t st =
     (let st' = insert_or_ignore_term t st; i = lookup_term_id st' t
      in (if i = 0 then Inl LOOKUP_FAILED else Inr i, st'))"

definition insert_triple :: "int \<Rightarrow> int \<Rightarrow> int \<Rightarrow> rdf_store \<Rightarrow> int \<times> rdf_store" where
  "insert_triple s p ob st =
     (if (s, p, ob) \<in> set (rs_triples st) then (0, st)
      else (1, st\<lparr>rs_triples := rs_triples st @ [(s, p, ob)]\<rparr>))"

definition delete_triple :: "int \<Rightarrow> int \<Rightarrow> int \<Rightarrow> rdf_store \<Rightarrow> int \<times> rdf_store" where
  "delete_triple s p ob st =
     (if (s, p, ob) \<in> set (rs_triples st)
      then (1, st\<lparr>rs_triples := filter (\<lambda>t. t \<noteq> (s, p, ob)) (rs_triples st)\<rparr>) else (0, st))"

text \<open>Interning the three terms of a triple and inserting it.\<close>

definition store_triple :: "triple \<Rightarrow> rdf_store \<Rightarrow> (string, int) result \<times> rdf_store" where
  "store_triple t st =
     (case t of (s, p, ob) \<Rightarrow>
       (case intern_term s st of (Inl e, st1) \<Rightarrow> (Inl e, st1) | (Inr si, st1) \<Rightarrow>
       (case intern_term p st1 of (Inl e, st2) \<Rightarrow> (Inl e, st2) | (Inr pi, st2) \<Rightarrow>
       (case intern_term ob st2 of (Inl e, st3) \<Rightarrow> (Inl e, st3) | (Inr oi, st3) \<Rightarrow>
         (case insert_triple si pi oi st3 of (n, st4) \<Rightarrow> (Inr n, st4))))))"

subsection \<open>Fresh blank node labels\<close>

record freshener =
  fr_stamp :: int
  fr_serial :: nat
  fr_map :: "string \<Rightarrow> string option"

definition freshener_new :: "rdf_store \<Rightarrow> freshener" where
  "freshener_new st = \<lparr>fr_stamp = max_id st, fr_serial = 0, fr_map = Map.empty\<rparr>"

definition fresh_label :: "int \<Rightarrow> nat \<Rightarrow> string" where
  "fresh_label stamp serial = ''g'' @ show_int stamp @ ''n'' @ show_nat serial"

definition fresh :: "freshener \<Rightarrow> string \<times> freshener" where
  "fresh fr = (fresh_label (fr_stamp fr) (fr_serial fr), fr\<lparr>fr_serial := fr_serial fr + 1\<rparr>)"

definition label :: "string \<Rightarrow> freshener \<Rightarrow> string \<times> freshener" where
  "label source fr =
     (case fr_map fr source of
        Some l \<Rightarrow> (l, fr)
      | None \<Rightarrow> (case fresh fr of (l, fr') \<Rightarrow> (l, fr'\<lparr>fr_map := (fr_map fr')(source \<mapsto> l)\<rparr>)))"

subsection \<open>Loading Turtle\<close>

datatype ext_node = NamedNode string | BlankNode string

text \<open>A literal as \<open>Literal::destruct\<close> gives it: lexical form, datatype, language.\<close>

datatype ext_object = NodeObject ext_node | LiteralObject string "string option" "string option"

type_synonym ext_triple = "ext_node \<times> string \<times> ext_object"

definition conv_literal :: "string \<Rightarrow> string option \<Rightarrow> string option \<Rightarrow> rdf_term" where
  "conv_literal lx dtype lang =
     (case lang of
        Some g \<Rightarrow> term_lit_lang lx g
      | None \<Rightarrow> (case dtype of Some dt \<Rightarrow> term_lit_dt lx dt | None \<Rightarrow> term_lit lx))"

fun conv_node :: "ext_node \<Rightarrow> freshener \<Rightarrow> rdf_term \<times> freshener" where
  "conv_node (NamedNode n) fr = (term_iri n, fr)"
| "conv_node (BlankNode b) fr = (case label b fr of (l, fr') \<Rightarrow> (term_bnode l, fr'))"

definition conv_triple :: "ext_triple \<Rightarrow> freshener \<Rightarrow> triple \<times> freshener" where
  "conv_triple t fr =
     (case t of (s, p, ob) \<Rightarrow>
       (case conv_node s fr of (s', fr1) \<Rightarrow>
       (case ob of
          NodeObject n \<Rightarrow> (case conv_node n fr1 of (o', fr2) \<Rightarrow> ((s', term_iri p, o'), fr2))
        | LiteralObject lx dt lg \<Rightarrow> ((s', term_iri p, conv_literal lx dt lg), fr1))))"

fun load_items ::
  "(string, ext_triple) result list \<Rightarrow> freshener \<Rightarrow> int \<Rightarrow> rdf_store \<Rightarrow> (string, int) result \<times> rdf_store" where
  "load_items [] fr n st = (Inr n, st)"
| "load_items (Inl e # items) fr n st = (Inl e, st)"
| "load_items (Inr t # items) fr n st =
     (case conv_triple t fr of (t', fr') \<Rightarrow>
       (case store_triple t' st of
          (Inl e, st') \<Rightarrow> (Inl e, st')
        | (Inr k, st') \<Rightarrow> load_items items fr' (n + k) st'))"

text \<open>\<open>items\<close> is what the parser yields for the text and the base IRI.\<close>

definition load_turtle ::
  "(string, (string, ext_triple) result list) result \<Rightarrow> rdf_store \<Rightarrow> (string, int) result \<times> rdf_store" where
  "load_turtle items st =
     (case items of
        Inl e \<Rightarrow> (Inl (''invalid base IRI: '' @ e), st)
      | Inr is \<Rightarrow> load_items is (freshener_new st) 0 st)"

subsection \<open>Queries\<close>

type_synonym solution = "rdf_term option list"
text \<open>How many rows are fetched at most (all when \<open>None\<close>), the store and the SQL text.\<close>

type_synonym runner =
  "nat option \<Rightarrow> rdf_store \<Rightarrow> string \<Rightarrow> (string, solution list) result \<times> rdf_store"

definition compile_text :: "compile_error \<Rightarrow> string" where
  "compile_text e =
     (case e of
        UnionTooLarge \<Rightarrow> ''UNION expansion too large (max 128 branches)''
      | RegexOperand \<Rightarrow> ''unsupported REGEX operand''
      | CmpOperand \<Rightarrow> ''unsupported comparison operand''
      | FilterForm \<Rightarrow> ''expression form not supported in FILTER''
      | AggConstruct \<Rightarrow> ''GROUP BY / aggregates cannot be used with CONSTRUCT''
      | StarAgg \<Rightarrow> ''SELECT * cannot be combined with aggregates or GROUP BY''
      | NotGrouped v \<Rightarrow> ''?'' @ v @ '' must appear in GROUP BY or inside an aggregate''
      | StarNoVars \<Rightarrow> ''SELECT * found no variables''
      | OrderNotProjected v \<Rightarrow> ''ORDER BY variable ?'' @ v @ '' must be projected when DISTINCT is used''
      | GroundValPanic \<Rightarrow> ''ground Val'')"

definition exec_select ::
  "runner \<Rightarrow> rdf_store \<Rightarrow> query \<Rightarrow> (string, string list \<times> solution list) result \<times> rdf_store" where
  "exec_select run st q =
     (case compile_query q (lookup_term_id st) of
        Inl e \<Rightarrow> (Inl (compile_text e), st)
      | Inr (sql, vars) \<Rightarrow>
          (case run None st sql of (res, st') \<Rightarrow> (rbind res (\<lambda>rows. Inr (vars, rows)), st')))"

text \<open>An ASK fetches one row at most.\<close>

definition exec_ask :: "runner \<Rightarrow> rdf_store \<Rightarrow> query \<Rightarrow> (string, bool) result \<times> rdf_store" where
  "exec_ask run st q =
     (case compile_query q (lookup_term_id st) of
        Inl e \<Rightarrow> (Inl (compile_text e), st)
      | Inr (sql, vars) \<Rightarrow>
          (case run (Some 1) st sql of (res, st') \<Rightarrow> (rbind res (\<lambda>rows. Inr (rows \<noteq> [])), st')))"

text \<open>The term a template slot gets from a solution; \<open>None\<close> for an unbound variable.\<close>

fun slot_term :: "string list \<Rightarrow> solution \<Rightarrow> slot \<Rightarrow> rdf_term option" where
  "slot_term vars row (SVar v) =
     (case position_of v vars of
        None \<Rightarrow> None | Some i \<Rightarrow> if i < length row then row ! i else None)"
| "slot_term vars row (Ground t) = Some t"

text \<open>The triple of a template under a solution, when it is a valid one.\<close>

definition instantiate :: "string list \<Rightarrow> solution \<Rightarrow> triple_pattern \<Rightarrow> triple option" where
  "instantiate vars row tp =
     (case (slot_term vars row (tp_s tp), slot_term vars row (tp_p tp), slot_term vars row (tp_o tp)) of
        (Some s, Some p, Some ob) \<Rightarrow>
          if tm_kind s = K_LIT \<or> tm_kind p \<noteq> K_IRI then None else Some (s, p, ob)
      | _ \<Rightarrow> None)"

definition construct_triples :: "triple_pattern list \<Rightarrow> string list \<Rightarrow> solution list \<Rightarrow> triple list" where
  "construct_triples template vars rows =
     foldl (\<lambda>out t. if t \<in> set out then out else out @ [t]) []
       (concat (map (\<lambda>row. List.map_filter (instantiate vars row) template) rows))"

definition exec_construct :: "runner \<Rightarrow> rdf_store \<Rightarrow> query \<Rightarrow> (string, triple list) result \<times> rdf_store" where
  "exec_construct run st q =
     (case exec_select run st q of
        (res, st') \<Rightarrow> (rbind res (\<lambda>(vars, rows). Inr (construct_triples (q_template q) vars rows)), st'))"

definition ci_eq :: "string \<Rightarrow> string \<Rightarrow> bool" where
  "ci_eq a b \<longleftrightarrow> map to_lower a = map to_lower b"

definition json_only :: "string option \<Rightarrow> bool" where
  "json_only fmt = (case fmt of None \<Rightarrow> True | Some f \<Rightarrow> ci_eq f ''json'')"

text \<open>Whether a CONSTRUCT result is written as N-Triples.\<close>

definition construct_format :: "string option \<Rightarrow> (string, bool) result" where
  "construct_format fmt =
     (case fmt of
        None \<Rightarrow> Inr False
      | Some f \<Rightarrow>
          if ci_eq f ''turtle'' \<or> ci_eq f ''ttl'' then Inr False
          else if ci_eq f ''ntriples'' \<or> ci_eq f ''nt'' then Inr True
          else Inl (''rdf_query: CONSTRUCT formats are '' @ [CHR 0x27] @ ''turtle'' @ [CHR 0x27] @ '' (default) or ''
                  @ [CHR 0x27] @ ''ntriples'' @ [CHR 0x27]))"

definition SELECT_JSON_ONLY :: string where
  "SELECT_JSON_ONLY =
     ''rdf_query: SELECT results are variable bindings, not a graph; only '' @ [CHR 0x27] @ ''json''
     @ [CHR 0x27] @ '' output is available (use CONSTRUCT for Turtle)''"

definition ASK_JSON_ONLY :: string where
  "ASK_JSON_ONLY =
     ''rdf_query: ASK results are boolean; only '' @ [CHR 0x27] @ ''json'' @ [CHR 0x27] @ '' output is available''"

definition run_query ::
  "runner \<Rightarrow> rdf_store \<Rightarrow> string \<Rightarrow> string option \<Rightarrow> (string, string) result \<times> rdf_store" where
  "run_query run st sparql fmt =
     (case parse sparql of
        Inl e \<Rightarrow> (Inl e, st)
      | Inr (PUpdate u) \<Rightarrow> (Inl ''rdf_query runs queries only; use rdf_update() for SPARQL Update'', st)
      | Inr (PQuery q) \<Rightarrow>
          (case q_form q of
             FSelect \<Rightarrow>
               if \<not> json_only fmt then (Inl SELECT_JSON_ONLY, st)
               else (case exec_select run st q of
                       (res, st') \<Rightarrow> (rbind res (\<lambda>(vars, rows). Inr (select_results_json vars rows)), st'))
           | FAsk \<Rightarrow>
               if \<not> json_only fmt then (Inl ASK_JSON_ONLY, st)
               else (case exec_ask run st q of (res, st') \<Rightarrow> (rbind res (\<lambda>b. Inr (ask_json b)), st'))
           | FConstruct \<Rightarrow>
               (case construct_format fmt of
                  Inl e \<Rightarrow> (Inl e, st)
                | Inr nt \<Rightarrow>
                    (case exec_construct run st q of
                       (res, st') \<Rightarrow>
                         (rbind res (\<lambda>ts. Inr (if nt then serialize_ntriples ts
                            else serialize_turtle ts (q_prefixes q))), st')))))"

text \<open>The rows of the dump: the triples whose three terms are in the dictionary.\<close>

definition term_at :: "rdf_store \<Rightarrow> int \<Rightarrow> rdf_term option" where
  "term_at st i = map_of (rs_terms st) i"

definition dump_triples :: "rdf_store \<Rightarrow> triple list" where
  "dump_triples st =
     List.map_filter (\<lambda>(s, p, ob).
       case (term_at st s, term_at st p, term_at st ob) of
         (Some a, Some b, Some c) \<Rightarrow> Some (a, b, c) | _ \<Rightarrow> None) (rs_triples st)"

definition dump_turtle :: "rdf_store \<Rightarrow> string" where
  "dump_turtle st = serialize_turtle (dump_triples st) []"

subsection \<open>Updates\<close>

definition VARS_IN_DATA :: string where
  "VARS_IN_DATA = ''variables are not allowed in ground data''"

definition ground_slot :: "slot \<Rightarrow> freshener \<Rightarrow> (string, rdf_term) result \<times> freshener" where
  "ground_slot s fr =
     (case s of
        SVar v \<Rightarrow>
          (case strip_prefix bnode_prefix v of
             Some l \<Rightarrow> (case label l fr of (x, fr') \<Rightarrow> (Inr (term_bnode x), fr'))
           | None \<Rightarrow> (Inl VARS_IN_DATA, fr))
      | Ground t \<Rightarrow> (Inr t, fr))"

definition ground :: "triple_pattern \<Rightarrow> freshener \<Rightarrow> (string, triple) result \<times> freshener" where
  "ground tp fr =
     (case ground_slot (tp_s tp) fr of (Inl e, fr1) \<Rightarrow> (Inl e, fr1) | (Inr s, fr1) \<Rightarrow>
     (case ground_slot (tp_p tp) fr1 of (Inl e, fr2) \<Rightarrow> (Inl e, fr2) | (Inr p, fr2) \<Rightarrow>
     (case ground_slot (tp_o tp) fr2 of (Inl e, fr3) \<Rightarrow> (Inl e, fr3) | (Inr ob, fr3) \<Rightarrow>
       (Inr (s, p, ob), fr3))))"

fun insert_data :: "triple_pattern list \<Rightarrow> freshener \<Rightarrow> int \<Rightarrow> rdf_store \<Rightarrow> (string, int) result \<times> rdf_store" where
  "insert_data [] fr n st = (Inr n, st)"
| "insert_data (tp # tps) fr n st =
     (case ground tp fr of
        (Inl e, fr') \<Rightarrow> (Inl e, st)
      | (Inr t, fr') \<Rightarrow>
          (case store_triple t st of
             (Inl e, st') \<Rightarrow> (Inl e, st')
           | (Inr k, st') \<Rightarrow> insert_data tps fr' (n + k) st'))"

fun delete_data_rows :: "triple_pattern list \<Rightarrow> freshener \<Rightarrow> int \<Rightarrow> rdf_store \<Rightarrow> (string, int) result \<times> rdf_store" where
  "delete_data_rows [] fr n st = (Inr n, st)"
| "delete_data_rows (tp # tps) fr n st =
     (case ground tp fr of
        (Inl e, fr') \<Rightarrow> (Inl e, st)
      | (Inr (s, p, ob), fr') \<Rightarrow>
          let ids = (lookup_term_id st s, lookup_term_id st p, lookup_term_id st ob)
          in if fst ids = 0 \<or> fst (snd ids) = 0 \<or> snd (snd ids) = 0 then delete_data_rows tps fr' n st
             else (case delete_triple (fst ids) (fst (snd ids)) (snd (snd ids)) st of
                     (k, st') \<Rightarrow> delete_data_rows tps fr' (n + k) st'))"

definition where_query :: "triple_pattern list \<Rightarrow> query" where
  "where_query tps =
     query_default\<lparr>q_sel := map plain_item (slots_collect_vars tps []), q_pattern := Group tps [] [] []\<rparr>"

definition slot_id :: "rdf_store \<Rightarrow> string list \<Rightarrow> solution \<Rightarrow> slot \<Rightarrow> int" where
  "slot_id st vars row s = (case slot_term vars row s of None \<Rightarrow> 0 | Some t \<Rightarrow> lookup_term_id st t)"

fun delete_instances :: "string list \<Rightarrow> (solution \<times> triple_pattern) list \<Rightarrow> int \<Rightarrow> rdf_store \<Rightarrow> int \<times> rdf_store" where
  "delete_instances vars [] n st = (n, st)"
| "delete_instances vars ((row, tp) # todo) n st =
     (let s = slot_id st vars row (tp_s tp); p = slot_id st vars row (tp_p tp); ob = slot_id st vars row (tp_o tp)
      in if s = 0 \<or> p = 0 \<or> ob = 0 then delete_instances vars todo n st
         else case delete_triple s p ob st of (k, st') \<Rightarrow> delete_instances vars todo (n + k) st')"

definition run_update :: "runner \<Rightarrow> update \<Rightarrow> rdf_store \<Rightarrow> (string, int) result \<times> rdf_store" where
  "run_update run u st =
     (case up_kind u of
        InsertData \<Rightarrow> insert_data (up_triples u) (freshener_new st) 0 st
      | DeleteData \<Rightarrow> delete_data_rows (up_triples u) (freshener_new st) 0 st
      | DeleteWhere \<Rightarrow>
          (case exec_select run st (where_query (up_triples u)) of
             (Inl e, st1) \<Rightarrow> (Inl e, st1)
           | (Inr (vars, rows), st1) \<Rightarrow>
               (case delete_instances vars (concat (map (\<lambda>row. map (Pair row) (up_triples u)) rows)) 0 st1 of
                  (n, st') \<Rightarrow> (Inr n, st'))))"

definition NOT_AN_UPDATE :: string where
  "NOT_AN_UPDATE =
     ''rdf_update runs INSERT DATA / DELETE DATA / DELETE WHERE; use rdf_query() for queries''"

definition update_text :: "runner \<Rightarrow> string \<Rightarrow> rdf_store \<Rightarrow> (string, int) result \<times> rdf_store" where
  "update_text run sparql st =
     (case parse sparql of
        Inl e \<Rightarrow> (Inl e, st)
      | Inr (PUpdate u) \<Rightarrow> run_update run u st
      | Inr (PQuery q) \<Rightarrow> (Inl NOT_AN_UPDATE, st))"

end
