(* ===== verification/Sparql_Store_Facts.thy ===== *)
theory Sparql_Store_Facts
  imports Sparql_Store
begin

text \<open>
  The store as a graph: what the operations of \<open>Sparql_Store\<close> do to the set of triples.
\<close>

subsection \<open>Invariant and abstraction\<close>

definition store_ok :: "rdf_store \<Rightarrow> bool" where
  "store_ok st \<longleftrightarrow>
     distinct (map fst (rs_terms st)) \<and> distinct (map snd (rs_terms st))
     \<and> (\<forall>(i, t) \<in> set (rs_terms st). 0 < i)
     \<and> distinct (rs_triples st)
     \<and> (\<forall>(s, p, ob) \<in> set (rs_triples st).
          s \<in> fst ` set (rs_terms st) \<and> p \<in> fst ` set (rs_terms st) \<and> ob \<in> fst ` set (rs_terms st))"

definition graph :: "rdf_store \<Rightarrow> triple set" where
  "graph st = set (dump_triples st)"

lemma graph_iff:
  "(a, b, c) \<in> graph st \<longleftrightarrow>
     (\<exists>s p ob. (s, p, ob) \<in> set (rs_triples st) \<and> term_at st s = Some a \<and> term_at st p = Some b
        \<and> term_at st ob = Some c)"
  by (force simp: graph_def dump_triples_def List.map_filter_def split: option.splits)

lemma empty_store_ok: "store_ok empty_store" "graph empty_store = {}"
  by (simp_all add: store_ok_def empty_store_def graph_def dump_triples_def List.map_filter_def)

lemma term_at_iff: "store_ok st \<Longrightarrow> term_at st i = Some t \<longleftrightarrow> (i, t) \<in> set (rs_terms st)"
  by (simp add: store_ok_def term_at_def)

lemma term_at_inj: "store_ok st \<Longrightarrow> term_at st i = Some t \<Longrightarrow> term_at st j = Some t \<Longrightarrow> i = j"
  unfolding store_ok_def term_at_def distinct_map
  by (metis (no_types, lifting) inj_onD map_of_SomeD prod.inject snd_conv)

lemma foldl_max: "a \<le> foldl max (a :: int) xs" "x \<in> set xs \<Longrightarrow> x \<le> foldl max a xs"
  "foldl max a xs = a \<or> foldl max a xs \<in> set xs"
proof -
  show 1: "a \<le> foldl max a xs" for a :: int and xs
  proof (induction xs arbitrary: a)
    case (Cons x xs)
    show ?case using order_trans [OF max.cobounded1 Cons [of "max a x"]] by simp
  qed simp
  show "x \<in> set xs \<Longrightarrow> x \<le> foldl max a xs"
  proof (induction xs arbitrary: a)
    case (Cons y xs)
    with 1 [of "max a y" xs] show ?case by auto
  qed simp
  show "foldl max a xs = a \<or> foldl max a xs \<in> set xs"
    by (induction xs arbitrary: a) (auto simp: max_def split: if_splits)
qed

lemma max_id_ge: "(i, t) \<in> set (rs_terms st) \<Longrightarrow> i \<le> max_id st"
  unfolding max_id_def by (rule foldl_max(2)) force

lemma max_id_nonneg: "0 \<le> max_id st"
  unfolding max_id_def by (rule foldl_max(1))

lemma term_at_pos: "store_ok st \<Longrightarrow> term_at st i = Some t \<Longrightarrow> 0 < i"
  by (auto simp: term_at_iff store_ok_def)

lemma lookup_term:
  assumes "store_ok st"
  shows "lookup_term_id st t = i \<and> i \<noteq> 0 \<longleftrightarrow> term_at st i = Some t"
proof (cases "List.find (\<lambda>(i, u). u = t) (rs_terms st)")
  case None
  then have "(i, t) \<notin> set (rs_terms st)" by (auto simp: find_None_iff)
  then have "term_at st i \<noteq> Some t" using term_at_iff [OF assms] by simp
  moreover have "lookup_term_id st t = 0" using None by (simp add: lookup_term_id_def)
  ultimately show ?thesis by simp
next
  case (Some p)
  then obtain j where p: "p = (j, t)" "(j, t) \<in> set (rs_terms st)"
    by (cases p) (auto simp: find_Some_iff dest: nth_mem)
  then have j: "term_at st j = Some t" using assms by (simp add: term_at_iff)
  have "lookup_term_id st t = j" using Some p(1) by (simp add: lookup_term_id_def)
  moreover have "j \<noteq> 0" using term_at_pos [OF assms j] by simp
  moreover have "term_at st i = Some t \<longleftrightarrow> i = j" using j term_at_inj [OF assms j] by blast
  ultimately show ?thesis by blast
qed

lemma lookup_absent: "store_ok st \<Longrightarrow> lookup_term_id st t = 0 \<longleftrightarrow> (\<forall>i. term_at st i \<noteq> Some t)"
  using lookup_term [of st t] by metis

subsection \<open>Interning\<close>

definition extends :: "rdf_store \<Rightarrow> rdf_store \<Rightarrow> bool" where
  "extends st st' \<longleftrightarrow> (\<forall>i t. term_at st i = Some t \<longrightarrow> term_at st' i = Some t)"

lemma insert_term_ok:
  assumes ok: "store_ok st" and st': "st' = insert_or_ignore_term t st"
  shows "store_ok st'" "extends st st'" "rs_triples st' = rs_triples st" "\<exists>i. term_at st' i = Some t"
    and "\<And>i u. term_at st' i = Some u \<Longrightarrow> term_at st i = Some u \<or> (u = t \<and> max_id st < i)"
proof -
  have new: "(max_id st + 1) \<notin> fst ` set (rs_terms st)" using max_id_ge [of _ _ st] by force
  show ok': "store_ok st'"
    using ok new max_id_nonneg [of st] by (fastforce simp: st' insert_or_ignore_term_def store_ok_def)
  show "rs_triples st' = rs_triples st" by (simp add: st' insert_or_ignore_term_def)
  have terms: "set (rs_terms st') = (if t \<in> snd ` set (rs_terms st) then set (rs_terms st)
      else insert (max_id st + 1, t) (set (rs_terms st)))"
    by (simp add: st' insert_or_ignore_term_def)
  show "extends st st'"
    by (auto simp: extends_def term_at_iff [OF ok] term_at_iff [OF ok'] terms)
  show "\<exists>i. term_at st' i = Some t"
    by (auto simp: term_at_iff [OF ok'] terms)
  show "term_at st i = Some u \<or> (u = t \<and> max_id st < i)" if "term_at st' i = Some u" for i u
    using that by (auto simp: term_at_iff [OF ok] term_at_iff [OF ok'] terms split: if_splits)
qed

lemma intern_term_ok:
  assumes "store_ok st"
  obtains i st' where "intern_term t st = (Inr i, st')" "store_ok st'" "extends st st'"
    "rs_triples st' = rs_triples st" "term_at st' i = Some t"
    "\<And>j u. term_at st' j = Some u \<Longrightarrow> term_at st j = Some u \<or> (u = t \<and> max_id st < j)"
proof -
  define st' where "st' = insert_or_ignore_term t st"
  note ok' = insert_term_ok [OF assms st'_def]
  from ok'(4) obtain i where i: "term_at st' i = Some t" by blast
  then have "lookup_term_id st' t = i" "i \<noteq> 0" using lookup_term [OF ok'(1), of t i] by simp_all
  then have "intern_term t st = (Inr i, st')" by (simp add: intern_term_def Let_def st'_def)
  from that [OF this ok'(1-3) i ok'(5)] show ?thesis .
qed

lemma extends_trans: "extends a b \<Longrightarrow> extends b c \<Longrightarrow> extends a c"
  by (simp add: extends_def)

text \<open>Adding terms does not change the graph.\<close>

lemma graph_extends:
  assumes "store_ok st" "store_ok st'" "extends st st'" "rs_triples st' = rs_triples st"
  shows "graph st' = graph st"
proof -
  have at: "term_at st' i = term_at st i" if "i \<in> fst ` set (rs_terms st)" for i
  proof -
    from that obtain t where "(i, t) \<in> set (rs_terms st)" by auto
    then have "term_at st i = Some t" using assms(1) by (simp add: term_at_iff)
    with assms(3) show ?thesis by (simp add: extends_def)
  qed
  have "s \<in> fst ` set (rs_terms st) \<and> p \<in> fst ` set (rs_terms st) \<and> ob \<in> fst ` set (rs_terms st)"
    if "(s, p, ob) \<in> set (rs_triples st)" for s p ob
    using assms(1) that by (auto simp: store_ok_def)
  then have "(a, b, c) \<in> graph st' \<longleftrightarrow> (a, b, c) \<in> graph st" for a b c
    unfolding graph_iff assms(4) using at by metis
  then show ?thesis by (simp add: set_eq_iff split_paired_all)
qed

text \<open>The new terms of an interning step: the given ones, above every old identifier.\<close>

definition new_terms :: "rdf_store \<Rightarrow> rdf_store \<Rightarrow> rdf_term set \<Rightarrow> bool" where
  "new_terms st st' T \<longleftrightarrow>
     (\<forall>j u. term_at st' j = Some u \<longrightarrow> term_at st j = Some u \<or> (u \<in> T \<and> max_id st < j))"

lemma max_id_mono:
  assumes "store_ok st" "store_ok st'" "extends st st'"
  shows "max_id st \<le> max_id st'"
proof -
  have "max_id st = 0 \<or> max_id st \<in> fst ` set (rs_terms st)"
    using foldl_max(3) [of 0 "map fst (rs_terms st)"] by (simp add: max_id_def)
  then show ?thesis
  proof
    assume "max_id st \<in> fst ` set (rs_terms st)"
    then obtain t where "term_at st (max_id st) = Some t" using assms(1) by (auto simp: term_at_iff)
    with assms(2,3) show ?thesis by (auto simp: extends_def term_at_iff dest: max_id_ge)
  qed (simp add: max_id_nonneg)
qed

lemma new_terms_trans:
  assumes "store_ok a" "store_ok b" "extends a b" "new_terms a b S" "new_terms b c T"
  shows "new_terms a c (S \<union> T)"
  using assms(4,5) max_id_mono [OF assms(1-3)] by (fastforce simp: new_terms_def)

lemma store_triple_ok:
  assumes "store_ok st"
  obtains n st' where "store_triple t st = (Inr n, st')" "store_ok st'" "extends st st'"
    "graph st' = insert t (graph st)" "n = (if t \<in> graph st then 0 else 1)"
    "new_terms st st' {fst t, fst (snd t), snd (snd t)}"
proof -
  obtain s p ob where t: "t = (s, p, ob)" by (cases t)
  obtain si st1 where 1: "intern_term s st = (Inr si, st1)" "store_ok st1" "extends st st1"
    "rs_triples st1 = rs_triples st" "term_at st1 si = Some s"
    "\<And>j u. term_at st1 j = Some u \<Longrightarrow> term_at st j = Some u \<or> (u = s \<and> max_id st < j)"
    using intern_term_ok [OF assms, of s] by blast
  obtain pi st2 where 2: "intern_term p st1 = (Inr pi, st2)" "store_ok st2" "extends st1 st2"
    "rs_triples st2 = rs_triples st1" "term_at st2 pi = Some p"
    "\<And>j u. term_at st2 j = Some u \<Longrightarrow> term_at st1 j = Some u \<or> (u = p \<and> max_id st1 < j)"
    using intern_term_ok [OF 1(2), of p] by blast
  obtain oi st3 where 3: "intern_term ob st2 = (Inr oi, st3)" "store_ok st3" "extends st2 st3"
    "rs_triples st3 = rs_triples st2" "term_at st3 oi = Some ob"
    "\<And>j u. term_at st3 j = Some u \<Longrightarrow> term_at st2 j = Some u \<or> (u = ob \<and> max_id st2 < j)"
    using intern_term_ok [OF 2(2), of ob] by blast
  have ext: "extends st st3" using 1(3) 2(3) 3(3) extends_trans by blast
  have at: "term_at st3 si = Some s" "term_at st3 pi = Some p" "term_at st3 oi = Some ob"
    using 1(5) 2(3,5) 3(3,5) by (auto simp: extends_def)
  have g3: "graph st3 = graph st" using graph_extends [OF assms 3(2) ext] 1(4) 2(4) 3(4) by simp
  have mem: "t \<in> graph st \<longleftrightarrow> (si, pi, oi) \<in> set (rs_triples st3)"
    unfolding g3 [symmetric] t graph_iff using at term_at_inj [OF 3(2)] by metis
  obtain n st4 where 4: "insert_triple si pi oi st3 = (n, st4)" by (cases "insert_triple si pi oi st3")
  have st4: "st4 = (if t \<in> graph st then st3 else st3\<lparr>rs_triples := rs_triples st3 @ [(si, pi, oi)]\<rparr>)"
    and n: "n = (if t \<in> graph st then 0 else 1)"
    using 4 mem by (auto simp: insert_triple_def)
  have terms: "rs_terms st4 = rs_terms st3" by (simp add: st4)
  then have at4: "term_at st4 = term_at st3" by (simp add: term_at_def fun_eq_iff)
  have dom: "si \<in> fst ` set (rs_terms st3)" "pi \<in> fst ` set (rs_terms st3)" "oi \<in> fst ` set (rs_terms st3)"
    using at 3(2) by (force simp: term_at_iff)+
  have ok4: "store_ok st4" using 3(2) dom mem by (auto simp: store_ok_def st4)
  have g4: "graph st4 = insert t (graph st)"
  proof (cases "t \<in> graph st")
    case True
    then show ?thesis using g3 by (auto simp: st4)
  next
    case False
    then have "set (rs_triples st4) = insert (si, pi, oi) (set (rs_triples st3))" by (simp add: st4)
    then have "(a, b, c) \<in> graph st4 \<longleftrightarrow> (a, b, c) = t \<or> (a, b, c) \<in> graph st3" for a b c
      using at by (auto simp: graph_iff at4 t)
    with g3 show ?thesis by auto
  qed
  have ext4: "extends st st4" using ext by (simp add: extends_def at4)
  have n1: "new_terms st st1 {s}" "new_terms st1 st2 {p}" "new_terms st2 st3 {ob}"
    using 1(6) 2(6) 3(6) by (auto simp: new_terms_def)
  have "new_terms st st3 (({s} \<union> {p}) \<union> {ob})"
    using new_terms_trans [OF assms 2(2) extends_trans [OF 1(3) 2(3)]
      new_terms_trans [OF assms 1(2,3) n1(1,2)] n1(3)] .
  then have new: "new_terms st st4 {fst t, fst (snd t), snd (snd t)}"
    by (auto simp: new_terms_def at4 t)
  have "store_triple t st = (Inr n, st4)" by (simp add: store_triple_def t 1(1) 2(1) 3(1) 4)
  from that [OF this ok4 ext4 g4 n new] show ?thesis .
qed

subsection \<open>Fresh labels\<close>

lemma fresh_label_inj:
  assumes "0 \<le> a" "0 \<le> a'" "fresh_label a k = fresh_label a' k'"
  shows "a = a' \<and> k = k'"
proof -
  have i: "show_int x = show_nat (nat x)" if "0 \<le> x" for x using that by (simp add: show_int_def)
  have n: "\<not> is_digit CHR ''n''" by (simp add: is_digit_def)
  have t: "takeWhile is_digit (show_nat x @ CHR ''n'' # r) = show_nat x" for x r
  proof -
    have "\<forall>c \<in> set (show_nat x). is_digit c" using show_nat_digits [of x] by (simp add: list_all_iff)
    then show ?thesis using n by (simp add: takeWhile_append2)
  qed
  have inj: "x = y" if "show_nat x = show_nat y" for x y
  proof -
    have "parse_digits (show_nat x) = parse_digits (show_nat y)" using that by simp
    then show ?thesis by (simp add: parse_digits_show_nat)
  qed
  have e: "show_nat (nat a) @ CHR ''n'' # show_nat k = show_nat (nat a') @ CHR ''n'' # show_nat k'"
    using assms(3) by (simp add: fresh_label_def i [OF assms(1)] i [OF assms(2)])
  have "show_nat (nat a) = show_nat (nat a')" using arg_cong [OF e, of "takeWhile is_digit"] by (simp add: t)
  note a = inj [OF this]
  from e a have "show_nat k = show_nat k'" by simp
  with a assms(1,2) show ?thesis by (simp add: inj)
qed

text \<open>The labels handed out so far are distinct and carry the stamp.\<close>

definition fr_ok :: "freshener \<Rightarrow> bool" where
  "fr_ok fr \<longleftrightarrow>
     0 \<le> fr_stamp fr \<and> inj_on (fr_map fr) (dom (fr_map fr))
     \<and> (\<forall>l x. fr_map fr l = Some x \<longrightarrow> (\<exists>k < fr_serial fr. x = fresh_label (fr_stamp fr) k))"

definition fr_le :: "freshener \<Rightarrow> freshener \<Rightarrow> bool" where
  "fr_le fr fr' \<longleftrightarrow> fr_map fr \<subseteq>\<^sub>m fr_map fr' \<and> fr_stamp fr' = fr_stamp fr"

lemma fr_le_refl [simp]: "fr_le fr fr" by (simp add: fr_le_def)

lemma fr_le_trans: "fr_le a b \<Longrightarrow> fr_le b c \<Longrightarrow> fr_le a c"
  by (auto simp: fr_le_def intro: map_le_trans)

lemma freshener_new_ok: "fr_ok (freshener_new st)"
  by (simp add: fr_ok_def freshener_new_def max_id_nonneg)

lemma label_ok:
  assumes "fr_ok fr" "label l fr = (x, fr')"
  shows "fr_ok fr'" "fr_map fr' l = Some x" "fr_le fr fr'"
proof -
  have "fr_ok fr' \<and> fr_map fr' l = Some x \<and> fr_le fr fr'"
  proof (cases "fr_map fr l")
    case (Some y)
    with assms show ?thesis by (simp add: label_def)
  next
    case None
    define y where "y = fresh_label (fr_stamp fr) (fr_serial fr)"
    have x: "x = y" and fr': "fr' = fr\<lparr>fr_serial := fr_serial fr + 1, fr_map := (fr_map fr)(l \<mapsto> y)\<rparr>"
      using assms(2) None by (auto simp: label_def fresh_def y_def)
    have new: "fr_map fr m \<noteq> Some y" for m
      using assms(1) fresh_label_inj [of "fr_stamp fr" "fr_stamp fr"] by (fastforce simp: fr_ok_def y_def)
    have "inj_on (fr_map fr') (dom (fr_map fr'))"
      using assms(1) None new by (auto simp: fr' fr_ok_def inj_on_def dom_def)
    moreover have "\<exists>k < fr_serial fr'. z = fresh_label (fr_stamp fr') k" if "fr_map fr' m = Some z" for m z
    proof (cases "m = l")
      case True
      with that show ?thesis by (auto simp: fr' y_def)
    next
      case False
      with that have "fr_map fr m = Some z" by (simp add: fr')
      with assms(1) obtain k where "k < fr_serial fr" "z = fresh_label (fr_stamp fr) k"
        unfolding fr_ok_def by blast
      then show ?thesis by (intro exI [of _ k]) (simp add: fr')
    qed
    ultimately show ?thesis
      using assms(1) None by (auto simp: fr_ok_def fr_le_def x fr' map_le_def dom_def)
  qed
  then show "fr_ok fr'" "fr_map fr' l = Some x" "fr_le fr fr'" by simp_all
qed

text \<open>A pattern of ground data, with its blank node labels renamed.\<close>

definition data_slot :: "slot \<Rightarrow> bool" where
  "data_slot s \<longleftrightarrow> (case s of SVar v \<Rightarrow> strip_prefix bnode_prefix v \<noteq> None | Ground t \<Rightarrow> True)"

definition slot_subst :: "(string \<Rightarrow> string) \<Rightarrow> slot \<Rightarrow> rdf_term" where
  "slot_subst \<sigma> s =
     (case s of
        SVar v \<Rightarrow> (case strip_prefix bnode_prefix v of Some l \<Rightarrow> term_bnode (\<sigma> l) | None \<Rightarrow> term_bnode [])
      | Ground t \<Rightarrow> t)"

definition pattern_subst :: "(string \<Rightarrow> string) \<Rightarrow> triple_pattern \<Rightarrow> triple" where
  "pattern_subst \<sigma> tp = (slot_subst \<sigma> (tp_s tp), slot_subst \<sigma> (tp_p tp), slot_subst \<sigma> (tp_o tp))"

definition data_pattern :: "triple_pattern \<Rightarrow> bool" where
  "data_pattern tp \<longleftrightarrow> data_slot (tp_s tp) \<and> data_slot (tp_p tp) \<and> data_slot (tp_o tp)"

definition renaming :: "freshener \<Rightarrow> string \<Rightarrow> string" where
  "renaming fr l = (case fr_map fr l of Some x \<Rightarrow> x | None \<Rightarrow> [])"

text \<open>No pattern of parsed data holds a blank node as a ground term.\<close>

definition no_bnode_slot :: "slot \<Rightarrow> bool" where
  "no_bnode_slot s \<longleftrightarrow> (case s of SVar v \<Rightarrow> True | Ground t \<Rightarrow> tm_kind t \<noteq> K_BNODE)"

definition no_bnodes :: "triple_pattern \<Rightarrow> bool" where
  "no_bnodes tp \<longleftrightarrow> no_bnode_slot (tp_s tp) \<and> no_bnode_slot (tp_p tp) \<and> no_bnode_slot (tp_o tp)"

text \<open>The blank node labels of patterns.\<close>

definition slot_label :: "slot \<Rightarrow> string set" where
  "slot_label s = (case s of SVar v \<Rightarrow> set_option (strip_prefix bnode_prefix v) | Ground t \<Rightarrow> {})"

definition pattern_labels :: "triple_pattern \<Rightarrow> string set" where
  "pattern_labels tp = slot_label (tp_s tp) \<union> slot_label (tp_p tp) \<union> slot_label (tp_o tp)"

definition data_labels :: "triple_pattern list \<Rightarrow> string set" where
  "data_labels tps = (\<Union>tp \<in> set tps. pattern_labels tp)"

lemma fr_le_dom: "fr_le fr fr' \<Longrightarrow> S \<subseteq> dom (fr_map fr) \<Longrightarrow> S \<subseteq> dom (fr_map fr')"
  using map_le_implies_dom_le unfolding fr_le_def by blast

text \<open>A blank node the freshener made.\<close>

definition made :: "freshener \<Rightarrow> rdf_term \<Rightarrow> bool" where
  "made fr t \<longleftrightarrow> (tm_kind t = K_BNODE \<longrightarrow> (\<exists>k. t = term_bnode (fresh_label (fr_stamp fr) k)))"

lemma made_le: "fr_le fr fr' \<Longrightarrow> made fr' t = made fr t"
  by (simp add: made_def fr_le_def)

definition triple_terms :: "triple \<Rightarrow> rdf_term set" where
  "triple_terms t = {fst t, fst (snd t), snd (snd t)}"

lemma ground_slot_ok:
  assumes "fr_ok fr" "data_slot s"
  obtains t fr' where "ground_slot s fr = (Inr t, fr')" "fr_ok fr'" "fr_le fr fr'"
    "\<And>f. fr_le fr' f \<Longrightarrow> t = slot_subst (renaming f) s" "no_bnode_slot s \<Longrightarrow> made fr t"
    "slot_label s \<subseteq> dom (fr_map fr')"
proof (cases s)
  case (Ground t)
  show ?thesis by (rule that [of t fr]) (simp_all add: Ground ground_slot_def slot_subst_def no_bnode_slot_def slot_label_def made_def assms(1))
next
  case (SVar v)
  with assms(2) obtain l where l: "strip_prefix bnode_prefix v = Some l" by (auto simp: data_slot_def)
  obtain x fr' where x: "label l fr = (x, fr')" by (cases "label l fr")
  note ok = label_ok [OF assms(1) x]
  have "renaming f l = x" if "fr_le fr' f" for f
    using ok(2) that by (force simp: renaming_def fr_le_def map_le_def)
  then have "term_bnode x = slot_subst (renaming f) s" if "fr_le fr' f" for f
    using that by (simp add: slot_subst_def SVar l)
  moreover have "ground_slot s fr = (Inr (term_bnode x), fr')" by (simp add: ground_slot_def SVar l x)
  moreover have "made fr (term_bnode x)"
    using ok unfolding made_def fr_ok_def fr_le_def by metis
  moreover have "slot_label s \<subseteq> dom (fr_map fr')" using ok(2) by (auto simp: slot_label_def SVar l)
  ultimately show ?thesis using that [of "term_bnode x" fr', OF _ ok(1,3)] by simp
qed

lemma ground_ok:
  assumes "fr_ok fr" "data_pattern tp"
  obtains t fr' where "ground tp fr = (Inr t, fr')" "fr_ok fr'" "fr_le fr fr'"
    "\<And>f. fr_le fr' f \<Longrightarrow> t = pattern_subst (renaming f) tp"
    "no_bnodes tp \<Longrightarrow> \<forall>u \<in> triple_terms t. made fr u" "pattern_labels tp \<subseteq> dom (fr_map fr')"
proof -
  have d: "data_slot (tp_s tp)" "data_slot (tp_p tp)" "data_slot (tp_o tp)"
    using assms(2) by (simp_all add: data_pattern_def)
  obtain s fr1 where 1: "ground_slot (tp_s tp) fr = (Inr s, fr1)" "fr_ok fr1" "fr_le fr fr1"
    "\<And>f. fr_le fr1 f \<Longrightarrow> s = slot_subst (renaming f) (tp_s tp)" "no_bnode_slot (tp_s tp) \<Longrightarrow> made fr s"
    "slot_label (tp_s tp) \<subseteq> dom (fr_map fr1)"
    using ground_slot_ok [OF assms(1) d(1)] by blast
  obtain p fr2 where 2: "ground_slot (tp_p tp) fr1 = (Inr p, fr2)" "fr_ok fr2" "fr_le fr1 fr2"
    "\<And>f. fr_le fr2 f \<Longrightarrow> p = slot_subst (renaming f) (tp_p tp)" "no_bnode_slot (tp_p tp) \<Longrightarrow> made fr1 p"
    "slot_label (tp_p tp) \<subseteq> dom (fr_map fr2)"
    using ground_slot_ok [OF 1(2) d(2)] by blast
  obtain ob fr3 where 3: "ground_slot (tp_o tp) fr2 = (Inr ob, fr3)" "fr_ok fr3" "fr_le fr2 fr3"
    "\<And>f. fr_le fr3 f \<Longrightarrow> ob = slot_subst (renaming f) (tp_o tp)" "no_bnode_slot (tp_o tp) \<Longrightarrow> made fr2 ob"
    "slot_label (tp_o tp) \<subseteq> dom (fr_map fr3)"
    using ground_slot_ok [OF 2(2) d(3)] by blast
  have "ground tp fr = (Inr (s, p, ob), fr3)" by (simp add: ground_def 1(1) 2(1) 3(1))
  moreover have "(s, p, ob) = pattern_subst (renaming f) tp" if "fr_le fr3 f" for f
    using 1(4) 2(4) 3(4) fr_le_trans [OF 3(3) that] fr_le_trans [OF 2(3)] that by (simp add: pattern_subst_def)
  moreover have "\<forall>u \<in> triple_terms (s, p, ob). made fr u" if "no_bnodes tp"
    using that 1(5) 2(5) 3(5) made_le [OF 1(3)] made_le [OF fr_le_trans [OF 1(3) 2(3)]]
    by (simp add: no_bnodes_def triple_terms_def)
  moreover have "pattern_labels tp \<subseteq> dom (fr_map fr3)"
    using fr_le_dom [OF fr_le_trans [OF 2(3) 3(3)] 1(6)] fr_le_dom [OF 3(3) 2(6)] 3(6)
    by (simp add: pattern_labels_def)
  ultimately show ?thesis using that 3(2) fr_le_trans [OF 1(3) fr_le_trans [OF 2(3) 3(3)]] by blast
qed

subsection \<open>Insert\<close>

lemma finite_graph [simp]: "finite (graph st)"
  by (simp add: graph_def)

lemma insert_data_ok:
  assumes "store_ok st" "fr_ok fr" "list_all data_pattern tps"
  shows "\<exists>n st' f. insert_data tps fr n0 st = (Inr (n0 + n), st') \<and> store_ok st' \<and> extends st st'
    \<and> fr_ok f \<and> fr_le fr f
    \<and> graph st' = graph st \<union> pattern_subst (renaming f) ` set tps
    \<and> int (card (graph st')) = int (card (graph st)) + n
    \<and> new_terms st st' (\<Union>tp \<in> set tps. triple_terms (pattern_subst (renaming f) tp))
    \<and> (list_all no_bnodes tps \<longrightarrow> (\<forall>u \<in> (\<Union>tp \<in> set tps. triple_terms (pattern_subst (renaming f) tp)). made fr u))
    \<and> data_labels tps \<subseteq> dom (fr_map f)"
  using assms
proof (induction tps arbitrary: fr n0 st)
  case Nil
  then show ?case
    by (intro exI [of _ 0] exI [of _ st] exI [of _ fr]) (simp add: extends_def new_terms_def data_labels_def)
next
  case (Cons tp tps)
  obtain t fr1 where g: "ground tp fr = (Inr t, fr1)" "fr_ok fr1" "fr_le fr fr1"
    "\<And>f. fr_le fr1 f \<Longrightarrow> t = pattern_subst (renaming f) tp" "no_bnodes tp \<Longrightarrow> \<forall>u \<in> triple_terms t. made fr u"
    "pattern_labels tp \<subseteq> dom (fr_map fr1)"
    by (rule ground_ok [OF Cons.prems(2), of tp]) (use Cons.prems(3) in simp_all)
  obtain k st1 where s: "store_triple t st = (Inr k, st1)" "store_ok st1" "extends st st1"
    "graph st1 = insert t (graph st)" "k = (if t \<in> graph st then 0 else 1)"
    "new_terms st st1 {fst t, fst (snd t), snd (snd t)}"
    using store_triple_ok [OF Cons.prems(1), of t] by blast
  obtain n st2 f where r: "insert_data tps fr1 (n0 + k) st1 = (Inr (n0 + k + n), st2)" "store_ok st2"
    "extends st1 st2" "fr_ok f" "fr_le fr1 f" "graph st2 = graph st1 \<union> pattern_subst (renaming f) ` set tps"
    "int (card (graph st2)) = int (card (graph st1)) + n"
    "new_terms st1 st2 (\<Union>tp \<in> set tps. triple_terms (pattern_subst (renaming f) tp))"
    "list_all no_bnodes tps \<longrightarrow> (\<forall>u \<in> (\<Union>tp \<in> set tps. triple_terms (pattern_subst (renaming f) tp)). made fr1 u)"
    "data_labels tps \<subseteq> dom (fr_map f)"
    using Cons.IH [OF s(2) g(2), of "n0 + k"] Cons.prems(3) by auto
  note t = g(4) [OF r(5)]
  have "insert_data (tp # tps) fr n0 st = (Inr (n0 + (k + n)), st2)" by (simp add: g(1) s(1) r(1) add.assoc)
  moreover have "graph st2 = graph st \<union> pattern_subst (renaming f) ` set (tp # tps)" using r(6) s(4) t by auto
  moreover have "int (card (graph st2)) = int (card (graph st)) + (k + n)" using r(7) s(4,5) by (simp add: insert_absorb)
  moreover have "new_terms st st2 (\<Union>tp \<in> set (tp # tps). triple_terms (pattern_subst (renaming f) tp))"
    using new_terms_trans [OF Cons.prems(1) s(2,3,6) r(8)] t by (simp add: triple_terms_def)
  moreover have "\<forall>u \<in> (\<Union>tp \<in> set (tp # tps). triple_terms (pattern_subst (renaming f) tp)). made fr u"
    if "list_all no_bnodes (tp # tps)"
    using that g(5) r(9) made_le [OF g(3)] t by auto
  moreover have "data_labels (tp # tps) \<subseteq> dom (fr_map f)"
    using r(10) fr_le_dom [OF r(5) g(6)] by (simp add: data_labels_def)
  ultimately show ?case using r(2,4) extends_trans [OF s(3) r(3)] fr_le_trans [OF g(3) r(5)] by blast
qed

subsection \<open>Blank nodes stay fresh\<close>

text \<open>Every blank node of the store was made by a load or an insert that came before it.\<close>

definition labels_ok :: "rdf_store \<Rightarrow> bool" where
  "labels_ok st \<longleftrightarrow>
     (\<forall>i t. term_at st i = Some t \<and> tm_kind t = K_BNODE \<longrightarrow>
        (\<exists>a k. t = term_bnode (fresh_label a k) \<and> 0 \<le> a \<and> a < i))"

lemma stamped_label_is_new:
  assumes "store_ok st" "labels_ok st"
  shows "term_at st i \<noteq> Some (term_bnode (fresh_label (max_id st) k))"
proof
  assume a: "term_at st i = Some (term_bnode (fresh_label (max_id st) k))"
  moreover have "tm_kind (term_bnode l) = K_BNODE" for l by (simp add: term_bnode_def)
  ultimately obtain a k' where "term_bnode (fresh_label (max_id st) k) = term_bnode (fresh_label a k')" "0 \<le> a" "a < i"
    using assms(2) unfolding labels_ok_def by blast
  then have "max_id st = a"
    using fresh_label_inj [OF max_id_nonneg [of st], of a k k'] by (simp add: term_bnode_def)
  moreover have "i \<le> max_id st" using a assms(1) by (auto simp: term_at_iff dest: max_id_ge)
  ultimately show False using \<open>a < i\<close> by simp
qed

lemma labels_ok_new:
  assumes "store_ok st" "labels_ok st" "new_terms st st' T" "\<forall>u \<in> T. made (freshener_new st) u"
  shows "labels_ok st'"
  unfolding labels_ok_def
proof (intro allI impI, elim conjE)
  fix i t assume a: "term_at st' i = Some t" "tm_kind t = K_BNODE"
  then consider "term_at st i = Some t" | "t \<in> T" "max_id st < i"
    using assms(3) unfolding new_terms_def by blast
  then show "\<exists>a k. t = term_bnode (fresh_label a k) \<and> 0 \<le> a \<and> a < i"
  proof cases
    case 1
    then show ?thesis using assms(2) a(2) unfolding labels_ok_def by blast
  next
    case 2
    then have "made (freshener_new st) t" using assms(4) by blast
    then obtain k where "t = term_bnode (fresh_label (max_id st) k)"
      using a(2) by (auto simp: made_def freshener_new_def)
    then show ?thesis using 2(2) max_id_nonneg [of st] by blast
  qed
qed

end
