(* ===== verification/Sparql_Dictionary.thy ===== *)
theory Sparql_Dictionary
  imports Sparql_Store_Facts
begin

text \<open>
  The dictionary as an interface: what the loader, the compiler and the updates rely on when
  they exchange terms for identifiers, proved once from the laws and interpreted on the store.
\<close>

locale dictionary =
  fixes valid :: "'s \<Rightarrow> bool"
    and entry :: "'s \<Rightarrow> int \<Rightarrow> rdf_term option"
    and ident :: "'s \<Rightarrow> rdf_term \<Rightarrow> int"
    and intern :: "rdf_term \<Rightarrow> 's \<Rightarrow> (string, int) result \<times> 's"
  assumes ident_iff: "valid s \<Longrightarrow> ident s t = i \<and> i \<noteq> 0 \<longleftrightarrow> entry s i = Some t"
    and interned: "valid s \<Longrightarrow> \<exists>i s'. intern t s = (Inr i, s') \<and> valid s' \<and> entry s' i = Some t
      \<and> (\<forall>j u. entry s j = Some u \<longrightarrow> entry s' j = Some u)"
begin

lemma known: "valid s \<Longrightarrow> ident s t \<noteq> 0 \<longleftrightarrow> entry s (ident s t) = Some t"
  using ident_iff [of s t "ident s t"] by simp

lemma ident_injective: "valid s \<Longrightarrow> ident s t = ident s u \<Longrightarrow> ident s t \<noteq> 0 \<Longrightarrow> t = u"
  using known [of s t] known [of s u] by (metis option.inject)

lemma intern_total:
  assumes "valid s"
  shows "\<exists>i s'. intern t s = (Inr i, s') \<and> valid s' \<and> ident s' t = i \<and> i \<noteq> 0
    \<and> (\<forall>u. ident s u \<noteq> 0 \<longrightarrow> ident s' u = ident s u)"
proof -
  from interned [OF assms, of t] obtain i s' where i: "intern t s = (Inr i, s')" "valid s'"
    "entry s' i = Some t" "\<forall>j u. entry s j = Some u \<longrightarrow> entry s' j = Some u"
    by (elim exE conjE)
  note t = ident_iff [OF i(2), THEN iffD2, OF i(3)]
  have keep: "ident s' u = ident s u" if "ident s u \<noteq> 0" for u
  proof -
    have "entry s (ident s u) = Some u" by (rule known [OF assms, THEN iffD1, OF that])
    then have "entry s' (ident s u) = Some u" by (rule i(4) [rule_format])
    from ident_iff [OF i(2), THEN iffD2, OF this] show ?thesis by (rule conjunct1)
  qed
  from i(1,2) t keep show ?thesis by (intro exI [of _ i] exI [of _ s'] conjI allI impI) (elim conjE, assumption)+
qed

lemma intern_again:
  assumes "valid s" "intern t s = (Inr i, s')"
  shows "fst (intern t s') = Inr i"
proof -
  have i: "valid s'" "ident s' t = i" "i \<noteq> 0" using intern_total [OF assms(1), of t] unfolding assms(2) by simp_all
  from intern_total [OF i(1), of t] obtain j s'' where
    "intern t s' = (Inr j, s'')" "ident s'' t = j" "\<forall>u. ident s' u \<noteq> 0 \<longrightarrow> ident s'' u = ident s' u"
    by (elim exE conjE)
  with i(2,3) show ?thesis by simp
qed

end

interpretation store_dictionary: dictionary store_ok term_at lookup_term_id intern_term
proof
  show "lookup_term_id s t = i \<and> i \<noteq> 0 \<longleftrightarrow> term_at s i = Some t" if "store_ok s" for s t i
    by (rule lookup_term [OF that])
  show "\<exists>i s'. intern_term t s = (Inr i, s') \<and> store_ok s' \<and> term_at s' i = Some t
      \<and> (\<forall>j u. term_at s j = Some u \<longrightarrow> term_at s' j = Some u)" if "store_ok s" for s t
    by (rule intern_term_ok [OF that, of t]) (unfold extends_def, blast)
qed

end
