(* ===== verification/Sparql_Wf.thy ===== *)
theory Sparql_Wf
  imports Sparql_Query
begin

text \<open>
  What a parsed request looks like: the invariants of the syntax tree the compiler and the
  store rely on.
\<close>

text \<open>A ground term is an IRI, or a literal in object position; blank nodes are variables.\<close>

fun slot_ok :: "position \<Rightarrow> slot \<Rightarrow> bool" where
  "slot_ok pos (SVar v) = True"
| "slot_ok pos (Ground t) = (tm_kind t = K_IRI \<or> (pos = Object \<and> tm_kind t = K_LIT))"

definition tp_ok :: "triple_pattern \<Rightarrow> bool" where
  "tp_ok tp \<longleftrightarrow> slot_ok Subject (tp_s tp) \<and> slot_ok Predicate (tp_p tp) \<and> slot_ok Object (tp_o tp)"

definition val_ok :: "val_operand \<Rightarrow> bool" where
  "val_ok v \<longleftrightarrow> (vl_var v = None) = (vl_term v \<noteq> None) \<and> (vl_func v = FNone \<or> vl_var v \<noteq> None)"

fun expr_ok :: "expr \<Rightarrow> bool" where
  "expr_ok (EOr a b) = (expr_ok a \<and> expr_ok b)"
| "expr_ok (EAnd a b) = (expr_ok a \<and> expr_ok b)"
| "expr_ok (ENot a) = expr_ok a"
| "expr_ok (EBound v) = True"
| "expr_ok (ERegex a b fl) = (expr_ok a \<and> expr_ok b \<and> (case fl of None \<Rightarrow> True | Some f \<Rightarrow> expr_ok f))"
| "expr_ok (ECmp op a b) = (is_val a \<and> is_val b \<and> expr_ok a \<and> expr_ok b)"
| "expr_ok (EVal v) = val_ok v"

fun group_ok :: "group \<Rightarrow> bool" where
  "group_ok (Group ts fs os us) =
     (list_all tp_ok ts \<and> list_all expr_ok fs \<and> list_all group_ok os
      \<and> list_all (\<lambda>bs. bs \<noteq> [] \<and> list_all group_ok bs) us)"

definition item_ok :: "sel_item \<Rightarrow> bool" where
  "item_ok it \<longleftrightarrow>
     (if si_agg it = AggNone then \<not> si_distinct it \<and> \<not> si_star it \<and> si_var it = Some (si_alias it)
      else if si_star it then si_agg it = AggCount \<and> si_var it = None else si_var it \<noteq> None)"

definition query_ok :: "query \<Rightarrow> bool" where
  "query_ok q \<longleftrightarrow>
     group_ok (q_pattern q) \<and> list_all tp_ok (q_template q) \<and> list_all item_ok (q_sel q)
     \<and> (q_form q = FSelect \<longrightarrow> q_star q = (q_sel q = []))
     \<and> (q_limit q = -1 \<or> (0 \<le> q_limit q \<and> is_i64 (q_limit q)))
     \<and> 0 \<le> q_offset q \<and> is_i64 (q_offset q)
     \<and> distinct (map fst (q_prefixes q))"

definition update_ok :: "update \<Rightarrow> bool" where
  "update_ok u \<longleftrightarrow>
     list_all tp_ok (up_triples u)
     \<and> (case up_kind u of
          InsertData \<Rightarrow> list_all (\<lambda>v. strip_prefix bnode_prefix v \<noteq> None) (pattern_vars (up_triples u))
        | DeleteData \<Rightarrow> pattern_vars (up_triples u) = []
        | DeleteWhere \<Rightarrow> True)"

fun parsed_ok :: "parsed \<Rightarrow> bool" where
  "parsed_ok (PQuery q) = query_ok q"
| "parsed_ok (PUpdate u) = update_ok u"

definition yields :: "('a \<Rightarrow> bool) \<Rightarrow> (perr, 'a \<times> string) result \<Rightarrow> bool" where
  "yields P m \<longleftrightarrow> (\<forall>x r. m = Inr (x, r) \<longrightarrow> P x)"

lemma yields_simps [simp]: "yields P (Inl e)" "yields P (Inr (x, r)) \<longleftrightarrow> P x"
  by (auto simp: yields_def)

lemma yieldsD: "yields P m \<Longrightarrow> m = Inr (x, r) \<Longrightarrow> P x"
  by (simp add: yields_def)

lemma yields_rbind:
  "(\<And>x r. m = Inr (x, r) \<Longrightarrow> yields P (f (x, r))) \<Longrightarrow> yields P (rbind m f)"
  by (cases m) auto

lemma yields_expect:
  "(\<And>r. expect c msg s = Inr r \<Longrightarrow> yields P (f r)) \<Longrightarrow> yields P (rbind (expect c msg s) f)"
  by (auto simp: expect_def)

lemma yields_True [simp]: "yields (\<lambda>_. True) m" by (simp add: yields_def)

subsection \<open>Triples\<close>

lemma parse_term_kind:
  assumes "parse_term_common cx s = Inr (Some t, r)"
  shows "tm_kind t = K_IRI \<or> tm_kind t = K_LIT"
proof -
  have l: "tm_kind u = K_LIT" if "literal_suffix cx lx s' = Inr (u, r')" for lx s' u r'
    using that by (auto simp: literal_suffix_def Let_def rbind_Inr_iff split: if_splits prod.splits)
  have n: "tm_kind u = K_LIT" if "read_number s' = Inr (u, r')" for s' u r'
    using that by (auto simp: read_number_def split: prod.splits)
  show ?thesis
    using assms by (auto simp: parse_term_common_def Let_def rbind_Inr_iff split: if_splits option.splits dest: l n)
qed

lemma qt_yields: "yields (slot_ok pos) (qt cx pos s)"
  by (cases pos)
    (auto dest: parse_term_kind simp: qt_def qt_term_def Let_def intro!: yields_rbind split: option.splits prod.splits if_splits)

lemma tp_ok_simp [simp]:
  "tp_ok \<lparr>tp_s = a, tp_p = b, tp_o = c\<rparr> = (slot_ok Subject a \<and> slot_ok Predicate b \<and> slot_ok Object c)"
  by (simp add: tp_ok_def)

lemma obj_list_yields:
  "slot_ok Subject subj \<Longrightarrow> slot_ok Predicate pred \<Longrightarrow> yields (list_all tp_ok) (obj_list cx subj pred s)"
proof (induction cx subj pred s rule: obj_list.induct)
  case (1 cx subj pred s)
  have ob: "slot_ok Object x" if "qt cx Object s = Inr (x, r)" for x r
    by (rule yieldsD [OF qt_yields that])
  have "list_all tp_ok tps"
    if "qt cx Object s = Inr (ob, r)" "peek (skipws r) = CHR '',''"
      "obj_list cx subj pred (bump (skipws r)) = Inr (tps, r')" for ob r tps r'
    using yieldsD [OF "1.IH" [OF that(1) refl refl that(2) "1.prems"] that(3)] .
  with "1.prems" show ?case
    by (subst obj_list.simps, auto simp: Let_def intro!: yields_rbind) (erule ob)+
qed

lemma pred_list_yields: "slot_ok Subject subj \<Longrightarrow> yields (list_all tp_ok) (pred_list cx subj s)"
proof (induction cx subj s rule: pred_list.induct)
  case (1 cx subj s)
  have first: "list_all tp_ok tps" if "qt cx Predicate s = Inr (p, r1)" "obj_list cx subj p r1 = Inr (tps, r2)" for p r1 tps r2
    using yieldsD [OF obj_list_yields that(2)] yieldsD [OF qt_yields that(1)] "1.prems" by simp
  have more: "list_all tp_ok tps'"
    if "qt cx Predicate s = Inr (p, r1)" "obj_list cx subj p r1 = Inr (tps, r2)" "peek (skipws r2) = CHR '';''"
      "\<not> block_end (skip_semis (bump (skipws r2)))"
      "pred_list cx subj (skip_semis (bump (skipws r2))) = Inr (tps', r3)" for p r1 tps r2 tps' r3
    using yieldsD [OF "1.IH" [OF that(1) refl that(2) refl that(3) refl that(4) "1.prems"] that(5)] .
  show ?case
    by (subst pred_list.simps) (auto simp: Let_def first more intro!: yields_rbind)
qed

lemma triples_block_yields: "yields (list_all tp_ok) (triples_block cx s)"
  by (auto simp: triples_block_def intro!: yields_rbind pred_list_yields dest: yieldsD [OF qt_yields])

subsection \<open>Expressions\<close>

definition good :: "(string \<Rightarrow> expr pres) \<Rightarrow> bool" where
  "good p \<longleftrightarrow> (\<forall>s. yields expr_ok (p s))"

lemma goodD: "good p \<Longrightarrow> p s = Inr (e, r) \<Longrightarrow> expr_ok e"
  by (auto simp: good_def yields_def)

lemma var_operand_ok [simp]: "expr_ok (var_operand f v)" "expr_ok (term_operand t)"
  by (simp_all add: var_operand_def term_operand_def val_ok_def)

lemma call_yields [simp]: "yields expr_ok (bound_expr s)" "yields expr_ok (builtin_call f s)"
  by (auto simp: bound_expr_def builtin_call_def intro!: yields_rbind yields_expect)

lemma regex_yields:
  assumes "good u"
  shows "yields expr_ok (regex_expr u s)"
proof -
  have "yields (\<lambda>fl. case fl of None \<Rightarrow> True | Some f \<Rightarrow> expr_ok f) (regex_flags u r)" for r
    using goodD [OF assms] by (auto simp: regex_flags_def intro!: yields_rbind)
  from yieldsD [OF this] goodD [OF assms] show ?thesis
    by (auto simp: regex_expr_def intro!: yields_rbind yields_expect)
qed

lemma unary_good: "good p \<Longrightarrow> good (unary_of p)"
  by (auto simp: good_def unary_of_def Let_def split: option.splits)

lemma rel_good: "good p \<Longrightarrow> good (rel_of p)"
  using goodD [OF unary_good]
  by (auto simp: good_def rel_of_def intro!: yields_rbind split: option.splits)

lemma chain_yields:
  assumes "good p" "\<And>a b. expr_ok (mk a b) = (expr_ok a \<and> expr_ok b)"
  shows "expr_ok a \<Longrightarrow> yields expr_ok (chain n c mk p a s)"
proof (induction n arbitrary: a s)
  case (Suc n)
  then show ?case using goodD [OF assms(1)] by (auto simp: assms(2) intro!: yields_rbind)
qed simp

lemma and_good: "good p \<Longrightarrow> good (and_of p)"
  using chain_yields [of "rel_of p" EAnd] rel_good [of p] goodD [OF rel_good, of p]
  by (auto simp: good_def and_of_def simp del: chain.simps intro!: yields_rbind)

lemma or_good: "good p \<Longrightarrow> good (or_of p)"
  using chain_yields [of "and_of p" EOr] and_good [of p] goodD [OF and_good, of p]
  by (auto simp: good_def or_of_def simp del: chain.simps intro!: yields_rbind)

lemma primary_good: "good (primary n cx)"
proof (induction n)
  case (Suc n)
  have "yields expr_ok (regex_expr (unary_of (primary n cx)) r)" for r
    by (rule regex_yields [OF unary_good [OF Suc]])
  then show ?case
    using goodD [OF or_good [OF Suc]] goodD [OF Suc]
    by (auto simp: good_def primary.simps(2) Let_def operand_term_def
        intro!: yields_rbind yields_expect split: option.splits)
qed (simp add: good_def)

lemma or_expr_yields: "yields expr_ok (or_expr cx s)"
  using or_good [OF primary_good] by (simp add: good_def or_expr_def)

subsection \<open>Groups\<close>

lemma add_ok:
  "group_ok (add_triples ts g) = (group_ok g \<and> list_all tp_ok ts)"
  "group_ok (add_filter e g) = (group_ok g \<and> expr_ok e)"
  "group_ok (add_optional h g) = (group_ok g \<and> group_ok h)"
  "group_ok (add_union bs g) = (group_ok g \<and> bs \<noteq> [] \<and> list_all group_ok bs)"
  by (cases g; auto)+

lemma union_loop_yields:
  assumes "\<And>s. yields group_ok (G s)"
  shows "list_all group_ok bs \<Longrightarrow> yields (\<lambda>bs. bs \<noteq> [] \<and> list_all group_ok bs) (union_loop n G bs s)"
proof (induction n arbitrary: bs s)
  case (Suc n)
  then show ?case using yieldsD [OF assms]
    by (auto simp: union_loop.simps(2) intro!: yields_rbind split: option.splits)
qed simp

lemma group_loop_yields:
  assumes "\<And>s. yields group_ok (G s)"
  shows "group_ok g \<Longrightarrow> yields group_ok (group_loop n cx G g s)"
proof (induction n arbitrary: g s)
  case (Suc n)
  have U: "bs \<noteq> [] \<and> list_all group_ok bs" if "union_loop k G [] s = Inr (bs, r)" for k s bs r
    using yieldsD [OF union_loop_yields [of G, OF assms] that] by simp
  show ?case
    using Suc yieldsD [OF assms] yieldsD [OF or_expr_yields] yieldsD [OF triples_block_yields] U
    by (auto simp: group_loop.simps(2) Let_def add_ok intro!: yields_rbind Suc.IH split: option.splits)
qed simp

lemma group_at_yields: "yields group_ok (group_at n cx s)"
proof (induction n arbitrary: s)
  case (Suc n)
  show ?case
    by (auto simp: group_at.simps(2) Let_def group_default_def intro!: group_loop_yields Suc)
qed simp

lemma group_yields: "yields group_ok (group cx s)"
  by (simp add: group_def group_at_yields)

subsection \<open>Requests\<close>

lemma prologue_prefixes:
  "distinct (map fst (cx_prefixes cx)) \<Longrightarrow> yields (\<lambda>cx'. distinct (map fst (cx_prefixes cx'))) (prologue cx s)"
proof (induction cx s rule: prologue.induct)
  case (1 cx s)
  have set: "distinct (map fst (cx_prefixes (set_prefix name iri cx)))" for name iri
    using "1.prems" by (auto simp: set_prefix_def distinct_map_filter)
  have p: "distinct (map fst (cx_prefixes c'))" if "prefix_decl cx r = Inr (c', r')" for r c' r'
    using that set by (auto simp: prefix_decl_def rbind_Inr_iff split: prod.splits if_splits)
  have b: "distinct (map fst (cx_prefixes c'))" if "base_decl cx r = Inr (c', r')" for r c' r'
    using that "1.prems" by (auto simp: base_decl_def rbind_Inr_iff split: if_splits)
  show ?case
    using 1 p b by (subst prologue.simps) (auto intro!: yields_rbind split: option.splits)
qed

lemma data_loop_yields: "list_all tp_ok tps \<Longrightarrow> yields (list_all tp_ok) (data_loop cx tps s)"
proof (induction cx tps s rule: data_loop.induct)
  case (1 cx tps s)
  then show ?case
    using yieldsD [OF triples_block_yields]
    by (subst data_loop.simps) (auto simp: Let_def intro!: yields_rbind split: option.splits)
qed

lemma template_loop_yields: "list_all tp_ok tps \<Longrightarrow> yields (list_all tp_ok) (template_loop cx tps s)"
proof (induction cx tps s rule: template_loop.induct)
  case (1 cx tps s)
  then show ?case
    using yieldsD [OF triples_block_yields]
    by (subst template_loop.simps) (auto simp: Let_def intro!: yields_rbind)
qed

lemma agg_name_not_none: "agg_name s = Some (a, r) \<Longrightarrow> a \<noteq> AggNone"
  by (auto simp: agg_name_def split: option.splits)

lemma agg_arg_ok:
  "agg_arg ag s = Inr ((star, v), r) \<Longrightarrow> if star then ag = AggCount \<and> v = None else v \<noteq> None"
  by (auto simp: agg_arg_def rbind_Inr_iff split: if_splits)

lemma agg_item_yields: "yields item_ok (agg_item s)"
proof -
  have "item_ok \<lparr>si_agg = ag, si_distinct = d, si_star = star, si_var = v, si_alias = al\<rparr>"
    if "agg_name r0 = Some (ag, r1)" "agg_arg ag r2 = Inr ((star, v), r3)" for r0 ag r1 r2 star v r3 d al
    using agg_name_not_none [OF that(1)] agg_arg_ok [OF that(2)] by (auto simp: item_ok_def)
  then show ?thesis
    by (auto simp: agg_item_def Let_def intro!: yields_rbind yields_expect split: option.splits prod.splits)
qed

lemma plain_item_ok [simp]: "item_ok (plain_item v)"
  by (simp add: plain_item_def item_ok_def)

lemma sel_items_yields: "list_all item_ok items \<Longrightarrow> yields (list_all item_ok) (sel_items items s)"
proof (induction items s rule: sel_items.induct)
  case (1 items s)
  then show ?case
    using yieldsD [OF agg_item_yields]
    by (subst sel_items.simps) (auto simp: Let_def intro!: yields_rbind)
qed

lemma read_int_range: "read_int s = Inr (i, r) \<Longrightarrow> 0 \<le> i \<and> is_i64 i"
proof -
  assume a: "read_int s = Inr (i, r)"
  define ds where "ds = takeWhile is_digit (skipws s)"
  have ds: "ds \<noteq> []" "list_all is_digit ds" and i: "i = (case parse_i64 ds of Some i \<Rightarrow> i | None \<Rightarrow> 0)"
    using a by (auto simp: read_int_def take_while_def ds_def list_all_iff dest: set_takeWhileD split: if_splits)
  have "hd ds \<noteq> CHR ''-''" using ds by (cases ds) (auto simp: is_digit_def)
  with ds i show ?thesis
    by (auto simp: parse_i64_def is_i64_def split: option.splits if_splits list.splits)
qed

lemma modifiers_yields: "query_ok q \<Longrightarrow> yields query_ok (modifiers q s)"
proof (induction q s rule: modifiers.induct)
  case (1 q s)
  have g: "query_ok q'" if "group_clause q r = Inr (q', r')" for r q' r'
    using that "1.prems" by (auto simp: group_clause_def rbind_Inr_iff query_ok_def split: option.splits if_splits)
  have ord: "query_ok q'" if "order_clause q r = Inr (q', r')" for r q' r'
    using that "1.prems" by (auto simp: order_clause_def rbind_Inr_iff query_ok_def split: option.splits if_splits)
  have l: "query_ok (q\<lparr>q_limit := i\<rparr>)" "query_ok (q\<lparr>q_offset := i\<rparr>)" if "read_int r = Inr (i, r')" for r i r'
    using read_int_range [OF that] "1.prems" by (auto simp: query_ok_def)
  show ?case
    using 1 g ord l
    by (subst modifiers.simps) (auto simp: Let_def intro!: yields_rbind split: option.splits)
qed

lemma yields_where:
  assumes "\<And>g. group_ok g \<Longrightarrow> query_ok (q\<lparr>q_pattern := g\<rparr>)"
  shows "yields query_ok (where_pattern cx q s)"
  using assms yieldsD [OF group_yields] by (auto simp: where_pattern_def intro!: yields_rbind)

lemma forms_yield:
  "yields query_ok (select_query cx s)" "yields query_ok (construct_query cx s)" "yields query_ok (ask_query cx s)"
  using yieldsD [OF sel_items_yields [of "[]"]] yieldsD [OF template_loop_yields [of "[]"]]
  by (auto simp: select_query_def construct_query_def ask_query_def Let_def query_ok_def query_default_def
      is_i64_def intro!: yields_rbind yields_expect yields_where)

lemma finish_ok:
  assumes "query_ok q" "distinct (map fst (cx_prefixes cx))" "finish_query cx q s = Inr p"
  shows "parsed_ok p"
  using assms(2,3) yieldsD [OF modifiers_yields [OF assms(1)]]
  by (auto simp: finish_query_def rbind_Inr_iff at_end_def query_ok_def split: if_splits)

lemma updates_ok:
  "insert_update cx s = Inr p \<Longrightarrow> parsed_ok p" "delete_update cx s = Inr p \<Longrightarrow> parsed_ok p"
proof -
  have d: "list_all tp_ok tps" if "data_block cx r = Inr (tps, r')" for r tps r'
    using that yieldsD [OF data_loop_yields [of "[]"]] by (auto simp: data_block_def rbind_Inr_iff)
  assume "insert_update cx s = Inr p"
  then show "parsed_ok p"
    using d by (auto simp: insert_update_def rbind_Inr_iff at_end_def update_ok_def list_ex_iff list_all_iff
        split: option.splits if_splits)
next
  have d: "list_all tp_ok tps" if "data_block cx r = Inr (tps, r')" for r tps r'
    using that yieldsD [OF data_loop_yields [of "[]"]] by (auto simp: data_block_def rbind_Inr_iff)
  have w: "list_all tp_ok (gr_triples g)" if "group cx r = Inr (g, r')" for r g r'
    using yieldsD [OF group_yields that] by (cases g) simp
  assume "delete_update cx s = Inr p"
  then show "parsed_ok p"
    using d w by (auto simp: delete_update_def delete_data_def delete_where_def rbind_Inr_iff at_end_def update_ok_def
        split: option.splits if_splits)
qed

lemma parse_request_ok: "parse_request s = Inr p \<Longrightarrow> parsed_ok p"
proof -
  assume a: "parse_request s = Inr p"
  then obtain cx s0 where px: "prologue \<lparr>cx_prefixes = [], cx_base = None\<rparr> s = Inr (cx, s0)"
    by (auto simp: parse_request_def rbind_Inr_iff)
  have d: "distinct (map fst (cx_prefixes cx))"
    using yieldsD [OF prologue_prefixes px] by simp
  have f: "parsed_ok p" if "m = Inr (q, r)" "yields query_ok m" "finish_query cx q r = Inr p" for m q r
    using finish_ok [OF yieldsD [OF that(2,1)] d that(3)] .
  from a px show ?thesis
    using forms_yield
    by (auto simp: parse_request_def Let_def rbind_Inr_iff split: option.splits
        intro: updates_ok f [OF _ forms_yield(1)] f [OF _ forms_yield(2)] f [OF _ forms_yield(3)])
qed

end
