(* ===== verification/Sparql_Updates.thy ===== *)
theory Sparql_Updates
  imports Sparql_Store_Facts Sparql_Wf
begin

text \<open>
  Updates and loads on the graph: what a parsed request does to a store that satisfies the
  invariant, and that the invariant is kept.
\<close>

subsection \<open>Patterns of parsed data\<close>

lemma insert_data_patterns:
  assumes "update_ok u" "up_kind u = InsertData"
  shows "list_all data_pattern (up_triples u)" "list_all no_bnodes (up_triples u)"
proof -
  have v: "strip_prefix bnode_prefix v \<noteq> None" if "tp \<in> set (up_triples u)" "SVar v \<in> set (slots tp)" for tp v
  proof -
    have "v \<in> set (pattern_vars (up_triples u))"
      using that by (force simp: pattern_vars_def List.map_filter_def)
    with assms show ?thesis by (simp add: update_ok_def list_all_iff)
  qed
  have d: "data_slot s" if "tp \<in> set (up_triples u)" "s \<in> set (slots tp)" for tp s
    using v [OF that(1)] that(2) by (cases s) (simp_all add: data_slot_def)
  then show "list_all data_pattern (up_triples u)"
    by (simp add: list_all_iff data_pattern_def slots_def)
  have n: "no_bnode_slot s" if "slot_ok pos s" for pos s
    using that by (cases s) (auto simp: no_bnode_slot_def)
  show "list_all no_bnodes (up_triples u)"
    using assms(1) n by (auto simp: list_all_iff no_bnodes_def update_ok_def tp_ok_def)
qed

lemma delete_data_slots:
  assumes "update_ok u" "up_kind u = DeleteData" "tp \<in> set (up_triples u)"
  obtains s p ob where "tp_s tp = Ground s" "tp_p tp = Ground p" "tp_o tp = Ground ob"
proof -
  have "List.map_filter slot_var (concat (map slots (up_triples u))) = []"
    using assms(1,2) by (simp add: update_ok_def pattern_vars_def)
  then have "slot_var s = None" if "s \<in> set (slots tp)" for s
    using assms(3) that by (force simp: List.map_filter_def filter_empty_conv)
  then have "slot_var (tp_s tp) = None" "slot_var (tp_p tp) = None" "slot_var (tp_o tp) = None"
    by (simp_all add: slots_def)
  with that show ?thesis by (cases "tp_s tp"; cases "tp_p tp"; cases "tp_o tp") auto
qed

subsection \<open>Deletion\<close>

lemma delete_triple_ok:
  assumes "store_ok st" "term_at st si = Some s" "term_at st pi = Some p" "term_at st oi = Some ob"
  obtains n st' where "delete_triple si pi oi st = (n, st')" "store_ok st'" "rs_terms st' = rs_terms st"
    "graph st' = graph st - {(s, p, ob)}" "n = (if (s, p, ob) \<in> graph st then 1 else 0)"
proof -
  define st' where "st' = st\<lparr>rs_triples := filter (\<lambda>t. t \<noteq> (si, pi, oi)) (rs_triples st)\<rparr>"
  have at: "term_at st' = term_at st" by (simp add: st'_def term_at_def fun_eq_iff)
  have mem: "(s, p, ob) \<in> graph st \<longleftrightarrow> (si, pi, oi) \<in> set (rs_triples st)"
    unfolding graph_iff using assms(2-4) term_at_inj [OF assms(1)] by metis
  have ok: "store_ok st'" using assms(1) by (auto simp: store_ok_def st'_def)
  have "(a, b, c) \<in> graph st' \<longleftrightarrow> (a, b, c) \<in> graph st \<and> (a, b, c) \<noteq> (s, p, ob)" for a b c
  proof -
    have "(x, y, z) \<in> set (rs_triples st') \<longleftrightarrow> (x, y, z) \<in> set (rs_triples st) \<and> (x, y, z) \<noteq> (si, pi, oi)" for x y z
      by (auto simp: st'_def)
    moreover have "(x, y, z) = (si, pi, oi) \<longleftrightarrow> (a, b, c) = (s, p, ob)"
      if "term_at st x = Some a" "term_at st y = Some b" "term_at st z = Some c" for x y z
      using that assms(2-4) term_at_inj [OF assms(1) that(1), of si] term_at_inj [OF assms(1) that(2), of pi]
        term_at_inj [OF assms(1) that(3), of oi] by auto
    ultimately show ?thesis unfolding graph_iff at by blast
  qed
  then have g: "graph st' = graph st - {(s, p, ob)}" by auto
  show ?thesis
  proof (cases "(si, pi, oi) \<in> set (rs_triples st)")
    case True
    with that [of 1 st'] ok g mem show ?thesis by (simp add: delete_triple_def st'_def)
  next
    case False
    with that [of 0 st] assms(1) mem show ?thesis by (simp add: delete_triple_def)
  qed
qed

text \<open>Deleting a triple by its terms: an absent term means that there is nothing to delete.\<close>

lemma delete_terms_ok:
  assumes "store_ok st" and ids: "si = lookup_term_id st s" "pi = lookup_term_id st p" "oi = lookup_term_id st ob"
  obtains n st' where "(if si = 0 \<or> pi = 0 \<or> oi = 0 then (0, st) else delete_triple si pi oi st) = (n, st')"
    "store_ok st'" "rs_terms st' = rs_terms st" "graph st' = graph st - {(s, p, ob)}"
    "n = (if (s, p, ob) \<in> graph st then 1 else 0)"
proof (cases "si = 0 \<or> pi = 0 \<or> oi = 0")
  case True
  then have "(s, p, ob) \<notin> graph st"
    unfolding graph_iff ids using lookup_absent [OF assms(1)] by blast
  with True that [of 0 st] assms(1) show ?thesis by simp
next
  case False
  then have at: "term_at st si = Some s" "term_at st pi = Some p" "term_at st oi = Some ob"
    using lookup_term [OF assms(1)] ids by blast+
  obtain n st' where "delete_triple si pi oi st = (n, st')" "store_ok st'" "rs_terms st' = rs_terms st"
    "graph st' = graph st - {(s, p, ob)}" "n = (if (s, p, ob) \<in> graph st then 1 else 0)"
    using delete_triple_ok [OF assms(1) at] by blast
  with False that show ?thesis by simp
qed

lemma card_diff1: "int (card (graph st - {t})) + (if t \<in> graph st then 1 else 0) = int (card (graph st))"
  using card_Suc_Diff1 [OF finite_graph, of t st] by (simp split: if_split) linarith

lemma delete_data_ok:
  assumes "store_ok st"
    and "\<And>tp. tp \<in> set tps \<Longrightarrow> \<exists>s p ob. tp_s tp = Ground s \<and> tp_p tp = Ground p \<and> tp_o tp = Ground ob"
  shows "\<exists>st'. delete_data_rows tps fr n0 st = (Inr (n0 + (int (card (graph st)) - int (card (graph st')))), st')
    \<and> store_ok st' \<and> rs_terms st' = rs_terms st \<and> graph st' = graph st - pattern_subst \<sigma> ` set tps"
  using assms
proof (induction tps arbitrary: fr n0 st)
  case (Cons tp tps)
  obtain s p ob where tp: "tp_s tp = Ground s" "tp_p tp = Ground p" "tp_o tp = Ground ob"
    using Cons.prems(2) [of tp] by auto
  have t: "pattern_subst \<sigma> tp = (s, p, ob)" by (simp add: pattern_subst_def slot_subst_def tp)
  have gr: "ground tp fr = (Inr (s, p, ob), fr)" by (simp add: ground_def ground_slot_def tp)
  define si pi oi where ids: "si = lookup_term_id st s" "pi = lookup_term_id st p" "oi = lookup_term_id st ob"
  obtain k st1 where d: "(if si = 0 \<or> pi = 0 \<or> oi = 0 then (0, st) else delete_triple si pi oi st) = (k, st1)"
    "store_ok st1" "rs_terms st1 = rs_terms st" "graph st1 = graph st - {(s, p, ob)}"
    "k = (if (s, p, ob) \<in> graph st then 1 else 0)"
    using delete_terms_ok [OF Cons.prems(1) ids] by blast
  have step: "delete_data_rows (tp # tps) fr n0 st = delete_data_rows tps fr (n0 + k) st1"
    using d(1) by (auto simp: gr Let_def ids [symmetric] split: if_splits)
  obtain st2 where r: "delete_data_rows tps fr (n0 + k) st1 =
      (Inr (n0 + k + (int (card (graph st1)) - int (card (graph st2)))), st2)"
    "store_ok st2" "rs_terms st2 = rs_terms st1" "graph st2 = graph st1 - pattern_subst \<sigma> ` set tps"
    using Cons.IH [OF d(2), of fr "n0 + k"] Cons.prems(2) by auto
  have "k + int (card (graph st1)) = int (card (graph st))"
    using card_diff1 [of st "(s, p, ob)"] d(4,5) by simp
  then have n: "n0 + k + (int (card (graph st1)) - int (card (graph st2))) = n0 + (int (card (graph st)) - int (card (graph st2)))"
    by linarith
  show ?case
    using step r(1) n r(2,3,4) d(3,4) t by (intro exI [of _ st2]) auto
qed (simp add: image_def)

text \<open>The triples that patterns have under solutions.\<close>

definition instances :: "string list \<Rightarrow> (solution \<times> triple_pattern) list \<Rightarrow> triple set" where
  "instances vars todo = {(s, p, ob). \<exists>(row, tp) \<in> set todo. slot_term vars row (tp_s tp) = Some s
     \<and> slot_term vars row (tp_p tp) = Some p \<and> slot_term vars row (tp_o tp) = Some ob}"

lemma instances_Nil [simp]: "instances vars [] = {}" by (simp add: instances_def)

lemma instances_Cons: "instances vars (rt # todo) = instances vars [rt] \<union> instances vars todo"
  by (auto simp: instances_def)

lemma delete_instances_ok:
  assumes "store_ok st"
  shows "\<exists>st'. delete_instances vars todo n0 st = (n0 + (int (card (graph st)) - int (card (graph st'))), st')
    \<and> store_ok st' \<and> rs_terms st' = rs_terms st
    \<and> graph st' = graph st - instances vars todo"
  using assms
proof (induction todo arbitrary: n0 st)
  case (Cons rt todo)
  obtain row tp where rt: "rt = (row, tp)" by (cases rt)
  define si pi oi where ids: "si = slot_id st vars row (tp_s tp)" "pi = slot_id st vars row (tp_p tp)"
    "oi = slot_id st vars row (tp_o tp)"
  have "\<exists>k st1. (if si = 0 \<or> pi = 0 \<or> oi = 0 then (0, st) else delete_triple si pi oi st) = (k, st1)
    \<and> store_ok st1 \<and> rs_terms st1 = rs_terms st \<and> graph st1 = graph st - instances vars [rt]
    \<and> k + int (card (graph st1)) = int (card (graph st))"
  proof (cases "slot_term vars row (tp_s tp) = None \<or> slot_term vars row (tp_p tp) = None
      \<or> slot_term vars row (tp_o tp) = None")
    case True
    then have "si = 0 \<or> pi = 0 \<or> oi = 0" by (auto simp: ids slot_id_def)
    moreover have "instances vars [rt] = {}" using True by (auto simp: instances_def rt)
    ultimately show ?thesis using Cons.prems by auto
  next
    case False
    then obtain s p ob where t: "slot_term vars row (tp_s tp) = Some s" "slot_term vars row (tp_p tp) = Some p"
      "slot_term vars row (tp_o tp) = Some ob" by auto
    then have i: "si = lookup_term_id st s" "pi = lookup_term_id st p" "oi = lookup_term_id st ob"
      by (simp_all add: ids slot_id_def)
    have S: "instances vars [rt] = {(s, p, ob)}" using t by (auto simp: instances_def rt)
    obtain k st1 where "(if si = 0 \<or> pi = 0 \<or> oi = 0 then (0, st) else delete_triple si pi oi st) = (k, st1)"
      "store_ok st1" "rs_terms st1 = rs_terms st" "graph st1 = graph st - {(s, p, ob)}"
      "k = (if (s, p, ob) \<in> graph st then 1 else 0)"
      using delete_terms_ok [OF Cons.prems i] by blast
    then show ?thesis using card_diff1 [of st "(s, p, ob)"] S by (intro exI [of _ k] exI [of _ st1]) simp
  qed
  then obtain k st1 where d: "(if si = 0 \<or> pi = 0 \<or> oi = 0 then (0, st) else delete_triple si pi oi st) = (k, st1)"
    "store_ok st1" "rs_terms st1 = rs_terms st" "graph st1 = graph st - instances vars [rt]"
    "k + int (card (graph st1)) = int (card (graph st))" by blast
  have step: "delete_instances vars (rt # todo) n0 st = delete_instances vars todo (n0 + k) st1"
    using d(1) by (auto simp: rt Let_def ids [symmetric] split: if_splits)
  obtain st2 where r: "delete_instances vars todo (n0 + k) st1 =
      (n0 + k + (int (card (graph st1)) - int (card (graph st2))), st2)"
    "store_ok st2" "rs_terms st2 = rs_terms st1" "graph st2 = graph st1 - instances vars todo"
    using Cons.IH [OF d(2), of "n0 + k"] by blast
  have n: "n0 + k + (int (card (graph st1)) - int (card (graph st2))) = n0 + (int (card (graph st)) - int (card (graph st2)))"
    using d(5) by linarith
  have "graph st2 = graph st - instances vars (rt # todo)" using r(4) d(4) instances_Cons [of vars rt todo] by auto
  then show ?case
    using step r(1) r(2,3) d(3) unfolding n by (intro exI [of _ st2] conjI) simp_all
qed simp

subsection \<open>Insertion\<close>

definition node_label_unused :: "rdf_store \<Rightarrow> string \<Rightarrow> bool" where
  "node_label_unused st l \<longleftrightarrow> (\<forall>i. term_at st i \<noteq> Some (term_bnode l))"

lemma fr_stamp_new [simp]: "fr_stamp (freshener_new st) = max_id st"
  by (simp add: freshener_new_def)

text \<open>The labels a freshener of the store gave are distinct and unused.\<close>

lemma renaming_fresh:
  assumes "store_ok st" "labels_ok st" "fr_ok f" "fr_le (freshener_new st) f" "L \<subseteq> dom (fr_map f)"
  shows "inj_on (renaming f) L" "l \<in> L \<Longrightarrow> node_label_unused st (renaming f l)"
proof -
  have r: "fr_map f l = Some (renaming f l)" if "l \<in> L" for l
    using assms(5) that by (auto simp: renaming_def dom_def split: option.splits)
  show "inj_on (renaming f) L"
  proof (rule inj_onI)
    fix a b assume ab: "a \<in> L" "b \<in> L" "renaming f a = renaming f b"
    have "inj_on (fr_map f) (dom (fr_map f))" using assms(3) by (simp add: fr_ok_def)
    moreover have "fr_map f a = fr_map f b" using r [OF ab(1)] r [OF ab(2)] ab(3) by simp
    ultimately show "a = b" using ab(1,2) assms(5) by (meson inj_onD subsetD)
  qed
  assume "l \<in> L"
  then obtain k where "renaming f l = fresh_label (fr_stamp f) k"
    using r assms(3) unfolding fr_ok_def by blast
  moreover have "fr_stamp f = max_id st" using assms(4) by (simp add: fr_le_def)
  ultimately show "node_label_unused st (renaming f l)"
    using stamped_label_is_new [OF assms(1,2)] by (simp add: node_label_unused_def)
qed

lemma insert_update_ok:
  assumes "store_ok st" "labels_ok st" "update_ok u" "up_kind u = InsertData"
  shows "\<exists>n st' \<sigma>. run_update run u st = (Inr n, st') \<and> store_ok st' \<and> labels_ok st'
    \<and> graph st' = graph st \<union> pattern_subst \<sigma> ` set (up_triples u)
    \<and> int (card (graph st')) = int (card (graph st)) + n
    \<and> inj_on \<sigma> (data_labels (up_triples u))
    \<and> (\<forall>l \<in> data_labels (up_triples u). node_label_unused st (\<sigma> l))"
proof -
  note pat = insert_data_patterns [OF assms(3,4)]
  obtain n st' f where i: "insert_data (up_triples u) (freshener_new st) 0 st = (Inr (0 + n), st')" "store_ok st'"
    "fr_ok f" "fr_le (freshener_new st) f" "graph st' = graph st \<union> pattern_subst (renaming f) ` set (up_triples u)"
    "int (card (graph st')) = int (card (graph st)) + n"
    "new_terms st st' (\<Union>tp \<in> set (up_triples u). triple_terms (pattern_subst (renaming f) tp))"
    "\<forall>x \<in> (\<Union>tp \<in> set (up_triples u). triple_terms (pattern_subst (renaming f) tp)). made (freshener_new st) x"
    "data_labels (up_triples u) \<subseteq> dom (fr_map f)"
    using insert_data_ok [OF assms(1) freshener_new_ok pat(1), of st 0]
    by (elim exE conjE) (drule mp [OF _ pat(2)], rule that)
  note fresh = renaming_fresh [OF assms(1,2) i(3,4,9)]
  have "run_update run u st = (Inr n, st')" using i(1) by (simp add: run_update_def assms(4))
  with i(2,5,6) labels_ok_new [OF assms(1,2) i(7,8)] fresh show ?thesis
    by (intro exI [of _ n] exI [of _ st'] exI [of _ "renaming f"] conjI ballI)
qed

lemma delete_update_ok:
  assumes "store_ok st" "update_ok u" "up_kind u = DeleteData"
  shows "\<exists>st'. run_update run u st = (Inr (int (card (graph st)) - int (card (graph st'))), st')
    \<and> store_ok st' \<and> rs_terms st' = rs_terms st \<and> graph st' = graph st - pattern_subst \<sigma> ` set (up_triples u)"
proof -
  have "\<exists>s p ob. tp_s tp = Ground s \<and> tp_p tp = Ground p \<and> tp_o tp = Ground ob" if "tp \<in> set (up_triples u)" for tp
    using delete_data_slots [OF assms(2,3) that] by blast
  from delete_data_ok [OF assms(1) this, of "up_triples u" "freshener_new st" 0 \<sigma>]
  show ?thesis by (simp add: run_update_def assms(3))
qed

lemma delete_where_ok:
  assumes "store_ok st1" "up_kind u = DeleteWhere"
    "exec_select run st (where_query (up_triples u)) = (Inr (vars, rows), st1)"
  shows "\<exists>st'. run_update run u st = (Inr (int (card (graph st1)) - int (card (graph st'))), st')
    \<and> store_ok st' \<and> rs_terms st' = rs_terms st1
    \<and> graph st' = graph st1 - instances vars (concat (map (\<lambda>row. map (Pair row) (up_triples u)) rows))"
  using delete_instances_ok [OF assms(1), of vars "concat (map (\<lambda>row. map (Pair row) (up_triples u)) rows)" 0]
  by (auto simp: run_update_def assms(2,3))

lemma labels_ok_terms: "rs_terms st' = rs_terms st \<Longrightarrow> labels_ok st' = labels_ok st"
  by (simp add: labels_ok_def term_at_def)

text \<open>What a query leaves of the store is what its run leaves, or the store itself.\<close>

lemma exec_select_store: "snd (exec_select run st q) = st \<or> (\<exists>sql. snd (exec_select run st q) = snd (run None st sql))"
  by (auto simp: exec_select_def split: sum.split prod.split) (metis snd_conv)

text \<open>The rows' source keeps the invariants: a query changes the store only through the engine's
  own functions.\<close>

definition runner_ok :: "runner \<Rightarrow> bool" where
  "runner_ok run \<longleftrightarrow>
     (\<forall>k st sql. store_ok st \<longrightarrow> labels_ok st \<longrightarrow> store_ok (snd (run k st sql)) \<and> labels_ok (snd (run k st sql)))"

lemma exec_select_keeps:
  "runner_ok run \<Longrightarrow> store_ok st \<Longrightarrow> labels_ok st \<Longrightarrow>
     store_ok (snd (exec_select run st q)) \<and> labels_ok (snd (exec_select run st q))"
  using exec_select_store [of run st q] unfolding runner_ok_def by metis

text \<open>Every update keeps the invariant, and one that fails changes nothing beyond what the run of
  its own pattern did.\<close>

lemma update_text_keeps:
  assumes "store_ok st" "labels_ok st" "runner_ok run" "update_text run s st = (res, st')"
  shows "store_ok st' \<and> labels_ok st' \<and> (\<forall>e. res = Inl e \<longrightarrow> st' = st \<or> (\<exists>sql. st' = snd (run None st sql)))"
proof -
  have keep: "labels_ok x" if "rs_terms x = rs_terms st" for x
    using labels_ok_terms [OF that] assms(2) by simp
  consider (err) e where "parse s = Inl e" | (query) q where "parse s = Inr (PQuery q)"
    | (update) u where "parse s = Inr (PUpdate u)"
    by (cases "parse s"; metis parsed.exhaust)
  then show ?thesis
  proof cases
    case err
    with assms show ?thesis by (auto simp: update_text_def)
  next
    case query
    with assms show ?thesis by (auto simp: update_text_def)
  next
    case (update u)
    then have u: "update_ok u" using parse_request_ok [of s "PUpdate u"]
      by (auto simp: parse_def split: sum.splits perr.splits)
    have run: "run_update run u st = (res, st')" using assms(4) update by (simp add: update_text_def)
    show ?thesis
    proof (cases "up_kind u")
      case InsertData
      from insert_update_ok [OF assms(1,2) u this, of run] run [symmetric] show ?thesis by (elim exE conjE) simp
    next
      case DeleteData
      from delete_update_ok [OF assms(1) u this, of run "\<lambda>x. x"] run [symmetric] assms(2)
      show ?thesis by (elim exE conjE) (simp add: keep)
    next
      case DeleteWhere
      obtain out st1 where q: "exec_select run st (where_query (up_triples u)) = (out, st1)" by fastforce
      have st1: "store_ok st1" "labels_ok st1" "st1 = st \<or> (\<exists>sql. st1 = snd (run None st sql))"
        using exec_select_keeps [OF assms(3,1,2), of "where_query (up_triples u)"]
          exec_select_store [of run st "where_query (up_triples u)"] by (simp_all add: q)
      show ?thesis
      proof (cases out)
        case (Inl e)
        with run DeleteWhere st1 show ?thesis by (auto simp: run_update_def q)
      next
        case (Inr vr)
        obtain vars rows where "vr = (vars, rows)" by (cases vr)
        from delete_where_ok [OF st1(1) DeleteWhere q [unfolded Inr this]] obtain n st2 where
          d: "run_update run u st = (Inr n, st2)" "store_ok st2" "rs_terms st2 = rs_terms st1" by blast
        from d(1) run have "res = Inr n" "st' = st2" by simp_all
        with d(2) labels_ok_terms [OF d(3)] st1(2) show ?thesis by simp
      qed
    qed
  qed
qed

end
