(* ===== verification/Sparql_Loads.thy ===== *)
theory Sparql_Loads
  imports Sparql_Updates
begin

text \<open>
  Turtle loads on the graph: the triples a load adds, and the blank nodes it makes.
\<close>

lemma conv_triple_ok:
  assumes "fr_ok fr"
  obtains t fr' where "conv_triple x fr = (t, fr')" "fr_ok fr'" "fr_le fr fr'" "\<forall>u \<in> triple_terms t. made fr u"
proof -
  have node: "\<exists>t fr'. conv_node n f = (t, fr') \<and> fr_ok fr' \<and> fr_le f fr' \<and> made f t" if "fr_ok f" for n f
  proof (cases n)
    case (NamedNode i)
    with that show ?thesis by (simp add: made_def)
  next
    case (BlankNode b)
    obtain l f' where l: "label b f = (l, f')" by (cases "label b f")
    note ok = label_ok [OF that l]
    have "made f (term_bnode l)" using ok unfolding made_def fr_ok_def fr_le_def by metis
    with ok show ?thesis by (simp add: BlankNode l)
  qed
  obtain s p ob where x: "x = (s, p, ob)" by (cases x)
  obtain s' fr1 where 1: "conv_node s fr = (s', fr1)" "fr_ok fr1" "fr_le fr fr1" "made fr s'"
    using node [OF assms] by blast
  show ?thesis
  proof (cases ob)
    case (NodeObject n)
    obtain o' fr2 where 2: "conv_node n fr1 = (o', fr2)" "fr_ok fr2" "fr_le fr1 fr2" "made fr1 o'"
      using node [OF 1(2)] by blast
    show ?thesis
      by (rule that [of "(s', term_iri p, o')" fr2])
        (use 1 2 made_le [OF 1(3)] fr_le_trans in \<open>auto simp: conv_triple_def x NodeObject triple_terms_def made_def\<close>)
  next
    case (LiteralObject lx dt lg)
    show ?thesis
      by (rule that [of "(s', term_iri p, conv_literal lx dt lg)" fr1])
        (use 1 in \<open>auto simp: conv_triple_def x LiteralObject triple_terms_def made_def conv_literal_def split: option.splits\<close>)
  qed
qed

lemma load_items_ok:
  assumes "store_ok st" "fr_ok fr" "load_items items fr n0 st = (res, st')"
  shows "store_ok st' \<and> extends st st' \<and> graph st \<subseteq> graph st'
    \<and> (\<forall>n. res = Inr n \<longrightarrow> n0 + int (card (graph st')) = n + int (card (graph st)))
    \<and> (\<forall>t \<in> graph st' - graph st. \<forall>u \<in> triple_terms t. made fr u)
    \<and> (\<exists>T. new_terms st st' T \<and> (\<forall>u \<in> T. made fr u))"
  using assms
proof (induction items fr n0 st rule: load_items.induct)
  case (1 fr n st)
  then show ?case by (auto simp: extends_def new_terms_def)
next
  case (2 e items fr n st)
  then show ?case by (auto simp: extends_def new_terms_def)
next
  case (3 x items fr n st)
  obtain t fr' where c: "conv_triple x fr = (t, fr')" "fr_ok fr'" "fr_le fr fr'" "\<forall>u \<in> triple_terms t. made fr u"
    using conv_triple_ok [OF "3.prems"(2)] by blast
  obtain k st1 where s: "store_triple t st = (Inr k, st1)" "store_ok st1" "extends st st1"
    "graph st1 = insert t (graph st)" "k = (if t \<in> graph st then 0 else 1)" "new_terms st st1 (triple_terms t)"
    using store_triple_ok [OF "3.prems"(1), of t] unfolding triple_terms_def by blast
  have l: "load_items items fr' (n + k) st1 = (res, st')" using "3.prems"(3) by (simp add: c(1) s(1))
  note ih = "3.IH" [OF c(1) [symmetric] s(1) [symmetric] refl s(2) c(2) l]
  obtain T where T: "new_terms st1 st' T" "\<forall>u \<in> T. made fr' u" using ih by (elim conjE exE) (rule that)
  note i = conjunct1 [OF ih] ih [THEN conjunct2, THEN conjunct1] ih [THEN conjunct2, THEN conjunct2, THEN conjunct1]
  have added: "\<forall>t' \<in> graph st' - graph st1. \<forall>u \<in> triple_terms t'. made fr u"
    using ih unfolding made_le [OF c(3)] by (elim conjE)
  have count: "n + k + int (card (graph st')) = m + int (card (graph st1))" if "res = Inr m" for m
    using ih that by simp
  have new: "new_terms st st' (triple_terms t \<union> T)" by (rule new_terms_trans [OF "3.prems"(1) s(2,3,6) T(1)])
  show ?case
  proof (intro conjI)
    show "store_ok st'" by (rule i(1))
    show "extends st st'" by (rule extends_trans [OF s(3) i(2)])
    show "graph st \<subseteq> graph st'" using i(3) s(4) by blast
    show "\<forall>m. res = Inr m \<longrightarrow> n + int (card (graph st')) = m + int (card (graph st))"
      using count s(4,5) by (auto simp: insert_absorb split: if_splits)
    show "\<forall>t' \<in> graph st' - graph st. \<forall>u \<in> triple_terms t'. made fr u"
    proof
      fix t' assume "t' \<in> graph st' - graph st"
      then show "\<forall>u \<in> triple_terms t'. made fr u"
        using added [unfolded s(4), THEN bspec, of t'] c(4) by (cases "t' = t") simp_all
    qed
    show "\<exists>T. new_terms st st' T \<and> (\<forall>u \<in> T. made fr u)"
      using new c(4) T(2) made_le [OF c(3)] by (intro exI [of _ "triple_terms t \<union> T"]) blast
  qed
qed

text \<open>A load from any list of items: a triple that is new has only new blank nodes.\<close>

lemma load_turtle_ok:
  assumes "store_ok st" "labels_ok st" "load_turtle items st = (res, st')"
  shows "store_ok st' \<and> labels_ok st' \<and> graph st \<subseteq> graph st'
    \<and> (\<forall>n. res = Inr n \<longrightarrow> int (card (graph st')) = int (card (graph st)) + n)
    \<and> (\<forall>t \<in> graph st' - graph st. \<forall>u \<in> triple_terms t. tm_kind u = K_BNODE \<longrightarrow> node_label_unused st (tm_lex u))"
proof (cases items)
  case (Inl e)
  with assms show ?thesis by (auto simp: load_turtle_def)
next
  case (Inr xs)
  then have "load_items xs (freshener_new st) 0 st = (res, st')" using assms(3) by (simp add: load_turtle_def)
  note l = load_items_ok [OF assms(1) freshener_new_ok this]
  have "labels_ok st'" using labels_ok_new [OF assms(1,2)] l by blast
  moreover have "node_label_unused st (tm_lex u)" if "made (freshener_new st) u" "tm_kind u = K_BNODE" for u
    using that stamped_label_is_new [OF assms(1,2)] by (auto simp: made_def node_label_unused_def term_bnode_def)
  ultimately show ?thesis using l by (auto simp: add.commute)
qed

end
