(* ===== verification/Sparql_Reads.thy ===== *)
theory Sparql_Reads
  imports Sparql_Query Sparql_Serialize
begin

text \<open>
  What the SPARQL parser makes of text a serializer wrote: each written term reads back as
  the term it came from, and so do whole documents inside \<open>INSERT DATA\<close>.
\<close>

subsection \<open>Terms the serializers write without loss\<close>

definition ok_iri :: "string \<Rightarrow> bool" where
  "ok_iri s \<longleftrightarrow> CHR ''>'' \<notin> set s \<and> CHR 0x5C \<notin> set s"

definition ok_label :: "string \<Rightarrow> bool" where
  "ok_label s \<longleftrightarrow> s \<noteq> [] \<and> list_all is_name_byte s"

definition ok_tag :: "string \<Rightarrow> bool" where
  "ok_tag s \<longleftrightarrow> s \<noteq> [] \<and> list_all (\<lambda>b. is_alnum b \<or> b = CHR ''-'') s"

text \<open>The terms of a store: an IRI, a blank node, a literal that is plain, tagged or typed.\<close>

definition ok_term :: "rdf_term \<Rightarrow> bool" where
  "ok_term t \<longleftrightarrow>
     (tm_kind t = K_IRI \<and> ok_iri (tm_lex t) \<and> tm_dtype t = [] \<and> tm_lang t = [])
     \<or> (tm_kind t = K_BNODE \<and> ok_label (tm_lex t) \<and> tm_dtype t = [] \<and> tm_lang t = [])
     \<or> (tm_kind t = K_LIT \<and> tm_lang t = [] \<and> ok_iri (tm_dtype t))
     \<or> (tm_kind t = K_LIT \<and> tm_dtype t = [] \<and> ok_tag (tm_lang t))"

definition ok_triple :: "triple \<Rightarrow> bool" where
  "ok_triple t =
     (case t of (s, p, ob) \<Rightarrow>
        ok_term s \<and> ok_term p \<and> ok_term ob \<and> tm_kind s \<noteq> K_LIT \<and> tm_kind p = K_IRI)"

text \<open>How a parser sees a term: a blank node label is a variable of its own name space.\<close>

definition slot_of :: "rdf_term \<Rightarrow> slot" where
  "slot_of t = (if tm_kind t = K_BNODE then SVar (bnode_prefix @ tm_lex t) else Ground t)"

definition pattern_of :: "triple \<Rightarrow> triple_pattern" where
  "pattern_of t = (case t of (s, p, ob) \<Rightarrow> \<lparr>tp_s = slot_of s, tp_p = slot_of p, tp_o = slot_of ob\<rparr>)"

subsection \<open>The cursor on concrete text\<close>

lemma peek_simps [simp]: "peek [] = CHR 0x00" "peek (c # s) = c" "peek_at 0 s = peek s"
  "peek_at (Suc k) (c # s) = peek_at k s" "peek_at k [] = CHR 0x00" "bump (c # s) = s"
  by (simp_all add: peek_def peek_at_def bump_def)

definition solid :: "char \<Rightarrow> bool" where
  "solid c \<longleftrightarrow> c \<noteq> CHR '' '' \<and> c \<noteq> CHR 0x09 \<and> c \<noteq> CHR 0x0D \<and> c \<noteq> CHR 0x0A \<and> c \<noteq> CHR ''#''"

lemma skipws_solid: "solid c \<Longrightarrow> skipws (c # s) = c # s"
  by (simp add: skipws.simps(2) solid_def)

lemma skipws_space [simp]: "skipws (CHR '' '' # s) = skipws s" "skipws (CHR 0x0A # s) = skipws s"
  by (simp_all add: skipws.simps(2))

lemma kw_other: "to_lower c \<noteq> to_lower w \<Longrightarrow> kw (w # ws) (c # s) = None"
  by (simp add: kw_def)

lemma kw_same: "\<not> is_name_byte (peek s) \<Longrightarrow> kw w (w @ s) = Some s"
  by (simp add: kw_def peek_at_def)

text \<open>A keyword reads in any letter case.\<close>

lemma kw_any_case: "map to_lower v = map to_lower w \<Longrightarrow> \<not> is_name_byte (peek s) \<Longrightarrow> kw w (v @ s) = Some s"
proof -
  assume a: "map to_lower v = map to_lower w" "\<not> is_name_byte (peek s)"
  then have "length v = length w" by (metis length_map)
  with a show ?thesis by (simp add: kw_def peek_at_def)
qed

lemma take_while_stop: "list_all f a \<Longrightarrow> \<not> f (peek s) \<or> s = [] \<Longrightarrow> take_while f (a @ s) = (a, s)"
  by (cases s) (auto simp: take_while_def list_all_iff takeWhile_append2 dropWhile_append2)

subsection \<open>Written terms read back\<close>

lemma read_iri_back: "ok_iri i \<Longrightarrow> read_iri_loop (i @ CHR ''>'' # s) out = Inr (out @ i, s)"
proof (induction i arbitrary: out)
  case Nil
  show ?case by (simp add: read_iri_loop.simps(2))
next
  case (Cons c i)
  then have "c \<noteq> CHR ''>''" "c \<noteq> CHR 0x5C" "ok_iri i" by (auto simp: ok_iri_def)
  with Cons.IH show ?case by (simp add: read_iri_loop.simps(2))
qed

lemma read_iriref_back: "ok_iri i \<Longrightarrow> read_iriref (iri_ref i @ s) = Inr (i, s)"
  by (simp add: read_iriref_def iri_ref_def read_iri_back)

lemma str_loop_back:
  "str_loop (CHR 0x22) False (concat (map literal_char lx) @ CHR 0x22 # s) out = Inr (out @ lx, s)"
proof (induction lx arbitrary: out)
  case Nil
  show ?case by (simp add: str_loop.simps(2))
next
  case (Cons c lx)
  then show ?case
    by (simp add: literal_char_def str_loop.simps(2) Let_def escape_char_def)
qed

lemma literal_char_start: "literal_char c = d # r \<Longrightarrow> d \<noteq> CHR 0x22"
  by (auto simp: literal_char_def split: if_splits)

lemma read_string_back:
  assumes "peek s \<noteq> CHR 0x22"
  shows "read_string (write_quoted_literal lx @ s) = Inr (lx, s)"
proof -
  define body where "body = concat (map literal_char lx)"
  have w: "write_quoted_literal lx @ s = CHR 0x22 # body @ CHR 0x22 # s"
    by (simp add: write_quoted_literal_def body_def)
  have "\<not> (peek_at 1 (CHR 0x22 # body @ CHR 0x22 # s) = CHR 0x22
      \<and> peek_at 2 (CHR 0x22 # body @ CHR 0x22 # s) = CHR 0x22)"
  proof (cases lx)
    case Nil
    with assms show ?thesis by (simp add: body_def peek_at_def)
  next
    case (Cons c l)
    then obtain d r where "literal_char c = d # r"
      by (cases "literal_char c") (auto simp: literal_char_def split: if_splits)
    with literal_char_start [OF this] Cons show ?thesis by (simp add: body_def peek_at_def)
  qed
  then have l: "(peek_at 1 (CHR 0x22 # body @ CHR 0x22 # s) = CHR 0x22
      \<and> peek_at 2 (CHR 0x22 # body @ CHR 0x22 # s) = CHR 0x22) = False" by blast
  have d: "drop 1 (CHR 0x22 # body @ CHR 0x22 # s) = body @ CHR 0x22 # s" by simp
  have "str_loop (CHR 0x22) False (body @ CHR 0x22 # s) [] = Inr (lx, s)"
    using str_loop_back [of lx s "[]"] by (simp add: body_def)
  then show ?thesis
    unfolding w read_string_def Let_def by (simp only: peek_simps(2) l if_False d)
qed

lemma solid_iri: "solid (CHR ''<'')" "solid (CHR 0x22)" "solid (CHR ''_'')" by (simp_all add: solid_def)

lemma term_back_iri:
  assumes "ok_iri i"
  shows "parse_term_common cx (iri_ref i @ s) = Inr (Some (term_iri (resolve_iri (cx_base cx) i)), s)"
proof -
  have "iri_ref i @ s = CHR ''<'' # i @ CHR ''>'' # s" by (simp add: iri_ref_def)
  then have "skipws (iri_ref i @ s) = iri_ref i @ s" "peek (iri_ref i @ s) = CHR ''<''"
    by (simp_all add: skipws_solid [OF solid_iri(1)])
  then show ?thesis by (simp add: parse_term_common_def Let_def read_iriref_back [OF assms])
qed

lemma term_back_lit:
  assumes "peek r \<noteq> CHR 0x22"
  shows "parse_term_common cx (write_quoted_literal lx @ r) =
    rbind (literal_suffix cx lx r) (\<lambda>(t, r'). Inr (Some t, r'))"
proof -
  have "\<exists>x. write_quoted_literal lx @ r = CHR 0x22 # x" by (simp add: write_quoted_literal_def)
  then have "skipws (write_quoted_literal lx @ r) = write_quoted_literal lx @ r"
      "peek (write_quoted_literal lx @ r) = CHR 0x22"
    by (auto simp: skipws_solid [OF solid_iri(2)])
  then show ?thesis by (simp add: parse_term_common_def Let_def read_string_back [OF assms])
qed

text \<open>A byte that ends every written term.\<close>

definition stop :: "string \<Rightarrow> bool" where
  "stop s \<longleftrightarrow> peek s = CHR '' '' \<or> peek s = CHR '',''"

lemma stop_facts: "stop s \<Longrightarrow> \<not> is_name_byte (peek s) \<and> peek s \<noteq> CHR 0x22 \<and> peek s \<noteq> CHR ''@''
    \<and> peek s \<noteq> CHR ''^'' \<and> peek s \<noteq> CHR ''-'' \<and> \<not> is_alnum (peek s) \<and> \<not> path_operator (peek s)
    \<and> \<not> is_digit (peek s)"
  by (auto simp: stop_def is_name_byte_def is_alnum_def is_upper_def is_lower_def is_digit_def path_operator_def)

lemma literal_back:
  assumes "stop s"
  shows "ok_tag g \<Longrightarrow> parse_term_common cx (write_quoted_literal lx @ ''@'' @ g @ s) = Inr (Some (term_lit_lang lx g), s)"
    and "ok_iri d \<Longrightarrow> parse_term_common cx (write_quoted_literal lx @ ''^^'' @ iri_ref d @ s)
      = Inr (Some (term_lit_dt lx (resolve_iri (cx_base cx) d)), s)"
    and "parse_term_common cx (write_quoted_literal lx @ s) = Inr (Some (term_lit lx), s)"
proof -
  assume g: "ok_tag g"
  have "take_while (\<lambda>b. is_alnum b \<or> b = CHR ''-'') (g @ s) = (g, s)"
    using g stop_facts [OF assms] by (intro take_while_stop) (auto simp: ok_tag_def)
  with g show "parse_term_common cx (write_quoted_literal lx @ ''@'' @ g @ s) = Inr (Some (term_lit_lang lx g), s)"
    by (simp add: term_back_lit literal_suffix_def ok_tag_def)
next
  assume d: "ok_iri d"
  have "skipws (iri_ref d @ s) = iri_ref d @ s" "peek (iri_ref d @ s) = CHR ''<''"
    by (simp_all add: iri_ref_def skipws_solid [OF solid_iri(1)])
  then show "parse_term_common cx (write_quoted_literal lx @ ''^^'' @ iri_ref d @ s)
      = Inr (Some (term_lit_dt lx (resolve_iri (cx_base cx) d)), s)"
    by (simp add: term_back_lit literal_suffix_def Let_def read_iriref_back [OF d])
next
  show "parse_term_common cx (write_quoted_literal lx @ s) = Inr (Some (term_lit lx), s)"
    using stop_facts [OF assms] by (simp add: term_back_lit literal_suffix_def)
qed

lemma term_eqs:
  "tm_kind t = K_IRI \<Longrightarrow> tm_dtype t = [] \<Longrightarrow> tm_lang t = [] \<Longrightarrow> term_iri (tm_lex t) = t"
  "tm_kind t = K_LIT \<Longrightarrow> tm_dtype t = [] \<Longrightarrow> tm_lang t = [] \<Longrightarrow> term_lit (tm_lex t) = t"
  "tm_kind t = K_LIT \<Longrightarrow> tm_lang t = [] \<Longrightarrow> term_lit_dt (tm_lex t) (tm_dtype t) = t"
  "tm_kind t = K_LIT \<Longrightarrow> tm_dtype t = [] \<Longrightarrow> term_lit_lang (tm_lex t) (tm_lang t) = t"
  by (cases t; simp add: term_iri_def term_lit_def term_lit_dt_def term_lit_lang_def)+

lemma resolve_no_base [simp]: "resolve_iri None i = i" by (simp add: resolve_iri_def)

lemma nt_term_back:
  assumes "ok_term t" "tm_kind t \<noteq> K_BNODE" "stop s" "cx_base cx = None"
  shows "parse_term_common cx (nt_write_term t @ s) = Inr (Some t, s)"
proof -
  from assms(1,2) consider
      "tm_kind t = K_IRI" "ok_iri (tm_lex t)" "tm_dtype t = []" "tm_lang t = []"
    | "tm_kind t = K_LIT" "tm_lang t = []" "tm_dtype t = []"
    | "tm_kind t = K_LIT" "tm_lang t = []" "ok_iri (tm_dtype t)" "tm_dtype t \<noteq> []"
    | "tm_kind t = K_LIT" "tm_dtype t = []" "ok_tag (tm_lang t)"
    by (auto simp: ok_term_def)
  then show ?thesis
  proof cases
    case 1
    then show ?thesis using term_back_iri [OF 1(2), of cx s] by (simp add: nt_write_term_def assms(4) term_eqs(1))
  next
    case 2
    then show ?thesis using literal_back(3) [OF assms(3)] by (simp add: nt_write_term_def term_eqs(2))
  next
    case 3
    then show ?thesis using literal_back(2) [OF assms(3) 3(3)] by (simp add: nt_write_term_def assms(4) term_eqs(3))
  next
    case 4
    then have "tm_lang t \<noteq> []" by (auto simp: ok_tag_def)
    with 4 show ?thesis using literal_back(1) [OF assms(3) 4(3)] by (simp add: nt_write_term_def term_eqs(4))
  qed
qed

lemma nt_write_start:
  assumes "ok_term t"
  shows "\<exists>c r. nt_write_term t = c # r \<and> c \<in> {CHR ''<'', CHR 0x22, CHR ''_''}"
  by (auto simp: nt_write_term_def iri_ref_def write_quoted_literal_def)

lemma qt_back:
  assumes "ok_term t" "stop s" "cx_base cx = None"
    and "pos = Subject \<Longrightarrow> tm_kind t \<noteq> K_LIT" "pos = Predicate \<Longrightarrow> tm_kind t = K_IRI"
  shows "qt cx pos (nt_write_term t @ s) = Inr (slot_of t, s)"
proof -
  obtain c x where start: "nt_write_term t @ s = c # x" and c: "c \<in> {CHR ''<'', CHR 0x22, CHR ''_''}"
    using nt_write_start [OF assms(1)] by auto
  have sk: "skipws (nt_write_term t @ s) = nt_write_term t @ s"
    unfolding start using c solid_iri by (intro skipws_solid) auto
  show ?thesis
  proof (cases "tm_kind t = K_BNODE")
    case True
    then have l: "ok_label (tm_lex t)" using assms(1) by (auto simp: ok_term_def)
    have t: "take_while is_name_byte (tm_lex t @ s) = (tm_lex t, s)"
      using l stop_facts [OF assms(2)] by (intro take_while_stop) (auto simp: ok_label_def)
    have w: "nt_write_term t @ s = CHR ''_'' # CHR '':'' # tm_lex t @ s" using True by (simp add: nt_write_term_def)
    from sk w l True show ?thesis
      by (simp add: qt_def Let_def var_start_def t ok_label_def slot_of_def)
  next
    case False
    have c': "c = CHR ''<'' \<or> c = CHR 0x22"
      using start c False by (auto simp: nt_write_term_def iri_ref_def write_quoted_literal_def split: if_splits)
    have v: "\<not> var_start (nt_write_term t @ s)" "peek (nt_write_term t @ s) = c"
      unfolding start using c' by (auto simp: var_start_def)
    have k: "kw ''a'' (nt_write_term t @ s) = None"
      unfolding start using c' by (auto intro!: kw_other simp: to_lower_def is_upper_def)
    have "qt_term cx pos (nt_write_term t @ s) = Inr (Ground t, s)"
      using nt_term_back [OF assms(1) False assms(2,3)] assms(4,5) stop_facts [OF assms(2)]
      by (simp add: qt_term_def)
    with sk v k c' False show ?thesis by (auto simp: qt_def Let_def slot_of_def)
  qed
qed

lemma qt_skip: "skipws s = skipws s' \<Longrightarrow> qt cx pos s = qt cx pos s'"
  by (simp add: qt_def)

text \<open>A triple line reads as one triple; the dot is left.\<close>

lemma nt_triple_back:
  assumes "ok_triple t" "cx_base cx = None"
  shows "triples_block cx (nt_triple t @ r) = Inr ([pattern_of t], CHR ''.'' # CHR 0x0A # r)"
proof -
  obtain s p ob where t: "t = (s, p, ob)" by (cases t)
  have ok: "ok_term s" "ok_term p" "ok_term ob" "tm_kind s \<noteq> K_LIT" "tm_kind p = K_IRI"
    using assms(1) by (simp_all add: ok_triple_def t)
  have st: "stop (CHR '' '' # x)" for x by (simp add: stop_def)
  define e where "e = CHR '' '' # CHR ''.'' # CHR 0x0A # r"
  define o1 where "o1 = nt_write_term ob @ e"
  define p1 where "p1 = nt_write_term p @ CHR '' '' # o1"
  have w: "nt_triple t @ r = nt_write_term s @ CHR '' '' # p1"
    by (simp add: nt_triple_def t e_def o1_def p1_def)
  have sk: "skipws (CHR '' '' # x) = skipws x" for x by simp
  have q1: "qt cx Subject (nt_write_term s @ CHR '' '' # p1) = Inr (slot_of s, CHR '' '' # p1)"
    using qt_back [OF ok(1) st assms(2), of Subject] ok(4) by simp
  have q2: "qt cx Predicate (CHR '' '' # p1) = Inr (slot_of p, CHR '' '' # o1)"
    using qt_skip [OF sk, of cx Predicate p1] qt_back [OF ok(2) st assms(2), of Predicate] ok(5) by (simp add: p1_def)
  have q3: "qt cx Object (CHR '' '' # o1) = Inr (slot_of ob, e)"
    using qt_skip [OF sk, of cx Object o1] qt_back [OF ok(3) st assms(2), of Object] by (simp add: o1_def e_def)
  have e: "skipws e = CHR ''.'' # CHR 0x0A # r" by (simp add: e_def skipws_solid solid_def)
  have ol: "obj_list cx (slot_of s) (slot_of p) (CHR '' '' # o1) = Inr ([pattern_of t], CHR ''.'' # CHR 0x0A # r)"
    by (subst obj_list.simps) (simp add: q3 e pattern_of_def t)
  have dot: "skipws (CHR ''.'' # CHR 0x0A # r) = CHR ''.'' # CHR 0x0A # r" by (simp add: skipws_solid solid_def)
  have "pred_list cx (slot_of s) (CHR '' '' # p1) = Inr ([pattern_of t], CHR ''.'' # CHR 0x0A # r)"
    by (subst pred_list.simps) (simp add: q2 ol dot)
  then show ?thesis by (simp add: triples_block_def w q1)
qed

lemma nt_triple_start:
  assumes "ok_triple t"
  shows "\<exists>c x. nt_triple t @ r = c # x \<and> (c = CHR ''<'' \<or> c = CHR ''_'')"
  using assms by (cases t) (auto simp: ok_triple_def nt_triple_def nt_write_term_def iri_ref_def ok_term_def)

lemma data_loop_back:
  assumes "list_all ok_triple ts" "cx_base cx = None"
  shows "data_loop cx tps (concat (map nt_triple ts) @ ''}'') = Inr (tps @ map pattern_of ts, [])"
  using assms(1)
proof (induction ts arbitrary: tps)
  case Nil
  show ?case by (subst data_loop.simps) (simp add: skipws_solid solid_def)
next
  case (Cons t ts)
  define r where "r = concat (map nt_triple ts) @ ''}''"
  obtain c x where start: "nt_triple t @ r = c # x" "c = CHR ''<'' \<or> c = CHR ''_''"
    using nt_triple_start [of t r] Cons.prems by auto
  have sk: "skipws (nt_triple t @ r) = nt_triple t @ r"
    unfolding start(1) using start(2) solid_iri by (intro skipws_solid) auto
  have pk: "peek (nt_triple t @ r) = c" "nt_triple t @ r \<noteq> []" unfolding start(1) by simp_all
  have kwn: "kw ''GRAPH'' (nt_triple t @ r) = None"
    unfolding start(1) using start(2)
    by (auto intro!: kw_other simp: to_lower_def is_upper_def char_eq_of_char)
  have tb: "triples_block cx (nt_triple t @ r) = Inr ([pattern_of t], CHR ''.'' # CHR 0x0A # r)"
    using nt_triple_back [of t cx r] Cons.prems assms(2) by simp
  define d where "d = nt_triple t @ r"
  have d: "skipws d = d" "peek d = c" "d \<noteq> []" "kw ''GRAPH'' d = None"
      "triples_block cx d = Inr ([pattern_of t], CHR ''.'' # CHR 0x0A # r)"
    using sk pk kwn tb by (simp_all add: d_def)
  have "data_loop cx tps d = data_loop cx (tps @ [pattern_of t]) (CHR ''.'' # CHR 0x0A # r)"
    using start(2) by (subst data_loop.simps) (auto simp: d)
  also have "\<dots> = data_loop cx (tps @ [pattern_of t]) (CHR 0x0A # r)"
    by (subst data_loop.simps) (simp add: skipws_solid solid_def)
  also have "\<dots> = data_loop cx (tps @ [pattern_of t]) r"
    by (subst (1 2) data_loop.simps) simp
  also have "\<dots> = Inr ((tps @ [pattern_of t]) @ map pattern_of ts, [])"
    using Cons by (simp add: r_def)
  finally show ?case by (simp add: r_def d_def)
qed

text \<open>The variables of a written triple are blank node labels.\<close>

lemma pattern_vars_back: "list_all (\<lambda>v. strip_prefix bnode_prefix v \<noteq> None) (pattern_vars (map pattern_of ts))"
proof (induction ts)
  case Nil
  show ?case by (simp add: pattern_vars_def List.map_filter_def)
next
  case (Cons t ts)
  then show ?case
    by (cases t) (auto simp: pattern_vars_def List.map_filter_def slots_def pattern_of_def slot_of_def list_all_iff)
qed

lemma prologue_none:
  "skipws s = s \<Longrightarrow> kw ''PREFIX'' s = None \<Longrightarrow> kw ''BASE'' s = None \<Longrightarrow> prologue cx s = Inr (cx, s)"
  by (subst prologue.simps) simp

lemma insert_data_back:
  assumes "list_all ok_triple ts"
  shows "parse (''INSERT DATA {'' @ concat (map nt_triple ts) @ ''}'') =
    Inr (PUpdate \<lparr>up_kind = InsertData, up_triples = map pattern_of ts\<rparr>)"
proof -
  define body where "body = concat (map nt_triple ts) @ ''}''"
  define doc where "doc = ''INSERT'' @ CHR '' '' # ''DATA'' @ CHR '' '' # CHR ''{'' # body"
  define cx where "cx = \<lparr>cx_prefixes = [], cx_base = None :: string option\<rparr>"
  have sk: "skipws doc = doc" by (simp add: doc_def skipws_solid solid_def)
  have none: "kw w doc = None" if "w \<in> {''PREFIX'', ''BASE'', ''SELECT'', ''CONSTRUCT'', ''ASK''}" for w
    using that by (auto simp: doc_def to_lower_def is_upper_def intro!: kw_other)
  have ins: "kw ''INSERT'' doc = Some (CHR '' '' # ''DATA'' @ CHR '' '' # CHR ''{'' # body)"
    unfolding doc_def by (rule kw_same) (simp add: is_name_byte_def is_alnum_def is_upper_def is_lower_def is_digit_def)
  have dat: "kw ''DATA'' (skipws (CHR '' '' # ''DATA'' @ CHR '' '' # CHR ''{'' # body)) = Some (CHR '' '' # CHR ''{'' # body)"
  proof -
    have "skipws (CHR '' '' # ''DATA'' @ CHR '' '' # CHR ''{'' # body) = ''DATA'' @ CHR '' '' # CHR ''{'' # body"
      by (simp add: skipws_solid solid_def)
    moreover have "kw ''DATA'' (''DATA'' @ CHR '' '' # CHR ''{'' # body) = Some (CHR '' '' # CHR ''{'' # body)"
      by (rule kw_same) (simp add: is_name_byte_def is_alnum_def is_upper_def is_lower_def is_digit_def)
    ultimately show ?thesis by simp
  qed
  have blk: "data_block cx (CHR '' '' # CHR ''{'' # body) = Inr (map pattern_of ts, [])"
    using data_loop_back [OF assms, of cx "[]"]
    by (simp add: data_block_def expect_def skipws_solid solid_def body_def cx_def)
  have vars: "\<not> list_ex (\<lambda>v. strip_prefix bnode_prefix v = None) (pattern_vars (map pattern_of ts))"
    using pattern_vars_back [of ts] by (auto simp: list_ex_iff list_all_iff)
  have "insert_update cx (CHR '' '' # ''DATA'' @ CHR '' '' # CHR ''{'' # body) =
    Inr (PUpdate \<lparr>up_kind = InsertData, up_triples = map pattern_of ts\<rparr>)"
    unfolding insert_update_def dat by (simp add: blk vars at_end_def)
  then have "parse_request doc = Inr (PUpdate \<lparr>up_kind = InsertData, up_triples = map pattern_of ts\<rparr>)"
    by (simp add: parse_request_def prologue_none sk none ins Let_def cx_def)
  moreover have "''INSERT DATA {'' @ concat (map nt_triple ts) @ ''}'' = doc"
    by (simp add: doc_def body_def)
  ultimately show ?thesis by (simp add: parse_def)
qed

end
