(* ===== verification/Sparql_Eval.thy ===== *)
theory Sparql_Eval
  imports Sparql_Updates Sparql_Reads
begin

text \<open>
  Evaluation of the parser on concrete text by simplification: the defining equations of the
  cursor, the tokens and the grammar, and weak congruences that keep the simplifier out of the
  branches and continuations that are not reached.
\<close>

lemma rbind_weak_cong: "m = m' \<Longrightarrow> rbind m f = rbind m' f" by simp

lemma let_value:
  "Let (Char b0 b1 b2 b3 b4 b5 b6 b7) f = f (Char b0 b1 b2 b3 b4 b5 b6 b7)"
  "Let [] g = g []" "Let (c # cs) h = h (c # cs)"
  by (simp_all add: Let_def)

lemmas lazy = rbind_weak_cong option.case_cong_weak prod.case_cong_weak let_weak_cong if_weak_cong
  sum.case_cong_weak

lemmas eval_chars = is_name_byte_def is_alnum_def is_alpha_def is_upper_def is_lower_def is_digit_def
  to_lower_def char_of_def [of "numeral k :: nat" for k]

lemmas eval_tokens = peek_def peek_at_def bump_def kw_def take_while_def skipws.simps varname_def
  var_start_def qt_def qt_term_def parse_term_common_def read_iriref_def read_iri_loop.simps
  literal_suffix_def number_start_def read_pname_def local_byte_def read_string_def str_loop.simps
  resolve_iri_def local_name_byte_def read_number_def span_sign_def span_fraction_def
  span_exponent_def path_operator_def escape_char_def

lemmas eval_grammar = parse_request_def prologue.simps prefix_decl_def base_decl_def set_prefix_def
  select_query_def construct_query_def ask_query_def where_pattern_def finish_query_def at_end_def
  query_default_def sel_items.simps plain_item_def opt_kw_def any_kw.simps
  modifiers.simps read_int_def parse_i64_def parse_digits_def digit_val_def is_i64_def
  insert_update_def delete_update_def delete_data_def delete_where_def data_block_def data_loop.simps
  pattern_vars_def slots_def List.map_filter_simps template_loop.simps
  group_def group_default_def group_at.simps group_loop.simps union_loop.simps
  triples_block_def pred_list.simps obj_list.simps skip_semis.simps block_end_def
  or_expr_def or_of_def and_of_def rel_of_def unary_of_def primary.simps operand_term_def rel_op_def
  expect_def expect_var_def chain.simps term_operand_def var_operand_def

lemmas eval_parser = let_value eval_chars eval_tokens eval_grammar

end
