(* ===== verification/Sparql_Compile_Facts.thy ===== *)
theory Sparql_Compile_Facts
  imports Sparql_Compile Sparql_Wf
begin

text \<open>
  What the compiler makes of a well-formed query: it does not panic, it expands unions up to
  its bound, it reads no group nested in an optional, and its text literals close where they
  should.
\<close>

subsection \<open>Unions\<close>

text \<open>The number of conjunctive queries of a group.\<close>

fun alternatives :: "group \<Rightarrow> nat" where
  "alternatives (Group ts fs os us) = prod_list (map (\<lambda>bs. sum_list (map alternatives bs)) us)"

definition capped :: "nat \<Rightarrow> (compile_error, flat list) result \<Rightarrow> bool" where
  "capped n m \<longleftrightarrow> (if n \<le> MAX_FLATS then \<exists>fs. m = Inr fs \<and> length fs = n else m = Inl UnionTooLarge)"

lemma cappedE:
  assumes "capped n m"
  obtains fs where "n \<le> MAX_FLATS" "m = Inr fs" "length fs = n" | "MAX_FLATS < n" "m = Inl UnionTooLarge"
  using assms by (auto simp: capped_def split: if_splits)

lemma expand_capped:
  assumes "\<And>f br. (f, br) \<in> set todo \<Longrightarrow> capped (alt br) (fg br f)" "length acc \<le> MAX_FLATS"
  shows "capped (length acc + sum_list (map (alt \<circ> snd) todo)) (expand fg acc todo)"
  using assms
proof (induction todo arbitrary: acc)
  case Nil
  then show ?case by (simp add: capped_def)
next
  case (Cons p todo)
  obtain f br where p: "p = (f, br)" by (cases p)
  have "capped (alt br) (fg br f)" using Cons.prems(1) p by simp
  then show ?case
  proof (cases rule: cappedE)
    case (1 fs)
    show ?thesis
    proof (cases "length (acc @ fs) \<le> MAX_FLATS")
      case True
      with Cons.IH [of "acc @ fs"] Cons.prems(1) 1 show ?thesis by (simp add: p add.assoc)
    qed (use 1 in \<open>simp add: p capped_def\<close>)
  qed (simp add: p capped_def)
qed

lemma sum_pairs: "sum_list (map (alt \<circ> snd) (concat (map (\<lambda>f. map (Pair f) brs) fs))) = length fs * sum_list (map alt brs)"
  by (induction fs) (simp_all add: comp_def)

lemma prod_list_pos: "\<forall>n \<in> set ns. 0 < (n :: nat) \<Longrightarrow> 1 \<le> prod_list ns"
  by (induction ns) (auto simp: Suc_le_eq)

lemma expand_all_capped:
  assumes "\<And>brs br f. brs \<in> set us \<Longrightarrow> br \<in> set brs \<Longrightarrow> capped (alt br) (fg br f)"
    "\<And>brs. brs \<in> set us \<Longrightarrow> 0 < sum_list (map alt brs)" "length fs \<le> MAX_FLATS"
  shows "capped (length fs * prod_list (map (\<lambda>bs. sum_list (map alt bs)) us)) (expand_all fg fs us)"
  using assms
proof (induction us arbitrary: fs)
  case Nil
  then show ?case by (simp add: capped_def)
next
  case (Cons brs us)
  let ?S = "sum_list (map alt brs)" and ?P = "prod_list (map (\<lambda>bs. sum_list (map alt bs)) us)"
  have "capped (length fs * ?S) (expand fg [] (concat (map (\<lambda>f. map (Pair f) brs) fs)))"
    using expand_capped [of "concat (map (\<lambda>f. map (Pair f) brs) fs)" alt fg "[]"] Cons.prems(1) [of brs]
    by (auto simp: sum_pairs)
  then show ?case
  proof (cases rule: cappedE)
    case (1 fs')
    have "capped (length fs' * ?P) (expand_all fg fs' us)"
      by (rule Cons.IH) (use Cons.prems(1,2) 1 in auto)
    with 1 show ?thesis by (simp add: mult.assoc)
  next
    case 2
    have "1 \<le> ?P" by (rule prod_list_pos) (use Cons.prems(2) in auto)
    then have "length fs * ?S \<le> length fs * (?S * ?P)" by simp
    with 2(1) have "MAX_FLATS < length fs * (?S * ?P)" by linarith
    with 2(2) show ?thesis by (simp add: capped_def)
  qed
qed

lemma alternatives_pos: "group_ok g \<Longrightarrow> 1 \<le> alternatives g"
proof (induction g rule: alternatives.induct)
  case (1 ts fs os us)
  have "0 < sum_list (map alternatives bs)" if "bs \<in> set us" for bs
  proof -
    have "bs \<noteq> []" "list_all group_ok bs" using that "1.prems" by (simp_all add: list_all_iff)
    moreover from this have "1 \<le> alternatives (hd bs)" using "1.IH" [OF that, of "hd bs"] by (simp add: list_all_iff)
    ultimately show ?thesis by (cases bs) simp_all
  qed
  then have "1 \<le> prod_list (map (\<lambda>bs. sum_list (map alternatives bs)) us)"
    by (intro prod_list_pos) auto
  then show ?case by simp
qed

lemma flatten_capped: "group_ok g \<Longrightarrow> capped (alternatives g) (flatten_group g f)"
proof (induction g f rule: flatten_group.induct)
  case (1 ts fs os us f)
  have ok: "bs \<noteq> []" "\<And>br. br \<in> set bs \<Longrightarrow> group_ok br" if "bs \<in> set us" for bs
    using "1.prems" that by (auto simp: list_all_iff)
  have pos: "0 < sum_list (map alternatives bs)" if "bs \<in> set us" for bs
    using alternatives_pos [OF ok(2) [OF that, of "hd bs"]] ok(1) [OF that] by (cases bs) simp_all
  have "capped (length [add_group (Group ts fs os us) f] * prod_list (map (\<lambda>bs. sum_list (map alternatives bs)) us))
      (expand_all flatten_group [add_group (Group ts fs os us) f] us)"
    by (rule expand_all_capped) (use "1.IH" ok pos in \<open>auto simp: MAX_FLATS_def\<close>)
  then show ?case by simp
qed

subsection \<open>Groups inside optional groups\<close>

text \<open>A group without what its optional groups nest.\<close>

definition bare :: "group \<Rightarrow> group" where
  "bare g = Group (gr_triples g) (gr_filters g) [] []"

fun strip_group :: "group \<Rightarrow> group" where
  "strip_group (Group ts fs os us) = Group ts fs (map bare os) (map (map strip_group) us)"

definition strip_flat :: "flat \<Rightarrow> flat" where
  "strip_flat f = f\<lparr>fl_opts := map bare (fl_opts f)\<rparr>"

definition map_flats :: "(compile_error, flat list) result \<Rightarrow> (compile_error, flat list) result" where
  "map_flats m = rbind m (\<lambda>fs. Inr (map strip_flat fs))"

lemma map_flats_simps [simp]: "map_flats (Inl e) = Inl e" "map_flats (Inr fs) = Inr (map strip_flat fs)"
  by (simp_all add: map_flats_def)

lemma expand_strip:
  assumes "\<And>f br. (f, br) \<in> set todo \<Longrightarrow> fg (h br) (strip_flat f) = map_flats (fg br f)"
  shows "expand fg (map strip_flat acc) (map (\<lambda>(f, br). (strip_flat f, h br)) todo) = map_flats (expand fg acc todo)"
  using assms
proof (induction todo arbitrary: acc)
  case (Cons p todo)
  obtain f br where p: "p = (f, br)" by (cases p)
  have fg: "fg (h br) (strip_flat f) = map_flats (fg br f)" using Cons.prems p by simp
  show ?case
  proof (cases "fg br f")
    case (Inr fs)
    with Cons.IH [of "acc @ fs"] Cons.prems fg show ?thesis by (simp add: p)
  qed (simp add: p fg)
qed simp

lemma expand_all_strip:
  assumes "\<And>brs br f. brs \<in> set us \<Longrightarrow> br \<in> set brs \<Longrightarrow> fg (h br) (strip_flat f) = map_flats (fg br f)"
  shows "expand_all fg (map strip_flat fs) (map (map h) us) = map_flats (expand_all fg fs us)"
  using assms
proof (induction us arbitrary: fs)
  case (Cons brs us)
  let ?todo = "concat (map (\<lambda>f. map (Pair f) brs) fs)"
  have todo: "concat (map (\<lambda>f. map (Pair f) (map h brs)) (map strip_flat fs)) = map (\<lambda>(f, br). (strip_flat f, h br)) ?todo"
    by (simp add: map_concat comp_def)
  have "expand fg (map strip_flat []) (map (\<lambda>(f, br). (strip_flat f, h br)) ?todo) = map_flats (expand fg [] ?todo)"
    by (rule expand_strip) (use Cons.prems in auto)
  then have e: "expand fg [] (concat (map (\<lambda>f. map (Pair f) (map h brs)) (map strip_flat fs))) = map_flats (expand fg [] ?todo)"
    by (simp only: todo list.map)
  show ?case
  proof (cases "expand fg [] ?todo")
    case (Inl x)
    then show ?thesis using e by simp
  next
    case (Inr fs')
    have "expand_all fg (map strip_flat fs') (map (map h) us) = map_flats (expand_all fg fs' us)"
      by (rule Cons.IH) (use Cons.prems in auto)
    with Inr e show ?thesis by simp
  qed
qed simp

lemma flatten_strip: "flatten_group (strip_group g) (strip_flat f) = map_flats (flatten_group g f)"
proof (induction g f rule: flatten_group.induct)
  case (1 ts fs os us f)
  have a: "add_group (strip_group (Group ts fs os us)) (strip_flat f) = strip_flat (add_group (Group ts fs os us) f)"
    by (simp add: add_group_def strip_flat_def)
  show ?case
    using expand_all_strip [of us flatten_group strip_group "[add_group (Group ts fs os us) f]"] "1.IH" a by simp
qed

lemma compile_optional_bare: "compile_optional ids gi (bare og) st = compile_optional ids gi og st"
  by (simp add: compile_optional_def bare_def split: prod.splits)

lemma compile_optionals_bare: "compile_optionals ids gi (map bare ogs) st = compile_optionals ids gi ogs st"
proof (induction ogs arbitrary: gi st)
  case (Cons og ogs)
  then show ?case by (cases "compile_optional ids gi og st") (simp_all add: compile_optional_bare)
qed simp

lemma compile_flat_strip: "compile_flat ids (strip_flat f) proj = compile_flat ids f proj"
  by (simp add: compile_flat_def strip_flat_def compile_optionals_bare split: prod.splits)

lemma collect_strip: "flat_collect_vars (strip_flat f) out = flat_collect_vars f out"
  by (simp add: flat_collect_vars_def strip_flat_def foldl_map bare_def)

lemma mapM_strip: "mapM (\<lambda>fl. compile_flat ids fl inner) (map strip_flat fs) = mapM (\<lambda>fl. compile_flat ids fl inner) fs"
  by (induction fs) (simp_all add: compile_flat_strip)

text \<open>The compiler does not see what an optional group nests.\<close>

lemma compile_strip: "compile_query (q\<lparr>q_pattern := strip_group (q_pattern q)\<rparr>) ids = compile_query q ids"
proof -
  define q' where "q' = q\<lparr>q_pattern := strip_group (q_pattern q)\<rparr>"
  have vis: "visible q' (map strip_flat fs) = visible q fs" for fs
    by (simp add: q'_def visible_def agg_mode_def foldl_map collect_strip cong: form.case_cong)
  have flat: "flatten_group (q_pattern q') flat_default = map_flats (flatten_group (q_pattern q) flat_default)"
    using flatten_strip [of "q_pattern q" flat_default] by (simp add: q'_def strip_flat_def flat_default_def)
  have rest: "inner_names q' v = inner_names q v" "agg_mode q' = agg_mode q"
    "agg_core q' v i s = agg_core q v i s" "limit_clause q' = limit_clause q" "q_form q' = q_form q" for v i s
    by (simp_all add: q'_def inner_names_def agg_mode_def agg_core_def limit_clause_def)
  have ord: "plain_order q' v i ks ord = plain_order q v i ks ord" for v i ks ord
    by (induction ks arbitrary: ord) (simp_all add: q'_def split: option.splits)
  have core: "plain_core q' v i s = plain_core q v i s" for v i s
    by (simp add: plain_core_def ord) (simp add: q'_def)
  have "compile_query q' ids = compile_query q ids"
  proof (cases "flatten_group (q_pattern q) flat_default")
    case (Inr fs)
    then show ?thesis by (simp add: compile_query_def flat vis rest core mapM_strip cong: if_cong)
  qed (simp add: compile_query_def flat)
  then show ?thesis by (simp add: q'_def)
qed

subsection \<open>No panic\<close>

definition calm :: "(compile_error, 'a) result \<Rightarrow> bool" where
  "calm m \<longleftrightarrow> m \<noteq> Inl GroundValPanic"

lemma calm_simps [simp]: "calm (Inr x)" "calm (Inl e) \<longleftrightarrow> e \<noteq> GroundValPanic"
  by (auto simp: calm_def)

lemma calm_rbind: "calm m \<Longrightarrow> (\<And>x. m = Inr x \<Longrightarrow> calm (f x)) \<Longrightarrow> calm (rbind m f)"
  by (cases m) (auto simp: calm_def)

lemma calm_value: "val_ok v \<Longrightarrow> calm (compile_value v vs num low)"
  by (auto simp: compile_value_def val_ok_def split: option.splits)

lemma calm_cmp: "val_ok a \<Longrightarrow> val_ok b \<Longrightarrow> calm (compile_cmp op a b vs)"
  by (auto simp: compile_cmp_def Let_def split: option.splits intro!: calm_rbind calm_value)

lemma calm_operand: "expr_ok e \<Longrightarrow> calm (compile_operand e vs)"
  by (cases e) (auto simp: compile_operand_def intro: calm_value)

lemma calm_expr: "expr_ok e \<Longrightarrow> calm (compile_expr e vs)"
proof (induction e vs rule: compile_expr.induct)
  case (6 op a b vs)
  then show ?case by (cases a; cases b) (auto intro: calm_cmp)
qed (auto intro!: calm_rbind calm_operand split: option.splits)

lemma calm_filters: "list_all expr_ok fs \<Longrightarrow> calm (add_filters fs vs w)"
  by (induction fs arbitrary: w) (auto intro!: calm_rbind calm_expr)

definition flat_ok :: "flat \<Rightarrow> bool" where
  "flat_ok f \<longleftrightarrow> list_all expr_ok (fl_filts f) \<and> list_all group_ok (fl_opts f)"

lemma add_group_ok: "group_ok g \<Longrightarrow> flat_ok f \<Longrightarrow> flat_ok (add_group g f)"
  by (cases g) (simp add: flat_ok_def add_group_def)

lemma expand_flat_ok:
  assumes "\<And>f br fs. (f, br) \<in> set todo \<Longrightarrow> fg br f = Inr fs \<Longrightarrow> list_all flat_ok fs"
    "list_all flat_ok acc" "expand fg acc todo = Inr fs"
  shows "list_all flat_ok fs"
  using assms
proof (induction todo arbitrary: acc)
  case (Cons p todo)
  obtain f br where p: "p = (f, br)" by (cases p)
  then obtain fs' where fs': "fg br f = Inr fs'" "expand fg (acc @ fs') todo = Inr fs"
    using Cons.prems(3) by (auto simp: rbind_Inr_iff split: if_splits)
  have "list_all flat_ok (acc @ fs')" using Cons.prems(1) [of f br fs'] Cons.prems(2) fs'(1) p by simp
  from Cons.IH [OF _ this fs'(2)] Cons.prems(1) show ?case by auto
qed simp

lemma expand_all_flat_ok:
  assumes "\<And>brs br f fs. brs \<in> set us \<Longrightarrow> br \<in> set brs \<Longrightarrow> flat_ok f \<Longrightarrow> fg br f = Inr fs \<Longrightarrow> list_all flat_ok fs"
    "list_all flat_ok acc" "expand_all fg acc us = Inr fs"
  shows "list_all flat_ok fs"
  using assms
proof (induction us arbitrary: acc)
  case (Cons brs us)
  let ?todo = "concat (map (\<lambda>f. map (Pair f) brs) acc)"
  obtain fs' where fs': "expand fg [] ?todo = Inr fs'" "expand_all fg fs' us = Inr fs"
    using Cons.prems(3) by (auto simp: rbind_Inr_iff)
  have "list_all flat_ok fs'"
  proof (rule expand_flat_ok [OF _ _ fs'(1)])
    fix f br gs assume a: "(f, br) \<in> set ?todo" "fg br f = Inr gs"
    then have "br \<in> set brs" "flat_ok f" using Cons.prems(2) by (auto simp: list_all_iff)
    then show "list_all flat_ok gs" using Cons.prems(1) [of brs br f gs] a(2) by simp
  qed simp
  from Cons.IH [OF _ this fs'(2)] Cons.prems(1) show ?case by auto
qed simp

lemma flatten_ok: "group_ok g \<Longrightarrow> flat_ok f \<Longrightarrow> flatten_group g f = Inr fs \<Longrightarrow> list_all flat_ok fs"
proof (induction g f arbitrary: fs rule: flatten_group.induct)
  case (1 ts gs os us f)
  have e: "expand_all flatten_group [add_group (Group ts gs os us) f] us = Inr fs" using "1.prems"(3) by simp
  have ok: "group_ok br" if "bs \<in> set us" "br \<in> set bs" for bs br
    using "1.prems"(1) that by (auto simp: list_all_iff)
  show ?case
    by (rule expand_all_flat_ok [OF _ _ e]) (use "1.IH" ok add_group_ok [OF "1.prems"(1,2)] in auto)
qed

lemma calm_optional: "group_ok og \<Longrightarrow> calm (compile_optional ids gi og st)"
  by (cases og) (auto simp: compile_optional_def Let_def split: prod.splits intro!: calm_rbind calm_filters)

lemma calm_optionals: "list_all group_ok ogs \<Longrightarrow> calm (compile_optionals ids gi ogs st)"
  by (induction ogs arbitrary: gi st) (auto intro!: calm_rbind calm_optional)

lemma calm_flat: "flat_ok f \<Longrightarrow> calm (compile_flat ids f proj)"
  by (auto simp: compile_flat_def flat_ok_def Let_def split: prod.splits
      intro!: calm_rbind calm_optionals calm_filters)

lemma calm_mapM: "(\<And>x. x \<in> set xs \<Longrightarrow> calm (f x)) \<Longrightarrow> calm (mapM f xs)"
  by (induction xs) (auto intro!: calm_rbind)

lemma calm_flatten: "group_ok g \<Longrightarrow> calm (flatten_group g f)"
  by (rule cappedE [OF flatten_capped [of g f]]) (auto simp: calm_def)

lemma calm_visible: "calm (visible q fs)"
proof -
  have "calm (grouped_names gs its)" for gs its
    by (induction its) (auto simp: Let_def intro!: calm_rbind)
  then show ?thesis by (auto simp: visible_def Let_def split: form.splits)
qed

lemma calm_plain: "calm (plain_core q vis inner sub)"
proof -
  have "calm (plain_order q vis inner ks ord)" for ks ord
    by (induction ks arbitrary: ord) (auto split: option.splits)
  then show ?thesis by (auto simp: plain_core_def Let_def intro!: calm_rbind)
qed

lemma calm_query: "query_ok q \<Longrightarrow> calm (compile_query q ids)"
proof -
  assume q: "query_ok q"
  have ok: "list_all flat_ok fs" if "flatten_group (q_pattern q) flat_default = Inr fs" for fs
    using flatten_ok [OF _ _ that] q by (simp add: query_ok_def flat_ok_def flat_default_def)
  have m: "calm (mapM (\<lambda>fl. compile_flat ids fl inner) fs)"
    if "flatten_group (q_pattern q) flat_default = Inr fs" for fs inner
    using ok [OF that] by (intro calm_mapM calm_flat) (simp add: list_all_iff)
  show ?thesis
    unfolding compile_query_def Let_def
    using q by (auto intro!: calm_rbind calm_flatten calm_visible calm_plain m simp: query_ok_def split: prod.splits)
qed

subsection \<open>Text literals\<close>

text \<open>A text literal of SQL after its opening quote: its value and what follows it. A doubled
  quote stands for one.\<close>

fun scan_literal :: "string \<Rightarrow> (string \<times> string) option" where
  "scan_literal [] = None"
| "scan_literal (c # s) =
     (if c \<noteq> SQ then map_option (apfst (Cons c)) (scan_literal s)
      else case s of
        d # s' \<Rightarrow> if d = SQ then map_option (apfst (Cons SQ)) (scan_literal s') else Some ([], s)
      | [] \<Rightarrow> Some ([], []))"

lemma scan_quoted:
  assumes "rest = [] \<or> hd rest \<noteq> SQ"
  shows "scan_literal (concat (map (\<lambda>c. if c = SQ then [SQ, SQ] else [c]) s) @ SQ # rest) = Some (s, rest)"
  using assms by (induction s) (auto split: list.splits)

end
