(* ===== verification/Sparql_Properties.thy ===== *)
theory Sparql_Properties
  imports Sparql_Dictionary Sparql_Loads Sparql_Eval Sparql_Compile_Facts "HOL-Library.Multiset"
begin

text \<open>
  The properties of the SPARQL engine: the parser on every text, updates on the stored graph,
  documents written by the serializer and read back, and the SQL text the compiler makes.
\<close>

subsection \<open>Parsing\<close>

text \<open>C39. The parser always comes to an answer: nested groups and expressions never use up the fuel
  that the recursive descent is given, and what parses satisfies the invariants of the syntax
  tree (blank nodes are variables, literals are objects only, comparisons have operands,
  aggregates have a variable or a star, limits are in range, prefixes are distinct).\<close>

theorem parser_always_answers:
  "parse_request s \<noteq> Inl OutOfFuel \<and> (case parse s of Inr p \<Rightarrow> parsed_ok p | Inl e \<Rightarrow> True)"
  using parse_fueled [of s] parse_request_ok [of s]
  by (auto simp: parse_def split: sum.splits perr.splits)

lemma parse_update_ok: "parse s = Inr (PUpdate u) \<Longrightarrow> update_ok u"
  using parse_request_ok [of s "PUpdate u"] by (auto simp: parse_def split: sum.splits perr.splits)

subsection \<open>Updates\<close>

text \<open>A store with one triple, for the witnesses.\<close>

definition tiny_triple :: triple where
  "tiny_triple = (term_iri ''s'', term_iri ''p'', term_lit ''o'')"

definition tiny_store :: rdf_store where
  "tiny_store = snd (store_triple tiny_triple empty_store)"

definition no_rows :: runner where
  "no_rows k st sql = (Inr [], st)"

lemma empty_labels_ok: "labels_ok empty_store"
  by (simp add: labels_ok_def empty_store_def term_at_def)

lemma tiny_store_ok: "store_ok tiny_store" "labels_ok tiny_store" "graph tiny_store = {tiny_triple}"
proof -
  have tiny: "tiny_store = \<lparr>rs_terms = [(1, term_iri ''s''), (2, term_iri ''p''), (3, term_lit ''o'')],
      rs_triples = [(1, 2, 3)]\<rparr>"
    by code_simp
  show "store_ok tiny_store" "labels_ok tiny_store" "graph tiny_store = {tiny_triple}"
    by (auto simp: tiny store_ok_def labels_ok_def graph_def dump_triples_def List.map_filter_def term_at_def
        tiny_triple_def term_iri_def term_lit_def split: if_splits)
qed

text \<open>A written document of one triple in an \<open>INSERT DATA\<close> request.\<close>

lemma tiny_parse:
  "parse (''INSERT DATA {'' @ serialize_ntriples [tiny_triple] @ ''}'') =
     Inr (PUpdate \<lparr>up_kind = InsertData, up_triples = [pattern_of tiny_triple]\<rparr>)"
proof -
  have "list_all ok_triple [tiny_triple]"
    by (simp add: ok_triple_def tiny_triple_def ok_term_def ok_iri_def term_iri_def term_lit_def)
  from insert_data_back [OF this] show ?thesis by (simp add: serialize_ntriples_def sort_triples_def)
qed

text \<open>C40. Interning always gives an identifier that is not zero and that the lookup finds again; the
  identifiers given before stay as they are; no two terms share one; interning the same term
  again gives the same one.\<close>

theorem identifiers_are_stable:
  assumes "store_ok st" "intern_term t st = (res, st')"
  shows "res = Inr (lookup_term_id st' t) \<and> lookup_term_id st' t \<noteq> 0
    \<and> (\<forall>u. lookup_term_id st u \<noteq> 0 \<longrightarrow> lookup_term_id st' u = lookup_term_id st u)
    \<and> (\<forall>u. lookup_term_id st' u = lookup_term_id st' t \<longrightarrow> u = t)
    \<and> fst (intern_term t st') = res"
proof -
  from store_dictionary.intern_total [OF assms(1), of t] assms(2) obtain i where
    i: "res = Inr i" "store_ok st'" "lookup_term_id st' t = i" "i \<noteq> 0"
      "\<forall>u. lookup_term_id st u \<noteq> 0 \<longrightarrow> lookup_term_id st' u = lookup_term_id st u"
    by auto
  have "fst (intern_term t st') = res"
    using store_dictionary.intern_again [OF assms(1), of t i st'] assms(2) i(1) by simp
  moreover have "\<forall>u. lookup_term_id st' u = i \<longrightarrow> u = t"
    using store_dictionary.ident_injective [OF i(2)] i(3,4) by metis
  ultimately show ?thesis unfolding i(3) using i(1,4,5) by blast
qed

theorem identifiers_are_stable_witness:
  "fst (intern_term (term_lit ''o'') (snd (intern_term (term_lit ''o'') tiny_store)))
    = fst (intern_term (term_lit ''o'') tiny_store)"
  using identifiers_are_stable [OF tiny_store_ok(1), of "term_lit ''o''"]
  by (cases "intern_term (term_lit ''o'') tiny_store") simp

text \<open>C37. INSERT DATA never fails on a parsed request: the graph becomes the union of the old graph
  and the triples of the request, blank nodes renamed; different labels get different nodes
  and no node of the request is a node that the store had; the count it returns is the number
  of triples that were not there before.\<close>

theorem insert_adds_renamed_triples:
  assumes "store_ok st" "labels_ok st" "parse s = Inr (PUpdate u)" "up_kind u = InsertData"
  shows "\<exists>n st' \<sigma>. update_text run s st = (Inr n, st')
    \<and> graph st' = graph st \<union> pattern_subst \<sigma> ` set (up_triples u)
    \<and> int (card (graph st')) = int (card (graph st)) + n
    \<and> inj_on \<sigma> (data_labels (up_triples u))
    \<and> (\<forall>l \<in> data_labels (up_triples u). node_label_unused st (\<sigma> l))"
  using insert_update_ok [OF assms(1,2) parse_update_ok [OF assms(3)] assms(4), of run] assms(3)
  by (elim exE conjE, intro exI conjI) (assumption | simp add: update_text_def)+

theorem insert_adds_renamed_triples_witness:
  "\<exists>n st'. update_text no_rows (''INSERT DATA {'' @ serialize_ntriples [tiny_triple] @ ''}'') tiny_store = (Inr n, st')"
  using insert_adds_renamed_triples [OF tiny_store_ok(1,2) tiny_parse, of no_rows] by auto

text \<open>DELETE DATA never fails on a parsed request: the graph loses exactly the triples of the
  request, the count is the number of triples it lost, and the dictionary keeps its rows.\<close>

theorem delete_removes_exactly:
  assumes "store_ok st" "parse s = Inr (PUpdate u)" "up_kind u = DeleteData"
  shows "\<exists>st'. update_text run s st = (Inr (int (card (graph st)) - int (card (graph st'))), st')
    \<and> graph st' = graph st - {t. pattern_of t \<in> set (up_triples u)} \<and> rs_terms st' = rs_terms st"
proof -
  note u = parse_update_ok [OF assms(2)]
  have e: "pattern_subst (\<lambda>l. l) ` set (up_triples u) = {t. pattern_of t \<in> set (up_triples u)}"
  proof (intro set_eqI iffI)
    fix t assume "t \<in> pattern_subst (\<lambda>l. l) ` set (up_triples u)"
    then obtain tp where tp: "tp \<in> set (up_triples u)" "t = pattern_subst (\<lambda>l. l) tp" by blast
    obtain a b c where g: "tp_s tp = Ground a" "tp_p tp = Ground b" "tp_o tp = Ground c"
      using delete_data_slots [OF u assms(3) tp(1)] by blast
    have "tm_kind x \<noteq> K_BNODE" if "slot_ok pos (Ground x)" for pos x using that by auto
    then have "slot_of a = Ground a" "slot_of b = Ground b" "slot_of c = Ground c"
      using u tp(1) g unfolding update_ok_def list_all_iff tp_ok_def slot_of_def by (metis (full_types))+
    then have "pattern_of t = tp" by (simp add: tp(2) pattern_of_def pattern_subst_def slot_subst_def g)
    then show "t \<in> {t. pattern_of t \<in> set (up_triples u)}" using tp(1) by simp
  next
    fix t assume "t \<in> {t. pattern_of t \<in> set (up_triples u)}"
    then have t: "pattern_of t \<in> set (up_triples u)" by simp
    obtain a b c where t3: "t = (a, b, c)" by (cases t)
    obtain x y z where g: "slot_of a = Ground x" "slot_of b = Ground y" "slot_of c = Ground z"
      using delete_data_slots [OF u assms(3) t] by (auto simp: t3 pattern_of_def)
    then have "x = a" "y = b" "z = c" by (auto simp: slot_of_def split: if_splits)
    then have "pattern_subst (\<lambda>l. l) (pattern_of t) = t"
      using g by (simp add: pattern_subst_def slot_subst_def pattern_of_def t3)
    then show "t \<in> pattern_subst (\<lambda>l. l) ` set (up_triples u)" using t by force
  qed
  obtain st' where d: "run_update run u st = (Inr (int (card (graph st)) - int (card (graph st'))), st')"
    "rs_terms st' = rs_terms st" "graph st' = graph st - pattern_subst (\<lambda>l. l) ` set (up_triples u)"
    using delete_update_ok [OF assms(1) u assms(3), of run "\<lambda>l. l"] by blast
  have "update_text run s st = (Inr (int (card (graph st)) - int (card (graph st'))), st')"
    using d(1) by (simp only: update_text_def assms(2) sum.case parsed.case)
  with d(2,3) show ?thesis unfolding e by blast
qed

text \<open>Two requests that the parser reads.\<close>

definition delete_tiny :: string where
  "delete_tiny = ''DELETE DATA { <s> <p> '' @ [CHR 0x22] @ ''o'' @ [CHR 0x22] @ '' }''"

lemma parse_delete_tiny: "parse delete_tiny =
    Inr (PUpdate \<lparr>up_kind = DeleteData, up_triples = [pattern_of tiny_triple]\<rparr>)"
proof -
  have "parse_request delete_tiny =
      Inr (PUpdate \<lparr>up_kind = DeleteData, up_triples = [pattern_of tiny_triple]\<rparr>)"
    by (simp add: delete_tiny_def pattern_of_def tiny_triple_def slot_of_def eval_parser cong: lazy)
  then show ?thesis by (simp add: parse_def)
qed

theorem delete_removes_exactly_witness:
  "\<exists>st'. graph st' = {} \<and> snd (update_text no_rows delete_tiny tiny_store) = st'"
proof -
  have "{t. pattern_of t = pattern_of tiny_triple} = {tiny_triple}"
    by (auto simp: pattern_of_def slot_of_def tiny_triple_def split: if_splits)
  then show ?thesis
    using delete_removes_exactly [OF tiny_store_ok(1) parse_delete_tiny, of no_rows]
    by (auto simp: tiny_store_ok(3) Collect_conv_if)
qed

text \<open>A Turtle load, even one that stops at an error in the document, keeps the invariants and
  every triple of the store; it counts the triples that it adds, and none of them touches a
  blank node that the store had: the same document loaded again gets nodes of its own.\<close>

theorem loads_make_new_nodes:
  assumes "store_ok st" "labels_ok st" "load_turtle items st = (res, st')"
  shows "store_ok st' \<and> labels_ok st' \<and> graph st \<subseteq> graph st'
    \<and> (\<forall>n. res = Inr n \<longrightarrow> int (card (graph st')) = int (card (graph st)) + n)
    \<and> (\<forall>t \<in> graph st' - graph st. \<forall>u \<in> triple_terms t. tm_kind u = K_BNODE \<longrightarrow> node_label_unused st (tm_lex u))"
  using load_turtle_ok [OF assms] .

theorem loads_make_new_nodes_witness:
  "{tiny_triple} \<subseteq> graph (snd (load_turtle (Inr [Inr (BlankNode ''b'', ''p'', NodeObject (BlankNode ''b''))]) tiny_store))"
  using loads_make_new_nodes [OF tiny_store_ok(1,2), of "Inr [Inr (BlankNode ''b'', ''p'', NodeObject (BlankNode ''b''))]"]
    tiny_store_ok(3)
  by (metis prod.collapse)

subsection \<open>Documents\<close>

text \<open>A term under a renaming of blank nodes.\<close>

definition rename_term :: "(string \<Rightarrow> string) \<Rightarrow> rdf_term \<Rightarrow> rdf_term" where
  "rename_term \<sigma> t = (if tm_kind t = K_BNODE then term_bnode (\<sigma> (tm_lex t)) else t)"

definition rename_triple :: "(string \<Rightarrow> string) \<Rightarrow> triple \<Rightarrow> triple" where
  "rename_triple \<sigma> t = (case t of (s, p, ob) \<Rightarrow> (rename_term \<sigma> s, rename_term \<sigma> p, rename_term \<sigma> ob))"

lemma slot_of_subst: "slot_subst \<sigma> (slot_of t) = rename_term \<sigma> t"
  by (simp add: slot_subst_def slot_of_def rename_term_def)

lemma pattern_of_subst: "pattern_subst \<sigma> (pattern_of t) = rename_triple \<sigma> t"
  by (cases t) (simp add: pattern_subst_def pattern_of_def rename_triple_def slot_of_subst)

lemma slot_of_label: "slot_label (slot_of t) = (if tm_kind t = K_BNODE then {tm_lex t} else {})"
  by (simp add: slot_label_def slot_of_def)

lemma rename_term_inj:
  assumes "ok_term t" "ok_term u" "inj_on \<sigma> L" "slot_label (slot_of t) \<subseteq> L" "slot_label (slot_of u) \<subseteq> L"
    "rename_term \<sigma> t = rename_term \<sigma> u"
  shows "t = u"
proof (cases "tm_kind t = K_BNODE")
  case True
  then have u: "tm_kind u = K_BNODE" using assms(6) by (auto simp: rename_term_def split: if_splits)
  with True have "\<sigma> (tm_lex t) = \<sigma> (tm_lex u)" using assms(6) by (simp add: rename_term_def term_bnode_def)
  then have "tm_lex t = tm_lex u" using assms(3-5) True u by (auto simp: slot_of_label dest: inj_onD)
  with True u assms(1,2) show ?thesis by (cases t; cases u) (auto simp: ok_term_def)
next
  case False
  then have "tm_kind u \<noteq> K_BNODE" using assms(6) by (auto simp: rename_term_def split: if_splits)
  with False assms(6) show ?thesis by (simp add: rename_term_def)
qed

lemma rename_triple_inj:
  assumes "list_all ok_triple ts" "inj_on \<sigma> (data_labels (map pattern_of ts))"
  shows "inj_on (rename_triple \<sigma>) (set ts)"
proof (rule inj_onI)
  fix t u assume tu: "t \<in> set ts" "u \<in> set ts" "rename_triple \<sigma> t = rename_triple \<sigma> u"
  obtain a b c x y z where e: "t = (a, b, c)" "u = (x, y, z)" by (cases t; cases u) auto
  have ok: "ok_term a" "ok_term b" "ok_term c" "ok_term x" "ok_term y" "ok_term z"
    using assms(1) tu(1,2) by (auto simp: list_all_iff ok_triple_def e)
  have "pattern_labels (pattern_of v) \<subseteq> data_labels (map pattern_of ts)" if "v \<in> set ts" for v
    using that by (auto simp: data_labels_def)
  from this [OF tu(1)] this [OF tu(2)] have l: "slot_label (slot_of v) \<subseteq> data_labels (map pattern_of ts)"
    if "v \<in> {a, b, c, x, y, z}" for v
    using that by (auto simp: e pattern_labels_def pattern_of_def)
  have "rename_term \<sigma> a = rename_term \<sigma> x" "rename_term \<sigma> b = rename_term \<sigma> y" "rename_term \<sigma> c = rename_term \<sigma> z"
    using tu(3) by (simp_all add: e rename_triple_def)
  then have "a = x" "b = y" "c = z"
    using rename_term_inj [OF ok(1,4) assms(2) l l] rename_term_inj [OF ok(2,5) assms(2) l l]
      rename_term_inj [OF ok(3,6) assms(2) l l] by simp_all
  then show "t = u" by (simp add: e)
qed

text \<open>C38. The N-Triples text of a list of triples, sent back in an \<open>INSERT DATA\<close> request to an empty
  store, restores the graph up to an injective renaming of its blank nodes, and the count is
  the number of different triples. The terms have no closing angle bracket or backslash in an
  IRI, and labels and language tags of the bytes that the parser reads.\<close>

theorem written_graph_loads_back:
  assumes "list_all ok_triple ts"
  shows "\<exists>st' \<sigma>. update_text run (''INSERT DATA {'' @ serialize_ntriples ts @ ''}'') empty_store
      = (Inr (int (card (set ts))), st')
    \<and> graph st' = rename_triple \<sigma> ` set ts \<and> inj_on (rename_triple \<sigma>) (set ts)"
proof -
  define us where "us = sort_triples ts"
  have us: "list_all ok_triple us" "set us = set ts"
    using assms by (simp_all add: us_def sort_triples_def list_all_iff)
  define u where "u = \<lparr>up_kind = InsertData, up_triples = map pattern_of us\<rparr>"
  have p: "parse (''INSERT DATA {'' @ serialize_ntriples ts @ ''}'') = Inr (PUpdate u)"
    using insert_data_back [OF us(1)] by (simp add: serialize_ntriples_def us_def [symmetric] u_def)
  have "store_ok empty_store" using empty_store_ok by simp
  from insert_update_ok [OF this empty_labels_ok parse_update_ok [OF p], of run]
  obtain n st' \<sigma> where r: "run_update run u empty_store = (Inr n, st')"
    "graph st' = graph empty_store \<union> pattern_subst \<sigma> ` set (up_triples u)"
    "int (card (graph st')) = int (card (graph empty_store)) + n" "inj_on \<sigma> (data_labels (up_triples u))"
    by (auto simp: u_def)
  have g: "graph st' = rename_triple \<sigma> ` set ts"
    using r(2) us(2) by (simp add: u_def empty_store_ok(2) image_image pattern_of_subst)
  have inj: "inj_on (rename_triple \<sigma>) (set ts)"
    using rename_triple_inj [OF us(1), of \<sigma>] r(4) us(2) by (simp add: u_def)
  have "n = int (card (set ts))"
    using r(3) g card_image [OF inj] by (simp add: empty_store_ok(2))
  moreover have "update_text run (''INSERT DATA {'' @ serialize_ntriples ts @ ''}'') empty_store = run_update run u empty_store"
    unfolding update_text_def p by simp
  ultimately have "update_text run (''INSERT DATA {'' @ serialize_ntriples ts @ ''}'') empty_store
      = (Inr (int (card (set ts))), st')"
    using r(1) by (simp only:)
  with g inj show ?thesis by blast
qed

theorem written_graph_loads_back_witness:
  "\<exists>st'. update_text no_rows (''INSERT DATA {'' @ serialize_ntriples [tiny_triple, tiny_triple] @ ''}'') empty_store
     = (Inr 1, st')"
proof -
  have "list_all ok_triple [tiny_triple, tiny_triple]"
    by (simp add: ok_triple_def tiny_triple_def ok_term_def ok_iri_def term_iri_def term_lit_def)
  from written_graph_loads_back [OF this, of no_rows] show ?thesis by auto
qed

lemma term_key_inj: "term_key t = term_key u \<Longrightarrow> t = u"
  by (cases t; cases u) (simp add: term_key_def)

lemma triple_key_inj: "inj_on triple_key A"
  by (rule inj_onI) (auto simp: triple_key_def split_paired_all dest: term_key_inj)

text \<open>The written documents depend only on the triples and not on their order: any two
  permutations of a list of triples give the same N-Triples and the same Turtle text.\<close>

theorem documents_are_canonical:
  assumes "mset ts = mset us"
  shows "serialize_ntriples ts = serialize_ntriples us \<and> serialize_turtle ts px = serialize_turtle us px"
proof -
  have "sort_triples ts = sort_triples us"
    unfolding sort_triples_def
    by (rule sort_key_inj_key_eq [OF _ triple_key_inj]) (use assms in simp_all)
  then show ?thesis by (simp add: serialize_ntriples_def serialize_turtle_def)
qed

theorem documents_are_canonical_witness:
  "serialize_ntriples [(term_iri ''a'', term_iri ''p'', term_lit ''x''), tiny_triple]
    = serialize_ntriples [tiny_triple, (term_iri ''a'', term_iri ''p'', term_lit ''x'')]"
  using documents_are_canonical [of "[(term_iri ''a'', term_iri ''p'', term_lit ''x''), tiny_triple]"
      "[tiny_triple, (term_iri ''a'', term_iri ''p'', term_lit ''x'')]" "[]"]
  by (simp add: add_mset_commute)

text \<open>A reader of JSON strings, after the opening quote: the value and what follows it. A
  control character has to be escaped.\<close>

fun json_read :: "nat \<Rightarrow> string \<Rightarrow> (string \<times> string) option" where
  "json_read 0 s = None"
| "json_read (Suc n) [] = None"
| "json_read (Suc n) (c # s) =
     (if c = CHR 0x22 then Some ([], s)
      else if (of_char c :: nat) < 32 then None
      else if c \<noteq> CHR 0x5C then map_option (apfst (Cons c)) (json_read n s)
      else case s of
        [] \<Rightarrow> None
      | e # r \<Rightarrow>
          if e \<in> {CHR 0x22, CHR 0x5C, CHR ''/''} then map_option (apfst (Cons e)) (json_read n r)
          else if e = CHR ''n'' then map_option (apfst (Cons (CHR 0x0A))) (json_read n r)
          else if e = CHR ''r'' then map_option (apfst (Cons (CHR 0x0D))) (json_read n r)
          else if e = CHR ''t'' then map_option (apfst (Cons (CHR 0x09))) (json_read n r)
          else if e = CHR ''u'' then
            (case read_hex 4 0 r of
               Inl x \<Rightarrow> None
             | Inr (v, r') \<Rightarrow>
                 (case utf8_of_code v of
                    None \<Rightarrow> None | Some u \<Rightarrow> map_option (apfst (append u)) (json_read n r')))
          else None)"

lemma control_escape:
  assumes "b < 32"
  shows "read_hex 4 0 (CHR ''0'' # CHR ''0'' # hex2 False b @ s) = Inr (b, s)"
    and "utf8_of_code b = Some [char_of b]"
proof -
  have z: "hex_val CHR ''0'' = Some 0" by (simp add: hex_val_def)
  have "b div 16 < 16" "b mod 16 < 16" using assms by simp_all
  then have "read_hex (Suc (Suc (Suc (Suc 0)))) 0 (CHR ''0'' # CHR ''0'' # hex2 False b @ s) = Inr (b, s)"
    by (simp add: hex2_def z)
  moreover have "4 = Suc (Suc (Suc (Suc 0)))" by simp
  ultimately show "read_hex 4 0 (CHR ''0'' # CHR ''0'' # hex2 False b @ s) = Inr (b, s)" by (simp only:)
  show "utf8_of_code b = Some [char_of b]" using assms by (simp add: utf8_of_code_def)
qed

lemma json_char_back:
  "json_read (Suc n) (json_char c @ s) = map_option (apfst (Cons c)) (json_read n s)"
proof (cases "c \<in> {CHR 0x22, CHR 0x5C, CHR 0x0A, CHR 0x0D, CHR 0x09}")
  case True
  then show ?thesis by (elim insertE emptyE) (simp_all add: json_char_def)
next
  case other: False
  show ?thesis
  proof (cases "(of_char c :: nat) < 32")
    case True
    define b where "b = (of_char c :: nat)"
    have c: "c = char_of b" by (simp add: b_def)
    have "json_read (Suc n) (json_char c @ s) =
        json_read (Suc n) (CHR 0x5C # CHR ''u'' # CHR ''0'' # CHR ''0'' # hex2 False b @ s)"
      using True other by (simp add: json_char_def b_def)
    also have "\<dots> = map_option (apfst (append [char_of b])) (json_read n s)"
      using control_escape(1) [OF True [folded b_def], of s] control_escape(2) [OF True [folded b_def]] by simp
    finally show ?thesis by (simp add: c apfst_def map_prod_def)
  next
    case False
    then have "json_char c = [c]" using other by (simp add: json_char_def)
    with other False show ?thesis by simp
  qed
qed

text \<open>Every byte string is written as one JSON string: a JSON reader gets the value back, and
  nothing in the value can end the string early or leave a control character in it.\<close>

theorem json_strings_read_back:
  "json_string s = CHR 0x22 # json_escape s @ [CHR 0x22]
   \<and> json_read (Suc (length s)) (json_escape s @ CHR 0x22 # rest) = Some (s, rest)"
proof -
  have "json_read (Suc (length s)) (json_escape s @ CHR 0x22 # rest) = Some (s, rest)"
    by (induction s) (simp_all add: json_escape_def json_char_back del: json_read.simps(3), simp)
  then show ?thesis by (simp add: json_string_def)
qed

subsection \<open>Results\<close>

lemma set_map_filter: "y \<in> set (List.map_filter f xs) \<longleftrightarrow> (\<exists>x \<in> set xs. f x = Some y)"
  by (induction xs) (auto simp: List.map_filter_simps split: option.splits)

lemma dedup_set: "set (foldl (\<lambda>out t. if t \<in> set out then out else out @ [t]) acc ts) = set acc \<union> set ts
   \<and> (distinct acc \<longrightarrow> distinct (foldl (\<lambda>out t. if t \<in> set out then out else out @ [t]) acc ts))"
  by (induction ts arbitrary: acc) auto

text \<open>A CONSTRUCT result has no triple twice, and a triple is in it exactly when some solution
  binds all three terms of a template triple to it, the subject is no literal and the
  predicate is an IRI.\<close>

theorem construct_gives_valid_graph:
  "distinct (construct_triples template vars rows)
   \<and> ((a, b, c) \<in> set (construct_triples template vars rows) \<longleftrightarrow>
        tm_kind a \<noteq> K_LIT \<and> tm_kind b = K_IRI
        \<and> (\<exists>row \<in> set rows. \<exists>tp \<in> set template. slot_term vars row (tp_s tp) = Some a
             \<and> slot_term vars row (tp_p tp) = Some b \<and> slot_term vars row (tp_o tp) = Some c))"
proof -
  have "instantiate vars row tp = Some (a, b, c) \<longleftrightarrow>
      tm_kind a \<noteq> K_LIT \<and> tm_kind b = K_IRI \<and> slot_term vars row (tp_s tp) = Some a
      \<and> slot_term vars row (tp_p tp) = Some b \<and> slot_term vars row (tp_o tp) = Some c" for row tp
    by (auto simp: instantiate_def split: option.splits)
  then show ?thesis
    using dedup_set [of "[]" "concat (map (\<lambda>row. List.map_filter (instantiate vars row) template) rows)"]
    by (auto simp: construct_triples_def set_map_filter)
qed

subsection \<open>Compilation\<close>

text \<open>The compiler does not reach its panic on a ground operand for any query that the parser
  gives, whatever the dictionary.\<close>

theorem parsed_query_never_panics:
  assumes "parse s = Inr (PQuery q)"
  shows "compile_query q ids \<noteq> Inl GroundValPanic"
proof -
  have "query_ok q" using parse_request_ok [of s "PQuery q"] assms
    by (auto simp: parse_def split: sum.splits perr.splits)
  from calm_query [OF this] show ?thesis by (simp add: calm_def)
qed

text \<open>The pattern of a parsed query expands to exactly one conjunctive query per way to choose a
  branch of every union, nested ones too, when there are at most 128 of them, and is refused
  when there are more.\<close>

theorem unions_expand_up_to_the_cap:
  assumes "parse s = Inr (PQuery q)"
  shows "if alternatives (q_pattern q) \<le> 128
    then \<exists>fs. flatten_group (q_pattern q) flat_default = Inr fs \<and> length fs = alternatives (q_pattern q)
    else compile_query q ids = Inl UnionTooLarge"
proof -
  have "query_ok q" using parse_request_ok [of s "PQuery q"] assms
    by (auto simp: parse_def split: sum.splits perr.splits)
  then have "capped (alternatives (q_pattern q)) (flatten_group (q_pattern q) flat_default)"
    by (intro flatten_capped) (simp add: query_ok_def)
  then show ?thesis by (auto simp: capped_def MAX_FLATS_def compile_query_def split: if_splits)
qed

text \<open>A ground term that is compared as text is one SQL literal with the lexical form as its
  value: no lexical form reaches past its closing quote.\<close>

theorem text_stays_in_its_literal:
  assumes "vl_var v = None" "vl_term v = Some t" "\<not> numeric_lit t" "rest = [] \<or> hd rest \<noteq> SQ"
  shows "\<exists>lit. compile_value v vs num False = Inr (SQ # lit) \<and> scan_literal (lit @ rest) = Some (tm_lex t, rest)"
  using assms scan_quoted [OF assms(4), of "tm_lex t"]
  by (simp add: compile_value_def lowered_text_def sql_quote_def)

text \<open>A query compiles to the same SQL when every group that an OPTIONAL group nests, as OPTIONAL
  or as UNION, is taken out of it: the compiler does not read them and reports no error.\<close>

theorem nested_optional_groups_dropped:
  "compile_query (q\<lparr>q_pattern := strip_group (q_pattern q)\<rparr>) ids = compile_query q ids"
  by (rule compile_strip)

text \<open>A query with a number that is no number, and its compiled text.\<close>

definition forged_number :: string where
  "forged_number = ''SELECT ?s WHERE { ?s <p> ?x FILTER(?x < '' @ [CHR 0x22] @ ''0 OR 1=1'' @ [CHR 0x22]
     @ ''^^<http://www.w3.org/2001/XMLSchema#integer>) }''"

definition forged_query :: query where
  "forged_query = query_default\<lparr>q_sel := [plain_item ''s''],
     q_pattern := Group [\<lparr>tp_s = SVar ''s'', tp_p = Ground (term_iri ''p''), tp_o = SVar ''x''\<rparr>]
       [ECmp CLt (var_operand FNone ''x'') (term_operand (term_lit_dt ''0 OR 1=1'' (XSD @ ''integer'')))] [] []\<rparr>"

lemma parse_forged: "parse forged_number = Inr (PQuery forged_query)"
proof -
  have "parse_request forged_number = Inr (PQuery forged_query)"
    by (simp add: forged_number_def forged_query_def XSD_def eval_parser cong: lazy)
  then show ?thesis by (simp add: parse_def)
qed

text \<open>The lexical form of a literal with a numeric datatype goes into the SQL text as it is, in a
  comparison with a variable, and the parser takes any quoted text with a numeric datatype:
  a request can add conditions of its own to the SQL text.\<close>

theorem numeric_lexical_form_is_pasted:
  "parse forged_number = Inr (PQuery forged_query)
   \<and> compile_query forged_query (\<lambda>t. 7) = Inr
      (''SELECT i0,k0,x0,d0,g0 FROM (SELECT v0.id AS i0,v0.kind AS k0,v0.lex AS x0,v0.dtype AS d0,v0.lang AS g0''
       @ '' FROM rdf_triples t0 JOIN rdf_terms v0 ON v0.id=t0.s JOIN rdf_terms v1 ON v1.id=t0.o''
       @ '' WHERE t0.g=0 AND t0.p=7 AND ((CAST(v1.lex AS REAL) < 0 OR 1=1))) sub'', [''s''])"
proof -
  have "compile_query forged_query (\<lambda>t. 7) = Inr
      (''SELECT i0,k0,x0,d0,g0 FROM (SELECT v0.id AS i0,v0.kind AS k0,v0.lex AS x0,v0.dtype AS d0,v0.lang AS g0''
       @ '' FROM rdf_triples t0 JOIN rdf_terms v0 ON v0.id=t0.s JOIN rdf_terms v1 ON v1.id=t0.o''
       @ '' WHERE t0.g=0 AND t0.p=7 AND ((CAST(v1.lex AS REAL) < 0 OR 1=1))) sub'', [''s''])"
    by code_simp
  with parse_forged show ?thesis by blast
qed

theorem parsed_query_never_panics_witness: "compile_query forged_query (\<lambda>t. 7) \<noteq> Inl GroundValPanic"
  using parsed_query_never_panics [OF parse_forged] .

theorem unions_expand_up_to_the_cap_witness:
  "\<exists>fs. flatten_group (q_pattern forged_query) flat_default = Inr fs \<and> length fs = 1"
proof -
  have "alternatives (q_pattern forged_query) = 1" by (simp add: forged_query_def query_default_def)
  then show ?thesis using unions_expand_up_to_the_cap [OF parse_forged] by simp
qed

theorem text_stays_in_its_literal_witness:
  "\<exists>lit. compile_value \<lparr>vl_func = FNone, vl_var = None, vl_term = Some (term_lit (SQ # '' OR 1=1''))\<rparr> [] True False
     = Inr (SQ # lit) \<and> scan_literal (lit @ '')'') = Some (SQ # '' OR 1=1'', '')'')"
  using text_stays_in_its_literal
    [of "\<lparr>vl_func = FNone, vl_var = None, vl_term = Some (term_lit (SQ # '' OR 1=1''))\<rparr>" _ "'')''" "[]" True]
  by (simp add: numeric_lit_def is_numeric_dtype_def term_lit_def XSD_def SQ_def)

text \<open>A predicate with the prefix \<open>a\<close> is never read as what it abbreviates: the keyword \<open>a\<close> matches
  in front of the colon, and the request is refused.\<close>

theorem type_keyword_takes_a_prefix:
  "qt cx Predicate (''a:'' @ s) = Inr (Ground (term_iri RDF_TYPE), CHR '':'' # s)
   \<and> parse_request ''PREFIX a: <x> SELECT * WHERE { ?s a:p ?o }'' = fail (UnknownPrefix []) '' ?o }''
   \<and> (\<exists>q. parse_request ''PREFIX b: <x> SELECT * WHERE { ?s b:p ?o }'' = Inr (PQuery q))"
proof (intro conjI)
  show "qt cx Predicate (''a:'' @ s) = Inr (Ground (term_iri RDF_TYPE), CHR '':'' # s)"
    by (simp add: eval_parser cong: lazy)
  show "parse_request ''PREFIX a: <x> SELECT * WHERE { ?s a:p ?o }'' = fail (UnknownPrefix []) '' ?o }''"
    by (simp add: eval_parser cong: lazy)
  show "\<exists>q. parse_request ''PREFIX b: <x> SELECT * WHERE { ?s b:p ?o }'' = Inr (PQuery q)"
    by (simp add: eval_parser cong: lazy)
qed

text \<open>A row limit of \<open>2 ^ 63\<close> or more is read as the limit zero, so that the query answers with no
  rows; smaller ones are read as they are.\<close>

theorem huge_limit_hides_all_rows:
  "read_int (show_nat n) = Inr (if int n < 2 ^ 63 then int n else 0, [])"
proof -
  have d: "list_all is_digit (show_nat n)" by (rule show_nat_digits)
  obtain c cs where n: "show_nat n = c # cs" using show_nat_digits [of n] by (cases "show_nat n") auto
  have c: "is_digit c" using d n by simp
  have "skipws (show_nat n) = show_nat n"
    using c by (simp add: n skipws.simps) (auto simp: is_digit_def)
  moreover have "take_while is_digit (show_nat n) = (show_nat n, [])"
    using take_while_stop [OF d, of "[]"] by simp
  moreover have "parse_i64 (show_nat n) = (if int n < 2 ^ 63 then Some (int n) else None)"
  proof (cases "int n < 2 ^ 63")
    case True
    then show ?thesis using parse_i64_show_int [of "int n"] by (simp add: show_int_def is_i64_def)
  next
    case False
    have "c \<noteq> CHR ''-''" "c \<noteq> CHR ''+''" using c by (auto simp: is_digit_def)
    with False show ?thesis
      using parse_digits_show_nat [of n] by (simp add: parse_i64_def n Let_def)
  qed
  ultimately show ?thesis by (simp add: read_int_def n)
qed

end
