(* ===== verification/Node_Db.thy ===== *)
theory Node_Db
  imports Footprint Chain Human Request
begin

text \<open>
  The node's database as its serving pipeline sees it: the authenticator's tables, the
  tables the node crate owns (\<open>crates/node/src/ddl.rs\<close>), and the user's own data, which is
  a type parameter. A missing table is \<open>None\<close>; every statement that names it fails. The
  ledger (\<open>crates/node/src/audit.rs\<close>) is written here, because every component appends
  to it.

  The columns of \<open>_audit\<close> and \<open>_applied\<close> follow their declarations; times are RFC 3339
  texts of the clock reading in the call's environment.
\<close>

text \<open>What a failing SQLite call reports: the codes the node looks at, and the text of the
  error. \<open>Busy\<close> is the busy and the locked code (\<open>is_busy\<close> of \<open>db.rs\<close>).\<close>

datatype sqlite_code = Interrupted | Busy | OtherCode

datatype sqlite_error = SqliteFailure sqlite_code string

fun err_code :: "sqlite_error \<Rightarrow> sqlite_code" where
  "err_code (SqliteFailure c t) = c"

fun err_text :: "sqlite_error \<Rightarrow> string" where
  "err_text (SqliteFailure c t) = t"

definition is_busy :: "sqlite_error \<Rightarrow> bool" where
  "is_busy e \<longleftrightarrow> err_code e = Busy"

record audit_row =
  au_id :: int
  au_at :: string
  au_direction :: string
  au_peer :: string
  au_request_id :: string
  au_signal :: string
  au_footprint :: string
  au_decision :: string
  au_decided_by :: string
  au_reason :: "string option"
  au_rows_out :: "int option"
  au_bytes_out :: "int option"
  au_duration_ms :: int

record applied_row =
  al_request_id :: string
  al_at :: string
  al_outcome :: string

record budget_row =
  bu_bucket :: string
  bu_tokens :: f64
  bu_updated_at :: f64

record media_row =
  me_name :: string
  me_command :: string
  me_content_type :: string
  me_accepts :: "string option"

record projection_row =
  pr_point_iri :: string
  pr_kind :: string
  pr_label :: "string option"
  pr_icon :: "string option"
  pr_role :: "string option"
  pr_path :: string
  pr_ord :: int
  pr_projects_path :: "string option"
  pr_modulation :: "string option"
  pr_signal :: "string option"
  pr_params_order :: "string option"
  pr_fields :: "string option"
  pr_signal_template :: "string option"
  pr_fires :: "string option"
  pr_resource :: "string option"

record modulation_row =
  mo_name :: string
  mo_wasm :: "byte list option"
  mo_sha256 :: string
  mo_enabled :: int
  mo_caps :: string
  mo_config :: string
  mo_limits :: string
  mo_note :: "string option"

record 'u node_db =
  nd_auth :: auth_db
  nd_audit :: "audit_row list option"
  nd_applied :: "applied_row list option"
  nd_budget :: "budget_row list option"
  nd_media :: "media_row list option"
  nd_projection :: "projection_row list option"
  nd_modulations :: "modulation_row list option"
  nd_user :: 'u

text \<open>What one job reads of the outside world besides the database.\<close>

record node_env =
  ne_call :: call_env
  ne_duration_ms :: nat

definition now_rfc3339 :: "node_env \<Rightarrow> string" where
  "now_rfc3339 env = rfc3339 (env_secs (ne_call env))"

subsection \<open>The ledger\<close>

text \<open>SQLite's choice for a new \<open>INTEGER PRIMARY KEY\<close>: one more than the largest. (The
  random probing after the largest \<open>i64\<close> is not modelled.)\<close>

definition next_rowid :: "int list \<Rightarrow> int" where
  "next_rowid ids = (case ids of [] \<Rightarrow> 1 | _ \<Rightarrow> Max (set ids) + 1)"

definition audit_full_dir ::
  "node_env \<Rightarrow> string \<Rightarrow> string \<Rightarrow> string \<Rightarrow> string \<Rightarrow> string \<Rightarrow> string \<Rightarrow> string \<Rightarrow> string option \<Rightarrow> nat
    \<Rightarrow> 'u node_db \<Rightarrow> int \<times> 'u node_db" where
  "audit_full_dir env direction peer i sig footprint_json decision decided_by reason duration db =
     (case nd_audit db of
        None \<Rightarrow> (0, db)
      | Some rows \<Rightarrow>
          let rowid = next_rowid (map au_id rows)
          in (rowid,
              db\<lparr>nd_audit := Some (rows @
                [\<lparr>au_id = rowid, au_at = now_rfc3339 env, au_direction = direction, au_peer = peer,
                  au_request_id = i, au_signal = sig, au_footprint = footprint_json,
                  au_decision = decision, au_decided_by = decided_by, au_reason = reason,
                  au_rows_out = None, au_bytes_out = None, au_duration_ms = int duration\<rparr>])\<rparr>))"

definition audit_full ::
  "node_env \<Rightarrow> string \<Rightarrow> string \<Rightarrow> string \<Rightarrow> string \<Rightarrow> string \<Rightarrow> string \<Rightarrow> string option \<Rightarrow> nat
    \<Rightarrow> 'u node_db \<Rightarrow> int \<times> 'u node_db" where
  "audit_full env = audit_full_dir env ''in''"

definition audit_direct_dir ::
  "node_env \<Rightarrow> string \<Rightarrow> string \<Rightarrow> string \<Rightarrow> string \<Rightarrow> string \<Rightarrow> string \<Rightarrow> string
    \<Rightarrow> 'u node_db \<Rightarrow> 'u node_db" where
  "audit_direct_dir env direction peer i sig decision decided_by reason db =
     snd (audit_full_dir env direction peer i sig ''{}'' decision decided_by (Some reason) 0 db)"

definition audit_direct ::
  "node_env \<Rightarrow> string \<Rightarrow> string \<Rightarrow> string \<Rightarrow> string \<Rightarrow> string \<Rightarrow> string \<Rightarrow> 'u node_db \<Rightarrow> 'u node_db" where
  "audit_direct env = audit_direct_dir env ''in''"

definition audit_outcome :: "int \<Rightarrow> int \<Rightarrow> int \<Rightarrow> 'u node_db \<Rightarrow> 'u node_db" where
  "audit_outcome audit_id rows_out bytes_out db =
     (if audit_id = 0 then db
      else case nd_audit db of
        None \<Rightarrow> db
      | Some rows \<Rightarrow>
          db\<lparr>nd_audit := Some (map (\<lambda>r. if au_id r = audit_id
               then r\<lparr>au_rows_out := Some rows_out, au_bytes_out := Some bytes_out\<rparr> else r) rows)\<rparr>)"

subsection \<open>The peer gate\<close>

text \<open>\<open>peer_known\<close> of \<open>pipeline.rs\<close>: the node's own id, or a row of \<open>_peers\<close>.\<close>

definition peer_known :: "'u node_db \<Rightarrow> string \<Rightarrow> bool" where
  "peer_known db peer \<longleftrightarrow>
     read_rsntr (nd_auth db) ''endpoint_id'' = Some peer
     \<or> (case db_peers (nd_auth db) of
          None \<Rightarrow> False
        | Some rows \<Rightarrow> list_ex (\<lambda>r. pe_endpoint_id r = peer) rows)"

subsection \<open>What the ledger keeps\<close>

text \<open>The ledger as a list, empty when the table is missing, and its invariant: the row ids
  are positive and distinct.\<close>

definition ledger :: "'u node_db \<Rightarrow> audit_row list" where
  "ledger db = (case nd_audit db of None \<Rightarrow> [] | Some rows \<Rightarrow> rows)"

definition ledger_ok :: "'u node_db \<Rightarrow> bool" where
  "ledger_ok db \<longleftrightarrow> nd_audit db \<noteq> None \<and> distinct (map au_id (ledger db)) \<and> (\<forall>r \<in> set (ledger db). 0 < au_id r)"

lemma next_rowid_new:
  assumes "\<forall>i \<in> set ids. 0 < i"
  shows "0 < next_rowid ids" "next_rowid ids \<notin> set ids"
proof -
  have "0 < next_rowid ids \<and> (\<forall>i \<in> set ids. i < next_rowid ids)"
  proof (cases ids)
    case (Cons j js)
    have "\<forall>k \<in> set ids. k \<le> Max (set ids)" by simp
    moreover have "0 < Max (set ids)" using assms Cons by (intro order.strict_trans2 [of 0 j "Max (set ids)"]) auto
    ultimately show ?thesis using Cons by (auto simp: next_rowid_def less_le_trans simp del: set_simps)
  qed (simp add: next_rowid_def)
  then show "0 < next_rowid ids" "next_rowid ids \<notin> set ids" by blast+
qed

lemma audit_full_dir_db:
  "snd (audit_full_dir env d p i s f dec b r dur db) = db\<lparr>nd_audit := nd_audit (snd (audit_full_dir env d p i s f dec b r dur db))\<rparr>"
  by (auto simp: audit_full_dir_def Let_def split: option.splits)

lemma audit_keeps [simp]:
  "nd_auth (snd (audit_full_dir env d p i s f dec b r dur db)) = nd_auth db"
  "nd_applied (snd (audit_full_dir env d p i s f dec b r dur db)) = nd_applied db"
  "nd_budget (snd (audit_full_dir env d p i s f dec b r dur db)) = nd_budget db"
  "nd_media (snd (audit_full_dir env d p i s f dec b r dur db)) = nd_media db"
  "nd_projection (snd (audit_full_dir env d p i s f dec b r dur db)) = nd_projection db"
  "nd_modulations (snd (audit_full_dir env d p i s f dec b r dur db)) = nd_modulations db"
  "nd_user (snd (audit_full_dir env d p i s f dec b r dur db)) = nd_user db"
  by (auto simp: audit_full_dir_def Let_def split: option.splits)

lemma audit_keeps_eq:
  "audit_full_dir env d p i s f dec b r dur db = (k, db') \<Longrightarrow>
     nd_auth db' = nd_auth db \<and> nd_applied db' = nd_applied db \<and> nd_budget db' = nd_budget db
     \<and> nd_media db' = nd_media db \<and> nd_user db' = nd_user db"
  by (metis audit_keeps snd_conv)

text \<open>The ledger after an append: one row more, whose id is the answer.\<close>

definition ledger_row ::
  "node_env \<Rightarrow> string \<Rightarrow> string \<Rightarrow> string \<Rightarrow> string \<Rightarrow> string \<Rightarrow> string \<Rightarrow> string \<Rightarrow> string option \<Rightarrow> nat \<Rightarrow> int \<Rightarrow> audit_row" where
  "ledger_row env direction peer i sig fp decision decided_by reason duration rowid =
     \<lparr>au_id = rowid, au_at = now_rfc3339 env, au_direction = direction, au_peer = peer,
      au_request_id = i, au_signal = sig, au_footprint = fp,
      au_decision = decision, au_decided_by = decided_by, au_reason = reason,
      au_rows_out = None, au_bytes_out = None, au_duration_ms = int duration\<rparr>"

lemma ledger_row_simps [simp]:
  "au_id (ledger_row env d p i s f dec b r dur k) = k"
  "au_direction (ledger_row env d p i s f dec b r dur k) = d"
  "au_peer (ledger_row env d p i s f dec b r dur k) = p"
  "au_request_id (ledger_row env d p i s f dec b r dur k) = i"
  "au_signal (ledger_row env d p i s f dec b r dur k) = s"
  "au_footprint (ledger_row env d p i s f dec b r dur k) = f"
  "au_decision (ledger_row env d p i s f dec b r dur k) = dec"
  "au_decided_by (ledger_row env d p i s f dec b r dur k) = b"
  "au_reason (ledger_row env d p i s f dec b r dur k) = r"
  "au_rows_out (ledger_row env d p i s f dec b r dur k) = None"
  "au_bytes_out (ledger_row env d p i s f dec b r dur k) = None"
  by (simp_all add: ledger_row_def)

lemma audit_appends:
  assumes "ledger_ok db" "audit_full_dir env d p i s f dec b r dur db = (k, db')"
  shows "ledger db' = ledger db @ [ledger_row env d p i s f dec b r dur k]" "ledger_ok db'" "0 < k"
  using assms next_rowid_new [of "map au_id (ledger db)"]
  by (auto simp: ledger_ok_def ledger_def audit_full_dir_def Let_def ledger_row_def split: option.splits)

lemma audit_direct_full:
  "audit_direct env p i s dec b r db = snd (audit_full_dir env ''in'' p i s ''{}'' dec b (Some r) 0 db)"
  by (simp add: audit_direct_def audit_direct_dir_def)

lemma audit_outcome_keeps [simp]:
  "nd_auth (audit_outcome a m n db) = nd_auth db" "nd_applied (audit_outcome a m n db) = nd_applied db"
  "nd_user (audit_outcome a m n db) = nd_user db" "nd_budget (audit_outcome a m n db) = nd_budget db"
  by (auto simp: audit_outcome_def split: option.splits)

lemma audit_outcome_ledger:
  "ledger (audit_outcome a m n db) =
     (if a = 0 then ledger db
      else map (\<lambda>r. if au_id r = a then r\<lparr>au_rows_out := Some m, au_bytes_out := Some n\<rparr> else r) (ledger db))"
  by (auto simp: audit_outcome_def ledger_def split: option.splits)

lemma audit_outcome_ok [intro]: "ledger_ok db \<Longrightarrow> ledger_ok (audit_outcome a m n db)"
proof -
  assume "ledger_ok db"
  moreover have "map au_id (ledger (audit_outcome a m n db)) = map au_id (ledger db)"
    by (auto simp: audit_outcome_ledger)
  moreover from this have "(\<forall>r \<in> set (ledger (audit_outcome a m n db)). 0 < au_id r) = (\<forall>r \<in> set (ledger db). 0 < au_id r)"
    by (metis (mono_tags, lifting) image_iff list.set_map)
  moreover have "nd_audit db \<noteq> None \<Longrightarrow> nd_audit (audit_outcome a m n db) \<noteq> None"
    by (auto simp: audit_outcome_def split: option.splits)
  ultimately show ?thesis by (simp add: ledger_ok_def)
qed

lemma ledger_ok_auth [simp]:
  "ledger (db\<lparr>nd_auth := a\<rparr>) = ledger db" "ledger_ok (db\<lparr>nd_auth := a\<rparr>) = ledger_ok db"
  by (simp_all add: ledger_def ledger_ok_def)

end
