(* ===== verification/Pipeline_Screen.thy ===== *)
theory Pipeline_Screen
  imports Node_Db
begin

text \<open>
  Job A of the serving pipeline (\<open>crates/node/src/pipeline.rs\<close>): the peer gate, the
  collect-mode prepare, the chain's decision and the ledger row, for a peer's statement, the
  owner's, a media source and a mod.

  Parameters: what SQLite reports when it prepares a statement on the database as it is (the
  actions in order, and the error of a prepare that fails for other reasons than a denial),
  whether the callback can be installed, \<open>serde_json\<close> on a footprint, and the \<open>Debug\<close> form
  of a string.
\<close>

record prepared =
  sp_actions :: "auth_action list"
  sp_error :: "sqlite_error option"

record 'u node_ext =
  nx_install :: "'u node_db \<Rightarrow> sqlite_error option"
  nx_prepare :: "'u node_db \<Rightarrow> string \<Rightarrow> prepared"
  nx_json :: "footprint \<Rightarrow> string"
  nx_debug :: "string \<Rightarrow> string"

datatype verdict =
    UnknownPeer
  | Banned string
  | PrepareFailed string
  | VDenied string
  | Cleared approved string int

text \<open>The error side is the reason of a ban, the footprint's JSON and the message.\<close>

definition collect_footprint ::
  "'u node_ext \<Rightarrow> 'u node_db \<Rightarrow> string \<Rightarrow> string list \<Rightarrow> lane
    \<Rightarrow> (string option \<times> string \<times> string, footprint) result" where
  "collect_footprint x db sql allowlist lane =
     (case nx_install x db of
        Some e \<Rightarrow> Inl (None, ''{}'', ''installing authorizer failed: '' @ err_text e)
      | None \<Rightarrow>
          let st = snd (collect_pass allowlist lane collect_default (sp_actions (nx_prepare x db sql)));
              f = collect_finish st
          in case cs_denied st of
               Some reason \<Rightarrow> Inl (Some reason, nx_json x f, reason)
             | None \<Rightarrow>
                 (case sp_error (nx_prepare x db sql) of
                    None \<Rightarrow> Inr f
                  | Some e \<Rightarrow> Inl (None, nx_json x f, ''prepare failed: '' @ err_text e)))"

definition RESERVED_REASON :: string where
  "RESERVED_REASON = ''direct writes to _modulations are not allowed;              install mods via the mod-install modulation''"

definition UNDECIDED :: string where
  "UNDECIDED = ''authenticator chain did not decide''"

fun decision_str :: "decision \<Rightarrow> string \<times> string option" where
  "decision_str Allow = (''allow'', None)"
| "decision_str (AllowNarrowed rewrite) = (''allow_narrowed'', None)"
| "decision_str (Deny reason) = (''deny'', Some reason)"
| "decision_str Escalate = (''deny'', Some UNDECIDED)"

text \<open>The chain on the node's database: only the authenticator's tables change.\<close>

definition decide_on ::
  "config_json \<Rightarrow> registry \<Rightarrow> node_env \<Rightarrow> auth_request \<Rightarrow> 'u node_db \<Rightarrow> decided \<times> 'u node_db" where
  "decide_on j reg env arq db =
     (case chain_decide j reg (ne_call env) (nd_auth db) arq of (d, a) \<Rightarrow> (d, db\<lparr>nd_auth := a\<rparr>))"

text \<open>The decision of the chain becomes the verdict; a rewrite is collected anew.\<close>

definition verdict_of ::
  "'u node_ext \<Rightarrow> string list \<Rightarrow> 'u node_db \<Rightarrow> footprint \<Rightarrow> string \<Rightarrow> int \<Rightarrow> decision \<Rightarrow> verdict" where
  "verdict_of x allowlist db f sql audit_id d =
     (case d of
        Allow \<Rightarrow> Cleared \<lparr>ap_footprint = f, ap_lane = Remote\<rparr> sql audit_id
      | AllowNarrowed rewrite \<Rightarrow>
          (case collect_footprint x db rewrite allowlist Remote of
             Inr f' \<Rightarrow> Cleared \<lparr>ap_footprint = f', ap_lane = Remote\<rparr> rewrite audit_id
           | Inl (_, _, message) \<Rightarrow>
               PrepareFailed (''narrowed rewrite failed to prepare: '' @ message))
      | Deny reason \<Rightarrow> VDenied reason
      | Escalate \<Rightarrow> VDenied UNDECIDED)"

definition screen_request ::
  "'u node_ext \<Rightarrow> ulid \<Rightarrow> config_json \<Rightarrow> registry \<Rightarrow> string list \<Rightarrow> node_env
    \<Rightarrow> string \<Rightarrow> request \<Rightarrow> 'u node_db \<Rightarrow> verdict \<times> 'u node_db" where
  "screen_request x u j reg allowlist env peer rq db =
     (let i = id_string u rq; sql = rq_signal rq
      in if \<not> peer_known db peer
         then (UnknownPeer, audit_direct env peer i sql ''deny'' ''peer-gate'' ''unknown peer'' db)
         else case collect_footprint x db sql allowlist Remote of
           Inl (Some reason, fp_json, _) \<Rightarrow>
             (Banned reason, snd (audit_full env peer i sql fp_json ''deny'' ''node'' (Some reason) 0 db))
         | Inl (None, fp_json, message) \<Rightarrow>
             (PrepareFailed message,
              snd (audit_full env peer i sql fp_json ''deny'' ''node'' (Some message) 0 db))
         | Inr f \<Rightarrow>
             if fp_kind f \<noteq> Read \<and> has_table f ''_modulations''
             then (Banned RESERVED_REASON,
                   snd (audit_full env peer i sql ''{}'' ''deny'' ''node'' (Some RESERVED_REASON) 0 db))
             else
               let (decided, db1) = decide_on j reg env
                     \<lparr>rq_peer = peer, rq_action = default_action (fp_kind f), rq_footprint = f,
                      rq_statement = sql\<rparr> db;
                   (str, reason) = decision_str (dc_decision decided);
                   (audit_id, db2) = audit_full env peer i sql (nx_json x f) str
                     (dc_decided_by decided) reason (ne_duration_ms env) db1
               in (verdict_of x allowlist db2 f sql audit_id (dc_decision decided), db2))"

definition screen_owner_request ::
  "'u node_ext \<Rightarrow> ulid \<Rightarrow> string list \<Rightarrow> node_env \<Rightarrow> string \<Rightarrow> request \<Rightarrow> 'u node_db
    \<Rightarrow> verdict \<times> 'u node_db" where
  "screen_owner_request x u allowlist env peer rq db =
     (let i = id_string u rq; sql = rq_signal rq
      in case collect_footprint x db sql allowlist Owner of
           Inl (ban, fp_json, message) \<Rightarrow>
             (case ban of Some reason \<Rightarrow> Banned reason | None \<Rightarrow> PrepareFailed message,
              snd (audit_full_dir env ''local'' peer i sql fp_json ''deny'' ''owner'' (Some message)
                     (ne_duration_ms env) db))
         | Inr f \<Rightarrow>
             (case audit_full_dir env ''local'' peer i sql (nx_json x f) ''allow'' ''owner'' None
                     (ne_duration_ms env) db of
                (audit_id, db1) \<Rightarrow> (Cleared \<lparr>ap_footprint = f, ap_lane = Owner\<rparr> sql audit_id, db1)))"

subsection \<open>Media sources\<close>

datatype media_verdict =
    MediaUnknownPeer
  | MediaDenied string
  | UnknownSource
  | MediaAllowed string string "string option"

definition source_policy_match :: "'u node_db \<Rightarrow> string \<Rightarrow> string \<Rightarrow> string \<Rightarrow> string \<Rightarrow> bool" where
  "source_policy_match db peer name action effect =
     (case db_policy (nd_auth db) of
        None \<Rightarrow> False
      | Some rows \<Rightarrow>
          list_ex (\<lambda>r. po_action r = action \<and> po_effect r = effect
                     \<and> (po_peer r = peer \<or> po_peer r = ''*'')
                     \<and> (po_table r = name \<or> po_table r = ''*'')) rows)"

definition screen_source ::
  "'u node_ext \<Rightarrow> node_env \<Rightarrow> string \<Rightarrow> string \<Rightarrow> string \<Rightarrow> string \<Rightarrow> 'u node_db
    \<Rightarrow> media_verdict \<times> 'u node_db" where
  "screen_source x env peer i name action db =
     (let sig = action @ '' '' @ name
      in if \<not> peer_known db peer
         then (MediaUnknownPeer, audit_direct env peer i sig ''deny'' ''peer-gate'' ''unknown peer'' db)
         else if source_policy_match db peer name action ''deny''
         then (let reason = action @ '' source '' @ nx_debug x name @ '' is denied by policy''
               in (MediaDenied reason, audit_direct env peer i sig ''deny'' ''policy'' reason db))
         else if \<not> source_policy_match db peer name action ''allow''
         then (let reason = ''no policy allows you the '' @ action @ '' source '' @ nx_debug x name
               in (MediaDenied reason, audit_direct env peer i sig ''deny'' ''policy'' reason db))
         else case (case nd_media db of
                      None \<Rightarrow> None
                    | Some rows \<Rightarrow> List.find (\<lambda>r. me_name r = name) rows) of
           None \<Rightarrow>
             (UnknownSource, audit_direct env peer i sig ''deny'' ''node'' ''unknown media source'' db)
         | Some r \<Rightarrow>
             (MediaAllowed (me_command r) (me_content_type r) (me_accepts r),
              audit_direct env peer i sig ''allow'' ''policy'' ''feed opened'' db))"

subsection \<open>Mod invocations\<close>

datatype mod_verdict = ModUnknownPeer | ModDenied string | ModAllowed

definition gate_mod_request ::
  "config_json \<Rightarrow> registry \<Rightarrow> node_env \<Rightarrow> string \<Rightarrow> string \<Rightarrow> string \<Rightarrow> string \<Rightarrow> 'u node_db
    \<Rightarrow> mod_verdict \<times> 'u node_db" where
  "gate_mod_request j reg env peer i mod_name sig db =
     (if \<not> peer_known db peer
      then (ModUnknownPeer, audit_direct env peer i sig ''deny'' ''peer-gate'' ''unknown peer'' db)
      else
        let (decided, db1) = decide_on j reg env
              \<lparr>rq_peer = peer, rq_action = ''mod:'' @ mod_name, rq_footprint = footprint_default,
               rq_statement = sig\<rparr> db;
            duration = ne_duration_ms env
        in case dc_decision decided of
             Deny reason \<Rightarrow>
               (ModDenied reason,
                snd (audit_full env peer i sig ''{}'' ''deny'' (dc_decided_by decided) (Some reason) duration db1))
           | Escalate \<Rightarrow>
               (ModDenied UNDECIDED,
                snd (audit_full env peer i sig ''{}'' ''deny'' ''node'' (Some UNDECIDED) duration db1))
           | _ \<Rightarrow>
               (ModAllowed,
                snd (audit_full env peer i sig ''{}'' ''allow'' (dc_decided_by decided)
                       (Some (''mod '' @ mod_name @ '' invoked'')) duration db1)))"

subsection \<open>What screening leaves\<close>

lemma decide_on_keeps [simp]:
  "nd_audit (snd (decide_on j reg env arq db)) = nd_audit db"
  "nd_applied (snd (decide_on j reg env arq db)) = nd_applied db"
  "nd_budget (snd (decide_on j reg env arq db)) = nd_budget db"
  "nd_user (snd (decide_on j reg env arq db)) = nd_user db"
  "nd_media (snd (decide_on j reg env arq db)) = nd_media db"
  "nd_projection (snd (decide_on j reg env arq db)) = nd_projection db"
  "nd_modulations (snd (decide_on j reg env arq db)) = nd_modulations db"
  "ledger (snd (decide_on j reg env arq db)) = ledger db"
  "ledger_ok (snd (decide_on j reg env arq db)) = ledger_ok db"
  by (simp_all add: decide_on_def ledger_def ledger_ok_def split: prod.splits)

lemma decide_on_not_Escalate:
  "decide_on j reg env arq db = (d, db') \<Longrightarrow> dc_decision d \<noteq> Escalate"
  using run_chain_not_Escalate
  by (auto simp: decide_on_def chain_decide_def split: prod.splits) (metis fst_conv)

lemma decision_str_allow:
  "fst (decision_str d) \<noteq> ''deny'' \<longleftrightarrow> lets_through d"
  "lets_through d \<Longrightarrow> snd (decision_str d) = None"
  by (cases d; simp)+

lemma verdict_of_cleared:
  "verdict_of x al db f sql k d = Cleared ap sql' k' \<longleftrightarrow>
     k' = k \<and> ap_lane ap = Remote \<and>
     (d = Allow \<and> sql' = sql \<and> ap_footprint ap = f
      \<or> d = AllowNarrowed sql' \<and> collect_footprint x db sql' al Remote = Inr (ap_footprint ap))"
  by (cases ap; cases d) (auto simp: verdict_of_def split: sum.splits)

text \<open>A collected footprint is what the two passes agree on.\<close>

lemma collect_footprint_Inr:
  "collect_footprint x db sql al lane = Inr f \<longleftrightarrow>
     nx_install x db = None \<and> sp_error (nx_prepare x db sql) = None \<and>
     (\<exists>st. collect_pass al lane collect_default (sp_actions (nx_prepare x db sql)) = (AAllow, st)
        \<and> cs_denied st = None \<and> f = collect_finish st)"
proof -
  obtain r st where p: "collect_pass al lane collect_default (sp_actions (nx_prepare x db sql)) = (r, st)"
    by (cases "collect_pass al lane collect_default (sp_actions (nx_prepare x db sql))")
  have "r = AAllow" if "cs_denied st = None"
    using that p collect_pass_denied [of al lane collect_default "sp_actions (nx_prepare x db sql)"]
    by (cases r) auto
  with p show ?thesis
    by (auto simp: collect_footprint_def Let_def split: option.splits)
qed

lemma decide_on_keeps_eq:
  "decide_on j reg env arq db = (d, db') \<Longrightarrow>
     nd_audit db' = nd_audit db \<and> nd_applied db' = nd_applied db \<and> nd_budget db' = nd_budget db
     \<and> nd_media db' = nd_media db \<and> nd_user db' = nd_user db \<and> ledger db' = ledger db
     \<and> ledger_ok db' = ledger_ok db"
  by (metis decide_on_keeps snd_conv)

text \<open>The ways a request is screened, each with the row it leaves.\<close>

lemma screen_cases:
  assumes "screen_request x u j reg al env peer rq db = (v, db')"
  obtains (stranger) k where "\<not> peer_known db peer" "v = UnknownPeer"
      "audit_full_dir env ''in'' peer (id_string u rq) (rq_signal rq) ''{}'' ''deny'' ''peer-gate''
         (Some ''unknown peer'') 0 db = (k, db')"
  | (refused) fp reason k where "peer_known db peer" "v = Banned reason \<or> v = PrepareFailed reason"
      "audit_full_dir env ''in'' peer (id_string u rq) (rq_signal rq) fp ''deny'' ''node''
         (Some reason) 0 db = (k, db')"
  | (decided) f d db1 k where "peer_known db peer"
      "collect_footprint x db (rq_signal rq) al Remote = Inr f"
      "fp_kind f = Read \<or> \<not> has_table f ''_modulations''"
      "decide_on j reg env \<lparr>rq_peer = peer, rq_action = default_action (fp_kind f), rq_footprint = f,
         rq_statement = rq_signal rq\<rparr> db = (d, db1)"
      "audit_full_dir env ''in'' peer (id_string u rq) (rq_signal rq) (nx_json x f)
         (fst (decision_str (dc_decision d))) (dc_decided_by d) (snd (decision_str (dc_decision d)))
         (ne_duration_ms env) db1 = (k, db')"
      "v = verdict_of x al db' f (rq_signal rq) k (dc_decision d)"
proof (cases "peer_known db peer")
  case False
  obtain k db1 where a: "audit_full_dir env ''in'' peer (id_string u rq) (rq_signal rq) ''{}'' ''deny'' ''peer-gate''
         (Some ''unknown peer'') 0 db = (k, db1)" by fastforce
  with False assms show ?thesis
    by (intro stranger [of k]) (simp_all add: screen_request_def Let_def audit_direct_full)
next
  case known: True
  show ?thesis
  proof (cases "collect_footprint x db (rq_signal rq) al Remote")
    case (Inl e)
    obtain b fp msg where e: "e = (b, fp, msg)" by (cases e)
    define reason where "reason = (case b of None \<Rightarrow> msg | Some r \<Rightarrow> r)"
    obtain k db1 where a: "audit_full_dir env ''in'' peer (id_string u rq) (rq_signal rq) fp ''deny'' ''node''
         (Some reason) 0 db = (k, db1)" by fastforce
    with known assms Inl e show ?thesis
      by (intro refused [of reason fp k])
         (auto simp: screen_request_def Let_def audit_full_def reason_def split: option.splits)
  next
    case (Inr f)
    show ?thesis
    proof (cases "fp_kind f \<noteq> Read \<and> has_table f ''_modulations''")
      case True
      obtain k db1 where a: "audit_full_dir env ''in'' peer (id_string u rq) (rq_signal rq) ''{}'' ''deny'' ''node''
         (Some RESERVED_REASON) 0 db = (k, db1)" by fastforce
      with known assms Inr True show ?thesis
        by (intro refused [of RESERVED_REASON "''{}''" k])
           (simp_all add: screen_request_def Let_def audit_full_def)
    next
      case free: False
      obtain d db1 where d: "decide_on j reg env \<lparr>rq_peer = peer, rq_action = default_action (fp_kind f),
          rq_footprint = f, rq_statement = rq_signal rq\<rparr> db = (d, db1)" by fastforce
      obtain k db2 where a: "audit_full_dir env ''in'' peer (id_string u rq) (rq_signal rq) (nx_json x f)
         (fst (decision_str (dc_decision d))) (dc_decided_by d) (snd (decision_str (dc_decision d)))
         (ne_duration_ms env) db1 = (k, db2)" by fastforce
      from known assms Inr free d a show ?thesis
        by (intro decided [of f d db1 k])
           (auto simp: screen_request_def Let_def audit_full_def split: prod.splits)
    qed
  qed
qed

lemma screen_keeps:
  assumes "screen_request x u j reg al env peer rq db = (v, db')"
  shows "nd_user db' = nd_user db" "nd_applied db' = nd_applied db" "nd_budget db' = nd_budget db"
  using assms by (cases rule: screen_cases; simp add: audit_keeps_eq decide_on_keeps_eq)+

end
