(* ===== verification/F64_Arith.thy ===== *)
theory F64_Arith
  imports Auth_Types
begin

text \<open>
  The arithmetic on doubles the knock budget uses: sums, differences and products of the exact
  values rounded to nearest even, and the standard library's \<open>max\<close> and \<open>min\<close>, which prefer the
  side that is a number.
\<close>

definition f_zero :: f64 where "f_zero = mk_f64 False 0"

definition f_one :: f64 where "f_one = mk_f64 False (1023 * 2 ^ 52)"

definition f_minus :: "f64 \<Rightarrow> f64" where
  "f_minus a = mk_f64 (\<not> f_neg a) (f_mag a)"

definition f_sub :: "f64 \<Rightarrow> f64 \<Rightarrow> f64" where
  "f_sub a b = f_add a (f_minus b)"

definition f_mul :: "f64 \<Rightarrow> f64 \<Rightarrow> f64" where
  "f_mul a b =
     (if is_nan a \<or> is_nan b \<or> (is_inf a \<and> f_mag b = 0) \<or> (is_inf b \<and> f_mag a = 0)
      then mk_f64 False nan_bits
      else if is_inf a \<or> is_inf b then mk_f64 (f_neg a \<noteq> f_neg b) inf_bits
      else mk_f64 (f_neg a \<noteq> f_neg b)
             (round_mag (scaled (f_mag a) * scaled (f_mag b)) (2 ^ sub_exp * 2 ^ sub_exp)))"

definition f_max :: "f64 \<Rightarrow> f64 \<Rightarrow> f64" where
  "f_max a b = (if is_nan a then b else if is_nan b then a else if f_less a b then b else a)"

definition f_min :: "f64 \<Rightarrow> f64 \<Rightarrow> f64" where
  "f_min a b = (if is_nan a then b else if is_nan b then a else if f_less b a then b else a)"

definition f_le :: "f64 \<Rightarrow> f64 \<Rightarrow> bool" where
  "f_le a b \<longleftrightarrow> \<not> is_nan a \<and> \<not> is_nan b \<and> f_scaled a \<le> f_scaled b"

subsection \<open>Finite values\<close>

definition finite64 :: "f64 \<Rightarrow> bool" where
  "finite64 a \<longleftrightarrow> f_mag a < inf_bits"

lemma finite64_cases: "finite64 a \<Longrightarrow> \<not> is_nan a \<and> \<not> is_inf a"
  by (simp add: finite64_def is_nan_def is_inf_def)

lemma mk_f64_sel:
  assumes "mag < sign_bit"
  shows "f_mag (mk_f64 neg mag) = mag" "f_neg (mk_f64 neg mag) = neg"
proof -
  have "(if neg then sign_bit else 0) + mag < 2 ^ LENGTH(64)"
    using assms by (simp add: sign_bit_def)
  then have u: "unat (mk_f64 neg mag) = (if neg then sign_bit else 0) + mag"
    by (simp only: mk_f64_def unsigned_of_nat take_bit_nat_eq_self of_nat_id)
  show "f_mag (mk_f64 neg mag) = mag" using assms by (simp add: f_mag_def u)
  show "f_neg (mk_f64 neg mag) = neg" using assms by (simp add: f_neg_def u)
qed

lemma inf_bits_less: "mag \<le> inf_bits \<Longrightarrow> mag < sign_bit"
  by (simp add: inf_bits_def sign_bit_def)

lemma scaled_0 [simp]: "scaled 0 = 0"
  by (simp add: scaled_def)

lemma mk_f64_scaled: "mag < inf_bits \<Longrightarrow> f_scaled (mk_f64 neg mag) = (if neg then - int (scaled mag) else int (scaled mag))"
  by (simp add: f_scaled_def mk_f64_sel inf_bits_less)

lemma mk_f64_finite: "mag < inf_bits \<Longrightarrow> finite64 (mk_f64 neg mag)"
  by (simp add: finite64_def mk_f64_sel inf_bits_less)

lemma round_mag_exact: "mag < inf_bits \<Longrightarrow> round_mag (scaled mag) (2 ^ sub_exp) = mag"
proof -
  assume fin: "mag < inf_bits"
  let ?s = "bit_length (scaled mag) - 53"
  have "rne (scaled mag * 2 ^ sub_exp) (2 ^ sub_exp * 2 ^ ?s) = rne (scaled mag) (2 ^ ?s)"
    using rne_scale [of "2 ^ sub_exp" "scaled mag" "2 ^ ?s"] by (simp add: mult.commute)
  with rne_scaled [OF fin] fin show ?thesis
    by (simp add: round_mag_def Let_def)
qed

text \<open>A sum that is a double's value is exact.\<close>

lemma f_add_exact:
  assumes "finite64 a" "finite64 b" "nat \<bar>f_scaled a + f_scaled b\<bar> = scaled m" "m < inf_bits"
  shows "f_scaled (f_add a b) = f_scaled a + f_scaled b \<and> finite64 (f_add a b)"
proof -
  let ?s = "f_scaled a + f_scaled b"
  have "f_add a b = mk_f64 (?s < 0 \<or> (?s = 0 \<and> f_neg a \<and> f_neg b)) m"
    using assms finite64_cases [of a] finite64_cases [of b] by (simp add: f_add_def Let_def round_mag_exact)
  moreover have "int (scaled m) = \<bar>?s\<bar>" using assms(3) by simp
  ultimately show ?thesis using assms(4) by (auto simp: mk_f64_scaled mk_f64_finite)
qed

lemma f_scaled_finite: "f_scaled a = (if f_neg a then - int (scaled (f_mag a)) else int (scaled (f_mag a)))"
  by (simp add: f_scaled_def)

lemma f_add_zero:
  assumes "finite64 a" "finite64 b" "f_scaled b = 0"
  shows "f_scaled (f_add a b) = f_scaled a \<and> finite64 (f_add a b)"
  using f_add_exact [OF assms(1,2), of "f_mag a"] assms
  by (auto simp: f_scaled_def finite64_def split: if_splits)

text \<open>Values with at most 53 significant bits are doubles.\<close>

lemma representable:
  "k < 2 ^ 53 \<Longrightarrow> j \<le> 2000 \<Longrightarrow> \<exists>m. m < inf_bits \<and> scaled m = k * 2 ^ j"
proof (induction j arbitrary: k)
  case 0
  show ?case
  proof (cases "k < 2 ^ 52")
    case True
    then show ?thesis by (intro exI [of _ k]) (simp add: scaled_def inf_bits_def)
  next
    case False
    with 0 show ?thesis
      by (intro exI [of _ "k"]) (simp add: scaled_def inf_bits_def Let_def div_if mod_if)
  qed
next
  case (Suc j)
  show ?case
  proof (cases "k < 2 ^ 52")
    case True
    then have "2 * k < 2 ^ 53" by simp
    with Suc.IH [of "2 * k"] Suc.prems(2) show ?thesis by (simp add: mult.assoc mult.left_commute)
  next
    case False
    define r where "r = k - 2 ^ 52"
    with False Suc.prems have r: "k = r + 2 ^ 52" "r < 2 ^ 52" by simp_all
    let ?m = "(Suc (Suc j)) * 2 ^ 52 + r"
    have d: "?m div 2 ^ 52 = Suc (Suc j)" "?m mod 2 ^ 52 = r"
      using r(2) div_mult_self3 [of "2 ^ 52 :: nat" "Suc (Suc j)" r] mod_mult_self3 [of "Suc (Suc j)" "2 ^ 52 :: nat" r]
      by (simp_all del: mult_Suc)
    have "scaled ?m = k * 2 ^ Suc j"
      unfolding scaled_def Let_def d using r(1) by simp
    moreover have "?m < inf_bits" using r(2) Suc.prems(2) by (simp add: inf_bits_def)
    ultimately show ?thesis by blast
  qed
qed

lemma scaled_one: "scaled (1023 * 2 ^ 52) = 2 ^ sub_exp"
  by (simp add: scaled_def sub_exp_def flip: power_add)

lemma f_one_scaled: "f_scaled f_one = 2 ^ sub_exp" "finite64 f_one"
proof -
  have fin: "1023 * 2 ^ 52 < inf_bits" by (simp add: inf_bits_def)
  have "f_scaled f_one = int (scaled (1023 * 2 ^ 52))"
    unfolding f_one_def mk_f64_scaled [OF fin] by (rule if_False)
  also have "\<dots> = 2 ^ sub_exp" unfolding scaled_one by simp
  finally show "f_scaled f_one = 2 ^ sub_exp" .
  show "finite64 f_one" unfolding f_one_def by (rule mk_f64_finite [OF fin])
qed

lemma f_minus_scaled:
  assumes "finite64 a"
  shows "f_scaled (f_minus a) = - f_scaled a" "finite64 (f_minus a)"
  using mk_f64_scaled [of "f_mag a" "\<not> f_neg a"] mk_f64_finite [of "f_mag a" "\<not> f_neg a"] assms
  by (simp_all add: f_minus_def f_scaled_finite [of a] finite64_def)

text \<open>Taking one from a value between one and \<open>2 ^ 52\<close> is exact.\<close>

lemma f_sub_one:
  assumes "finite64 a" "2 ^ sub_exp \<le> f_scaled a" "f_scaled a \<le> 2 ^ 52 * 2 ^ sub_exp"
  shows "f_scaled (f_sub a f_one) = f_scaled a - 2 ^ sub_exp \<and> finite64 (f_sub a f_one)"
proof -
  have pos: "f_scaled a = int (scaled (f_mag a))"
  proof -
    have "(0 :: int) < 2 ^ sub_exp" by simp
    with assms(2) have "0 < f_scaled a" by linarith
    then show ?thesis by (simp add: f_scaled_def split: if_splits)
  qed
  define e where "e = f_mag a div 2 ^ 52"
  define mt where "mt = f_mag a mod 2 ^ 52"
  have mt: "mt < 2 ^ 52" by (simp add: mt_def)
  have lower: "2 ^ sub_exp \<le> scaled (f_mag a)" and upper: "scaled (f_mag a) \<le> 2 ^ 52 * 2 ^ sub_exp"
  proof -
    have "int (2 ^ sub_exp) \<le> int (scaled (f_mag a))" "int (scaled (f_mag a)) \<le> int (2 ^ 52 * 2 ^ sub_exp)"
      using assms(2,3) unfolding pos by simp_all
    then show "2 ^ sub_exp \<le> scaled (f_mag a)" "scaled (f_mag a) \<le> 2 ^ 52 * 2 ^ sub_exp"
      by (simp_all only: of_nat_le_iff)
  qed
  have e0: "e \<noteq> 0"
  proof
    assume "e = 0"
    then have "scaled (f_mag a) = mt" by (simp add: scaled_def e_def mt_def Let_def)
    moreover have "(2::nat) ^ 52 \<le> 2 ^ sub_exp" by (intro power_increasing) (simp_all add: sub_exp_def)
    ultimately show False using lower mt by simp
  qed
  then have sc: "scaled (f_mag a) = (mt + 2 ^ 52) * 2 ^ (e - 1)"
    by (simp add: scaled_def e_def mt_def Let_def)
  have "2 ^ 52 * 2 ^ (e - 1) \<le> (mt + 2 ^ 52) * 2 ^ (e - 1)" by (rule mult_le_mono1) simp
  with upper sc have "2 ^ 52 * 2 ^ (e - 1) \<le> (2 ^ 52 * 2 ^ sub_exp :: nat)" by linarith
  then have "(2::nat) ^ (52 + (e - 1)) \<le> 2 ^ (52 + sub_exp)" by (simp only: power_add)
  then have "52 + (e - 1) \<le> 52 + sub_exp" by (rule power_le_imp_le_exp [rotated]) simp
  then have j: "e - 1 \<le> sub_exp" by simp
  have j2: "e - 1 \<le> 2000" using j by (simp add: sub_exp_def)
  then have one: "(2::nat) ^ sub_exp = 2 ^ (sub_exp - (e - 1)) * 2 ^ (e - 1)"
    using j by (simp flip: power_add)
  let ?k = "mt + 2 ^ 52 - 2 ^ (sub_exp - (e - 1))"
  have diff: "scaled (f_mag a) - 2 ^ sub_exp = ?k * 2 ^ (e - 1)"
    unfolding sc by (subst one) (rule diff_mult_distrib [symmetric])
  have k: "?k < 2 ^ 53" using mt by simp
  then obtain m where m: "m < inf_bits" "scaled m = scaled (f_mag a) - 2 ^ sub_exp"
    using representable [OF k j2] unfolding diff by blast
  have one': "f_scaled (f_minus f_one) = - (2 ^ sub_exp)" "finite64 (f_minus f_one)"
    using f_minus_scaled [OF f_one_scaled(2)] f_one_scaled(1) by simp_all
  have "nat \<bar>f_scaled a + f_scaled (f_minus f_one)\<bar> = scaled m"
  proof -
    have "int (scaled m) = int (scaled (f_mag a)) - 2 ^ sub_exp" unfolding m(2) using lower by simp
    then show ?thesis unfolding one' pos by simp
  qed
  from f_add_exact [OF assms(1) one'(2) this m(1)] one'(1) show ?thesis by (simp add: f_sub_def)
qed

end
