(* ===== verification/Pipeline_Knock.thy ===== *)
theory Pipeline_Knock
  imports Pipeline_Screen F64_Arith
begin

text \<open>
  Knock admission (\<open>crates/node/src/pipeline.rs\<close>): an unadmitted key's one frame is weighed
  against two persisted token buckets, routed through the chain as action \<open>knock\<close>, and then
  admitted, denied or parked for the owner.

  The budget's arithmetic is that of doubles. SQLite stores a double that is not a number as
  \<open>NULL\<close>, which the columns refuse.
\<close>

record knock_limits =
  kl_per_key_burst :: f64
  kl_per_key_refill_per_sec :: f64
  kl_global_burst :: f64
  kl_global_refill_per_sec :: f64

definition knock_limits_default :: knock_limits where
  "knock_limits_default =
     \<lparr>kl_per_key_burst = f_one, kl_per_key_refill_per_sec = mk_f64 False (round_mag 1 60),
      kl_global_burst = mk_f64 False (round_mag 20 1), kl_global_refill_per_sec = mk_f64 False (round_mag 10 60)\<rparr>"

definition find_bucket :: "'u node_db \<Rightarrow> string \<Rightarrow> budget_row option" where
  "find_bucket db bucket =
     (case nd_budget db of None \<Rightarrow> None | Some rows \<Rightarrow> List.find (\<lambda>r. bu_bucket r = bucket) rows)"

definition bucket_level :: "'u node_db \<Rightarrow> string \<Rightarrow> f64 \<Rightarrow> f64 \<Rightarrow> f64 \<Rightarrow> f64" where
  "bucket_level db bucket burst refill_per_sec now =
     (case find_bucket db bucket of
        Some r \<Rightarrow>
          let elapsed = f_max (f_sub now (bu_updated_at r)) f_zero
          in f_min (f_add (bu_tokens r) (f_mul elapsed refill_per_sec)) burst
      | None \<Rightarrow> burst)"

definition store_bucket :: "string \<Rightarrow> f64 \<Rightarrow> f64 \<Rightarrow> 'u node_db \<Rightarrow> 'u node_db" where
  "store_bucket bucket tokens now db =
     (case nd_budget db of
        None \<Rightarrow> db
      | Some rows \<Rightarrow>
          if is_nan tokens \<or> is_nan now then db
          else if bucket \<in> set (map bu_bucket rows)
          then db\<lparr>nd_budget := Some (map (\<lambda>r. if bu_bucket r = bucket
                 then r\<lparr>bu_tokens := tokens, bu_updated_at := now\<rparr> else r) rows)\<rparr>
          else db\<lparr>nd_budget := Some (rows @
                 [\<lparr>bu_bucket = bucket, bu_tokens = tokens, bu_updated_at = now\<rparr>])\<rparr>)"

definition spend_knock_token :: "string \<Rightarrow> knock_limits \<Rightarrow> f64 \<Rightarrow> 'u node_db \<Rightarrow> bool \<times> 'u node_db" where
  "spend_knock_token peer lim now db =
     (let per_key = bucket_level db peer (kl_per_key_burst lim) (kl_per_key_refill_per_sec lim) now;
          global = bucket_level db ''*'' (kl_global_burst lim) (kl_global_refill_per_sec lim) now;
          grant = (f_le f_one per_key \<and> f_le f_one global);
          db1 = store_bucket peer (if grant then f_sub per_key f_one else per_key) now db;
          db2 = store_bucket ''*'' (if grant then f_sub global f_one else global) now db1
      in (grant, db2))"

text \<open>Admission; an error of the insertion is only logged.\<close>

definition admit_peer :: "node_env \<Rightarrow> string \<Rightarrow> string \<Rightarrow> 'u node_db \<Rightarrow> 'u node_db" where
  "admit_peer env peer i db =
     (case insert_peer \<lparr>pe_endpoint_id = peer, pe_added_at = now_rfc3339 env,
              pe_notes = Some (''admitted via knock '' @ i)\<rparr> (nd_auth db) of
        None \<Rightarrow> db
      | Some a \<Rightarrow> db\<lparr>nd_auth := a\<rparr>)"

text \<open>The first row by time and id, as \<open>ORDER BY received_at, request_id LIMIT 1\<close>.\<close>

definition earlier :: "inbox_row \<Rightarrow> inbox_row \<Rightarrow> bool" where
  "earlier r q \<longleftrightarrow> ib_received_at r < ib_received_at q
     \<or> (ib_received_at r = ib_received_at q \<and> ib_request_id r < ib_request_id q)"

fun earliest :: "inbox_row list \<Rightarrow> inbox_row option" where
  "earliest [] = None"
| "earliest (r # rows) =
     (case earliest rows of None \<Rightarrow> Some r | Some q \<Rightarrow> Some (if earlier q r then q else r))"

definition pending_knock :: "string \<Rightarrow> inbox_row \<Rightarrow> bool" where
  "pending_knock peer r \<longleftrightarrow> ib_peer r = peer \<and> ib_decision r = None \<and> ib_sql r = []"

definition park_knock :: "node_env \<Rightarrow> string \<Rightarrow> string \<Rightarrow> string \<Rightarrow> 'u node_db \<Rightarrow> string \<times> 'u node_db" where
  "park_knock env peer i message db =
     (case (case db_inbox (nd_auth db) of
              None \<Rightarrow> None | Some rows \<Rightarrow> earliest (filter (pending_knock peer) rows)) of
        Some r \<Rightarrow> (ib_request_id r, db)
      | None \<Rightarrow>
          (i, case insert_inbox
                 \<lparr>ib_request_id = i, ib_peer = peer, ib_sql = [], ib_params = ''knock: '' @ message,
                  ib_decision = None, ib_decided_by = None, ib_received_at = now_rfc3339 env\<rparr> (nd_auth db) of
                None \<Rightarrow> db
              | Some a \<Rightarrow> db\<lparr>nd_auth := a\<rparr>))"

datatype knock_reply =
    Dropped
  | KnockDecision string string string "string option"

text \<open>The answer that the owner will decide.\<close>

definition parked_reply :: "string \<Rightarrow> knock_reply" where
  "parked_reply i =
     KnockDecision i ''pending'' ''node''
       (Some (''your knock is parked for the owner's decision (pending id '' @ i @ '')''))"

text \<open>\<open>fresh\<close> is the identifier generated when the client sent no well-formed one.\<close>

definition knock_id :: "ulid \<Rightarrow> string option \<Rightarrow> string \<Rightarrow> string" where
  "knock_id u client fresh =
     (case client of
        None \<Rightarrow> fresh
      | Some s \<Rightarrow> (case ulid_parse u s of None \<Rightarrow> fresh | Some b \<Rightarrow> ulid_string u b))"

definition weigh_knock ::
  "ulid \<Rightarrow> config_json \<Rightarrow> registry \<Rightarrow> knock_limits \<Rightarrow> node_env \<Rightarrow> string \<Rightarrow> string
    \<Rightarrow> string option \<Rightarrow> string \<Rightarrow> 'u node_db \<Rightarrow> knock_reply \<times> 'u node_db" where
  "weigh_knock u j reg lim env fresh peer client message db =
     (let i = knock_id u client fresh
      in if peer_known db peer
         then (KnockDecision i ''allow'' ''node'' (Some ''you are already admitted''),
               audit_direct env peer i [] ''allow'' ''node'' ''knock from an already admitted peer'' db)
         else case spend_knock_token peer lim (env_now (ne_call env)) db of
           (False, db1) \<Rightarrow> (Dropped, db1)
         | (True, db1) \<Rightarrow>
             let (decided, db2) = decide_on j reg env
                   \<lparr>rq_peer = peer, rq_action = ''knock'', rq_footprint = footprint_default,
                    rq_statement = message\<rparr> db1;
                 by_tier = dc_decided_by decided;
                 row = (\<lambda>decision decided_by reason.
                   snd (audit_full env peer i [] ''{}'' decision decided_by (Some reason) (ne_duration_ms env) db2));
                 admitted =
                   (KnockDecision i ''allow'' by_tier (Some ''admitted''),
                    admit_peer env peer i (row ''allow'' by_tier ''knock admitted''))
             in case dc_decision decided of
                  Allow \<Rightarrow> admitted
                | AllowNarrowed _ \<Rightarrow> admitted
                | Deny reason \<Rightarrow>
                    if by_tier = ''default''
                    then (case park_knock env peer i message
                                 (row ''deny'' ''default'' ''knock parked for the owner'') of
                            (i', db3) \<Rightarrow> (parked_reply i', db3))
                    else (KnockDecision i ''deny'' by_tier (Some reason), row ''deny'' by_tier reason)
                | Escalate \<Rightarrow>
                    (case park_knock env peer i message
                            (row ''deny'' ''node'' ''knock parked (chain escalated)'') of
                       (i', db3) \<Rightarrow> (parked_reply i', db3)))"

text \<open>The frame the knock is answered with; a dropped knock gets none.\<close>

definition serve_knock ::
  "ulid \<Rightarrow> config_json \<Rightarrow> registry \<Rightarrow> knock_limits \<Rightarrow> node_env \<Rightarrow> string \<Rightarrow> string
    \<Rightarrow> knock \<Rightarrow> 'u node_db \<Rightarrow> envelope_object list \<times> 'u node_db" where
  "serve_knock u j reg lim env fresh peer k db =
     (case weigh_knock u j reg lim env fresh peer (kn_id k) (kn_message k) db of
        (Dropped, db') \<Rightarrow> ([], db')
      | (KnockDecision i decision decided_by reason, db') \<Rightarrow>
          ([Decision \<lparr>wd_id = Some i, wd_decision = decision, wd_decided_by = decided_by,
                      wd_reason = reason, wd_at = Some (now_rfc3339 env)\<rparr>], db'))"

subsection \<open>The budget\<close>

text \<open>
  Limits whose bursts are numbers up to \<open>2 ^ 52\<close>, so that taking a token is exact, and whose
  refill rates are numbers.
\<close>

definition limits_ok :: "knock_limits \<Rightarrow> bool" where
  "limits_ok lim \<longleftrightarrow>
     finite64 (kl_per_key_burst lim) \<and> finite64 (kl_global_burst lim)
     \<and> finite64 (kl_per_key_refill_per_sec lim) \<and> finite64 (kl_global_refill_per_sec lim)
     \<and> f_scaled (kl_per_key_burst lim) \<le> 2 ^ 52 * 2 ^ sub_exp
     \<and> f_scaled (kl_global_burst lim) \<le> 2 ^ 52 * 2 ^ sub_exp"

text \<open>The stored levels are numbers, and no bucket was refilled before \<open>t\<close>.\<close>

definition calm :: "'u node_db \<Rightarrow> f64 \<Rightarrow> bool" where
  "calm db t \<longleftrightarrow> (\<exists>rows. nd_budget db = Some rows
     \<and> (\<forall>r \<in> set rows. finite64 (bu_tokens r) \<and> finite64 (bu_updated_at r)
          \<and> f_scaled t \<le> f_scaled (bu_updated_at r)))"

text \<open>What a bucket holds, in units of the last bit of a double.\<close>

definition holds :: "'u node_db \<Rightarrow> string \<Rightarrow> f64 \<Rightarrow> int" where
  "holds db bucket burst =
     (case find_bucket db bucket of
        None \<Rightarrow> f_scaled burst
      | Some r \<Rightarrow> min (f_scaled (bu_tokens r)) (f_scaled burst))"

lemma scaled_zero_mag: "scaled mag = 0 \<Longrightarrow> mag = 0"
  by (auto simp: scaled_def Let_def split: if_splits)

lemma f_zero_scaled: "f_scaled f_zero = 0" "finite64 f_zero"
proof -
  have "0 < inf_bits" by (simp add: inf_bits_def)
  from mk_f64_scaled [OF this, of False] mk_f64_finite [OF this, of False]
  show "f_scaled f_zero = 0" "finite64 f_zero" by (simp_all add: f_zero_def)
qed

lemma round_mag_le: "round_mag n d \<le> inf_bits"
  by (simp add: round_mag_def Let_def)

lemma f_scaled_zero_finite: "f_scaled a = 0 \<Longrightarrow> f_mag a = 0 \<and> finite64 a"
  by (auto simp: f_scaled_def finite64_def inf_bits_def dest: scaled_zero_mag split: if_splits)

text \<open>A clock that did not advance refills nothing.\<close>

lemma no_elapsed:
  assumes "finite64 now" "finite64 before" "f_scaled now \<le> f_scaled before"
  shows "f_scaled (f_max (f_sub now before) f_zero) = 0"
proof -
  note minus = f_minus_scaled [OF assms(2)]
  define s where "s = f_scaled now + f_scaled (f_minus before)"
  let ?m = "round_mag (nat \<bar>s\<bar>) (2 ^ sub_exp)"
  have neg: "s \<le> 0" using assms(3) minus(1) by (simp add: s_def)
  have d: "f_sub now before = mk_f64 (s < 0 \<or> (s = 0 \<and> f_neg now \<and> f_neg (f_minus before))) ?m"
    using finite64_cases [OF assms(1)] finite64_cases [OF minus(2)]
    by (simp add: f_sub_def f_add_def Let_def s_def)
  have m: "?m < sign_bit" using round_mag_le inf_bits_less by blast
  have sc: "f_scaled (f_sub now before) \<le> 0"
  proof (cases "s = 0")
    case True
    then have "?m = 0" by (simp add: round_mag_def Let_def rne_def)
    moreover have "0 < inf_bits" by (simp add: inf_bits_def)
    ultimately show ?thesis using mk_f64_scaled [of 0] by (simp add: d)
  next
    case False
    with neg have "f_sub now before = mk_f64 True ?m" by (simp add: d)
    then show ?thesis by (simp add: f_scaled_finite [of "mk_f64 True ?m"] mk_f64_sel [OF m])
  qed
  have nan: "\<not> is_nan (f_sub now before)"
    unfolding d is_nan_def mk_f64_sel(1) [OF m] using round_mag_le [of "nat \<bar>s\<bar>" "2 ^ sub_exp"] by simp
  show ?thesis
    using sc nan finite64_cases [OF f_zero_scaled(2)] f_zero_scaled(1)
    by (auto simp: f_max_def f_less_def)
qed

lemma f_mul_zero:
  assumes "f_scaled a = 0" "finite64 b"
  shows "f_scaled (f_mul a b) = 0 \<and> finite64 (f_mul a b)"
proof -
  have "0 < inf_bits" by (simp add: inf_bits_def)
  from mk_f64_scaled [OF this] mk_f64_finite [OF this] f_scaled_zero_finite [OF assms(1)]
    finite64_cases [of a] finite64_cases [OF assms(2)]
  show ?thesis by (simp add: f_mul_def round_mag_def Let_def rne_def)
qed

lemma f_min_scaled:
  "finite64 a \<Longrightarrow> finite64 b \<Longrightarrow> f_scaled (f_min a b) = min (f_scaled a) (f_scaled b) \<and> finite64 (f_min a b)"
  by (auto simp: f_min_def f_less_def finite64_cases)

lemma bucket_level_calm:
  assumes "calm db now" "finite64 now" "finite64 burst" "finite64 rate"
  shows "f_scaled (bucket_level db b burst rate now) = holds db b burst
    \<and> finite64 (bucket_level db b burst rate now)"
proof (cases "find_bucket db b")
  case None
  with assms(3) show ?thesis by (simp add: bucket_level_def holds_def)
next
  case (Some r)
  then have "\<exists>rows. nd_budget db = Some rows \<and> r \<in> set rows"
    by (auto simp: find_bucket_def find_Some_iff split: option.splits)
  with assms(1) have r: "finite64 (bu_tokens r)" "finite64 (bu_updated_at r)" "f_scaled now \<le> f_scaled (bu_updated_at r)"
    by (auto simp: calm_def)
  from f_mul_zero [OF no_elapsed [OF assms(2) r(2,3)] assms(4)]
  have add: "f_scaled (f_add (bu_tokens r) (f_mul (f_max (f_sub now (bu_updated_at r)) f_zero) rate)) = f_scaled (bu_tokens r)
      \<and> finite64 (f_add (bu_tokens r) (f_mul (f_max (f_sub now (bu_updated_at r)) f_zero) rate))"
    using f_add_zero [OF r(1)] by blast
  with f_min_scaled [of _ burst] assms(3) show ?thesis
    by (simp add: bucket_level_def holds_def Some Let_def)
qed

lemma find_map_other: "b' \<noteq> b \<Longrightarrow>
    List.find (\<lambda>r. bu_bucket r = b') (map (\<lambda>r. if bu_bucket r = b then r\<lparr>bu_tokens := t, bu_updated_at := n\<rparr> else r) rows)
    = List.find (\<lambda>r. bu_bucket r = b') rows"
  by (induction rows) auto

lemma find_map_same: "b \<in> set (map bu_bucket rows) \<Longrightarrow>
    \<exists>r. List.find (\<lambda>r. bu_bucket r = b) (map (\<lambda>r. if bu_bucket r = b then r\<lparr>bu_tokens := t, bu_updated_at := n\<rparr> else r) rows)
    = Some r \<and> bu_tokens r = t \<and> bu_updated_at r = n"
  by (induction rows) auto

lemma find_append_other: "b' \<noteq> bu_bucket x \<Longrightarrow> List.find (\<lambda>r. bu_bucket r = b') (rows @ [x]) = List.find (\<lambda>r. bu_bucket r = b') rows"
  by (induction rows) auto

lemma find_append_same: "bu_bucket x \<notin> set (map bu_bucket rows) \<Longrightarrow>
    List.find (\<lambda>r. bu_bucket r = bu_bucket x) (rows @ [x]) = Some x"
  by (induction rows) auto

lemma store_bucket_holds:
  assumes "calm db now" "finite64 t" "finite64 now"
  shows "holds (store_bucket b t now db) b' burst =
      (if b' = b then min (f_scaled t) (f_scaled burst) else holds db b' burst)"
    and "calm (store_bucket b t now db) now"
proof -
  from assms(1) obtain rows where rows: "nd_budget db = Some rows" by (auto simp: calm_def)
  note nn = finite64_cases [OF assms(2)] finite64_cases [OF assms(3)]
  show "holds (store_bucket b t now db) b' burst =
      (if b' = b then min (f_scaled t) (f_scaled burst) else holds db b' burst)"
  proof (cases "b \<in> set (map bu_bucket rows)")
    case True
    with rows nn find_map_same [OF True, where t = t and n = now] find_map_other [where b = b and b' = b' and t = t and n = now and rows = rows] show ?thesis
      by (auto simp: store_bucket_def holds_def find_bucket_def)
  next
    case False
    with rows nn find_append_same [of "\<lparr>bu_bucket = b, bu_tokens = t, bu_updated_at = now\<rparr>" rows]
      find_append_other [of b' "\<lparr>bu_bucket = b, bu_tokens = t, bu_updated_at = now\<rparr>" rows]
    show ?thesis by (auto simp: store_bucket_def holds_def find_bucket_def)
  qed
  show "calm (store_bucket b t now db) now"
    using assms rows nn by (auto simp: calm_def store_bucket_def)
qed

lemma calm_earlier: "calm db t \<Longrightarrow> f_scaled t' \<le> f_scaled t \<Longrightarrow> calm db t'"
  by (fastforce simp: calm_def)

subsection \<open>Spending\<close>

text \<open>One step of the budget while the clock does not advance.\<close>

lemma spend_step:
  assumes "limits_ok lim" "calm db now" "finite64 now" "peer \<noteq> ''*''"
    and "spend_knock_token peer lim now db = (g, db')"
  shows "calm db' now"
    and "g \<longleftrightarrow> 2 ^ sub_exp \<le> holds db peer (kl_per_key_burst lim) \<and> 2 ^ sub_exp \<le> holds db ''*'' (kl_global_burst lim)"
    and "holds db' peer (kl_per_key_burst lim) = holds db peer (kl_per_key_burst lim) - (if g then 2 ^ sub_exp else 0)"
    and "holds db' ''*'' (kl_global_burst lim) = holds db ''*'' (kl_global_burst lim) - (if g then 2 ^ sub_exp else 0)"
    and "b \<noteq> peer \<Longrightarrow> b \<noteq> ''*'' \<Longrightarrow> holds db' b burst = holds db b burst"
proof -
  note ok = assms(1) [unfolded limits_ok_def]
  let ?k = "bucket_level db peer (kl_per_key_burst lim) (kl_per_key_refill_per_sec lim) now"
  let ?w = "bucket_level db ''*'' (kl_global_burst lim) (kl_global_refill_per_sec lim) now"
  have k: "f_scaled ?k = holds db peer (kl_per_key_burst lim)" "finite64 ?k"
    and w: "f_scaled ?w = holds db ''*'' (kl_global_burst lim)" "finite64 ?w"
    using bucket_level_calm [OF assms(2,3)] ok by blast+
  have le: "holds db b burst \<le> f_scaled burst" for b burst
    by (simp add: holds_def split: option.split)
  have g: "g \<longleftrightarrow> f_le f_one ?k \<and> f_le f_one ?w"
    and db': "db' = store_bucket ''*'' (if g then f_sub ?w f_one else ?w) now
        (store_bucket peer (if g then f_sub ?k f_one else ?k) now db)"
    using assms(5) by (auto simp: spend_knock_token_def Let_def)
  show grant: "g \<longleftrightarrow> 2 ^ sub_exp \<le> holds db peer (kl_per_key_burst lim) \<and> 2 ^ sub_exp \<le> holds db ''*'' (kl_global_burst lim)"
    unfolding g using k w by (simp add: f_le_def f_one_scaled finite64_cases)
  have sub: "f_scaled (if g then f_sub x f_one else x) = f_scaled x - (if g then 2 ^ sub_exp else 0)
      \<and> finite64 (if g then f_sub x f_one else x)"
    if "finite64 x" "g \<Longrightarrow> 2 ^ sub_exp \<le> f_scaled x" "f_scaled x \<le> 2 ^ 52 * 2 ^ sub_exp" for x
    using f_sub_one [OF that(1)] that by simp
  have k': "f_scaled (if g then f_sub ?k f_one else ?k) = holds db peer (kl_per_key_burst lim) - (if g then 2 ^ sub_exp else 0)"
      "finite64 (if g then f_sub ?k f_one else ?k)"
    using sub [OF k(2)] grant k(1) ok le [of peer "kl_per_key_burst lim"] by linarith+
  have w': "f_scaled (if g then f_sub ?w f_one else ?w) = holds db ''*'' (kl_global_burst lim) - (if g then 2 ^ sub_exp else 0)"
      "finite64 (if g then f_sub ?w f_one else ?w)"
    using sub [OF w(2)] grant w(1) ok le [of "''*''" "kl_global_burst lim"] by linarith+
  note s1 = store_bucket_holds [OF assms(2) k'(2) assms(3), of peer]
  note s2 = store_bucket_holds [OF s1(2) w'(2) assms(3), of "''*''"]
  have pos: "(0 :: int) \<le> (if g then 2 ^ sub_exp else 0)" by simp
  show "calm db' now" unfolding db' by (rule s2(2))
  show "holds db' peer (kl_per_key_burst lim) = holds db peer (kl_per_key_burst lim) - (if g then 2 ^ sub_exp else 0)"
    using le [of peer "kl_per_key_burst lim"] pos assms(4) unfolding db' s2(1) s1(1) k'(1) by simp
  show "holds db' ''*'' (kl_global_burst lim) = holds db ''*'' (kl_global_burst lim) - (if g then 2 ^ sub_exp else 0)"
    using le [of "''*''" "kl_global_burst lim"] pos unfolding db' s2(1) w'(1) by simp
  show "holds db' b burst = holds db b burst" if "b \<noteq> peer" "b \<noteq> ''*''"
    using that unfolding db' s2(1) s1(1) by simp
qed

text \<open>A run of knocks, each with its clock reading; the answer is the peers a token was granted.\<close>

fun spend_run :: "knock_limits \<Rightarrow> (string \<times> f64) list \<Rightarrow> 'u node_db \<Rightarrow> string list \<times> 'u node_db" where
  "spend_run lim [] db = ([], db)"
| "spend_run lim ((peer, now) # ks) db =
     (case spend_knock_token peer lim now db of
        (g, db1) \<Rightarrow> (case spend_run lim ks db1 of (ps, db2) \<Rightarrow> (if g then peer # ps else ps, db2)))"

lemma spend_run_bound:
  assumes "limits_ok lim" "\<forall>(peer, now) \<in> set ks. finite64 now \<and> peer \<noteq> ''*'' \<and> calm db now"
    and "sorted_wrt (\<lambda>(p, t) (q, s). f_scaled s \<le> f_scaled t) ks"
    and "spend_run lim ks db = (ps, db')"
  shows "int (count_list ps peer) * 2 ^ sub_exp \<le> max 0 (holds db peer (kl_per_key_burst lim)) \<or> peer = ''*''"
    and "int (length ps) * 2 ^ sub_exp \<le> max 0 (holds db ''*'' (kl_global_burst lim))"
  using assms(2-4)
proof (induction ks arbitrary: db ps)
  case Nil
  { case 1 then show ?case by simp }
  { case 2 then show ?case by simp }
next
  case (Cons kn ks)
  obtain p now where kn: "kn = (p, now)" by (cases kn)
  have step: "int (count_list ps peer) * 2 ^ sub_exp \<le> max 0 (holds db peer (kl_per_key_burst lim)) \<or> peer = ''*''"
      "int (length ps) * 2 ^ sub_exp \<le> max 0 (holds db ''*'' (kl_global_burst lim))"
    if prems: "\<forall>(peer, now) \<in> set (kn # ks). finite64 now \<and> peer \<noteq> ''*'' \<and> calm db now"
      "sorted_wrt (\<lambda>(p, t) (q, s). f_scaled s \<le> f_scaled t) (kn # ks)"
      "spend_run lim (kn # ks) db = (ps, db')" for db ps
  proof -
    from prems(1) kn have now: "finite64 now" "p \<noteq> ''*''" "calm db now" by auto
    obtain g db1 where s: "spend_knock_token p lim now db = (g, db1)" by fastforce
    obtain ps1 where r: "spend_run lim ks db1 = (ps1, db')" and ps: "ps = (if g then p # ps1 else ps1)"
      using prems(3) s kn by (auto split: prod.splits)
    note st = spend_step [OF assms(1) now(3,1,2) s]
    have rest: "\<forall>(peer, t) \<in> set ks. finite64 t \<and> peer \<noteq> ''*'' \<and> calm db1 t"
      using prems(1,2) kn calm_earlier [OF st(1)] by fastforce
    have sorted: "sorted_wrt (\<lambda>(p, t) (q, s). f_scaled s \<le> f_scaled t) ks" using prems(2) by simp
    have one: "(1 :: int) \<le> 2 ^ sub_exp" by simp
    note IH = Cons.IH [OF rest sorted r]
    show "int (count_list ps peer) * 2 ^ sub_exp \<le> max 0 (holds db peer (kl_per_key_burst lim)) \<or> peer = ''*''"
    proof (cases "peer = p")
      case True
      with IH(1) st(2,3) show ?thesis
        by (cases g) (auto simp: ps distrib_right max_def split: if_splits)
    next
      case False
      with IH(1) st(5) [of peer] show ?thesis by (cases g) (auto simp: ps)
    qed
    show "int (length ps) * 2 ^ sub_exp \<le> max 0 (holds db ''*'' (kl_global_burst lim))"
      using IH(2) st(2,4) by (cases g) (auto simp: ps distrib_right max_def split: if_splits)
  qed
  { case 1 then show ?case by (rule step(1)) }
  { case 2 then show ?case by (rule step(2)) }
qed

end
