(* ===== verification/Sql_Row.thy ===== *)
theory Sql_Row
  imports Node_Db
begin

text \<open>
  One SQLite row as a protocol row (\<open>row_from_sql\<close> of \<open>crates/node/src/pipeline.rs\<close>), with the
  estimate of its encoded size. A text cell is bytes; the standard library's lossy reading
  replaces each maximal ill-formed part by U+FFFD.
\<close>

datatype sql_value = SNull | SInteger int | SReal f64 | SText "byte list" | SBlob "byte list"

definition replacement :: "nat list" where
  "replacement = [239, 191, 189]"

definition lossy_step :: "nat \<Rightarrow> nat list \<Rightarrow> nat list \<times> nat list" where
  "lossy_step a r =
     (if a < 128 then ([a], r)
      else if 194 \<le> a \<and> a \<le> 223 then
        (case r of
           b # r1 \<Rightarrow> if cont_byte b then ([a, b], r1) else (replacement, r)
         | [] \<Rightarrow> (replacement, r))
      else if 224 \<le> a \<and> a \<le> 239 then
        (case r of
           b # r1 \<Rightarrow>
             if \<not> second3 a b then (replacement, r)
             else (case r1 of
                     c # r2 \<Rightarrow> if cont_byte c then ([a, b, c], r2) else (replacement, r1)
                   | [] \<Rightarrow> (replacement, r1))
         | [] \<Rightarrow> (replacement, r))
      else if 240 \<le> a \<and> a \<le> 244 then
        (case r of
           b # r1 \<Rightarrow>
             if \<not> second4 a b then (replacement, r)
             else (case r1 of
                     c # r2 \<Rightarrow>
                       if \<not> cont_byte c then (replacement, r1)
                       else (case r2 of
                               d # r3 \<Rightarrow> if cont_byte d then ([a, b, c, d], r3) else (replacement, r2)
                             | [] \<Rightarrow> (replacement, r2))
                   | [] \<Rightarrow> (replacement, r1))
         | [] \<Rightarrow> (replacement, r))
      else (replacement, r))"

lemma lossy_step_shorter: "length (snd (lossy_step a r)) \<le> length r"
  by (simp add: lossy_step_def split: list.split)

function utf8_lossy :: "nat list \<Rightarrow> nat list" where
  "utf8_lossy [] = []"
| "utf8_lossy (a # r) = (case lossy_step a r of (part, rest) \<Rightarrow> part @ utf8_lossy rest)"
  by pat_completeness auto

termination utf8_lossy
proof (relation "measure length")
  fix a r and part rest :: "nat list"
  assume "(part, rest) = lossy_step a r"
  then show "(rest, a # r) \<in> measure length"
    using lossy_step_shorter [of a r] by (metis in_measure length_Cons less_Suc_eq_le snd_conv)
qed simp

definition from_utf8_lossy :: "byte list \<Rightarrow> string" where
  "from_utf8_lossy bs = map char_of (utf8_lossy (map unat bs))"

text \<open>The value of a cell and its share of the estimate; \<open>None\<close> for a cell that is left out.\<close>

fun cell_value :: "sql_value \<Rightarrow> (wire_value \<times> nat) option" where
  "cell_value SNull = None"
| "cell_value (SInteger i) = Some (Integer i, 20)"
| "cell_value (SReal f) = Some (Real f, 26)"
| "cell_value (SText bs) = Some (Text (from_utf8_lossy bs), length bs + 16)"
| "cell_value (SBlob bs) = Some (Blob bs, length bs * 4 div 3 + 32)"

fun cells_from :: "nat \<Rightarrow> string list \<Rightarrow> sql_value list \<Rightarrow> (sqlite_error, (string \<times> wire_value) list \<times> nat) result" where
  "cells_from i [] cells = Inr ([], 0)"
| "cells_from i (name # names) [] = Inl (SqliteFailure OtherCode (''Invalid column index: '' @ show_nat i))"
| "cells_from i (name # names) (c # cs) =
     rbind (cells_from (Suc i) names cs) (\<lambda>(cells, est).
       Inr (case cell_value c of
              None \<Rightarrow> (cells, est)
            | Some (v, n) \<Rightarrow> ((name, v) # cells, n + (length name + 12) + est)))"

definition row_from_sql :: "sql_value list \<Rightarrow> string list \<Rightarrow> int \<Rightarrow> (sqlite_error, row \<times> nat) result" where
  "row_from_sql cells columns seq =
     rbind (cells_from 0 columns cells) (\<lambda>(out, est). Inr (\<lparr>row_seq = seq, row_cells = out\<rparr>, 32 + est))"

definition header_estimate :: "string list \<Rightarrow> int" where
  "header_estimate columns = int (64 + sum_list (map (\<lambda>c. length c + 8) columns))"

subsection \<open>Lossy reading\<close>

lemma replacement_ok: "utf8_ok (replacement @ xs) \<longleftrightarrow> utf8_ok xs"
  by (simp add: replacement_def utf8_ok.simps(2) second3_def cont_byte_def)

text \<open>A part is a well-formed character or the replacement, and bytes stay bytes.\<close>

lemma lossy_step_part:
  "utf8_ok (fst (lossy_step a r) @ xs) \<longleftrightarrow> utf8_ok xs"
  by (simp add: lossy_step_def replacement_ok utf8_ok.simps(2) split: list.split)

lemma lossy_step_bytes:
  assumes "\<forall>b \<in> set (a # r). b < 256"
  shows "\<forall>b \<in> set (fst (lossy_step a r)). b < 256" "\<forall>b \<in> set (snd (lossy_step a r)). b < 256"
  using assms by (simp_all add: lossy_step_def replacement_def split: list.split)

lemma lossy_step_exact:
  "utf8_ok (a # r) \<Longrightarrow> fst (lossy_step a r) @ snd (lossy_step a r) = a # r"
  by (auto simp: lossy_step_def utf8_ok.simps(2) [of a] second3_def second4_def split: list.splits if_splits)

lemma utf8_lossy_ok: "utf8_ok bs \<Longrightarrow> utf8_lossy bs = bs"
proof (induction bs rule: utf8_lossy.induct)
  case (2 a r)
  obtain part rest where s: "lossy_step a r = (part, rest)" by (cases "lossy_step a r")
  have e: "part @ rest = a # r" using lossy_step_exact [OF 2(2)] s by simp
  then have "utf8_ok rest" using lossy_step_part [of a r rest] s 2(2) by simp
  then show ?case using 2(1) [OF s [symmetric]] e s by simp
qed simp

text \<open>Whatever the bytes, the result is well-formed text.\<close>

lemma utf8_lossy_well_formed: "utf8_ok (utf8_lossy bs)"
proof (induction bs rule: utf8_lossy.induct)
  case (2 a r)
  obtain part rest where s: "lossy_step a r = (part, rest)" by (cases "lossy_step a r")
  then show ?case using 2 lossy_step_part [of a r "utf8_lossy rest"] by simp
qed simp

lemma utf8_lossy_bytes: "\<forall>b \<in> set bs. b < 256 \<Longrightarrow> \<forall>b \<in> set (utf8_lossy bs). b < 256"
proof (induction bs rule: utf8_lossy.induct)
  case (2 a r)
  obtain part rest where s: "lossy_step a r = (part, rest)" by (cases "lossy_step a r")
  then show ?case using 2 lossy_step_bytes [OF 2(2)] by (simp add: ball_Un)
qed simp

lemma from_utf8_lossy_utf8: "utf8_string (from_utf8_lossy bs)"
proof -
  have "\<forall>b \<in> set (utf8_lossy (map unat bs)). b < 256"
    by (rule utf8_lossy_bytes) (auto simp: byte_bound)
  then have "map of_char (from_utf8_lossy bs) = utf8_lossy (map unat bs)"
    by (auto simp: from_utf8_lossy_def intro!: map_idI)
  then show ?thesis using utf8_lossy_well_formed by (simp add: utf8_string_def)
qed

lemma from_utf8_lossy_id: "from_utf8 bs = Some s \<Longrightarrow> from_utf8_lossy bs = s"
  by (auto simp: from_utf8_def from_utf8_lossy_def utf8_lossy_ok char_of_byte_def split: if_splits)

subsection \<open>Rows\<close>

lemma cells_from_names:
  "cells_from i names cs = Inr (cells, est) \<Longrightarrow> fst ` set cells \<subseteq> set names"
proof (induction names arbitrary: i cs cells est)
  case (Cons name names)
  from Cons.prems obtain c cs' where c: "cs = c # cs'" by (cases cs) auto
  with Cons.prems obtain cells' est' where
    r: "cells_from (Suc i) names cs' = Inr (cells', est')" by (auto simp: rbind_Inr_iff)
  with Cons.prems c have "cells = cells' \<or> (\<exists>v. cells = (name, v) # cells')"
    by (auto split: option.splits)
  then have "fst ` set cells \<subseteq> insert name (fst ` set cells')" by auto
  moreover have "insert name (fst ` set cells') \<subseteq> set (name # names)" using Cons.IH [OF r] by auto
  ultimately show ?case by (rule subset_trans)
qed simp

lemma row_from_sql_Inr:
  assumes "row_from_sql cells columns seq = Inr (r, est)"
  shows "row_seq r = seq" "fst ` set (row_cells r) \<subseteq> set columns" "32 \<le> est"
proof -
  obtain out n where o: "cells_from 0 columns cells = Inr (out, n)"
    using assms by (cases "cells_from 0 columns cells") (auto simp: row_from_sql_def)
  with assms have "r = \<lparr>row_seq = seq, row_cells = out\<rparr>" "est = 32 + n"
    by (simp_all add: row_from_sql_def)
  with cells_from_names [OF o] show "row_seq r = seq" "fst ` set (row_cells r) \<subseteq> set columns" "32 \<le> est"
    by simp_all
qed

end
