(* ===== verification/Pipeline_Exec.thy ===== *)
theory Pipeline_Exec
  imports Pipeline_Screen Sql_Row Response
begin

text \<open>
  Job B of the serving pipeline (\<open>crates/node/src/pipeline.rs\<close>): a cleared statement is
  executed under the enforce callback, in a transaction, and its result is streamed.

  SQLite is a parameter: whether a transaction can begin or commit, and what a prepared
  statement yields. A run is the statement's cursor: the \<open>n\<close>-th fetch first makes its
  progress callbacks (given by their clock readings, in milliseconds since the handler was
  installed), then answers a row, the end or an error; after \<open>n\<close> fetches the database inside
  the transaction is \<open>rn_db n\<close>. Sizes are unbounded here; as \<open>usize\<close> and \<open>i64\<close> they are
  those of in-memory data.
\<close>

subsection \<open>Limits\<close>

record node_config =
  nc_max_rows :: int
  nc_max_response_bytes :: int
  nc_max_duration_ms :: nat
  nc_vdbe_step_budget :: nat
  nc_rows_per_frame :: nat
  nc_frame_byte_budget :: nat
  nc_pragma_allowlist :: "string list"
  nc_max_mod_memory_mb :: nat

definition node_config_default :: node_config where
  "node_config_default =
     \<lparr>nc_max_rows = 100000, nc_max_response_bytes = 8 * 1024 * 1024, nc_max_duration_ms = 30000,
      nc_vdbe_step_budget = 50000000, nc_rows_per_frame = 128, nc_frame_byte_budget = 96 * 1024,
      nc_pragma_allowlist = [], nc_max_mod_memory_mb = 256\<rparr>"

record limits =
  lm_row_cap :: int
  lm_byte_cap :: int
  lm_timeout_ms :: nat
  lm_step_budget :: nat

definition effective_limits :: "request_options \<Rightarrow> node_config \<Rightarrow> limits" where
  "effective_limits opts cfg =
     \<lparr>lm_row_cap = (case ro_row_limit opts of
          Some v \<Rightarrow> if 0 \<le> v then min v (nc_max_rows cfg) else nc_max_rows cfg
        | None \<Rightarrow> nc_max_rows cfg),
      lm_byte_cap = (case ro_byte_limit opts of
          Some v \<Rightarrow> if 0 < v then min v (nc_max_response_bytes cfg) else nc_max_response_bytes cfg
        | None \<Rightarrow> nc_max_response_bytes cfg),
      lm_timeout_ms = (case ro_timeout_ms opts of
          Some v \<Rightarrow> if 0 < v then min (nat v) (nc_max_duration_ms cfg) else nc_max_duration_ms cfg
        | None \<Rightarrow> nc_max_duration_ms cfg),
      lm_step_budget = nc_vdbe_step_budget cfg\<rparr>"

definition PROGRESS_GRANULARITY :: nat where
  "PROGRESS_GRANULARITY = 500"

text \<open>The progress handler: the cpu meter and the wall-clock backstop. \<open>True\<close> interrupts.\<close>

record meter =
  mt_units :: nat
  mt_steps_exceeded :: bool
  mt_timed_out :: bool

definition meter_new :: meter where
  "meter_new = \<lparr>mt_units = 0, mt_steps_exceeded = False, mt_timed_out = False\<rparr>"

definition progress :: "limits \<Rightarrow> nat \<Rightarrow> meter \<Rightarrow> bool \<times> meter" where
  "progress lim now m =
     (let m1 = m\<lparr>mt_units := mt_units m + 1\<rparr>
      in if lm_step_budget lim div PROGRESS_GRANULARITY < mt_units m1
         then (True, m1\<lparr>mt_steps_exceeded := True\<rparr>)
         else if lm_timeout_ms lim \<le> now then (True, m1\<lparr>mt_timed_out := True\<rparr>)
         else (False, m1))"

fun callbacks :: "limits \<Rightarrow> nat list \<Rightarrow> meter \<Rightarrow> bool \<times> meter" where
  "callbacks lim [] m = (False, m)"
| "callbacks lim (t # ts) m =
     (case progress lim t m of (True, m') \<Rightarrow> (True, m') | (False, m') \<Rightarrow> callbacks lim ts m')"

subsection \<open>The response channel\<close>

text \<open>
  The frames the channel took, and how many more it takes before the client is gone
  (\<open>None\<close>: the client stays).
\<close>

record chan =
  ch_sent :: "envelope_object list"
  ch_room :: "nat option"

datatype halt =
    ClientGone
  | HDenied string
  | BadParam string
  | HSqlite sqlite_error

definition push_frame :: "chan \<Rightarrow> envelope_object \<Rightarrow> (halt, chan) result" where
  "push_frame c obj =
     (case ch_room c of
        None \<Rightarrow> Inr (c\<lparr>ch_sent := ch_sent c @ [obj]\<rparr>)
      | Some 0 \<Rightarrow> Inl ClientGone
      | Some (Suc n) \<Rightarrow> Inr (c\<lparr>ch_sent := ch_sent c @ [obj], ch_room := Some n\<rparr>))"

definition push_frame_lossy :: "chan \<Rightarrow> envelope_object \<Rightarrow> chan" where
  "push_frame_lossy c obj = (case push_frame c obj of Inr c' \<Rightarrow> c' | Inl _ \<Rightarrow> c)"

definition error_frame :: "string \<Rightarrow> error_code \<Rightarrow> string \<Rightarrow> envelope_object" where
  "error_frame i code reason =
     Error \<lparr>er_id = Some i, er_code = code_as_str code, er_reason = Some reason\<rparr>"

subsection \<open>The engine\<close>

record 'u stmt_run =
  rn_columns :: "string list"
  rn_decl_types :: "string list"
  rn_bind_error :: "sqlite_error option"
  rn_ticks :: "nat \<Rightarrow> nat list"
  rn_next :: "nat \<Rightarrow> (sqlite_error, sql_value list option) result"
  rn_db :: "nat \<Rightarrow> 'u node_db"
  rn_changes :: "nat \<Rightarrow> int"
  rn_rowid :: "nat \<Rightarrow> int"

text \<open>
  \<open>eg_outcome_json\<close> and \<open>eg_outcome\<close> are \<open>serde_json\<close> on the recorded outcome of a write: the
  text of the two counts, and the two counts of a text (each absent when it is not there).
\<close>

record 'u engine =
  eg_node :: "'u node_ext"
  eg_debug :: "auth_action \<Rightarrow> string"
  eg_begin :: "'u node_db \<Rightarrow> bool \<Rightarrow> sqlite_error option"
  eg_run :: "'u node_db \<Rightarrow> string \<Rightarrow> wire_value list \<Rightarrow> 'u stmt_run"
  eg_commit :: "'u node_db \<Rightarrow> sqlite_error option"
  eg_outcome_json :: "int \<Rightarrow> int \<Rightarrow> string"
  eg_outcome :: "string \<Rightarrow> int option \<times> int option"

definition fetch :: "limits \<Rightarrow> 'u stmt_run \<Rightarrow> nat \<Rightarrow> meter \<Rightarrow> (sqlite_error, sql_value list option) result \<times> meter" where
  "fetch lim r n m =
     (case callbacks lim (rn_ticks r n) m of
        (True, m') \<Rightarrow> (Inl (SqliteFailure Interrupted ''interrupted''), m')
      | (False, m') \<Rightarrow> (rn_next r n, m'))"

subsection \<open>Streaming the rows\<close>

record exec_job =
  jb_id :: string
  jb_sql :: string
  jb_params :: "wire_value list"
  jb_approved :: approved
  jb_limits :: limits
  jb_rows_per_frame :: nat
  jb_frame_byte_budget :: nat
  jb_allowlist :: "string list"
  jb_audit_id :: int

text \<open>Where the row loop stopped: the rows taken, the batch not yet pushed, and whether a limit
  cut the result.\<close>

record loop_end =
  le_seq :: nat
  le_truncated :: bool
  le_batch :: "row list"
  le_batch_bytes :: nat
  le_bytes_out :: int

function exec_rows ::
  "exec_job \<Rightarrow> 'u stmt_run \<Rightarrow> nat \<Rightarrow> row list \<Rightarrow> nat \<Rightarrow> int \<Rightarrow> chan \<Rightarrow> meter
    \<Rightarrow> (halt, loop_end) result \<times> chan \<times> meter" where
  "exec_rows job r seq batch batch_bytes bytes_out c m =
     (let stop = (\<lambda>cut. Inr \<lparr>le_seq = seq, le_truncated = cut, le_batch = batch,
                             le_batch_bytes = batch_bytes, le_bytes_out = bytes_out\<rparr>)
      in case fetch (jb_limits job) r seq m of
           (Inl e, m') \<Rightarrow> (Inl (HSqlite e), c, m')
         | (Inr None, m') \<Rightarrow> (stop False, c, m')
         | (Inr (Some cells), m') \<Rightarrow>
             if lm_row_cap (jb_limits job) \<le> int seq then (stop True, c, m')
             else case row_from_sql cells (rn_columns r) (int seq) of
               Inl e \<Rightarrow> (Inl (HSqlite e), c, m')
             | Inr (row, est) \<Rightarrow>
                 if lm_byte_cap (jb_limits job) < bytes_out + int (batch_bytes + est)
                 then (stop True, c, m')
                 else
                   let batch' = batch @ [row]; batch_bytes' = batch_bytes + est
                   in if jb_rows_per_frame job \<le> length batch' \<or> jb_frame_byte_budget job \<le> batch_bytes'
                      then (case push_frame c (Row batch') of
                              Inl h \<Rightarrow> (Inl h, c, m')
                            | Inr c' \<Rightarrow>
                                exec_rows job r (Suc seq) [] 0 (bytes_out + int batch_bytes') c' m')
                      else exec_rows job r (Suc seq) batch' batch_bytes' bytes_out c m')"
  by pat_completeness auto

termination exec_rows
  by (relation "measure (\<lambda>(job, r, seq, _). nat (lm_row_cap (jb_limits job) - int seq))") auto

declare exec_rows.simps [simp del]

subsection \<open>The transaction\<close>

record emitted =
  em_rows_out :: int
  em_bytes_out :: int

text \<open>The recorded outcome of a request id.\<close>

definition recorded_outcome :: "'u node_db \<Rightarrow> string \<Rightarrow> (sqlite_error, string option) result" where
  "recorded_outcome db i =
     (case nd_applied db of
        None \<Rightarrow> Inl (SqliteFailure OtherCode ''no such table: _applied'')
      | Some rows \<Rightarrow> Inr (map_option al_outcome (List.find (\<lambda>r. al_request_id r = i) rows)))"

definition insert_applied :: "applied_row \<Rightarrow> 'u node_db \<Rightarrow> (sqlite_error, 'u node_db) result" where
  "insert_applied row db =
     (case nd_applied db of
        None \<Rightarrow> Inl (SqliteFailure OtherCode ''no such table: _applied'')
      | Some rows \<Rightarrow>
          if al_request_id row \<in> set (map al_request_id rows)
          then Inl (SqliteFailure OtherCode ''UNIQUE constraint failed: _applied.request_id'')
          else Inr (db\<lparr>nd_applied := Some (rows @ [row])\<rparr>))"

definition answer_from_applied :: "'u engine \<Rightarrow> string \<Rightarrow> string \<Rightarrow> chan \<Rightarrow> (halt, emitted) result \<times> chan" where
  "answer_from_applied eg i outcome_json c =
     (let (affected, last_rowid) = eg_outcome eg outcome_json
      in case push_frame c (Result \<lparr>rh_id = i, rh_columns = [], rh_decl_types = []\<rparr>) of
           Inl h \<Rightarrow> (Inl h, c)
         | Inr c1 \<Rightarrow>
             (case push_frame c1 (Done \<lparr>dn_id = i, dn_row_count = Some 0, dn_affected_rows = affected,
                        dn_last_insert_rowid = last_rowid, dn_truncated = False\<rparr>) of
                Inl h \<Rightarrow> (Inl h, c1)
              | Inr c2 \<Rightarrow> (Inr \<lparr>em_rows_out = 0, em_bytes_out = 0\<rparr>, c2)))"

definition is_blob_ref :: "wire_value \<Rightarrow> bool" where
  "is_blob_ref v \<longleftrightarrow> (case v of BlobRef _ _ \<Rightarrow> True | _ \<Rightarrow> False)"

definition BLOB_REF_REASON :: string where
  "BLOB_REF_REASON = ''rsntr:BlobRef parameters are not supported yet''"

definition is_write :: "approved \<Rightarrow> bool" where
  "is_write ap \<longleftrightarrow> fp_kind (ap_footprint ap) = Write"

text \<open>The execution-time prepare under the enforce callback.\<close>

definition enforce_prepare :: "'u engine \<Rightarrow> 'u node_db \<Rightarrow> approved \<Rightarrow> string list \<Rightarrow> string \<Rightarrow> halt option" where
  "enforce_prepare eg db ap allowlist sql =
     (case nx_install (eg_node eg) db of
        Some e \<Rightarrow> Some (HSqlite e)
      | None \<Rightarrow>
          let p = nx_prepare (eg_node eg) db sql
          in case enforce_pass (eg_debug eg) ap allowlist None (sp_actions p) of
               (ADeny, reason) \<Rightarrow>
                 Some (case reason of Some r \<Rightarrow> HDenied r
                       | None \<Rightarrow> HSqlite (SqliteFailure OtherCode ''not authorized''))
             | (AAllow, _) \<Rightarrow> map_option HSqlite (sp_error p))"

text \<open>The trailer of a result; a write carries its two counts.\<close>

definition done_of :: "exec_job \<Rightarrow> 'u stmt_run \<Rightarrow> loop_end \<Rightarrow> done_trailer" where
  "done_of job r e =
     (let fetched = Suc (le_seq e); write = is_write (jb_approved job)
      in \<lparr>dn_id = jb_id job, dn_row_count = Some (int (le_seq e)),
          dn_affected_rows = (if write then Some (rn_changes r fetched) else None),
          dn_last_insert_rowid = (if write then Some (rn_rowid r fetched) else None),
          dn_truncated = le_truncated e\<rparr>)"

text \<open>After the rows: the last batch, the record of a write, the commit and the \<open>Done\<close>. The
  database is the committed one, or the one at the start.\<close>

definition finish_tx ::
  "'u engine \<Rightarrow> node_env \<Rightarrow> exec_job \<Rightarrow> 'u node_db \<Rightarrow> 'u stmt_run \<Rightarrow> loop_end \<Rightarrow> chan
    \<Rightarrow> (halt, emitted) result \<times> 'u node_db \<times> chan" where
  "finish_tx eg env job db r e c =
     (case (if le_batch e = [] then Inr c else push_frame c (Row (le_batch e))) of
        Inl h \<Rightarrow> (Inl h, db, c)
      | Inr c1 \<Rightarrow>
          let bytes_out = le_bytes_out e + int (le_batch_bytes e);
              fetched = Suc (le_seq e);
              db1 = rn_db r fetched;
              affected = rn_changes r fetched;
              last_rowid = rn_rowid r fetched;
              write = is_write (jb_approved job)
          in case (if write
                   then insert_applied \<lparr>al_request_id = jb_id job, al_at = now_rfc3339 env,
                          al_outcome = eg_outcome_json eg affected last_rowid\<rparr> db1
                   else Inr db1) of
               Inl err \<Rightarrow> (Inl (HSqlite err), db, c1)
             | Inr db2 \<Rightarrow>
                 (case eg_commit eg db2 of
                    Some err \<Rightarrow> (Inl (HSqlite err), db, c1)
                  | None \<Rightarrow>
                      (case push_frame c1 (Done (done_of job r e)) of
                         Inl h \<Rightarrow> (Inl h, db2, c1)
                       | Inr c2 \<Rightarrow>
                           (Inr \<lparr>em_rows_out = int (le_seq e), em_bytes_out = bytes_out\<rparr>, db2, c2))))"

definition run_statement ::
  "'u engine \<Rightarrow> node_env \<Rightarrow> exec_job \<Rightarrow> 'u node_db \<Rightarrow> chan
    \<Rightarrow> (halt, emitted) result \<times> 'u node_db \<times> chan \<times> meter" where
  "run_statement eg env job db c =
     (let r = eg_run eg db (jb_sql job) (jb_params job)
      in case push_frame c (Result \<lparr>rh_id = jb_id job, rh_columns = rn_columns r,
                                rh_decl_types = rn_decl_types r\<rparr>) of
           Inl h \<Rightarrow> (Inl h, db, c, meter_new)
         | Inr c1 \<Rightarrow>
             if list_ex is_blob_ref (jb_params job) then (Inl (BadParam BLOB_REF_REASON), db, c1, meter_new)
             else case rn_bind_error r of
               Some e \<Rightarrow> (Inl (HSqlite e), db, c1, meter_new)
             | None \<Rightarrow>
                 (case exec_rows job r 0 [] 0 (header_estimate (rn_columns r)) c1 meter_new of
                    (Inl h, c2, m) \<Rightarrow> (Inl h, db, c2, m)
                  | (Inr e, c2, m) \<Rightarrow>
                      (case finish_tx eg env job db r e c2 of (res, db', c3) \<Rightarrow> (res, db', c3, m))))"

definition execute_in_tx ::
  "'u engine \<Rightarrow> node_env \<Rightarrow> exec_job \<Rightarrow> 'u node_db \<Rightarrow> chan
    \<Rightarrow> (halt, emitted) result \<times> 'u node_db \<times> chan \<times> meter" where
  "execute_in_tx eg env job db c =
     (let write = is_write (jb_approved job)
      in case eg_begin eg db write of
           Some e \<Rightarrow> (Inl (HSqlite e), db, c, meter_new)
         | None \<Rightarrow>
             (case (if write then recorded_outcome db (jb_id job) else Inr None) of
                Inl e \<Rightarrow> (Inl (HSqlite e), db, c, meter_new)
              | Inr (Some json) \<Rightarrow>
                  (case answer_from_applied eg (jb_id job) json c of (res, c') \<Rightarrow> (res, db, c', meter_new))
              | Inr None \<Rightarrow>
                  (case enforce_prepare eg db (jb_approved job) (jb_allowlist job) (jb_sql job) of
                     Some h \<Rightarrow> (Inl h, db, c, meter_new)
                   | None \<Rightarrow> run_statement eg env job db c)))"

definition BUSY_REASON :: string where
  "BUSY_REASON = ''database busy: another process held the write lock longer than 5s; retry''"

text \<open>The error frame of a halted execution; a client that is gone gets none.\<close>

definition halt_frame :: "string \<Rightarrow> meter \<Rightarrow> halt \<Rightarrow> envelope_object option" where
  "halt_frame i m h =
     (case h of
        ClientGone \<Rightarrow> None
      | HDenied reason \<Rightarrow> Some (error_frame i AuthDenied reason)
      | BadParam msg \<Rightarrow> Some (error_frame i EngineError msg)
      | HSqlite e \<Rightarrow>
          Some (if err_code e = Interrupted \<and> mt_steps_exceeded m
                then error_frame i LimitExceeded ''VDBE step budget exhausted''
                else if err_code e = Interrupted
                then error_frame i Timeout
                       ''wall-clock deadline elapsed; statement interrupted and rolled back''
                else if is_busy e then error_frame i EngineError BUSY_REASON
                else error_frame i EngineError (err_text e)))"

definition run_execute :: "'u engine \<Rightarrow> node_env \<Rightarrow> exec_job \<Rightarrow> 'u node_db \<Rightarrow> chan \<Rightarrow> 'u node_db \<times> chan" where
  "run_execute eg env job db c =
     (case execute_in_tx eg env job db c of
        (Inr em, db', c', m) \<Rightarrow> (audit_outcome (jb_audit_id job) (em_rows_out em) (em_bytes_out em) db', c')
      | (Inl h, db', c', m) \<Rightarrow>
          (db', case halt_frame (jb_id job) m h of None \<Rightarrow> c' | Some obj \<Rightarrow> push_frame_lossy c' obj))"

end
