(* ===== verification/Exec_Facts.thy ===== *)
theory Exec_Facts
  imports Pipeline_Exec
begin

text \<open>
  What the execution of a cleared statement keeps and sends: the row loop, the transaction
  and the frames on the channel.
\<close>

subsection \<open>The channel\<close>

lemma push_Inr: "push_frame c obj = Inr c' \<Longrightarrow> ch_sent c' = ch_sent c @ [obj]"
  by (auto simp: push_frame_def split: option.splits nat.splits)

lemma push_Inl: "push_frame c obj = Inl h \<Longrightarrow> h = ClientGone \<and> ch_room c = Some 0"
  by (auto simp: push_frame_def split: option.splits nat.splits)

lemma push_open: "ch_room c = None \<Longrightarrow> push_frame c obj = Inr (c\<lparr>ch_sent := ch_sent c @ [obj]\<rparr>)"
  by (simp add: push_frame_def)

lemma push_keeps_open: "push_frame c obj = Inr c' \<Longrightarrow> ch_room c = None \<Longrightarrow> ch_room c' = None"
  by (auto simp: push_frame_def)

lemma push_lossy_open:
  "ch_room c = None \<Longrightarrow> push_frame_lossy c obj = c\<lparr>ch_sent := ch_sent c @ [obj]\<rparr>"
  by (simp add: push_frame_lossy_def push_open)

subsection \<open>Rows of the cursor\<close>

text \<open>The rows are those the cursor yields from fetch \<open>k\<close> on, in order and numbered.\<close>

fun yields :: "'u stmt_run \<Rightarrow> nat \<Rightarrow> row list \<Rightarrow> bool" where
  "yields r k [] = True"
| "yields r k (x # xs) =
     (case rn_next r k of
        Inr (Some cells) \<Rightarrow>
          (case row_from_sql cells (rn_columns r) (int k) of
             Inr (y, _) \<Rightarrow> y = x \<and> yields r (Suc k) xs
           | Inl _ \<Rightarrow> False)
      | _ \<Rightarrow> False)"

lemma yields_Cons:
  "yields r k (x # xs) \<longleftrightarrow>
     (\<exists>cells est. rn_next r k = Inr (Some cells) \<and> row_from_sql cells (rn_columns r) (int k) = Inr (x, est)
        \<and> yields r (Suc k) xs)"
proof (cases "rn_next r k")
  case (Inr v)
  then show ?thesis
  proof (cases v)
    case (Some cells)
    with Inr show ?thesis by (cases "row_from_sql cells (rn_columns r) (int k)") auto
  qed simp
qed simp

declare yields.simps(2) [simp del]

lemma yields_append: "yields r k (xs @ ys) \<longleftrightarrow> yields r k xs \<and> yields r (k + length xs) ys"
  by (induction xs arbitrary: k) (auto simp: yields_Cons)

lemma yields_rows_ok: "yields r k xs \<Longrightarrow> rows_ok (rn_columns r) (int k) xs"
proof (induction xs arbitrary: k)
  case (Cons x xs)
  then obtain cells est where c: "row_from_sql cells (rn_columns r) (int k) = Inr (x, est)"
    and y: "yields r (Suc k) xs"
    by (auto simp: yields_Cons)
  from Cons.IH [OF y] row_from_sql_Inr(1,2) [OF c] show ?case by (simp add: add.commute)
qed simp

lemma fetch_Inr: "fetch lim r n m = (Inr v, m') \<Longrightarrow> rn_next r n = Inr v"
  by (auto simp: fetch_def split: prod.splits bool.splits)

text \<open>The ways one round of the loop goes.\<close>

lemma exec_rows_cases:
  assumes "exec_rows job r seq batch bb bo c m = (res, c', m')"
  obtains (fail) e where "res = Inl (HSqlite e)" "c' = c"
  | (gone) "res = Inl ClientGone" "c' = c" "ch_room c = Some 0"
  | (stop) cut where "res = Inr \<lparr>le_seq = seq, le_truncated = cut, le_batch = batch,
        le_batch_bytes = bb, le_bytes_out = bo\<rparr>" "c' = c" "\<not> cut \<Longrightarrow> rn_next r seq = Inr None"
        "\<exists>v. fetch (jb_limits job) r seq m = (Inr v, m')"
  | (push) row est c1 m1 where "int seq < lm_row_cap (jb_limits job)" "yields r seq [row]" "32 \<le> est"
      "bo + int (bb + est) \<le> lm_byte_cap (jb_limits job)"
      "push_frame c (Row (batch @ [row])) = Inr c1"
      "exec_rows job r (Suc seq) [] 0 (bo + int (bb + est)) c1 m1 = (res, c', m')"
      "\<exists>v. fetch (jb_limits job) r seq m = (Inr v, m1)"
  | (keep) row est m1 where "int seq < lm_row_cap (jb_limits job)" "yields r seq [row]" "32 \<le> est"
      "bo + int (bb + est) \<le> lm_byte_cap (jb_limits job)"
      "Suc (length batch) < jb_rows_per_frame job"
      "exec_rows job r (Suc seq) (batch @ [row]) (bb + est) bo c m1 = (res, c', m')"
      "\<exists>v. fetch (jb_limits job) r seq m = (Inr v, m1)"
proof -
  obtain f m1 where f: "fetch (jb_limits job) r seq m = (f, m1)" by (cases "fetch (jb_limits job) r seq m")
  note e = assms [unfolded exec_rows.simps [of job r seq] Let_def f]
  show ?thesis
  proof (cases f)
    case (Inl x)
    with e show ?thesis by (intro fail) auto
  next
    case (Inr v)
    note Inr' = Inr
    with f have n: "rn_next r seq = Inr v" by (auto dest: fetch_Inr)
    show ?thesis
    proof (cases v)
      case None
      with e Inr n f show ?thesis by (intro stop [of False]) auto
    next
      case (Some cells)
      show ?thesis
      proof (cases "lm_row_cap (jb_limits job) \<le> int seq")
        case True
        with e Inr Some f show ?thesis by (intro stop [of True]) auto
      next
        case cap: False
        show ?thesis
        proof (cases "row_from_sql cells (rn_columns r) (int seq)")
          case (Inl x)
          with e Inr Some cap show ?thesis by (intro fail) auto
        next
          case row: (Inr p)
          obtain x est where p: "p = (x, est)" by (cases p)
          have y: "yields r seq [x]" "32 \<le> est" using n Some row p row_from_sql_Inr(3) [of cells] by (auto simp: yields_Cons)
          show ?thesis
          proof (cases "lm_byte_cap (jb_limits job) < bo + int (bb + est)")
            case True
            with e Inr Some cap row p f show ?thesis by (intro stop [of True]) auto
          next
            case bytes: False
            note e' = e [unfolded Inr Some, simplified, unfolded row p]
            show ?thesis
            proof (cases "jb_rows_per_frame job \<le> length (batch @ [x]) \<or> jb_frame_byte_budget job \<le> bb + est")
              case True
              show ?thesis
              proof (cases "push_frame c (Row (batch @ [x]))")
                case (Inl h)
                with push_Inl [OF Inl] e' True cap bytes show ?thesis by (intro gone) auto
              next
                case (Inr c1)
                with e' True cap bytes y f Inr' show ?thesis by (intro push [of x est c1 m1]) auto
              qed
            next
              case False
              with e' cap bytes y f Inr' show ?thesis by (intro keep [of x est m1]) auto
            qed
          qed
        qed
      qed
    qed
  qed
qed

text \<open>The loop as a whole: the batches it pushes and the rest it hands on are the cursor's
  rows in order, within the row cap; uncut, they are all of them.\<close>

definition end_spec ::
  "exec_job \<Rightarrow> 'u stmt_run \<Rightarrow> bool \<Rightarrow> (halt, loop_end) result \<Rightarrow> nat \<Rightarrow> row list \<Rightarrow> bool" where
  "end_spec job r stays res k rest \<longleftrightarrow>
     (case res of
        Inl h \<Rightarrow> stays \<longrightarrow> h \<noteq> ClientGone
      | Inr e \<Rightarrow> le_batch e = rest \<and> le_seq e = k
           \<and> (0 < jb_rows_per_frame job \<longrightarrow> length rest \<le> jb_rows_per_frame job)
           \<and> (\<not> le_truncated e \<longrightarrow> rn_next r k = Inr None))"

lemma end_spec_stays: "end_spec job r stays res k rest \<Longrightarrow> (stays' \<Longrightarrow> stays) \<Longrightarrow> end_spec job r stays' res k rest"
  by (auto simp: end_spec_def split: sum.splits)

definition loop_spec ::
  "exec_job \<Rightarrow> 'u stmt_run \<Rightarrow> nat \<Rightarrow> row list \<Rightarrow> chan \<Rightarrow> (halt, loop_end) result \<Rightarrow> chan \<Rightarrow> bool" where
  "loop_spec job r seq batch c res c' \<longleftrightarrow>
     (\<exists>batches rest.
        ch_sent c' = ch_sent c @ map Row batches \<and> [] \<notin> set batches
        \<and> yields r (seq - length batch) (concat batches @ rest)
        \<and> int (seq - length batch + length (concat batches @ rest)) \<le> max (int seq) (lm_row_cap (jb_limits job))
        \<and> (0 < jb_rows_per_frame job \<longrightarrow> (\<forall>b \<in> set batches. length b \<le> jb_rows_per_frame job))
        \<and> end_spec job r (ch_room c = None) res (seq - length batch + length (concat batches @ rest)) rest)"


lemma exec_rows_spec:
  assumes "exec_rows job r seq batch bb bo c m = (res, c', m')" "yields r (seq - length batch) batch"
    and "length batch \<le> seq" "0 < jb_rows_per_frame job \<longrightarrow> length batch < jb_rows_per_frame job"
  shows "loop_spec job r seq batch c res c'"
  using assms
proof (induction "nat (lm_row_cap (jb_limits job) - int seq)" arbitrary: seq batch bb bo c m rule: less_induct)
  case less
  note len = less.prems(3)
  from less.prems(1) show ?case
  proof (cases rule: exec_rows_cases)
    case (fail e)
    then show ?thesis
      unfolding loop_spec_def end_spec_def by (intro exI [of _ "[]"] exI [of _ "[]"]) (use len in auto)
  next
    case gone
    then show ?thesis
      unfolding loop_spec_def end_spec_def by (intro exI [of _ "[]"] exI [of _ "[]"]) (use len in auto)
  next
    case (stop cut)
    then show ?thesis
      unfolding loop_spec_def end_spec_def
      by (intro exI [of _ "[]"] exI [of _ batch]) (use less.prems(2-4) in auto)
  next
    case (push row est c1 m1)
    have IH: "loop_spec job r (Suc seq) [] c1 res c'"
      by (rule less.hyps [OF _ push(6)]) (use push(1) in auto)
    then obtain batches rest where b: "ch_sent c' = ch_sent c1 @ map Row batches" "[] \<notin> set batches"
        "yields r (Suc seq) (concat batches @ rest)"
        "int (Suc seq + length (concat batches @ rest)) \<le> max (int (Suc seq)) (lm_row_cap (jb_limits job))"
      and b2: "0 < jb_rows_per_frame job \<longrightarrow> (\<forall>b \<in> set batches. length b \<le> jb_rows_per_frame job)"
      and b3: "end_spec job r (ch_room c1 = None) res (Suc seq + length (concat batches @ rest)) rest"
      unfolding loop_spec_def list.size(3) diff_zero by (elim exE conjE) (rule that)
    have sent: "ch_sent c' = ch_sent c @ map Row ((batch @ [row]) # batches)"
      using b(1) push_Inr [OF push(5)] by simp
    have y: "yields r (seq - length batch) (concat ((batch @ [row]) # batches) @ rest)"
      using b(3) push(2) less.prems(2) len by (auto simp: yields_append yields_Cons)
    have room: "ch_room c = None \<longrightarrow> ch_room c1 = None" using push_keeps_open [OF push(5)] by simp
    have seq: "seq - length batch + length (concat ((batch @ [row]) # batches) @ rest) = Suc seq + length (concat batches @ rest)"
      using len by simp
    show ?thesis
      unfolding loop_spec_def
    proof (intro exI conjI)
      show "ch_sent c' = ch_sent c @ map Row ((batch @ [row]) # batches)" by (rule sent)
      show "yields r (seq - length batch) (concat ((batch @ [row]) # batches) @ rest)" by (rule y)
      show "[] \<notin> set ((batch @ [row]) # batches)" using b(2) by simp
      show "int (seq - length batch + length (concat ((batch @ [row]) # batches) @ rest))
          \<le> max (int seq) (lm_row_cap (jb_limits job))"
        unfolding seq using b(4) push(1) by simp
      show "0 < jb_rows_per_frame job \<longrightarrow> (\<forall>b \<in> set ((batch @ [row]) # batches). length b \<le> jb_rows_per_frame job)"
        using b2 less.prems(4) by (auto simp: Suc_le_eq)
      show "end_spec job r (ch_room c = None) res
          (seq - length batch + length (concat ((batch @ [row]) # batches) @ rest)) rest"
        unfolding seq by (rule end_spec_stays [OF b3]) (use room in simp)
    qed
  next
    case (keep row est m1)
    have "loop_spec job r (Suc seq) (batch @ [row]) c res c'"
      by (rule less.hyps [OF _ keep(6)]) (use keep(1,2,5) less.prems(2) len in \<open>auto simp: yields_append\<close>)
    then show ?thesis using keep(1) by (simp add: loop_spec_def)
  qed
qed


text \<open>The bytes the loop counts stay within the byte cap, unless the header alone is over it.\<close>

lemma exec_rows_bytes:
  assumes "exec_rows job r seq batch bb bo c m = (Inr e, c', m')"
  shows "le_bytes_out e + int (le_batch_bytes e) \<le> max (bo + int bb) (lm_byte_cap (jb_limits job))"
  using assms
proof (induction "nat (lm_row_cap (jb_limits job) - int seq)" arbitrary: seq batch bb bo c m rule: less_induct)
  case less
  from less.prems show ?case
  proof (cases rule: exec_rows_cases)
    case (stop cut)
    then show ?thesis by simp
  next
    case (push row est c1 m1)
    from less.hyps [OF _ push(6)] push(1,4) show ?thesis by auto
  next
    case (keep row est m1)
    from less.hyps [OF _ keep(6)] keep(1,4) show ?thesis by auto
  qed simp_all
qed

lemma exec_rows_start:
  assumes "exec_rows job r 0 [] 0 bo c m = (res, c', m')"
  shows "loop_spec job r 0 [] c res c'"
  using exec_rows_spec [OF assms] by simp

subsection \<open>Frames of a response\<close>

text \<open>The rows as frames: whole batches, none empty.\<close>

definition row_frames :: "exec_job \<Rightarrow> 'u stmt_run \<Rightarrow> row list list \<Rightarrow> bool" where
  "row_frames job r batches \<longleftrightarrow>
     [] \<notin> set batches \<and> yields r 0 (concat batches)
     \<and> int (length (concat batches)) \<le> max 0 (lm_row_cap (jb_limits job))
     \<and> (0 < jb_rows_per_frame job \<longrightarrow> (\<forall>b \<in> set batches. length b \<le> jb_rows_per_frame job))"

lemma row_frames_rows_ok: "row_frames job r batches \<Longrightarrow> rows_ok (rn_columns r) 0 (concat batches)"
  using yields_rows_ok [of r 0] by (simp add: row_frames_def)

lemma loop_spec_start:
  assumes "loop_spec job r 0 [] c res c'"
  shows "\<exists>batches. ch_sent c' = ch_sent c @ map Row batches \<and> row_frames job r batches"
    and "res = Inr e \<Longrightarrow> \<exists>batches. ch_sent c' = ch_sent c @ map Row batches
       \<and> row_frames job r (if le_batch e = [] then batches else batches @ [le_batch e])
       \<and> le_seq e = length (concat (if le_batch e = [] then batches else batches @ [le_batch e]))
       \<and> (\<not> le_truncated e \<longrightarrow> rn_next r (le_seq e) = Inr None)"
proof -
  from assms obtain batches rest where b: "ch_sent c' = ch_sent c @ map Row batches" "[] \<notin> set batches"
      "yields r 0 (concat batches @ rest)"
      "int (length (concat batches @ rest)) \<le> max 0 (lm_row_cap (jb_limits job))"
      "0 < jb_rows_per_frame job \<longrightarrow> (\<forall>b \<in> set batches. length b \<le> jb_rows_per_frame job)"
    and e: "end_spec job r (ch_room c = None) res (length (concat batches @ rest)) rest"
    unfolding loop_spec_def list.size(3) diff_zero plus_nat.add_0 semiring_1_class.of_nat_0 by (elim exE conjE) (rule that)
  have "row_frames job r batches" using b by (auto simp: row_frames_def yields_append)
  with b(1) show "\<exists>batches. ch_sent c' = ch_sent c @ map Row batches \<and> row_frames job r batches" by blast
  show "\<exists>batches. ch_sent c' = ch_sent c @ map Row batches
       \<and> row_frames job r (if le_batch e = [] then batches else batches @ [le_batch e])
       \<and> le_seq e = length (concat (if le_batch e = [] then batches else batches @ [le_batch e]))
       \<and> (\<not> le_truncated e \<longrightarrow> rn_next r (le_seq e) = Inr None)" if "res = Inr e"
    using b e that
    by (intro exI [of _ batches]) (cases "rest = []"; simp add: row_frames_def end_spec_def)
qed

text \<open>The shape of what an execution adds to a channel whose client stays: nothing yet, or the
  header and rows.\<close>

definition opened :: "exec_job \<Rightarrow> 'u stmt_run \<Rightarrow> envelope_object list \<Rightarrow> bool" where
  "opened job r objs \<longleftrightarrow>
     objs = [] \<or>
     (\<exists>batches. objs = Result \<lparr>rh_id = jb_id job, rh_columns = rn_columns r, rh_decl_types = rn_decl_types r\<rparr>
          # map Row batches \<and> row_frames job r batches)"

text \<open>The frames of an execution that returns: its own result, or the recorded one.\<close>

definition result_frames :: "exec_job \<Rightarrow> 'u stmt_run \<Rightarrow> envelope_object list \<Rightarrow> bool" where
  "result_frames job r objs \<longleftrightarrow>
     (\<exists>columns decls batches d.
        objs = Result \<lparr>rh_id = jb_id job, rh_columns = columns, rh_decl_types = decls\<rparr>
          # map Row batches @ [Done d]
        \<and> dn_id d = jb_id job \<and> [] \<notin> set batches \<and> rows_ok columns 0 (concat batches))"

lemma answer_from_applied_db:
  "answer_from_applied eg i json c = (res, c') \<Longrightarrow> ch_room c = None \<Longrightarrow>
     res = Inr \<lparr>em_rows_out = 0, em_bytes_out = 0\<rparr> \<and>
     ch_sent c' = ch_sent c @
       [Result \<lparr>rh_id = i, rh_columns = [], rh_decl_types = []\<rparr>,
        Done \<lparr>dn_id = i, dn_row_count = Some 0, dn_affected_rows = fst (eg_outcome eg json),
              dn_last_insert_rowid = snd (eg_outcome eg json), dn_truncated = False\<rparr>]
     \<and> ch_room c' = None"
  by (auto simp: answer_from_applied_def push_open split: prod.splits)


lemma exec_rows_room:
  "exec_rows job r seq batch bb bo c m = (res, c', m') \<Longrightarrow> ch_room c = None \<Longrightarrow> ch_room c' = None"
proof (induction "nat (lm_row_cap (jb_limits job) - int seq)" arbitrary: seq batch bb bo c m rule: less_induct)
  case less
  from less.prems(1) show ?case
  proof (cases rule: exec_rows_cases)
    case (push row est c1 m1)
    from less.hyps [OF _ push(6)] push(1) push_keeps_open [OF push(5) less.prems(2)] show ?thesis by auto
  next
    case (keep row est m1)
    from less.hyps [OF _ keep(6) less.prems(2)] keep(1) show ?thesis by auto
  qed (use less.prems(2) in simp_all)
qed

text \<open>The end of a run on a channel whose client stays: the rest of the rows and the \<open>Done\<close>,
  or an SQLite error after the rest.\<close>

lemma finish_tx_cases:
  assumes "finish_tx eg env job db r e c = (res, db', c')" "ch_room c = None"
  shows "ch_room c' = None"
    and "res = Inl h \<Longrightarrow> h \<noteq> ClientGone \<and> db' = db
          \<and> ch_sent c' = ch_sent c @ (if le_batch e = [] then [] else [Row (le_batch e)])"
    and "res = Inr em \<Longrightarrow>
          em = \<lparr>em_rows_out = int (le_seq e), em_bytes_out = le_bytes_out e + int (le_batch_bytes e)\<rparr>
          \<and> ch_sent c' = ch_sent c @ (if le_batch e = [] then [] else [Row (le_batch e)]) @ [Done (done_of job r e)]"
  using assms by (auto simp: finish_tx_def Let_def push_open split: sum.splits option.splits if_splits)

lemma finish_tx_frames:
  assumes "finish_tx eg env job db r e c = (res, db', c')" "ch_room c = None"
    and "loop_spec job r 0 [] c0 (Inr e) c"
  shows "\<exists>batches. row_frames job r batches \<and> le_seq e = length (concat batches)
     \<and> (\<not> le_truncated e \<longrightarrow> rn_next r (le_seq e) = Inr None)
     \<and> ch_sent c' = ch_sent c0 @ map Row batches @ (case res of Inl _ \<Rightarrow> [] | Inr _ \<Rightarrow> [Done (done_of job r e)])"
proof -
  from loop_spec_start(2) [OF assms(3) refl] obtain batches where
    b: "ch_sent c = ch_sent c0 @ map Row batches"
      "row_frames job r (if le_batch e = [] then batches else batches @ [le_batch e])"
      "le_seq e = length (concat (if le_batch e = [] then batches else batches @ [le_batch e]))"
      "\<not> le_truncated e \<longrightarrow> rn_next r (le_seq e) = Inr None" by blast
  show ?thesis
    using b finish_tx_cases(2,3) [OF assms(1,2)]
    by (intro exI [of _ "if le_batch e = [] then batches else batches @ [le_batch e]"]) (cases res; auto)
qed

definition header_of :: "exec_job \<Rightarrow> 'u stmt_run \<Rightarrow> envelope_object" where
  "header_of job r =
     Result \<lparr>rh_id = jb_id job, rh_columns = rn_columns r, rh_decl_types = rn_decl_types r\<rparr>"

text \<open>The whole of an executed statement on a channel whose client stays.\<close>

definition finished ::
  "exec_job \<Rightarrow> 'u stmt_run \<Rightarrow> envelope_object list \<Rightarrow> emitted \<Rightarrow> bool" where
  "finished job r objs em \<longleftrightarrow>
     (\<exists>batches e. objs = header_of job r # map Row batches @ [Done (done_of job r e)]
        \<and> row_frames job r batches \<and> le_seq e = length (concat batches)
        \<and> (\<not> le_truncated e \<longrightarrow> rn_next r (le_seq e) = Inr None)
        \<and> em_rows_out em = int (le_seq e)
        \<and> em_bytes_out em \<le> max (header_estimate (rn_columns r)) (lm_byte_cap (jb_limits job)))"

lemma opened_header: "row_frames job r batches \<Longrightarrow> opened job r (header_of job r # map Row batches)"
  by (auto simp: opened_def header_of_def)

lemma row_frames_Nil [simp]: "row_frames job r []"
  by (simp add: row_frames_def)

lemma run_statement_spec:
  assumes "run_statement eg env job db c = (res, db', c', m)" "ch_room c = None"
  defines "r \<equiv> eg_run eg db (jb_sql job) (jb_params job)"
  shows "ch_room c' = None"
    and "case res of
           Inl h \<Rightarrow> h \<noteq> ClientGone \<and> db' = db \<and> (\<exists>objs. ch_sent c' = ch_sent c @ objs \<and> opened job r objs)
         | Inr em \<Rightarrow> \<exists>objs. ch_sent c' = ch_sent c @ objs \<and> finished job r objs em"
proof -
  define c1 where "c1 = c\<lparr>ch_sent := ch_sent c @ [header_of job r]\<rparr>"
  have c1: "ch_room c1 = None" "ch_sent c1 = ch_sent c @ [header_of job r]" by (simp_all add: c1_def assms(2))
  have push: "push_frame c (Result \<lparr>rh_id = jb_id job, rh_columns = rn_columns r,
      rh_decl_types = rn_decl_types r\<rparr>) = Inr c1"
    using assms(2) by (simp add: push_open c1_def header_of_def)
  note run = assms(1) [unfolded run_statement_def Let_def, folded r_def, unfolded push, simplified]
  show "ch_room c' = None" "case res of
           Inl h \<Rightarrow> h \<noteq> ClientGone \<and> db' = db \<and> (\<exists>objs. ch_sent c' = ch_sent c @ objs \<and> opened job r objs)
         | Inr em \<Rightarrow> \<exists>objs. ch_sent c' = ch_sent c @ objs \<and> finished job r objs em"
  proof (atomize (full), cases "list_ex is_blob_ref (jb_params job) \<or> rn_bind_error r \<noteq> None")
    case True
    with run have "db' = db" "c' = c1" "\<exists>h. res = Inl h \<and> h \<noteq> ClientGone"
      by (auto split: if_splits option.splits)
    with c1 opened_header [of job r "[]"]
    show "ch_room c' = None \<and> (case res of
           Inl h \<Rightarrow> h \<noteq> ClientGone \<and> db' = db \<and> (\<exists>objs. ch_sent c' = ch_sent c @ objs \<and> opened job r objs)
         | Inr em \<Rightarrow> \<exists>objs. ch_sent c' = ch_sent c @ objs \<and> finished job r objs em)"
      by auto
  next
    case False
    obtain res2 c2 m2 where loop: "exec_rows job r 0 [] 0 (header_estimate (rn_columns r)) c1 meter_new = (res2, c2, m2)"
      by (cases "exec_rows job r 0 [] 0 (header_estimate (rn_columns r)) c1 meter_new")
    note spec = exec_rows_start [OF loop] and room = exec_rows_room [OF loop c1(1)]
    show "ch_room c' = None \<and> (case res of
           Inl h \<Rightarrow> h \<noteq> ClientGone \<and> db' = db \<and> (\<exists>objs. ch_sent c' = ch_sent c @ objs \<and> opened job r objs)
         | Inr em \<Rightarrow> \<exists>objs. ch_sent c' = ch_sent c @ objs \<and> finished job r objs em)"
    proof (cases res2)
      case (Inl h)
      with run False loop have "db' = db" "c' = c2" "res = Inl h" by auto
      moreover have "h \<noteq> ClientGone" using spec Inl c1(1) by (auto simp: loop_spec_def end_spec_def)
      moreover obtain batches where "ch_sent c2 = ch_sent c1 @ map Row batches" "row_frames job r batches"
        using loop_spec_start(1) [OF spec] by blast
      ultimately show ?thesis using room c1(2) opened_header by auto
    next
      case (Inr e)
      obtain res3 db3 c3 where fin: "finish_tx eg env job db r e c2 = (res3, db3, c3)"
        by (cases "finish_tx eg env job db r e c2")
      from run False loop Inr fin have eq: "res = res3" "db' = db3" "c' = c3" by auto
      obtain batches where b: "row_frames job r batches" "le_seq e = length (concat batches)"
          "\<not> le_truncated e \<longrightarrow> rn_next r (le_seq e) = Inr None"
          "ch_sent c3 = ch_sent c1 @ map Row batches @ (case res3 of Inl _ \<Rightarrow> [] | Inr _ \<Rightarrow> [Done (done_of job r e)])"
        using finish_tx_frames [OF fin room spec [unfolded Inr]] by blast
      have bytes: "le_bytes_out e + int (le_batch_bytes e) \<le> max (header_estimate (rn_columns r)) (lm_byte_cap (jb_limits job))"
        using exec_rows_bytes [OF loop [unfolded Inr]] by simp
      show ?thesis
      proof (cases res3)
        case (Inl h)
        with b finish_tx_cases(1,2) [OF fin room] opened_header [OF b(1)] show ?thesis
          by (simp add: eq c1(2))
      next
        case (Inr em)
        have "finished job r (header_of job r # map Row batches @ [Done (done_of job r e)]) em"
          unfolding finished_def
          using b(1-3) bytes finish_tx_cases(3) [OF fin room Inr]
          by (intro exI [of _ batches] exI [of _ e]) simp
        with b(4) Inr finish_tx_cases(1) [OF fin room] show ?thesis
          by (simp add: eq c1(2))
      qed
    qed
  qed
qed

subsection \<open>The transaction\<close>

text \<open>What an execution that returns has done: a fresh statement committed, or a recorded write
  answered.\<close>

lemma execute_cases:
  assumes "execute_in_tx eg env job db c = (res, db', c', m)"
  obtains (stopped) h where "res = Inl h" "db' = db" "c' = c" "h \<noteq> ClientGone"
  | (recorded) json where "is_write (jb_approved job)" "recorded_outcome db (jb_id job) = Inr (Some json)"
      "answer_from_applied eg (jb_id job) json c = (res, c')" "db' = db"
  | (runs) "enforce_prepare eg db (jb_approved job) (jb_allowlist job) (jb_sql job) = None"
      "run_statement eg env job db c = (res, db', c', m)"
      "is_write (jb_approved job) \<Longrightarrow> recorded_outcome db (jb_id job) = Inr None"
proof -
  have prep: "h \<noteq> ClientGone" if "enforce_prepare eg db ap al sql = Some h" for ap al sql h
    using that by (auto simp: enforce_prepare_def Let_def split: option.splits prod.splits authorization.splits)
  show ?thesis
  proof (cases "eg_begin eg db (is_write (jb_approved job))")
    case (Some e)
    with assms show ?thesis by (intro stopped) (auto simp: execute_in_tx_def)
  next
    case None
    show ?thesis
    proof (cases "if is_write (jb_approved job) then recorded_outcome db (jb_id job) else Inr None")
      case (Inl e)
      with assms None show ?thesis by (intro stopped) (auto simp: execute_in_tx_def)
    next
      case (Inr found)
      show ?thesis
      proof (cases found)
        case None': None
        show ?thesis
        proof (cases "enforce_prepare eg db (jb_approved job) (jb_allowlist job) (jb_sql job)")
          case (Some h)
          with assms None Inr None' prep show ?thesis by (intro stopped [of h]) (auto simp: execute_in_tx_def)
        next
          case prepared: None
          with assms None Inr None' show ?thesis by (intro runs) (auto simp: execute_in_tx_def split: if_splits)
        qed
      next
        case (Some json)
        with assms None Inr show ?thesis
          by (intro recorded [of json]) (auto simp: execute_in_tx_def split: if_splits prod.splits)
      qed
    qed
  qed
qed

text \<open>Frames and atomicity on a channel whose client stays.\<close>

lemma execute_spec:
  assumes "execute_in_tx eg env job db c = (res, db', c', m)" "ch_room c = None"
  defines "r \<equiv> eg_run eg db (jb_sql job) (jb_params job)"
  shows "ch_room c' = None"
    and "res = Inl h \<Longrightarrow> h \<noteq> ClientGone \<and> db' = db \<and> (\<exists>objs. ch_sent c' = ch_sent c @ objs \<and> opened job r objs)"
    and "res = Inr em \<Longrightarrow>
      (\<exists>json. recorded_outcome db (jb_id job) = Inr (Some json) \<and> is_write (jb_approved job)
         \<and> answer_from_applied eg (jb_id job) json c = (Inr em, c') \<and> db' = db)
      \<or> (\<exists>objs. ch_sent c' = ch_sent c @ objs \<and> finished job r objs em)"
proof -
  have "ch_room c' = None \<and> (res = Inl h \<longrightarrow> h \<noteq> ClientGone \<and> db' = db \<and> (\<exists>objs. ch_sent c' = ch_sent c @ objs \<and> opened job r objs))
    \<and> (res = Inr em \<longrightarrow>
      (\<exists>json. recorded_outcome db (jb_id job) = Inr (Some json) \<and> is_write (jb_approved job)
         \<and> answer_from_applied eg (jb_id job) json c = (Inr em, c') \<and> db' = db)
      \<or> (\<exists>objs. ch_sent c' = ch_sent c @ objs \<and> finished job r objs em))"
    using assms(1)
  proof (cases rule: execute_cases)
    case (stopped h')
    then show ?thesis using assms(2) by (auto simp: opened_def)
  next
    case (recorded json)
    with answer_from_applied_db [OF recorded(3) assms(2)] show ?thesis by auto
  next
    case runs
    from run_statement_spec [OF runs(2) assms(2), folded r_def] show ?thesis by (cases res) auto
  qed
  then show "ch_room c' = None"
    and "res = Inl h \<Longrightarrow> h \<noteq> ClientGone \<and> db' = db \<and> (\<exists>objs. ch_sent c' = ch_sent c @ objs \<and> opened job r objs)"
    and "res = Inr em \<Longrightarrow>
      (\<exists>json. recorded_outcome db (jb_id job) = Inr (Some json) \<and> is_write (jb_approved job)
         \<and> answer_from_applied eg (jb_id job) json c = (Inr em, c') \<and> db' = db)
      \<or> (\<exists>objs. ch_sent c' = ch_sent c @ objs \<and> finished job r objs em)"
    by blast+
qed

text \<open>The record a committed write leaves is of the counts its \<open>Done\<close> carries.\<close>

lemma find_new:
  "al_request_id row \<notin> set (map al_request_id rows) \<Longrightarrow>
     List.find (\<lambda>r. al_request_id r = al_request_id row) (rows @ [row]) = Some row"
  by (induction rows) auto

lemma insert_applied_recorded:
  "insert_applied row db = Inr db' \<Longrightarrow>
     recorded_outcome db' (al_request_id row) = Inr (Some (al_outcome row))"
  using find_new [of row]
  by (auto simp: insert_applied_def recorded_outcome_def split: option.splits if_splits)

lemma write_recorded:
  assumes "execute_in_tx eg env job db c = (Inr em, db', c', m)" "is_write (jb_approved job)"
    and "recorded_outcome db (jb_id job) = Inr None"
  shows "\<exists>d a b objs. ch_sent c' = objs @ [Done d]
    \<and> dn_affected_rows d = Some a \<and> dn_last_insert_rowid d = Some b
    \<and> recorded_outcome db' (jb_id job) = Inr (Some (eg_outcome_json eg a b))"
  using assms(1)
proof (cases rule: execute_cases)
  case runs
  let ?r = "eg_run eg db (jb_sql job) (jb_params job)"
  from runs(2) obtain e c1 where
    fin: "finish_tx eg env job db ?r e c1 = (Inr em, db', c')"
    by (auto simp: run_statement_def Let_def split: sum.splits if_splits option.splits prod.splits)
  let ?a = "rn_changes ?r (Suc (le_seq e))" and ?b = "rn_rowid ?r (Suc (le_seq e))"
  from fin assms(2) obtain db1 c2 where
    "insert_applied \<lparr>al_request_id = jb_id job, al_at = now_rfc3339 env, al_outcome = eg_outcome_json eg ?a ?b\<rparr> db1 = Inr db'"
    "push_frame c2 (Done (done_of job ?r e)) = Inr c'"
    by (auto simp: finish_tx_def Let_def split: sum.splits option.splits if_splits)
  then have "recorded_outcome db' (jb_id job) = Inr (Some (eg_outcome_json eg ?a ?b))"
      "ch_sent c' = ch_sent c2 @ [Done (done_of job ?r e)]"
    by (auto dest: insert_applied_recorded push_Inr)
  then show ?thesis using assms(2) by (auto simp: done_of_def Let_def)
qed (use assms(3) in auto)

subsection \<open>Limits and the meter\<close>

text \<open>Callbacks that let the statement go on were all within the budget and the deadline.\<close>

lemma progress_on:
  "progress lim t m = (False, m') \<longleftrightarrow>
     m' = m\<lparr>mt_units := Suc (mt_units m)\<rparr> \<and> Suc (mt_units m) \<le> lm_step_budget lim div PROGRESS_GRANULARITY
     \<and> t < lm_timeout_ms lim"
  by (auto simp: progress_def Let_def)

lemma callbacks_on:
  "callbacks lim ts m = (False, m') \<Longrightarrow>
     m' = m\<lparr>mt_units := mt_units m + length ts\<rparr>
     \<and> (ts = [] \<or> mt_units m + length ts \<le> lm_step_budget lim div PROGRESS_GRANULARITY)
     \<and> (\<forall>t \<in> set ts. t < lm_timeout_ms lim)"
proof (induction ts arbitrary: m)
  case (Cons t ts)
  obtain s m1 where p: "progress lim t m = (s, m1)" by (cases "progress lim t m")
  with Cons.prems have s: "\<not> s" "callbacks lim ts m1 = (False, m')" by (cases s; simp)+
  with p progress_on [of lim t m m1] Cons.IH [OF s(2)] show ?case by auto
qed simp

lemma fetch_on:
  "fetch lim r n m = (Inr v, m') \<Longrightarrow>
     m' = m\<lparr>mt_units := mt_units m + length (rn_ticks r n)\<rparr>
     \<and> (rn_ticks r n = [] \<or> mt_units m' \<le> lm_step_budget lim div PROGRESS_GRANULARITY)
     \<and> (\<forall>t \<in> set (rn_ticks r n). t < lm_timeout_ms lim)"
  using callbacks_on [of lim "rn_ticks r n" m m']
  by (auto simp: fetch_def split: prod.splits bool.splits)

text \<open>A loop that ends has had every fetch within the budget and the deadline.\<close>

lemma exec_rows_metered:
  assumes "exec_rows job r seq batch bb bo c m = (Inr e, c', m')"
  shows "mt_units m' \<le> max (mt_units m) (lm_step_budget (jb_limits job) div PROGRESS_GRANULARITY)
    \<and> (\<forall>n t. seq \<le> n \<longrightarrow> n \<le> le_seq e \<longrightarrow> t \<in> set (rn_ticks r n) \<longrightarrow> t < lm_timeout_ms (jb_limits job))
    \<and> seq \<le> le_seq e"
  using assms
proof (induction "nat (lm_row_cap (jb_limits job) - int seq)" arbitrary: seq batch bb bo c m rule: less_induct)
  case less
  have step: ?case
    if "fetch (jb_limits job) r seq m = (Inr v, m1)"
      "mt_units m' \<le> max (mt_units m1) (lm_step_budget (jb_limits job) div PROGRESS_GRANULARITY)"
      "\<forall>n t. Suc seq \<le> n \<longrightarrow> n \<le> le_seq e \<longrightarrow> t \<in> set (rn_ticks r n) \<longrightarrow> t < lm_timeout_ms (jb_limits job)"
      "Suc seq \<le> le_seq e" for v m1
  proof (intro conjI allI impI)
    have u: "mt_units m1 \<le> max (mt_units m) (lm_step_budget (jb_limits job) div PROGRESS_GRANULARITY)"
      using fetch_on [OF that(1)] by auto
    with that(2) show "mt_units m' \<le> max (mt_units m) (lm_step_budget (jb_limits job) div PROGRESS_GRANULARITY)"
      by linarith
    show "seq \<le> le_seq e" using that(4) by simp
    fix n t assume n: "seq \<le> n" "n \<le> le_seq e" "t \<in> set (rn_ticks r n)"
    show "t < lm_timeout_ms (jb_limits job)"
    proof (cases "n = seq")
      case True
      with fetch_on [OF that(1)] n(3) show ?thesis by simp
    next
      case False
      with n(1) have "Suc seq \<le> n" by simp
      with that(3) n(2,3) show ?thesis by blast
    qed
  qed
  from less.prems show ?case
  proof (cases rule: exec_rows_cases)
    case (stop cut)
    then obtain v where v: "fetch (jb_limits job) r seq m = (Inr v, m')" by blast
    from fetch_on [OF v] have "mt_units m' \<le> max (mt_units m) (lm_step_budget (jb_limits job) div PROGRESS_GRANULARITY)"
        by auto
    moreover have "n = seq" if "seq \<le> n" "n \<le> le_seq e" for n using that stop(1) by simp
    ultimately show ?thesis using stop(1) fetch_on [OF v] by auto
  next
    case (push row est c1 m1)
    then obtain v where "fetch (jb_limits job) r seq m = (Inr v, m1)" by blast
    moreover have "nat (lm_row_cap (jb_limits job) - int (Suc seq)) < nat (lm_row_cap (jb_limits job) - int seq)" using push(1) by simp
    ultimately show ?thesis using less.hyps [OF _ push(6)] by (intro step) blast+
  next
    case (keep row est m1)
    then obtain v where "fetch (jb_limits job) r seq m = (Inr v, m1)" by blast
    moreover have "nat (lm_row_cap (jb_limits job) - int (Suc seq)) < nat (lm_row_cap (jb_limits job) - int seq)" using keep(1) by simp
    ultimately show ?thesis using less.hyps [OF _ keep(6)] by (intro step) blast+
  qed simp_all
qed

lemma execute_metered:
  assumes "execute_in_tx eg env job db c = (Inr em, db', c', m)"
  shows "mt_units m \<le> lm_step_budget (jb_limits job) div PROGRESS_GRANULARITY"
  using assms
proof (cases rule: execute_cases)
  case (recorded json)
  with assms show ?thesis
    by (auto simp: execute_in_tx_def meter_new_def split: prod.splits option.splits sum.splits if_splits)
next
  case runs
  let ?r = "eg_run eg db (jb_sql job) (jb_params job)"
  from runs(2) obtain c1 e c2 where
    "exec_rows job ?r 0 [] 0 (header_estimate (rn_columns ?r)) c1 meter_new = (Inr e, c2, m)"
    by (auto simp: run_statement_def Let_def split: sum.splits if_splits option.splits prod.splits)
  from exec_rows_metered [OF this] show ?thesis by (simp add: meter_new_def)
qed simp

subsection \<open>Answers as responses\<close>

lemma opened_error_completes:
  assumes "opened job r objs" "er_id e = Some (jb_id job)"
  shows "completes (reader_new (jb_id job)) (objs @ [Error e])"
proof (rule shape_completes, cases "objs = []")
  case True
  then show "response_shape (jb_id job) (objs @ [Error e])"
    using assms(2) response_shape.single [of "jb_id job" "Error e"] by (simp add: lone_def id_ok_def)
next
  case False
  with assms(1) obtain batches where b: "objs = Result \<lparr>rh_id = jb_id job, rh_columns = rn_columns r,
      rh_decl_types = rn_decl_types r\<rparr> # map Row batches" "row_frames job r batches"
    by (auto simp: opened_def)
  from b(2) row_frames_rows_ok [OF b(2)] assms(2)
  have "response_shape (jb_id job) (Result \<lparr>rh_id = jb_id job, rh_columns = rn_columns r,
      rh_decl_types = rn_decl_types r\<rparr> # map Row batches @ [Error e])"
    by (intro response_shape.table) (simp_all add: row_frames_def trailer_def id_ok_def)
  with b(1) show "response_shape (jb_id job) (objs @ [Error e])" by simp
qed

lemma finished_run_completes:
  assumes "finished job r objs em"
  shows "completes (reader_new (jb_id job)) objs"
proof (rule shape_completes)
  from assms obtain batches e where b: "objs = header_of job r # map Row batches @ [Done (done_of job r e)]"
      "row_frames job r batches" by (auto simp: finished_def)
  from b(2) row_frames_rows_ok [OF b(2)]
  show "response_shape (jb_id job) objs"
    unfolding b(1) header_of_def
    by (intro response_shape.table) (simp_all add: row_frames_def trailer_def done_of_def Let_def)
qed

lemma halt_frame_Error:
  "h \<noteq> ClientGone \<Longrightarrow> \<exists>e. halt_frame i m h = Some (Error e) \<and> er_id e = Some i"
  by (cases h) (auto simp: halt_frame_def error_frame_def)

text \<open>Job B on a channel whose client stays: an error and the database as it was, or a result.\<close>

lemma run_execute_cases:
  assumes "run_execute eg env job db c = (db', c')" "ch_room c = None"
  obtains (error) objs e where "ch_sent c' = ch_sent c @ objs @ [Error e]" "er_id e = Some (jb_id job)"
      "opened job (eg_run eg db (jb_sql job) (jb_params job)) objs" "db' = db"
  | (recorded) json where "is_write (jb_approved job)" "recorded_outcome db (jb_id job) = Inr (Some json)"
      "ch_sent c' = ch_sent c @
         [Result \<lparr>rh_id = jb_id job, rh_columns = [], rh_decl_types = []\<rparr>,
          Done \<lparr>dn_id = jb_id job, dn_row_count = Some 0, dn_affected_rows = fst (eg_outcome eg json),
                dn_last_insert_rowid = snd (eg_outcome eg json), dn_truncated = False\<rparr>]"
      "db' = audit_outcome (jb_audit_id job) 0 0 db"
  | (finished) objs em db1 m where "ch_sent c' = ch_sent c @ objs"
      "finished job (eg_run eg db (jb_sql job) (jb_params job)) objs em"
      "execute_in_tx eg env job db c = (Inr em, db1, c', m)"
      "db' = audit_outcome (jb_audit_id job) (em_rows_out em) (em_bytes_out em) db1"
proof -
  obtain res db1 c1 m where ex: "execute_in_tx eg env job db c = (res, db1, c1, m)"
    by (cases "execute_in_tx eg env job db c")
  note spec = execute_spec [OF ex assms(2)]
  show ?thesis
  proof (cases res)
    case (Inl h)
    from spec(2) [OF Inl] obtain objs where h: "h \<noteq> ClientGone" "db1 = db"
        "ch_sent c1 = ch_sent c @ objs" "opened job (eg_run eg db (jb_sql job) (jb_params job)) objs" by blast
    obtain e where e: "halt_frame (jb_id job) m h = Some (Error e)" "er_id e = Some (jb_id job)"
      using halt_frame_Error [OF h(1)] by blast
    from assms(1) ex Inl e h spec(1) show ?thesis
      by (intro error [of objs e]) (auto simp: run_execute_def push_lossy_open)
  next
    case (Inr em)
    from spec(3) [OF Inr] show ?thesis
    proof (elim disjE exE conjE)
      fix json assume j: "recorded_outcome db (jb_id job) = Inr (Some json)" "is_write (jb_approved job)"
        "answer_from_applied eg (jb_id job) json c = (Inr em, c1)" "db1 = db"
      from answer_from_applied_db [OF j(3) assms(2)] j assms(1) ex Inr show ?thesis
        by (intro recorded [of json]) (auto simp: run_execute_def)
    next
      fix objs assume "ch_sent c1 = ch_sent c @ objs"
        "finished job (eg_run eg db (jb_sql job) (jb_params job)) objs em"
      with assms(1) ex Inr show ?thesis
        by (intro finished [of objs em db1 m]) (auto simp: run_execute_def)
    qed
  qed
qed

end
