(* ===== verification/Response_Stream.thy ===== *)
theory Response_Stream
  imports Exec_Facts Frame
begin

text \<open>
  The client's stream (\<open>RequestStream\<close> of the transport crate) and the way the frames of a
  job reach it (\<open>execute_and_stream\<close> of \<open>crates/node/src/pipeline.rs\<close>).

  A stream takes frames as a job's channel does, and in addition refuses a frame that it
  cannot encode: over iroh and on the owner's socket that is one above \<open>MAX_FRAME_LEN\<close>
  (\<open>frame_fits\<close>); the web surface's own stream takes every frame. Nothing is written for a
  refused frame, and the lanes stop at it.
\<close>

subsection \<open>Streams\<close>

text \<open>\<open>st_fits\<close> says which frames the stream can encode. \<open>st_ahead\<close> is how many frames beyond the
  first refused one the job's channel still took before its receiver was dropped: that is a
  race, bounded by the channel's capacity.\<close>

record stream = chan +
  st_fits :: "envelope_object \<Rightarrow> bool"
  st_ahead :: nat

definition stream_new :: "(envelope_object \<Rightarrow> bool) \<Rightarrow> nat \<Rightarrow> stream" where
  "stream_new fits ahead = \<lparr>ch_sent = [], ch_room = None, st_fits = fits, st_ahead = ahead\<rparr>"

definition frame_fits :: "ext \<Rightarrow> envelope_object \<Rightarrow> bool" where
  "frame_fits x obj \<longleftrightarrow> (case fst (encode_envelope x obj []) of Inr _ \<Rightarrow> True | Inl _ \<Rightarrow> False)"

lemma frame_fits_length:
  "frame_fits x obj \<longleftrightarrow> (\<exists>ttl. to_turtle x obj = Inr ttl \<and> length ttl \<le> MAX_FRAME_LEN)"
  by (simp add: frame_fits_def encode_envelope_def encode_frame_def split: sum.split)

definition send_frame :: "stream \<Rightarrow> envelope_object \<Rightarrow> stream option" where
  "send_frame c obj =
     (if \<not> st_fits c obj then None
      else case ch_room c of
        None \<Rightarrow> Some (c\<lparr>ch_sent := ch_sent c @ [obj]\<rparr>)
      | Some 0 \<Rightarrow> None
      | Some (Suc n) \<Rightarrow> Some (c\<lparr>ch_sent := ch_sent c @ [obj], ch_room := Some n\<rparr>))"

text \<open>Sending stops with the first frame that fails; the answer is the stream after the attempt.\<close>

fun send_all :: "stream \<Rightarrow> envelope_object list \<Rightarrow> stream" where
  "send_all c [] = c"
| "send_all c (obj # objs) = (case send_frame c obj of None \<Rightarrow> c | Some c' \<Rightarrow> send_all c' objs)"

text \<open>How many of the frames the stream takes.\<close>

fun takes :: "stream \<Rightarrow> envelope_object list \<Rightarrow> nat" where
  "takes c [] = 0"
| "takes c (obj # objs) = (case send_frame c obj of None \<Rightarrow> 0 | Some c' \<Rightarrow> Suc (takes c' objs))"

text \<open>
  A job on the database thread and the loop that forwards its frames. The loop breaks at the
  first frame the stream refuses and drops the receiver, so the channel takes the frames up
  to that one, and those that were ahead of it; if the stream takes every frame of the job
  the channel never closes. What the job did is what it did on that channel.
\<close>

definition stream_job :: "(chan \<Rightarrow> 'a \<times> chan) \<Rightarrow> stream \<Rightarrow> 'a \<times> stream" where
  "stream_job job c =
     (let whole = ch_sent (snd (job \<lparr>ch_sent = [], ch_room = None\<rparr>));
          room = (if takes c whole = length whole then None else Some (Suc (takes c whole) + st_ahead c))
      in case job \<lparr>ch_sent = [], ch_room = room\<rparr> of
           (result, out) \<Rightarrow> (result, send_all c (ch_sent out)))"

subsection \<open>What a stream takes\<close>

lemma send_all_open: "ch_room c = None \<Longrightarrow> send_all c objs = c\<lparr>ch_sent := ch_sent c @ takeWhile (st_fits c) objs\<rparr>"
  by (induction objs arbitrary: c) (simp_all add: send_frame_def)

lemma takes_open: "ch_room c = None \<Longrightarrow> takes c objs = length (takeWhile (st_fits c) objs)"
  by (induction objs arbitrary: c) (simp_all add: send_frame_def)

lemma send_all_takes: "ch_sent (send_all c objs) = ch_sent c @ take (takes c objs) objs"
  by (induction objs arbitrary: c) (auto simp: send_frame_def split: option.splits nat.splits)

lemma takes_length: "takes c objs \<le> length objs"
  by (induction objs arbitrary: c) (auto split: option.split)

lemma takes_take: "takes c objs < n \<Longrightarrow> takes c (take n objs) = takes c objs"
proof (induction objs arbitrary: c n)
  case (Cons obj objs)
  then show ?case by (cases n) (auto split: option.splits)
qed simp

lemma stream_new_simps [simp]:
  "ch_sent (stream_new fits k) = []" "ch_room (stream_new fits k) = None"
  "st_fits (stream_new fits k) = fits" "st_ahead (stream_new fits k) = k"
  by (simp_all add: stream_new_def)

lemma takeWhile_all: "length (takeWhile P xs) = length xs \<longleftrightarrow> list_all P xs"
  by (induction xs) auto

lemma takeWhile_eq_all: "takeWhile P xs = xs \<longleftrightarrow> list_all P xs"
  by (induction xs) auto

subsection \<open>A job on a shorter channel\<close>

text \<open>The channel \<open>c\<close> with room for \<open>n\<close> frames in all, and that channel when it is full.\<close>

definition short_chan :: "nat \<Rightarrow> chan \<Rightarrow> chan" where
  "short_chan n c = \<lparr>ch_sent = ch_sent c, ch_room = Some (n - length (ch_sent c))\<rparr>"

definition full_chan :: "nat \<Rightarrow> chan \<Rightarrow> chan" where
  "full_chan n c = \<lparr>ch_sent = take n (ch_sent c), ch_room = Some 0\<rparr>"

lemma lim_sent [simp]: "ch_sent (short_chan n c) = ch_sent c" "ch_sent (full_chan n c) = take n (ch_sent c)"
  by (simp_all add: short_chan_def full_chan_def)

lemma push_lim:
  "ch_room c = None \<Longrightarrow> length (ch_sent c) \<le> n \<Longrightarrow>
     push_frame (short_chan n c) obj =
       (if length (ch_sent c) < n then Inr (short_chan n (c\<lparr>ch_sent := ch_sent c @ [obj]\<rparr>)) else Inl ClientGone)"
  by (auto simp: push_frame_def short_chan_def split: nat.split)

text \<open>The relation between a run on an open channel and the one on the shorter channel: the same
  while the frames fit, and otherwise stopped with the channel full.\<close>

definition limited ::
  "nat \<Rightarrow> (halt, 'a) result \<Rightarrow> chan \<Rightarrow> (halt, 'a) result \<Rightarrow> chan \<Rightarrow> bool" where
  "limited n res c res' c' \<longleftrightarrow>
     (if length (ch_sent c) \<le> n then res' = res \<and> c' = short_chan n c
      else res' = Inl ClientGone \<and> c' = full_chan n c)"

definition grew :: "chan \<Rightarrow> chan \<Rightarrow> bool" where
  "grew c c' \<longleftrightarrow> ch_room c' = None \<and> (\<exists>zs. ch_sent c' = ch_sent c @ zs)"

lemma grew_refl: "ch_room c = None \<Longrightarrow> grew c c" by (simp add: grew_def)

lemma grew_trans: "grew a b \<Longrightarrow> grew b c \<Longrightarrow> grew a c" by (auto simp: grew_def)

lemma grew_push: "ch_room c = None \<Longrightarrow> grew c (c\<lparr>ch_sent := ch_sent c @ [obj]\<rparr>)"
  by (auto simp: grew_def)

lemma grew_length: "grew c c' \<Longrightarrow> length (ch_sent c) \<le> length (ch_sent c')"
  by (auto simp: grew_def)

lemma lim_full: "length (ch_sent c) = n \<Longrightarrow> grew c c' \<Longrightarrow> short_chan n c = full_chan n c'"
  by (auto simp: short_chan_def full_chan_def grew_def)

lemma limited_same: "length (ch_sent c) \<le> n \<Longrightarrow> limited n res c res (short_chan n c)"
  by (simp add: limited_def)

lemma push_limited:
  assumes "ch_room c = None" "length (ch_sent c) \<le> n"
  obtains (taken) c1 where "push_frame c obj = Inr c1" "push_frame (short_chan n c) obj = Inr (short_chan n c1)"
      "grew c c1" "length (ch_sent c1) \<le> n" "c1 = c\<lparr>ch_sent := ch_sent c @ [obj]\<rparr>"
  | (gone) c1 where "push_frame c obj = Inr c1" "push_frame (short_chan n c) obj = Inl ClientGone"
      "grew c c1" "length (ch_sent c) = n" "length (ch_sent c1) = Suc n"
  using assms push_lim [OF assms, of obj] grew_push [OF assms(1), of obj] push_open [OF assms(1), of obj]
  by (cases "length (ch_sent c) < n") auto

lemma limited_full: "n < length (ch_sent c') \<Longrightarrow> length (ch_sent c) = n \<Longrightarrow> grew c c' \<Longrightarrow>
   limited n res c' (Inl ClientGone) (short_chan n c)"
  by (simp add: limited_def lim_full)

lemma exec_rows_grew:
  assumes "exec_rows job r seq batch bb bo c m = (res, c', m')" "ch_room c = None"
  shows "grew c c'"
  using assms
proof (induction "nat (lm_row_cap (jb_limits job) - int seq)" arbitrary: seq batch bb bo c m rule: less_induct)
  case less
  from less.prems(1) show ?case
  proof (cases rule: exec_rows_cases)
    case (push row est c1 m1)
    have "grew c c1" using push(5) less.prems(2) by (auto simp: push_open grew_def)
    moreover from this less.hyps [OF _ push(6)] push(1) have "grew c1 c'" by (auto simp: grew_def)
    ultimately show ?thesis by (rule grew_trans)
  next
    case (keep row est m1)
    from less.hyps [OF _ keep(6) less.prems(2)] keep(1) show ?thesis by auto
  qed (use less.prems(2) in \<open>simp_all add: grew_refl\<close>)
qed

lemma exec_rows_limited:
  assumes "exec_rows job r seq batch bb bo c m = (res, c', m')" "ch_room c = None" "length (ch_sent c) \<le> n"
  shows "\<exists>res1 c1 m1. exec_rows job r seq batch bb bo (short_chan n c) m = (res1, c1, m1)
    \<and> limited n res c' res1 c1 \<and> (length (ch_sent c') \<le> n \<longrightarrow> m1 = m')"
  using assms
proof (induction "nat (lm_row_cap (jb_limits job) - int seq)" arbitrary: seq batch bb bo c m rule: less_induct)
  case less
  obtain got m1 where f: "fetch (jb_limits job) r seq m = (got, m1)" by fastforce
  note unf = exec_rows.simps [of job r seq batch bb bo _ m]
  have stop: ?case if "\<And>d. exec_rows job r seq batch bb bo d m = (v, d, m1)" for v
    using less.prems that by (auto simp: limited_same)
  show ?case
  proof (cases got)
    case (Inl e)
    show ?thesis by (rule stop) (subst unf, simp add: f Inl Let_def)
  next
    case (Inr row)
    show ?thesis
    proof (cases row)
      case None
      show ?thesis by (rule stop) (subst unf, simp add: f Inr None Let_def)
    next
      case (Some cells)
      show ?thesis
      proof (cases "lm_row_cap (jb_limits job) \<le> int seq")
        case True
        show ?thesis by (rule stop) (subst unf, simp add: f Inr Some True Let_def)
      next
        case False
        then have dec: "nat (lm_row_cap (jb_limits job) - int (Suc seq)) < nat (lm_row_cap (jb_limits job) - int seq)" by simp
        show ?thesis
        proof (cases "row_from_sql cells (rn_columns r) (int seq)")
          case (Inl e)
          show ?thesis by (rule stop) (subst unf, use False in \<open>simp add: f Inr Some Inl Let_def\<close>)
        next
          case row: (Inr re)
          obtain x est where re: "re = (x, est)" by fastforce
          show ?thesis
          proof (cases "lm_byte_cap (jb_limits job) < bo + int (bb + est)")
            case True
            show ?thesis by (rule stop) (subst unf, use False True in \<open>simp add: f Inr Some row re Let_def\<close>)
          next
            case byte: False
            note norm = f Inr Some row re Let_def
            show ?thesis
            proof (cases "jb_rows_per_frame job \<le> length (batch @ [x]) \<or> jb_frame_byte_budget job \<le> bb + est")
              case False': False
              have step: "exec_rows job r seq batch bb bo d m = exec_rows job r (Suc seq) (batch @ [x]) (bb + est) bo d m1" for d
                by (subst unf) (use False False' byte in \<open>simp add: norm\<close>)
              show ?thesis unfolding step
                by (rule less.hyps [OF dec less.prems(1) [unfolded step] less.prems(2,3)])
            next
              case True
              have step: "exec_rows job r seq batch bb bo d m =
                  (case push_frame d (Row (batch @ [x])) of Inl h \<Rightarrow> (Inl h, d, m1)
                   | Inr d' \<Rightarrow> exec_rows job r (Suc seq) [] 0 (bo + int (bb + est)) d' m1)" for d
                by (subst unf) (use False True byte in \<open>simp add: norm\<close>)
              from less.prems(2,3) show ?thesis
              proof (cases rule: push_limited [where obj = "Row (batch @ [x])"])
                case (taken c1)
                have "exec_rows job r (Suc seq) [] 0 (bo + int (bb + est)) c1 m1 = (res, c', m')"
                  using less.prems(1) by (simp add: step taken(1))
                from less.hyps [OF dec this] taken(3,4) show ?thesis
                  unfolding step taken(2) by (auto simp: grew_def)
              next
                case (gone c1)
                have e: "exec_rows job r (Suc seq) [] 0 (bo + int (bb + est)) c1 m1 = (res, c', m')"
                  using less.prems(1) by (simp add: step gone(1))
                have g: "grew c1 c'" using exec_rows_grew [OF e] gone(3) by (simp add: grew_def)
                from limited_full [OF _ gone(4) grew_trans [OF gone(3) g]] grew_length [OF g] gone(5)
                show ?thesis unfolding step gone(2) by simp
              qed
            qed
          qed
        qed
      qed
    qed
  qed
qed

text \<open>The other steps of the execution.\<close>

lemma answer_limited:
  assumes "answer_from_applied eg i json c = (res, c')" "ch_room c = None" "length (ch_sent c) \<le> n"
  shows "grew c c' \<and> (\<exists>res1 c1. answer_from_applied eg i json (short_chan n c) = (res1, c1) \<and> limited n res c' res1 c1)"
proof -
  obtain a b where o: "eg_outcome eg json = (a, b)" by fastforce
  let ?h = "Result \<lparr>rh_id = i, rh_columns = [], rh_decl_types = []\<rparr>"
  let ?d = "Done \<lparr>dn_id = i, dn_row_count = Some 0, dn_affected_rows = a, dn_last_insert_rowid = b, dn_truncated = False\<rparr>"
  note unf = answer_from_applied_def [of eg i json, unfolded o Let_def prod.case]
  from assms(2,3) show ?thesis
  proof (cases rule: push_limited [where obj = ?h])
    case (taken c1)
    have r: "ch_room c1 = None" using taken(3) by (simp add: grew_def)
    from r taken(4) show ?thesis
    proof (cases rule: push_limited [where obj = ?d])
      case (taken c2)
      with \<open>push_frame c ?h = Inr c1\<close> \<open>push_frame (short_chan n c) ?h = Inr (short_chan n c1)\<close> \<open>grew c c1\<close> assms(1)
      show ?thesis by (auto simp: unf limited_same elim: grew_trans)
    next
      case (gone c2)
      with \<open>push_frame c ?h = Inr c1\<close> \<open>push_frame (short_chan n c) ?h = Inr (short_chan n c1)\<close> \<open>grew c c1\<close> assms(1)
      show ?thesis by (auto simp: unf limited_full elim: grew_trans)
    qed
  next
    case (gone c1)
    have r: "ch_room c1 = None" using gone(3) by (simp add: grew_def)
    have e: "res = Inr \<lparr>em_rows_out = 0, em_bytes_out = 0\<rparr>" "c' = c1\<lparr>ch_sent := ch_sent c1 @ [?d]\<rparr>"
      using assms(1) gone(1) r by (simp_all add: unf push_open)
    have g: "grew c c'" using gone(3) grew_push [OF r] e(2) grew_trans by blast
    from limited_full [OF _ gone(4) g] gone(5) e g show ?thesis by (simp add: unf gone(2))
  qed
qed

text \<open>What follows the last batch: the record, the commit and the \<open>Done\<close>.\<close>

lemma finish_limited:
  assumes "finish_tx eg env job db r e c = (res, db', c')" "ch_room c = None" "length (ch_sent c) \<le> n"
  shows "grew c c' \<and> (\<exists>res1 db1 c1. finish_tx eg env job db r e (short_chan n c) = (res1, db1, c1)
    \<and> limited n res c' res1 c1 \<and> (length (ch_sent c') \<le> n \<longrightarrow> db1 = db'))"
proof -
  define after where "after = (\<lambda>c1.
          let bytes_out = le_bytes_out e + int (le_batch_bytes e);
              fetched = Suc (le_seq e);
              db1 = rn_db r fetched;
              affected = rn_changes r fetched;
              last_rowid = rn_rowid r fetched;
              write = is_write (jb_approved job)
          in case (if write
                   then insert_applied \<lparr>al_request_id = jb_id job, al_at = now_rfc3339 env,
                          al_outcome = eg_outcome_json eg affected last_rowid\<rparr> db1
                   else Inr db1) of
               Inl err \<Rightarrow> (Inl (HSqlite err), db, c1)
             | Inr db2 \<Rightarrow>
                 (case eg_commit eg db2 of
                    Some err \<Rightarrow> (Inl (HSqlite err), db, c1)
                  | None \<Rightarrow>
                      (case push_frame c1 (Done (done_of job r e)) of
                         Inl h \<Rightarrow> (Inl h, db2, c1)
                       | Inr c2 \<Rightarrow>
                           (Inr \<lparr>em_rows_out = int (le_seq e), em_bytes_out = bytes_out\<rparr>, db2, c2))))"
  have unf: "finish_tx eg env job db r e d =
      (case (if le_batch e = [] then Inr d else push_frame d (Row (le_batch e))) of
        Inl h \<Rightarrow> (Inl h, db, d) | Inr d' \<Rightarrow> after d')" for d
    unfolding finish_tx_def after_def ..
  have tail: "grew d d' \<and> (\<exists>res1 db1 c1. after (short_chan n d) = (res1, db1, c1)
      \<and> limited n res d' res1 c1 \<and> (length (ch_sent d') \<le> n \<longrightarrow> db1 = db2))"
    if a: "after d = (res, db2, d')" "ch_room d = None" "length (ch_sent d) \<le> n" for d d' res db2
    using a(2,3)
  proof (cases rule: push_limited [where obj = "Done (done_of job r e)"])
    case (taken d1)
    with a show ?thesis
      by (auto simp: after_def Let_def grew_refl limited_same split: sum.splits option.splits)
  next
    case (gone d1)
    with a show ?thesis
      by (auto simp: after_def Let_def grew_refl limited_same limited_full split: sum.splits option.splits)
  qed
  have grows: "grew d d'" if a: "after d = (res, db2, d')" "ch_room d = None" for d d' res db2
    using a push_open [OF a(2), of "Done (done_of job r e)"] grew_push [OF a(2), of "Done (done_of job r e)"]
    by (auto simp: after_def Let_def grew_refl split: sum.splits option.splits)
  show ?thesis
  proof (cases "le_batch e = []")
    case True
    with tail [of c res db' c'] assms show ?thesis by (simp add: unf)
  next
    case False
    from assms(2,3) show ?thesis
    proof (cases rule: push_limited [where obj = "Row (le_batch e)"])
      case (taken c1)
      have "after c1 = (res, db', c')" "ch_room c1 = None"
        using assms(1) taken(1,3) False by (simp_all add: unf grew_def)
      from tail [OF this taken(4)] taken(2,3) False show ?thesis by (auto simp: unf elim: grew_trans)
    next
      case (gone c1)
      have "after c1 = (res, db', c')" "ch_room c1 = None"
        using assms(1) gone(1,3) False by (simp_all add: unf grew_def)
      from grows [OF this] have g: "grew c1 c'" .
      from limited_full [OF _ gone(4) grew_trans [OF gone(3) g]] grew_length [OF g] gone(2,3,5) False
      show ?thesis by (auto simp: unf intro: grew_trans [OF gone(3) g])
    qed
  qed
qed

lemma statement_limited:
  assumes "run_statement eg env job db c = (res, db', c', m)" "ch_room c = None" "length (ch_sent c) \<le> n"
  shows "grew c c' \<and> (\<exists>res1 db1 c1 m1. run_statement eg env job db (short_chan n c) = (res1, db1, c1, m1)
    \<and> limited n res c' res1 c1 \<and> (length (ch_sent c') \<le> n \<longrightarrow> db1 = db' \<and> m1 = m))"
proof -
  define r where "r = eg_run eg db (jb_sql job) (jb_params job)"
  define after where "after = (\<lambda>c1.
             if list_ex is_blob_ref (jb_params job) then (Inl (BadParam BLOB_REF_REASON), db, c1, meter_new)
             else case rn_bind_error r of
               Some e \<Rightarrow> (Inl (HSqlite e), db, c1, meter_new)
             | None \<Rightarrow>
                 (case exec_rows job r 0 [] 0 (header_estimate (rn_columns r)) c1 meter_new of
                    (Inl h, c2, m) \<Rightarrow> (Inl h, db, c2, m)
                  | (Inr e, c2, m) \<Rightarrow>
                      (case finish_tx eg env job db r e c2 of (res, db', c3) \<Rightarrow> (res, db', c3, m))))"
  let ?h = "Result \<lparr>rh_id = jb_id job, rh_columns = rn_columns r, rh_decl_types = rn_decl_types r\<rparr>"
  have unf: "run_statement eg env job db d =
      (case push_frame d ?h of Inl h \<Rightarrow> (Inl h, db, d, meter_new) | Inr d' \<Rightarrow> after d')" for d
    unfolding run_statement_def Let_def after_def r_def ..
  have rest: "grew d d' \<and> (length (ch_sent d) \<le> n \<longrightarrow> (\<exists>res1 db1 c1 m1. after (short_chan n d) = (res1, db1, c1, m1)
      \<and> limited n res d' res1 c1 \<and> (length (ch_sent d') \<le> n \<longrightarrow> db1 = db2 \<and> m1 = m)))"
    if a: "after d = (res, db2, d', m)" "ch_room d = None" for d d' res db2 m
  proof (cases "list_ex is_blob_ref (jb_params job) \<or> rn_bind_error r \<noteq> None")
    case True
    with a show ?thesis by (auto simp: after_def grew_refl limited_same)
  next
    case False
    obtain out d2 m2 where rows: "exec_rows job r 0 [] 0 (header_estimate (rn_columns r)) d meter_new = (out, d2, m2)"
      by (metis prod_cases3)
    have g: "grew d d2" by (rule exec_rows_grew [OF rows a(2)])
    have room: "ch_room d2 = None" using g by (simp add: grew_def)
    show ?thesis
    proof (cases out)
      case (Inl h)
      with a(1) False rows have e: "res = Inl h" "db2 = db" "d' = d2" "m = m2" by (auto simp: after_def)
      show ?thesis
      proof (intro conjI impI)
        show "grew d d'" using g e by simp
        assume "length (ch_sent d) \<le> n"
        from exec_rows_limited [OF rows a(2) this] obtain res1 c1 m1 where
          l: "exec_rows job r 0 [] 0 (header_estimate (rn_columns r)) (short_chan n d) meter_new = (res1, c1, m1)"
            "limited n out d2 res1 c1" "length (ch_sent d2) \<le> n \<longrightarrow> m1 = m2" by blast
        then show "\<exists>res1 db1 c1 m1. after (short_chan n d) = (res1, db1, c1, m1)
          \<and> limited n res d' res1 c1 \<and> (length (ch_sent d') \<le> n \<longrightarrow> db1 = db2 \<and> m1 = m)"
          using False e Inl by (cases "length (ch_sent d2) \<le> n") (auto simp: after_def limited_def)
      qed
    next
      case (Inr e)
      obtain res3 db3 d3 where fin: "finish_tx eg env job db r e d2 = (res3, db3, d3)" by (metis prod_cases3)
      with a(1) False rows Inr have q: "res = res3" "db2 = db3" "d' = d3" "m = m2" by (auto simp: after_def)
      have g3: "grew d2 d3" using finish_limited [OF fin room order_refl] by blast
      show ?thesis
      proof (intro conjI impI)
        show "grew d d'" using grew_trans [OF g g3] q by simp
        assume len: "length (ch_sent d) \<le> n"
        from exec_rows_limited [OF rows a(2) len] obtain res1 c1 m1 where
          l: "exec_rows job r 0 [] 0 (header_estimate (rn_columns r)) (short_chan n d) meter_new = (res1, c1, m1)"
            "limited n out d2 res1 c1" "length (ch_sent d2) \<le> n \<longrightarrow> m1 = m2" by blast
        show "\<exists>res1 db1 c1 m1. after (short_chan n d) = (res1, db1, c1, m1)
          \<and> limited n res d' res1 c1 \<and> (length (ch_sent d') \<le> n \<longrightarrow> db1 = db2 \<and> m1 = m)"
        proof (cases "length (ch_sent d2) \<le> n")
          case True
          with l Inr have "res1 = Inr e" "c1 = short_chan n d2" "m1 = m2" by (simp_all add: limited_def)
          with finish_limited [OF fin room True] l(1) False q show ?thesis by (auto simp: after_def)
        next
          case cut: False
          then have f: "full_chan n d2 = full_chan n d3" "\<not> length (ch_sent d3) \<le> n"
            using g3 by (auto simp: full_chan_def grew_def)
          from cut l have "res1 = Inl ClientGone" "c1 = full_chan n d2" by (simp_all add: limited_def)
          with l(1) False q f show ?thesis by (auto simp: after_def limited_def)
        qed
      qed
    qed
  qed
  from assms(2,3) show ?thesis
  proof (cases rule: push_limited [where obj = ?h])
    case (taken c1)
    have "after c1 = (res, db', c', m)" "ch_room c1 = None"
      using assms(1) taken(1,3) by (simp_all add: unf grew_def)
    from rest [OF this] taken(2,3,4) show ?thesis by (auto simp: unf elim: grew_trans)
  next
    case (gone c1)
    have "after c1 = (res, db', c', m)" "ch_room c1 = None"
      using assms(1) gone(1,3) by (simp_all add: unf grew_def)
    from rest [OF this] have g: "grew c1 c'" by blast
    from limited_full [OF _ gone(4) grew_trans [OF gone(3) g]] grew_length [OF g] gone(2,3,5)
    show ?thesis by (auto simp: unf intro: grew_trans [OF gone(3) g])
  qed
qed

lemma execute_limited:
  assumes "execute_in_tx eg env job db c = (res, db', c', m)" "ch_room c = None" "length (ch_sent c) \<le> n"
  shows "grew c c' \<and> (\<exists>res1 db1 c1 m1. execute_in_tx eg env job db (short_chan n c) = (res1, db1, c1, m1)
    \<and> limited n res c' res1 c1 \<and> (length (ch_sent c') \<le> n \<longrightarrow> db1 = db' \<and> m1 = m))"
proof (cases "\<exists>h. \<forall>d. execute_in_tx eg env job db d = (Inl h, db, d, meter_new)")
  case True
  with assms show ?thesis by (auto simp: grew_refl limited_same)
next
  case False
  then have "(\<exists>json. \<forall>d. execute_in_tx eg env job db d =
        (case answer_from_applied eg (jb_id job) json d of (res, c') \<Rightarrow> (res, db, c', meter_new)))
      \<or> (\<forall>d. execute_in_tx eg env job db d = run_statement eg env job db d)"
    by (auto simp: execute_in_tx_def Let_def split: option.splits sum.splits)
  then show ?thesis
  proof (elim disjE exE)
    fix json assume "\<forall>d. execute_in_tx eg env job db d =
        (case answer_from_applied eg (jb_id job) json d of (res, c') \<Rightarrow> (res, db, c', meter_new))"
    then have a: "\<And>d. execute_in_tx eg env job db d =
        (case answer_from_applied eg (jb_id job) json d of (res, c') \<Rightarrow> (res, db, c', meter_new))" by blast
    obtain res2 c2 where ans: "answer_from_applied eg (jb_id job) json c = (res2, c2)" by fastforce
    with assms(1) a have e: "res2 = res" "c2 = c'" "db' = db" "m = meter_new" by simp_all
    from answer_limited [OF ans assms(2,3)] e show ?thesis by (auto simp: a)
  next
    assume "\<forall>d. execute_in_tx eg env job db d = run_statement eg env job db d"
    with statement_limited [of eg env job db c res db' c' m n] assms show ?thesis by simp
  qed
qed

text \<open>Job B on a channel that closes early puts the same frames into it, as far as it goes, and does
  the same to the database unless it was cut.\<close>

lemma run_execute_limited:
  assumes "run_execute eg env job db \<lparr>ch_sent = [], ch_room = None\<rparr> = (db', c')"
  shows "ch_sent (snd (run_execute eg env job db \<lparr>ch_sent = [], ch_room = Some n\<rparr>)) = take n (ch_sent c')
    \<and> (length (ch_sent c') \<le> n \<longrightarrow> fst (run_execute eg env job db \<lparr>ch_sent = [], ch_room = Some n\<rparr>) = db')"
proof -
  let ?c = "\<lparr>ch_sent = [], ch_room = None\<rparr> :: chan"
  have l: "\<lparr>ch_sent = [], ch_room = Some n\<rparr> = short_chan n ?c" by (simp add: short_chan_def)
  obtain res db1 c1 m where ex: "execute_in_tx eg env job db ?c = (res, db1, c1, m)"
    by (cases "execute_in_tx eg env job db ?c")
  from execute_limited [OF ex, of n] obtain res2 db2 c2 m2 where
    x: "execute_in_tx eg env job db (short_chan n ?c) = (res2, db2, c2, m2)" "limited n res c1 res2 c2"
      "length (ch_sent c1) \<le> n \<longrightarrow> db2 = db1 \<and> m2 = m" and g: "grew ?c c1" by auto
  have room: "ch_room c1 = None" using g by (simp add: grew_def)
  show ?thesis
  proof (cases res)
    case (Inr em)
    with assms ex have "c' = c1" "db' = audit_outcome (jb_audit_id job) (em_rows_out em) (em_bytes_out em) db1"
      by (simp_all add: run_execute_def)
    with Inr x show ?thesis unfolding l
      by (cases "length (ch_sent c1) \<le> n") (simp_all add: run_execute_def limited_def halt_frame_def)
  next
    case (Inl h)
    show ?thesis
    proof (cases "length (ch_sent c1) \<le> n")
      case False
      moreover obtain zs where "ch_sent c' = ch_sent c1 @ zs"
        using assms ex Inl room by (auto simp: run_execute_def push_lossy_open split: option.splits)
      ultimately show ?thesis unfolding l using Inl x by (simp add: run_execute_def limited_def halt_frame_def)
    next
      case True
      with x Inl have y: "res2 = Inl h" "c2 = short_chan n c1" "db2 = db1" "m2 = m" by (simp_all add: limited_def)
      have p: "ch_sent (push_frame_lossy (short_chan n c1) obj) = take n (ch_sent c1 @ [obj])" for obj
        using push_lim [OF room True, of obj] True by (auto simp: push_frame_lossy_def)
      show ?thesis unfolding l using assms ex Inl x(1) y room True
        by (auto simp: run_execute_def push_lossy_open p split: option.splits)
    qed
  qed
qed

text \<open>So the client gets a first part of the whole response: the frames before the first one its
  stream refuses.\<close>

abbreviation open_chan :: chan where
  "open_chan \<equiv> \<lparr>ch_sent = [], ch_room = None\<rparr>"

lemma stream_execute:
  assumes "run_execute eg env job db open_chan = (db1, c1)"
    and "stream_job (run_execute eg env job db) c = (db', c')"
  shows "ch_sent c' = ch_sent c @ take (takes c (ch_sent c1)) (ch_sent c1)"
    and "takes c (ch_sent c1) = length (ch_sent c1) \<Longrightarrow> db' = db1"
proof -
  let ?whole = "ch_sent c1"
  have "ch_sent c' = ch_sent c @ take (takes c ?whole) ?whole \<and> (takes c ?whole = length ?whole \<longrightarrow> db' = db1)"
  proof (cases "takes c ?whole = length ?whole")
    case True
    with assms have "db' = db1" "c' = send_all c ?whole" by (auto simp: stream_job_def)
    with True show ?thesis by (simp add: send_all_takes)
  next
    case False
    let ?n = "Suc (takes c ?whole) + st_ahead c"
    have "takes c ?whole < length ?whole" using False takes_length [of c ?whole] by simp
    obtain db2 c2 where r: "run_execute eg env job db \<lparr>ch_sent = [], ch_room = Some ?n\<rparr> = (db2, c2)" by fastforce
    with run_execute_limited [OF assms(1), of ?n] have sent: "ch_sent c2 = take ?n ?whole" by simp
    from assms False r have "c' = send_all c (ch_sent c2)" by (simp add: stream_job_def)
    moreover have "takes c (ch_sent c2) = takes c ?whole" unfolding sent by (rule takes_take) simp
    ultimately show ?thesis using False by (simp add: send_all_takes sent min_def)
  qed
  then show "ch_sent c' = ch_sent c @ take (takes c (ch_sent c1)) (ch_sent c1)"
    and "takes c (ch_sent c1) = length (ch_sent c1) \<Longrightarrow> db' = db1" by blast+
qed

text \<open>The whole response: an error, alone or after rows, and the database as it was; or a result that
  ends in \<open>Done\<close>, on record if it is a write.\<close>

definition no_end :: "envelope_object \<Rightarrow> bool" where
  "no_end obj \<longleftrightarrow> (\<forall>e. obj \<noteq> Error e) \<and> (\<forall>d. obj \<noteq> Done d)"

lemma no_end_simps [simp]: "no_end (Result h)" "no_end (Row rows)"
  by (simp_all add: no_end_def)

lemma opened_no_end: "opened job r objs \<Longrightarrow> list_all no_end objs"
  by (auto simp: opened_def list_all_iff)

lemma run_execute_ends:
  assumes "run_execute eg env job db open_chan = (db', c')"
  shows "\<exists>objs end. ch_sent c' = objs @ [end] \<and> list_all no_end objs \<and>
    ((\<exists>e. end = Error e) \<and> db' = db \<or> (\<exists>d. end = Done d) \<and>
      (is_write (jb_approved job) \<longrightarrow> (\<exists>json. recorded_outcome db' (jb_id job) = Inr (Some json))))"
proof -
  have "ch_room open_chan = None" by simp
  with assms show ?thesis
  proof (cases rule: run_execute_cases)
    case (error objs e)
    with opened_no_end [OF error(3)] show ?thesis by (intro exI [of _ objs] exI [of _ "Error e"]) simp
  next
    case (recorded json)
    then have "recorded_outcome db' (jb_id job) = Inr (Some json)" by (simp add: recorded_outcome_def)
    with recorded show ?thesis
      by (intro exI [of _ "[Result \<lparr>rh_id = jb_id job, rh_columns = [], rh_decl_types = []\<rparr>]"]
          exI [of _ "Done \<lparr>dn_id = jb_id job, dn_row_count = Some 0, dn_affected_rows = fst (eg_outcome eg json),
             dn_last_insert_rowid = snd (eg_outcome eg json), dn_truncated = False\<rparr>"]) simp
  next
    case (finished objs em db1 m)
    have same: "recorded_outcome db' (jb_id job) = recorded_outcome db1 (jb_id job)"
      using finished(4) by (simp add: recorded_outcome_def)
    have rec: "\<exists>json. recorded_outcome db1 (jb_id job) = Inr (Some json)" if "is_write (jb_approved job)"
      using finished(3)
    proof (cases rule: execute_cases)
      case (recorded json)
      then show ?thesis by blast
    next
      case runs
      from write_recorded [OF finished(3) that runs(3) [OF that]] show ?thesis by blast
    qed simp
    from finished(2) obtain batches e where
      "objs = header_of job (eg_run eg db (jb_sql job) (jb_params job)) # map Row batches
         @ [Done (done_of job (eg_run eg db (jb_sql job) (jb_params job)) e)]" by (auto simp: finished_def)
    with finished(1) rec same show ?thesis
      by (intro exI [of _ "header_of job (eg_run eg db (jb_sql job) (jb_params job)) # map Row batches"]
          exI [of _ "Done (done_of job (eg_run eg db (jb_sql job) (jb_params job)) e)"])
        (auto simp: header_of_def list_all_iff)
  qed
qed

text \<open>The database a job leaves is one that a run of it leaves on some channel.\<close>

lemma stream_job_run:
  "stream_job job c = (result, c') \<Longrightarrow> \<exists>room out. job \<lparr>ch_sent = [], ch_room = room\<rparr> = (result, out)"
  by (auto simp: stream_job_def Let_def split: prod.splits)

text \<open>Cut short or not, a write leaves the database as it was or its record in it.\<close>

lemma execute_settles:
  assumes "execute_in_tx eg env job db c = (res, db', c', m)"
  shows "db' = db \<or> (is_write (jb_approved job) \<longrightarrow> (\<exists>json. recorded_outcome db' (jb_id job) = Inr (Some json)))"
  using assms
proof (cases rule: execute_cases)
  case runs
  then show ?thesis
    using insert_applied_recorded
    by (fastforce simp: run_statement_def finish_tx_def Let_def split: sum.splits option.splits prod.splits if_splits)
qed auto

lemma run_execute_settles:
  assumes "run_execute eg env job db c = (db', c')"
  shows "db' = db \<or> (is_write (jb_approved job) \<longrightarrow> (\<exists>json. recorded_outcome db' (jb_id job) = Inr (Some json)))"
proof -
  obtain res db1 c1 m where ex: "execute_in_tx eg env job db c = (res, db1, c1, m)"
    by (cases "execute_in_tx eg env job db c")
  show ?thesis
  proof (cases res)
    case (Inl h)
    with assms ex execute_settles [OF ex] show ?thesis by (simp add: run_execute_def)
  next
    case (Inr em)
    have "is_write (jb_approved job) \<longrightarrow> (\<exists>json. recorded_outcome db1 (jb_id job) = Inr (Some json))"
      using ex [unfolded Inr]
    proof (cases rule: execute_cases)
      case runs
      from write_recorded [OF ex [unfolded Inr]] runs(3) show ?thesis by blast
    qed auto
    with assms ex Inr show ?thesis by (auto simp: run_execute_def recorded_outcome_def)
  qed
qed

subsection \<open>First parts of responses\<close>

text \<open>No proper first part of a complete response is complete.\<close>

lemma completes_append: "completes r xs \<Longrightarrow> completes r (xs @ ys) \<Longrightarrow> ys = []"
  by (induction xs arbitrary: r) (simp_all add: completes_Nil finished_completes completes_Cons)

lemma completes_takeWhile:
  assumes "completes r xs"
  shows "completes r (takeWhile P xs) \<longleftrightarrow> list_all P xs"
proof
  assume "completes r (takeWhile P xs)"
  moreover have "completes r (takeWhile P xs @ dropWhile P xs)" using assms by simp
  ultimately have "dropWhile P xs = []" by (rule completes_append)
  with takeWhile_dropWhile_id [of P xs] have "takeWhile P xs = xs" by simp
  then show "list_all P xs" by (simp only: takeWhile_eq_all)
next
  assume "list_all P xs"
  then have "takeWhile P xs = xs" by (simp only: takeWhile_eq_all)
  with assms show "completes r (takeWhile P xs)" by (simp only:)
qed

text \<open>A lane whose answer on a stream is what the stream takes of one complete response.\<close>

lemma part_of_response:
  assumes "\<exists>whole. completes r whole \<and> (\<forall>fits. serve (stream_new fits ahead) = takeWhile fits whole)"
  shows "completes r (serve (stream_new (\<lambda>_. True) ahead))
    \<and> serve (stream_new fits ahead) = takeWhile fits (serve (stream_new (\<lambda>_. True) ahead))
    \<and> (completes r (serve (stream_new fits ahead)) \<longleftrightarrow> list_all fits (serve (stream_new (\<lambda>_. True) ahead)))"
proof -
  from assms obtain whole where w: "completes r whole"
    "\<And>fits. serve (stream_new fits ahead) = takeWhile fits whole" by blast
  have t: "takeWhile (\<lambda>_. True) whole = whole" by (simp add: takeWhile_eq_all_conv)
  show ?thesis using w(1) completes_takeWhile [OF w(1), of fits] by (simp only: w(2) t simp_thms)
qed

lemma shape_sends:
  "response_shape i objs \<Longrightarrow>
     \<exists>whole. completes (reader_new i) whole \<and> (\<forall>fits. ch_sent (send_all (stream_new fits ahead) objs) = takeWhile fits whole)"
  by (auto simp: send_all_open dest: shape_completes simp del: send_all.simps)

lemma lone_sends:
  "lone i obj \<Longrightarrow>
     \<exists>whole. completes (reader_new i) whole \<and> (\<forall>fits. ch_sent (send_all (stream_new fits ahead) [obj]) = takeWhile fits whole)"
  by (rule shape_sends) (rule response_shape.single)

end
