(* ===== verification/Pipeline_Serve.thy ===== *)
theory Pipeline_Serve
  imports Response_Stream
begin

text \<open>
  The lanes of the serving pipeline (\<open>crates/node/src/pipeline.rs\<close>) that run SQL: a peer's
  statement, the owner's, and the statements a mod plugin issues. Job A and job B are two
  jobs of the database thread; what other jobs and processes do to the database in between
  is the parameter \<open>between\<close>.
\<close>

definition send_denied :: "stream \<Rightarrow> string option \<Rightarrow> string \<Rightarrow> stream" where
  "send_denied c i reason = send_all c [Denied \<lparr>de_id = i, de_reason = Some reason\<rparr>]"

definition send_error :: "stream \<Rightarrow> string option \<Rightarrow> error_code \<Rightarrow> string \<Rightarrow> stream" where
  "send_error c i code reason =
     send_all c [Error \<lparr>er_id = i, er_code = code_as_str code, er_reason = Some reason\<rparr>]"

definition exec_job_of :: "ulid \<Rightarrow> node_config \<Rightarrow> request \<Rightarrow> approved \<Rightarrow> string \<Rightarrow> int \<Rightarrow> exec_job" where
  "exec_job_of u cfg rq ap sql audit_id =
     \<lparr>jb_id = id_string u rq, jb_sql = sql, jb_params = rq_params rq, jb_approved = ap,
      jb_limits = effective_limits (rq_options rq) cfg, jb_rows_per_frame = nc_rows_per_frame cfg,
      jb_frame_byte_budget = nc_frame_byte_budget cfg, jb_allowlist = nc_pragma_allowlist cfg,
      jb_audit_id = audit_id\<rparr>"

definition UNKNOWN_PEER :: string where
  "UNKNOWN_PEER = ''unknown peer: only rsntr:Knock is accepted''"

text \<open>The answer to a verdict, and job B for a cleared statement.\<close>

definition act_on_verdict ::
  "'u engine \<Rightarrow> ulid \<Rightarrow> node_config \<Rightarrow> node_env \<Rightarrow> ('u node_db \<Rightarrow> 'u node_db) \<Rightarrow> request \<Rightarrow> verdict
    \<Rightarrow> 'u node_db \<Rightarrow> stream \<Rightarrow> 'u node_db \<times> stream" where
  "act_on_verdict eg u cfg env between rq v db c =
     (let i = Some (id_string u rq)
      in case v of
           UnknownPeer \<Rightarrow> (db, send_denied c i UNKNOWN_PEER)
         | Banned reason \<Rightarrow> (db, send_denied c i reason)
         | VDenied reason \<Rightarrow> (db, send_denied c i reason)
         | PrepareFailed message \<Rightarrow> (db, send_error c i EngineError message)
         | Cleared ap sql audit_id \<Rightarrow>
             stream_job (run_execute eg env (exec_job_of u cfg rq ap sql audit_id) (between db)) c)"

definition serve_sql ::
  "'u engine \<Rightarrow> ulid \<Rightarrow> config_json \<Rightarrow> registry \<Rightarrow> node_config \<Rightarrow> node_env \<Rightarrow> node_env
    \<Rightarrow> ('u node_db \<Rightarrow> 'u node_db) \<Rightarrow> string \<Rightarrow> request \<Rightarrow> 'u node_db \<Rightarrow> stream \<Rightarrow> 'u node_db \<times> stream" where
  "serve_sql eg u j reg cfg env env' between peer rq db c =
     (case screen_request (eg_node eg) u j reg (nc_pragma_allowlist cfg) env peer rq db of
        (v, db1) \<Rightarrow> act_on_verdict eg u cfg env' between rq v db1 c)"

text \<open>The owner's own statements: the peer is the node's endpoint id.\<close>

definition serve_sql_owner ::
  "'u engine \<Rightarrow> ulid \<Rightarrow> node_config \<Rightarrow> node_env \<Rightarrow> node_env
    \<Rightarrow> ('u node_db \<Rightarrow> 'u node_db) \<Rightarrow> request \<Rightarrow> 'u node_db \<Rightarrow> stream \<Rightarrow> 'u node_db \<times> stream" where
  "serve_sql_owner eg u cfg env env' between rq db c =
     (let own = (case read_rsntr (nd_auth db) ''endpoint_id'' of None \<Rightarrow> [] | Some i \<Rightarrow> i)
      in case screen_owner_request (eg_node eg) u (nc_pragma_allowlist cfg) env own rq db of
           (v, db1) \<Rightarrow> act_on_verdict eg u cfg env' between rq v db1 c)"

subsection \<open>Statements a mod issues\<close>

datatype mod_db_outcome =
    MDenied string
  | MError string
  | MRows "string list" "sql_value list list"
  | MExecuted int

text \<open>The rows of a statement, at most \<open>cap\<close> of them. The cursor has no deadline here; the row
  cap ends the loop. The answer is the rows and the number of fetches.\<close>

function collect_rows ::
  "'u stmt_run \<Rightarrow> int \<Rightarrow> nat \<Rightarrow> sql_value list list \<Rightarrow> (sqlite_error, sql_value list list \<times> nat) result" where
  "collect_rows r cap n rows =
     (case rn_next r n of
        Inl e \<Rightarrow> Inl e
      | Inr None \<Rightarrow> Inr (rows, Suc n)
      | Inr (Some cells) \<Rightarrow>
          if cap \<le> int n then Inr (rows, Suc n)
          else if length cells < length (rn_columns r)
          then Inl (SqliteFailure OtherCode (''Invalid column index: '' @ show_nat (length cells)))
          else collect_rows r cap (Suc n) (rows @ [take (length (rn_columns r)) cells]))"
  by pat_completeness auto

termination collect_rows
  by (relation "measure (\<lambda>(r, cap, n, rows). nat (cap - int n))") auto

declare collect_rows.simps [simp del]

text \<open>The outcome, and the database: the committed one or the one at the start.\<close>

definition execute_mod_statement ::
  "'u engine \<Rightarrow> node_config \<Rightarrow> approved \<Rightarrow> string \<Rightarrow> wire_value list \<Rightarrow> 'u node_db
    \<Rightarrow> mod_db_outcome \<times> 'u node_db" where
  "execute_mod_statement eg cfg ap sql params db =
     (if list_ex is_blob_ref params then (MError BLOB_REF_REASON, db)
      else case eg_begin eg db (is_write ap) of
        Some e \<Rightarrow> (MError (err_text e), db)
      | None \<Rightarrow>
          (case enforce_prepare eg db ap (nc_pragma_allowlist cfg) sql of
             Some (HDenied reason) \<Rightarrow> (MDenied reason, db)
           | Some (HSqlite e) \<Rightarrow> (MError (err_text e), db)
           | Some _ \<Rightarrow> (MError [], db)
           | None \<Rightarrow>
               let r = eg_run eg db sql params
               in case rn_bind_error r of
                    Some e \<Rightarrow> (MError (err_text e), db)
                  | None \<Rightarrow>
                      (case collect_rows r (nc_max_rows cfg) 0 [] of
                         Inl e \<Rightarrow> (MError (err_text e), db)
                       | Inr (rows, fetched) \<Rightarrow>
                           (case eg_commit eg (rn_db r fetched) of
                              Some e \<Rightarrow> (MError (err_text e), db)
                            | None \<Rightarrow>
                                (if is_write ap then MExecuted (rn_changes r fetched)
                                 else MRows (rn_columns r) rows,
                                 rn_db r fetched)))))"

definition READ_ONLY_REASON :: string where
  "READ_ONLY_REASON = ''db_query is read-only; use db_execute (cap db_write) for writes''"

definition run_mod_statement ::
  "'u engine \<Rightarrow> config_json \<Rightarrow> registry \<Rightarrow> node_config \<Rightarrow> node_env \<Rightarrow> string \<Rightarrow> string \<Rightarrow> string
    \<Rightarrow> wire_value list \<Rightarrow> bool \<Rightarrow> 'u node_db \<Rightarrow> mod_db_outcome \<times> 'u node_db" where
  "run_mod_statement eg j reg cfg env peer i sql params write_allowed db =
     (let x = eg_node eg; allowlist = nc_pragma_allowlist cfg
      in case collect_footprint x db sql allowlist Remote of
           Inl (ban, fp_json, message) \<Rightarrow>
             (case ban of Some reason \<Rightarrow> MDenied reason | None \<Rightarrow> MError message,
              snd (audit_full env peer i sql fp_json ''deny'' ''node'' (Some message) 0 db))
         | Inr f \<Rightarrow>
             if fp_kind f \<noteq> Read \<and> \<not> write_allowed
             then (MDenied READ_ONLY_REASON,
                   snd (audit_full env peer i sql (nx_json x f) ''deny'' ''node'' (Some READ_ONLY_REASON) 0 db))
             else
               let (decided, db1) = decide_on j reg env
                     \<lparr>rq_peer = peer, rq_action = default_action (fp_kind f), rq_footprint = f,
                      rq_statement = sql\<rparr> db;
                   (str, reason) = decision_str (dc_decision decided);
                   (audit_id, db2) = audit_full env peer i sql (nx_json x f) str
                     (dc_decided_by decided) reason (ne_duration_ms env) db1
               in case verdict_of x allowlist db2 f sql audit_id (dc_decision decided) of
                    Cleared ap exec_sql k \<Rightarrow>
                      (case execute_mod_statement eg cfg ap exec_sql params db2 of
                         (outcome, db3) \<Rightarrow>
                           (outcome,
                            case outcome of
                              MRows columns rows \<Rightarrow> audit_outcome k (int (length rows)) 0 db3
                            | _ \<Rightarrow> db3))
                  | PrepareFailed message \<Rightarrow> (MError message, db2)
                  | VDenied reason' \<Rightarrow> (MDenied reason', db2)
                  | _ \<Rightarrow> (MDenied UNDECIDED, db2))"

end
