(* ===== verification/Pipeline_Properties.thy ===== *)
theory Pipeline_Properties
  imports Pipeline_Serve
begin

text \<open>The properties of the serving pipeline's SQL lanes, each with a run of a small node.\<close>

subsection \<open>A small node\<close>

text \<open>
  A database of numbers. \<open>write\<close> inserts a seven into \<open>t\<close>, \<open>grab\<close> inserts into \<open>_modulations\<close>,
  \<open>call\<close> calls a writing function, and every other text reads \<open>t\<close>.
\<close>

definition toy_prepare :: "int list node_db \<Rightarrow> string \<Rightarrow> prepared" where
  "toy_prepare db sql =
     \<lparr>sp_actions = (if sql = ''write'' then [Insert ''t'']
                   else if sql = ''grab'' then [Insert ''_modulations'']
                   else if sql = ''call'' then [Select, Function ''rdf_update'']
                   else [Select, ReadCol ''t'' ''x'']),
      sp_error = None\<rparr>"

definition toy_node :: "int list node_ext" where
  "toy_node = \<lparr>nx_install = (\<lambda>_. None), nx_prepare = toy_prepare, nx_json = (\<lambda>_. ''{}''), nx_debug = (\<lambda>s. s)\<rparr>"

definition toy_writes :: "string \<Rightarrow> bool" where
  "toy_writes sql \<longleftrightarrow> sql \<in> {''write'', ''grab'', ''call''}"

definition toy_run :: "int list node_db \<Rightarrow> string \<Rightarrow> wire_value list \<Rightarrow> int list stmt_run" where
  "toy_run db sql params =
     \<lparr>rn_columns = (if toy_writes sql then [] else [''x'']),
      rn_decl_types = (if toy_writes sql then [] else [''INTEGER'']),
      rn_bind_error = None, rn_ticks = (\<lambda>_. []),
      rn_next = (\<lambda>n. Inr (if \<not> toy_writes sql \<and> n < length (nd_user db)
                          then Some [SInteger (nd_user db ! n)] else None)),
      rn_db = (\<lambda>n. if toy_writes sql then db\<lparr>nd_user := 7 # nd_user db\<rparr> else db),
      rn_changes = (\<lambda>_. 1), rn_rowid = (\<lambda>_. 5)\<rparr>"

definition toy_engine :: "int list engine" where
  "toy_engine =
     \<lparr>eg_node = toy_node, eg_debug = (\<lambda>_. ''action''), eg_begin = (\<lambda>_ _. None), eg_run = toy_run,
      eg_commit = (\<lambda>_. None), eg_outcome_json = (\<lambda>a b. show_int a @ '','' @ show_int b),
      eg_outcome = (\<lambda>s. case split_once (CHR '','') s of
                          Some (a, b) \<Rightarrow> (parse_i64 a, parse_i64 b) | None \<Rightarrow> (None, None))\<rparr>"

definition toy_db :: "int list node_db" where
  "toy_db =
     \<lparr>nd_auth = \<lparr>db_rsntr = Some [(''auth_chain'', ''c''), (''endpoint_id'', ''me'')], db_policy = Some [],
                db_scripts = Some [], db_decisions = Some [], db_inbox = Some [],
                db_peers = Some [\<lparr>pe_endpoint_id = ''p'', pe_added_at = [], pe_notes = None\<rparr>]\<rparr>,
      nd_audit = Some [], nd_applied = Some [], nd_budget = Some [], nd_media = Some [],
      nd_projection = Some [], nd_modulations = Some [],
      nd_user = [1, 2, 3]\<rparr>"

definition toy_json :: config_json where
  "toy_json = \<lparr>json_names = (\<lambda>_. Some [''open'']), json_masks = (\<lambda>_. None)\<rparr>"

definition toy_registry :: registry where
  "toy_registry = register ''open'' (\<lambda>env db rq. (Some Allow, db)) chain_new"

definition toy_ulid :: ulid where
  "toy_ulid = \<lparr>ulid_string = (\<lambda>_. ''r1''), ulid_parse = (\<lambda>_. None)\<rparr>"

definition toy_env :: node_env where
  "toy_env = \<lparr>ne_call = \<lparr>env_secs = 0, env_now = mk_f64 False 0, env_ulid = ''u''\<rparr>, ne_duration_ms = 1\<rparr>"

definition toy_request :: "string \<Rightarrow> request" where
  "toy_request sql =
     \<lparr>rq_id = [], rq_kind = RQuery, rq_modulation = ''sql-sqlite'', rq_signal = sql, rq_params = [],
      rq_database = None,
      rq_options = \<lparr>ro_row_limit = Some 2, ro_byte_limit = None, ro_timeout_ms = None\<rparr>\<rparr>"

definition toy_chan :: chan where
  "toy_chan = \<lparr>ch_sent = [], ch_room = None\<rparr>"

definition toy_stream :: stream where
  "toy_stream = stream_new (\<lambda>_. True) 0"

abbreviation toy_serve :: "string \<Rightarrow> string \<Rightarrow> int list node_db \<Rightarrow> int list node_db \<times> stream" where
  "toy_serve peer sql db \<equiv> serve_sql toy_engine toy_ulid toy_json toy_registry node_config_default toy_env toy_env
     (\<lambda>d. d) peer (toy_request sql) db toy_stream"

lemmas toy_defs = toy_engine_def toy_node_def toy_prepare_def toy_run_def toy_writes_def toy_db_def
  toy_json_def toy_registry_def toy_ulid_def toy_env_def toy_request_def toy_chan_def toy_stream_def

lemmas serve_defs = serve_sql_def screen_request_def collect_footprint_def peer_known_def read_rsntr_def
  collect_authorizer_def touch_table_def touch_column_def table_entry_def collect_default_def
  footprint_default_def collect_finish_def collect_kind_def has_table_def decide_on_def chain_decide_def
  read_config_def register_def chain_new_def permitted_def audit_full_def audit_full_dir_def next_rowid_def
  verdict_of_def bmap_get_def act_on_verdict_def exec_job_of_def effective_limits_def node_config_default_def
  stream_job_def stream_new_def send_frame_def id_string_def Let_def

lemmas exec_defs = run_execute_def execute_in_tx_def run_statement_def finish_tx_def enforce_prepare_def
  enforce_authorizer_def check_def is_write_def write_ok_def read_ok_def recorded_outcome_def push_frame_def
  push_frame_lossy_def header_estimate_def fetch_def row_from_sql_def done_of_def insert_applied_def
  audit_outcome_def meter_new_def exec_rows.simps run_chain.simps

lemma toy_write: "nd_user (fst (toy_serve ''p'' ''write'' toy_db)) = [7, 1, 2, 3]"
  by (simp add: toy_defs serve_defs exec_defs)

subsection \<open>Screening\<close>

text \<open>C2. Serving a statement changes the user's data only when the peer is
  known, the statement's footprint could be collected, it is not a write to the reserved table,
  and the chain, asked about exactly that footprint, let it through.\<close>

lemma only_cleared_statements_touch_data:
  assumes "serve_sql eg u j reg cfg env env' between peer rq db c = (db', c')"
    and "nd_user db' \<noteq> nd_user db"
  shows "peer_known db peer \<and>
    (\<exists>f d db1.
       collect_footprint (eg_node eg) db (rq_signal rq) (nc_pragma_allowlist cfg) Remote = Inr f
       \<and> (fp_kind f = Read \<or> \<not> has_table f ''_modulations'')
       \<and> decide_on j reg env \<lparr>rq_peer = peer, rq_action = default_action (fp_kind f), rq_footprint = f,
            rq_statement = rq_signal rq\<rparr> db = (d, db1)
       \<and> lets_through (dc_decision d))"
proof -
  obtain v db1 where s: "screen_request (eg_node eg) u j reg (nc_pragma_allowlist cfg) env peer rq db = (v, db1)"
    by (cases "screen_request (eg_node eg) u j reg (nc_pragma_allowlist cfg) env peer rq db")
  show ?thesis
  proof (cases "\<exists>ap sql k. v = Cleared ap sql k")
    case True
    from s show ?thesis
    proof (cases rule: screen_cases)
      case (decided f d db2 k)
      with True have "lets_through (dc_decision d)" by (auto simp: verdict_of_cleared)
      with decided show ?thesis by blast
    qed (use True in auto)
  next
    case False
    with assms(1) s have "db' = db1" by (cases v) (auto simp: serve_sql_def act_on_verdict_def Let_def)
    with screen_keeps(1) [OF s] assms(2) show ?thesis by simp
  qed
qed

lemma only_cleared_statements_touch_data_witness:
  "peer_known toy_db ''p''
   \<and> nd_user (fst (toy_serve ''p'' ''write'' toy_db)) \<noteq> nd_user toy_db"
proof -
  have n: "nd_user (fst (toy_serve ''p'' ''write'' toy_db)) \<noteq> nd_user toy_db"
    using toy_write by (simp add: toy_db_def)
  obtain db' c' where "toy_serve ''p'' ''write'' toy_db = (db', c')" by fastforce
  with only_cleared_statements_touch_data [OF this] n show ?thesis by simp
qed

text \<open>C36. Screening a request appends exactly one row to the ledger, for this peer and
  request; a cleared statement carries that row's id and the row says allow, a stranger's row
  says deny.\<close>

lemma screening_leaves_one_row:
  assumes "ledger_ok db" "screen_request x u j reg al env peer rq db = (v, db')"
  shows "ledger_ok db' \<and> (\<exists>row. ledger db' = ledger db @ [row]
     \<and> au_peer row = peer \<and> au_request_id row = id_string u rq \<and> au_signal row = rq_signal rq
     \<and> au_direction row = ''in''
     \<and> (\<forall>ap sql k. v = Cleared ap sql k \<longrightarrow>
           k = au_id row \<and> au_decision row \<in> {''allow'', ''allow_narrowed''})
     \<and> (v = UnknownPeer \<longleftrightarrow> \<not> peer_known db peer) \<and> (v = UnknownPeer \<longrightarrow> au_decision row = ''deny'')
     \<and> ((\<exists>reason. v = Banned reason \<or> v = VDenied reason) \<longrightarrow> au_decision row = ''deny''))"
  using assms(2)
proof (cases rule: screen_cases)
  case (stranger k)
  from audit_appends [OF assms(1) stranger(3)] stranger(1,2) show ?thesis by auto
next
  case (refused fp reason k)
  from audit_appends [OF assms(1) refused(3)] refused(1,2) show ?thesis by auto
next
  case (decided f d db1 k)
  have ok: "ledger_ok db1" "ledger db1 = ledger db" using decide_on_keeps_eq [OF decided(4)] assms(1) by auto
  from audit_appends [OF ok(1) decided(5)] decided(1,6) ok(2) show ?thesis
    by (cases "dc_decision d") (auto simp: verdict_of_def split: sum.splits)
qed

lemma screening_leaves_one_row_witness:
  "\<exists>row. ledger (snd (screen_request toy_node toy_ulid toy_json toy_registry [] toy_env ''q''
        (toy_request ''read'') toy_db)) = [row] \<and> au_decision row = ''deny''"
proof -
  obtain v db' where s: "screen_request toy_node toy_ulid toy_json toy_registry [] toy_env ''q''
      (toy_request ''read'') toy_db = (v, db')" by fastforce
  have ok: "ledger_ok toy_db" "ledger toy_db = []" by (simp_all add: ledger_ok_def ledger_def toy_db_def)
  have "\<not> peer_known toy_db ''q''" by (simp add: peer_known_def toy_db_def read_rsntr_def)
  with screening_leaves_one_row [OF ok(1) s] ok(2) s show ?thesis by auto
qed

text \<open>A statement that writes the reserved table is refused whatever the
  chain would have said: the chain's tables are as before.\<close>

lemma reserved_table_needs_no_chain:
  assumes "peer_known db peer" "collect_footprint x db (rq_signal rq) al Remote = Inr f"
    and "fp_kind f \<noteq> Read" "has_table f ''_modulations''"
  shows "fst (screen_request x u j reg al env peer rq db) = Banned RESERVED_REASON
    \<and> nd_auth (snd (screen_request x u j reg al env peer rq db)) = nd_auth db"
  using assms by (simp add: screen_request_def audit_full_def)

lemma toy_grab:
  "collect_footprint toy_node db ''grab'' al Remote =
     Inr \<lparr>fp_kind = Write, fp_tables = [(''_modulations'', [])], fp_denied = []\<rparr>"
  by (simp add: collect_footprint_def toy_node_def toy_prepare_def Let_def collect_authorizer_def
      collect_default_def footprint_default_def touch_table_def table_entry_def bmap_get_def
      collect_finish_def collect_kind_def)

lemma reserved_table_needs_no_chain_witness:
  "fst (screen_request toy_node toy_ulid toy_json toy_registry [] toy_env ''p'' (toy_request ''grab'') toy_db)
     = Banned RESERVED_REASON"
proof -
  have "peer_known toy_db ''p''" by (simp add: peer_known_def toy_db_def)
  moreover have "collect_footprint toy_node toy_db (rq_signal (toy_request ''grab'')) [] Remote =
      Inr \<lparr>fp_kind = Write, fp_tables = [(''_modulations'', [])], fp_denied = []\<rparr>"
    by (simp add: toy_request_def toy_grab)
  ultimately show ?thesis
    using reserved_table_needs_no_chain [of toy_db "''p''" toy_node "toy_request ''grab''" "[]"
        "\<lparr>fp_kind = Write, fp_tables = [(''_modulations'', [])], fp_denied = []\<rparr>"]
    by (simp add: has_table_def bmap_get_def)
qed

text \<open>The same statement issued by a mod on the same peer's behalf is executed: the reserved-table
  guard of \<open>screen_request\<close> is missing from \<open>run_mod_statement\<close>, whose comment calls it the exact
  serving path.\<close>

lemma mod_statement_writes_reserved_table:
  "fst (run_mod_statement toy_engine toy_json toy_registry node_config_default toy_env ''p'' ''r1'' ''grab'' [] True toy_db)
     = MExecuted 1
   \<and> nd_user (snd (run_mod_statement toy_engine toy_json toy_registry node_config_default toy_env ''p'' ''r1'' ''grab'' [] True toy_db))
     = [7, 1, 2, 3]"
  by (simp add: run_mod_statement_def execute_mod_statement_def collect_rows.simps toy_defs serve_defs exec_defs)

text \<open>A call of a function that writes is a read with an empty footprint: both passes see nothing of
  what the function's own statements do, for they run after the callback is removed.\<close>

lemma writing_function_is_a_read:
  "collect_footprint toy_node db ''call'' al Remote = Inr footprint_default
   \<and> enforce_prepare toy_engine db \<lparr>ap_footprint = footprint_default, ap_lane = Remote\<rparr> al ''call'' = None
   \<and> nd_user (fst (toy_serve ''p'' ''call'' toy_db)) = [7, 1, 2, 3]"
proof (intro conjI)
  have f: "footprint_default\<lparr>fp_kind := Read\<rparr> = footprint_default" by (simp add: footprint_default_def)
  show "collect_footprint toy_node db ''call'' al Remote = Inr footprint_default"
    by (simp add: collect_footprint_def toy_node_def toy_prepare_def Let_def collect_authorizer_def
      collect_default_def collect_finish_def collect_kind_def f eq_ignore_case_def LOAD_EXTENSION_def to_lower_def is_upper_def)
  show "enforce_prepare toy_engine db \<lparr>ap_footprint = footprint_default, ap_lane = Remote\<rparr> al ''call'' = None"
    by (simp add: enforce_prepare_def toy_engine_def toy_node_def toy_prepare_def Let_def
      enforce_authorizer_def eq_ignore_case_def LOAD_EXTENSION_def to_lower_def is_upper_def)
  show "nd_user (fst (toy_serve ''p'' ''call'' toy_db)) = [7, 1, 2, 3]"
    by (simp add: toy_defs serve_defs exec_defs eq_ignore_case_def LOAD_EXTENSION_def to_lower_def is_upper_def)
qed

subsection \<open>Execution\<close>

text \<open>C7. Whatever other jobs did to the database between decision and
  execution, a statement that begins to answer (other than from the record of an earlier write)
  has, in the database it runs on, only actions that are not banned and that the decided
  footprint covers.\<close>

lemma execution_stays_in_the_footprint:
  assumes "execute_in_tx eg env job db c = (res, db', c', m)"
    and "is_write (jb_approved job) \<Longrightarrow> recorded_outcome db (jb_id job) = Inr None"
    and "ch_sent c' \<noteq> ch_sent c"
    and "a \<in> set (sp_actions (nx_prepare (eg_node eg) db (jb_sql job)))"
  shows "banned a (jb_allowlist job) (ap_lane (jb_approved job)) = None \<and> covered (jb_approved job) a"
  using assms(1)
proof (cases rule: execute_cases)
  case runs
  from runs(1) obtain r where "enforce_pass (eg_debug eg) (jb_approved job) (jb_allowlist job) None
      (sp_actions (nx_prepare (eg_node eg) db (jb_sql job))) = (AAllow, r)"
    by (auto simp: enforce_prepare_def Let_def split: option.splits prod.splits authorization.splits)
  with assms(4) show ?thesis by (auto simp: enforce_pass_iff)
qed (use assms(2,3) in auto)

definition toy_job :: "string \<Rightarrow> action_kind \<Rightarrow> exec_job" where
  "toy_job sql kind =
     \<lparr>jb_id = ''r1'', jb_sql = sql, jb_params = [],
      jb_approved = \<lparr>ap_footprint = \<lparr>fp_kind = kind, fp_tables = [(''t'', [''x''])], fp_denied = []\<rparr>, ap_lane = Remote\<rparr>,
      jb_limits = effective_limits (rq_options (toy_request sql)) node_config_default,
      jb_rows_per_frame = 128, jb_frame_byte_budget = 98304, jb_allowlist = [], jb_audit_id = 1\<rparr>"

lemmas toy_exec_defs = toy_defs toy_job_def serve_defs exec_defs

lemma execution_stays_in_the_footprint_witness:
  "covered (jb_approved (toy_job ''read'' Read)) (ReadCol ''t'' ''x'')"
proof -
  obtain res db' c' m where e: "execute_in_tx toy_engine toy_env (toy_job ''read'' Read) toy_db toy_chan = (res, db', c', m)"
    by (metis prod_cases4)
  have "ch_sent (fst (snd (snd (execute_in_tx toy_engine toy_env (toy_job ''read'' Read) toy_db toy_chan)))) \<noteq> []"
    by (simp add: toy_exec_defs)
  with e have "ch_sent c' \<noteq> ch_sent toy_chan" by (simp add: toy_chan_def)
  with execution_stays_in_the_footprint [OF e, of "ReadCol ''t'' ''x''"] show ?thesis
    by (simp add: toy_job_def is_write_def toy_engine_def toy_node_def toy_prepare_def)
qed

text \<open>C24. A cleared statement's job and the stream its frames go to, whatever the stream
  refuses and whenever the client leaves. An error that reaches the client leaves the whole
  database as it was; a \<open>Done\<close> that reaches it for a write means the write is on record. A client
  that gets neither (a frame was refused, or the client left) has its write either not applied at
  all or on record under the request's id; and when every frame of the answer can be sent, the
  last one is the error or the \<open>Done\<close>.\<close>

lemma error_means_untouched:
  assumes "stream_job (run_execute eg env job db) c = (db', c')"
  defines "on_record \<equiv> is_write (jb_approved job) \<longrightarrow> (\<exists>json. recorded_outcome db' (jb_id job) = Inr (Some json))"
  shows "\<exists>objs. ch_sent c' = ch_sent c @ objs
     \<and> (\<forall>e. Error e \<in> set objs \<longrightarrow> db' = db)
     \<and> (\<forall>d. Done d \<in> set objs \<longrightarrow> on_record)
     \<and> (db' = db \<or> on_record)
     \<and> (ch_room c = None \<and> (\<forall>obj. st_fits c obj) \<longrightarrow> (\<exists>e. last objs = Error e) \<or> (\<exists>d. last objs = Done d))"
proof -
  obtain db1 c1 where run: "run_execute eg env job db open_chan = (db1, c1)" by fastforce
  let ?whole = "ch_sent c1" and ?k = "takes c (ch_sent c1)"
  note st = stream_execute [OF run assms(1)]
  have ends: "list_all no_end (butlast ?whole)" "?whole \<noteq> []"
    "(\<exists>e. last ?whole = Error e) \<and> db1 = db \<or> (\<exists>d. last ?whole = Done d) \<and>
       (is_write (jb_approved job) \<longrightarrow> (\<exists>json. recorded_outcome db1 (jb_id job) = Inr (Some json)))"
    using run_execute_ends [OF run] by (elim exE conjE; simp)+
  have settled: "db' = db \<or> on_record"
    using stream_job_run [OF assms(1)] run_execute_settles unfolding on_record_def by blast
  have all: "?k = length ?whole" if "obj \<in> set (take ?k ?whole)" "(\<exists>e. obj = Error e) \<or> (\<exists>d. obj = Done d)" for obj
  proof (rule ccontr)
    assume "?k \<noteq> length ?whole"
    then have "?k < length ?whole" using takes_length [of c ?whole] by simp
    then have "take ?k ?whole = take ?k (butlast ?whole)" by (simp add: take_butlast)
    with that(1) have "obj \<in> set (butlast ?whole)" using in_set_takeD by metis
    with ends(1) that(2) show False by (auto simp: list_all_iff no_end_def)
  qed
  have last_of: "obj = last ?whole" if "obj \<in> set (take ?k ?whole)" "(\<exists>e. obj = Error e) \<or> (\<exists>d. obj = Done d)" for obj
  proof -
    have "obj \<in> set (butlast ?whole @ [last ?whole])" using that(1) ends(2) by (metis append_butlast_last_id in_set_takeD)
    with ends(1) that(2) show ?thesis by (auto simp: list_all_iff no_end_def)
  qed
  show ?thesis
  proof (intro exI [of _ "take ?k ?whole"] conjI allI impI)
    show "ch_sent c' = ch_sent c @ take ?k ?whole" by (rule st(1))
    show "db' = db" if "Error e \<in> set (take ?k ?whole)" for e
      using last_of [OF that] st(2) [OF all [OF that]] ends(3) by auto
    show on_record if "Done d \<in> set (take ?k ?whole)" for d
      using last_of [OF that] st(2) [OF all [OF that]] ends(3) by (auto simp: on_record_def)
    show "db' = db \<or> on_record" by (rule settled)
    assume "ch_room c = None \<and> (\<forall>obj. st_fits c obj)"
    then have "?k = length ?whole" by (simp add: takes_open takeWhile_all list_all_iff)
    with ends(3) show "(\<exists>e. last (take ?k ?whole) = Error e) \<or> (\<exists>d. last (take ?k ?whole) = Done d)" by auto
  qed
qed

lemma toy_grab_refused:
  "\<exists>e. ch_sent (snd (run_execute toy_engine toy_env (toy_job ''grab'' Write) toy_db open_chan)) = [Error e]"
  by (simp add: toy_exec_defs halt_frame_def error_frame_def)

lemma error_means_untouched_witness:
  "fst (stream_job (run_execute toy_engine toy_env (toy_job ''grab'' Write) toy_db) toy_stream) = toy_db"
proof -
  let ?run = "run_execute toy_engine toy_env (toy_job ''grab'' Write) toy_db"
  obtain db' c' where s: "stream_job ?run toy_stream = (db', c')" by fastforce
  obtain e where e: "ch_sent (snd (?run open_chan)) = [Error e]" using toy_grab_refused by blast
  have "ch_sent c' = [Error e]"
    using s e by (auto simp: stream_job_def Let_def toy_stream_def stream_new_def send_frame_def split: prod.splits)
  moreover obtain objs where "ch_sent c' = ch_sent toy_stream @ objs" "\<forall>e. Error e \<in> set objs \<longrightarrow> db' = toy_db"
    using error_means_untouched [OF s] by blast
  ultimately show ?thesis using s by (auto simp: toy_stream_def)
qed

definition outcome_law :: "'u engine \<Rightarrow> bool" where
  "outcome_law eg \<longleftrightarrow>
     (\<forall>a b. is_i64 a \<longrightarrow> is_i64 b \<longrightarrow> eg_outcome eg (eg_outcome_json eg a b) = (Some a, Some b))"

text \<open>C3. Of two executions of writes under one request id, the second applies nothing
  as long as the first one's record is there: it leaves the data, the records and the
  authenticator's tables as they are and repeats the first one's counts.\<close>

lemma write_applied_once:
  assumes "outcome_law eg"
    and "execute_in_tx eg env job db c = (Inr em, db1, c1, m)" "is_write (jb_approved job)"
    and "recorded_outcome db (jb_id job) = Inr None" "last (ch_sent c1) = Done d"
    and "dn_affected_rows d = Some a" "dn_last_insert_rowid d = Some b" "is_i64 a" "is_i64 b"
    and "jb_id job' = jb_id job" "is_write (jb_approved job')" "eg_begin eg db2 True = None"
    and "recorded_outcome db2 (jb_id job) = recorded_outcome db1 (jb_id job)" "ch_room c2 = None"
    and "run_execute eg env' job' db2 c2 = (db3, c3)"
  shows "nd_user db3 = nd_user db2 \<and> nd_applied db3 = nd_applied db2 \<and> nd_auth db3 = nd_auth db2
    \<and> (\<exists>d'. last (ch_sent c3) = Done d' \<and> dn_id d' = jb_id job
          \<and> dn_affected_rows d' = Some a \<and> dn_last_insert_rowid d' = Some b)"
proof -
  from write_recorded [OF assms(2-4)] assms(5-7)
  have json: "recorded_outcome db2 (jb_id job') = Inr (Some (eg_outcome_json eg a b))"
    using assms(10,13) by auto
  obtain res c4 where ans: "answer_from_applied eg (jb_id job') (eg_outcome_json eg a b) c2 = (res, c4)" by fastforce
  from answer_from_applied_db [OF ans assms(14)] assms(11,12,15) ans json
  have "db3 = audit_outcome (jb_audit_id job') 0 0 db2" "c3 = c4"
    by (auto simp: run_execute_def execute_in_tx_def)
  with answer_from_applied_db [OF ans assms(14)] assms(1,8,9,10) show ?thesis
    by (simp add: outcome_law_def)
qed

lemma toy_outcome_law: "outcome_law toy_engine"
proof -
  have "split_once (CHR '','') (show_int a @ '','' @ show_int b) = Some (show_int a, show_int b)" for a b
  proof -
    have "CHR '','' \<notin> set (show_int a)"
      using show_nat_digits [of "nat a"] show_nat_digits [of "nat (- a)"]
      by (auto simp: show_int_def list_all_iff is_digit_def)
    then show ?thesis by (simp add: split_once_Some_iff)
  qed
  then show ?thesis by (simp add: outcome_law_def toy_engine_def parse_i64_show_int)
qed

lemma write_applied_once_witness:
  "nd_user (fst (run_execute toy_engine toy_env (toy_job ''write'' Write)
      (fst (run_execute toy_engine toy_env (toy_job ''write'' Write) toy_db toy_chan)) toy_chan)) = [7, 1, 2, 3]"
proof -
  let ?j = "toy_job ''write'' Write"
  obtain res db1 c1 m where e: "execute_in_tx toy_engine toy_env ?j toy_db toy_chan = (res, db1, c1, m)"
    by (metis prod_cases4)
  have "execute_in_tx toy_engine toy_env ?j toy_db toy_chan =
      (Inr \<lparr>em_rows_out = 0, em_bytes_out = 64\<rparr>, db1, c1, m) \<and> nd_user db1 = [7, 1, 2, 3]
      \<and> last (ch_sent c1) = Done \<lparr>dn_id = ''r1'', dn_row_count = Some 0, dn_affected_rows = Some 1,
          dn_last_insert_rowid = Some 5, dn_truncated = False\<rparr>"
    using e [symmetric] by (simp add: toy_exec_defs)
  then have first: "execute_in_tx toy_engine toy_env ?j toy_db toy_chan =
      (Inr \<lparr>em_rows_out = 0, em_bytes_out = 64\<rparr>, db1, c1, m)" "nd_user db1 = [7, 1, 2, 3]"
      "last (ch_sent c1) = Done \<lparr>dn_id = ''r1'', dn_row_count = Some 0, dn_affected_rows = Some 1,
          dn_last_insert_rowid = Some 5, dn_truncated = False\<rparr>"
    by blast+
  let ?db2 = "fst (run_execute toy_engine toy_env ?j toy_db toy_chan)"
  obtain db3 c3 where r: "run_execute toy_engine toy_env ?j ?db2 toy_chan = (db3, c3)" by fastforce
  have "nd_user ?db2 = [7, 1, 2, 3]" "recorded_outcome ?db2 ''r1'' = recorded_outcome db1 ''r1''"
    using first by (simp_all add: run_execute_def recorded_outcome_def)
  with write_applied_once [OF toy_outcome_law first(1) _ _ first(3) _ _ _ _ _ _ _ _ _ r, of 1 5] r show ?thesis
    by (simp add: toy_job_def is_write_def recorded_outcome_def toy_db_def toy_engine_def toy_chan_def is_i64_def)
qed

text \<open>Job B alone, on a fresh channel.\<close>

lemma run_execute_completes:
  assumes "run_execute eg env job db open_chan = (db', c')"
  shows "completes (reader_new (jb_id job)) (ch_sent c')"
proof -
  have "ch_room open_chan = None" by simp
  with assms show ?thesis
  proof (cases rule: run_execute_cases)
    case (error objs e)
    with opened_error_completes [OF error(3,2)] show ?thesis by simp
  next
    case (recorded json)
    have "response_shape (jb_id job) (Result \<lparr>rh_id = jb_id job, rh_columns = [], rh_decl_types = []\<rparr> #
        map Row [] @ [Done \<lparr>dn_id = jb_id job, dn_row_count = Some 0, dn_affected_rows = fst (eg_outcome eg json),
                dn_last_insert_rowid = snd (eg_outcome eg json), dn_truncated = False\<rparr>])"
      by (intro response_shape.table) (simp_all add: trailer_def)
    then show ?thesis using recorded(3) shape_completes by simp
  next
    case (finished objs em db1 m)
    with finished_run_completes [OF finished(2)] show ?thesis by simp
  qed
qed

text \<open>C6. Whatever the engine, the chain and the other jobs do: the whole response to a
  served statement, what a stream that takes every frame gets, is one the protocol's reader
  accepts to its end. A client that stays gets that response up to the first frame its stream
  refuses (on iroh and the owner's socket, one above the frame limit), so what it gets is accepted
  to its end exactly when every frame of the response can be encoded.\<close>

lemma served_statement_completes:
  "let serve = (\<lambda>c. ch_sent (snd (serve_sql eg u j reg cfg env env' between peer rq db c)));
       whole = serve (stream_new (\<lambda>_. True) ahead);
       got = serve (stream_new fits ahead)
   in completes (reader_new (id_string u rq)) whole \<and> got = takeWhile fits whole
    \<and> (completes (reader_new (id_string u rq)) got \<longleftrightarrow> list_all fits whole)"
proof -
  define serve where "serve = (\<lambda>c. ch_sent (snd (serve_sql eg u j reg cfg env env' between peer rq db c)))"
  obtain v db1 where s: "screen_request (eg_node eg) u j reg (nc_pragma_allowlist cfg) env peer rq db = (v, db1)"
    by fastforce
  have "\<exists>whole. completes (reader_new (id_string u rq)) whole
      \<and> (\<forall>fits. serve (stream_new fits ahead) = takeWhile fits whole)"
  proof (cases v)
    case (Cleared ap sql k)
    let ?job = "exec_job_of u cfg rq ap sql k"
    obtain db2 c2 where r: "run_execute eg env' ?job (between db1) open_chan = (db2, c2)" by fastforce
    have "serve (stream_new fits ahead) = takeWhile fits (ch_sent c2)" for fits
    proof -
      obtain db' c' where j: "stream_job (run_execute eg env' ?job (between db1)) (stream_new fits ahead) = (db', c')"
        by fastforce
      with stream_execute(1) [OF r j] show ?thesis
        by (simp add: serve_def serve_sql_def s Cleared act_on_verdict_def Let_def takes_open takeWhile_eq_take [symmetric])
    qed
    moreover have "jb_id ?job = id_string u rq" by (simp add: exec_job_of_def)
    ultimately show ?thesis using run_execute_completes [OF r] by auto
  qed (simp_all add: serve_def serve_sql_def s act_on_verdict_def Let_def send_denied_def send_error_def
      lone_sends lone_def id_ok_def del: send_all.simps)
  then show ?thesis unfolding Let_def serve_def [symmetric] by (rule part_of_response)
qed

text \<open>C33. An executed statement's answer: the rows are those its cursor yields, in order,
  numbered from zero; there are at most as many as the node's and the request's row limits
  allow, in batches of at most the configured size; \<open>Done\<close> counts them; an answer not marked
  truncated has all rows; the bytes counted stay within the byte limit unless the header is
  beyond it; and the virtual machine's steps stay within the budget.\<close>

lemma answer_within_limits:
  assumes "execute_in_tx eg env (exec_job_of u cfg rq ap sql k) db c = (Inr em, db', c', m)" "ch_room c = None"
    and "is_write ap \<Longrightarrow> recorded_outcome db (id_string u rq) = Inr None"
  defines "r \<equiv> eg_run eg db sql (rq_params rq)"
  shows "\<exists>batches d. ch_sent c' = ch_sent c
       @ Result \<lparr>rh_id = id_string u rq, rh_columns = rn_columns r, rh_decl_types = rn_decl_types r\<rparr>
         # map Row batches @ [Done d]
     \<and> [] \<notin> set batches \<and> yields r 0 (concat batches)
     \<and> dn_row_count d = Some (int (length (concat batches)))
     \<and> int (length (concat batches)) \<le> max 0 (nc_max_rows cfg)
     \<and> (\<forall>n. ro_row_limit (rq_options rq) = Some n \<longrightarrow> 0 \<le> n \<longrightarrow> int (length (concat batches)) \<le> n)
     \<and> (0 < nc_rows_per_frame cfg \<longrightarrow> (\<forall>b \<in> set batches. length b \<le> nc_rows_per_frame cfg))
     \<and> (\<not> dn_truncated d \<longrightarrow> rn_next r (length (concat batches)) = Inr None)
     \<and> em_bytes_out em \<le> max (header_estimate (rn_columns r)) (nc_max_response_bytes cfg)
     \<and> mt_units m \<le> nc_vdbe_step_budget cfg div PROGRESS_GRANULARITY"
proof -
  let ?job = "exec_job_of u cfg rq ap sql k"
  have cap: "max 0 (lm_row_cap (jb_limits ?job)) \<le> max 0 (nc_max_rows cfg)"
      "lm_byte_cap (jb_limits ?job) \<le> nc_max_response_bytes cfg"
      "\<forall>n. ro_row_limit (rq_options rq) = Some n \<longrightarrow> 0 \<le> n \<longrightarrow> max 0 (lm_row_cap (jb_limits ?job)) \<le> n"
    by (auto simp: exec_job_of_def effective_limits_def split: option.split)
  have steps: "mt_units m \<le> nc_vdbe_step_budget cfg div PROGRESS_GRANULARITY"
    using execute_metered [OF assms(1)] by (simp add: exec_job_of_def effective_limits_def)
  have r: "eg_run eg db (jb_sql ?job) (jb_params ?job) = r" by (simp add: r_def exec_job_of_def)
  from execute_spec(3) [OF assms(1,2) refl, unfolded r] assms(3)
  obtain objs where objs: "ch_sent c' = ch_sent c @ objs" "finished ?job r objs em"
    by (auto simp: exec_job_of_def)
  then obtain batches e where b: "objs = header_of ?job r # map Row batches @ [Done (done_of ?job r e)]"
      "row_frames ?job r batches" "le_seq e = length (concat batches)"
      "\<not> le_truncated e \<longrightarrow> rn_next r (le_seq e) = Inr None"
      "em_bytes_out em \<le> max (header_estimate (rn_columns r)) (lm_byte_cap (jb_limits ?job))"
    unfolding finished_def by blast
  have rows: "int (length (concat batches)) \<le> max 0 (lm_row_cap (jb_limits ?job))"
    using b(2) by (simp add: row_frames_def)
  show ?thesis
  proof (intro exI conjI)
    show "ch_sent c' = ch_sent c
       @ Result \<lparr>rh_id = id_string u rq, rh_columns = rn_columns r, rh_decl_types = rn_decl_types r\<rparr>
         # map Row batches @ [Done (done_of ?job r e)]"
      using objs(1) b(1) by (simp add: header_of_def exec_job_of_def)
    show "[] \<notin> set batches" "yields r 0 (concat batches)" using b(2) by (simp_all add: row_frames_def)
    show "dn_row_count (done_of ?job r e) = Some (int (length (concat batches)))"
      by (simp add: done_of_def Let_def b(3))
    show "int (length (concat batches)) \<le> max 0 (nc_max_rows cfg)" using rows cap(1) by linarith
    show "\<forall>n. ro_row_limit (rq_options rq) = Some n \<longrightarrow> 0 \<le> n \<longrightarrow> int (length (concat batches)) \<le> n"
      using rows cap(3) order_trans by blast
    show "0 < nc_rows_per_frame cfg \<longrightarrow> (\<forall>b \<in> set batches. length b \<le> nc_rows_per_frame cfg)"
      using b(2) by (simp add: row_frames_def exec_job_of_def)
    show "\<not> dn_truncated (done_of ?job r e) \<longrightarrow> rn_next r (length (concat batches)) = Inr None"
      using b(3,4) by (simp add: done_of_def Let_def)
    show "em_bytes_out em \<le> max (header_estimate (rn_columns r)) (nc_max_response_bytes cfg)"
      using b(5) cap(2) by linarith
    show "mt_units m \<le> nc_vdbe_step_budget cfg div PROGRESS_GRANULARITY" by (rule steps)
  qed
qed

lemma answer_within_limits_witness:
  "\<exists>rows. yields (toy_run toy_db ''read'' []) 0 rows \<and> int (length rows) \<le> 2"
proof -
  let ?ap = "\<lparr>ap_footprint = \<lparr>fp_kind = Read, fp_tables = [(''t'', [''x''])], fp_denied = []\<rparr>, ap_lane = Remote\<rparr>"
  let ?e = "execute_in_tx toy_engine toy_env (exec_job_of toy_ulid node_config_default (toy_request ''read'') ?ap ''read'' 1) toy_db toy_chan"
  have "fst ?e = Inr \<lparr>em_rows_out = 2, em_bytes_out = 203\<rparr>"
    by (simp add: toy_exec_defs)
  then obtain db' c' m where e: "?e = (Inr \<lparr>em_rows_out = 2, em_bytes_out = 203\<rparr>, db', c', m)"
    by (metis prod.collapse)
  from answer_within_limits [OF e] show ?thesis
    by (auto simp: is_write_def toy_chan_def toy_request_def toy_engine_def)
qed

text \<open>The comment on the forwarding loop says a send that fails stops the execution and rolls back.
  When the last send is the one that fails, the write is already committed. It also says that a
  send fails if the client is gone: a frame the stream cannot encode fails with the client there,
  which then gets neither an error nor a \<open>Done\<close>, though its write may be applied.\<close>

lemma lost_client_may_have_committed:
  "execute_in_tx toy_engine toy_env (toy_job ''write'' Write) toy_db \<lparr>ch_sent = [], ch_room = Some 1\<rparr>
     = (res, db', c', m) \<Longrightarrow> res = Inl ClientGone \<and> nd_user db' = [7, 1, 2, 3]"
  by (auto simp: toy_exec_defs)

lemma oversized_frame_ends_without_trailer:
  "(case stream_job (run_execute toy_engine toy_env (toy_job ''write'' Write) toy_db)
       (stream_new (\<lambda>obj. \<forall>d. obj \<noteq> Done d) 0) of
     (db', c') \<Rightarrow> nd_user db' = [7, 1, 2, 3] \<and> \<not> completes (reader_new ''r1'') (ch_sent c'))"
  by (simp add: toy_exec_defs completes_Cons completes_Nil accept_def try_accept_def reader_new_def check_id_def)

end
