(* ===== verification/Knock_Properties.thy ===== *)
theory Knock_Properties
  imports Pipeline_Knock Pipeline_Properties
begin

text \<open>The properties of knock admission: the budget, the gate and the owner's inbox.\<close>

subsection \<open>The budget\<close>

text \<open>C29. While the clock does not advance, however many knocks arrive, from however many keys,
  no key is granted more of them than the per-key burst and all keys together no more than the
  global burst. (A burst is a double; both sides are in units of its last bit.)\<close>

lemma knock_burst_bound:
  assumes "limits_ok lim" "\<forall>(p, now) \<in> set ks. finite64 now \<and> p \<noteq> ''*'' \<and> calm db now"
    and "sorted_wrt (\<lambda>(p, t) (q, s). f_scaled s \<le> f_scaled t) ks" "peer \<noteq> ''*''"
    and "spend_run lim ks db = (granted, db')"
  shows "int (count_list granted peer) * 2 ^ sub_exp \<le> max 0 (f_scaled (kl_per_key_burst lim))
    \<and> int (length granted) * 2 ^ sub_exp \<le> max 0 (f_scaled (kl_global_burst lim))"
proof -
  have le: "holds db b burst \<le> f_scaled burst" for b burst
    by (simp add: holds_def split: option.split)
  show ?thesis
    using spend_run_bound(1) [OF assms(1-3,5), of peer] spend_run_bound(2) [OF assms(1-3,5)] assms(4)
      le [of peer "kl_per_key_burst lim"] le [of "''*''" "kl_global_burst lim"]
    by linarith
qed

definition small_limits :: knock_limits where
  "small_limits = \<lparr>kl_per_key_burst = f_one, kl_per_key_refill_per_sec = f_one,
     kl_global_burst = f_one, kl_global_refill_per_sec = f_one\<rparr>"

lemma small_limits_ok: "limits_ok small_limits"
proof -
  have "(1 :: int) * 2 ^ sub_exp \<le> 2 ^ 52 * 2 ^ sub_exp" by (rule mult_right_mono) simp_all
  then show ?thesis by (simp add: limits_ok_def small_limits_def f_one_scaled)
qed

lemma knock_burst_bound_witness:
  "count_list (fst (spend_run small_limits [(''p'', f_one), (''p'', f_one), (''q'', f_one)] toy_db)) ''p'' \<le> 1
   \<and> length (fst (spend_run small_limits [(''p'', f_one), (''p'', f_one), (''q'', f_one)] toy_db)) \<le> 1"
proof -
  let ?ks = "[(''p'', f_one), (''p'', f_one), (''q'', f_one)]"
  obtain granted db' where r: "spend_run small_limits ?ks toy_db = (granted, db')" by fastforce
  have calm: "calm toy_db f_one" by (simp add: calm_def toy_db_def)
  have pos: "(0 :: int) < 2 ^ sub_exp" by simp
  have burst: "max 0 (f_scaled (kl_per_key_burst small_limits)) = 1 * 2 ^ sub_exp"
      "max 0 (f_scaled (kl_global_burst small_limits)) = 1 * 2 ^ sub_exp"
    by (simp_all add: small_limits_def f_one_scaled)
  from knock_burst_bound [OF small_limits_ok _ _ _ r, of "''p''"] calm
  have "int (count_list granted ''p'') * 2 ^ sub_exp \<le> 1 * 2 ^ sub_exp \<and> int (length granted) * 2 ^ sub_exp \<le> 1 * 2 ^ sub_exp"
    unfolding burst by (simp add: f_one_scaled)
  then have "int (count_list granted ''p'') \<le> 1" "int (length granted) \<le> 1"
    using pos by (simp_all only: mult_le_cancel_right_pos [OF pos])
  with r show ?thesis by simp
qed

subsection \<open>The reply\<close>

lemma spend_keeps:
  "nd_auth (snd (spend_knock_token peer lim now db)) = nd_auth db"
  "nd_audit (snd (spend_knock_token peer lim now db)) = nd_audit db"
  "snd (spend_knock_token peer lim now db) = db\<lparr>nd_budget := nd_budget (snd (spend_knock_token peer lim now db))\<rparr>"
  by (auto simp: spend_knock_token_def store_bucket_def Let_def split: option.splits)

text \<open>The ways a knock is weighed.\<close>

lemma weigh_cases:
  assumes "weigh_knock u j reg lim env fresh peer client message db = (reply, db')"
  obtains (known) "peer_known db peer"
      "reply = KnockDecision (knock_id u client fresh) ''allow'' ''node'' (Some ''you are already admitted'')"
      "db' = audit_direct env peer (knock_id u client fresh) [] ''allow'' ''node'' ''knock from an already admitted peer'' db"
  | (dropped) "\<not> peer_known db peer" "reply = Dropped" "db' = snd (spend_knock_token peer lim (env_now (ne_call env)) db)"
  | (decided) d db1 db2 db3 by_tier why dur dec where "\<not> peer_known db peer"
      "spend_knock_token peer lim (env_now (ne_call env)) db = (True, db1)"
      "decide_on j reg env \<lparr>rq_peer = peer, rq_action = ''knock'', rq_footprint = footprint_default,
         rq_statement = message\<rparr> db1 = (d, db2)"
      "db3 = snd (audit_full_dir env ''in'' peer (knock_id u client fresh) [] ''{}'' dec by_tier (Some why) dur db2)"
      "lets_through (dc_decision d) \<and> dec = ''allow'' \<and> db' = admit_peer env peer (knock_id u client fresh) db3
         \<and> reply = KnockDecision (knock_id u client fresh) ''allow'' (dc_decided_by d) (Some ''admitted'')
       \<or> (\<exists>i'. \<not> lets_through (dc_decision d) \<and> dec = ''deny'' \<and> park_knock env peer (knock_id u client fresh) message db3 = (i', db')
            \<and> reply = parked_reply i' \<and> (dc_decided_by d = ''default'' \<or> dc_decision d = Escalate))
       \<or> (\<exists>reason. dc_decision d = Deny reason \<and> dec = ''deny'' \<and> dc_decided_by d \<noteq> ''default'' \<and> db' = db3
            \<and> reply = KnockDecision (knock_id u client fresh) ''deny'' (dc_decided_by d) (Some reason))"
proof (cases "peer_known db peer")
  case True
  with assms show ?thesis by (intro known) (auto simp: weigh_knock_def Let_def)
next
  case stranger: False
  obtain g db1 where s: "spend_knock_token peer lim (env_now (ne_call env)) db = (g, db1)" by fastforce
  show ?thesis
  proof (cases g)
    case False
    with assms stranger s show ?thesis by (intro dropped) (auto simp: weigh_knock_def Let_def)
  next
    case True
    with s have s': "spend_knock_token peer lim (env_now (ne_call env)) db = (True, db1)" by simp
    obtain d db2 where d: "decide_on j reg env \<lparr>rq_peer = peer, rq_action = ''knock'', rq_footprint = footprint_default,
         rq_statement = message\<rparr> db1 = (d, db2)" by fastforce
    let ?i = "knock_id u client fresh"
    let ?row = "\<lambda>dec by_tier why. snd (audit_full_dir env ''in'' peer ?i [] ''{}'' dec by_tier (Some why) (ne_duration_ms env) db2)"
    note w = weigh_knock_def Let_def stranger s' d audit_full_def
    show ?thesis
    proof (cases "lets_through (dc_decision d)")
      case True
      with assms have "reply = KnockDecision ?i ''allow'' (dc_decided_by d) (Some ''admitted'')"
          "db' = admit_peer env peer ?i (?row ''allow'' (dc_decided_by d) ''knock admitted'')"
        by (cases "dc_decision d"; simp add: w)+
      with True show ?thesis by (intro decided [OF stranger s' d refl, where dec = "''allow''"]) simp
    next
      case no: False
      show ?thesis
      proof (cases "dc_decided_by d = ''default'' \<or> dc_decision d = Escalate")
        case True
        define by_tier why where
          "by_tier = (if dc_decision d = Escalate then ''node'' else ''default'')"
          "why = (if dc_decision d = Escalate then ''knock parked (chain escalated)'' else ''knock parked for the owner'')"
        from assms True no obtain i' where "park_knock env peer ?i message (?row ''deny'' by_tier why) = (i', db')"
            "reply = parked_reply i'"
          unfolding by_tier_why_def
          by (cases "dc_decision d") (auto simp: w split: prod.splits)
        with no True show ?thesis
          by (intro decided [OF stranger s' d refl, where dec = "''deny''" and by_tier = by_tier and why = why]) blast
      next
        case False
        with no obtain reason where "dc_decision d = Deny reason" by (cases "dc_decision d") auto
        with assms False have "reply = KnockDecision ?i ''deny'' (dc_decided_by d) (Some reason)"
            "db' = ?row ''deny'' (dc_decided_by d) reason" "dc_decision d = Deny reason"
          by (simp_all add: w)
        with False show ?thesis
          by (intro decided [OF stranger s' d refl, where dec = "''deny''"]) simp
      qed
    qed
  qed
qed

text \<open>A knock over the budget gets no answer and leaves nothing but the two buckets:
  no ledger row, no inbox row, no decision of the chain.\<close>

lemma dropped_knock_leaves_no_trace:
  assumes "serve_knock u j reg lim env fresh peer k db = ([], db')"
  shows "db' = db\<lparr>nd_budget := nd_budget db'\<rparr> \<and> \<not> peer_known db peer"
proof -
  obtain reply db1 where w: "weigh_knock u j reg lim env fresh peer (kn_id k) (kn_message k) db = (reply, db1)" by fastforce
  with assms have "reply = Dropped" "db' = db1" by (auto simp: serve_knock_def split: knock_reply.splits)
  from w show ?thesis
  proof (cases rule: weigh_cases)
    case dropped
    with spend_keeps(3) [of peer lim "env_now (ne_call env)" db] \<open>db' = db1\<close> show ?thesis by simp
  qed (use \<open>reply = Dropped\<close> in \<open>auto simp: parked_reply_def\<close>)
qed

definition shut_limits :: knock_limits where
  "shut_limits = \<lparr>kl_per_key_burst = f_zero, kl_per_key_refill_per_sec = f_zero,
     kl_global_burst = f_zero, kl_global_refill_per_sec = f_zero\<rparr>"

lemma dropped_knock_leaves_no_trace_witness:
  "\<not> peer_known toy_db ''q''
   \<and> fst (serve_knock toy_ulid toy_json toy_registry shut_limits toy_env ''f'' ''q''
        \<lparr>kn_id = None, kn_message = ''hi''\<rparr> toy_db) = []"
proof -
  have "\<not> f_le f_one f_zero"
    by (simp add: f_le_def f_one_scaled f_zero_scaled)
  then have d: "fst (serve_knock toy_ulid toy_json toy_registry shut_limits toy_env ''f'' ''q''
        \<lparr>kn_id = None, kn_message = ''hi''\<rparr> toy_db) = []"
    by (simp add: serve_knock_def weigh_knock_def Let_def peer_known_def toy_db_def read_rsntr_def
        spend_knock_token_def bucket_level_def find_bucket_def shut_limits_def split: prod.split)
  obtain fs db' where e: "serve_knock toy_ulid toy_json toy_registry shut_limits toy_env ''f'' ''q''
        \<lparr>kn_id = None, kn_message = ''hi''\<rparr> toy_db = (fs, db')" by fastforce
  with d have "fs = []" by simp
  from dropped_knock_leaves_no_trace [OF e [unfolded this]] d show ?thesis by blast
qed

definition keeps_gate :: "config_json \<Rightarrow> registry \<Rightarrow> bool" where
  "keeps_gate j reg \<longleftrightarrow>
     (\<forall>env a arq. db_peers (snd (chain_decide j reg env a arq)) = db_peers a
        \<and> db_rsntr (snd (chain_decide j reg env a arq)) = db_rsntr a)"

lemma peer_known_auth:
  "db_peers (nd_auth db') = db_peers (nd_auth db) \<Longrightarrow> db_rsntr (nd_auth db') = db_rsntr (nd_auth db) \<Longrightarrow>
     peer_known db' p = peer_known db p"
  by (simp add: peer_known_def read_rsntr_def)

lemma admit_peer_known:
  "db_peers (nd_auth db) \<noteq> None \<Longrightarrow> peer_known (admit_peer env peer i db) peer"
  by (auto simp: admit_peer_def insert_peer_def peer_known_def list_ex_iff split: option.splits)

lemma park_keeps_gate:
  "park_knock env peer i message db = (k, db') \<Longrightarrow> peer_known db' p = peer_known db p"
  by (auto simp: park_knock_def insert_inbox_def peer_known_def read_rsntr_def split: option.splits if_splits)

text \<open>C30. A stranger's knock is answered allow exactly when the chain, asked about action
  \<open>knock\<close> with the message as data, let it through, and exactly then the stranger is a known
  peer afterwards (for tiers that leave the peer table and the node's id alone).\<close>

lemma stranger_admitted_only_by_chain:
  assumes "\<not> peer_known db peer" "db_peers (nd_auth db) \<noteq> None" "keeps_gate j reg"
    and "weigh_knock u j reg lim env fresh peer client message db = (reply, db')" "reply \<noteq> Dropped"
  shows "\<exists>d db1 db2. decide_on j reg env \<lparr>rq_peer = peer, rq_action = ''knock'',
       rq_footprint = footprint_default, rq_statement = message\<rparr> db1 = (d, db2)
     \<and> db1 = db\<lparr>nd_budget := nd_budget db1\<rparr>
     \<and> (lets_through (dc_decision d) \<longleftrightarrow> peer_known db' peer)
     \<and> (lets_through (dc_decision d) \<longleftrightarrow> (\<exists>i by_tier why. reply = KnockDecision i ''allow'' by_tier why))"
  using assms(4)
proof (cases rule: weigh_cases)
  case (decided d db1 db2 db3 by_tier why dur dec)
  have a1: "nd_auth db1 = nd_auth db" using spend_keeps(1) [of peer lim "env_now (ne_call env)" db] decided(2) by simp
  have "nd_auth db2 = snd (chain_decide j reg (ne_call env) (nd_auth db1) \<lparr>rq_peer = peer, rq_action = ''knock'',
       rq_footprint = footprint_default, rq_statement = message\<rparr>)"
    using decided(3) by (auto simp: decide_on_def split: prod.splits)
  then have keep: "db_peers (nd_auth db2) = db_peers (nd_auth db)" "db_rsntr (nd_auth db2) = db_rsntr (nd_auth db)"
    using assms(3) a1 by (simp_all add: keeps_gate_def)
  have a3: "nd_auth db3 = nd_auth db2" by (simp add: decided(4))
  have gate: "peer_known db3 peer = peer_known db peer"
    by (rule peer_known_auth) (simp_all add: a3 keep)
  have "(lets_through (dc_decision d) \<longleftrightarrow> peer_known db' peer)
     \<and> (lets_through (dc_decision d) \<longleftrightarrow> (\<exists>i by_tier why. reply = KnockDecision i ''allow'' by_tier why))"
  proof -
    from decided(5) consider (admitted) "lets_through (dc_decision d)" "db' = admit_peer env peer (knock_id u client fresh) db3"
        "reply = KnockDecision (knock_id u client fresh) ''allow'' (dc_decided_by d) (Some ''admitted'')"
      | (parked) i' where "park_knock env peer (knock_id u client fresh) message db3 = (i', db')"
        "reply = parked_reply i'" "\<not> lets_through (dc_decision d)"
      | (denied) reason where "db' = db3" "dc_decision d = Deny reason"
        "reply = KnockDecision (knock_id u client fresh) ''deny'' (dc_decided_by d) (Some reason)"
      by blast
    then show ?thesis
    proof cases
      case admitted
      with admit_peer_known [of db3 env peer] a3 keep(1) assms(2) show ?thesis by simp
    next
      case (parked i')
      with park_keeps_gate [OF parked(1), of peer] gate assms(1) show ?thesis by (simp add: parked_reply_def)
    next
      case (denied reason)
      with gate assms(1) show ?thesis by simp
    qed
  qed
  moreover have "db1 = db\<lparr>nd_budget := nd_budget db1\<rparr>"
    using spend_keeps(3) [of peer lim "env_now (ne_call env)" db] decided(2) by simp
  ultimately show ?thesis using decided(3) by blast
qed (use assms(1,5) in auto)

lemma toy_keeps_gate: "keeps_gate toy_json toy_registry"
  by (auto simp: keeps_gate_def chain_decide_def read_config_def toy_json_def toy_registry_def
      register_def chain_new_def run_chain.simps permitted_def Let_def read_rsntr_def split: option.splits)

lemma stranger_admitted_only_by_chain_witness:
  "peer_known (snd (weigh_knock toy_ulid toy_json toy_registry small_limits toy_env ''f'' ''q'' None ''hi'' toy_db)) ''q''"
proof -
  obtain reply db' where w: "weigh_knock toy_ulid toy_json toy_registry small_limits toy_env ''f'' ''q'' None ''hi'' toy_db
      = (reply, db')" by fastforce
  have one: "f_le f_one f_one" by (simp add: f_le_def f_one_scaled finite64_cases)
  have stranger: "\<not> peer_known toy_db ''q''" by (simp add: peer_known_def toy_db_def read_rsntr_def)
  obtain db1 where sp: "spend_knock_token ''q'' small_limits (env_now (ne_call toy_env)) toy_db = (True, db1)"
    using one by (simp add: spend_knock_token_def bucket_level_def find_bucket_def toy_db_def small_limits_def Let_def)
  have "fst (decide_on toy_json toy_registry toy_env a db2) = \<lparr>dc_decision = Allow, dc_decided_by = ''open''\<rparr>"
    if "read_rsntr (nd_auth db2) ''auth_chain'' = Some ''c''" "read_rsntr (nd_auth db2) ''auth_masks'' = None"
    for a and db2 :: "int list node_db"
    using that by (simp add: decide_on_def chain_decide_def read_config_def toy_json_def toy_registry_def register_def
        run_chain.simps permitted_def Let_def split: prod.split)
  moreover have "read_rsntr (nd_auth toy_db) ''auth_chain'' = Some ''c''" "read_rsntr (nd_auth toy_db) ''auth_masks'' = None"
    by (simp_all add: toy_db_def read_rsntr_def)
  ultimately have allow: "fst (decide_on toy_json toy_registry toy_env a db2) = \<lparr>dc_decision = Allow, dc_decided_by = ''open''\<rparr>"
    if "nd_auth db2 = nd_auth toy_db" for a and db2 :: "int list node_db" using that by simp
  have nd: "reply \<noteq> Dropped"
    using w by (cases "decide_on toy_json toy_registry toy_env \<lparr>rq_peer = ''q'', rq_action = ''knock'',
       rq_footprint = footprint_default, rq_statement = ''hi''\<rparr> db1")
      (auto simp: weigh_knock_def Let_def stranger sp parked_reply_def split: decision.splits if_splits prod.splits)
  have peers: "db_peers (nd_auth toy_db) \<noteq> None" by (simp add: toy_db_def)
  from stranger_admitted_only_by_chain [OF stranger peers toy_keeps_gate w nd] obtain d db1 db2 where
    d: "decide_on toy_json toy_registry toy_env \<lparr>rq_peer = ''q'', rq_action = ''knock'',
       rq_footprint = footprint_default, rq_statement = ''hi''\<rparr> db1 = (d, db2)" "db1 = toy_db\<lparr>nd_budget := nd_budget db1\<rparr>"
      "lets_through (dc_decision d) \<longleftrightarrow> peer_known db' ''q''" by blast
  have "nd_auth db1 = nd_auth toy_db" by (subst d(2)) simp
  from allow [OF this] d(1) have "d = \<lparr>dc_decision = Allow, dc_decided_by = ''open''\<rparr>" by (metis fst_conv)
  with d(3) w show ?thesis by simp
qed

definition pending_knocks :: "auth_db \<Rightarrow> string \<Rightarrow> inbox_row list" where
  "pending_knocks a peer = (case db_inbox a of None \<Rightarrow> [] | Some rows \<Rightarrow> filter (pending_knock peer) rows)"

definition parks_no_knocks :: "config_json \<Rightarrow> registry \<Rightarrow> bool" where
  "parks_no_knocks j reg \<longleftrightarrow>
     (\<forall>env a arq p. pending_knocks (snd (chain_decide j reg env a arq)) p = pending_knocks a p)"

lemma earliest_None: "earliest rows = None \<longleftrightarrow> rows = []"
  by (cases rows) (auto split: option.splits)

lemma park_knock_pending:
  assumes "park_knock env peer i message db = (k, db')"
  shows "pending_knocks (nd_auth db') p = pending_knocks (nd_auth db) p
    \<or> (p = peer \<and> pending_knocks (nd_auth db) p = [] \<and> length (pending_knocks (nd_auth db') p) = 1)"
  using assms
  by (auto simp: park_knock_def insert_inbox_def pending_knocks_def pending_knock_def earliest_None
      split: option.splits if_splits)

lemma admit_keeps_inbox: "db_inbox (nd_auth (admit_peer env peer i db)) = db_inbox (nd_auth db)"
  by (auto simp: admit_peer_def insert_peer_def split: option.splits)

text \<open>Weighing a knock never leaves a peer two undecided knocks in the inbox, if it had
  at most one before (for tiers that park no knocks themselves).\<close>

lemma at_most_one_pending_knock:
  assumes "parks_no_knocks j reg" "\<forall>p. length (pending_knocks (nd_auth db) p) \<le> 1"
    and "weigh_knock u j reg lim env fresh peer client message db = (reply, db')"
  shows "length (pending_knocks (nd_auth db') p) \<le> 1"
  using assms(3)
proof (cases rule: weigh_cases)
  case known
  then show ?thesis using assms(2) by (simp add: audit_direct_full)
next
  case dropped
  then show ?thesis using assms(2) by (simp add: spend_keeps(1))
next
  case (decided d db1 db2 db3 by_tier why dur dec)
  have "nd_auth db1 = nd_auth db" using spend_keeps(1) [of peer lim "env_now (ne_call env)" db] decided(2) by simp
  moreover have "nd_auth db2 = snd (chain_decide j reg (ne_call env) (nd_auth db1) \<lparr>rq_peer = peer, rq_action = ''knock'',
       rq_footprint = footprint_default, rq_statement = message\<rparr>)"
    using decided(3) by (auto simp: decide_on_def split: prod.splits)
  moreover have "nd_auth db3 = nd_auth db2" by (simp add: decided(4))
  ultimately have three: "pending_knocks (nd_auth db3) p = pending_knocks (nd_auth db) p" for p
    using assms(1) by (simp add: parks_no_knocks_def)
  from decided(5) consider "db' = admit_peer env peer (knock_id u client fresh) db3"
    | i' where "park_knock env peer (knock_id u client fresh) message db3 = (i', db')" | "db' = db3" by blast
  then show ?thesis
  proof cases
    case 1
    then show ?thesis using assms(2) three [of p] by (simp add: pending_knocks_def admit_keeps_inbox)
  next
    case 2
    from park_knock_pending [OF 2, of p] three [of p] assms(2) show ?thesis by auto
  next
    case 3
    then show ?thesis using assms(2) three [of p] by simp
  qed
qed

definition closed_registry :: registry where
  "closed_registry = chain_new"

lemma at_most_one_pending_knock_witness:
  "length (pending_knocks (nd_auth (snd (weigh_knock toy_ulid toy_json closed_registry small_limits toy_env ''f'' ''q'' None ''hi'' toy_db))) ''q'') \<le> 1"
proof -
  obtain reply db' where w: "weigh_knock toy_ulid toy_json closed_registry small_limits toy_env ''f'' ''q'' None ''hi'' toy_db
      = (reply, db')" by fastforce
  have "parks_no_knocks toy_json closed_registry"
    by (auto simp: parks_no_knocks_def chain_decide_def read_config_def toy_json_def closed_registry_def chain_new_def
        run_chain.simps Let_def split: option.splits)
  from at_most_one_pending_knock [OF this _ w] w show ?thesis
    by (simp add: pending_knocks_def toy_db_def)
qed

text \<open>Knocking again while the first knock waits answers with the same pending id and
  changes nothing in the inbox.\<close>

lemma reknock_is_a_status_check:
  assumes "park_knock env peer i message db = (k, db1)"
    and "db_inbox (nd_auth db) = Some rows" "i \<notin> set (map ib_request_id rows)"
  shows "park_knock env' peer i' message' db1 = (k, db1)"
proof (cases "earliest (filter (pending_knock peer) rows)")
  case None
  with assms show ?thesis
    by (auto simp: park_knock_def insert_inbox_def earliest_None pending_knock_def)
next
  case (Some r)
  with assms show ?thesis by (auto simp: park_knock_def)
qed

lemma reknock_is_a_status_check_witness:
  "fst (park_knock toy_env ''q'' ''k2'' ''again'' (snd (park_knock toy_env ''q'' ''k1'' ''hi'' toy_db))) = ''k1''"
proof -
  obtain k db1 where p: "park_knock toy_env ''q'' ''k1'' ''hi'' toy_db = (k, db1)" by fastforce
  then have "k = ''k1''" by (simp add: park_knock_def toy_db_def)
  with reknock_is_a_status_check [OF p, of "[]"] p show ?thesis by (simp add: toy_db_def)
qed

end
