(* ===== verification/Pipeline_Sparql.thy ===== *)
theory Pipeline_Sparql
  imports Pipeline_Serve Sparql_Store
begin

text \<open>
  The \<open>sparql\<close> modulation (\<open>crates/node/src/sparql_mod.rs\<close>) and its lane in the pipeline
  (\<open>serve_sparql\<close>, \<open>serve_sparql_owner\<close> and \<open>stream_sparql_outcome\<close> of \<open>pipeline.rs\<close>). The
  user's part of the database is here the triple store; the store's operations are those of
  \<open>Sparql_Store\<close>.

  Parameters: what SQLite does for a compiled query (its rows and the store after it), the JSON of a footprint and of a
  recorded outcome, the opening and the commit of the transaction, and the checks and the
  sizes of the third-party RDF types.
\<close>

record sparql_ext =
  sx_run :: runner
  sx_json :: "footprint \<Rightarrow> string"
  sx_begin :: "rdf_store node_db \<Rightarrow> sqlite_error option"
  sx_commit :: "rdf_store node_db \<Rightarrow> sqlite_error option"
  sx_outcome_json :: "int \<Rightarrow> string"
  sx_outcome :: "string \<Rightarrow> int option"
  sx_iri_ok :: "string \<Rightarrow> bool"
  sx_label_ok :: "string \<Rightarrow> bool"
  sx_lang :: "string \<Rightarrow> string option"
  sx_estimate :: "Vocab.triple \<Rightarrow> nat"

definition sparql_footprint :: "action_kind \<Rightarrow> footprint" where
  "sparql_footprint kind = from_tables kind [(''rdf_triples'', []), (''rdf_terms'', [])]"

datatype sparql_outcome =
    SDenied string
  | SBadRequest string
  | SEngineError string
  | SSelect "string list" "solution list" bool
  | SAsk bool
  | SConstruct "Vocab.triple list"
  | SUpdated int

subsection \<open>Terms\<close>

text \<open>One character of a literal, as the node escapes it.\<close>

definition nt_char :: "char \<Rightarrow> string" where
  "nt_char c =
     (if c = CHR 0x5C then [CHR 0x5C, CHR 0x5C]
      else if c = CHR 0x22 then [CHR 0x5C, CHR 0x22]
      else if c = CHR 0x0A then [CHR 0x5C, CHR ''n'']
      else if c = CHR 0x0D then [CHR 0x5C, CHR ''r'']
      else if c = CHR 0x09 then [CHR 0x5C, CHR ''t'']
      else [c])"

definition nt_term :: "Sparql_Ast.rdf_term \<Rightarrow> string" where
  "nt_term t =
     (if tm_kind t = K_IRI then ''<'' @ tm_lex t @ ''>''
      else if tm_kind t = K_BNODE then ''_:'' @ tm_lex t
      else [CHR 0x22] @ concat (map nt_char (tm_lex t)) @ [CHR 0x22]
        @ (if tm_lang t \<noteq> [] then ''@'' @ tm_lang t
           else if tm_dtype t \<noteq> [] then ''^^<'' @ tm_dtype t @ ''>''
           else []))"

definition term_value :: "Sparql_Ast.rdf_term \<Rightarrow> wire_value" where
  "term_value t = Text (nt_term t)"

text \<open>An engine triple as a triple of a frame; \<open>None\<close> when a part is not valid there.\<close>

definition ox_named :: "sparql_ext \<Rightarrow> string \<Rightarrow> string option" where
  "ox_named x lx = (if sx_iri_ok x lx then Some lx else None)"

definition ox_blank :: "sparql_ext \<Rightarrow> string \<Rightarrow> string option" where
  "ox_blank x lx = (if sx_label_ok x lx then Some lx else None)"

definition ox_subject :: "sparql_ext \<Rightarrow> Sparql_Ast.rdf_term \<Rightarrow> Vocab.node option" where
  "ox_subject x t =
     (if tm_kind t = K_IRI then map_option Vocab.NamedNode (ox_named x (tm_lex t))
      else if tm_kind t = K_BNODE then map_option Vocab.BlankNode (ox_blank x (tm_lex t))
      else None)"

definition ox_object :: "sparql_ext \<Rightarrow> Sparql_Ast.rdf_term \<Rightarrow> Vocab.rdf_term option" where
  "ox_object x t =
     (if tm_kind t = K_IRI then map_option TNamed (ox_named x (tm_lex t))
      else if tm_kind t = K_BNODE then map_option TBlank (ox_blank x (tm_lex t))
      else if tm_lang t \<noteq> []
      then map_option (\<lambda>lg. TLiteral (Lit (tm_lex t) (RDF_NS @ ''langString'') (Some lg))) (sx_lang x (tm_lang t))
      else if tm_dtype t \<noteq> []
      then map_option (\<lambda>dt. TLiteral (Lit (tm_lex t) dt None)) (ox_named x (tm_dtype t))
      else Some (plain_lit (tm_lex t)))"

definition ox_triple :: "sparql_ext \<Rightarrow> Sparql_Serialize.triple \<Rightarrow> Vocab.triple option" where
  "ox_triple x t =
     (case t of (s, p, ob) \<Rightarrow>
        Option.bind (ox_subject x s) (\<lambda>s'.
        Option.bind (ox_named x (tm_lex p)) (\<lambda>p'.
        Option.bind (ox_object x ob) (\<lambda>o'.
          Some \<lparr>subject = s', predicate = p', object = o'\<rparr>))))"

subsection \<open>Running a request\<close>

definition recorded_update :: "sparql_ext \<Rightarrow> rdf_store node_db \<Rightarrow> string \<Rightarrow> int option" where
  "recorded_update x db i =
     (case recorded_outcome db i of
        Inr (Some json) \<Rightarrow> Some (case sx_outcome x json of Some n \<Rightarrow> n | None \<Rightarrow> 0)
      | _ \<Rightarrow> None)"

text \<open>The outcome and the database: the committed one or the one at the start. A query is run on the
  same connection, outside a transaction: what its text did to the store stays.\<close>

definition run_update_idempotent ::
  "sparql_ext \<Rightarrow> node_env \<Rightarrow> string \<Rightarrow> update \<Rightarrow> rdf_store node_db \<Rightarrow> sparql_outcome \<times> rdf_store node_db" where
  "run_update_idempotent x env i u db =
     (case recorded_update x db i of
        Some affected \<Rightarrow> (SUpdated affected, db)
      | None \<Rightarrow>
          (case sx_begin x db of
             Some e \<Rightarrow> (SEngineError (err_text e), db)
           | None \<Rightarrow>
               (case run_update (sx_run x) u (nd_user db) of
                  (Inl e, _) \<Rightarrow> (SEngineError e, db)
                | (Inr affected, st) \<Rightarrow>
                    (case insert_applied \<lparr>al_request_id = i, al_at = now_rfc3339 env,
                            al_outcome = sx_outcome_json x affected\<rparr> (db\<lparr>nd_user := st\<rparr>) of
                       Inl e \<Rightarrow> (SEngineError (err_text e), db)
                     | Inr db1 \<Rightarrow>
                         (case sx_commit x db1 of
                            None \<Rightarrow> (SUpdated affected, db1)
                          | Some e \<Rightarrow> (SEngineError (err_text e), db))))))"

definition execute_parsed ::
  "sparql_ext \<Rightarrow> node_env \<Rightarrow> string \<Rightarrow> parsed \<Rightarrow> int \<Rightarrow> rdf_store node_db
    \<Rightarrow> sparql_outcome \<times> rdf_store node_db" where
  "execute_parsed x env i p row_cap db =
     (case p of
        PQuery q \<Rightarrow>
          (case q_form q of
             FSelect \<Rightarrow>
               (case exec_select (sx_run x) (nd_user db) q of
                  (Inl e, st) \<Rightarrow> (SEngineError e, db\<lparr>nd_user := st\<rparr>)
                | (Inr (vars, rows), st) \<Rightarrow>
                    let truncated = row_cap < int (length rows)
                    in (SSelect vars (if truncated then take (nat row_cap) rows else rows) truncated,
                        db\<lparr>nd_user := st\<rparr>))
           | FAsk \<Rightarrow>
               (case exec_ask (sx_run x) (nd_user db) q of
                  (Inl e, st) \<Rightarrow> (SEngineError e, db\<lparr>nd_user := st\<rparr>)
                | (Inr b, st) \<Rightarrow> (SAsk b, db\<lparr>nd_user := st\<rparr>))
           | FConstruct \<Rightarrow>
               (case exec_construct (sx_run x) (nd_user db) q of
                  (Inl e, st) \<Rightarrow> (SEngineError e, db\<lparr>nd_user := st\<rparr>)
                | (Inr ts, st) \<Rightarrow> (SConstruct (List.map_filter (ox_triple x) ts), db\<lparr>nd_user := st\<rparr>)))
      | PUpdate u \<Rightarrow> run_update_idempotent x env i u db)"

text \<open>The parse and the check of the envelope class, shared by both lanes.\<close>

definition sparql_request :: "request \<Rightarrow> (string, parsed \<times> action_kind) result" where
  "sparql_request rq =
     (case parse (rq_signal rq) of
        Inl e \<Rightarrow> Inl (''sparql parse error: '' @ e)
      | Inr p \<Rightarrow>
          (case (p, rq_kind rq) of
             (PQuery _, RQuery) \<Rightarrow> Inr (p, Read)
           | (PUpdate _, RExecute) \<Rightarrow> Inr (p, Write)
           | (PQuery _, RExecute) \<Rightarrow> Inl ''a SPARQL query rides a rsntr:Query, not rsntr:Execute''
           | (PUpdate _, RQuery) \<Rightarrow> Inl ''a SPARQL update rides a rsntr:Execute, not rsntr:Query''))"

definition NARROWED_REASON :: string where
  "NARROWED_REASON = ''allow-narrowed is not supported for the sparql modulation''"

fun sparql_decision_str :: "decision \<Rightarrow> string \<times> string option" where
  "sparql_decision_str Allow = (''allow'', None)"
| "sparql_decision_str (AllowNarrowed rewrite) = (''allow'', None)"
| "sparql_decision_str (Deny reason) = (''deny'', Some reason)"
| "sparql_decision_str Escalate = (''deny'', Some UNDECIDED)"

definition gate_and_run_sparql ::
  "sparql_ext \<Rightarrow> ulid \<Rightarrow> config_json \<Rightarrow> registry \<Rightarrow> node_env \<Rightarrow> string \<Rightarrow> request \<Rightarrow> int
    \<Rightarrow> rdf_store node_db \<Rightarrow> sparql_outcome \<times> rdf_store node_db" where
  "gate_and_run_sparql x u j reg env peer rq row_cap db =
     (let i = id_string u rq
      in case sparql_request rq of
           Inl message \<Rightarrow> (SBadRequest message, db)
         | Inr (p, kind) \<Rightarrow>
             let f = sparql_footprint kind;
                 (decided, db1) = decide_on j reg env
                   \<lparr>rq_peer = peer, rq_action = (if kind = Read then ''read'' else ''write''), rq_footprint = f,
                    rq_statement = rq_signal rq\<rparr> db;
                 (str, reason) = sparql_decision_str (dc_decision decided);
                 db2 = snd (audit_full env peer i (rq_signal rq) (sx_json x f) str
                   (dc_decided_by decided) reason (ne_duration_ms env) db1)
             in (case dc_decision decided of
                   Allow \<Rightarrow> execute_parsed x env i p row_cap db2
                 | AllowNarrowed _ \<Rightarrow> (SDenied NARROWED_REASON, db2)
                 | Deny reason \<Rightarrow> (SDenied reason, db2)
                 | Escalate \<Rightarrow> (SDenied UNDECIDED, db2)))"

definition run_sparql_owner ::
  "sparql_ext \<Rightarrow> ulid \<Rightarrow> node_env \<Rightarrow> string \<Rightarrow> request \<Rightarrow> int
    \<Rightarrow> rdf_store node_db \<Rightarrow> sparql_outcome \<times> rdf_store node_db" where
  "run_sparql_owner x u env peer rq row_cap db =
     (let i = id_string u rq
      in case sparql_request rq of
           Inl message \<Rightarrow> (SBadRequest message, db)
         | Inr (p, kind) \<Rightarrow>
             execute_parsed x env i p row_cap
               (snd (audit_full_dir env ''local'' peer i (rq_signal rq) (sx_json x (sparql_footprint kind))
                       ''allow'' ''owner'' None 0 db)))"

subsection \<open>The frames of an outcome\<close>

text \<open>The cells of a solution, with its estimate.\<close>

fun solution_cells :: "(string \<times> Sparql_Ast.rdf_term option) list \<Rightarrow> (string \<times> wire_value) list \<times> nat" where
  "solution_cells [] = ([], 0)"
| "solution_cells ((var, t) # r) =
     (case (t, solution_cells r) of
        (None, rest) \<Rightarrow> rest
      | (Some tm, (cells, est)) \<Rightarrow> ((var, term_value tm) # cells, length (nt_term tm) + length var + 16 + est))"

fun select_frames ::
  "node_config \<Rightarrow> string list \<Rightarrow> solution list \<Rightarrow> nat \<Rightarrow> row list \<Rightarrow> nat \<Rightarrow> row list list" where
  "select_frames cfg vars [] seq batch bytes = (if batch = [] then [] else [batch])"
| "select_frames cfg vars (row # rows) seq batch bytes =
     (let (cells, est) = solution_cells (zip vars row);
          batch' = batch @ [\<lparr>row_seq = int seq, row_cells = cells\<rparr>];
          bytes' = bytes + (32 + est)
      in if nc_rows_per_frame cfg \<le> length batch' \<or> nc_frame_byte_budget cfg \<le> bytes'
         then batch' # select_frames cfg vars rows (Suc seq) [] 0
         else select_frames cfg vars rows (Suc seq) batch' bytes')"

text \<open>The chunks of a graph; the last is sent when it holds triples or nothing was sent.\<close>

fun graph_chunks ::
  "sparql_ext \<Rightarrow> node_config \<Rightarrow> string \<Rightarrow> Vocab.triple list \<Rightarrow> nat \<Rightarrow> Vocab.triple list \<Rightarrow> nat
    \<Rightarrow> Envelope_Types.graph list" where
  "graph_chunks x cfg i [] seq chunk bytes =
     (if chunk \<noteq> [] \<or> seq = 0 then [\<lparr>gr_id = i, gr_seq = int seq, gr_payload = chunk\<rparr>] else [])"
| "graph_chunks x cfg i (t # ts) seq chunk bytes =
     (let bytes' = bytes + sx_estimate x t; chunk' = chunk @ [t]
      in if 512 \<le> length chunk' \<or> nc_frame_byte_budget cfg \<le> bytes'
         then \<lparr>gr_id = i, gr_seq = int seq, gr_payload = chunk'\<rparr> # graph_chunks x cfg i ts (Suc seq) [] 0
         else graph_chunks x cfg i ts seq chunk' bytes')"

definition sparql_done :: "string \<Rightarrow> int \<Rightarrow> int option \<Rightarrow> bool \<Rightarrow> envelope_object" where
  "sparql_done i rows affected truncated =
     Done \<lparr>dn_id = i, dn_row_count = Some rows, dn_affected_rows = affected,
           dn_last_insert_rowid = None, dn_truncated = truncated\<rparr>"

definition sparql_header :: "string \<Rightarrow> string list \<Rightarrow> envelope_object" where
  "sparql_header i columns = Result \<lparr>rh_id = i, rh_columns = columns, rh_decl_types = []\<rparr>"

definition outcome_frames :: "sparql_ext \<Rightarrow> node_config \<Rightarrow> string \<Rightarrow> sparql_outcome \<Rightarrow> envelope_object list" where
  "outcome_frames x cfg i out =
     (case out of
        SDenied reason \<Rightarrow> [Denied \<lparr>de_id = Some i, de_reason = Some reason\<rparr>]
      | SBadRequest message \<Rightarrow>
          [Error \<lparr>er_id = Some i, er_code = code_as_str ProtocolErrorCode, er_reason = Some message\<rparr>]
      | SEngineError message \<Rightarrow>
          [Error \<lparr>er_id = Some i, er_code = code_as_str EngineError, er_reason = Some message\<rparr>]
      | SSelect vars rows truncated \<Rightarrow>
          sparql_header i vars # map Row (select_frames cfg vars rows 0 [] 0)
          @ [sparql_done i (int (length rows)) None truncated]
      | SAsk b \<Rightarrow>
          [sparql_header i [''ask''],
           Row [\<lparr>row_seq = 0, row_cells = [(''ask'', Integer (if b then 1 else 0))]\<rparr>],
           sparql_done i 1 None False]
      | SConstruct ts \<Rightarrow>
          map Graph (graph_chunks x cfg i ts 0 [] 0) @ [sparql_done i (int (length ts)) None False]
      | SUpdated affected \<Rightarrow> [sparql_header i [], sparql_done i 0 (Some affected) False])"

definition stream_sparql_outcome :: "sparql_ext \<Rightarrow> node_config \<Rightarrow> string \<Rightarrow> sparql_outcome \<Rightarrow> stream \<Rightarrow> stream" where
  "stream_sparql_outcome x cfg i out c = send_all c (outcome_frames x cfg i out)"

definition serve_sparql ::
  "sparql_ext \<Rightarrow> ulid \<Rightarrow> config_json \<Rightarrow> registry \<Rightarrow> node_config \<Rightarrow> node_env \<Rightarrow> node_env
    \<Rightarrow> (rdf_store node_db \<Rightarrow> rdf_store node_db) \<Rightarrow> string \<Rightarrow> request \<Rightarrow> rdf_store node_db \<Rightarrow> stream
    \<Rightarrow> rdf_store node_db \<times> stream" where
  "serve_sparql x u j reg cfg env env' between peer rq db c =
     (let i = id_string u rq
      in if \<not> peer_known db peer
         then (audit_direct env peer i (rq_signal rq) ''deny'' ''peer-gate'' ''unknown peer'' db,
               send_denied c (Some i) UNKNOWN_PEER)
         else case gate_and_run_sparql x u j reg env' peer rq
                     (lm_row_cap (effective_limits (rq_options rq) cfg)) (between db) of
           (out, db') \<Rightarrow> (db', stream_sparql_outcome x cfg i out c))"

definition serve_sparql_owner ::
  "sparql_ext \<Rightarrow> ulid \<Rightarrow> node_config \<Rightarrow> node_env \<Rightarrow> string \<Rightarrow> request \<Rightarrow> rdf_store node_db \<Rightarrow> stream
    \<Rightarrow> rdf_store node_db \<times> stream" where
  "serve_sparql_owner x u cfg env peer rq db c =
     (case run_sparql_owner x u env peer rq (lm_row_cap (effective_limits (rq_options rq) cfg)) db of
        (out, db') \<Rightarrow> (db', stream_sparql_outcome x cfg (id_string u rq) out c))"

end
