(* ===== verification/Graph_Lane.thy ===== *)
theory Graph_Lane
  imports Pipeline_Sparql Exec_Facts Sparql_Updates
begin

text \<open>
  Facts about the \<open>sparql\<close> modulation: the ways a request ends, what it does to the store and
  to the record of applied writes, and the frames of the answer.
\<close>

subsection \<open>Terms in cells\<close>

text \<open>The node's own writer of terms is the engine's.\<close>

lemma nt_term_engine: "nt_term t = nt_write_term t"
  by (simp add: nt_term_def nt_write_term_def iri_ref_def write_quoted_literal_def nt_char_def [abs_def]
      literal_char_def [abs_def])

subsection \<open>The update\<close>

lemma insert_applied_Inr:
  "insert_applied row db = Inr db' \<Longrightarrow>
     recorded_outcome db' (al_request_id row) = Inr (Some (al_outcome row)) \<and> nd_user db' = nd_user db"
proof -
  assume a: "insert_applied row db = Inr db'"
  then have "nd_user db' = nd_user db" by (auto simp: insert_applied_def split: option.splits if_splits)
  with insert_applied_recorded [OF a] show ?thesis by simp
qed

lemma update_cases:
  assumes "run_update_idempotent x env i up db = (out, db')"
  obtains (recorded) n where "recorded_update x db i = Some n" "out = SUpdated n" "db' = db"
  | (failed) e where "recorded_update x db i = None" "out = SEngineError e" "db' = db"
  | (applied) n st where "recorded_update x db i = None" "out = SUpdated n"
      "run_update (sx_run x) up (nd_user db) = (Inr n, st)" "nd_user db' = st"
      "recorded_outcome db' i = Inr (Some (sx_outcome_json x n))"
proof (cases "recorded_update x db i")
  case (Some n)
  with assms show ?thesis by (intro recorded) (auto simp: run_update_idempotent_def)
next
  case None
  show ?thesis
  proof (cases "\<exists>e. out = SEngineError e \<and> db' = db")
    case True
    with None failed show ?thesis by blast
  next
    case False
    with assms None obtain n st row where
      "out = SUpdated n" "run_update (sx_run x) up (nd_user db) = (Inr n, st)"
      "insert_applied row (db\<lparr>nd_user := st\<rparr>) = Inr db'"
      "al_request_id row = i" "al_outcome row = sx_outcome_json x n"
      by (auto simp: run_update_idempotent_def split: option.splits prod.splits sum.splits)
    with insert_applied_Inr [OF this(3)] None show ?thesis by (intro applied) auto
  qed
qed

text \<open>What the run of a query's text left of the store.\<close>

definition query_left :: "runner \<Rightarrow> query \<Rightarrow> rdf_store \<Rightarrow> rdf_store \<Rightarrow> bool" where
  "query_left run q st st' \<longleftrightarrow>
     (\<exists>k sql vars. compile_query q (lookup_term_id st) = Inr (sql, vars) \<and> st' = snd (run k st sql))"

lemma exec_select_left: "exec_select run st q = (res, st') \<Longrightarrow> st' = st \<or> query_left run q st st'"
  by (auto simp: exec_select_def query_left_def split: sum.splits prod.splits) (metis snd_conv)

lemma exec_ask_left: "exec_ask run st q = (res, st') \<Longrightarrow> st' = st \<or> query_left run q st st'"
  by (auto simp: exec_ask_def query_left_def split: sum.splits prod.splits) (metis snd_conv)

lemma exec_construct_left: "exec_construct run st q = (res, st') \<Longrightarrow> st' = st \<or> query_left run q st st'"
  by (auto simp: exec_construct_def split: prod.splits dest: exec_select_left)

lemma query_left_keeps:
  "runner_ok run \<Longrightarrow> store_ok st \<Longrightarrow> labels_ok st \<Longrightarrow> query_left run q st st' \<Longrightarrow> store_ok st' \<and> labels_ok st'"
  by (auto simp: query_left_def runner_ok_def)

lemma execute_parsed_cases:
  assumes "execute_parsed x env i p cap db = (out, db')"
  obtains (read) q st where "p = PQuery q" "db' = db\<lparr>nd_user := st\<rparr>" "\<forall>n. out \<noteq> SUpdated n"
      "st = nd_user db \<or> query_left (sx_run x) q (nd_user db) st"
  | (update) up where "p = PUpdate up" "run_update_idempotent x env i up db = (out, db')"
proof (cases p)
  case (PQuery q)
  show ?thesis
  proof (cases "q_form q")
    case FSelect
    obtain res st where r: "exec_select (sx_run x) (nd_user db) q = (res, st)" by fastforce
    with exec_select_left [OF r] assms PQuery FSelect show ?thesis
      by (intro read [of q st]) (auto simp: execute_parsed_def Let_def split: sum.splits)
  next
    case FAsk
    obtain res st where r: "exec_ask (sx_run x) (nd_user db) q = (res, st)" by fastforce
    with exec_ask_left [OF r] assms PQuery FAsk show ?thesis
      by (intro read [of q st]) (auto simp: execute_parsed_def Let_def split: sum.splits)
  next
    case FConstruct
    obtain res st where r: "exec_construct (sx_run x) (nd_user db) q = (res, st)" by fastforce
    with exec_construct_left [OF r] assms PQuery FConstruct show ?thesis
      by (intro read [of q st]) (auto simp: execute_parsed_def Let_def split: sum.splits)
  qed
next
  case (PUpdate up)
  with assms update show ?thesis by (simp add: execute_parsed_def)
qed

subsection \<open>The gate\<close>

lemma sparql_request_Inr:
  "sparql_request rq = Inr (p, kind) \<longleftrightarrow>
     parse (rq_signal rq) = Inr p \<and>
     ((\<exists>q. p = PQuery q) \<and> rq_kind rq = RQuery \<and> kind = Read
      \<or> (\<exists>up. p = PUpdate up) \<and> rq_kind rq = RExecute \<and> kind = Write)"
  by (auto simp: sparql_request_def split: sum.splits parsed.splits request_kind.splits)

lemma gate_cases:
  assumes "gate_and_run_sparql x u j reg env peer rq cap db = (out, db')"
  obtains (bad) message where "out = SBadRequest message" "db' = db"
  | (refused) reason d db1 where "out = SDenied reason" "nd_user db' = nd_user db" "nd_applied db' = nd_applied db"
  | (allowed) p kind d db1 k db2 where "sparql_request rq = Inr (p, kind)"
      "decide_on j reg env \<lparr>rq_peer = peer, rq_action = (if kind = Read then ''read'' else ''write''),
         rq_footprint = sparql_footprint kind, rq_statement = rq_signal rq\<rparr> db = (d, db1)"
      "dc_decision d = Allow"
      "audit_full_dir env ''in'' peer (id_string u rq) (rq_signal rq) (sx_json x (sparql_footprint kind)) ''allow''
         (dc_decided_by d) None (ne_duration_ms env) db1 = (k, db2)"
      "execute_parsed x env (id_string u rq) p cap db2 = (out, db')"
proof (cases "sparql_request rq")
  case (Inl message)
  with assms show ?thesis by (intro bad [of message]) (simp_all add: gate_and_run_sparql_def)
next
  case (Inr pk)
  obtain p kind where pk: "pk = (p, kind)" by fastforce
  let ?arq = "\<lparr>rq_peer = peer, rq_action = (if kind = Read then ''read'' else ''write''),
         rq_footprint = sparql_footprint kind, rq_statement = rq_signal rq\<rparr>"
  obtain d db1 where d: "decide_on j reg env ?arq db = (d, db1)" by fastforce
  obtain str reason where s: "sparql_decision_str (dc_decision d) = (str, reason)" by fastforce
  obtain k db2 where k: "audit_full_dir env ''in'' peer (id_string u rq) (rq_signal rq) (sx_json x (sparql_footprint kind)) str
         (dc_decided_by d) reason (ne_duration_ms env) db1 = (k, db2)" by fastforce
  have keep: "nd_user db2 = nd_user db" "nd_applied db2 = nd_applied db"
    using audit_keeps_eq [OF k] decide_on_keeps_eq [OF d] by simp_all
  note g = assms [unfolded gate_and_run_sparql_def Let_def Inr pk sum.case prod.case d s audit_full_def k snd_conv]
  show ?thesis
  proof (cases "dc_decision d = Allow")
    case True
    with s have "str = ''allow''" "reason = None" by simp_all
    with True g k d Inr pk show ?thesis by (intro allowed) auto
  next
    case False
    with g have "db' = db2" "\<exists>r. out = SDenied r" by (auto split: decision.splits)
    with keep refused show ?thesis by auto
  qed
qed

subsection \<open>The frames\<close>

text \<open>The row of a solution.\<close>

definition solution_row :: "string list \<Rightarrow> nat \<Rightarrow> solution \<Rightarrow> row" where
  "solution_row vars n row =
     \<lparr>row_seq = int n,
      row_cells = List.map_filter (\<lambda>(v, t). map_option (\<lambda>t. (v, Text (nt_term t))) t) (zip vars row)\<rparr>"

lemma solution_cells_row:
  "fst (solution_cells ps) = List.map_filter (\<lambda>(v, t). map_option (\<lambda>t. (v, Text (nt_term t))) t) ps"
  by (induction ps rule: solution_cells.induct)
    (auto simp: List.map_filter_simps term_value_def split: option.split prod.split)

fun solution_rows :: "string list \<Rightarrow> nat \<Rightarrow> solution list \<Rightarrow> row list" where
  "solution_rows vars n [] = []"
| "solution_rows vars n (row # rows) = solution_row vars n row # solution_rows vars (Suc n) rows"

lemma solution_rows_length [simp]: "length (solution_rows vars n rows) = length rows"
  by (induction rows arbitrary: n) simp_all

lemma solution_rows_nth: "k < length rows \<Longrightarrow> solution_rows vars n rows ! k = solution_row vars (n + k) (rows ! k)"
  by (induction rows arbitrary: n k) (auto simp: nth_Cons split: nat.split)

lemma solution_rows_ok: "rows_ok vars (int n) (solution_rows vars n rows)"
proof (induction rows arbitrary: n)
  case (Cons row rows)
  have "fst ` set (row_cells (solution_row vars n row)) \<subseteq> set vars"
    by (auto simp: solution_row_def List.map_filter_def dest: set_zip_leftD)
  with Cons [of "Suc n"] show ?case by (simp add: solution_row_def add.commute)
qed simp

lemma select_frames_rows:
  assumes "batch = [] \<or> length batch < nc_rows_per_frame cfg"
  shows "concat (select_frames cfg vars rows n batch bytes) = batch @ solution_rows vars n rows
    \<and> [] \<notin> set (select_frames cfg vars rows n batch bytes)
    \<and> (0 < nc_rows_per_frame cfg \<longrightarrow> (\<forall>b \<in> set (select_frames cfg vars rows n batch bytes).
          length b \<le> nc_rows_per_frame cfg))"
  using assms
proof (induction rows arbitrary: n batch bytes)
  case (Cons row rows)
  obtain cells est where c: "solution_cells (zip vars row) = (cells, est)" by fastforce
  then have r: "\<lparr>row_seq = int n, row_cells = cells\<rparr> = solution_row vars n row"
    using solution_cells_row [of "zip vars row"] by (simp add: solution_row_def)
  let ?b = "batch @ [solution_row vars n row]"
  have l: "0 < nc_rows_per_frame cfg \<longrightarrow> length ?b \<le> nc_rows_per_frame cfg" using Cons.prems by auto
  show ?case
  proof (cases "nc_rows_per_frame cfg \<le> length ?b \<or> nc_frame_byte_budget cfg \<le> bytes + (32 + est)")
    case True
    with Cons.IH [of "[]" "Suc n" 0] l show ?thesis by (simp add: c r)
  next
    case False
    with Cons.IH [of ?b "Suc n" "bytes + (32 + est)"] l show ?thesis by (simp add: c r)
  qed
qed auto

lemma graph_chunks_ok:
  "graphs_ok i (int n) (graph_chunks x cfg i ts n chunk bytes)
   \<and> (n = 0 \<or> chunk \<noteq> [] \<longrightarrow> graph_chunks x cfg i ts n chunk bytes \<noteq> [])
   \<and> concat (map gr_payload (graph_chunks x cfg i ts n chunk bytes)) = chunk @ ts"
proof (induction ts arbitrary: n chunk bytes)
  case (Cons t ts)
  from Cons [of "Suc n" "[]" 0] Cons [of n "chunk @ [t]" "bytes + sx_estimate x t"]
  show ?case by (auto simp: Let_def add.commute)
qed auto

lemma outcome_shape: "response_shape i (outcome_frames x cfg i out)"
proof (cases out)
  case (SSelect vars rows cut)
  have "response_shape i (sparql_header i vars # map Row (select_frames cfg vars rows 0 [] 0)
      @ [sparql_done i (int (length rows)) None cut])"
    unfolding sparql_header_def
    using select_frames_rows [of "[]" cfg vars rows 0 0] solution_rows_ok [of vars 0 rows]
    by (intro response_shape.table) (simp_all add: trailer_def sparql_done_def)
  then show ?thesis by (simp add: outcome_frames_def SSelect)
next
  case (SAsk b)
  have "response_shape i (sparql_header i [''ask''] # map Row [[\<lparr>row_seq = 0, row_cells = [(''ask'', Integer (if b then 1 else 0))]\<rparr>]]
      @ [sparql_done i 1 None False])"
    unfolding sparql_header_def by (intro response_shape.table) (simp_all add: trailer_def sparql_done_def)
  then show ?thesis by (simp add: outcome_frames_def SAsk)
next
  case (SConstruct ts)
  then show ?thesis using graph_chunks_ok [where n = 0 and i = i and ts = ts and chunk = "[]" and bytes = 0 and x = x and cfg = cfg]
    by (auto simp: outcome_frames_def trailer_def sparql_done_def intro!: response_shape.graphs)
next
  case (SUpdated n)
  have "response_shape i (sparql_header i [] # map Row [] @ [sparql_done i 0 (Some n) False])"
    unfolding sparql_header_def by (intro response_shape.table) (simp_all add: trailer_def sparql_done_def)
  then show ?thesis by (simp add: outcome_frames_def SUpdated)
qed (auto simp: outcome_frames_def lone_def id_ok_def intro!: response_shape.single)

end
