(* ===== verification/Graph_Properties.thy ===== *)
theory Graph_Properties
  imports Graph_Lane Sparql_Reads Sparql_Eval Pipeline_Properties
begin

text \<open>The properties of the \<open>sparql\<close> lane, each with a run of a small node.\<close>

subsection \<open>A small graph node\<close>

definition graph_triple :: Sparql_Serialize.triple where
  "graph_triple = (term_iri ''s'', term_iri ''p'', term_lit ''o'')"

definition graph_update :: string where
  "graph_update = ''INSERT DATA {'' @ concat (map nt_triple [graph_triple]) @ ''}''"

definition graph_up :: update where
  "graph_up = \<lparr>up_kind = InsertData, up_triples = [pattern_of graph_triple]\<rparr>"

definition graph_ext :: sparql_ext where
  "graph_ext =
     \<lparr>sx_run = (\<lambda>_ st _. (Inr [], st)), sx_json = (\<lambda>_. ''{}''), sx_begin = (\<lambda>_. None), sx_commit = (\<lambda>_. None),
      sx_outcome_json = show_int, sx_outcome = parse_i64, sx_iri_ok = (\<lambda>_. True), sx_label_ok = (\<lambda>_. True),
      sx_lang = Some, sx_estimate = (\<lambda>_. 1)\<rparr>"

definition graph_db :: "rdf_store node_db" where
  "graph_db =
     \<lparr>nd_auth = nd_auth toy_db, nd_audit = Some [], nd_applied = Some [], nd_budget = Some [],
      nd_media = Some [],
      nd_projection = Some [], nd_modulations = Some [], nd_user = empty_store\<rparr>"

definition graph_request :: request where
  "graph_request = (toy_request graph_update)\<lparr>rq_kind := RExecute\<rparr>"

abbreviation graph_serve :: "rdf_store node_db \<Rightarrow> rdf_store node_db \<times> stream" where
  "graph_serve db \<equiv> serve_sparql graph_ext toy_ulid toy_json toy_registry node_config_default toy_env toy_env
     (\<lambda>d. d) ''p'' graph_request db toy_stream"

lemma graph_parse: "parse graph_update = Inr (PUpdate graph_up)"
proof -
  have "list_all ok_triple [graph_triple]"
    by (simp add: ok_triple_def graph_triple_def ok_term_def ok_iri_def term_iri_def term_lit_def)
  from insert_data_back [OF this] show ?thesis by (simp add: graph_update_def graph_up_def)
qed

lemma graph_run:
  "run_update run graph_up empty_store =
     (Inr 1, \<lparr>rs_terms = [(1, term_iri ''s''), (2, term_iri ''p''), (3, term_lit ''o'')], rs_triples = [(1, 2, 3)]\<rparr>)"
  by (simp add: run_update_def graph_up_def graph_triple_def pattern_of_def slot_of_def ground_def ground_slot_def
      store_triple_def intern_term_def insert_or_ignore_term_def max_id_def lookup_term_id_def empty_store_def
      insert_triple_def term_iri_def term_lit_def K_IRI_def K_LIT_def K_BNODE_def Let_def)

lemma graph_served:
  "fst (graph_serve graph_db) = graph_db\<lparr>nd_audit := nd_audit (fst (graph_serve graph_db)),
     nd_applied := Some [\<lparr>al_request_id = ''r1'', al_at = now_rfc3339 toy_env, al_outcome = show_int 1\<rparr>],
     nd_user := \<lparr>rs_terms = [(1, term_iri ''s''), (2, term_iri ''p''), (3, term_lit ''o'')], rs_triples = [(1, 2, 3)]\<rparr>\<rparr>"
proof -
  have i: "rq_signal graph_request = graph_update" "rq_kind graph_request = RExecute"
    by (simp_all add: graph_request_def toy_request_def)
  have r: "sparql_request graph_request = Inr (PUpdate graph_up, Write)"
    by (simp add: sparql_request_def i graph_parse)
  show ?thesis
    by (simp add: serve_sparql_def gate_and_run_sparql_def r execute_parsed_def run_update_idempotent_def graph_ext_def
        graph_db_def toy_db_def toy_json_def toy_registry_def toy_ulid_def toy_env_def serve_defs run_chain.simps
        recorded_update_def recorded_outcome_def insert_applied_def graph_run i)
qed

lemma graph_served_user: "nd_user (fst (graph_serve graph_db)) \<noteq> empty_store"
  by (subst graph_served) (simp add: empty_store_def)

subsection \<open>What a request may change\<close>

text \<open>C14. Serving a \<open>sparql\<close> request changes the stored graph only when the
  peer is known and the chain, asked about the store's tables, allowed what the request's text
  is: a write for an update in an Execute, a read for a query in a Query. The new store is then
  what that update makes of the old one, with the update's count on record under the id, or
  what SQLite's run of that query's compiled text left (queries run on the writable connection,
  where a read right is all that stands before the text). A well-formed store stays so, as long as
  the runs of compiled texts keep it so.\<close>

lemma store_changes_only_as_granted:
  assumes "serve_sparql x u j reg cfg env env' between peer rq db c = (db', c')"
    and "nd_user db' \<noteq> nd_user db" "nd_user db' \<noteq> nd_user (between db)"
  shows "peer_known db peer
    \<and> (\<exists>kind d db1. decide_on j reg env' \<lparr>rq_peer = peer, rq_action = (if kind = Read then ''read'' else ''write''),
           rq_footprint = sparql_footprint kind, rq_statement = rq_signal rq\<rparr> (between db) = (d, db1)
         \<and> dc_decision d = Allow
         \<and> (kind = Write \<and> rq_kind rq = RExecute
              \<and> (\<exists>n. update_text (sx_run x) (rq_signal rq) (nd_user (between db)) = (Inr n, nd_user db')
                   \<and> recorded_outcome db' (id_string u rq) = Inr (Some (sx_outcome_json x n)))
            \<or> kind = Read \<and> rq_kind rq = RQuery
              \<and> (\<exists>q. parse (rq_signal rq) = Inr (PQuery q)
                   \<and> query_left (sx_run x) q (nd_user (between db)) (nd_user db'))))
    \<and> (store_ok (nd_user (between db)) \<and> labels_ok (nd_user (between db)) \<and> runner_ok (sx_run x)
         \<longrightarrow> store_ok (nd_user db') \<and> labels_ok (nd_user db'))"
proof -
  have known: "peer_known db peer"
    using assms(1,2) by (auto simp: serve_sparql_def audit_direct_def audit_direct_dir_def Let_def split: if_splits)
  obtain out where g: "gate_and_run_sparql x u j reg env' peer rq
      (lm_row_cap (effective_limits (rq_options rq) cfg)) (between db) = (out, db')"
    using assms(1) known by (auto simp: serve_sparql_def Let_def split: prod.splits)
  then show ?thesis
  proof (cases rule: gate_cases)
    case (allowed p kind d db1 k db2)
    have same: "nd_user db2 = nd_user (between db)"
      using audit_keeps_eq [OF allowed(4)] decide_on_keeps_eq [OF allowed(2)] by simp
    from allowed(5) show ?thesis
    proof (cases rule: execute_parsed_cases)
      case (read q st)
      have r: "parse (rq_signal rq) = Inr (PQuery q)" "rq_kind rq = RQuery" "kind = Read"
        using allowed(1) read(1) by (auto simp: sparql_request_Inr)
      have l: "query_left (sx_run x) q (nd_user (between db)) (nd_user db')"
        using read(2,4) same assms(3) by auto
      with query_left_keeps [OF _ _ _ l] known r allowed(2,3) show ?thesis by auto
    next
      case (update up)
      from update(2) obtain n where n: "run_update (sx_run x) up (nd_user db2) = (Inr n, nd_user db')"
          "recorded_outcome db' (id_string u rq) = Inr (Some (sx_outcome_json x n))"
        using assms(3) same by (cases rule: update_cases) auto
      from allowed(1) update(1) have r: "parse (rq_signal rq) = Inr (PUpdate up)" "rq_kind rq = RExecute" "kind = Write"
        by (auto simp: sparql_request_Inr)
      have t: "update_text (sx_run x) (rq_signal rq) (nd_user (between db)) = (Inr n, nd_user db')"
        using n(1) same r(1) by (simp add: update_text_def)
      from update_text_keeps [OF _ _ _ t] known r t n(2) allowed(2,3) show ?thesis by auto
    qed
  qed (use assms(3) in auto)
qed

lemma graph_db_ok: "store_ok (nd_user graph_db)" "labels_ok (nd_user graph_db)"
  by (simp_all add: graph_db_def store_ok_def labels_ok_def empty_store_def term_at_def)

lemma graph_runner_ok: "runner_ok (sx_run graph_ext)"
  by (simp add: runner_ok_def graph_ext_def)

lemma store_changes_only_as_granted_witness:
  "\<exists>d db1. decide_on toy_json toy_registry toy_env \<lparr>rq_peer = ''p'', rq_action = ''write'',
       rq_footprint = sparql_footprint Write, rq_statement = graph_update\<rparr> graph_db = (d, db1)
     \<and> dc_decision d = Allow \<and> store_ok (nd_user (fst (graph_serve graph_db)))"
proof -
  obtain db' c' where e: "graph_serve graph_db = (db', c')" by fastforce
  have n: "nd_user db' \<noteq> nd_user graph_db"
    using graph_served_user e by (simp add: graph_db_def)
  from store_changes_only_as_granted [OF e n n] graph_db_ok graph_runner_ok e show ?thesis
    by (auto simp: graph_request_def toy_request_def)
qed

text \<open>C23. Of two updates under one request id, the second changes nothing and repeats the
  count of the first, as long as the first one's record is there.\<close>

lemma sparql_update_applied_once:
  assumes "\<forall>n. is_i64 n \<longrightarrow> sx_outcome x (sx_outcome_json x n) = Some n"
    and "run_update_idempotent x env i up db = (SUpdated n, db1)" "recorded_update x db i = None" "is_i64 n"
    and "recorded_outcome db2 i = recorded_outcome db1 i"
  shows "run_update_idempotent x env' i up' db2 = (SUpdated n, db2)"
  using assms(2)
proof (cases rule: update_cases)
  case (applied m st)
  with assms(1,4,5) have "recorded_update x db2 i = Some n" by (simp add: recorded_update_def)
  then show ?thesis by (simp add: run_update_idempotent_def)
qed (use assms(3) in auto)

lemma sparql_update_applied_once_witness:
  "\<exists>db1. run_update_idempotent graph_ext toy_env ''r1'' graph_up graph_db = (SUpdated 1, db1)
     \<and> run_update_idempotent graph_ext toy_env ''r1'' graph_up db1 = (SUpdated 1, db1)"
proof -
  obtain db1 where e: "run_update_idempotent graph_ext toy_env ''r1'' graph_up graph_db = (SUpdated 1, db1)"
    by (simp add: run_update_idempotent_def recorded_update_def recorded_outcome_def graph_db_def graph_ext_def
        graph_run insert_applied_def)
  have l: "\<forall>n. is_i64 n \<longrightarrow> sx_outcome graph_ext (sx_outcome_json graph_ext n) = Some n"
    by (simp add: graph_ext_def parse_i64_show_int)
  from sparql_update_applied_once [OF l e _ _ refl] e show ?thesis
    by (auto simp: recorded_update_def recorded_outcome_def graph_db_def is_i64_def)
qed

text \<open>C34. A request that is answered with anything but an applied update leaves the
  record of applied writes as it is. It leaves the store as it is too, be it refused, malformed
  or a failed update, unless it is an allowed query, whose compiled text SQLite runs on the
  writable connection: then the store is what that run left.\<close>

lemma sparql_errors_change_nothing:
  assumes "gate_and_run_sparql x u j reg env peer rq cap db = (out, db')" "\<forall>n. out \<noteq> SUpdated n"
  shows "nd_applied db' = nd_applied db
    \<and> (nd_user db' = nd_user db
       \<or> rq_kind rq = RQuery \<and> (\<forall>reason. out \<noteq> SDenied reason) \<and> (\<forall>message. out \<noteq> SBadRequest message)
         \<and> (\<exists>q. parse (rq_signal rq) = Inr (PQuery q) \<and> query_left (sx_run x) q (nd_user db) (nd_user db')))"
  using assms(1)
proof (cases rule: gate_cases)
  case (allowed p kind d db1 k db2)
  have same: "nd_user db2 = nd_user db" "nd_applied db2 = nd_applied db"
    using audit_keeps_eq [OF allowed(4)] decide_on_keeps_eq [OF allowed(2)] by simp_all
  have ran: "(\<forall>reason. out \<noteq> SDenied reason) \<and> (\<forall>message. out \<noteq> SBadRequest message)"
    if "p = PQuery q" for q
    using allowed(5) that
    by (auto simp: execute_parsed_def Let_def split: form.splits prod.splits sum.splits)
  from allowed(5) show ?thesis
  proof (cases rule: execute_parsed_cases)
    case (read q st)
    have "parse (rq_signal rq) = Inr (PQuery q)" "rq_kind rq = RQuery"
      using allowed(1) read(1) by (auto simp: sparql_request_Inr)
    with read same ran [OF read(1)] show ?thesis by auto
  next
    case (update up)
    from update(2) assms(2) have "db' = db2" by (cases rule: update_cases) auto
    with same show ?thesis by simp
  qed
qed auto

lemma sparql_errors_change_nothing_witness:
  "nd_user (snd (gate_and_run_sparql graph_ext toy_ulid toy_json toy_registry toy_env ''p''
      (graph_request\<lparr>rq_kind := RQuery\<rparr>) 10 graph_db)) = empty_store"
proof -
  let ?g = "gate_and_run_sparql graph_ext toy_ulid toy_json toy_registry toy_env ''p'' (graph_request\<lparr>rq_kind := RQuery\<rparr>) 10 graph_db"
  have "\<exists>message. fst ?g = SBadRequest message"
    by (simp add: gate_and_run_sparql_def sparql_request_def graph_request_def toy_request_def graph_parse)
  then obtain message db' where e: "?g = (SBadRequest message, db')" by (metis prod.collapse)
  from sparql_errors_change_nothing [OF e] e show ?thesis by (simp add: graph_db_def)
qed

subsection \<open>The answer\<close>

text \<open>C15. The whole response to a \<open>sparql\<close> request, what a stream that takes every
  frame gets, is one the protocol's reader accepts to its end. A client that stays gets that
  response up to the first frame its stream refuses (on iroh and the owner's socket, one above
  the frame limit, such as a row or a graph with one very long literal), so what it gets is
  accepted to its end exactly when every frame of the response can be encoded.\<close>

lemma sparql_response_completes:
  "let serve = (\<lambda>c. ch_sent (snd (serve_sparql x u j reg cfg env env' between peer rq db c)));
       whole = serve (stream_new (\<lambda>_. True) ahead);
       got = serve (stream_new fits ahead)
   in completes (reader_new (id_string u rq)) whole \<and> got = takeWhile fits whole
    \<and> (completes (reader_new (id_string u rq)) got \<longleftrightarrow> list_all fits whole)"
  unfolding Let_def
proof (rule part_of_response)
  let ?i = "id_string u rq"
  show "\<exists>whole. completes (reader_new ?i) whole
    \<and> (\<forall>fits. ch_sent (snd (serve_sparql x u j reg cfg env env' between peer rq db (stream_new fits ahead))) = takeWhile fits whole)"
  proof (cases "peer_known db peer")
    case False
    then show ?thesis
      by (simp add: serve_sparql_def Let_def send_denied_def lone_sends lone_def id_ok_def del: send_all.simps)
  next
    case True
    obtain out db' where "gate_and_run_sparql x u j reg env' peer rq
      (lm_row_cap (effective_limits (rq_options rq) cfg)) (between db) = (out, db')" by fastforce
    with True show ?thesis
      by (simp add: serve_sparql_def Let_def stream_sparql_outcome_def shape_sends [OF outcome_shape] del: send_all.simps)
  qed
qed

text \<open>C32. The answer to a SELECT holds the first solutions up to the row limit, in order, a cell
  for every bound variable; \<open>Done\<close> counts the rows and says whether any were cut. The text of a
  cell reads back as the solution's term when the term is a literal, or an IRI without
  \<open>>\<close> and backslash, whose datatype has neither and whose language tag is made of letters, digits and hyphens
  (\<open>ok_term\<close>); a blank node is given by its label. Other IRIs can be stored, since the lexer
  accepts escapes, and do not read back (\<open>escaped_iri_does_not_read_back\<close>).\<close>

lemma select_answer_reads_back:
  assumes "execute_parsed x env i (PQuery q) cap db = (out, db')" "q_form q = FSelect"
    and "exec_select (sx_run x) (nd_user db) q = (Inr (vars, rows), st)"
  shows "\<exists>batches. outcome_frames x cfg i out = sparql_header i vars # map Row batches
        @ [sparql_done i (int (length (concat batches))) None (cap < int (length rows))]
     \<and> length (concat batches) = (if cap < int (length rows) then nat cap else length rows)
     \<and> (\<forall>k < length (concat batches). row_seq (concat batches ! k) = int k
          \<and> row_cells (concat batches ! k)
            = List.map_filter (\<lambda>(v, t). map_option (\<lambda>t. (v, Text (nt_term t))) t) (zip vars (rows ! k)))
     \<and> (\<forall>row \<in> set rows. \<forall>t. Some t \<in> set row \<longrightarrow> ok_term t \<longrightarrow> tm_kind t \<noteq> K_BNODE \<longrightarrow>
          parse_term_common \<lparr>cx_prefixes = [], cx_base = None\<rparr> (nt_term t @ '' '') = Inr (Some t, '' ''))"
proof -
  define out_rows where "out_rows = (if cap < int (length rows) then take (nat cap) rows else rows)"
  let ?b = "select_frames cfg vars out_rows 0 [] 0"
  have out: "out = SSelect vars out_rows (cap < int (length rows))"
    using assms by (auto simp: execute_parsed_def out_rows_def Let_def)
  have b: "concat ?b = solution_rows vars 0 out_rows"
    using select_frames_rows [of "[]" cfg vars out_rows 0 0] by simp
  have len: "length out_rows = (if cap < int (length rows) then nat cap else length rows)"
    by (cases "cap < 0") (auto simp: out_rows_def min_def)
  have nth: "out_rows ! k = rows ! k" if "k < length out_rows" for k
    using that by (auto simp: out_rows_def split: if_splits)
  have cell: "parse_term_common \<lparr>cx_prefixes = [], cx_base = None\<rparr> (nt_term t @ '' '') = Inr (Some t, '' '')"
    if "ok_term t" "tm_kind t \<noteq> K_BNODE" for t
    using nt_term_back [OF that, of "'' ''"] by (simp add: nt_term_engine stop_def peek_def)
  show ?thesis
  proof (intro exI [of _ ?b] conjI)
    show "outcome_frames x cfg i out = sparql_header i vars # map Row ?b
        @ [sparql_done i (int (length (concat ?b))) None (cap < int (length rows))]"
      by (simp only: b solution_rows_length) (simp add: out outcome_frames_def)
    show "length (concat ?b) = (if cap < int (length rows) then nat cap else length rows)"
      by (simp only: b solution_rows_length len)
    show "\<forall>k < length (concat ?b). row_seq (concat ?b ! k) = int k
          \<and> row_cells (concat ?b ! k)
            = List.map_filter (\<lambda>(v, t). map_option (\<lambda>t. (v, Text (nt_term t))) t) (zip vars (rows ! k))"
      unfolding b by (simp add: solution_rows_nth solution_row_def nth)
  qed (use cell in blast)
qed

definition graph_query :: query where
  "graph_query = query_default\<lparr>q_sel := [plain_item ''s''],
     q_pattern := Group [\<lparr>tp_s = SVar ''s'', tp_p = SVar ''p'', tp_o = SVar ''o''\<rparr>] [] [] []\<rparr>"

lemma graph_query_compiles:
  "case compile_query graph_query (\<lambda>t. 0) of Inr (sql, vars) \<Rightarrow> vars = [''s''] | Inl _ \<Rightarrow> False"
  by code_simp

lemma select_answer_reads_back_witness:
  "parse_term_common \<lparr>cx_prefixes = [], cx_base = None\<rparr> (nt_term (term_lit ''o'') @ '' '') = Inr (Some (term_lit ''o''), '' '')"
proof -
  let ?x = "graph_ext\<lparr>sx_run := (\<lambda>_ st _. (Inr [[Some (term_lit ''o'')]], st))\<rparr>"
  have ids: "lookup_term_id empty_store = (\<lambda>t. 0)" by (simp add: lookup_term_id_def empty_store_def fun_eq_iff)
  from graph_query_compiles obtain sql where "compile_query graph_query (\<lambda>t. 0) = Inr (sql, [''s''])"
    by (auto split: sum.splits)
  then have e: "exec_select (sx_run ?x) (nd_user graph_db) graph_query = (Inr ([''s''], [[Some (term_lit ''o'')]]), empty_store)"
    by (simp add: exec_select_def graph_db_def ids)
  obtain out db' where r: "execute_parsed ?x toy_env ''r1'' (PQuery graph_query) 1 graph_db = (out, db')" by fastforce
  have f: "q_form graph_query = FSelect" by (simp add: graph_query_def query_default_def)
  have "ok_term (term_lit ''o'')" by (simp add: ok_term_def ok_iri_def term_lit_def)
  moreover from select_answer_reads_back [OF r f e, of node_config_default] have
    "\<forall>row \<in> set [[Some (term_lit ''o'')]]. \<forall>t. Some t \<in> set row \<longrightarrow> ok_term t \<longrightarrow> tm_kind t \<noteq> K_BNODE \<longrightarrow>
      parse_term_common \<lparr>cx_prefixes = [], cx_base = None\<rparr> (nt_term t @ '' '') = Inr (Some t, '' '')"
    by (elim exE conjE)
  ultimately show ?thesis by (simp add: K_LIT_def K_BNODE_def)
qed

text \<open>The lexer takes an escaped \<open>>\<close> inside an IRI; the writer of terms does not escape it, so the
  text of that IRI reads as a shorter one.\<close>

lemma escaped_iri_does_not_read_back:
  "parse_term_common \<lparr>cx_prefixes = [], cx_base = None\<rparr> (''<a'' @ [CHR 0x5C] @ ''u003Eb> '') = Inr (Some (term_iri ''a>b''), '' '')"
  "parse_term_common \<lparr>cx_prefixes = [], cx_base = None\<rparr> (nt_term (term_iri ''a>b'') @ '' '') = Inr (Some (term_iri ''a''), ''b> '')"
proof -
  have u: "read_u_escape BadIriUEscape 4 ''003Eb> '' = Inr (''>'', ''b> '')" by code_simp
  show "parse_term_common \<lparr>cx_prefixes = [], cx_base = None\<rparr> (''<a'' @ [CHR 0x5C] @ ''u003Eb> '') = Inr (Some (term_iri ''a>b''), '' '')"
    by (simp add: term_iri_def u eval_parser cong: lazy)
  show "parse_term_common \<lparr>cx_prefixes = [], cx_base = None\<rparr> (nt_term (term_iri ''a>b'') @ '' '') = Inr (Some (term_iri ''a''), ''b> '')"
    by (simp add: nt_term_def term_iri_def eval_parser cong: lazy)
qed

subsection \<open>The ledger of refused requests\<close>

text \<open>A decision narrowed to a rewrite is refused by this lane, but its row in the ledger says it
  was allowed.\<close>

lemma narrowed_refusal_recorded_as_allowed:
  assumes "sparql_request rq = Inr (p, kind)" "nd_audit db \<noteq> None"
    and "decide_on j reg env \<lparr>rq_peer = peer, rq_action = (if kind = Read then ''read'' else ''write''),
         rq_footprint = sparql_footprint kind, rq_statement = rq_signal rq\<rparr> db = (d, db1)"
    and "dc_decision d = AllowNarrowed rewrite"
  shows "\<exists>db'. gate_and_run_sparql x u j reg env peer rq cap db = (SDenied NARROWED_REASON, db')
    \<and> au_decision (last (ledger db')) = ''allow''"
proof -
  have "nd_audit db1 \<noteq> None" using decide_on_keeps_eq [OF assms(3)] assms(2) by simp
  with assms(1,3,4) show ?thesis
    by (auto simp: gate_and_run_sparql_def audit_full_def audit_full_dir_def ledger_def Let_def)
qed

text \<open>A request that does not parse, or rides the wrong envelope, leaves no row in the ledger.\<close>

lemma bad_sparql_request_leaves_no_row:
  "sparql_request rq = Inl e \<Longrightarrow> gate_and_run_sparql x u j reg env peer rq cap db = (SBadRequest e, db)"
  by (simp add: gate_and_run_sparql_def)

end
