(* ===== verification/Projection.thy ===== *)
theory Projection
  imports Pipeline_Serve "HOL-Library.Product_Lexorder" "HOL-Library.List_Lexorder" "HOL-Library.Char_ord"
begin

text \<open>
  The projection modulation (\<open>crates/node/src/projection.rs\<close>, \<open>serve_projection_lane\<close> of
  \<open>pipeline.rs\<close>): the owner's points at a path, filtered by what the caller may do.

  JSON texts are read by \<open>serde_json\<close>, a third-party package: the parser is a parameter, and
  its values are the type \<open>json\<close>.
\<close>

subsection \<open>JSON values\<close>

datatype json =
    JNull
  | JBool bool
  | JInt int
  | JFloat f64
  | JStr string
  | JArr "json list"
  | JObj "(string \<times> json) list"

fun json_obj :: "json \<Rightarrow> (string \<times> json) list option" where
  "json_obj (JObj o1) = Some o1"
| "json_obj _ = None"

fun json_str :: "json \<Rightarrow> string option" where
  "json_str (JStr s) = Some s"
| "json_str _ = None"

fun json_bool :: "json \<Rightarrow> bool option" where
  "json_bool (JBool b) = Some b"
| "json_bool _ = None"

fun json_arr :: "json \<Rightarrow> json list option" where
  "json_arr (JArr xs) = Some xs"
| "json_arr _ = None"

text \<open>An integer outside \<open>i64\<close> is a \<open>u64\<close> and becomes the nearest double.\<close>

fun json_to_value :: "json \<Rightarrow> wire_value option" where
  "json_to_value (JStr s) = Some (Text s)"
| "json_to_value (JInt i) =
     Some (if is_i64 i then Integer i else Real (mk_f64 (i < 0) (round_mag (nat \<bar>i\<bar>) 1)))"
| "json_to_value (JFloat f) = Some (Real f)"
| "json_to_value (JBool b) = Some (Integer (if b then 1 else 0))"
| "json_to_value _ = None"

subsection \<open>Points\<close>

definition PROJECTION_CHANGED :: string where
  "PROJECTION_CHANGED = ''urn:rsntr:projection-changed''"

definition projection_changed_point :: point where
  "projection_changed_point =
     \<lparr>pt_iri = PROJECTION_CHANGED, pt_kind = Sympathetic, pt_label = Some ''projection changed'',
      pt_comment = None, pt_icon = None, pt_role = None, pt_projects = None, pt_coupling = [],
      pt_modulation = None, pt_signal = None, pt_params_order = [], pt_signal_template = None, pt_fires = None\<rparr>"

definition expand_datatype :: "string \<Rightarrow> string" where
  "expand_datatype s =
     (case strip_prefix ''xsd:'' s of
        Some local \<Rightarrow> XSD_NS @ local
      | None \<Rightarrow> if CHR '':'' \<in> set s then s else XSD_NS @ s)"

definition parse_field :: "json \<Rightarrow> point_field option" where
  "parse_field item =
     Option.bind (json_obj item) (\<lambda>ob.
     Option.bind (map_of ob ''name'') (\<lambda>n.
     Option.bind (json_str n) (\<lambda>name.
       Some \<lparr>pf_name = name,
         pf_datatype = map_option expand_datatype (Option.bind (map_of ob ''datatype'') json_str),
         pf_required = (case Option.bind (map_of ob ''required'') json_bool of Some b \<Rightarrow> b | None \<Rightarrow> False),
         pf_default = Option.bind (map_of ob ''default'') json_to_value,
         pf_one_of = (case Option.bind (map_of ob ''one_of'') json_arr of
            Some xs \<Rightarrow> List.map_filter json_to_value xs | None \<Rightarrow> []),
         pf_hint = Option.bind (map_of ob ''hint'') json_str\<rparr>)))"

definition parse_fields :: "(string \<Rightarrow> json option) \<Rightarrow> string option \<Rightarrow> point_field list" where
  "parse_fields read raw =
     (case Option.bind (Option.bind raw read) json_arr of
        None \<Rightarrow> [] | Some items \<Rightarrow> List.map_filter parse_field items)"

text \<open>An array of strings and nothing else.\<close>

definition parse_string_array :: "(string \<Rightarrow> json option) \<Rightarrow> string option \<Rightarrow> string list" where
  "parse_string_array read raw =
     (case Option.bind (Option.bind raw read) json_arr of
        None \<Rightarrow> []
      | Some items \<Rightarrow>
          let strs = List.map_filter json_str items in if length strs = length items then strs else [])"

definition parse_kind :: "string \<Rightarrow> point_kind" where
  "parse_kind kind =
     (if kind = ''excitable'' then Excitable
      else if kind = ''radiant'' then Radiant
      else if kind = ''sympathetic'' then Sympathetic
      else if kind = ''bare'' then Bare
      else if CHR '':'' \<in> set kind then Other kind
      else Bare)"

definition row_to_point :: "(string \<Rightarrow> json option) \<Rightarrow> projection_row \<Rightarrow> point" where
  "row_to_point read r =
     \<lparr>pt_iri = pr_point_iri r, pt_kind = parse_kind (pr_kind r), pt_label = pr_label r, pt_comment = None,
      pt_icon = pr_icon r, pt_role = pr_role r, pt_projects = pr_projects_path r,
      pt_coupling = parse_fields read (pr_fields r), pt_modulation = pr_modulation r,
      pt_signal = pr_signal r, pt_params_order = parse_string_array read (pr_params_order r),
      pt_signal_template = pr_signal_template r, pt_fires = pr_fires r\<rparr>"

subsection \<open>The filter\<close>

definition actions_for_kind :: "string \<Rightarrow> string list" where
  "actions_for_kind kind =
     (if kind = ''excitable'' then [''write'']
      else if kind = ''sympathetic'' then [''entrain'', ''read'']
      else [''read''])"

definition modulation_is :: "string \<Rightarrow> string option \<Rightarrow> bool" where
  "modulation_is name m = (case m of None \<Rightarrow> False | Some m \<Rightarrow> mod_matches name m)"

definition point_actions :: "string \<Rightarrow> string option \<Rightarrow> string list" where
  "point_actions kind modulation =
     actions_for_kind kind
     @ (if modulation_is ''chat'' modulation then [''chat''] else [])
     @ (if modulation_is ''media'' modulation then [''media''] else [])
     @ (if modulation_is ''audio-duplex'' modulation then [''audio-duplex''] else [])"

definition allow_row :: "string \<Rightarrow> string \<Rightarrow> string \<Rightarrow> policy_row \<Rightarrow> bool" where
  "allow_row action resource peer r \<longleftrightarrow>
     po_effect r = ''allow'' \<and> po_action r = action
     \<and> (po_table r = resource \<or> po_table r = ''*'') \<and> (po_peer r = peer \<or> po_peer r = ''*'')"

definition no_table :: "string \<Rightarrow> sqlite_error" where
  "no_table name = SqliteFailure OtherCode (''no such table: '' @ name)"

definition visible :: "'u node_db \<Rightarrow> string \<Rightarrow> string \<Rightarrow> string option \<Rightarrow> string option
    \<Rightarrow> (sqlite_error, bool) result" where
  "visible db peer kind modulation resource =
     (case resource of
        None \<Rightarrow> Inr True
      | Some res \<Rightarrow>
          (case db_policy (nd_auth db) of
             None \<Rightarrow> Inl (no_table ''_policy'')
           | Some rows \<Rightarrow>
               Inr (list_ex (\<lambda>a. list_ex (allow_row a res peer) rows) (point_actions kind modulation))))"

subsection \<open>Building\<close>

datatype projection_outcome = UnknownPath | Built projection

definition rows_at :: "string \<Rightarrow> projection_row list \<Rightarrow> projection_row list" where
  "rows_at path rows =
     sort_key (\<lambda>r. (pr_ord r, pr_point_iri r)) (filter (\<lambda>r. pr_path r = path) rows)"

fun offered :: "'u node_db \<Rightarrow> (string \<Rightarrow> json option) \<Rightarrow> string \<Rightarrow> bool \<Rightarrow> projection_row list
    \<Rightarrow> (sqlite_error, point list) result" where
  "offered db read peer unfiltered [] = Inr []"
| "offered db read peer unfiltered (r # rows) =
     rbind (if unfiltered then Inr True else visible db peer (pr_kind r) (pr_modulation r) (pr_resource r)) (\<lambda>v.
       rbind (offered db read peer unfiltered rows) (\<lambda>points.
         Inr (if v then row_to_point read r # points else points)))"

definition build_projection ::
  "'u node_db \<Rightarrow> (string \<Rightarrow> json option) \<Rightarrow> string \<Rightarrow> string \<Rightarrow> string \<Rightarrow> bool
    \<Rightarrow> (sqlite_error, projection_outcome) result" where
  "build_projection db read peer i path unfiltered =
     (let p = trim path
      in case nd_projection db of
           None \<Rightarrow> Inl (no_table ''_projection'')
         | Some table \<Rightarrow>
             let rows = rows_at p table
             in if rows = [] \<and> p \<noteq> [] then Inr UnknownPath
                else rbind (offered db read peer unfiltered rows) (\<lambda>offers.
                  Inr (Built \<lparr>pj_id = (if i = [] then None else Some i),
                    pj_offers = offers @ (if p = [] then [projection_changed_point] else [])\<rparr>)))"

text \<open>\<open>dbg\<close> is the \<open>Debug\<close> form of a text. The requests's id, the answer's frame and the ledger row.\<close>

definition lane_direction :: "lane \<Rightarrow> string" where
  "lane_direction lane = (case lane of Owner \<Rightarrow> ''local'' | Remote \<Rightarrow> ''in'')"

definition lane_decider :: "lane \<Rightarrow> string" where
  "lane_decider lane = (case lane of Owner \<Rightarrow> ''owner'' | Remote \<Rightarrow> ''node'')"

definition serve_projection_lane ::
  "(string \<Rightarrow> string) \<Rightarrow> (string \<Rightarrow> json option) \<Rightarrow> node_env \<Rightarrow> lane \<Rightarrow> string \<Rightarrow> string \<Rightarrow> string
    \<Rightarrow> 'u node_db \<Rightarrow> stream \<Rightarrow> 'u node_db \<times> stream" where
  "serve_projection_lane dbg read env lane peer i path db c =
     (let out = build_projection db read peer i path (lane = Owner);
          (decision, reason) = (case out of
             Inr (Built p) \<Rightarrow> (''allow'', ''projection at path '' @ dbg path)
           | Inr UnknownPath \<Rightarrow> (''deny'', ''unknown projection path '' @ dbg path)
           | Inl e \<Rightarrow> (''deny'', ''projection build failed: '' @ err_text e));
          db' = audit_direct_dir env (lane_direction lane) peer i ''projection'' decision (lane_decider lane) reason db
      in (db', case out of
             Inr (Built p) \<Rightarrow> send_all c [Envelope_Types.Projection p]
           | Inr UnknownPath \<Rightarrow> send_error c (Some i) PointUnknown (''no projection at path '' @ dbg path)
           | Inl e \<Rightarrow> send_error c (Some i) EngineError (err_text e)))"

end
