(* ===== verification/Entrainments.thy ===== *)
theory Entrainments
  imports Projection
begin

text \<open>
  Entrainment (\<open>crates/node/src/entrain.rs\<close>): the registry of active entrainments with their
  signal channels, the two gates, and what feeds the signals (\<open>pipeline.rs\<close>): the update,
  commit and rollback hooks of the node's connection, and the watcher of foreign commits.

  A signal channel has capacity one and carries no value, so it is a flag: \<open>er_pending\<close> is
  set while a signal waits. The flag outlives the registry's entry, as the receiver's end of a
  channel outlives its sender. Channels are numbered by the registry's \<open>u64\<close> counter, which
  is unbounded here.
\<close>

subsection \<open>The registry\<close>

record subscription =
  su_point :: string
  su_table :: "string option"

record entrainments =
  er_subs :: "(nat \<times> subscription) list"
  er_next :: nat
  er_pending :: "nat \<Rightarrow> bool"

definition entrainments_new :: entrainments where
  "entrainments_new = \<lparr>er_subs = [], er_next = 0, er_pending = (\<lambda>_. False)\<rparr>"

definition subscribe :: "string \<Rightarrow> string option \<Rightarrow> entrainments \<Rightarrow> nat \<times> entrainments" where
  "subscribe point table en =
     (er_next en,
      en\<lparr>er_subs := (er_next en, \<lparr>su_point = point, su_table = table\<rparr>) # er_subs en, er_next := er_next en + 1,
         er_pending := (er_pending en)(er_next en := False)\<rparr>)"

definition unsubscribe :: "nat \<Rightarrow> entrainments \<Rightarrow> entrainments" where
  "unsubscribe k en = en\<lparr>er_subs := filter (\<lambda>(i, s). i \<noteq> k) (er_subs en)\<rparr>"

definition signal_where :: "(subscription \<Rightarrow> bool) \<Rightarrow> entrainments \<Rightarrow> entrainments" where
  "signal_where sel en =
     en\<lparr>er_pending := (\<lambda>k. er_pending en k \<or> list_ex (\<lambda>(i, s). i = k \<and> sel s) (er_subs en))\<rparr>"

definition signal_table :: "string \<Rightarrow> entrainments \<Rightarrow> entrainments" where
  "signal_table table = signal_where (\<lambda>s. su_table s = Some table)"

definition signal_point :: "string \<Rightarrow> entrainments \<Rightarrow> entrainments" where
  "signal_point point = signal_where (\<lambda>s. su_point s = point)"

definition active :: "entrainments \<Rightarrow> nat" where
  "active en = length (er_subs en)"

definition subscribed_tables :: "entrainments \<Rightarrow> string list" where
  "subscribed_tables en = bset_of (List.map_filter (\<lambda>(i, s). su_table s) (er_subs en))"

definition close_all :: "entrainments \<Rightarrow> entrainments" where
  "close_all en = en\<lparr>er_subs := []\<rparr>"

text \<open>The receiver's end: a signal, the end of a channel without a sender, or nothing yet.\<close>

datatype received = Signal | Closed | Waiting

definition receive :: "nat \<Rightarrow> entrainments \<Rightarrow> received \<times> entrainments" where
  "receive k en =
     (if er_pending en k then (Signal, en\<lparr>er_pending := (er_pending en)(k := False)\<rparr>)
      else if k \<in> fst ` set (er_subs en) then (Waiting, en) else (Closed, en))"

subsection \<open>The gates\<close>

datatype entrain_gate =
    EntrainUnknownPeer
  | EntrainUnknownPoint string
  | EntrainDenied string
  | EntrainAllowed "string option"

definition find_point :: "'u node_db \<Rightarrow> string \<Rightarrow> projection_row option" where
  "find_point db point =
     (case nd_projection db of None \<Rightarrow> None | Some rows \<Rightarrow> List.find (\<lambda>r. pr_point_iri r = point) rows)"

definition NO_POINT :: "string \<Rightarrow> string" where
  "NO_POINT point = ''no point <'' @ point @ ''> in this projection''"

definition NOT_SYMPATHETIC :: "string \<Rightarrow> string" where
  "NOT_SYMPATHETIC point = ''<'' @ point @ ''> is not a Sympathetic point''"

definition gate_entrain_owner :: "'u node_db \<Rightarrow> string \<Rightarrow> entrain_gate" where
  "gate_entrain_owner db point =
     (if point = PROJECTION_CHANGED then EntrainAllowed None
      else case find_point db point of
        None \<Rightarrow> EntrainUnknownPoint (NO_POINT point)
      | Some r \<Rightarrow>
          if pr_kind r \<noteq> ''sympathetic'' then EntrainUnknownPoint (NOT_SYMPATHETIC point)
          else EntrainAllowed (pr_resource r))"

definition gate_entrain :: "'u node_db \<Rightarrow> string \<Rightarrow> string \<Rightarrow> entrain_gate" where
  "gate_entrain db peer point =
     (if \<not> peer_known db peer then EntrainUnknownPeer
      else if point = PROJECTION_CHANGED then EntrainAllowed None
      else case find_point db point of
        None \<Rightarrow> EntrainUnknownPoint (NO_POINT point)
      | Some r \<Rightarrow>
          if pr_kind r \<noteq> ''sympathetic'' then EntrainUnknownPoint (NOT_SYMPATHETIC point)
          else case visible db peer (pr_kind r) (pr_modulation r) (pr_resource r) of
            Inr True \<Rightarrow> EntrainAllowed (pr_resource r)
          | Inr False \<Rightarrow> EntrainDenied (''no entrain policy for <'' @ point @ ''>'')
          | Inl e \<Rightarrow> EntrainDenied (''policy check failed: '' @ err_text e))"

subsection \<open>What feeds the signals\<close>

text \<open>The tables a change is told to besides the entrainments: the calls of the registered
  observer are the second part.\<close>

definition fanout :: "bool \<Rightarrow> string \<Rightarrow> entrainments \<Rightarrow> entrainments \<times> string list" where
  "fanout observed table en =
     (let en1 = (if table = ''_projection'' \<or> table = ''_policy'' then signal_point PROJECTION_CHANGED en else en)
      in (signal_table table en1, if observed then [table] else []))"

fun fanout_all :: "bool \<Rightarrow> string list \<Rightarrow> entrainments \<Rightarrow> entrainments \<times> string list" where
  "fanout_all observed [] en = (en, [])"
| "fanout_all observed (t # ts) en =
     (case fanout observed t en of (en1, calls) \<Rightarrow>
       (case fanout_all observed ts en1 of (en2, calls') \<Rightarrow> (en2, calls @ calls')))"

text \<open>The three hooks share the list of tables touched since the last commit or rollback.\<close>

definition on_update :: "string \<Rightarrow> string list \<Rightarrow> string list" where
  "on_update table tables = (if table \<in> set tables then tables else tables @ [table])"

definition on_commit :: "bool \<Rightarrow> string list \<Rightarrow> entrainments \<Rightarrow> (string list \<times> entrainments) \<times> string list" where
  "on_commit observed tables en =
     (case fanout_all observed tables en of (en', calls) \<Rightarrow> (([], en'), calls))"

definition on_rollback :: "string list \<Rightarrow> string list" where
  "on_rollback tables = []"

text \<open>Foreign commits: the data version and the fingerprints of two tables, given by their row
  ids.\<close>

record change_state =
  ch_data_version :: "int option"
  ch_projection_fp :: "int \<times> int"
  ch_policy_fp :: "int \<times> int"

definition change_state_default :: change_state where
  "change_state_default = \<lparr>ch_data_version = None, ch_projection_fp = (0, 0), ch_policy_fp = (0, 0)\<rparr>"

definition table_fingerprint :: "int list option \<Rightarrow> int \<times> int" where
  "table_fingerprint rowids =
     (case rowids of
        None \<Rightarrow> (0, 0)
      | Some ids \<Rightarrow> (int (length ids), if ids = [] then 0 else Max (set ids)))"

record watched =
  wa_data_version :: "int option"
  wa_projection :: "int list option"
  wa_policy :: "int list option"

definition foreign_change_scan :: "watched \<Rightarrow> change_state \<Rightarrow> change_state \<times> bool \<times> bool" where
  "foreign_change_scan w st =
     (let dv = (case wa_data_version w of Some v \<Rightarrow> v | None \<Rightarrow> 0);
          projection = table_fingerprint (wa_projection w);
          policy = table_fingerprint (wa_policy w);
          st' = \<lparr>ch_data_version = Some dv, ch_projection_fp = projection, ch_policy_fp = policy\<rparr>
      in case ch_data_version st of
           None \<Rightarrow> (st', False, False)
         | Some prev \<Rightarrow>
             if prev = dv then (st, False, False)
             else (st', True, projection \<noteq> ch_projection_fp st \<or> policy \<noteq> ch_policy_fp st))"

definition OBSERVED_TABLES :: "string list" where
  "OBSERVED_TABLES = [''_outbox'', ''chat_messages'', ''_inbox'', ''_hooks'']"

definition on_foreign_change :: "bool \<Rightarrow> bool \<Rightarrow> entrainments \<Rightarrow> entrainments \<times> string list" where
  "on_foreign_change observed projection_changed en =
     (let listened = subscribed_tables en;
          tables = listened @ filter (\<lambda>t. t \<notin> set listened) OBSERVED_TABLES;
          en1 = fold signal_table tables en
      in (if projection_changed then signal_point PROJECTION_CHANGED en1 else en1,
          if observed then tables else []))"

subsection \<open>What signalling does\<close>

lemma signal_where_sel [simp]:
  "er_subs (signal_where sel en) = er_subs en" "er_next (signal_where sel en) = er_next en"
  "er_pending (signal_where sel en) k \<longleftrightarrow>
     er_pending en k \<or> (\<exists>s. (k, s) \<in> set (er_subs en) \<and> sel s)"
  by (auto simp: signal_where_def list_ex_iff)

lemma signal_sel [simp]:
  "er_subs (signal_table t en) = er_subs en" "er_next (signal_table t en) = er_next en"
  "er_subs (signal_point p en) = er_subs en" "er_next (signal_point p en) = er_next en"
  "er_pending (signal_table t en) k \<longleftrightarrow>
     er_pending en k \<or> (\<exists>s. (k, s) \<in> set (er_subs en) \<and> su_table s = Some t)"
  "er_pending (signal_point p en) k \<longleftrightarrow>
     er_pending en k \<or> (\<exists>s. (k, s) \<in> set (er_subs en) \<and> su_point s = p)"
  by (simp_all add: signal_table_def signal_point_def)

text \<open>A change of a table concerns a subscription on it, and the two tables the projection is
  made of concern the subscriptions on its own point.\<close>

definition concerns :: "string \<Rightarrow> subscription \<Rightarrow> bool" where
  "concerns t s \<longleftrightarrow> su_table s = Some t
     \<or> (t = ''_projection'' \<or> t = ''_policy'') \<and> su_point s = PROJECTION_CHANGED"

lemma fanout_sel [simp]:
  "er_subs (fst (fanout b t en)) = er_subs en" "er_next (fst (fanout b t en)) = er_next en"
  "er_pending (fst (fanout b t en)) k \<longleftrightarrow>
     er_pending en k \<or> (\<exists>s. (k, s) \<in> set (er_subs en) \<and> concerns t s)"
  by (auto simp: fanout_def Let_def concerns_def)

lemma fanout_all_sel [simp]:
  "er_subs (fst (fanout_all b ts en)) = er_subs en \<and> er_next (fst (fanout_all b ts en)) = er_next en
   \<and> (er_pending (fst (fanout_all b ts en)) k \<longleftrightarrow>
        er_pending en k \<or> (\<exists>s t. (k, s) \<in> set (er_subs en) \<and> t \<in> set ts \<and> concerns t s))"
proof (induction ts arbitrary: en)
  case (Cons t ts)
  obtain en1 calls where f: "fanout b t en = (en1, calls)" by fastforce
  obtain en2 calls' where g: "fanout_all b ts en1 = (en2, calls')" by fastforce
  have "er_subs en1 = er_subs en" "er_next en1 = er_next en"
    "er_pending en1 k \<longleftrightarrow> er_pending en k \<or> (\<exists>s. (k, s) \<in> set (er_subs en) \<and> concerns t s)"
    using fanout_sel(1,2) [of b t en] fanout_sel(3) [of b t en k] f by simp_all
  with Cons.IH [of en1] f g show ?case by auto
qed simp

lemma fold_signal_table:
  "er_subs (fold signal_table ts en) = er_subs en \<and> er_next (fold signal_table ts en) = er_next en
   \<and> (er_pending (fold signal_table ts en) k \<longleftrightarrow>
        er_pending en k \<or> (\<exists>s t. (k, s) \<in> set (er_subs en) \<and> t \<in> set ts \<and> su_table s = Some t))"
  by (induction ts arbitrary: en) auto

end
