(* ===== verification/Entrain_Lane.thy ===== *)
theory Entrain_Lane
  imports Entrainments
begin

text \<open>
  The entrain lane (\<open>serve_entrain_lane\<close> of \<open>crates/node/src/pipeline.rs\<close>) and the node around
  it: streams, the database's hooks, the watcher and the shutdown, as steps in any order.

  A handler runs between its suspension points without interruption, so its steps are: the gate
  and the subscription, the acknowledgment, and one round of the loop. What the outside decides
  is in the event: whether a send succeeds, fails or stalls past the timeout, and which frame
  arrives. A stalled send is dropped inside \<open>write_all\<close>: it may have written a part of its
  frame. The code awaits the database thread between the gate's answer and the subscription;
  they are one step here, since nobody is subscribed yet and no signal can be lost.
\<close>

subsection \<open>One stream\<close>

text \<open>How a vibration's send went: through, failed, or cancelled by the timeout,
  with a part of the frame written or not; then the error frame is tried under the same timeout,
  and gets through, or not, again with a part of it written or not.\<close>

datatype resent = Through | Lost bool

datatype sent = SentOk | PeerGone | Stalled bool resent

datatype lane_phase = Opened | Looping | Over

text \<open>\<open>ls_frames\<close> are the frames the stream took whole and the client can read; \<open>ls_torn\<close> is set when
  only a part of a frame went out after them. A frame is as long as its prefix says, so whatever
  is written later is read as the rest of the torn one: no later frame is counted as sent.\<close>

record lane_stream =
  ls_lane :: lane
  ls_peer :: string
  ls_id :: string
  ls_point :: string
  ls_sub :: nat
  ls_seq :: int
  ls_phase :: lane_phase
  ls_frames :: "envelope_object list"
  ls_torn :: bool

text \<open>A round of the loop: what the select picked, and how the answer's send went.\<close>

datatype round =
    OnSignal sent
  | OnClosed
  | OnFrame envelope_object bool
  | OnHangup

definition bare_done :: "string \<Rightarrow> envelope_object" where
  "bare_done i = Done \<lparr>dn_id = i, dn_row_count = None, dn_affected_rows = None,
                       dn_last_insert_rowid = None, dn_truncated = False\<rparr>"

definition TOO_SLOW :: string where
  "TOO_SLOW = ''vibration consumer too slow; entrainment damped''"

definition ONLY_DAMP :: string where
  "ONLY_DAMP = ''only rsntr:Damp for the entrained point may ride an entrain stream, got ''"

definition vibration_of :: "node_env \<Rightarrow> lane_stream \<Rightarrow> envelope_object" where
  "vibration_of env s =
     Vibration \<lparr>vi_id = ls_id s, vi_point = ls_point s, vi_seq = ls_seq s, vi_at = Some (now_rfc3339 env),
                vi_payload = []\<rparr>"

fun gate_verdict :: "string \<Rightarrow> entrain_gate \<Rightarrow> string \<times> string" where
  "gate_verdict point EntrainUnknownPeer = (''deny'', UNKNOWN_PEER)"
| "gate_verdict point (EntrainUnknownPoint reason) = (''deny'', reason)"
| "gate_verdict point (EntrainDenied reason) = (''deny'', reason)"
| "gate_verdict point (EntrainAllowed table) = (''allow'', ''entrained <'' @ point @ ''>'')"

fun refusal_frame :: "string \<Rightarrow> entrain_gate \<Rightarrow> envelope_object option" where
  "refusal_frame i EntrainUnknownPeer = Some (Denied \<lparr>de_id = Some i, de_reason = Some UNKNOWN_PEER\<rparr>)"
| "refusal_frame i (EntrainUnknownPoint reason) =
     Some (Error \<lparr>er_id = Some i, er_code = code_as_str PointUnknown, er_reason = Some reason\<rparr>)"
| "refusal_frame i (EntrainDenied reason) = Some (Denied \<lparr>de_id = Some i, de_reason = Some reason\<rparr>)"
| "refusal_frame i (EntrainAllowed table) = None"

subsection \<open>The node\<close>

text \<open>\<open>si_tables\<close> is the hooks' list of touched tables; \<open>si_observed\<close> whether an observer is
  registered.\<close>

record 'u site =
  si_db :: "'u node_db"
  si_tables :: "string list"
  si_en :: entrainments
  si_observed :: bool
  si_watch :: change_state
  si_streams :: "nat \<Rightarrow> lane_stream option"

text \<open>A ledger row is a committed write of the node's connection like any other.\<close>

definition commit_site :: "'u site \<Rightarrow> 'u site" where
  "commit_site w =
     (case on_commit (si_observed w) (si_tables w) (si_en w) of
        ((tables, en), _) \<Rightarrow> w\<lparr>si_tables := tables, si_en := en\<rparr>)"

definition audit_site ::
  "node_env \<Rightarrow> string \<Rightarrow> string \<Rightarrow> string \<Rightarrow> string \<Rightarrow> string \<Rightarrow> string \<Rightarrow> 'u site \<Rightarrow> 'u site" where
  "audit_site env direction peer i decision decided_by reason w =
     (if nd_audit (si_db w) = None then w
      else commit_site (w\<lparr>si_db := audit_direct_dir env direction peer i ''entrain'' decision decided_by reason (si_db w),
                          si_tables := on_update ''_audit'' (si_tables w)\<rparr>))"

definition put_stream :: "nat \<Rightarrow> lane_stream \<Rightarrow> 'u site \<Rightarrow> 'u site" where
  "put_stream n s w = w\<lparr>si_streams := (si_streams w)(n \<mapsto> s)\<rparr>"

text \<open>The gate, its ledger row, and the refusal or the subscription. The flag says whether the
  refusal's send succeeds.\<close>

definition open_lane :: "node_env \<Rightarrow> lane \<Rightarrow> string \<Rightarrow> entrain \<Rightarrow> bool \<Rightarrow> nat \<Rightarrow> 'u site \<Rightarrow> 'u site" where
  "open_lane env lane peer e ok n w =
     (let i = en_id e; point = en_point e;
          gate = (case lane of Owner \<Rightarrow> gate_entrain_owner (si_db w) point
                  | Remote \<Rightarrow> gate_entrain (si_db w) peer point);
          (decision, reason) = gate_verdict point gate;
          w1 = audit_site env (lane_direction lane) peer i decision (lane_decider lane) reason w;
          s = \<lparr>ls_lane = lane, ls_peer = peer, ls_id = i, ls_point = point, ls_sub = er_next (si_en w1),
               ls_seq = 0, ls_phase = Over, ls_frames = [], ls_torn = False\<rparr>
      in case refusal_frame i gate of
           Some obj \<Rightarrow> put_stream n (if ok then s\<lparr>ls_frames := [obj]\<rparr> else s) w1
         | None \<Rightarrow>
             (case subscribe point (case gate of EntrainAllowed table \<Rightarrow> table | _ \<Rightarrow> None) (si_en w1) of
                (sub, en) \<Rightarrow> put_stream n (s\<lparr>ls_phase := Opened\<rparr>) (w1\<lparr>si_en := en\<rparr>)))"

definition end_lane :: "nat \<Rightarrow> lane_stream \<Rightarrow> 'u site \<Rightarrow> 'u site" where
  "end_lane n s w =
     put_stream n (s\<lparr>ls_phase := Over\<rparr>) (w\<lparr>si_en := unsubscribe (ls_sub s) (si_en w)\<rparr>)"

definition ack_lane :: "bool \<Rightarrow> nat \<Rightarrow> lane_stream \<Rightarrow> 'u site \<Rightarrow> 'u site" where
  "ack_lane ok n s w =
     (if ok then put_stream n (s\<lparr>ls_phase := Looping, ls_frames := [bare_done (ls_id s)]\<rparr>) w
      else end_lane n s w)"

definition say :: "bool \<Rightarrow> envelope_object \<Rightarrow> lane_stream \<Rightarrow> lane_stream" where
  "say ok obj s = (if ok \<and> \<not> ls_torn s then s\<lparr>ls_frames := ls_frames s @ [obj]\<rparr> else s)"

definition tear :: "bool \<Rightarrow> lane_stream \<Rightarrow> lane_stream" where
  "tear part s = s\<lparr>ls_torn := ls_torn s \<or> part\<rparr>"

text \<open>The error after a stalled vibration.\<close>

definition damp_slow :: "bool \<Rightarrow> resent \<Rightarrow> lane_stream \<Rightarrow> lane_stream" where
  "damp_slow part res s =
     (case res of
        Through \<Rightarrow> say True (error_frame (ls_id s) LimitExceeded TOO_SLOW) (tear part s)
      | Lost part' \<Rightarrow> tear part' (tear part s))"

text \<open>\<open>dbg\<close> is the \<open>Debug\<close> form of a frame.\<close>

definition loop_lane ::
  "(envelope_object \<Rightarrow> string) \<Rightarrow> node_env \<Rightarrow> round \<Rightarrow> nat \<Rightarrow> lane_stream \<Rightarrow> 'u site \<Rightarrow> 'u site" where
  "loop_lane dbg env r n s w =
     (case r of
        OnSignal res \<Rightarrow>
          (case receive (ls_sub s) (si_en w) of
             (Signal, en) \<Rightarrow>
               let w1 = w\<lparr>si_en := en\<rparr>; s1 = s\<lparr>ls_seq := ls_seq s + 1\<rparr>
               in (case res of
                     SentOk \<Rightarrow> put_stream n (s1\<lparr>ls_frames := ls_frames s @ [vibration_of env s]\<rparr>) w1
                   | PeerGone \<Rightarrow> end_lane n s1 w1
                   | Stalled part res \<Rightarrow>
                       end_lane n (damp_slow part res s1)
                         (audit_site env ''in'' (ls_peer s) (ls_id s) ''allow'' ''node'' ''limit-exceeded damp'' w1))
           | _ \<Rightarrow> w)
      | OnClosed \<Rightarrow> (if fst (receive (ls_sub s) (si_en w)) = Closed then end_lane n s w else w)
      | OnFrame obj ok \<Rightarrow>
          (case obj of
             Damp d \<Rightarrow>
               if da_point d = ls_point s
               then end_lane n (say ok (bare_done (ls_id s)) s)
                      (audit_site env ''in'' (ls_peer s) (ls_id s) ''allow'' ''node'' ''damped by peer'' w)
               else end_lane n (say ok (error_frame (ls_id s) ProtocolErrorCode (ONLY_DAMP @ dbg obj)) s) w
           | _ \<Rightarrow> end_lane n (say ok (error_frame (ls_id s) ProtocolErrorCode (ONLY_DAMP @ dbg obj)) s) w)
      | OnHangup \<Rightarrow> end_lane n s w)"

subsection \<open>Steps\<close>

text \<open>What can happen next at a node. A commit of the node's own connection brings the database
  it commits; \<open>Reads\<close> is a look of the watcher.\<close>

datatype 'u happening =
    Opens nat node_env lane string entrain bool
  | Acks nat bool
  | Rounds nat node_env round
  | Touches string
  | Commits "'u node_db"
  | RollsBack
  | Watches watched
  | ClosesAll

definition site_step :: "(envelope_object \<Rightarrow> string) \<Rightarrow> 'u happening \<Rightarrow> 'u site \<Rightarrow> 'u site" where
  "site_step dbg h w =
     (case h of
        Opens n env lane peer e ok \<Rightarrow>
          if si_streams w n = None then open_lane env lane peer e ok n w else w
      | Acks n ok \<Rightarrow>
          (case si_streams w n of
             Some s \<Rightarrow> if ls_phase s = Opened then ack_lane ok n s w else w | None \<Rightarrow> w)
      | Rounds n env r \<Rightarrow>
          (case si_streams w n of
             Some s \<Rightarrow> if ls_phase s = Looping then loop_lane dbg env r n s w else w | None \<Rightarrow> w)
      | Touches t \<Rightarrow> w\<lparr>si_tables := on_update t (si_tables w)\<rparr>
      | Commits db \<Rightarrow> commit_site (w\<lparr>si_db := db\<rparr>)
      | RollsBack \<Rightarrow> w\<lparr>si_tables := on_rollback (si_tables w)\<rparr>
      | Watches seen \<Rightarrow>
          (case foreign_change_scan seen (si_watch w) of
             (st, changed, projection) \<Rightarrow>
               w\<lparr>si_watch := st,
                 si_en := (if changed then fst (on_foreign_change (si_observed w) projection (si_en w)) else si_en w)\<rparr>)
      | ClosesAll \<Rightarrow> w\<lparr>si_en := close_all (si_en w)\<rparr>)"

definition site_run :: "(envelope_object \<Rightarrow> string) \<Rightarrow> 'u happening list \<Rightarrow> 'u site \<Rightarrow> 'u site" where
  "site_run dbg hs w = fold (site_step dbg) hs w"

definition site_new :: "'u node_db \<Rightarrow> bool \<Rightarrow> 'u site" where
  "site_new db observed =
     \<lparr>si_db = db, si_tables = [], si_en = entrainments_new, si_observed = observed,
      si_watch = change_state_default, si_streams = Map.empty\<rparr>"

end
