(* ===== verification/Entrain_Facts.thy ===== *)
theory Entrain_Facts
  imports Entrain_Lane Entrainment Exec_Facts
begin

text \<open>
  Facts about the entrain lane: what each step does to the registry, the signals and the streams,
  and the invariant of a site.
\<close>

subsection \<open>The steps' effects\<close>

lemma set_bset_of: "set (bset_of xs) = set xs"
proof -
  have "set (foldl (\<lambda>s x. bset_insert x s) ys xs) = set ys \<union> set xs" for ys
    by (induction xs arbitrary: ys) auto
  then show ?thesis by (simp add: bset_of_def)
qed

lemma put_stream_sel [simp]:
  "si_en (put_stream n s w) = si_en w" "si_db (put_stream n s w) = si_db w"
  "si_tables (put_stream n s w) = si_tables w" "si_observed (put_stream n s w) = si_observed w"
  "si_streams (put_stream n s w) = (si_streams w)(n \<mapsto> s)"
  by (simp_all add: put_stream_def)

lemma commit_site_sel [simp]:
  "si_streams (commit_site w) = si_streams w" "si_db (commit_site w) = si_db w"
  "si_tables (commit_site w) = []" "si_observed (commit_site w) = si_observed w"
  "er_subs (si_en (commit_site w)) = er_subs (si_en w)" "er_next (si_en (commit_site w)) = er_next (si_en w)"
  "er_pending (si_en (commit_site w)) k \<longleftrightarrow>
     er_pending (si_en w) k \<or> (\<exists>s t. (k, s) \<in> set (er_subs (si_en w)) \<and> t \<in> set (si_tables w) \<and> concerns t s)"
proof -
  have e: "si_en (commit_site w) = fst (fanout_all (si_observed w) (si_tables w) (si_en w))"
    by (simp add: commit_site_def on_commit_def split: prod.split)
  show "er_subs (si_en (commit_site w)) = er_subs (si_en w)" "er_next (si_en (commit_site w)) = er_next (si_en w)"
    "er_pending (si_en (commit_site w)) k \<longleftrightarrow>
     er_pending (si_en w) k \<or> (\<exists>s t. (k, s) \<in> set (er_subs (si_en w)) \<and> t \<in> set (si_tables w) \<and> concerns t s)"
    unfolding e by simp_all
qed (simp_all add: commit_site_def on_commit_def split: prod.split)

lemma on_update_set [simp]: "set (on_update t ts) = insert t (set ts)"
  by (auto simp: on_update_def)

definition audited_tables :: "'u site \<Rightarrow> string set" where
  "audited_tables w = (if nd_audit (si_db w) = None then {} else insert ''_audit'' (set (si_tables w)))"

lemma audit_site_sel [simp]:
  "si_streams (audit_site env d p i dec b r w) = si_streams w"
  "er_subs (si_en (audit_site env d p i dec b r w)) = er_subs (si_en w)"
  "er_next (si_en (audit_site env d p i dec b r w)) = er_next (si_en w)"
  "si_observed (audit_site env d p i dec b r w) = si_observed w"
  "er_pending (si_en (audit_site env d p i dec b r w)) k \<longleftrightarrow>
     er_pending (si_en w) k
     \<or> (\<exists>s t. (k, s) \<in> set (er_subs (si_en w)) \<and> t \<in> audited_tables w \<and> concerns t s)"
  by (simp_all add: audit_site_def audited_tables_def)

lemma subscribe_sel:
  "subscribe p t en = (k, en') \<Longrightarrow> k = er_next en
     \<and> er_subs en' = (er_next en, \<lparr>su_point = p, su_table = t\<rparr>) # er_subs en
     \<and> er_next en' = er_next en + 1 \<and> er_pending en' = (er_pending en)(er_next en := False)"
  by (auto simp: subscribe_def)

lemma unsubscribe_sel [simp]:
  "er_subs (unsubscribe k en) = filter (\<lambda>(i, s). i \<noteq> k) (er_subs en)" "er_next (unsubscribe k en) = er_next en"
  "er_pending (unsubscribe k en) = er_pending en"
  by (simp_all add: unsubscribe_def)

lemma receive_sel:
  assumes "receive k en = (res, en')"
  shows "er_subs en' = er_subs en" "er_next en' = er_next en"
    "er_pending en' = (if res = Signal then (er_pending en)(k := False) else er_pending en)"
    "res = Signal \<longleftrightarrow> er_pending en k"
  using assms by (auto simp: receive_def split: if_splits)

lemma on_foreign_sel [simp]:
  "er_subs (fst (on_foreign_change b p en)) = er_subs en" "er_next (fst (on_foreign_change b p en)) = er_next en"
  "er_pending (fst (on_foreign_change b p en)) k \<longleftrightarrow> er_pending en k
     \<or> (\<exists>s. (k, s) \<in> set (er_subs en) \<and> (su_table s \<noteq> None \<or> p \<and> su_point s = PROJECTION_CHANGED))"
proof -
  let ?l = "subscribed_tables en"
  let ?ts = "?l @ filter (\<lambda>t. t \<notin> set ?l) OBSERVED_TABLES"
  have l: "set ?l = {t. \<exists>k s. (k, s) \<in> set (er_subs en) \<and> su_table s = Some t}"
    unfolding subscribed_tables_def set_bset_of by (force simp: List.map_filter_def)
  note f = fold_signal_table [of ?ts en]
  have t: "(\<exists>s t. (k, s) \<in> set (er_subs en) \<and> t \<in> set ?ts \<and> su_table s = Some t)
      \<longleftrightarrow> (\<exists>s. (k, s) \<in> set (er_subs en) \<and> su_table s \<noteq> None)" using l by auto
  show "er_subs (fst (on_foreign_change b p en)) = er_subs en" "er_next (fst (on_foreign_change b p en)) = er_next en"
    using f by (simp_all add: on_foreign_change_def Let_def)
  show "er_pending (fst (on_foreign_change b p en)) k \<longleftrightarrow> er_pending en k
     \<or> (\<exists>s. (k, s) \<in> set (er_subs en) \<and> (su_table s \<noteq> None \<or> p \<and> su_point s = PROJECTION_CHANGED))"
    using f t by (auto simp: on_foreign_change_def Let_def)
qed

subsection \<open>The invariant\<close>

text \<open>What a stream has sent fits where it is.\<close>

definition stream_ok :: "lane_stream \<Rightarrow> bool" where
  "stream_ok s \<longleftrightarrow>
     (case ls_phase s of
        Opened \<Rightarrow> ls_frames s = [] \<and> ls_seq s = 0 \<and> \<not> ls_torn s
      | Looping \<Rightarrow> (\<exists>vs. ls_frames s = bare_done (ls_id s) # map Vibration vs
                     \<and> vibrations_ok (ls_id s) (ls_point s) 0 vs \<and> ls_seq s = int (length vs)) \<and> \<not> ls_torn s
      | Over \<Rightarrow> (ls_frames s = [] \<and> \<not> ls_torn s \<or> entrainment_shape (ls_id s) (ls_point s) (ls_frames s))
          \<and> (ls_torn s \<longrightarrow> (\<exists>vs. ls_frames s = bare_done (ls_id s) # map Vibration vs)))"

text \<open>The registry and the streams: channels are numbered apart, every entry of the registry is
  that of a running stream on the same point.\<close>

definition running :: "(nat \<Rightarrow> lane_stream option) \<Rightarrow> nat \<Rightarrow> lane_stream \<Rightarrow> bool" where
  "running streams n s \<longleftrightarrow> streams n = Some s \<and> ls_phase s \<noteq> Over"

definition channels_ok :: "(nat \<times> subscription) list \<Rightarrow> nat \<Rightarrow> (nat \<Rightarrow> lane_stream option) \<Rightarrow> bool" where
  "channels_ok subs k streams \<longleftrightarrow>
     distinct (map fst subs)
     \<and> (\<forall>n s. running streams n s \<longrightarrow> ls_sub s < k)
     \<and> (\<forall>n m s s'. running streams n s \<and> running streams m s' \<and> ls_sub s = ls_sub s' \<longrightarrow> n = m)
     \<and> (\<forall>i p. (i, p) \<in> set subs \<longrightarrow> (\<exists>n s. running streams n s \<and> ls_sub s = i \<and> ls_point s = su_point p))"

definition site_ok :: "'u site \<Rightarrow> bool" where
  "site_ok w \<longleftrightarrow> channels_ok (er_subs (si_en w)) (er_next (si_en w)) (si_streams w)
     \<and> (\<forall>n s. si_streams w n = Some s \<longrightarrow> stream_ok s)"

lemma site_ok_same:
  "site_ok w \<Longrightarrow> er_subs (si_en w') = er_subs (si_en w) \<Longrightarrow> er_next (si_en w') = er_next (si_en w) \<Longrightarrow>
     si_streams w' = si_streams w \<Longrightarrow> site_ok w'"
  by (simp add: site_ok_def)

lemma vibrations_ok_snoc:
  "vibrations_ok i p n (vs @ [v]) \<longleftrightarrow>
     vibrations_ok i p n vs \<and> vi_id v = i \<and> vi_point v = p \<and> vi_seq v = n + int (length vs)"
  by (induction vs arbitrary: n) (simp_all add: algebra_simps)

lemma channels_unique:
  "channels_ok subs k streams \<Longrightarrow> running streams n s \<Longrightarrow> running streams m s' \<Longrightarrow> ls_sub s = ls_sub s' \<Longrightarrow> n = m"
  unfolding channels_ok_def by blast

lemma channels_below_stream: "channels_ok subs k streams \<Longrightarrow> running streams n s \<Longrightarrow> ls_sub s < k"
  unfolding channels_ok_def by blast

lemma channels_entry:
  assumes "channels_ok subs k streams" "(i, p) \<in> set subs"
  obtains n s where "running streams n s" "ls_sub s = i" "ls_point s = su_point p"
  using assms unfolding channels_ok_def by blast

lemma running_upd: "running (streams(n \<mapsto> s')) m t \<longleftrightarrow> (if m = n then t = s' \<and> ls_phase s' \<noteq> Over else running streams m t)"
  by (auto simp: running_def)

text \<open>A stream that goes on.\<close>

lemma channels_go_on:
  assumes c: "channels_ok subs k streams" and r: "running streams n s"
    and s': "ls_phase s' \<noteq> Over" "ls_sub s' = ls_sub s" "ls_point s' = ls_point s"
  shows "channels_ok subs k (streams(n \<mapsto> s'))"
proof -
  have old: "\<exists>t'. running streams m t' \<and> ls_sub t' = ls_sub t" if "running (streams(n \<mapsto> s')) m t" for m t
    using that r s' by (auto simp: running_upd split: if_splits)
  have entry: "\<exists>m t. running (streams(n \<mapsto> s')) m t \<and> ls_sub t = i \<and> ls_point t = su_point p" if "(i, p) \<in> set subs" for i p
  proof -
    from channels_entry [OF c that] obtain m t where t: "running streams m t" "ls_sub t = i" "ls_point t = su_point p" .
    show ?thesis
    proof (cases "m = n")
      case True
      with t r s' show ?thesis by (intro exI [of _ n] exI [of _ s']) (auto simp: running_upd running_def)
    qed (use t in \<open>auto simp: running_upd intro!: exI [of _ m] exI [of _ t]\<close>)
  qed
  have unique: "m = m'" if a: "running (streams(n \<mapsto> s')) m t" "running (streams(n \<mapsto> s')) m' t'" "ls_sub t = ls_sub t'" for m m' t t'
    using old [OF a(1)] old [OF a(2)] a(3) channels_unique [OF c] by metis
  have below: "ls_sub t < k" if "running (streams(n \<mapsto> s')) m t" for m t
    using old [OF that] channels_below_stream [OF c] by metis
  have "distinct (map fst subs)" using c by (simp add: channels_ok_def)
  with below unique entry show ?thesis unfolding channels_ok_def by blast
qed

lemma site_go_on:
  assumes "site_ok w" "running (si_streams w) n s"
    and "ls_phase s' \<noteq> Over" "ls_sub s' = ls_sub s" "ls_point s' = ls_point s" "stream_ok s'"
  shows "site_ok (put_stream n s' w)"
proof -
  have "channels_ok (er_subs (si_en w)) (er_next (si_en w)) (si_streams w)" using assms(1) by (simp add: site_ok_def)
  from channels_go_on [OF this assms(2-5)] assms(1,6) show ?thesis by (auto simp: site_ok_def)
qed

text \<open>A stream that ends, with its entry.\<close>

lemma channels_end:
  assumes c: "channels_ok subs k streams" and r: "running streams n s" and s': "ls_phase s' = Over"
  shows "channels_ok (filter (\<lambda>(i, p). i \<noteq> ls_sub s) subs) k (streams(n \<mapsto> s'))"
proof -
  have old: "running streams m t" if "running (streams(n \<mapsto> s')) m t" for m t
    using that s' by (auto simp: running_upd split: if_splits)
  have entry: "\<exists>m t. running (streams(n \<mapsto> s')) m t \<and> ls_sub t = i \<and> ls_point t = su_point p"
    if "(i, p) \<in> set subs" "i \<noteq> ls_sub s" for i p
  proof -
    from channels_entry [OF c that(1)] obtain m t where t: "running streams m t" "ls_sub t = i" "ls_point t = su_point p" .
    have "m \<noteq> n" using t r that(2) by (auto simp: running_def)
    with t show ?thesis by (auto simp: running_upd intro!: exI [of _ m] exI [of _ t])
  qed
  have "distinct (map fst (filter (\<lambda>(i, p). i \<noteq> ls_sub s) subs))"
    using c by (simp add: channels_ok_def distinct_map_filter)
  moreover have "ls_sub t < k" if "running (streams(n \<mapsto> s')) m t" for m t
    using channels_below_stream [OF c old [OF that]] .
  moreover have "m = m'" if "running (streams(n \<mapsto> s')) m t" "running (streams(n \<mapsto> s')) m' t'" "ls_sub t = ls_sub t'" for m m' t t'
    using channels_unique [OF c old [OF that(1)] old [OF that(2)] that(3)] .
  ultimately show ?thesis using entry unfolding channels_ok_def by auto
qed

lemma site_end:
  assumes "site_ok w" "running (si_streams w) n s"
    and "ls_sub s' = ls_sub s" "stream_ok (s'\<lparr>ls_phase := Over\<rparr>)"
  shows "site_ok (end_lane n s' w)"
proof -
  have "channels_ok (er_subs (si_en w)) (er_next (si_en w)) (si_streams w)" using assms(1) by (simp add: site_ok_def)
  from channels_end [OF this assms(2), of "s'\<lparr>ls_phase := Over\<rparr>"] assms(1,3,4)
  show ?thesis by (auto simp: site_ok_def end_lane_def)
qed

text \<open>A stream that starts.\<close>

lemma channels_below:
  assumes "channels_ok subs k streams" "(i, p) \<in> set subs"
  shows "i < k"
  using channels_entry [OF assms] channels_below_stream [OF assms(1)] by metis

lemma channels_start:
  assumes c: "channels_ok subs k streams" and n: "streams n = None"
    and s: "ls_sub s = k" "ls_point s = su_point p" "ls_phase s \<noteq> Over"
  shows "channels_ok ((k, p) # subs) (k + 1) (streams(n \<mapsto> s))"
proof -
  have here: "running (streams(n \<mapsto> s)) m t \<longleftrightarrow> m = n \<and> t = s \<or> running streams m t" for m t
    using n s(3) by (auto simp: running_upd running_def)
  have "distinct (map fst ((k, p) # subs))"
    using c by (auto simp: channels_ok_def dest: channels_below [OF c])
  moreover have "ls_sub t < k + 1" if "running (streams(n \<mapsto> s)) m t" for m t
    using that channels_below_stream [OF c, of m t] s(1) by (auto simp: here)
  moreover have "m = m'" if a: "running (streams(n \<mapsto> s)) m t" "running (streams(n \<mapsto> s)) m' t'" "ls_sub t = ls_sub t'" for m m' t t'
    using a channels_below_stream [OF c] channels_unique [OF c] s(1) by (metis here less_irrefl)
  moreover have "\<exists>m t. running (streams(n \<mapsto> s)) m t \<and> ls_sub t = i \<and> ls_point t = su_point q" if "(i, q) \<in> set ((k, p) # subs)" for i q
  proof (cases "(i, q) = (k, p)")
    case True
    with s here show ?thesis by blast
  next
    case False
    with that have "(i, q) \<in> set subs" by auto
    with channels_entry [OF c this] here show ?thesis by metis
  qed
  ultimately show ?thesis unfolding channels_ok_def by blast
qed

lemma channels_idle:
  assumes c: "channels_ok subs k streams" and n: "streams n = None" and s: "ls_phase s = Over"
  shows "channels_ok subs k (streams(n \<mapsto> s))"
proof -
  have "running (streams(n \<mapsto> s)) m t \<longleftrightarrow> running streams m t" for m t
    using n s by (auto simp: running_upd running_def)
  with c show ?thesis unfolding channels_ok_def by simp
qed

lemma site_idle:
  "site_ok w \<Longrightarrow> si_streams w n = None \<Longrightarrow> ls_phase s = Over \<Longrightarrow> stream_ok s \<Longrightarrow> site_ok (put_stream n s w)"
  by (simp add: site_ok_def channels_idle)

lemma site_channels: "site_ok w \<Longrightarrow> channels_ok (er_subs (si_en w)) (er_next (si_en w)) (si_streams w)"
  by (simp add: site_ok_def)

lemma refusal_frame_shape: "refusal_frame i g = Some obj \<Longrightarrow> entrainment_shape i p [obj]"
  by (cases g) (auto intro!: entrainment_shape.refused simp: refusal_def ent_id_ok_def)

subsection \<open>The steps keep the invariant\<close>

lemma audit_site_ok: "site_ok w \<Longrightarrow> site_ok (audit_site env d p i dec b r w)"
  by (rule site_ok_same) auto

lemma open_lane_ok:
  assumes "site_ok w" "si_streams w n = None"
  shows "site_ok (open_lane env lane peer e ok n w)"
proof -
  define gate where "gate = (case lane of Owner \<Rightarrow> gate_entrain_owner (si_db w) (en_point e)
      | Remote \<Rightarrow> gate_entrain (si_db w) peer (en_point e))"
  obtain dec r where v: "gate_verdict (en_point e) gate = (dec, r)" by fastforce
  define w1 where "w1 = audit_site env (lane_direction lane) peer (en_id e) dec (lane_decider lane) r w"
  define s where "s = \<lparr>ls_lane = lane, ls_peer = peer, ls_id = en_id e, ls_point = en_point e,
      ls_sub = er_next (si_en w1), ls_seq = 0, ls_phase = Over, ls_frames = [], ls_torn = False\<rparr>"
  have o: "open_lane env lane peer e ok n w = (case refusal_frame (en_id e) gate of
           Some obj \<Rightarrow> put_stream n (if ok then s\<lparr>ls_frames := [obj]\<rparr> else s) w1
         | None \<Rightarrow>
             (case subscribe (en_point e) (case gate of EntrainAllowed table \<Rightarrow> table | _ \<Rightarrow> None) (si_en w1) of
                (sub, en) \<Rightarrow> put_stream n (s\<lparr>ls_phase := Opened\<rparr>) (w1\<lparr>si_en := en\<rparr>)))"
    unfolding open_lane_def Let_def gate_def [symmetric] v prod.case w1_def [symmetric] s_def [symmetric] ..
  have w1: "site_ok w1" "si_streams w1 n = None" using assms by (simp_all add: w1_def audit_site_ok)
  show ?thesis
  proof (cases "refusal_frame (en_id e) gate")
    case (Some obj)
    have "stream_ok (if ok then s\<lparr>ls_frames := [obj]\<rparr> else s)"
      using refusal_frame_shape [OF Some] by (simp add: stream_ok_def s_def)
    with site_idle [OF w1, of "if ok then s\<lparr>ls_frames := [obj]\<rparr> else s"] Some show ?thesis by (simp add: o s_def)
  next
    case None
    obtain sub en where sub: "subscribe (en_point e) (case gate of EntrainAllowed table \<Rightarrow> table | _ \<Rightarrow> None) (si_en w1) = (sub, en)"
      by fastforce
    have "channels_ok (er_subs en) (er_next en) ((si_streams w1)(n \<mapsto> s\<lparr>ls_phase := Opened\<rparr>))"
      using subscribe_sel [OF sub] channels_start [OF site_channels [OF w1(1)] w1(2)] by (simp add: s_def)
    moreover have "stream_ok (s\<lparr>ls_phase := Opened\<rparr>)" by (simp add: stream_ok_def s_def)
    ultimately show ?thesis using w1 by (simp add: o None sub site_ok_def)
  qed
qed

lemma looping_damped:
  assumes "stream_ok s" "ls_phase s = Looping" "damping (ls_id s) obj"
  shows "stream_ok ((say ok obj s)\<lparr>ls_phase := Over\<rparr>)"
  using assms by (auto simp: stream_ok_def say_def bare_done_def intro!: entrainment_shape.damped entrainment_shape.flowing)

lemma looping_ends: "stream_ok s \<Longrightarrow> ls_phase s = Looping \<Longrightarrow> stream_ok (s\<lparr>ls_seq := k, ls_phase := Over\<rparr>)"
  by (auto simp: stream_ok_def bare_done_def intro!: entrainment_shape.flowing)

lemma say_sel [simp]:
  "ls_sub (say ok obj s) = ls_sub s" "ls_point (say ok obj s) = ls_point s" "ls_id (say ok obj s) = ls_id s"
  "ls_phase (say ok obj s) = ls_phase s" "ls_seq (say ok obj s) = ls_seq s"
  by (simp_all add: say_def)

lemma looping_slow:
  assumes "stream_ok s" "ls_phase s = Looping"
  shows "stream_ok ((damp_slow part res s)\<lparr>ls_phase := Over\<rparr>)"
proof (cases "\<not> part \<and> (\<forall>c. res = Lost c \<longrightarrow> \<not> c)")
  case True
  have t: "tear False s = s" by (simp add: tear_def)
  have "damping (ls_id s) (error_frame (ls_id s) LimitExceeded TOO_SLOW)" by (simp add: damping_def error_frame_def ent_id_ok_def)
  with True looping_damped [OF assms] looping_ends [OF assms, of "ls_seq s"] show ?thesis
    by (cases res) (simp_all add: damp_slow_def t)
next
  case False
  with assms show ?thesis
    by (cases res) (auto simp: damp_slow_def tear_def say_def stream_ok_def bare_done_def intro!: entrainment_shape.flowing)
qed

lemma damp_slow_keeps [simp]:
  "ls_sub (damp_slow part res s) = ls_sub s" "ls_point (damp_slow part res s) = ls_point s"
  "damp_slow part res (s\<lparr>ls_seq := k\<rparr>) = (damp_slow part res s)\<lparr>ls_seq := k\<rparr>"
  by (auto simp: damp_slow_def tear_def say_def split: resent.split)

lemma say_seq: "say ok obj (s\<lparr>ls_seq := k\<rparr>) = (say ok obj s)\<lparr>ls_seq := k\<rparr>"
  by (simp add: say_def)

lemma stream_ok_over_seq: "stream_ok (s\<lparr>ls_seq := k, ls_phase := Over\<rparr>) \<longleftrightarrow> stream_ok (s\<lparr>ls_phase := Over\<rparr>)"
  by (simp add: stream_ok_def)

lemma loop_lane_ok:
  assumes w: "site_ok w" and r: "running (si_streams w) n s" and l: "ls_phase s = Looping"
  shows "site_ok (loop_lane dbg env rd n s w)"
proof -
  have s: "stream_ok s" using w r by (auto simp: site_ok_def running_def)
  have ends: "site_ok (end_lane n s' w')"
    if "site_ok w'" "si_streams w' = si_streams w" "ls_sub s' = ls_sub s" "stream_ok (s'\<lparr>ls_phase := Over\<rparr>)" for s' w'
    using site_end [OF that(1) _ that(3,4)] r that(2) by simp
  have quits: "stream_ok (s\<lparr>ls_phase := Over\<rparr>)"
    using looping_ends [OF s l, of "ls_seq s"] by simp
  show ?thesis
  proof (cases rd)
    case (OnSignal res)
    obtain got en where g: "receive (ls_sub s) (si_en w) = (got, en)" by fastforce
    let ?w1 = "w\<lparr>si_en := en\<rparr>"
    have w1: "site_ok ?w1" using site_ok_same [OF w, of ?w1] receive_sel [OF g] by simp
    show ?thesis
    proof (cases "got = Signal")
      case True
      show ?thesis
      proof (cases res)
        case SentOk
        let ?s = "s\<lparr>ls_seq := ls_seq s + 1, ls_frames := ls_frames s @ [vibration_of env s]\<rparr>"
        from s l obtain vs where vs: "ls_frames s = bare_done (ls_id s) # map Vibration vs"
          "vibrations_ok (ls_id s) (ls_point s) 0 vs" "ls_seq s = int (length vs)" "\<not> ls_torn s"
          by (auto simp: stream_ok_def)
        obtain v where v: "vibration_of env s = Vibration v" "vi_id v = ls_id s" "vi_point v = ls_point s" "vi_seq v = ls_seq s"
          by (simp add: vibration_of_def)
        have "stream_ok ?s"
          using l vs v unfolding stream_ok_def
          by (auto simp: vibrations_ok_snoc intro!: exI [of _ "vs @ [v]"])
        then have "site_ok (put_stream n ?s ?w1)"
          using r l by (intro site_go_on [OF w1, of _ s]) auto
        then show ?thesis using True SentOk by (simp add: loop_lane_def OnSignal g Let_def)
      next
        case PeerGone
        have "site_ok (end_lane n (s\<lparr>ls_seq := ls_seq s + 1\<rparr>) ?w1)"
          using looping_ends [OF s l] by (intro ends w1) auto
        then show ?thesis using True PeerGone by (simp add: loop_lane_def OnSignal g Let_def)
      next
        case (Stalled part res)
        have "stream_ok ((damp_slow part res (s\<lparr>ls_seq := ls_seq s + 1\<rparr>))\<lparr>ls_phase := Over\<rparr>)"
          using looping_slow [OF s l] by (simp add: stream_ok_over_seq)
        then have "site_ok (end_lane n (damp_slow part res (s\<lparr>ls_seq := ls_seq s + 1\<rparr>))
            (audit_site env ''in'' (ls_peer s) (ls_id s) ''allow'' ''node'' ''limit-exceeded damp'' ?w1))"
          by (intro ends audit_site_ok w1) auto
        then show ?thesis using True Stalled by (simp add: loop_lane_def OnSignal g Let_def)
      qed
    next
      case False
      then show ?thesis using w by (simp add: loop_lane_def OnSignal g split: received.split)
    qed
  next
    case OnClosed
    then show ?thesis using w ends [OF w refl refl quits] by (simp add: loop_lane_def)
  next
    case (OnFrame obj ok)
    let ?e = "error_frame (ls_id s) ProtocolErrorCode (ONLY_DAMP @ dbg obj)"
    have e: "damping (ls_id s) ?e" by (simp add: damping_def error_frame_def ent_id_ok_def)
    have d: "damping (ls_id s) (bare_done (ls_id s))" by (simp add: damping_def bare_done_def)
    have "site_ok (end_lane n (say ok ?e s) w)" using looping_damped [OF s l e] by (intro ends w) auto
    moreover have "site_ok (end_lane n (say ok (bare_done (ls_id s)) s)
        (audit_site env ''in'' (ls_peer s) (ls_id s) ''allow'' ''node'' ''damped by peer'' w))"
      using looping_damped [OF s l d] by (intro ends audit_site_ok w) auto
    ultimately show ?thesis using OnFrame by (cases obj) (auto simp: loop_lane_def)
  next
    case OnHangup
    then show ?thesis using ends [OF w refl refl quits] by (simp add: loop_lane_def)
  qed
qed

lemma site_step_ok:
  assumes "site_ok w"
  shows "site_ok (site_step dbg h w)"
proof (cases h)
  case (Opens n env lane peer e ok)
  then show ?thesis using assms by (simp add: site_step_def open_lane_ok)
next
  case (Acks n ok)
  have "site_ok (ack_lane ok n s w)" if "si_streams w n = Some s" "ls_phase s = Opened" for s
  proof -
    have r: "running (si_streams w) n s" and s: "stream_ok s" using that assms by (auto simp: running_def site_ok_def)
    have a: "stream_ok (s\<lparr>ls_phase := Looping, ls_frames := [bare_done (ls_id s)]\<rparr>)" "stream_ok (s\<lparr>ls_phase := Over\<rparr>)"
      using s that by (auto simp: stream_ok_def)
    show ?thesis using site_go_on [OF assms r _ _ _ a(1)] site_end [OF assms r refl a(2)] by (simp add: ack_lane_def)
  qed
  then show ?thesis using assms by (simp add: site_step_def Acks split: option.split)
next
  case (Rounds n env rd)
  then show ?thesis using assms loop_lane_ok [of w n]
    by (auto simp: site_step_def running_def split: option.split)
next
  case (Commits db)
  then show ?thesis using site_ok_same [OF assms, of "commit_site (w\<lparr>si_db := db\<rparr>)"] by (simp add: site_step_def)
next
  case (Watches seen)
  obtain st changed projection where f: "foreign_change_scan seen (si_watch w) = (st, changed, projection)"
    by (metis prod_cases3)
  let ?en = "if changed then fst (on_foreign_change (si_observed w) projection (si_en w)) else si_en w"
  have "site_ok (w\<lparr>si_watch := st, si_en := ?en\<rparr>)" by (rule site_ok_same [OF assms]) auto
  then show ?thesis by (simp add: site_step_def Watches f)
next
  case ClosesAll
  have "channels_ok [] (er_next (si_en w)) (si_streams w)"
    using site_channels [OF assms] by (auto simp: channels_ok_def)
  then show ?thesis using assms by (simp add: site_step_def ClosesAll site_ok_def close_all_def)
next
  case (Touches t)
  then show ?thesis
    using site_ok_same [OF assms, of "w\<lparr>si_tables := on_update t (si_tables w)\<rparr>"] by (simp add: site_step_def)
next
  case RollsBack
  then show ?thesis
    using site_ok_same [OF assms, of "w\<lparr>si_tables := on_rollback (si_tables w)\<rparr>"] by (simp add: site_step_def)
qed

lemma site_run_ok: "site_ok w \<Longrightarrow> site_ok (site_run dbg hs w)"
  unfolding site_run_def by (induction hs arbitrary: w) (simp_all add: site_step_ok)

lemma site_new_ok: "site_ok (site_new db observed)"
  by (simp add: site_ok_def channels_ok_def running_def site_new_def entrainments_new_def)

subsection \<open>The signals\<close>

text \<open>The steps after which a stream still runs and has not taken a signal.\<close>

definition leaves_alone :: "nat \<Rightarrow> 'u happening \<Rightarrow> bool" where
  "leaves_alone n h \<longleftrightarrow>
     (case h of Rounds m env rd \<Rightarrow> m \<noteq> n | Acks m ok \<Rightarrow> m \<noteq> n \<or> ok | ClosesAll \<Rightarrow> False | _ \<Rightarrow> True)"

text \<open>A round that writes a ledger row.\<close>

definition writes_row :: "lane_stream \<Rightarrow> round \<Rightarrow> entrainments \<Rightarrow> bool" where
  "writes_row s rd en \<longleftrightarrow>
     (case rd of
        OnSignal res \<Rightarrow> er_pending en (ls_sub s) \<and> (\<exists>part again. res = Stalled part again)
      | OnFrame obj ok \<Rightarrow> (\<exists>d. obj = Damp d \<and> da_point d = ls_point s)
      | _ \<Rightarrow> False)"

text \<open>Whether a step tells a subscription of a change: a commit of the node's connection (a ledger
  row is one) that touched a table it concerns, or a commit of another one that the watcher saw.\<close>

definition told :: "'u happening \<Rightarrow> 'u site \<Rightarrow> subscription \<Rightarrow> bool" where
  "told h w p \<longleftrightarrow>
     (case h of
        Commits db \<Rightarrow> \<exists>t \<in> set (si_tables w). concerns t p
      | Opens m env lane peer e ok \<Rightarrow> si_streams w m = None \<and> (\<exists>t \<in> audited_tables w. concerns t p)
      | Rounds m env rd \<Rightarrow>
          (\<exists>s. si_streams w m = Some s \<and> ls_phase s = Looping \<and> writes_row s rd (si_en w))
          \<and> (\<exists>t \<in> audited_tables w. concerns t p)
      | Watches seen \<Rightarrow>
          (case foreign_change_scan seen (si_watch w) of
             (st, changed, projection) \<Rightarrow>
               changed \<and> (su_table p \<noteq> None \<or> projection \<and> su_point p = PROJECTION_CHANGED))
      | _ \<Rightarrow> False)"

definition listens :: "'u site \<Rightarrow> nat \<Rightarrow> nat \<Rightarrow> subscription \<Rightarrow> bool" where
  "listens w n j p \<longleftrightarrow> site_ok w \<and> (\<exists>s. running (si_streams w) n s \<and> ls_sub s = j) \<and> (j, p) \<in> set (er_subs (si_en w))"

lemma listens_entry:
  "listens w n j p \<Longrightarrow> (j, q) \<in> set (er_subs (si_en w)) \<longleftrightarrow> q = p"
  unfolding listens_def site_ok_def channels_ok_def
  by (metis eq_key_imp_eq_value)

text \<open>A step on another stream: what it may do to the registry.\<close>

lemma listens_keeps:
  assumes "listens w n j p" "site_ok w'"
    and "\<And>s. running (si_streams w) n s \<Longrightarrow> \<exists>s'. running (si_streams w') n s' \<and> ls_sub s' = ls_sub s"
    and "(j, p) \<in> set (er_subs (si_en w'))"
  shows "listens w' n j p"
  using assms unfolding listens_def by metis

lemma other_channel:
  assumes "listens w n j p" "running (si_streams w) m s" "m \<noteq> n"
  shows "ls_sub s \<noteq> j"
  using assms channels_unique [OF site_channels] unfolding listens_def by metis

lemma end_lane_other:
  assumes "ls_sub s \<noteq> j" "m \<noteq> n"
  shows "(j, p) \<in> set (er_subs (si_en (end_lane m s w))) \<longleftrightarrow> (j, p) \<in> set (er_subs (si_en w))"
    "er_pending (si_en (end_lane m s w)) j = er_pending (si_en w) j"
    "si_streams (end_lane m s w) n = si_streams w n"
  using assms by (auto simp: end_lane_def)

text \<open>The audit row of another stream's round.\<close>

lemma audit_signals:
  assumes "listens w n j p"
  shows "er_pending (si_en (audit_site env d q i dec b r w)) j \<longleftrightarrow>
    er_pending (si_en w) j \<or> (\<exists>t \<in> audited_tables w. concerns t p)"
  using listens_entry [OF assms] by auto

lemma round_signals:
  fixes dbg :: "envelope_object \<Rightarrow> string" and env :: node_env and rd :: round
  assumes "listens w n j p" "m \<noteq> n" "running (si_streams w) m s" "ls_phase s = Looping"
  defines "w' \<equiv> loop_lane dbg env rd m s w"
  shows "(er_pending (si_en w') j \<longleftrightarrow>
            er_pending (si_en w) j \<or> writes_row s rd (si_en w) \<and> (\<exists>t \<in> audited_tables w. concerns t p))
    \<and> si_streams w' n = si_streams w n \<and> (j, p) \<in> set (er_subs (si_en w'))"
proof -
  have o: "ls_sub s \<noteq> j" by (rule other_channel [OF assms(1,3,2)])
  have here: "(j, p) \<in> set (er_subs (si_en w))" using assms(1) by (simp add: listens_def)
  have fin: "er_pending (si_en (end_lane m s' v)) j = er_pending (si_en v) j"
      "si_streams (end_lane m s' v) n = si_streams v n"
      "(j, p) \<in> set (er_subs (si_en (end_lane m s' v))) \<longleftrightarrow> (j, p) \<in> set (er_subs (si_en v))"
    if "ls_sub s' = ls_sub s" for s' and v :: "'u site"
    using end_lane_other [of s' j m n] o that assms(2) by simp_all
  show ?thesis
  proof (cases rd)
    case (OnSignal res)
    obtain got en where g: "receive (ls_sub s) (si_en w) = (got, en)" by fastforce
    note sel = receive_sel [OF g]
    have pend: "er_pending en j = er_pending (si_en w) j" using sel(3) o by simp
    let ?w1 = "w\<lparr>si_en := en\<rparr>"
    have l1: "listens ?w1 n j p"
    proof (rule listens_keeps [OF assms(1)])
      show "site_ok ?w1" using assms(1) site_ok_same [of w ?w1] sel by (simp add: listens_def)
    qed (use here sel in auto)
    have tab: "audited_tables ?w1 = audited_tables w" by (simp add: audited_tables_def)
    show ?thesis
    proof (cases "got = Signal")
      case True
      with sel(4) have p: "er_pending (si_en w) (ls_sub s)" by simp
      show ?thesis
        using True OnSignal g p here sel pend assms(2) audit_signals [OF l1] tab
        by (cases res) (simp_all add: w'_def loop_lane_def Let_def fin writes_row_def)
    next
      case False
      with sel(4) have "\<not> er_pending (si_en w) (ls_sub s)" by simp
      with False OnSignal g here show ?thesis
        by (simp add: w'_def loop_lane_def writes_row_def split: received.split)
    qed
  next
    case OnClosed
    then show ?thesis using here by (simp add: w'_def loop_lane_def fin writes_row_def)
  next
    case (OnFrame obj ok)
    show ?thesis
    proof (cases "\<exists>d. obj = Damp d \<and> da_point d = ls_point s")
      case True
      then show ?thesis using OnFrame here audit_signals [OF assms(1)]
        by (auto simp: w'_def loop_lane_def fin writes_row_def)
    next
      case False
      then have "w' = end_lane m (say ok (error_frame (ls_id s) ProtocolErrorCode (ONLY_DAMP @ dbg obj)) s) w"
        by (cases obj) (auto simp: w'_def loop_lane_def OnFrame)
      with False show ?thesis using OnFrame here by (auto simp: fin writes_row_def)
    qed
  next
    case OnHangup
    then show ?thesis using here by (simp add: w'_def loop_lane_def fin writes_row_def)
  qed
qed

lemma running_same: "streams' n = streams n \<Longrightarrow> running streams' n s \<longleftrightarrow> running streams n s"
  by (simp add: running_def)

text \<open>Opening another stream.\<close>

lemma open_signals:
  assumes "listens w n j p" "m \<noteq> n"
  shows "(er_pending (si_en (open_lane env lane peer e ok m w)) j \<longleftrightarrow>
            er_pending (si_en w) j \<or> (\<exists>t \<in> audited_tables w. concerns t p))
    \<and> si_streams (open_lane env lane peer e ok m w) n = si_streams w n
    \<and> (j, p) \<in> set (er_subs (si_en (open_lane env lane peer e ok m w)))"
proof -
  have here: "(j, p) \<in> set (er_subs (si_en w))" "j < er_next (si_en w)"
    using assms(1) channels_below [OF site_channels] by (auto simp: listens_def)
  show ?thesis
    using here assms(2) audit_signals [OF assms(1)]
    by (auto simp: open_lane_def Let_def subscribe_def split: prod.split option.split)
qed

text \<open>A step that leaves the stream alone: it listens on, and its flag is set exactly by what it is
  told.\<close>

lemma step_signals:
  assumes l: "listens w n j p" and a: "leaves_alone n h"
  shows "listens (site_step dbg h w) n j p
    \<and> (er_pending (si_en (site_step dbg h w)) j \<longleftrightarrow> er_pending (si_en w) j \<or> told h w p)"
proof -
  let ?w = "site_step dbg h w"
  obtain s where s: "running (si_streams w) n s" "ls_sub s = j" and here: "(j, p) \<in> set (er_subs (si_en w))"
    using l by (auto simp: listens_def)
  have on: "listens ?w n j p" if "si_streams ?w n = si_streams w n" "(j, p) \<in> set (er_subs (si_en ?w))"
  proof (rule listens_keeps [OF l _ _ that(2)])
    show "site_ok ?w" using l site_step_ok by (auto simp: listens_def)
    show "\<exists>s'. running (si_streams ?w) n s' \<and> ls_sub s' = ls_sub s" if "running (si_streams w) n s" for s
      using that running_same [of "si_streams ?w" n "si_streams w"] \<open>si_streams ?w n = si_streams w n\<close> by blast
  qed
  have entry: "(j, q) \<in> set (er_subs (si_en w)) \<longleftrightarrow> q = p" for q by (rule listens_entry [OF l])
  show ?thesis
  proof (cases h)
    case (Opens m env lane peer e ok)
    show ?thesis
    proof (cases "si_streams w m = None")
      case True
      then have "m \<noteq> n" using s by (auto simp: running_def)
      with open_signals [OF l this, of env lane peer e ok] True show ?thesis
        using on by (simp add: site_step_def Opens told_def)
    next
      case False
      then obtain y where "si_streams w m = Some y" by blast
      then have "?w = w" "\<not> told h w p" by (simp_all add: site_step_def Opens told_def)
      with l show ?thesis by simp
    qed
  next
    case (Acks m ok)
    have t: "\<not> told h w p" by (simp add: told_def Acks)
    show ?thesis
    proof (cases "\<exists>t. si_streams w m = Some t \<and> ls_phase t = Opened")
      case False
      then have "?w = w" by (auto simp: site_step_def Acks split: option.split)
      with l t show ?thesis by simp
    next
      case True
      then obtain t0 where t0: "si_streams w m = Some t0" "ls_phase t0 = Opened" by blast
      have w: "?w = ack_lane ok m t0 w" by (simp add: site_step_def Acks t0)
      show ?thesis
      proof (cases "m = n")
        case True
        with a s t0 have "ok" "t0 = s" by (auto simp: leaves_alone_def Acks running_def)
        then have w': "?w = put_stream n (s\<lparr>ls_phase := Looping, ls_frames := [bare_done (ls_id s)]\<rparr>) w"
          by (simp add: w ack_lane_def True)
        have "listens ?w n j p"
        proof (rule listens_keeps [OF l])
          show "site_ok ?w" using l site_step_ok by (auto simp: listens_def)
          show "\<exists>s'. running (si_streams ?w) n s' \<and> ls_sub s' = ls_sub r" if "running (si_streams w) n r" for r
            using that s by (auto simp: w' running_upd running_def)
        qed (use here in \<open>simp add: w'\<close>)
        then show ?thesis using t by (simp add: w')
      next
        case False
        have "ls_sub t0 \<noteq> j" by (rule other_channel [OF l _ False]) (simp add: t0 running_def)
        with False here on t show ?thesis
          by (cases ok) (simp_all add: w ack_lane_def end_lane_other)
      qed
    qed
  next
    case (Rounds m env rd)
    then have m: "m \<noteq> n" using a by (simp add: leaves_alone_def)
    show ?thesis
    proof (cases "\<exists>t. si_streams w m = Some t \<and> ls_phase t = Looping")
      case False
      then have "?w = w" "\<not> told h w p" by (auto simp: site_step_def Rounds told_def split: option.split)
      with l show ?thesis by simp
    next
      case True
      then obtain t0 where t0: "si_streams w m = Some t0" "ls_phase t0 = Looping" by blast
      then have r: "running (si_streams w) m t0" by (simp add: running_def)
      have w: "?w = loop_lane dbg env rd m t0 w" by (simp add: site_step_def Rounds t0)
      have t: "told h w p \<longleftrightarrow> writes_row t0 rd (si_en w) \<and> (\<exists>t \<in> audited_tables w. concerns t p)"
        by (simp add: told_def Rounds t0)
      from round_signals [OF l m r t0(2), where dbg = dbg and env = env and rd = rd, folded w] show ?thesis
        using on t by blast
    qed
  next
    case (Touches t)
    with on here show ?thesis by (simp add: site_step_def told_def)
  next
    case (Commits db)
    with on here entry show ?thesis by (simp add: site_step_def told_def) blast
  next
    case RollsBack
    with on here show ?thesis by (simp add: site_step_def told_def)
  next
    case (Watches seen)
    obtain st changed projection where f: "foreign_change_scan seen (si_watch w) = (st, changed, projection)"
      by (metis prod_cases3)
    with Watches on here entry show ?thesis by (cases changed) (auto simp: site_step_def told_def)
  next
    case ClosesAll
    with a show ?thesis by (simp add: leaves_alone_def)
  qed
qed

text \<open>What a sequence of steps tells a subscription.\<close>

fun owed :: "(envelope_object \<Rightarrow> string) \<Rightarrow> 'u happening list \<Rightarrow> 'u site \<Rightarrow> subscription \<Rightarrow> bool" where
  "owed dbg [] w p = False"
| "owed dbg (h # hs) w p = (told h w p \<or> owed dbg hs (site_step dbg h w) p)"

lemma site_run_simps [simp]:
  "site_run dbg [] w = w" "site_run dbg (h # hs) w = site_run dbg hs (site_step dbg h w)"
  "site_run dbg (hs @ hs') w = site_run dbg hs' (site_run dbg hs w)"
  by (simp_all add: site_run_def)

lemma run_signals:
  assumes "listens w n j p" "\<forall>h \<in> set hs. leaves_alone n h"
  shows "listens (site_run dbg hs w) n j p
    \<and> (er_pending (si_en (site_run dbg hs w)) j \<longleftrightarrow> er_pending (si_en w) j \<or> owed dbg hs w p)"
  using assms
proof (induction hs arbitrary: w)
  case (Cons h hs)
  have a: "leaves_alone n h" "\<forall>h \<in> set hs. leaves_alone n h" using Cons.prems(2) by simp_all
  from step_signals [OF Cons.prems(1) a(1), of dbg] Cons.IH [OF _ a(2), of "site_step dbg h w"] show ?case by auto
qed simp

text \<open>A touched table stays on the list, or the stream has been told, until a rollback.\<close>

lemma audit_site_tables:
  "si_tables (audit_site env d q i dec b r w) = (if nd_audit (si_db w) = None then si_tables w else [])"
  by (simp add: audit_site_def)

lemma touched_stays:
  assumes l: "listens w n j p" and a: "leaves_alone n h" and r: "h \<noteq> RollsBack"
    and t: "t \<in> set (si_tables w)" and c: "concerns t p"
  shows "t \<in> set (si_tables (site_step dbg h w)) \<or> er_pending (si_en (site_step dbg h w)) j"
proof -
  let ?w = "site_step dbg h w"
  have pend: "er_pending (si_en ?w) j" if "told h w p" using step_signals [OF l a, of dbg] that by simp
  have aud: "nd_audit (si_db w) \<noteq> None \<Longrightarrow> \<exists>t \<in> audited_tables w. concerns t p"
    using t c by (auto simp: audited_tables_def)
  show ?thesis
  proof (cases h)
    case (Opens m env lane peer e ok)
    show ?thesis
    proof (cases "nd_audit (si_db w) = None")
      case True
      with t show ?thesis
        by (auto simp: site_step_def Opens open_lane_def Let_def audit_site_tables subscribe_def split: prod.split option.split)
    next
      case False
      with aud have "si_streams w m = None \<Longrightarrow> told h w p" by (simp add: told_def Opens)
      with pend t show ?thesis by (cases "si_streams w m = None") (auto simp: site_step_def Opens)
    qed
  next
    case (Acks m ok)
    with t show ?thesis by (auto simp: site_step_def ack_lane_def end_lane_def split: option.split)
  next
    case (Rounds m env rd)
    show ?thesis
    proof (cases "told h w p")
      case False
      have "t \<in> set (si_tables (loop_lane dbg env rd m s w))"
        if s: "si_streams w m = Some s" "ls_phase s = Looping" for s
      proof -
        have nr: "\<not> writes_row s rd (si_en w) \<or> nd_audit (si_db w) = None"
          using False aud s by (cases "nd_audit (si_db w) = None") (auto simp: told_def Rounds)
        obtain got en where g: "receive (ls_sub s) (si_en w) = (got, en)" by fastforce
        from nr t receive_sel(4) [OF g] show ?thesis
          by (auto simp: loop_lane_def end_lane_def writes_row_def g Let_def audit_site_tables
              split: round.split received.split sent.split envelope_object.split)
      qed
      with t show ?thesis by (auto simp: site_step_def Rounds split: option.split)
    qed (use pend in blast)
  next
    case (Commits db)
    then have "told h w p" using t c by (auto simp: told_def)
    with pend show ?thesis by blast
  next
    case (Watches seen)
    with t show ?thesis by (auto simp: site_step_def split: prod.split)
  next
    case ClosesAll
    with a show ?thesis by (simp add: leaves_alone_def)
  next
    case (Touches t')
    with t show ?thesis by (simp add: site_step_def)
  qed (use r in simp)
qed

lemma touched_or_told:
  assumes "listens w n j p" "\<forall>h \<in> set hs. leaves_alone n h \<and> h \<noteq> RollsBack"
    and "t \<in> set (si_tables w) \<or> er_pending (si_en w) j" "concerns t p"
  shows "t \<in> set (si_tables (site_run dbg hs w)) \<or> er_pending (si_en (site_run dbg hs w)) j"
  using assms(1-3)
proof (induction hs arbitrary: w)
  case (Cons h hs)
  have a: "leaves_alone n h" "h \<noteq> RollsBack" using Cons.prems(2) by simp_all
  have "t \<in> set (si_tables (site_step dbg h w)) \<or> er_pending (si_en (site_step dbg h w)) j"
    using Cons.prems(3) touched_stays [OF Cons.prems(1) a _ assms(4)] step_signals [OF Cons.prems(1) a(1), of dbg] by blast
  with Cons.IH [of "site_step dbg h w"] Cons.prems step_signals [OF Cons.prems(1) a(1), of dbg] show ?case by simp
qed simp

end
