(* ===== verification/Entrain_Properties.thy ===== *)
theory Entrain_Properties
  imports Entrain_Facts Pipeline_Properties
begin

text \<open>The properties of projections and entrainments, each with a run of a small node.\<close>

subsection \<open>A small node with a point\<close>

definition notes_row :: projection_row where
  "notes_row =
     \<lparr>pr_point_iri = ''urn:notes'', pr_kind = ''sympathetic'', pr_label = None, pr_icon = None, pr_role = None,
      pr_path = [], pr_ord = 0, pr_projects_path = None, pr_modulation = None, pr_signal = None,
      pr_params_order = None, pr_fields = None, pr_signal_template = None, pr_fires = None,
      pr_resource = Some ''notes''\<rparr>"

definition notes_policy :: policy_row where
  "notes_policy = \<lparr>po_peer = ''p'', po_table = ''notes'', po_action = ''entrain'', po_effect = ''allow'', po_note = None\<rparr>"

definition notes_db :: "int list node_db" where
  "notes_db = toy_db\<lparr>nd_auth := (nd_auth toy_db)\<lparr>db_policy := Some [notes_policy]\<rparr>, nd_projection := Some [notes_row]\<rparr>"

definition notes_dbg :: "envelope_object \<Rightarrow> string" where
  "notes_dbg obj = ''frame''"

text \<open>The peer's stream, acknowledged.\<close>

definition notes_start :: "int list happening list" where
  "notes_start = [Opens 0 toy_env Remote ''p'' \<lparr>en_id = ''e1'', en_point = ''urn:notes''\<rparr> True, Acks 0 True]"

definition notes_site :: "int list site" where
  "notes_site = site_run notes_dbg notes_start (site_new notes_db False)"

definition notes_sub :: subscription where
  "notes_sub = \<lparr>su_point = ''urn:notes'', su_table = Some ''notes''\<rparr>"

lemmas notes_defs = notes_site_def notes_start_def notes_sub_def notes_db_def notes_policy_def notes_row_def
  site_step_def open_lane_def gate_entrain_def gate_entrain_owner_def find_point_def visible_def
  point_actions_def actions_for_kind_def modulation_is_def allow_row_def PROJECTION_CHANGED_def
  audit_site_def commit_site_def on_commit_def fanout_def on_update_def subscribe_def put_stream_def
  ack_lane_def site_new_def entrainments_new_def lane_direction_def lane_decider_def audit_direct_dir_def
  audit_full_dir_def signal_table_def signal_point_def signal_where_def peer_known_def read_rsntr_def Let_def

lemma notes_gate: "gate_entrain notes_db ''p'' ''urn:notes'' = EntrainAllowed (Some ''notes'')"
  by (simp add: notes_defs toy_db_def)

lemma notes_site_stream:
  "si_streams notes_site 0 = Some \<lparr>ls_lane = Remote, ls_peer = ''p'', ls_id = ''e1'', ls_point = ''urn:notes'',
     ls_sub = 0, ls_seq = 0, ls_phase = Looping, ls_frames = [bare_done ''e1''], ls_torn = False\<rparr>"
  "er_subs (si_en notes_site) = [(0, notes_sub)]" "\<not> er_pending (si_en notes_site) 0"
  by (simp_all add: notes_defs toy_db_def fun_eq_iff split: prod.split)




subsection \<open>Signals\<close>





subsection \<open>Streams and registry\<close>

text \<open>C11. However the steps of a node interleave, the frames an entrain stream has sent
  whole so far are a response that the protocol's reader accepts: an acknowledgment and
  vibrations numbered from zero, closed by at most one frame, or one refusal. A stream on which
  the timeout cut a frame in the middle, so that what follows is not read as frames, is over, and the frames before the cut are the acknowledgment and vibrations alone: the client does
  not get the limit-exceeded error.\<close>

lemma entrain_streams_are_accepted:
  assumes "si_streams (site_run dbg hs (site_new db observed)) n = Some s" "ls_frames s \<noteq> []"
  shows "ent_completes (entrainment_new (ls_id s) (ls_point s)) (ls_frames s)
    \<and> (ls_torn s \<longrightarrow> ls_phase s = Over \<and> (\<exists>vs. ls_frames s = bare_done (ls_id s) # map Vibration vs))"
proof
  have "site_ok (site_run dbg hs (site_new db observed))" by (rule site_run_ok) (rule site_new_ok)
  with assms(1) have s: "stream_ok s" by (simp add: site_ok_def)
  have "entrainment_shape (ls_id s) (ls_point s) (ls_frames s)"
  proof (cases "ls_phase s")
    case Looping
    with s show ?thesis by (auto simp: stream_ok_def bare_done_def intro!: entrainment_shape.flowing)
  qed (use s assms(2) in \<open>auto simp: stream_ok_def\<close>)
  then show "ent_completes (entrainment_new (ls_id s) (ls_point s)) (ls_frames s)" by (rule shape_ent_completes)
  show "ls_torn s \<longrightarrow> ls_phase s = Over \<and> (\<exists>vs. ls_frames s = bare_done (ls_id s) # map Vibration vs)"
    using s by (cases "ls_phase s") (simp_all add: stream_ok_def)
qed

lemma entrain_streams_are_accepted_witness:
  "ent_completes (entrainment_new ''e1'' ''urn:notes'') [bare_done ''e1'']"
  using entrain_streams_are_accepted [OF notes_site_stream(1) [unfolded notes_site_def]] by simp

text \<open>C28. The registry holds an entry exactly as long as its handler runs: every entry is that of
  one running stream, on the stream's point, and when every stream is over none is left.\<close>

lemma registry_lives_with_streams:
  assumes "w = site_run dbg hs (site_new db observed)"
  shows "(\<forall>(j, p) \<in> set (er_subs (si_en w)).
            \<exists>!n. \<exists>s. running (si_streams w) n s \<and> ls_sub s = j \<and> ls_point s = su_point p)
    \<and> ((\<forall>n s. \<not> running (si_streams w) n s) \<longrightarrow> active (si_en w) = 0)"
proof -
  have "site_ok w" unfolding assms by (rule site_run_ok) (rule site_new_ok)
  note c = site_channels [OF this]
  have e: "\<exists>!n. \<exists>s. running (si_streams w) n s \<and> ls_sub s = j \<and> ls_point s = su_point p"
    if m: "(j, p) \<in> set (er_subs (si_en w))" for j p
  proof -
    obtain n s where "running (si_streams w) n s" "ls_sub s = j" "ls_point s = su_point p"
      by (rule channels_entry [OF c m])
    then show ?thesis using channels_unique [OF c] by blast
  qed
  have "active (si_en w) = 0" if over: "\<forall>n s. \<not> running (si_streams w) n s"
  proof -
    have "(j, p) \<notin> set (er_subs (si_en w))" for j p
      using channels_entry [OF c, of j p] over by metis
    then have "er_subs (si_en w) = []" by (metis list.set_intros(1) neq_Nil_conv surj_pair)
    then show ?thesis by (simp add: active_def)
  qed
  with e show ?thesis by blast
qed

lemma registry_lives_with_streams_witness:
  "\<exists>!n. \<exists>s. running (si_streams notes_site) n s \<and> ls_sub s = 0 \<and> ls_point s = ''urn:notes''"
proof -
  have "\<forall>(j, p) \<in> set (er_subs (si_en notes_site)).
      \<exists>!n. \<exists>s. running (si_streams notes_site) n s \<and> ls_sub s = j \<and> ls_point s = su_point p"
    using registry_lives_with_streams [OF notes_site_def] by blast
  then show ?thesis by (simp add: notes_site_stream(2) notes_sub_def)
qed

text \<open>A vibration whose send times out with a part of it written: the error that should end the
  entrainment follows half a frame, and the client cannot read it.\<close>

lemma torn_vibration_hides_the_error:
  assumes "si_streams w n = Some s" "ls_phase s = Looping" "fst (receive (ls_sub s) (si_en w)) = Signal"
  shows "si_streams (site_step dbg (Rounds n env (OnSignal (Stalled True Through))) w) n
    = Some (s\<lparr>ls_seq := ls_seq s + 1, ls_phase := Over, ls_torn := True\<rparr>)"
  using assms
  by (cases "receive (ls_sub s) (si_en w)")
    (simp add: site_step_def loop_lane_def end_lane_def damp_slow_def say_def tear_def put_stream_def Let_def)

text \<open>The doc of \<open>close_all\<close> says the client sees its Done. The handler sends none: it ends the
  stream with what was sent before.\<close>

lemma closing_sends_no_done:
  "si_streams (site_run notes_dbg [ClosesAll, Rounds 0 toy_env OnClosed] notes_site) 0
     = Some \<lparr>ls_lane = Remote, ls_peer = ''p'', ls_id = ''e1'', ls_point = ''urn:notes'',
         ls_sub = 0, ls_seq = 0, ls_phase = Over, ls_frames = [bare_done ''e1''], ls_torn = False\<rparr>"
  by (simp add: site_step_def loop_lane_def close_all_def receive_def end_lane_def notes_site_stream)

text \<open>The end of an owner's entrainment is recorded as a remote request the node allowed.\<close>

lemma owner_end_recorded_as_remote:
  assumes "si_streams w n = Some s" "ls_phase s = Looping" "ls_lane s = Owner" "nd_audit (si_db w) \<noteq> None"
    and "w' = site_step dbg (Rounds n env (OnFrame (Damp \<lparr>da_id = None, da_point = ls_point s\<rparr>) True)) w"
  shows "au_direction (last (ledger (si_db w'))) = ''in'' \<and> au_decided_by (last (ledger (si_db w'))) = ''node''"
  using assms
  by (auto simp: site_step_def loop_lane_def end_lane_def audit_site_def audit_direct_dir_def audit_full_dir_def
      ledger_def Let_def)

subsection \<open>Projections and gates\<close>

lemma offered_step:
  assumes "offered db read peer False (r # rows) = Inr points"
  obtains b ps where "visible db peer (pr_kind r) (pr_modulation r) (pr_resource r) = Inr b"
    "offered db read peer False rows = Inr ps" "points = (if b then row_to_point read r # ps else ps)"
proof (cases "visible db peer (pr_kind r) (pr_modulation r) (pr_resource r)")
  case (Inr b)
  with assms that show ?thesis by (cases "offered db read peer False rows") auto
qed (use assms in simp)

lemma offered_visible:
  assumes "offered db read peer False rows = Inr points" "r \<in> set rows"
  shows "\<exists>b. visible db peer (pr_kind r) (pr_modulation r) (pr_resource r) = Inr b"
  using assms
proof (induction rows arbitrary: points)
  case (Cons q rows)
  show ?case by (rule offered_step [OF Cons.prems(1)]) (use Cons in auto)
qed simp

lemma offered_points:
  assumes "offered db read peer False rows = Inr points"
  shows "pt \<in> set points \<longleftrightarrow>
    (\<exists>r \<in> set rows. pt = row_to_point read r \<and> visible db peer (pr_kind r) (pr_modulation r) (pr_resource r) = Inr True)"
  using assms
proof (induction rows arbitrary: points)
  case (Cons q rows)
  show ?case
  proof (rule offered_step [OF Cons.prems])
    fix b ps
    assume v: "visible db peer (pr_kind q) (pr_modulation q) (pr_resource q) = Inr b"
      and o: "offered db read peer False rows = Inr ps" and p: "points = (if b then row_to_point read q # ps else ps)"
    show ?thesis using Cons.IH [OF o] v p by (cases b) auto
  qed
qed simp

lemma set_rows_at: "set (rows_at path rows) = {r \<in> set rows. pr_path r = path}"
  by (auto simp: rows_at_def)

lemma gate_entrain_sympathetic:
  assumes "peer_known db peer" "find_point db point = Some r" "pr_kind r = ''sympathetic''" "point \<noteq> PROJECTION_CHANGED"
    and "visible db peer (pr_kind r) (pr_modulation r) (pr_resource r) = Inr b"
  shows "gate_entrain db peer point
    = (if b then EntrainAllowed (pr_resource r) else EntrainDenied (''no entrain policy for <'' @ point @ ''>''))"
  using assms unfolding gate_entrain_def by (cases b) (simp_all only: option.case sum.case bool.case if_True if_False not_True_eq_False not_False_eq_True, simp_all)

lemma built_offers:
  assumes "nd_projection db = Some table" "build_projection db read peer i path unf = Inr (Built pj)"
  obtains points where "offered db read peer unf (rows_at (trim path) table) = Inr points"
    "pj_offers pj = points @ (if trim path = [] then [projection_changed_point] else [])"
proof (cases "offered db read peer unf (rows_at (trim path) table)")
  case (Inl e)
  with assms show ?thesis
    by (cases "rows_at (trim path) table = [] \<and> trim path \<noteq> []") (simp_all add: build_projection_def Let_def)
next
  case (Inr points)
  have "Inr (Built pj) = (Inr (Built \<lparr>pj_id = (if i = [] then None else Some i),
      pj_offers = points @ (if trim path = [] then [projection_changed_point] else [])\<rparr>)
        :: (sqlite_error, projection_outcome) result)"
    using assms Inr
    by (cases "rows_at (trim path) table = [] \<and> trim path \<noteq> []") (simp_all only: build_projection_def Let_def option.case rbind_simps if_True if_False, simp_all)
  then have "pj_offers pj = points @ (if trim path = [] then [projection_changed_point] else [])" by simp
  with Inr that show ?thesis by blast
qed

text \<open>C35. The projection a known peer gets and the entrain gate agree: a Sympathetic point of
  the path is offered exactly when the gate lets the peer entrain it.\<close>

lemma offered_points_can_be_entrained:
  assumes "peer_known db peer" "nd_projection db = Some table" "distinct (map pr_point_iri table)"
    and "build_projection db read peer i path False = Inr (Built pj)"
    and "r \<in> set table" "pr_path r = trim path" "pr_kind r = ''sympathetic''" "pr_point_iri r \<noteq> PROJECTION_CHANGED"
  shows "pr_point_iri r \<in> pt_iri ` set (pj_offers pj)
    \<longleftrightarrow> gate_entrain db peer (pr_point_iri r) = EntrainAllowed (pr_resource r)"
proof -
  obtain points where o: "offered db read peer False (rows_at (trim path) table) = Inr points"
    "pj_offers pj = points @ (if trim path = [] then [projection_changed_point] else [])"
    by (rule built_offers [OF assms(2,4)])
  have r: "r \<in> set (rows_at (trim path) table)" using assms(5,6) by (simp add: set_rows_at)
  have same: "q = r" if "q \<in> set table" "pr_point_iri q = pr_point_iri r" for q
    using assms(3,5) that by (auto simp: distinct_map dest: inj_onD)
  obtain b where v: "visible db peer (pr_kind r) (pr_modulation r) (pr_resource r) = Inr b"
    using offered_visible [OF o(1) r] by blast
  have f: "find_point db (pr_point_iri r) = Some r"
  proof -
    obtain q where q: "List.find (\<lambda>q. pr_point_iri q = pr_point_iri r) table = Some q"
      using assms(5) by (metis (mono_tags, lifting) find_None_iff not_Some_eq)
    then have "q \<in> set table" "pr_point_iri q = pr_point_iri r" by (auto simp: find_Some_iff)
    then have "q = r" by (rule same)
    with q show ?thesis by (simp add: find_point_def assms(2))
  qed
  have "pr_point_iri r \<in> pt_iri ` set points \<longleftrightarrow> b"
  proof
    assume "pr_point_iri r \<in> pt_iri ` set points"
    then obtain pt where pt: "pt \<in> set points" "pt_iri pt = pr_point_iri r" by force
    from offered_points [OF o(1)] pt(1) obtain q where q: "q \<in> set (rows_at (trim path) table)"
      "pt = row_to_point read q" "visible db peer (pr_kind q) (pr_modulation q) (pr_resource q) = Inr True" by blast
    have "q = r" using q(1,2) pt(2) same by (auto simp: set_rows_at row_to_point_def)
    with q(3) v show b by simp
  next
    assume b
    with v have "visible db peer (pr_kind r) (pr_modulation r) (pr_resource r) = Inr True" by simp
    with r offered_points [OF o(1)] have m: "row_to_point read r \<in> set points" by blast
    have "pt_iri (row_to_point read r) = pr_point_iri r" by (simp add: row_to_point_def)
    with m show "pr_point_iri r \<in> pt_iri ` set points" by (metis image_eqI)
  qed
  moreover have "pt_iri projection_changed_point = PROJECTION_CHANGED" by (simp add: projection_changed_point_def)
  ultimately have "pr_point_iri r \<in> pt_iri ` set (pj_offers pj) \<longleftrightarrow> b"
    unfolding o(2) using assms(8) by (cases "trim path = []") (simp_all only: if_True if_False set_append image_Un Un_iff list.set image_insert image_empty insert_iff empty_iff append_Nil2 simp_thms)
  moreover have "gate_entrain db peer (pr_point_iri r) = EntrainAllowed (pr_resource r) \<longleftrightarrow> b"
    using gate_entrain_sympathetic [OF assms(1) f assms(7,8) v] by simp
  ultimately show ?thesis by simp
qed

lemma offered_points_can_be_entrained_witness:
  "\<exists>pj. build_projection notes_db (\<lambda>_. None) ''p'' [] [] False = Inr (Built pj) \<and> ''urn:notes'' \<in> pt_iri ` set (pj_offers pj)"
proof -
  have t: "trim [] = []" by (simp add: trim_no_space)
  obtain pj where b: "build_projection notes_db (\<lambda>_. None) ''p'' [] [] False = Inr (Built pj)"
    by (simp add: build_projection_def t notes_defs rows_at_def toy_db_def)
  have "peer_known notes_db ''p''" "nd_projection notes_db = Some [notes_row]"
    by (simp_all add: peer_known_def notes_db_def toy_db_def)
  from offered_points_can_be_entrained [OF this _ b, of notes_row] notes_gate b show ?thesis
    by (simp add: t notes_row_def PROJECTION_CHANGED_def)
qed

lemma gate_entrain_cong:
  assumes "peer_known db peer = peer_known db' peer" "find_point db point = find_point db' point"
    and "\<And>k m r. visible db peer k m r = visible db' peer k m r"
  shows "gate_entrain db peer point = gate_entrain db' peer point"
  unfolding gate_entrain_def assms ..

text \<open>A deny row never keeps a peer from entraining a point: removing every deny row of the
  policy changes no answer of the gate, unlike the gates of media sources, mods and statements.\<close>

lemma entrain_ignores_deny_rows:
  assumes "db_policy (nd_auth db) = Some rows"
  shows "gate_entrain (db\<lparr>nd_auth := (nd_auth db)\<lparr>db_policy := Some (filter (\<lambda>r. po_effect r \<noteq> ''deny'') rows)\<rparr>\<rparr>) peer point
    = gate_entrain db peer point"
proof (rule gate_entrain_cong)
  have "list_ex (allow_row a res peer) (filter (\<lambda>r. po_effect r \<noteq> ''deny'') rows) = list_ex (allow_row a res peer) rows"
    for a res by (auto simp: list_ex_iff allow_row_def)
  then show "visible (db\<lparr>nd_auth := (nd_auth db)\<lparr>db_policy := Some (filter (\<lambda>r. po_effect r \<noteq> ''deny'') rows)\<rparr>\<rparr>) peer k m r
    = visible db peer k m r" for k m r
    by (simp add: visible_def assms split: option.split)
qed (simp_all add: peer_known_def read_rsntr_def find_point_def)

definition denied_db :: "int list node_db" where
  "denied_db = notes_db\<lparr>nd_auth := (nd_auth notes_db)\<lparr>db_policy := Some [notes_policy\<lparr>po_effect := ''deny''\<rparr>, notes_policy]\<rparr>\<rparr>"

lemma denied_without: "denied_db\<lparr>nd_auth := (nd_auth denied_db)\<lparr>db_policy := Some [notes_policy]\<rparr>\<rparr> = notes_db"
  by (simp add: denied_db_def notes_db_def)

lemma entrain_ignores_deny_rows_witness:
  "gate_entrain denied_db ''p'' ''urn:notes'' = EntrainAllowed (Some ''notes'')"
proof -
  have p: "db_policy (nd_auth denied_db) = Some [notes_policy\<lparr>po_effect := ''deny''\<rparr>, notes_policy]"
    by (simp add: denied_db_def)
  have f: "filter (\<lambda>r. po_effect r \<noteq> ''deny'') [notes_policy\<lparr>po_effect := ''deny''\<rparr>, notes_policy] = [notes_policy]"
    by (simp add: notes_policy_def)
  show ?thesis
    using entrain_ignores_deny_rows [OF p, of "''p''" "''urn:notes''"] notes_gate
    unfolding f denied_without by simp
qed

end
