(* ===== verification/Mod_Install.thy ===== *)
theory Mod_Install
  imports Pipeline_Sparql Entrainments
begin

text \<open>
  The \<open>mod-install\<close> modulation (\<open>crates/node/src/mod_install.rs\<close>, \<open>serve_mod_install\<close> and
  \<open>serve_mod_install_owner\<close> of \<open>pipeline.rs\<close>): a peer installs, updates or removes a wasm mod.

  Parameters: the Turtle parser with the implied prefixes, the JSON of the parked parameters and
  of the capabilities, SHA-256, and the callbacks the serving process registers on the node: the
  blob fetcher, the blob importer and the reloader of the mods host, which answers the names it
  refused with the reasons. \<open>between n\<close> is what other jobs do to the database before the n-th
  job of the handler after its gate.
\<close>

record 'u mod_ext =
  mx_turtle :: "string \<Rightarrow> (string, Vocab.triple list) result"
  mx_human :: human_ext
  mx_params :: "parked_params \<Rightarrow> string"
  mx_debug :: "string \<Rightarrow> string"
  mx_caps_json :: "string list \<Rightarrow> string"
  mx_sha256 :: "byte list \<Rightarrow> byte list"
  mx_fetch :: "(string \<Rightarrow> string \<Rightarrow> string list \<Rightarrow> (string, byte list) result) option"
  mx_import :: "(string \<Rightarrow> (string, string \<times> nat) result) option"
  mx_reload :: "('u node_db \<Rightarrow> (string, (string \<times> string) list) result) option"

subsection \<open>The signal\<close>

datatype verb = Install | Remove

record mod_install =
  mi_verb :: verb
  mi_name :: string
  mi_hash :: "string option"
  mi_bytes :: "nat option"
  mi_caps :: "string list"
  mi_addrs :: "string list"
  mi_timeout_ms :: "nat option"
  mi_memory_mb :: "nat option"
  mi_note :: "string option"

fun term_text :: "Vocab.rdf_term \<Rightarrow> string option" where
  "term_text (TNamed n) = Some n"
| "term_text (TLiteral l) = Some (lit_value l)"
| "term_text (TBlank b) = None"

definition name_ok :: "string \<Rightarrow> bool" where
  "name_ok name \<longleftrightarrow>
     name \<noteq> [] \<and> list_all (\<lambda>c. is_alnum c \<or> c = CHR ''-'' \<or> c = CHR ''_'' \<or> c = CHR ''.'') name"

text \<open>The typed subject: the last triple that names one of the two classes.\<close>

definition verb_of :: "Vocab.triple \<Rightarrow> (verb \<times> Vocab.node) option" where
  "verb_of t =
     (if predicate t = rdf_iri ''type'' then
        (case object t of
           TNamed cls \<Rightarrow>
             if cls = rsntr_iri ''ModInstall'' then Some (Install, subject t)
             else if cls = rsntr_iri ''ModRemove'' then Some (Remove, subject t)
             else None
         | _ \<Rightarrow> None)
      else None)"

fun typed_subject :: "Vocab.triple list \<Rightarrow> (verb \<times> Vocab.node) option \<Rightarrow> (verb \<times> Vocab.node) option" where
  "typed_subject [] acc = acc"
| "typed_subject (t # ts) acc =
     typed_subject ts (case verb_of t of None \<Rightarrow> acc | Some v \<Rightarrow> Some v)"

definition prop_one :: "(string \<times> Vocab.rdf_term) list \<Rightarrow> string \<Rightarrow> string option" where
  "prop_one props local = Option.bind (map_of props (rsntr_iri local)) term_text"

definition prop_all :: "(string \<times> Vocab.rdf_term) list \<Rightarrow> string \<Rightarrow> string list" where
  "prop_all props local =
     List.map_filter (\<lambda>(q, ob). term_text ob) (filter (\<lambda>(q, ob). q = rsntr_iri local) props)"

definition mod_parse :: "'u mod_ext \<Rightarrow> string \<Rightarrow> (string, mod_install) result" where
  "mod_parse x signal =
     (case mx_turtle x signal of
        Inl e \<Rightarrow> Inl (''mod-install signal is not valid Turtle: '' @ e)
      | Inr triples \<Rightarrow>
          (case typed_subject triples None of
             None \<Rightarrow> Inl ''mod-install signal carries no rsntr:ModInstall or rsntr:ModRemove node''
           | Some (verb, subj) \<Rightarrow>
               let props = map (\<lambda>t. (predicate t, object t)) (filter (\<lambda>t. subject t = subj) triples)
               in case prop_one props ''name'' of
                    None \<Rightarrow> Inl ''mod-install signal has no rsntr:name''
                  | Some name \<Rightarrow>
                      if \<not> name_ok name
                      then Inl (''mod name '' @ mx_debug x name @ '' must be ASCII alphanumeric plus - _ .'')
                      else Inr \<lparr>mi_verb = verb, mi_name = name, mi_hash = prop_one props ''hash'',
                             mi_bytes = Option.bind (prop_one props ''bytes'') parse_u64,
                             mi_caps = prop_all props ''caps'', mi_addrs = prop_all props ''addr'',
                             mi_timeout_ms = Option.bind (prop_one props ''timeoutMs'') parse_u64,
                             mi_memory_mb = Option.bind (prop_one props ''memoryMb'') parse_u64,
                             mi_note = prop_one props ''note''\<rparr>))"

subsection \<open>The gate\<close>

datatype install_gate =
    InstallUnknownPeer
  | InstallDenied string
  | InstallPending
  | InstallAllowed

definition policy_matches :: "'u node_db \<Rightarrow> string \<Rightarrow> string \<Rightarrow> string \<Rightarrow> string \<Rightarrow> bool" where
  "policy_matches db peer name action effect =
     (case db_policy (nd_auth db) of
        None \<Rightarrow> False
      | Some rows \<Rightarrow>
          list_ex (\<lambda>r. po_action r = action \<and> po_effect r = effect
                     \<and> (po_peer r = peer \<or> po_peer r = ''*'')
                     \<and> (po_table r = name \<or> po_table r = ''*'')) rows)"

definition install_footprint :: "string \<Rightarrow> footprint" where
  "install_footprint name = from_tables action_kind.Other [(name, [])]"

definition install_fingerprint :: "'u mod_ext \<Rightarrow> string \<Rightarrow> string \<Rightarrow> string" where
  "install_fingerprint x sig name =
     statement_fingerprint (hx_sha (mx_human x)) ''mod-install'' sig (install_footprint name)"

definition install_params :: "'u mod_ext \<Rightarrow> string \<Rightarrow> string \<Rightarrow> parked_params" where
  "install_params x sig name =
     \<lparr>pp_action = ''mod-install'', pp_fingerprint = install_fingerprint x sig name,
      pp_footprint = install_footprint name\<rparr>"

definition park_install ::
  "'u mod_ext \<Rightarrow> node_env \<Rightarrow> string \<Rightarrow> string \<Rightarrow> string \<Rightarrow> 'u node_db \<Rightarrow> (sqlite_error, 'u node_db) result" where
  "park_install x env peer sig name db =
     (case db_inbox (nd_auth db) of
        None \<Rightarrow> Inl (no_table ''_inbox'')
      | Some rows \<Rightarrow>
          (case find_pending (hx_fingerprint (mx_human x)) peer (install_fingerprint x sig name) rows of
             None \<Rightarrow> Inl (SqliteFailure OtherCode ''malformed JSON'')
           | Some True \<Rightarrow> Inr db
           | Some False \<Rightarrow>
               (case insert_inbox
                       \<lparr>ib_request_id = env_ulid (ne_call env), ib_peer = peer, ib_sql = sig,
                        ib_params = mx_params x (install_params x sig name), ib_decision = None,
                        ib_decided_by = None, ib_received_at = now_rfc3339 env\<rparr> (nd_auth db) of
                  None \<Rightarrow> Inl (SqliteFailure OtherCode ''UNIQUE constraint failed: _inbox.request_id'')
                | Some auth \<Rightarrow> Inr (db\<lparr>nd_auth := auth\<rparr>))))"

definition missing_caps :: "'u node_db \<Rightarrow> string \<Rightarrow> string \<Rightarrow> string list \<Rightarrow> string list" where
  "missing_caps db peer name caps =
     filter (\<lambda>c. policy_matches db peer name (''mod-cap:'' @ c) ''deny''
               \<or> \<not> policy_matches db peer name (''mod-cap:'' @ c) ''allow'') caps"

definition install_gate ::
  "'u mod_ext \<Rightarrow> node_env \<Rightarrow> string \<Rightarrow> string \<Rightarrow> string \<Rightarrow> string list \<Rightarrow> string \<Rightarrow> 'u node_db
    \<Rightarrow> install_gate \<times> 'u node_db" where
  "install_gate x env peer i name caps sig db =
     (let row = audit_direct env peer i (''mod-install '' @ name)
      in if \<not> peer_known db peer
         then (InstallUnknownPeer, row ''deny'' ''peer-gate'' ''unknown peer'' db)
         else if policy_matches db peer name ''mod-install'' ''deny''
         then (let reason = ''mod-install on '' @ mx_debug x name @ '' is denied by policy''
               in (InstallDenied reason, row ''deny'' ''policy'' reason db))
         else if \<not> policy_matches db peer name ''mod-install'' ''allow''
         then (case park_install x env peer sig name db of
                 Inr db1 \<Rightarrow> (InstallPending, row ''deny'' ''human'' PENDING_REASON db1)
               | Inl e \<Rightarrow>
                   let reason = ''no policy grants you mod-install on '' @ mx_debug x name
                   in (InstallDenied reason,
                       row ''deny'' ''policy'' (reason @ '' (park failed: '' @ err_text e @ '')'') db))
         else if missing_caps db peer name caps \<noteq> []
         then (let reason = ''the caps ceiling for '' @ mx_debug x name @ '' does not grant: ''
                     @ join '', '' (missing_caps db peer name caps)
               in (InstallDenied reason, row ''deny'' ''policy'' reason db))
         else (InstallAllowed, row ''allow'' ''policy'' ''mod-install'' db))"

subsection \<open>The rows\<close>

definition sha256_hex :: "'u mod_ext \<Rightarrow> byte list \<Rightarrow> string" where
  "sha256_hex x bytes = concat (map (\<lambda>b. hex2 False (unat b)) (mx_sha256 x bytes))"

definition upsert_mod ::
  "string \<Rightarrow> byte list \<Rightarrow> string \<Rightarrow> string \<Rightarrow> string \<Rightarrow> string option \<Rightarrow> 'u node_db
    \<Rightarrow> (sqlite_error, 'u node_db) result" where
  "upsert_mod name wasm sha caps limits note db =
     (case nd_modulations db of
        None \<Rightarrow> Inl (no_table ''_modulations'')
      | Some rows \<Rightarrow>
          if name \<in> set (map mo_name rows)
          then Inr (db\<lparr>nd_modulations := Some (map (\<lambda>r. if mo_name r = name
                 then r\<lparr>mo_wasm := Some wasm, mo_sha256 := sha, mo_enabled := 1, mo_caps := caps,
                        mo_limits := limits, mo_note := note\<rparr> else r) rows)\<rparr>)
          else Inr (db\<lparr>nd_modulations := Some (rows @
                 [\<lparr>mo_name = name, mo_wasm = Some wasm, mo_sha256 = sha, mo_enabled = 1, mo_caps = caps,
                   mo_config = ''{}'', mo_limits = limits, mo_note = note\<rparr>])\<rparr>))"

definition set_enabled :: "string \<Rightarrow> bool \<Rightarrow> 'u node_db \<Rightarrow> (sqlite_error, 'u node_db) result" where
  "set_enabled name enabled db =
     (case nd_modulations db of
        None \<Rightarrow> Inl (no_table ''_modulations'')
      | Some rows \<Rightarrow>
          Inr (db\<lparr>nd_modulations := Some (map (\<lambda>r. if mo_name r = name
                 then r\<lparr>mo_enabled := if enabled then 1 else 0\<rparr> else r) rows)\<rparr>))"

definition remove_mod :: "string \<Rightarrow> 'u node_db \<Rightarrow> (sqlite_error, bool \<times> 'u node_db) result" where
  "remove_mod name db =
     (case nd_modulations db of
        None \<Rightarrow> Inl (no_table ''_modulations'')
      | Some rows \<Rightarrow>
          Inr (name \<in> set (map mo_name rows),
               db\<lparr>nd_modulations := Some (filter (\<lambda>r. mo_name r \<noteq> name) rows)\<rparr>))"

subsection \<open>The lanes\<close>

definition DEFAULT_MOD_MEMORY_MB :: nat where "DEFAULT_MOD_MEMORY_MB = 64"

definition MAX_WASM_BYTES :: nat where "MAX_WASM_BYTES = 4 * 1024 * 1024"

definition eff_timeout :: "node_config \<Rightarrow> mod_install \<Rightarrow> nat" where
  "eff_timeout cfg m =
     (case mi_timeout_ms m of Some t \<Rightarrow> min t (nc_max_duration_ms cfg) | None \<Rightarrow> nc_max_duration_ms cfg)"

definition eff_memory :: "node_config \<Rightarrow> mod_install \<Rightarrow> nat" where
  "eff_memory cfg m =
     min (case mi_memory_mb m of Some n \<Rightarrow> n | None \<Rightarrow> DEFAULT_MOD_MEMORY_MB) (nc_max_mod_memory_mb cfg)"

definition limits_json :: "nat \<Rightarrow> nat \<Rightarrow> string" where
  "limits_json timeout memory =
     ''{\"timeout_ms\":'' @ show_nat timeout @ '',\"memory_mb\":'' @ show_nat memory @ ''}''"

definition as_i64 :: "nat \<Rightarrow> int" where
  "as_i64 n = sint (of_nat n :: 64 word)"

text \<open>The capabilities the gate checks.\<close>

definition checked_caps :: "mod_install \<Rightarrow> string list" where
  "checked_caps m = (if mi_verb m = Remove then [] else mi_caps m)"

definition reload_mods :: "'u mod_ext \<Rightarrow> 'u node_db \<Rightarrow> (string, (string \<times> string) list) result" where
  "reload_mods x db =
     (case mx_reload x of None \<Rightarrow> Inl ''no mod reloader is wired on this node'' | Some f \<Rightarrow> f db)"

definition table_answer :: "string \<Rightarrow> (string \<times> wire_value) list \<Rightarrow> envelope_object list" where
  "table_answer i cells =
     [Result \<lparr>rh_id = i, rh_columns = map fst cells, rh_decl_types = []\<rparr>,
      Row [\<lparr>row_seq = 0, row_cells = cells\<rparr>],
      Done \<lparr>dn_id = i, dn_row_count = Some 1, dn_affected_rows = None, dn_last_insert_rowid = None,
            dn_truncated = False\<rparr>]"

definition answer_mod_applied :: "string \<Rightarrow> string \<Rightarrow> string \<Rightarrow> stream \<Rightarrow> stream" where
  "answer_mod_applied i name verb c =
     send_all c (table_answer i [(''name'', Text name), (''status'', Text verb)])"

text \<open>The fetched wasm or the code and the text of the refusal.\<close>

definition fetch_wasm :: "'u mod_ext \<Rightarrow> string \<Rightarrow> mod_install \<Rightarrow> (error_code \<times> string, byte list) result" where
  "fetch_wasm x peer m =
     (case mi_hash m of
        None \<Rightarrow> Inl (ProtocolErrorCode, ''a mod-install carries an rsntr:hash naming the wasm blob'')
      | Some hash \<Rightarrow>
          (case mx_fetch x of
             None \<Rightarrow> Inl (EngineError, ''no blob fetcher is wired on this node'')
           | Some get \<Rightarrow>
               (case get peer hash (mi_addrs m) of
                  Inl e \<Rightarrow> Inl (EngineError, ''fetching the wasm from you failed: '' @ e)
                | Inr wasm \<Rightarrow>
                    if MAX_WASM_BYTES < length wasm
                    then Inl (LimitExceeded, ''the wasm is '' @ show_nat (length wasm)
                           @ '' bytes; the ceiling is '' @ show_nat MAX_WASM_BYTES)
                    else (case mi_bytes m of
                            Some declared \<Rightarrow>
                              if declared \<noteq> length wasm
                              then Inl (ProtocolErrorCode, ''rsntr:bytes says '' @ show_nat declared
                                     @ '' but the fetched blob is '' @ show_nat (length wasm))
                              else Inr wasm
                          | None \<Rightarrow> Inr wasm))))"

text \<open>A failed statement of the handler ends it without a frame.\<close>

definition apply_remove ::
  "'u mod_ext \<Rightarrow> (nat \<Rightarrow> 'u node_db \<Rightarrow> 'u node_db) \<Rightarrow> string \<Rightarrow> mod_install \<Rightarrow> 'u node_db \<Rightarrow> stream
    \<Rightarrow> 'u node_db \<times> stream" where
  "apply_remove x between i m db c =
     (let db0 = between 1 db
      in case remove_mod (mi_name m) db0 of
           Inl e \<Rightarrow> (db0, c)
         | Inr (existed, db1) \<Rightarrow>
             let db2 = between 2 db1
             in (db2, case reload_mods x db2 of
                        Inl e \<Rightarrow> send_error c (Some i) EngineError e
                      | Inr refused \<Rightarrow> answer_mod_applied i (mi_name m) ''removed'' c))"

definition apply_install ::
  "'u mod_ext \<Rightarrow> node_config \<Rightarrow> (nat \<Rightarrow> 'u node_db \<Rightarrow> 'u node_db) \<Rightarrow> string \<Rightarrow> string \<Rightarrow> mod_install
    \<Rightarrow> 'u node_db \<Rightarrow> stream \<Rightarrow> 'u node_db \<times> stream" where
  "apply_install x cfg between i peer m db c =
     (case fetch_wasm x peer m of
        Inl (code, reason) \<Rightarrow> (db, send_error c (Some i) code reason)
      | Inr wasm \<Rightarrow>
          let sha = sha256_hex x wasm; caps = mx_caps_json x (mi_caps m); db0 = between 1 db
          in case upsert_mod (mi_name m) wasm sha caps (limits_json (eff_timeout cfg m) (eff_memory cfg m))
                    (mi_note m) db0 of
               Inl e \<Rightarrow> (db0, c)
             | Inr db1 \<Rightarrow>
                 let db2 = between 2 db1
                 in case reload_mods x db2 of
                      Inl e \<Rightarrow> (db2, send_error c (Some i) EngineError e)
                    | Inr refused \<Rightarrow>
                        (case List.find (\<lambda>(n, r). n = mi_name m) refused of
                           Some (_, reason) \<Rightarrow>
                             let db3 = between 3 db2
                             in (case set_enabled (mi_name m) False db3 of
                                   Inl e \<Rightarrow> (db3, c)
                                 | Inr db4 \<Rightarrow>
                                     (db4, send_error c (Some i) EngineError
                                        (''mod '' @ mx_debug x (mi_name m)
                                         @ '' was refused at load and disabled: '' @ reason)))
                         | None \<Rightarrow>
                             (db2, send_all c (table_answer i
                                [(''name'', Text (mi_name m)), (''sha256'', Text sha), (''caps'', Text caps),
                                 (''timeout_ms'', Integer (as_i64 (eff_timeout cfg m))),
                                 (''memory_mb'', Integer (as_i64 (eff_memory cfg m)))]))))"

definition IMPORT_ON_OWNER :: string where
  "IMPORT_ON_OWNER = ''the mod-install blob-import parameter is served only on the owner channel''"

definition serve_mod_install ::
  "'u mod_ext \<Rightarrow> ulid \<Rightarrow> node_config \<Rightarrow> node_env \<Rightarrow> (nat \<Rightarrow> 'u node_db \<Rightarrow> 'u node_db) \<Rightarrow> string \<Rightarrow> request
    \<Rightarrow> 'u node_db \<Rightarrow> stream \<Rightarrow> 'u node_db \<times> stream" where
  "serve_mod_install x u cfg env between peer rq db c =
     (let i = id_string u rq
      in if rq_params rq \<noteq> [] then (db, send_error c (Some i) ProtocolErrorCode IMPORT_ON_OWNER)
         else case mod_parse x (rq_signal rq) of
           Inl e \<Rightarrow> (db, send_error c (Some i) ProtocolErrorCode e)
         | Inr m \<Rightarrow>
             (case install_gate x env peer i (mi_name m) (checked_caps m) (rq_signal rq) db of
                (InstallUnknownPeer, db1) \<Rightarrow> (db1, send_denied c (Some i) UNKNOWN_PEER)
              | (InstallDenied reason, db1) \<Rightarrow> (db1, send_denied c (Some i) reason)
              | (InstallPending, db1) \<Rightarrow> (db1, send_denied c (Some i) PENDING_REASON)
              | (InstallAllowed, db1) \<Rightarrow>
                  if mi_verb m = Remove then apply_remove x between i m db1 c
                  else apply_install x cfg between i peer m db1 c))"

definition serve_mod_install_owner :: "'u mod_ext \<Rightarrow> ulid \<Rightarrow> request \<Rightarrow> stream \<Rightarrow> stream" where
  "serve_mod_install_owner x u rq c =
     (let i = id_string u rq
      in case rq_params rq of
           [] \<Rightarrow> send_error c (Some i) ModUnsupported
                   (''install mods locally with `rsntr mod add`; the owner-lane mod-install ''
                    @ ''modulation only imports a wasm blob (one path parameter)'')
         | [Text path] \<Rightarrow>
             (case mx_import x of
                None \<Rightarrow> send_error c (Some i) EngineError ''no blob store is wired on this node''
              | Some import_blob \<Rightarrow>
                  (case import_blob path of
                     Inl e \<Rightarrow> send_error c (Some i) EngineError (''importing the wasm failed: '' @ e)
                   | Inr (hash, bytes) \<Rightarrow>
                       send_all c (table_answer i
                         [(''hash'', Text (''blake3:'' @ hash)), (''bytes'', Integer (as_i64 bytes))])))
         | _ \<Rightarrow> send_error c (Some i) ProtocolErrorCode
                  (''the owner-lane mod-install carries at most one parameter: the wasm ''
                   @ ''source path''))"

end
