(* ===== verification/Install_Properties.thy ===== *)
theory Install_Properties
  imports Mod_Install Graph_Lane Pipeline_Properties
begin

text \<open>The properties of remote mod installs, with the facts they rest on.\<close>

subsection \<open>The gate and the row writes\<close>

text \<open>An allow rule and no deny rule.\<close>

definition granted :: "'u node_db \<Rightarrow> string \<Rightarrow> string \<Rightarrow> string \<Rightarrow> bool" where
  "granted db peer name action \<longleftrightarrow>
     policy_matches db peer name action ''allow'' \<and> \<not> policy_matches db peer name action ''deny''"

lemma install_gate_allowed:
  "fst (install_gate x env peer i name caps sig db) = InstallAllowed \<longleftrightarrow>
     peer_known db peer \<and> granted db peer name ''mod-install''
     \<and> (\<forall>cap \<in> set caps. granted db peer name (''mod-cap:'' @ cap))"
  unfolding install_gate_def granted_def missing_caps_def
  by (simp add: Let_def filter_empty_conv split: sum.split) blast

lemma park_install_keeps:
  assumes "park_install x env peer sig name db = Inr db'"
  shows "nd_modulations db' = nd_modulations db" "nd_audit db' = nd_audit db" "nd_user db' = nd_user db"
    "db_policy (nd_auth db') = db_policy (nd_auth db)" "db_peers (nd_auth db') = db_peers (nd_auth db)"
    "db_rsntr (nd_auth db') = db_rsntr (nd_auth db)" "db_decisions (nd_auth db') = db_decisions (nd_auth db)"
  using assms by (auto simp: park_install_def insert_inbox_def split: option.splits bool.splits if_splits)

lemma audit_direct_keeps [simp]:
  "nd_modulations (audit_direct env p i s d b r db) = nd_modulations db"
  "nd_auth (audit_direct env p i s d b r db) = nd_auth db"
  "nd_user (audit_direct env p i s d b r db) = nd_user db"
  by (simp_all add: audit_direct_def audit_direct_dir_def audit_full_dir_def Let_def split: option.split)

lemma install_gate_keeps:
  "nd_modulations (snd (install_gate x env peer i name caps sig db)) = nd_modulations db"
  "nd_user (snd (install_gate x env peer i name caps sig db)) = nd_user db"
  unfolding install_gate_def by (simp_all add: Let_def park_install_keeps split: sum.split)

text \<open>What the two writes do to the table.\<close>

lemma map_named_rows:
  assumes "\<And>r. mo_name (g r) = mo_name r"
  shows "mo_name r \<noteq> name \<Longrightarrow> r \<in> set (map (\<lambda>r. if mo_name r = name then g r else r) mods) \<longleftrightarrow> r \<in> set mods"
    and "r \<in> set (map (\<lambda>r. if mo_name r = name then g r else r) mods) \<Longrightarrow> mo_name r = name \<Longrightarrow>
      \<exists>q \<in> set mods. mo_name q = name \<and> r = g q"
proof -
  assume n: "mo_name r \<noteq> name"
  show "r \<in> set (map (\<lambda>r. if mo_name r = name then g r else r) mods) \<longleftrightarrow> r \<in> set mods" (is "?l \<longleftrightarrow> ?r")
  proof
    assume ?l
    then obtain q where "q \<in> set mods" "r = (if mo_name q = name then g q else q)" by auto
    with n assms [of q] show ?r by (cases "mo_name q = name") simp_all
  next
    assume ?r
    have "r = (if mo_name r = name then g r else r)" using n by simp
    then show ?l unfolding set_map using \<open>?r\<close> by (rule image_eqI)
  qed
next
  assume n: "mo_name r = name" and r: "r \<in> set (map (\<lambda>r. if mo_name r = name then g r else r) mods)"
  then obtain q where "q \<in> set mods" "r = (if mo_name q = name then g q else q)" by auto
  with n show "\<exists>q \<in> set mods. mo_name q = name \<and> r = g q" by (cases "mo_name q = name") auto
qed

lemma upsert_mod_rows:
  assumes "nd_modulations db = Some mods" "upsert_mod name wasm sha caps limits note db = Inr db'"
  obtains mods' where "nd_modulations db' = Some mods'"
    "\<And>r. mo_name r \<noteq> name \<Longrightarrow> r \<in> set mods' \<longleftrightarrow> r \<in> set mods"
    "\<And>r. r \<in> set mods' \<Longrightarrow> mo_name r = name \<Longrightarrow>
       mo_wasm r = Some wasm \<and> mo_sha256 r = sha \<and> mo_enabled r = 1 \<and> mo_caps r = caps \<and> mo_limits r = limits"
proof (cases "name \<in> set (map mo_name mods)")
  case True
  let ?g = "\<lambda>r. r\<lparr>mo_wasm := Some wasm, mo_sha256 := sha, mo_enabled := 1,
    mo_caps := caps, mo_limits := limits, mo_note := note\<rparr>"
  have n: "nd_modulations db' = Some (map (\<lambda>r. if mo_name r = name then ?g r else r) mods)"
    using assms True by (auto simp: upsert_mod_def)
  show ?thesis
  proof (rule that [OF n])
    fix r assume "r \<in> set (map (\<lambda>r. if mo_name r = name then ?g r else r) mods)" "mo_name r = name"
    then obtain q where "r = ?g q" using map_named_rows(2) [of ?g r name mods] by auto
    then show "mo_wasm r = Some wasm \<and> mo_sha256 r = sha \<and> mo_enabled r = 1 \<and> mo_caps r = caps \<and> mo_limits r = limits"
      by simp
  next
    fix r :: modulation_row assume "mo_name r \<noteq> name"
    then show "r \<in> set (map (\<lambda>r. if mo_name r = name then ?g r else r) mods) \<longleftrightarrow> r \<in> set mods"
      by (rule map_named_rows(1) [rotated]) simp
  qed
next
  case False
  define new where "new = \<lparr>mo_name = name, mo_wasm = Some wasm, mo_sha256 = sha, mo_enabled = 1,
      mo_caps = caps, mo_config = ''{}'', mo_limits = limits, mo_note = note\<rparr>"
  have n: "nd_modulations db' = Some (mods @ [new])"
    using assms False by (auto simp: upsert_mod_def new_def)
  show ?thesis
  proof (rule that [OF n])
    fix r :: modulation_row assume r: "mo_name r \<noteq> name"
    then have "r \<noteq> new" by (auto simp: new_def)
    then show "r \<in> set (mods @ [new]) \<longleftrightarrow> r \<in> set mods" by simp
  next
    fix r assume r: "r \<in> set (mods @ [new])" "mo_name r = name"
    then have "r \<notin> set mods" using False by auto
    with r(1) have "r = new" by simp
    then show "mo_wasm r = Some wasm \<and> mo_sha256 r = sha \<and> mo_enabled r = 1 \<and> mo_caps r = caps \<and> mo_limits r = limits"
      by (simp add: new_def)
  qed
qed

lemma set_enabled_rows:
  assumes "nd_modulations db = Some mods" "set_enabled name b db = Inr db'"
  obtains mods' where "nd_modulations db' = Some mods'"
    "\<And>r. mo_name r \<noteq> name \<Longrightarrow> r \<in> set mods' \<longleftrightarrow> r \<in> set mods"
    "\<And>r. r \<in> set mods' \<Longrightarrow> mo_name r = name \<Longrightarrow>
       mo_enabled r = (if b then 1 else 0) \<and> (\<exists>q \<in> set mods. r = q\<lparr>mo_enabled := if b then 1 else 0\<rparr>)"
proof -
  let ?g = "\<lambda>r. r\<lparr>mo_enabled := if b then 1 else 0\<rparr>"
  have n: "nd_modulations db' = Some (map (\<lambda>r. if mo_name r = name then ?g r else r) mods)"
    using assms by (auto simp: set_enabled_def)
  show ?thesis
  proof (rule that [OF n])
    fix r assume "r \<in> set (map (\<lambda>r. if mo_name r = name then ?g r else r) mods)" "mo_name r = name"
    then obtain q where "q \<in> set mods" "r = ?g q" using map_named_rows(2) [of ?g r name mods] by auto
    then show "mo_enabled r = (if b then 1 else 0) \<and> (\<exists>q \<in> set mods. r = ?g q)" by auto
  next
    fix r :: modulation_row assume "mo_name r \<noteq> name"
    then show "r \<in> set (map (\<lambda>r. if mo_name r = name then ?g r else r) mods) \<longleftrightarrow> r \<in> set mods"
      by (rule map_named_rows(1) [rotated]) simp
  qed
qed

lemma fetch_wasm_Inr:
  assumes "fetch_wasm x peer m = Inr wasm"
  shows "\<exists>hash fetch. mi_hash m = Some hash \<and> mx_fetch x = Some fetch \<and> fetch peer hash (mi_addrs m) = Inr wasm
    \<and> length wasm \<le> MAX_WASM_BYTES \<and> mi_bytes m \<in> {None, Some (length wasm)}"
  using assms unfolding fetch_wasm_def
  by (auto split: option.splits sum.splits if_splits)

subsection \<open>What an install changes\<close>

text \<open>The rows other jobs leave alone, and a loader that reads nothing but the table.\<close>

definition keeps_mods :: "(nat \<Rightarrow> 'u node_db \<Rightarrow> 'u node_db) \<Rightarrow> bool" where
  "keeps_mods between \<longleftrightarrow> (\<forall>n db. nd_modulations (between n db) = nd_modulations db)"

lemma keeps_mods_sel: "keeps_mods between \<Longrightarrow> nd_modulations (between n db) = nd_modulations db"
  by (simp add: keeps_mods_def)

text \<open>The row an install of \<open>m\<close> by \<open>peer\<close> may leave.\<close>

definition installed_row :: "'u mod_ext \<Rightarrow> node_config \<Rightarrow> string \<Rightarrow> mod_install \<Rightarrow> modulation_row \<Rightarrow> bool" where
  "installed_row x cfg peer m r \<longleftrightarrow>
     mo_name r = mi_name m \<and> mo_caps r = mx_caps_json x (mi_caps m)
     \<and> mo_limits r = limits_json (eff_timeout cfg m) (eff_memory cfg m)
     \<and> (\<exists>hash fetch wasm. mi_hash m = Some hash \<and> mx_fetch x = Some fetch \<and> fetch peer hash (mi_addrs m) = Inr wasm
          \<and> length wasm \<le> MAX_WASM_BYTES \<and> mo_wasm r = Some wasm \<and> mo_sha256 r = sha256_hex x wasm)"

definition loaded :: "'u mod_ext \<Rightarrow> 'u node_db \<Rightarrow> string \<Rightarrow> bool" where
  "loaded x db name \<longleftrightarrow> (\<exists>refused. reload_mods x db = Inr refused \<and> name \<notin> fst ` set refused)"

lemma find_refused:
  "List.find (\<lambda>(n, r). n = name) refused = None \<longleftrightarrow> name \<notin> fst ` set refused"
  by (force simp: find_None_iff)

lemma apply_install_rows:
  assumes "keeps_mods between" "nd_modulations db = Some mods"
    and "apply_install x cfg between i peer m db c = (db', c')"
  obtains mods' where "nd_modulations db' = Some mods'"
    "\<And>r. mo_name r \<noteq> mi_name m \<Longrightarrow> r \<in> set mods' \<longleftrightarrow> r \<in> set mods"
    "mods' = mods \<or> (\<forall>r \<in> set mods'. mo_name r = mi_name m \<longrightarrow> installed_row x cfg peer m r)"
    "\<And>r refused. \<lbrakk>r \<in> set mods'; mo_name r = mi_name m; mo_enabled r \<noteq> 0; mods' \<noteq> mods; reload_mods x db' = Inr refused\<rbrakk>
       \<Longrightarrow> mi_name m \<notin> fst ` set refused"
proof (cases "fetch_wasm x peer m")
  case (Inl e)
  with assms(3) have "db' = db" by (auto simp: apply_install_def split: prod.splits)
  with assms(2) show ?thesis by (intro that) auto
next
  case (Inr wasm)
  let ?up = "upsert_mod (mi_name m) wasm (sha256_hex x wasm) (mx_caps_json x (mi_caps m))
    (limits_json (eff_timeout cfg m) (eff_memory cfg m)) (mi_note m) (between 1 db)"
  have m0: "nd_modulations (between 1 db) = Some mods" using assms(1,2) by (simp add: keeps_mods_sel)
  then obtain db1 where up: "?up = Inr db1" by (cases ?up) (auto simp: upsert_mod_def split: if_splits)
  obtain mods1 where m1: "nd_modulations db1 = Some mods1"
    "\<And>r. mo_name r \<noteq> mi_name m \<Longrightarrow> r \<in> set mods1 \<longleftrightarrow> r \<in> set mods"
    "\<And>r. r \<in> set mods1 \<Longrightarrow> mo_name r = mi_name m \<Longrightarrow> mo_wasm r = Some wasm \<and> mo_sha256 r = sha256_hex x wasm
      \<and> mo_enabled r = 1 \<and> mo_caps r = mx_caps_json x (mi_caps m)
      \<and> mo_limits r = limits_json (eff_timeout cfg m) (eff_memory cfg m)"
    by (rule upsert_mod_rows [OF m0 up]) blast
  have row: "installed_row x cfg peer m r" if "r \<in> set mods1" "mo_name r = mi_name m" for r
    using m1(3) [OF that] that(2) fetch_wasm_Inr [OF Inr] by (auto simp: installed_row_def)
  have m2: "nd_modulations (between 2 db1) = Some mods1" using assms(1) m1(1) by (simp add: keeps_mods_sel)
  show ?thesis
  proof (cases "reload_mods x (between 2 db1)")
    case (Inl e)
    with assms(3) Inr up have "db' = between 2 db1" by (simp add: apply_install_def Let_def)
    with m2 m1(2) row Inl show ?thesis by (intro that [of mods1]) auto
  next
    case r: (Inr refused)
    show ?thesis
    proof (cases "List.find (\<lambda>(n, r). n = mi_name m) refused")
      case None
      with assms(3) Inr up r have "db' = between 2 db1" by (simp add: apply_install_def Let_def)
      with m2 m1(2) row r None show ?thesis by (intro that [of mods1]) (auto simp: find_refused)
    next
      case (Some nr)
      let ?db3 = "between 3 (between 2 db1)"
      have m3: "nd_modulations ?db3 = Some mods1" using assms(1) m2 by (simp add: keeps_mods_sel)
      then obtain db4 where en: "set_enabled (mi_name m) False ?db3 = Inr db4" by (simp add: set_enabled_def)
      obtain mods4 where m4: "nd_modulations db4 = Some mods4"
        "\<And>r. mo_name r \<noteq> mi_name m \<Longrightarrow> r \<in> set mods4 \<longleftrightarrow> r \<in> set mods1"
        "\<And>r. r \<in> set mods4 \<Longrightarrow> mo_name r = mi_name m \<Longrightarrow> mo_enabled r = (if False then 1 else 0)
          \<and> (\<exists>q \<in> set mods1. r = q\<lparr>mo_enabled := if False then 1 else 0\<rparr>)"
        by (rule set_enabled_rows [OF m3 en]) blast
      have "db' = db4" using assms(3) Inr up r Some en by (cases nr) (simp add: apply_install_def Let_def)
      moreover have "installed_row x cfg peer m r" if r4: "r \<in> set mods4" "mo_name r = mi_name m" for r
      proof -
        obtain q where q: "q \<in> set mods1" "r = q\<lparr>mo_enabled := 0\<rparr>" using m4(3) [OF r4] by auto
        with r4(2) row [of q] show ?thesis by (simp add: installed_row_def)
      qed
      ultimately show ?thesis using m4 m1(2) by (intro that [of mods4]) auto
    qed
  qed
qed

lemma apply_remove_rows:
  assumes "keeps_mods between" "nd_modulations db = Some mods"
    and "apply_remove x between i m db c = (db', c')"
  shows "nd_modulations db' = Some (filter (\<lambda>r. mo_name r \<noteq> mi_name m) mods)"
proof -
  have m0: "nd_modulations (between 1 db) = Some mods" using assms(1,2) by (simp add: keeps_mods_sel)
  obtain b db1 where r: "remove_mod (mi_name m) (between 1 db) = Inr (b, db1)"
    "nd_modulations db1 = Some (filter (\<lambda>r. mo_name r \<noteq> mi_name m) mods)"
    using m0 by (simp add: remove_mod_def)
  have "db' = between 2 db1" using assms(3) r(1) by (simp add: apply_remove_def Let_def)
  with r(2) assms(1) show ?thesis by (simp add: keeps_mods_sel)
qed

text \<open>What a request can do to the table: nothing, or what the gate allowed.\<close>

lemma serve_mod_install_cases:
  assumes "serve_mod_install x u cfg env between peer rq db c = (db', c')"
    and "keeps_mods between" "nd_modulations db = Some mods"
  obtains "nd_modulations db' = Some mods"
  | m db1 where "mod_parse x (rq_signal rq) = Inr m" "rq_params rq = []"
      "peer_known db peer" "granted db peer (mi_name m) ''mod-install''"
      "\<forall>cap \<in> set (checked_caps m). granted db peer (mi_name m) (''mod-cap:'' @ cap)"
      "nd_modulations db1 = Some mods"
      "(db', c') = (if mi_verb m = Remove then apply_remove x between (id_string u rq) m db1 c
         else apply_install x cfg between (id_string u rq) peer m db1 c)"
proof (cases "rq_params rq = [] \<and> (\<exists>m. mod_parse x (rq_signal rq) = Inr m)")
  case False
  then have "db' = db" using assms(1)
    by (cases "mod_parse x (rq_signal rq)") (auto simp: serve_mod_install_def Let_def split: if_splits)
  with assms(3) that(1) show ?thesis by simp
next
  case True
  then obtain m where m: "rq_params rq = []" "mod_parse x (rq_signal rq) = Inr m" by blast
  obtain g db1 where g: "install_gate x env peer (id_string u rq) (mi_name m) (checked_caps m) (rq_signal rq) db = (g, db1)"
    by fastforce
  have k: "nd_modulations db1 = Some mods" using install_gate_keeps(1) g assms(3) by (metis snd_conv)
  show ?thesis
  proof (cases "g = InstallAllowed")
    case True
    then have "peer_known db peer \<and> granted db peer (mi_name m) ''mod-install''
        \<and> (\<forall>cap \<in> set (checked_caps m). granted db peer (mi_name m) (''mod-cap:'' @ cap))"
      using install_gate_allowed g by (metis fst_conv)
    moreover have "(db', c') = (if mi_verb m = Remove then apply_remove x between (id_string u rq) m db1 c
         else apply_install x cfg between (id_string u rq) peer m db1 c)"
      using assms(1) m g True by (simp add: serve_mod_install_def Let_def)
    ultimately show ?thesis using that(2) m k by blast
  next
    case False
    then have "db' = db1" using assms(1) m g by (cases g) (simp_all add: serve_mod_install_def Let_def)
    with k that(1) show ?thesis by simp
  qed
qed

subsection \<open>Installs stay within the grants\<close>

text \<open>C5. A request of a peer changes the table of mods only when the policy allows this peer
  \<open>mod-install\<close> on the mod's name and denies it nowhere, and touches no other mod. A row it
  leaves holds bytes the peer itself serves, their hash, no capability the peer is not granted
  one by one, and limits within the node's ceilings.\<close>

lemma mods_change_only_as_granted:
  assumes "serve_mod_install x u cfg env between peer rq db c = (db', c')" "keeps_mods between"
    and "nd_modulations db = Some mods" "nd_modulations db' = Some mods'" "set mods' \<noteq> set mods"
  shows "\<exists>m. mod_parse x (rq_signal rq) = Inr m \<and> peer_known db peer \<and> granted db peer (mi_name m) ''mod-install''
    \<and> (\<forall>r. mo_name r \<noteq> mi_name m \<longrightarrow> (r \<in> set mods' \<longleftrightarrow> r \<in> set mods))
    \<and> (\<forall>r \<in> set mods'. mo_name r = mi_name m \<longrightarrow>
         installed_row x cfg peer m r \<and> (\<forall>cap \<in> set (mi_caps m). granted db peer (mi_name m) (''mod-cap:'' @ cap)))
    \<and> eff_timeout cfg m \<le> nc_max_duration_ms cfg \<and> eff_memory cfg m \<le> nc_max_mod_memory_mb cfg"
proof (rule serve_mod_install_cases [OF assms(1,2,3)])
  assume "nd_modulations db' = Some mods"
  with assms(4,5) show ?thesis by simp
next
  fix m db1
  assume m: "mod_parse x (rq_signal rq) = Inr m" "peer_known db peer" "granted db peer (mi_name m) ''mod-install''"
    and caps: "\<forall>cap \<in> set (checked_caps m). granted db peer (mi_name m) (''mod-cap:'' @ cap)"
    and d: "nd_modulations db1 = Some mods"
    and s: "(db', c') = (if mi_verb m = Remove then apply_remove x between (id_string u rq) m db1 c
         else apply_install x cfg between (id_string u rq) peer m db1 c)"
  have lim: "eff_timeout cfg m \<le> nc_max_duration_ms cfg" "eff_memory cfg m \<le> nc_max_mod_memory_mb cfg"
    by (simp_all add: eff_timeout_def eff_memory_def split: option.split)
  have "(\<forall>r. mo_name r \<noteq> mi_name m \<longrightarrow> (r \<in> set mods' \<longleftrightarrow> r \<in> set mods))
    \<and> (\<forall>r \<in> set mods'. mo_name r = mi_name m \<longrightarrow>
         installed_row x cfg peer m r \<and> (\<forall>cap \<in> set (mi_caps m). granted db peer (mi_name m) (''mod-cap:'' @ cap)))"
  proof (cases "mi_verb m")
    case Install
    with s have a: "apply_install x cfg between (id_string u rq) peer m db1 c = (db', c')" by simp
    have c: "\<forall>cap \<in> set (mi_caps m). granted db peer (mi_name m) (''mod-cap:'' @ cap)"
      using caps Install by (simp add: checked_caps_def)
    show ?thesis
      by (rule apply_install_rows [OF assms(2) d a]) (use assms(4,5) c in auto)
  next
    case Remove
    with s have "apply_remove x between (id_string u rq) m db1 c = (db', c')" by simp
    from apply_remove_rows [OF assms(2) d this] assms(4) show ?thesis by auto
  qed
  with m lim show ?thesis by blast
qed

text \<open>C27. A mod that a request installs and leaves enabled is one the registry loaded: the last
  reload answered and did not refuse it. (The registry reads nothing but the table, and the
  reload itself does not fail.)\<close>

lemma refused_mods_end_disabled:
  assumes "serve_mod_install x u cfg env between peer rq db c = (db', c')" "keeps_mods between"
    and "nd_modulations db = Some mods" "nd_modulations db' = Some mods'"
    and "r \<in> set mods'" "r \<notin> set mods" "mo_enabled r \<noteq> 0" "reload_mods x db' = Inr refused"
  shows "mo_name r \<notin> fst ` set refused"
proof (rule serve_mod_install_cases [OF assms(1,2,3)])
  assume "nd_modulations db' = Some mods"
  with assms(4,5,6) show ?thesis by simp
next
  fix m db1
  assume d: "nd_modulations db1 = Some mods"
    and s: "(db', c') = (if mi_verb m = Remove then apply_remove x between (id_string u rq) m db1 c
         else apply_install x cfg between (id_string u rq) peer m db1 c)"
  show ?thesis
  proof (cases "mi_verb m")
    case Install
    with s have a: "apply_install x cfg between (id_string u rq) peer m db1 c = (db', c')" by simp
    obtain mods2 where m2: "nd_modulations db' = Some mods2"
      "\<And>r. mo_name r \<noteq> mi_name m \<Longrightarrow> r \<in> set mods2 \<longleftrightarrow> r \<in> set mods"
      "\<And>r refused. \<lbrakk>r \<in> set mods2; mo_name r = mi_name m; mo_enabled r \<noteq> 0; mods2 \<noteq> mods; reload_mods x db' = Inr refused\<rbrakk>
         \<Longrightarrow> mi_name m \<notin> fst ` set refused"
      by (rule apply_install_rows [OF assms(2) d a]) blast
    have "mods2 = mods'" using m2(1) assms(4) by simp
    with m2(2,3) assms(5-8) show ?thesis by metis
  next
    case Remove
    with s have "apply_remove x between (id_string u rq) m db1 c = (db', c')" by simp
    from apply_remove_rows [OF assms(2) d this] assms(4-6) show ?thesis by auto
  qed
qed

subsection \<open>The owner's answer\<close>

lemma write_grants_ok:
  assumes "db_policy db = Some rules" "\<forall>g \<in> set gs. CHR ''='' \<in> set g"
  shows "\<exists>rs. write_grants peer i gs db done' = (Inr (done' @ gs), db\<lparr>db_policy := Some (rules @ rs)\<rparr>)
    \<and> (\<forall>r \<in> set rs. po_effect r = ''allow'')
    \<and> (\<forall>g \<in> set gs. \<forall>t a. split_once (CHR ''='') g = Some (t, a) \<longrightarrow>
         (\<exists>r \<in> set (rules @ rs). po_peer r = peer \<and> po_table r = t \<and> po_action r = a \<and> po_effect r = ''allow''))"
  using assms
proof (induction gs arbitrary: db rules done')
  case Nil
  then have "db\<lparr>db_policy := Some rules\<rparr> = db" by simp
  then show ?case by (intro exI [of _ "[]"]) simp
next
  case (Cons g gs)
  obtain t a where g: "split_once (CHR ''='') g = Some (t, a)"
    using Cons.prems(2) by (metis list.set_intros(1) not_Some_eq split_once_None_iff surj_pair)
  let ?new = "\<lparr>po_peer = peer, po_table = t, po_action = a, po_effect = ''allow'',
    po_note = Some (''granted with inbox answer '' @ i)\<rparr>"
  obtain rs1 where p: "grant_policy ?new db = Some (db\<lparr>db_policy := Some (rules @ rs1)\<rparr>)"
    "\<forall>r \<in> set rs1. po_effect r = ''allow''"
    "\<exists>r \<in> set (rules @ rs1). po_peer r = peer \<and> po_table r = t \<and> po_action r = a \<and> po_effect r = ''allow''"
  proof (cases "list_ex (\<lambda>o'. po_peer o' = peer \<and> po_table o' = t \<and> po_action o' = a \<and> po_effect o' = ''allow'') rules")
    case True
    have "db\<lparr>db_policy := Some rules\<rparr> = db" using Cons.prems(1) by simp
    with True Cons.prems(1) that [of "[]"] show ?thesis by (auto simp: grant_policy_def list_ex_iff)
  next
    case False
    with Cons.prems(1) that [of "[?new]"] show ?thesis by (simp add: grant_policy_def)
  qed
  let ?db1 = "db\<lparr>db_policy := Some (rules @ rs1)\<rparr>"
  obtain rs where r: "write_grants peer i gs ?db1 (done' @ [g]) = (Inr ((done' @ [g]) @ gs), ?db1\<lparr>db_policy := Some ((rules @ rs1) @ rs)\<rparr>)"
    "\<forall>r \<in> set rs. po_effect r = ''allow''"
    "\<forall>g \<in> set gs. \<forall>t a. split_once (CHR ''='') g = Some (t, a) \<longrightarrow>
         (\<exists>r \<in> set ((rules @ rs1) @ rs). po_peer r = peer \<and> po_table r = t \<and> po_action r = a \<and> po_effect r = ''allow'')"
    using Cons.IH [of ?db1 "rules @ rs1" "done' @ [g]"] Cons.prems(2) by auto
  have "write_grants peer i (g # gs) db done' = (Inr (done' @ g # gs), db\<lparr>db_policy := Some (rules @ rs1 @ rs)\<rparr>)"
    using g p(1) r(1) by simp
  moreover have "\<forall>r \<in> set (rs1 @ rs). po_effect r = ''allow''" using p(2) r(2) by auto
  moreover have "\<forall>g' \<in> set (g # gs). \<forall>t a. split_once (CHR ''='') g' = Some (t, a) \<longrightarrow>
         (\<exists>r \<in> set (rules @ rs1 @ rs). po_peer r = peer \<and> po_table r = t \<and> po_action r = a \<and> po_effect r = ''allow'')"
    using g p(3) r(3) by auto
  ultimately show ?case by blast
qed

text \<open>A new parked install, and what the owner's answer to it makes of the tables.\<close>

lemma parked_install:
  assumes "install_gate x env peer i name caps sig db = (InstallPending, db1)"
    and "db_inbox (nd_auth db) = Some rows"
    and "find_pending (hx_fingerprint (mx_human x)) peer (install_fingerprint x sig name) rows = Some False"
  obtains new where "db_inbox (nd_auth db1) = Some (rows @ [new])" "ib_request_id new = env_ulid (ne_call env)"
    "ib_peer new = peer" "ib_sql new = sig" "ib_params new = mx_params x (install_params x sig name)" "ib_decision new = None"
    "env_ulid (ne_call env) \<notin> set (map ib_request_id rows)"
    "db_policy (nd_auth db1) = db_policy (nd_auth db)" "db_peers (nd_auth db1) = db_peers (nd_auth db)"
    "db_rsntr (nd_auth db1) = db_rsntr (nd_auth db)" "db_decisions (nd_auth db1) = db_decisions (nd_auth db)"
    "peer_known db peer" "\<not> policy_matches db peer name ''mod-install'' ''deny''"
    "\<not> policy_matches db peer name ''mod-install'' ''allow''"
proof -
  let ?new = "\<lparr>ib_request_id = env_ulid (ne_call env), ib_peer = peer, ib_sql = sig,
      ib_params = mx_params x (install_params x sig name), ib_decision = None,
      ib_decided_by = None, ib_received_at = now_rfc3339 env\<rparr>"
  have g: "peer_known db peer" "\<not> policy_matches db peer name ''mod-install'' ''deny''"
    "\<not> policy_matches db peer name ''mod-install'' ''allow''"
    using assms(1) unfolding install_gate_def by (auto simp: Let_def split: if_splits)
  then obtain db2 where p: "park_install x env peer sig name db = Inr db2" "nd_auth db1 = nd_auth db2"
    using assms(1) unfolding install_gate_def
    by (cases "park_install x env peer sig name db") (auto simp: Let_def)
  have n: "env_ulid (ne_call env) \<notin> set (map ib_request_id rows)"
    "nd_auth db2 = (nd_auth db)\<lparr>db_inbox := Some (rows @ [?new])\<rparr>"
    using p(1) assms(2,3) by (auto simp: park_install_def insert_inbox_def split: if_splits)
  show ?thesis by (rule that [of ?new]) (use g n p(2) in simp_all)
qed

lemma find_parked:
  assumes "ib_request_id new = i" "i \<notin> set (map ib_request_id rows)"
  shows "List.find (\<lambda>r. ib_request_id r = i) (rows @ [new]) = Some new"
  using assms by (induction rows) auto

lemma policy_matches_append:
  assumes "db_policy (nd_auth db) = Some rules" "db_policy (nd_auth db') = Some (rules @ rs)"
  shows "policy_matches db' peer name action effect \<longleftrightarrow>
    policy_matches db peer name action effect \<or>
    (\<exists>r \<in> set rs. po_action r = action \<and> po_effect r = effect \<and> po_peer r \<in> {peer, ''*''} \<and> po_table r \<in> {name, ''*''})"
  using assms by (auto simp: policy_matches_def list_ex_iff)

lemma policy_matchesI:
  assumes "db_policy (nd_auth db) = Some rules" "r \<in> set rules" "po_peer r = peer" "po_table r = name"
    "po_action r = action" "po_effect r = effect"
  shows "policy_matches db peer name action effect"
  using assms by (auto simp: policy_matches_def list_ex_iff)

lemma install_tables [simp]: "fp_tables (install_footprint name) = [(name, [])]"
  by (simp add: install_footprint_def from_tables_def bset_of_def)

text \<open>C21. A parked install that the owner allows and remembers, with a grant for every capability
  it asks for, goes through when the installer asks again, unless a deny rule stands against
  one of the capabilities.\<close>

lemma approved_install_proceeds:
  assumes "install_gate x env peer i name caps sig db = (InstallPending, db1)"
    and "db_inbox (nd_auth db) = Some rows"
    and "find_pending (hx_fingerprint (mx_human x)) peer (install_fingerprint x sig name) rows = Some False"
    and "hx_decode (mx_human x) (mx_params x (install_params x sig name)) = Some (install_params x sig name)"
    and "sig \<noteq> []" "name_ok name" "db_policy (nd_auth db) = Some rules" "db_decisions (nd_auth db) = Some ds"
    and "\<forall>cap \<in> set caps. \<not> policy_matches db peer name (''mod-cap:'' @ cap) ''deny''"
  shows "\<exists>a auth. answer_inbox (mx_human x) cenv (nd_auth db1) (env_ulid (ne_call env)) True True
        (map (\<lambda>cap. name @ ''=mod-cap:'' @ cap) caps) = (Inr a, auth)
    \<and> fst (install_gate x env' peer i' name caps sig' (db1\<lparr>nd_auth := auth\<rparr>)) = InstallAllowed"
proof -
  let ?gs = "map (\<lambda>cap. name @ ''=mod-cap:'' @ cap) caps"
  let ?i = "env_ulid (ne_call env)"
  obtain new where new: "db_inbox (nd_auth db1) = Some (rows @ [new])" "ib_request_id new = ?i"
    "ib_peer new = peer" "ib_sql new = sig" "ib_params new = mx_params x (install_params x sig name)" "ib_decision new = None"
    "?i \<notin> set (map ib_request_id rows)" "db_policy (nd_auth db1) = db_policy (nd_auth db)"
    "db_peers (nd_auth db1) = db_peers (nd_auth db)" "db_rsntr (nd_auth db1) = db_rsntr (nd_auth db)"
    "db_decisions (nd_auth db1) = db_decisions (nd_auth db)" "peer_known db peer"
    "\<not> policy_matches db peer name ''mod-install'' ''deny''"
    by (rule parked_install [OF assms(1-3)]) blast
  let ?marked = "(nd_auth db1)\<lparr>db_inbox := Some (mark_decided ?i ''allow'' (rows @ [new]))\<rparr>"
  obtain dec where dec: "record_decision cenv ?marked peer (pp_fingerprint (install_params x sig name)) ''allow''
      (Some (''answered from _inbox '' @ ?i)) ''human'' None = Some (?marked\<lparr>db_decisions := Some dec\<rparr>)"
    using new(11) assms(8) by (auto simp: record_decision_def)
  let ?rem = "\<lparr>po_peer = peer, po_table = name, po_action = ''mod-install'', po_effect = ''allow'',
    po_note = Some (''remembered from inbox '' @ ?i)\<rparr>"
  let ?a1 = "?marked\<lparr>db_decisions := Some dec, db_policy := Some (rules @ [?rem])\<rparr>"
  have name: "CHR ''='' \<notin> set name" using assms(6) by (auto simp: name_ok_def list_all_iff is_alnum_def is_digit_def is_upper_def is_lower_def)
  obtain rs where rs: "write_grants peer ?i ?gs ?a1 [] = (Inr ?gs, ?a1\<lparr>db_policy := Some ((rules @ [?rem]) @ rs)\<rparr>)"
    "\<forall>r \<in> set rs. po_effect r = ''allow''"
    "\<forall>g \<in> set ?gs. \<forall>t a. split_once (CHR ''='') g = Some (t, a) \<longrightarrow>
         (\<exists>r \<in> set ((rules @ [?rem]) @ rs). po_peer r = peer \<and> po_table r = t \<and> po_action r = a \<and> po_effect r = ''allow'')"
    using write_grants_ok [of ?a1 "rules @ [?rem]" ?gs peer ?i "[]"] by auto
  let ?auth = "?a1\<lparr>db_policy := Some ((rules @ [?rem]) @ rs)\<rparr>"
  let ?db = "db1\<lparr>nd_auth := ?auth\<rparr>"
  have rem: "remember_tables peer ?i ''mod-install'' ''allow'' [name] (?marked\<lparr>db_decisions := Some dec\<rparr>) []
      = (Inr [name], ?a1)"
    using remember_tables_ok [of "?marked\<lparr>db_decisions := Some dec\<rparr>" rules peer ?i "''mod-install''" "''allow''" "[name]" "[]"]
      new(8) assms(7) by simp
  have ans: "answer_inbox (mx_human x) cenv (nd_auth db1) ?i True True ?gs
    = (Inr \<lparr>ia_peer = peer, ia_knock = False, ia_remembered = [name], ia_granted = ?gs\<rparr>, ?auth)"
    using new(1,3-6) find_parked [OF new(2,7)] assms(4,5) dec rem rs(1)
    by (simp add: answer_inbox_def answer_statement_def Let_def install_params_def)
  have pol: "policy_matches ?db peer name action effect \<longleftrightarrow> policy_matches db peer name action effect \<or>
      (\<exists>r \<in> set (?rem # rs). po_action r = action \<and> po_effect r = effect \<and> po_peer r \<in> {peer, ''*''} \<and> po_table r \<in> {name, ''*''})"
    for action effect
    by (rule policy_matches_append [OF assms(7)]) simp
  have known: "peer_known ?db peer" using new(9,10,12) by (simp add: peer_known_def read_rsntr_def)
  have right: "granted ?db peer name ''mod-install''"
    unfolding granted_def pol using new(13) rs(2) by auto
  have "granted ?db peer name (''mod-cap:'' @ cap)" if c: "cap \<in> set caps" for cap
  proof -
    have sp: "split_once (CHR ''='') (name @ ''=mod-cap:'' @ cap) = Some (name, ''mod-cap:'' @ cap)"
      unfolding split_once_Some_iff using name by simp
    have m: "name @ ''=mod-cap:'' @ cap \<in> set ?gs" using c by auto
    from rs(3) [rule_format, OF m sp] obtain r where r: "r \<in> set ((rules @ [?rem]) @ rs)" "po_peer r = peer" "po_table r = name"
      "po_action r = ''mod-cap:'' @ cap" "po_effect r = ''allow''"
      by blast
    have "policy_matches ?db peer name (''mod-cap:'' @ cap) ''allow''"
      by (rule policy_matchesI [OF _ r]) simp
    moreover have "\<not> policy_matches ?db peer name (''mod-cap:'' @ cap) ''deny''"
      unfolding pol using assms(9) c rs(2) by auto
    ultimately show ?thesis by (simp add: granted_def)
  qed
  with known right have "fst (install_gate x env' peer i' name caps sig' ?db) = InstallAllowed"
    unfolding install_gate_allowed by blast
  with ans show ?thesis by blast
qed

text \<open>A plain answer, an allow or a deny without remember and grants, settles nothing: the policy
  stays as it is, and the gate reads the policy and not the recorded decisions, so that the
  repeated request is not allowed either.\<close>

lemma plain_answer_settles_nothing:
  assumes "install_gate x env peer i name caps sig db = (InstallPending, db1)"
    and "db_inbox (nd_auth db) = Some rows"
    and "find_pending (hx_fingerprint (mx_human x)) peer (install_fingerprint x sig name) rows = Some False"
    and "answer_inbox (mx_human x) cenv (nd_auth db1) (env_ulid (ne_call env)) allow False [] = (Inr a, auth)"
    and "db_policy (nd_auth db) = Some rules"
  shows "fst (install_gate x env' peer i' name caps sig (db1\<lparr>nd_auth := auth\<rparr>)) \<noteq> InstallAllowed
    \<and> db_policy auth = Some rules"
proof -
  obtain new where new: "db_inbox (nd_auth db1) = Some (rows @ [new])" "ib_request_id new = env_ulid (ne_call env)"
    "ib_decision new = None" "env_ulid (ne_call env) \<notin> set (map ib_request_id rows)"
    "db_policy (nd_auth db1) = db_policy (nd_auth db)"
    "\<not> policy_matches db peer name ''mod-install'' ''allow''"
    by (rule parked_install [OF assms(1-3)]) blast
  have p: "db_policy auth = Some rules"
    using assms(4,5) new(1,3,5) find_parked [OF new(2,4)]
    by (auto simp: answer_inbox_def answer_knock_def answer_statement_def insert_peer_def record_decision_def Let_def
        split: if_splits option.splits)
  have "\<not> granted (db1\<lparr>nd_auth := auth\<rparr>) peer name ''mod-install''"
    using new(6) p assms(5) by (simp add: granted_def policy_matches_def)
  with p show ?thesis unfolding install_gate_allowed by blast
qed

subsection \<open>The ledger\<close>

lemma audit_direct_row:
  assumes "nd_audit db = Some rows"
  shows "\<exists>r. nd_audit (audit_direct env peer i sig decision by_tier reason db) = Some (rows @ [r])
    \<and> au_peer r = peer \<and> au_request_id r = i \<and> au_signal r = sig \<and> au_decision r = decision"
  using assms by (simp add: audit_direct_def audit_direct_dir_def audit_full_dir_def Let_def)

lemma install_gate_row:
  assumes "nd_audit db = Some rows" "install_gate x env peer i name caps sig db = (g, db')"
  shows "\<exists>r. nd_audit db' = Some (rows @ [r]) \<and> au_peer r = peer \<and> au_request_id r = i
    \<and> au_signal r = ''mod-install '' @ name \<and> au_decision r = (if g = InstallAllowed then ''allow'' else ''deny'')"
proof (cases "\<exists>db1. peer_known db peer \<and> \<not> policy_matches db peer name ''mod-install'' ''deny''
    \<and> \<not> policy_matches db peer name ''mod-install'' ''allow'' \<and> park_install x env peer sig name db = Inr db1")
  case True
  then obtain db1 where p: "park_install x env peer sig name db = Inr db1"
    and g: "(g, db') = (InstallPending, audit_direct env peer i (''mod-install '' @ name) ''deny'' ''human'' PENDING_REASON db1)"
    using assms(2) by (auto simp: install_gate_def Let_def)
  from park_install_keeps(2) [OF p] assms(1) have "nd_audit db1 = Some rows" by simp
  from audit_direct_row [OF this] g show ?thesis by simp
next
  case False
  then obtain d b r where "(g = InstallAllowed \<longrightarrow> d = ''allow'') \<and> (g \<noteq> InstallAllowed \<longrightarrow> d = ''deny'')"
    "db' = audit_direct env peer i (''mod-install '' @ name) d b r db"
    using assms(2) unfolding install_gate_def Let_def
    by (auto split: if_splits sum.splits)
  with audit_direct_row [OF assms(1)] show ?thesis by metis
qed

definition keeps_audit :: "(nat \<Rightarrow> 'u node_db \<Rightarrow> 'u node_db) \<Rightarrow> bool" where
  "keeps_audit between \<longleftrightarrow> (\<forall>n db. nd_audit (between n db) = nd_audit db)"

lemma mod_writes_keep_audit:
  "upsert_mod name wasm sha caps limits note db = Inr db' \<Longrightarrow> nd_audit db' = nd_audit db"
  "set_enabled name b db = Inr db' \<Longrightarrow> nd_audit db' = nd_audit db"
  "remove_mod name db = Inr (e, db') \<Longrightarrow> nd_audit db' = nd_audit db"
  by (auto simp: upsert_mod_def set_enabled_def remove_mod_def split: option.splits if_splits)

lemma apply_keeps_audit:
  assumes "keeps_audit between"
  shows "nd_audit (fst (apply_remove x between i m db c)) = nd_audit db"
    "nd_audit (fst (apply_install x cfg between i peer m db c)) = nd_audit db"
proof -
  have k: "nd_audit (between n d) = nd_audit d" for n d using assms by (simp add: keeps_audit_def)
  show "nd_audit (fst (apply_remove x between i m db c)) = nd_audit db"
    by (cases "remove_mod (mi_name m) (between 1 db)")
      (auto simp: apply_remove_def Let_def k dest: mod_writes_keep_audit(3))
  show "nd_audit (fst (apply_install x cfg between i peer m db c)) = nd_audit db"
  proof (cases "fetch_wasm x peer m")
    case (Inl e)
    then show ?thesis by (simp add: apply_install_def split: prod.split)
  next
    case (Inr wasm)
    let ?up = "upsert_mod (mi_name m) wasm (sha256_hex x wasm) (mx_caps_json x (mi_caps m))
      (limits_json (eff_timeout cfg m) (eff_memory cfg m)) (mi_note m) (between 1 db)"
    show ?thesis
    proof (cases ?up)
      case (Inl e)
      with Inr show ?thesis by (simp add: apply_install_def Let_def k)
    next
      case up: (Inr db1)
      then have a1: "nd_audit db1 = nd_audit db" using mod_writes_keep_audit(1) k by metis
      show ?thesis
      proof (cases "set_enabled (mi_name m) False (between 3 (between 2 db1))")
        case (Inl e)
        with Inr up a1 show ?thesis by (simp add: apply_install_def Let_def k split: sum.split option.split)
      next
        case en: (Inr db4)
        then have "nd_audit db4 = nd_audit db" using mod_writes_keep_audit(2) k a1 by metis
        with Inr up a1 en show ?thesis by (simp add: apply_install_def Let_def k split: sum.split option.split)
      qed
    qed
  qed
qed

text \<open>Every well-formed install or remove request leaves exactly one ledger row, under the peer
  and the request and naming the mod; the row says allow exactly when the peer is known, holds
  the right on the name and every capability it asks for.\<close>

lemma install_leaves_one_row:
  assumes "serve_mod_install x u cfg env between peer rq db c = (db', c')" "keeps_audit between"
    and "rq_params rq = []" "mod_parse x (rq_signal rq) = Inr m" "nd_audit db = Some rows"
  shows "\<exists>r. nd_audit db' = Some (rows @ [r]) \<and> au_peer r = peer \<and> au_request_id r = id_string u rq
    \<and> au_signal r = ''mod-install '' @ mi_name m
    \<and> au_decision r = (if peer_known db peer \<and> granted db peer (mi_name m) ''mod-install''
          \<and> (\<forall>cap \<in> set (checked_caps m). granted db peer (mi_name m) (''mod-cap:'' @ cap)) then ''allow'' else ''deny'')"
proof -
  obtain g db1 where g: "install_gate x env peer (id_string u rq) (mi_name m) (checked_caps m) (rq_signal rq) db = (g, db1)"
    by fastforce
  have a: "g = InstallAllowed \<longleftrightarrow> peer_known db peer \<and> granted db peer (mi_name m) ''mod-install''
      \<and> (\<forall>cap \<in> set (checked_caps m). granted db peer (mi_name m) (''mod-cap:'' @ cap))"
    using install_gate_allowed g by (metis fst_conv)
  have s: "(db', c') = (case g of
      InstallUnknownPeer \<Rightarrow> (db1, send_denied c (Some (id_string u rq)) UNKNOWN_PEER)
    | InstallDenied reason \<Rightarrow> (db1, send_denied c (Some (id_string u rq)) reason)
    | InstallPending \<Rightarrow> (db1, send_denied c (Some (id_string u rq)) PENDING_REASON)
    | InstallAllowed \<Rightarrow> if mi_verb m = Remove then apply_remove x between (id_string u rq) m db1 c
        else apply_install x cfg between (id_string u rq) peer m db1 c)"
    using assms(1,3,4) g by (simp add: serve_mod_install_def Let_def)
  have "nd_audit db' = nd_audit db1"
    using arg_cong [OF s, of "\<lambda>p. nd_audit (fst p)"] apply_keeps_audit [OF assms(2)]
    by (cases g) (simp_all split: if_splits)
  with install_gate_row [OF assms(5) g] show ?thesis unfolding a by metis
qed

subsection \<open>Small runs\<close>

definition cam_doc :: "Vocab.triple list" where
  "cam_doc = map (\<lambda>(p, ob). \<lparr>subject = Vocab.BlankNode ''m'', predicate = p, object = ob\<rparr>)
     [(rdf_iri ''type'', TNamed (rsntr_iri ''ModInstall'')), (rsntr_iri ''name'', plain_lit ''cam''),
      (rsntr_iri ''hash'', plain_lit ''h''), (rsntr_iri ''caps'', plain_lit ''clock'')]"

definition cam :: mod_install where
  "cam = \<lparr>mi_verb = Install, mi_name = ''cam'', mi_hash = Some ''h'', mi_bytes = None, mi_caps = [''clock''],
     mi_addrs = [], mi_timeout_ms = None, mi_memory_mb = None, mi_note = None\<rparr>"

definition cam_ext :: "int list mod_ext" where
  "cam_ext = \<lparr>mx_turtle = (\<lambda>_. Inr cam_doc),
     mx_human = \<lparr>hx_sha = (\<lambda>_. []), hx_encode = (\<lambda>_. None),
       hx_decode = (\<lambda>_. Some \<lparr>pp_action = ''mod-install'', pp_fingerprint = [], pp_footprint = install_footprint ''cam''\<rparr>),
       hx_fingerprint = (\<lambda>_. Some (Some []))\<rparr>,
     mx_params = (\<lambda>_. ''{}''), mx_debug = (\<lambda>s. s), mx_caps_json = join '','', mx_sha256 = (\<lambda>b. b),
     mx_fetch = Some (\<lambda>_ _ _. Inr [1, 2]), mx_import = None, mx_reload = Some (\<lambda>_. Inr [(''other'', ''unknown abi'')])\<rparr>"

definition cam_rule :: "string \<Rightarrow> policy_row" where
  "cam_rule action = \<lparr>po_peer = ''p'', po_table = ''cam'', po_action = action, po_effect = ''allow'', po_note = None\<rparr>"

definition cam_db :: "policy_row list \<Rightarrow> int list node_db" where
  "cam_db rules = toy_db\<lparr>nd_auth := (nd_auth toy_db)\<lparr>db_policy := Some rules\<rparr>\<rparr>"

definition cam_rules :: "policy_row list" where
  "cam_rules = [cam_rule ''mod-install'', cam_rule ''mod-cap:clock'']"

definition cam_serve :: "int list node_db \<Rightarrow> int list node_db \<times> stream" where
  "cam_serve db = serve_mod_install cam_ext toy_ulid node_config_default toy_env (\<lambda>n d. d) ''p'' (toy_request ''x'') db toy_stream"

lemma cam_parse: "mod_parse cam_ext ''x'' = Inr cam"
  by (simp add: mod_parse_def cam_ext_def cam_doc_def cam_def verb_of_def prop_one_def prop_all_def name_ok_def
      rdf_iri_def rsntr_iri_def RDF_NS_def RSNTR_NS_def is_alnum_def is_lower_def map_filter_def)

lemma cam_known: "peer_known (cam_db rules) ''p''"
  by (simp add: cam_db_def toy_db_def peer_known_def)

lemma cam_run:
  "nd_modulations (fst (cam_serve (cam_db cam_rules))) = Some
     [\<lparr>mo_name = ''cam'', mo_wasm = Some [1, 2], mo_sha256 = hex2 False 1 @ hex2 False 2, mo_enabled = 1, mo_caps = ''clock'',
       mo_config = ''{}'', mo_limits = limits_json 30000 64, mo_note = None\<rparr>]"
proof -
  have g: "fst (install_gate cam_ext toy_env ''p'' ''r1'' ''cam'' [''clock''] ''x'' (cam_db cam_rules)) = InstallAllowed"
    unfolding install_gate_allowed using cam_known [of cam_rules]
    by (simp add: granted_def policy_matches_def cam_db_def cam_rules_def cam_rule_def)
  obtain db1 where i: "install_gate cam_ext toy_env ''p'' ''r1'' ''cam'' [''clock''] ''x'' (cam_db cam_rules) = (InstallAllowed, db1)"
    using g by (metis prod.collapse)
  have m: "nd_modulations db1 = Some []"
    using install_gate_keeps(1) [of cam_ext toy_env "''p''" "''r1''" "''cam''" "[''clock'']" "''x''" "cam_db cam_rules"]
    unfolding i by (simp add: cam_db_def toy_db_def)
  have f: "fetch_wasm cam_ext ''p'' cam = Inr [1, 2]"
    by (simp add: fetch_wasm_def cam_def cam_ext_def MAX_WASM_BYTES_def)
  have "fst (cam_serve (cam_db cam_rules)) = fst (apply_install cam_ext node_config_default (\<lambda>n d. d) ''r1'' ''p'' cam db1 toy_stream)"
    using i by (simp add: cam_serve_def serve_mod_install_def toy_request_def id_string_def toy_ulid_def cam_parse cam_def checked_caps_def Let_def)
  then show ?thesis
    unfolding apply_install_def f
    by (simp add: upsert_mod_def m Let_def reload_mods_def cam_def cam_ext_def eff_timeout_def eff_memory_def
        node_config_default_def DEFAULT_MOD_MEMORY_MB_def sha256_hex_def join.simps find_refused)
qed

lemma cam_mods: "nd_modulations (cam_db rules) = Some []"
  by (simp add: cam_db_def toy_db_def)

lemma idle_between: "keeps_mods (\<lambda>n d. d)" "keeps_audit (\<lambda>n d. d)"
  by (simp_all add: keeps_mods_def keeps_audit_def)

lemma mods_change_only_as_granted_witness:
  "granted (cam_db cam_rules) ''p'' ''cam'' ''mod-install'' \<and> granted (cam_db cam_rules) ''p'' ''cam'' ''mod-cap:clock''"
proof -
  obtain db' c' where s: "cam_serve (cam_db cam_rules) = (db', c')" by fastforce
  obtain r where r: "nd_modulations db' = Some [r]" "mo_name r = ''cam''" using cam_run s by auto
  have ne: "set [r] \<noteq> set []" by simp
  from mods_change_only_as_granted [OF s [unfolded cam_serve_def] idle_between(1) cam_mods r(1) ne]
  obtain m where "mod_parse cam_ext ''x'' = Inr m" "granted (cam_db cam_rules) ''p'' (mi_name m) ''mod-install''"
    "\<forall>r' \<in> set [r]. mo_name r' = mi_name m \<longrightarrow> (\<forall>cap \<in> set (mi_caps m). granted (cam_db cam_rules) ''p'' (mi_name m) (''mod-cap:'' @ cap))"
    by (auto simp: toy_request_def)
  with r(2) cam_parse show ?thesis by (auto simp: cam_def)
qed

lemma refused_mods_end_disabled_witness:
  "\<exists>r. nd_modulations (fst (cam_serve (cam_db cam_rules))) = Some [r] \<and> mo_enabled r = 1
    \<and> mo_name r \<notin> fst ` set [(''other'', ''unknown abi'')]"
proof -
  obtain db' c' where s: "cam_serve (cam_db cam_rules) = (db', c')" by fastforce
  obtain r where r: "nd_modulations db' = Some [r]" "mo_enabled r = 1" using cam_run s by auto
  have l: "reload_mods cam_ext db' = Inr [(''other'', ''unknown abi'')]" by (simp add: reload_mods_def cam_ext_def)
  have "r \<in> set [r]" "r \<notin> set []" "mo_enabled r \<noteq> 0" using r(2) by simp_all
  from refused_mods_end_disabled [OF s [unfolded cam_serve_def] idle_between(1) cam_mods r(1) this l] r s
  show ?thesis by auto
qed

lemma install_leaves_one_row_witness:
  "\<exists>r. nd_audit (fst (cam_serve (cam_db []))) = Some [r] \<and> au_decision r = ''deny''"
proof -
  obtain db' c' where s: "cam_serve (cam_db []) = (db', c')" by fastforce
  have p: "rq_params (toy_request ''x'') = []" "mod_parse cam_ext (rq_signal (toy_request ''x'')) = Inr cam"
    by (simp_all add: toy_request_def cam_parse)
  have a: "nd_audit (cam_db []) = Some []" by (simp add: cam_db_def toy_db_def)
  have "\<not> granted (cam_db []) ''p'' (mi_name cam) ''mod-install''"
    by (simp add: granted_def policy_matches_def cam_db_def)
  with install_leaves_one_row [OF s [unfolded cam_serve_def] idle_between(2) p a] s show ?thesis by auto
qed

lemma approved_install_proceeds_witness:
  "\<exists>auth. fst (install_gate cam_ext toy_env ''p'' ''r2'' ''cam'' [''clock''] ''x''
      ((snd (install_gate cam_ext toy_env ''p'' ''r1'' ''cam'' [''clock''] ''x'' (cam_db [])))\<lparr>nd_auth := auth\<rparr>)) = InstallAllowed"
proof -
  let ?g = "install_gate cam_ext toy_env ''p'' ''r1'' ''cam'' [''clock''] ''x'' (cam_db [])"
  have n: "\<not> policy_matches (cam_db []) ''p'' ''cam'' action effect" for action effect
    by (simp add: policy_matches_def cam_db_def)
  have "fst ?g = InstallPending"
    using cam_known [of "[]"] n
    by (simp add: install_gate_def Let_def park_install_def insert_inbox_def cam_db_def toy_db_def split: sum.split)
  then obtain db1 where g: "?g = (InstallPending, db1)" by (metis prod.collapse)
  have fp: "install_fingerprint cam_ext ''x'' ''cam'' = []"
    by (simp add: install_fingerprint_def statement_fingerprint_def cam_ext_def)
  have d: "hx_decode (mx_human cam_ext) (mx_params cam_ext (install_params cam_ext ''x'' ''cam''))
      = Some (install_params cam_ext ''x'' ''cam'')"
    by (simp add: install_params_def fp) (simp add: cam_ext_def)
  have db: "db_inbox (nd_auth (cam_db [])) = Some []" "db_policy (nd_auth (cam_db [])) = Some []"
    "db_decisions (nd_auth (cam_db [])) = Some []" by (simp_all add: cam_db_def toy_db_def)
  have "name_ok ''cam''" by (simp add: name_ok_def is_alnum_def is_lower_def)
  from approved_install_proceeds [OF g db(1) _ d _ this db(2,3), of "ne_call toy_env" toy_env "''r2''" "''x''"] n g
  show ?thesis by auto
qed

text \<open>A reload that fails after the rows are written leaves the mod installed and enabled, although the
  request is answered with an error.\<close>

lemma failed_reload_leaves_mod_enabled:
  assumes "keeps_mods between" "nd_modulations db = Some mods" "fetch_wasm x peer m = Inr wasm"
    and "mx_reload x = None" "apply_install x cfg between i peer m db c = (db', c')"
  shows "c' = send_error c (Some i) EngineError ''no mod reloader is wired on this node''
    \<and> (\<exists>mods' r. nd_modulations db' = Some mods' \<and> r \<in> set mods' \<and> mo_name r = mi_name m \<and> mo_enabled r = 1)"
proof -
  let ?up = "upsert_mod (mi_name m) wasm (sha256_hex x wasm) (mx_caps_json x (mi_caps m))
    (limits_json (eff_timeout cfg m) (eff_memory cfg m)) (mi_note m) (between 1 db)"
  have m0: "nd_modulations (between 1 db) = Some mods" using assms(1,2) by (simp add: keeps_mods_sel)
  then obtain db1 where up: "?up = Inr db1" by (cases ?up) (auto simp: upsert_mod_def split: if_splits)
  have r: "\<exists>mods' r. nd_modulations db1 = Some mods' \<and> r \<in> set mods' \<and> mo_name r = mi_name m \<and> mo_enabled r = 1"
  proof (cases "mi_name m \<in> set (map mo_name mods)")
    case True
    then obtain q where q: "q \<in> set mods" "mo_name q = mi_name m" by auto
    let ?g = "\<lambda>r. r\<lparr>mo_wasm := Some wasm, mo_sha256 := sha256_hex x wasm, mo_enabled := 1,
      mo_caps := mx_caps_json x (mi_caps m), mo_limits := limits_json (eff_timeout cfg m) (eff_memory cfg m),
      mo_note := mi_note m\<rparr>"
    let ?f = "\<lambda>r. if mo_name r = mi_name m then ?g r else r"
    have "nd_modulations db1 = Some (map ?f mods)" using up m0 True by (auto simp: upsert_mod_def)
    moreover have "?f q \<in> set (map ?f mods)" using q(1) by simp
    moreover have "mo_name (?f q) = mi_name m" "mo_enabled (?f q) = 1" using q(2) by simp_all
    ultimately show ?thesis by blast
  next
    case False
    then obtain new where "nd_modulations db1 = Some (mods @ [new])" "mo_name new = mi_name m" "mo_enabled new = 1"
      using up m0 by (auto simp: upsert_mod_def)
    then show ?thesis by (intro exI [of _ "mods @ [new]"] exI [of _ new]) simp
  qed
  have e: "(db', c') = (between 2 db1, send_error c (Some i) EngineError ''no mod reloader is wired on this node'')"
    using assms(3,4,5) up by (simp add: apply_install_def reload_mods_def Let_def)
  have "nd_modulations db' = nd_modulations db1" using e assms(1) by (simp add: keeps_mods_sel)
  with e r show ?thesis by auto
qed

end
