(* ===== verification/System_Graph.thy ===== *)
theory System_Graph
  imports Projection Graph_Lane Envelope_Encode
begin

text \<open>
  The \<open>system\<close> modulation (\<open>crates/node/src/system.rs\<close>, \<open>serve_system_lane\<close> of \<open>pipeline.rs\<close>):
  the node's own state as RDF, generated when it is read and filtered for the caller.

  The tables only this view reads are in \<open>sys_tables\<close>; policy, mods, projection and settings
  are those of the node's database. Parameters: JSON, the Turtle parser (with the implied
  prefixes, the triples it gives before and after an error) and the check of a IRI.
\<close>

subsection \<open>Tables\<close>

record peer_detail =
  pd_endpoint_id :: string
  pd_name :: "string option"
  pd_relay_url :: "string option"
  pd_addrs :: "string option"
  pd_added_at :: string
  pd_last_seen :: "string option"
  pd_notes :: "string option"

record app_row =
  ap_app_id :: string
  ap_name :: string
  ap_version :: "string option"
  ap_lib_version :: string
  ap_platform :: string
  ap_tables :: string
  ap_first_seen :: string
  ap_last_seen :: string
  ap_note :: "string option"

record room_row =
  ro_room_id :: string
  ro_name :: string
  ro_host :: string

text \<open>The row ids of the policy's rows, in the order of the table; comments by name; members by
  room.\<close>

record sys_tables =
  st_peers :: "peer_detail list option"
  st_policy_ids :: "int list"
  st_apps :: "app_row list option"
  st_comments :: "(string \<times> string) list option"
  st_rooms :: "room_row list option"
  st_members :: "(string \<times> string) list option"

record sys_ext =
  sg_strings :: "string \<Rightarrow> string list option"
  sg_json :: "string \<Rightarrow> json option"
  sg_turtle :: "string \<Rightarrow> Vocab.triple list"
  sg_iri_ok :: "string \<Rightarrow> bool"
  sg_env :: ext

subsection \<open>Terms\<close>

definition tri :: "string \<Rightarrow> string \<Rightarrow> Vocab.rdf_term \<Rightarrow> Vocab.triple" where
  "tri s p ob = \<lparr>subject = Vocab.NamedNode s, predicate = p, object = ob\<rparr>"

definition typed :: "string \<Rightarrow> string \<Rightarrow> Vocab.rdf_term" where
  "typed s xsd_local = typed_lit s (XSD_NS @ xsd_local)"

definition boolean_term :: "bool \<Rightarrow> Vocab.rdf_term" where
  "boolean_term b = typed (if b then ''true'' else ''false'') ''boolean''"

definition peer_iri :: "string \<Rightarrow> string" where
  "peer_iri hex = ''urn:rsntr:peer:'' @ hex"

definition node_iri :: "string \<Rightarrow> string" where
  "node_iri hex = ''urn:rsntr:node:'' @ hex"

definition opt_tri :: "string \<Rightarrow> string \<Rightarrow> string option \<Rightarrow> Vocab.triple list" where
  "opt_tri s local v = (case v of None \<Rightarrow> [] | Some t \<Rightarrow> [tri s (rsntr_iri local) (plain_lit t)])"

abbreviation a_tri :: "string \<Rightarrow> string \<Rightarrow> Vocab.triple" where
  "a_tri s cls \<equiv> tri s (rdf_iri ''type'') (TNamed (rsntr_iri cls))"

abbreviation text_tri :: "string \<Rightarrow> string \<Rightarrow> string \<Rightarrow> Vocab.triple" where
  "text_tri s local v \<equiv> tri s (rsntr_iri local) (plain_lit v)"

abbreviation link_tri :: "string \<Rightarrow> string \<Rightarrow> string \<Rightarrow> Vocab.triple" where
  "link_tri s local i \<equiv> tri s (rsntr_iri local) (TNamed i)"

subsection \<open>The filter\<close>

definition readable :: "'u node_db \<Rightarrow> string \<Rightarrow> string \<Rightarrow> (sqlite_error, bool) result" where
  "readable db peer table =
     (case db_policy (nd_auth db) of
        None \<Rightarrow> Inl (no_table ''_policy'')
      | Some rows \<Rightarrow> Inr (list_ex (allow_row ''read'' table peer) rows))"

definition may_read :: "'u node_db \<Rightarrow> string \<Rightarrow> bool \<Rightarrow> string \<Rightarrow> (sqlite_error, bool) result" where
  "may_read db peer unfiltered table = (if unfiltered then Inr True else readable db peer table)"

definition served_modulations :: "(string \<Rightarrow> string list option) \<Rightarrow> 'u node_db \<Rightarrow> string list" where
  "served_modulations strings db =
     (let mods = (case read_rsntr (nd_auth db) ''modulations'' of
            None \<Rightarrow> []
          | Some s \<Rightarrow> (case strings s of Some l \<Rightarrow> l | None \<Rightarrow> if trim s = [] then [] else [s]))
      in if ''help'' \<in> set mods then mods else mods @ [''help''])"

text \<open>The rows of a table, or the error of a statement that names a missing one.\<close>

definition rows_of :: "string \<Rightarrow> 'a list option \<Rightarrow> (sqlite_error, 'a list) result" where
  "rows_of name rows = (case rows of None \<Rightarrow> Inl (no_table name) | Some rs \<Rightarrow> Inr rs)"

subsection \<open>Sections\<close>

record graph_sections =
  gs_peers :: bool
  gs_policy :: bool
  gs_modulations :: bool
  gs_rooms :: bool
  gs_points :: nat
  gs_apps :: bool

definition node_triples :: "sys_ext \<Rightarrow> 'u node_db \<Rightarrow> string \<Rightarrow> string \<Rightarrow> Vocab.triple list" where
  "node_triples x db self_hex node =
     [a_tri node ''Node'', text_tri node ''endpointId'' self_hex]
     @ map (text_tri node ''serves'') (served_modulations (sg_strings x) db)"

definition peer_triples :: "sys_ext \<Rightarrow> string \<Rightarrow> peer_detail \<Rightarrow> Vocab.triple list" where
  "peer_triples x node r =
     (let s = peer_iri (pd_endpoint_id r)
      in [a_tri s ''Peer'', text_tri s ''endpointId'' (pd_endpoint_id r), link_tri node ''knows'' s]
         @ opt_tri s ''name'' (pd_name r) @ opt_tri s ''relay'' (pd_relay_url r)
         @ map (text_tri s ''addr'') (case Option.bind (pd_addrs r) (sg_strings x) of Some l \<Rightarrow> l | None \<Rightarrow> [])
         @ [tri s (rsntr_iri ''addedAt'') (typed (pd_added_at r) ''dateTime'')]
         @ (case pd_last_seen r of None \<Rightarrow> [] | Some t \<Rightarrow> [tri s (rsntr_iri ''lastSeen'') (typed t ''dateTime'')])
         @ opt_tri s ''note'' (pd_notes r))"

definition rule_triples :: "string \<Rightarrow> int \<Rightarrow> policy_row \<Rightarrow> Vocab.triple list" where
  "rule_triples node rowid r =
     (let s = ''urn:rsntr:policy:'' @ show_int rowid
      in [a_tri s ''PolicyRule'', link_tri node ''rule'' s, text_tri s ''peerOrGroup'' (po_peer r),
          text_tri s ''resource'' (po_table r), text_tri s ''action'' (po_action r), text_tri s ''effect'' (po_effect r)]
         @ opt_tri s ''note'' (po_note r))"

definition mod_triples :: "sys_ext \<Rightarrow> string \<Rightarrow> modulation_row \<Rightarrow> Vocab.triple list" where
  "mod_triples x node r =
     (let s = ''urn:rsntr:mod:'' @ mo_name r
      in [a_tri s ''Modulation'', link_tri node ''installed'' s, text_tri s ''name'' (mo_name r),
          tri s (rsntr_iri ''enabled'') (boolean_term (mo_enabled r \<noteq> 0)), text_tri s ''hash'' (mo_sha256 r)]
         @ map (text_tri s ''cap'') (case sg_strings x (mo_caps r) of Some l \<Rightarrow> l | None \<Rightarrow> [])
         @ opt_tri s ''note'' (mo_note r))"

text \<open>A declared table, when the caller may read it.\<close>

definition table_triples ::
  "'u node_db \<Rightarrow> sys_tables \<Rightarrow> string \<Rightarrow> bool \<Rightarrow> string \<Rightarrow> string \<Rightarrow> (sqlite_error, Vocab.triple list) result" where
  "table_triples db st peer unfiltered s table =
     rbind (may_read db peer unfiltered table) (\<lambda>ok.
       if \<not> ok then Inr []
       else
         let t = ''urn:rsntr:table:'' @ table
         in rbind (rows_of ''_comments'' (st_comments st)) (\<lambda>comments.
              Inr ([link_tri s ''declares'' t, a_tri t ''Table'', text_tri t ''name'' table]
                @ (case map_of comments table of
                     None \<Rightarrow> [] | Some cm \<Rightarrow> [tri t (RDFS_NS @ ''comment'') (plain_lit cm)]))))"

definition app_triples ::
  "sys_ext \<Rightarrow> 'u node_db \<Rightarrow> sys_tables \<Rightarrow> string \<Rightarrow> bool \<Rightarrow> string \<Rightarrow> app_row
    \<Rightarrow> (sqlite_error, Vocab.triple list) result" where
  "app_triples x db st peer unfiltered node r =
     (let s = ''urn:rsntr:app:'' @ ap_app_id r;
          tables = (case sg_strings x (ap_tables r) of Some l \<Rightarrow> l | None \<Rightarrow> [])
      in rbind (mapM (table_triples db st peer unfiltered s) tables) (\<lambda>ts.
           Inr ([a_tri s ''App'', link_tri node ''hosts'' s, text_tri s ''name'' (ap_name r)]
             @ opt_tri s ''version'' (ap_version r)
             @ [text_tri s ''libVersion'' (ap_lib_version r), text_tri s ''platform'' (ap_platform r),
                tri s (rsntr_iri ''firstSeen'') (typed (ap_first_seen r) ''dateTime''),
                tri s (rsntr_iri ''lastSeen'') (typed (ap_last_seen r) ''dateTime'')]
             @ opt_tri s ''note'' (ap_note r) @ concat ts)))"

definition room_triples :: "sys_ext \<Rightarrow> sys_tables \<Rightarrow> string \<Rightarrow> room_row \<Rightarrow> Vocab.triple list" where
  "room_triples x st node r =
     (let s = ro_room_id r
      in if \<not> sg_iri_ok x s then []
         else [a_tri s ''Room'', link_tri node ''room'' s, text_tri s ''name'' (ro_name r),
               link_tri s ''host'' (peer_iri (ro_host r))]
           @ (case st_members st of
                None \<Rightarrow> []
              | Some ms \<Rightarrow> map (\<lambda>m. link_tri s ''member'' (peer_iri m))
                            (sort (map snd (filter (\<lambda>(room, m). room = s) ms)))))"

subsection \<open>The points\<close>

definition node_of_term :: "Vocab.rdf_term \<Rightarrow> Vocab.node option" where
  "node_of_term t =
     (case t of TBlank b \<Rightarrow> Some (Vocab.BlankNode b) | TNamed n \<Rightarrow> Some (Vocab.NamedNode n) | TLiteral l \<Rightarrow> None)"

text \<open>The node an edge leads to: that of the first triple with this subject and predicate.\<close>

definition edge_to :: "Vocab.triple list \<Rightarrow> Vocab.node \<Rightarrow> string \<Rightarrow> Vocab.node option" where
  "edge_to ts s p =
     Option.bind (List.find (\<lambda>t. subject t = s \<and> predicate t = p) ts) (\<lambda>t. node_of_term (object t))"

text \<open>The nodes an edge can lead to.\<close>

definition cell_targets :: "Vocab.triple list \<Rightarrow> Vocab.node set" where
  "cell_targets ts = (\<Union>t \<in> set ts. set_option (node_of_term (object t)))"

lemma edge_to_target: "edge_to ts s p = Some c \<Longrightarrow> c \<in> cell_targets ts"
  unfolding edge_to_def cell_targets_def
  by (auto simp: bind_eq_Some_conv find_Some_iff intro!: bexI [OF _ nth_mem])

text \<open>The walk over the cells of the list of offers; it ends at a literal, at the end of the list or
  at a cell it has seen.\<close>

function drop_cells :: "Vocab.triple list \<Rightarrow> Vocab.node list \<Rightarrow> Vocab.node option \<Rightarrow> Vocab.node list" where
  "drop_cells ts dropped None = dropped"
| "drop_cells ts dropped (Some c) =
     (if c \<in> set dropped then dropped else drop_cells ts (c # dropped) (edge_to ts c (RDF_NS @ ''rest'')))"
  by pat_completeness auto

termination drop_cells
proof (relation "measure (\<lambda>(ts, dropped, cell). card ((cell_targets ts \<union> set_option cell) - set dropped))")
  fix ts dropped and c :: Vocab.node
  assume c: "c \<notin> set dropped"
  have "(cell_targets ts \<union> set_option (edge_to ts c (RDF_NS @ ''rest''))) - set (c # dropped)
      \<subset> (cell_targets ts \<union> set_option (Some c)) - set dropped"
    using c edge_to_target [of ts c "RDF_NS @ ''rest''"] by auto
  moreover have "finite ((cell_targets ts \<union> set_option (Some c)) - set dropped)" by (simp add: cell_targets_def)
  ultimately show "((ts, c # dropped, edge_to ts c (RDF_NS @ ''rest'')), ts, dropped, Some c)
      \<in> measure (\<lambda>(ts, dropped, cell). card ((cell_targets ts \<union> set_option cell) - set dropped))"
    by (simp add: psubset_card_mono)
qed simp

definition frame_header :: "Vocab.triple list \<Rightarrow> Vocab.node option" where
  "frame_header ts =
     map_option subject
       (List.find (\<lambda>t. predicate t = RDF_NS @ ''type'' \<and> object t = TNamed (RSNTR_NS @ ''Projection'')) ts)"

definition scaffolding :: "Vocab.triple list \<Rightarrow> Vocab.node list" where
  "scaffolding ts =
     (case frame_header ts of
        None \<Rightarrow> []
      | Some h \<Rightarrow> drop_cells ts [h] (edge_to ts h (RSNTR_NS @ ''offers'')))"

definition point_triples :: "sys_ext \<Rightarrow> string \<Rightarrow> projection \<Rightarrow> Vocab.triple list \<times> nat" where
  "point_triples x node p =
     (let doc = (case to_turtle (sg_env x) (Envelope_Types.Projection p) of Inr d \<Rightarrow> d | Inl _ \<Rightarrow> []);
          parsed = sg_turtle x doc; dropped = scaffolding parsed;
          named = filter (sg_iri_ok x) (map pt_iri (pj_offers p))
      in (filter (\<lambda>t. subject t \<notin> set dropped) parsed @ map (link_tri node ''offers'') named, length named))"

subsection \<open>The graph\<close>

text \<open>A section: nothing when the caller may not read the table.\<close>

definition section_of ::
  "(sqlite_error, bool) result \<Rightarrow> (sqlite_error, Vocab.triple list) result
    \<Rightarrow> (sqlite_error, Vocab.triple list \<times> bool) result" where
  "section_of allowed ts =
     rbind allowed (\<lambda>ok. if ok then rbind ts (\<lambda>l. Inr (l, True)) else Inr ([], False))"

definition peers_section where
  "peers_section x st node =
     rbind (rows_of ''_peers'' (st_peers st)) (\<lambda>rs.
       Inr (concat (map (peer_triples x node) (sort_key pd_endpoint_id rs))))"

definition policy_section where
  "policy_section db st node =
     rbind (rows_of ''_policy'' (db_policy (nd_auth db))) (\<lambda>rs.
       Inr (concat (map (\<lambda>(i, r). rule_triples node i r) (zip (st_policy_ids st) rs))))"

definition mods_section where
  "mods_section x db node =
     rbind (rows_of ''_modulations'' (nd_modulations db)) (\<lambda>rs.
       Inr (concat (map (mod_triples x node) (sort_key mo_name rs))))"

definition apps_section where
  "apps_section x db st peer unfiltered node =
     rbind (rows_of ''_apps'' (st_apps st)) (\<lambda>rs.
       rbind (mapM (app_triples x db st peer unfiltered node) (sort_key ap_app_id rs)) (\<lambda>ts. Inr (concat ts)))"

definition rooms_section where
  "rooms_section x db st peer unfiltered node =
     (case st_rooms st of
        None \<Rightarrow> Inr ([], False)
      | Some rs \<Rightarrow>
          section_of (may_read db peer unfiltered ''chat_rooms'')
            (Inr (concat (map (room_triples x st node) (sort_key ro_room_id rs)))))"

definition points_section where
  "points_section x db peer unfiltered node =
     rbind (build_projection db (sg_json x) peer [] [] unfiltered) (\<lambda>out.
       Inr (case out of UnknownPath \<Rightarrow> ([], 0) | Built p \<Rightarrow> point_triples x node p))"

definition build_system_graph ::
  "sys_ext \<Rightarrow> 'u node_db \<Rightarrow> sys_tables \<Rightarrow> string \<Rightarrow> bool
    \<Rightarrow> (sqlite_error, Vocab.triple list \<times> graph_sections) result" where
  "build_system_graph x db st peer unfiltered =
     (let self_hex = (case read_rsntr (nd_auth db) ''endpoint_id'' of Some h \<Rightarrow> h | None \<Rightarrow> []);
          node = node_iri self_hex; allowed = may_read db peer unfiltered
      in rbind (section_of (allowed ''_peers'') (peers_section x st node)) (\<lambda>(peers, a).
         rbind (section_of (allowed ''_policy'') (policy_section db st node)) (\<lambda>(policy, b).
         rbind (section_of (allowed ''_modulations'') (mods_section x db node)) (\<lambda>(mods, c).
         rbind (section_of (allowed ''_apps'') (apps_section x db st peer unfiltered node)) (\<lambda>(apps, d).
         rbind (rooms_section x db st peer unfiltered node) (\<lambda>(rooms, e).
         rbind (points_section x db peer unfiltered node) (\<lambda>(points, n).
           Inr (node_triples x db self_hex node @ peers @ policy @ mods @ apps @ rooms @ points,
                \<lparr>gs_peers = a, gs_policy = b, gs_modulations = c, gs_rooms = e, gs_points = n, gs_apps = d\<rparr>))))))))"

subsection \<open>The lane\<close>

definition show_bool :: "bool \<Rightarrow> string" where
  "show_bool b = (if b then ''true'' else ''false'')"

definition graph_reason :: "(sqlite_error, Vocab.triple list \<times> graph_sections) result \<Rightarrow> string \<times> string" where
  "graph_reason built =
     (case built of
        Inr (ts, g) \<Rightarrow>
          (''allow'', ''system graph: '' @ show_nat (length ts) @ '' triples (peers '' @ show_bool (gs_peers g)
             @ '', policy '' @ show_bool (gs_policy g) @ '', modulations '' @ show_bool (gs_modulations g)
             @ '', rooms '' @ show_bool (gs_rooms g) @ '', '' @ show_nat (gs_points g) @ '' points)'')
      | Inl e \<Rightarrow> (''deny'', ''system graph failed: '' @ err_text e))"

definition system_frames ::
  "sparql_ext \<Rightarrow> node_config \<Rightarrow> string \<Rightarrow> (sqlite_error, Vocab.triple list \<times> graph_sections) result
    \<Rightarrow> envelope_object list" where
  "system_frames sx cfg i built =
     (case built of
        Inl e \<Rightarrow> [Error \<lparr>er_id = Some i, er_code = code_as_str EngineError, er_reason = Some (err_text e)\<rparr>]
      | Inr (ts, g) \<Rightarrow>
          map Graph (graph_chunks sx cfg i ts 0 [] 0) @ [sparql_done i (int (length ts)) None False])"

definition UNKNOWN_SIGNAL :: "string \<Rightarrow> string" where
  "UNKNOWN_SIGNAL d = ''unknown system signal '' @ d @ ''; the system modulation serves `graph`''"

text \<open>\<open>dbg\<close> is the \<open>Debug\<close> form of a text; of \<open>sx\<close> only the size of a triple is used.\<close>

definition serve_system_lane ::
  "(string \<Rightarrow> string) \<Rightarrow> sys_ext \<Rightarrow> sparql_ext \<Rightarrow> node_config \<Rightarrow> node_env \<Rightarrow> lane \<Rightarrow> string \<Rightarrow> string \<Rightarrow> string
    \<Rightarrow> sys_tables \<Rightarrow> 'u node_db \<Rightarrow> stream \<Rightarrow> 'u node_db \<times> stream" where
  "serve_system_lane dbg x sx cfg env lane peer i signal st db c =
     (if trim signal \<noteq> ''graph''
      then (db, send_error c (Some i) ProtocolErrorCode (UNKNOWN_SIGNAL (dbg (trim signal))))
      else
        let built = build_system_graph x db st peer (lane = Owner);
            (decision, reason) = graph_reason built
        in (audit_direct_dir env (lane_direction lane) peer i ''system graph'' decision (lane_decider lane) reason db,
            send_all c (system_frames sx cfg i built)))"

subsection \<open>What a caller learns\<close>

text \<open>The tables an app declares, and the members a room is shown with.\<close>

definition declared_tables :: "sys_ext \<Rightarrow> app_row \<Rightarrow> string list" where
  "declared_tables x r = (case sg_strings x (ap_tables r) of Some l \<Rightarrow> l | None \<Rightarrow> [])"

definition room_members :: "sys_tables \<Rightarrow> string \<Rightarrow> string list" where
  "room_members st room =
     (case st_members st of None \<Rightarrow> [] | Some ms \<Rightarrow> sort (map snd (filter (\<lambda>(r, m). r = room) ms)))"

text \<open>Two nodes look the same to a caller: the same id, settings and rights, the same points to offer,
  and the same content of those of the six tables the caller may read. Two things go beyond the
  rights: the members of the rooms that are shown, with no right on \<open>chat_members\<close>, and the
  comments on the declared tables the caller may read, with no right on \<open>_comments\<close>.\<close>

definition same_view :: "sys_ext \<Rightarrow> string \<Rightarrow> 'u node_db \<Rightarrow> sys_tables \<Rightarrow> 'u node_db \<Rightarrow> sys_tables \<Rightarrow> bool" where
  "same_view x peer db st db' st' \<longleftrightarrow>
     (\<forall>key \<in> {''endpoint_id'', ''modulations''}. read_rsntr (nd_auth db') key = read_rsntr (nd_auth db) key)
     \<and> (\<forall>table. readable db' peer table = readable db peer table)
     \<and> build_projection db' (sg_json x) peer [] [] False = build_projection db (sg_json x) peer [] [] False
     \<and> (readable db peer ''_peers'' = Inr True \<longrightarrow> st_peers st' = st_peers st)
     \<and> (readable db peer ''_policy'' = Inr True \<longrightarrow>
          db_policy (nd_auth db') = db_policy (nd_auth db) \<and> st_policy_ids st' = st_policy_ids st)
     \<and> (readable db peer ''_modulations'' = Inr True \<longrightarrow> nd_modulations db' = nd_modulations db)
     \<and> (readable db peer ''_apps'' = Inr True \<longrightarrow> st_apps st' = st_apps st
          \<and> (\<forall>rs r table. st_apps st = Some rs \<longrightarrow> r \<in> set rs \<longrightarrow> table \<in> set (declared_tables x r) \<longrightarrow>
                readable db peer table = Inr True \<longrightarrow>
                map_option (\<lambda>cs. map_of cs table) (st_comments st') = map_option (\<lambda>cs. map_of cs table) (st_comments st)))
     \<and> (readable db peer ''chat_rooms'' = Inr True \<longrightarrow> st_rooms st' = st_rooms st
          \<and> (\<forall>rs r. st_rooms st = Some rs \<longrightarrow> r \<in> set rs \<longrightarrow> sg_iri_ok x (ro_room_id r) \<longrightarrow>
                room_members st' (ro_room_id r) = room_members st (ro_room_id r)))"

lemma section_of_cong:
  assumes "allowed = allowed'" "allowed = Inr True \<Longrightarrow> ts = ts'"
  shows "section_of allowed ts = section_of allowed' ts'"
proof (cases "allowed = Inr True")
  case True
  then have "ts = ts'" by (rule assms(2))
  with assms(1) show ?thesis by simp
next
  case False
  then show ?thesis unfolding assms(1) [symmetric] section_of_def by (cases allowed) simp_all
qed

lemma same_view_sections:
  assumes "same_view x peer db st db' st'"
  shows "section_of (readable db' peer ''_peers'') (peers_section x st' node)
      = section_of (readable db peer ''_peers'') (peers_section x st node)"
    "section_of (readable db' peer ''_policy'') (policy_section db' st' node)
      = section_of (readable db peer ''_policy'') (policy_section db st node)"
    "section_of (readable db' peer ''_modulations'') (mods_section x db' node)
      = section_of (readable db peer ''_modulations'') (mods_section x db node)"
    "section_of (readable db' peer ''_apps'') (apps_section x db' st' peer False node)
      = section_of (readable db peer ''_apps'') (apps_section x db st peer False node)"
    "readable db peer ''chat_rooms'' = Inr b \<Longrightarrow>
      rooms_section x db' st' peer False node = rooms_section x db st peer False node"
    "points_section x db' peer False node = points_section x db peer False node"
    "node_triples x db' h node = node_triples x db h node"
proof -
  have r: "readable db' peer = readable db peer" using assms by (auto simp: same_view_def fun_eq_iff)
  show "section_of (readable db' peer ''_peers'') (peers_section x st' node)
      = section_of (readable db peer ''_peers'') (peers_section x st node)"
    by (rule section_of_cong) (use assms r in \<open>simp_all add: same_view_def peers_section_def\<close>)
  show "section_of (readable db' peer ''_policy'') (policy_section db' st' node)
      = section_of (readable db peer ''_policy'') (policy_section db st node)"
    by (rule section_of_cong) (use assms r in \<open>simp_all add: same_view_def policy_section_def\<close>)
  show "section_of (readable db' peer ''_modulations'') (mods_section x db' node)
      = section_of (readable db peer ''_modulations'') (mods_section x db node)"
    by (rule section_of_cong) (use assms r in \<open>simp_all add: same_view_def mods_section_def\<close>)
  have t: "table_triples db' st' peer False s table = table_triples db st peer False s table"
    if "readable db peer table = Inr True \<Longrightarrow>
        map_option (\<lambda>cs. map_of cs table) (st_comments st') = map_option (\<lambda>cs. map_of cs table) (st_comments st)"
    for s table
  proof (cases "readable db peer table = Inr True")
    case True
    with that show ?thesis
      by (cases "st_comments st"; cases "st_comments st'") (simp_all add: table_triples_def may_read_def r rows_of_def)
  next
    case False
    then show ?thesis by (cases "readable db peer table") (simp_all add: table_triples_def may_read_def r)
  qed
  show "section_of (readable db' peer ''_apps'') (apps_section x db' st' peer False node)
      = section_of (readable db peer ''_apps'') (apps_section x db st peer False node)"
  proof (rule section_of_cong)
    assume ok: "readable db' peer ''_apps'' = Inr True"
    with assms r have e: "st_apps st' = st_apps st" by (simp add: same_view_def)
    have step: "app_triples x db' st' peer False node a = app_triples x db st peer False node a"
      if "st_apps st = Some rs" "a \<in> set (sort_key ap_app_id rs)" for rs a
    proof -
      have "table_triples db' st' peer False s table = table_triples db st peer False s table"
        if "table \<in> set (declared_tables x a)" for s table
        by (rule t) (use assms ok r \<open>st_apps st = Some rs\<close> \<open>a \<in> set (sort_key ap_app_id rs)\<close> that in \<open>auto simp: same_view_def\<close>)
      then show ?thesis unfolding app_triples_def Let_def declared_tables_def [symmetric]
        by (simp cong: mapM_cong)
    qed
    show "apps_section x db' st' peer False node = apps_section x db st peer False node"
    proof (cases "st_apps st")
      case (Some rs)
      have "mapM (app_triples x db' st' peer False node) (sort_key ap_app_id rs)
          = mapM (app_triples x db st peer False node) (sort_key ap_app_id rs)"
        by (rule mapM_cong [OF refl]) (rule step [OF Some])
      then show ?thesis by (simp add: apps_section_def e Some rows_of_def)
    qed (simp add: apps_section_def e rows_of_def)
  qed (simp add: r)
  show "rooms_section x db' st' peer False node = rooms_section x db st peer False node"
    if b: "readable db peer ''chat_rooms'' = Inr b"
  proof (cases b)
    case False
    with b show ?thesis by (simp add: rooms_section_def may_read_def r section_of_def split: option.split)
  next
    case True
    with assms b have e: "st_rooms st' = st_rooms st" by (simp add: same_view_def)
    have rt: "room_triples x st0 node a = (if \<not> sg_iri_ok x (ro_room_id a) then []
         else [a_tri (ro_room_id a) ''Room'', link_tri node ''room'' (ro_room_id a),
               text_tri (ro_room_id a) ''name'' (ro_name a),
               link_tri (ro_room_id a) ''host'' (peer_iri (ro_host a))]
           @ map (\<lambda>m. link_tri (ro_room_id a) ''member'' (peer_iri m)) (room_members st0 (ro_room_id a)))" for st0 a
      by (simp add: room_triples_def room_members_def Let_def split: option.split)
    have "room_triples x st' node a = room_triples x st node a" if "st_rooms st = Some rs" "a \<in> set rs" for rs a
      using assms b True that by (auto simp: rt same_view_def)
    then show ?thesis unfolding rooms_section_def e may_read_def r
      by (cases "st_rooms st") (auto intro!: section_of_cong arg_cong [of _ _ concat] map_cong)
  qed
  show "points_section x db' peer False node = points_section x db peer False node"
    using assms by (simp add: same_view_def points_section_def)
  show "node_triples x db' h node = node_triples x db h node"
    using assms by (simp add: same_view_def node_triples_def served_modulations_def)
qed

text \<open>Equal views give equal graphs, errors included.\<close>

lemma same_view_graph:
  assumes "same_view x peer db st db' st'"
  shows "build_system_graph x db' st' peer False = build_system_graph x db st peer False"
proof -
  have id: "read_rsntr (nd_auth db') ''endpoint_id'' = read_rsntr (nd_auth db) ''endpoint_id''"
    using assms by (simp add: same_view_def)
  have allowed: "may_read db' peer False table = readable db' peer table"
    "may_read db peer False table = readable db peer table" for table by (simp_all add: may_read_def)
  have r: "readable db' peer = readable db peer" using assms by (auto simp: same_view_def fun_eq_iff)
  show ?thesis
  proof (cases "db_policy (nd_auth db)")
    case None
    then have "readable db peer = (\<lambda>table. Inl (no_table ''_policy''))" by (simp add: readable_def fun_eq_iff)
    then show ?thesis unfolding build_system_graph_def Let_def allowed r by (simp add: section_of_def)
  next
    case (Some rules)
    then have "readable db peer ''chat_rooms'' = Inr (list_ex (allow_row ''read'' ''chat_rooms'' peer) rules)"
      by (simp add: readable_def)
    note rooms = same_view_sections(5) [OF assms this]
    show ?thesis unfolding build_system_graph_def Let_def allowed id same_view_sections(1-4,6,7) [OF assms] rooms ..
  qed
qed

lemma system_frames_shape: "response_shape i (system_frames sx cfg i built)"
proof (cases built)
  case (Inl e)
  have "response_shape i [Error \<lparr>er_id = Some i, er_code = code_as_str EngineError, er_reason = Some (err_text e)\<rparr>]"
    by (rule response_shape.single) (simp add: lone_def id_ok_def)
  then show ?thesis by (simp add: system_frames_def Inl)
next
  case (Inr b)
  obtain ts g where "b = (ts, g)" by fastforce
  with Inr have "system_frames sx cfg i built = outcome_frames sx cfg i (SConstruct ts)"
    by (simp add: system_frames_def outcome_frames_def)
  then show ?thesis by (simp add: outcome_shape)
qed

end
