(* ===== verification/System_Properties.thy ===== *)
theory System_Properties
  imports System_Graph Pipeline_Properties
begin

text \<open>The properties of the system graph.\<close>

subsection \<open>Two nodes that differ in what a stranger may not read\<close>

definition secret_peer :: peer_detail where
  "secret_peer = \<lparr>pd_endpoint_id = ''q'', pd_name = Some ''eve'', pd_relay_url = None, pd_addrs = None,
     pd_added_at = [], pd_last_seen = None, pd_notes = None\<rparr>"

definition sys_tables_with :: "peer_detail list \<Rightarrow> sys_tables" where
  "sys_tables_with ps = \<lparr>st_peers = Some ps, st_policy_ids = [], st_apps = Some [], st_comments = Some [],
     st_rooms = None, st_members = None\<rparr>"

definition sys_sample :: sys_ext where
  "sys_sample = \<lparr>sg_strings = (\<lambda>_. None), sg_json = (\<lambda>_. None), sg_turtle = (\<lambda>_. []), sg_iri_ok = (\<lambda>_. True),
     sg_env = \<lparr>b64_encode = (\<lambda>_. []), b64_decode = (\<lambda>_. None), disp_node = (\<lambda>_. []), disp_iri = (\<lambda>s. s),
       disp_term = (\<lambda>_. []), turtle = (\<lambda>_. Inl ())\<rparr>\<rparr>"

definition frames_sample :: sparql_ext where
  "frames_sample =
     \<lparr>sx_run = (\<lambda>_ st _. (Inr [], st)), sx_json = (\<lambda>_. []), sx_begin = (\<lambda>_. None), sx_commit = (\<lambda>_. None),
      sx_outcome_json = show_int, sx_outcome = (\<lambda>_. None), sx_iri_ok = (\<lambda>_. True), sx_label_ok = (\<lambda>_. True),
      sx_lang = Some, sx_estimate = (\<lambda>_. 1)\<rparr>"

text \<open>C10. What a caller gets from the system modulation depends only on the node's id and
  settings, the caller's rights, the points it is offered and the rows of those of the six tables
  it may read, and on two things no right of its own covers: the members of the rooms it is
  shown, and the comments on the declared tables it may read. Nodes that agree on these answer
  it with the same frames, whatever their other tables, and the other rows of \<open>chat_members\<close> and
  \<open>_comments\<close>, hold.\<close>

lemma system_graph_shows_only:
  assumes "same_view x peer db st db' st'"
  shows "snd (serve_system_lane dbg x sx cfg env Remote peer i signal st' db' c)
    = snd (serve_system_lane dbg x sx cfg env Remote peer i signal st db c)"
  using same_view_graph [OF assms] by (simp add: serve_system_lane_def Let_def split: prod.split)

lemma system_graph_shows_only_witness:
  "sys_tables_with [secret_peer] \<noteq> sys_tables_with []
   \<and> snd (serve_system_lane (\<lambda>s. s) sys_sample frames_sample node_config_default toy_env Remote ''p'' ''e'' ''graph'' (sys_tables_with [secret_peer]) toy_db toy_stream)
     = snd (serve_system_lane (\<lambda>s. s) sys_sample frames_sample node_config_default toy_env Remote ''p'' ''e'' ''graph'' (sys_tables_with []) toy_db toy_stream)"
proof -
  have "same_view sys_sample ''p'' toy_db (sys_tables_with []) toy_db (sys_tables_with [secret_peer])"
    by (simp add: same_view_def readable_def toy_db_def sys_tables_with_def)
  from system_graph_shows_only [OF this] show ?thesis by (simp add: sys_tables_with_def)
qed

text \<open>C31. The whole response of the system modulation, what a stream that takes every
  frame gets, is one the protocol's reader accepts to its end, on both lanes and when a table is
  missing; a client that stays gets it up to the first frame its stream refuses (on iroh and the
  owner's socket, one above the frame limit, such as a graph with one very long note), and so a
  complete response exactly when every frame can be encoded. The database is left as it was up
  to one ledger row.\<close>

lemma system_answer_completes:
  "(let serve = (\<lambda>c. ch_sent (snd (serve_system_lane dbg x sx cfg env lane peer i signal st db c)));
        whole = serve (stream_new (\<lambda>_. True) ahead);
        got = serve (stream_new fits ahead)
    in completes (reader_new i) whole \<and> got = takeWhile fits whole
      \<and> (completes (reader_new i) got \<longleftrightarrow> list_all fits whole))
   \<and> (fst (serve_system_lane dbg x sx cfg env lane peer i signal st db c))\<lparr>nd_audit := nd_audit db\<rparr> = db
   \<and> (nd_audit db = Some rows \<longrightarrow>
        (\<exists>new. nd_audit (fst (serve_system_lane dbg x sx cfg env lane peer i signal st db c)) = Some (rows @ new) \<and> length new \<le> 1))"
proof (intro conjI)
  show "let serve = (\<lambda>c. ch_sent (snd (serve_system_lane dbg x sx cfg env lane peer i signal st db c)));
        whole = serve (stream_new (\<lambda>_. True) ahead);
        got = serve (stream_new fits ahead)
    in completes (reader_new i) whole \<and> got = takeWhile fits whole
      \<and> (completes (reader_new i) got \<longleftrightarrow> list_all fits whole)"
    unfolding Let_def
  proof (rule part_of_response)
    show "\<exists>whole. completes (reader_new i) whole \<and>
      (\<forall>fits. ch_sent (snd (serve_system_lane dbg x sx cfg env lane peer i signal st db (stream_new fits ahead))) = takeWhile fits whole)"
      by (cases "trim signal = ''graph''")
        (simp_all add: serve_system_lane_def Let_def send_error_def lone_sends lone_def id_ok_def
          shape_sends [OF system_frames_shape] split: prod.split del: send_all.simps)
  qed
  show "(fst (serve_system_lane dbg x sx cfg env lane peer i signal st db c))\<lparr>nd_audit := nd_audit db\<rparr> = db"
    "nd_audit db = Some rows \<longrightarrow>
        (\<exists>new. nd_audit (fst (serve_system_lane dbg x sx cfg env lane peer i signal st db c)) = Some (rows @ new) \<and> length new \<le> 1)"
    by (auto simp: serve_system_lane_def Let_def audit_direct_dir_def audit_full_dir_def split: prod.split option.split)
qed

lemma system_answer_completes_witness:
  "completes (reader_new ''e'') (ch_sent (snd (serve_system_lane (\<lambda>s. s) sys_sample frames_sample node_config_default toy_env Owner ''me'' ''e'' ''graph''
     (sys_tables_with []) toy_db (stream_new (\<lambda>_. True) 0))))"
  using system_answer_completes [of "\<lambda>s. s" sys_sample frames_sample node_config_default toy_env Owner "''me''" "''e''" "''graph''"
      "sys_tables_with []" toy_db 0 "\<lambda>_. True" toy_stream "[]"] unfolding Let_def by blast

lemma graph_has_rooms:
  assumes "build_system_graph x db st peer unf = Inr (ts, g)"
  obtains node l b where "rooms_section x db st peer unf node = Inr (l, b)" "set l \<subseteq> set ts"
proof -
  let ?node = "node_iri (case read_rsntr (nd_auth db) ''endpoint_id'' of Some h \<Rightarrow> h | None \<Rightarrow> [])"
  obtain l b where "rooms_section x db st peer unf ?node = Inr (l, b)" "set l \<subseteq> set ts"
    using assms unfolding build_system_graph_def Let_def rbind_Inr_iff
    by (elim exE conjE) (clarsimp simp: rbind_Inr_iff split: prod.splits, blast)
  then show ?thesis by (rule that)
qed

text \<open>The members of a room are shown to a caller who may read \<open>chat_rooms\<close> and not \<open>chat_members\<close>.\<close>

lemma room_members_need_no_grant:
  assumes "build_system_graph x db st peer False = Inr (ts, g)" "readable db peer ''chat_rooms'' = Inr True"
    and "st_rooms st = Some rooms" "r \<in> set rooms" "sg_iri_ok x (ro_room_id r)"
    and "st_members st = Some ms" "(ro_room_id r, m) \<in> set ms"
  shows "tri (ro_room_id r) (rsntr_iri ''member'') (TNamed (peer_iri m)) \<in> set ts"
proof -
  have rt: "tri (ro_room_id r) (rsntr_iri ''member'') (TNamed (peer_iri m)) \<in> set (room_triples x st node r)" for node
    using assms(5-7) by (force simp: room_triples_def Let_def)
  have "rooms_section x db st peer False node = Inr (concat (map (room_triples x st node) (sort_key ro_room_id rooms)), True)"
    for node using assms(2,3) by (simp add: rooms_section_def may_read_def section_of_def)
  moreover obtain node l b where l: "rooms_section x db st peer False node = Inr (l, b)" "set l \<subseteq> set ts"
    by (rule graph_has_rooms [OF assms(1)])
  ultimately have "l = concat (map (room_triples x st node) (sort_key ro_room_id rooms))" by simp
  then have "tri (ro_room_id r) (rsntr_iri ''member'') (TNamed (peer_iri m)) \<in> set l"
    using assms(4) rt [of node] by auto
  with l(2) show ?thesis by blast
qed

end
