(* ===== verification/Chat.thy ===== *)
theory Chat
  imports System_Graph
begin

text \<open>
  The builtin \<open>chat\<close> modulation (\<open>crates/node/src/chat.rs\<close>; \<open>serve_chat\<close>, \<open>serve_chat_owner\<close> and
  \<open>answer_chat_outcome\<close> of \<open>pipeline.rs\<close>): one message per request, gated, appended once, and
  fanned out by the node that hosts the room.

  The user's part of the database is here the chat tables and the outbox. The handler creates
  its own tables when they are missing, so they are plain lists. Parameters: the Turtle parser
  with the implied prefixes, the display of literals, JSON, fresh identifiers, and the failures
  of the transaction.
\<close>

subsection \<open>Messages\<close>

definition BODY_MAX_BYTES :: nat where "BODY_MAX_BYTES = 65536"
definition RE_MAX_CHARS :: nat where "RE_MAX_CHARS = 256"
definition TAGS_MAX :: nat where "TAGS_MAX = 16"
definition TAG_MAX_BYTES :: nat where "TAG_MAX_BYTES = 128"
definition DIRECT_RESOURCE :: string where "DIRECT_RESOURCE = ''chat:direct''"

record blob_attachment =
  ba_hash :: string
  ba_bytes :: "int option"
  ba_name :: "string option"
  ba_content_type :: "string option"

record chat_message =
  cm_id :: "string option"
  cm_from :: "string option"
  cm_room :: "string option"
  cm_at :: "string option"
  cm_body :: string
  cm_attachment :: "blob_attachment option"
  cm_room_name :: "string option"
  cm_re :: "string option"
  cm_tags :: "string list"

datatype chat_parse_error = CProtocol string | CLimit string

definition empty_message :: chat_message where
  "empty_message = \<lparr>cm_id = None, cm_from = None, cm_room = None, cm_at = None, cm_body = [],
     cm_attachment = None, cm_room_name = None, cm_re = None, cm_tags = []\<rparr>"

text \<open>Characters of a UTF-8 text: the bytes that do not continue one.\<close>

definition char_count :: "string \<Rightarrow> nat" where
  "char_count s = length (filter (\<lambda>c. \<not> (128 \<le> (of_char c :: nat) \<and> (of_char c :: nat) < 192)) s)"

definition validate_thread_fields :: "string option \<Rightarrow> string list \<Rightarrow> (chat_parse_error, string list) result" where
  "validate_thread_fields re tags =
     (if (case re of None \<Rightarrow> False | Some r \<Rightarrow> r = [] \<or> RE_MAX_CHARS < char_count r)
      then Inl (CProtocol (''rsntr:re must be 1..='' @ show_nat RE_MAX_CHARS @ '' characters''))
      else if list_ex (\<lambda>t. t = [] \<or> TAG_MAX_BYTES < length t) tags
      then Inl (CProtocol (''rsntr:tag must be 1..='' @ show_nat TAG_MAX_BYTES @ '' bytes''))
      else
        let tags' = bset_of tags
        in if TAGS_MAX < length tags'
           then Inl (CLimit (show_nat (length tags') @ '' tags; the ceiling is '' @ show_nat TAGS_MAX))
           else Inr tags')"

subsection \<open>The tables\<close>

record message_row =
  mr_id :: string
  mr_scope :: string
  mr_sender :: string
  mr_at :: string
  mr_body :: string
  mr_blob :: "blob_attachment option"
  mr_outgoing :: int
  mr_re_id :: "string option"
  mr_tags :: "string option"

record chat_outbox_row =
  co_request_id :: string
  co_peer :: string
  co_mod :: string
  co_signal :: string

text \<open>A member is \<open>None\<close> where the column holds something that is not text.\<close>

record chat_store =
  cs_messages :: "message_row list"
  cs_rooms :: "room_row list"
  cs_members :: "(string \<times> string option) list"
  cs_outbox :: "chat_outbox_row list option"

text \<open>\<open>ce_host_error\<close> is the failure, if any, of the read of a room's host, and \<open>ce_order\<close> the order in
  which the rows of an unordered SELECT are delivered.\<close>

record chat_ext =
  ce_turtle :: "string \<Rightarrow> (string, Vocab.triple list) result"
  ce_lit :: "Vocab.rdf_term \<Rightarrow> string"
  ce_term :: "Vocab.rdf_term \<Rightarrow> string"
  ce_iri_ok :: "string \<Rightarrow> bool"
  ce_strings :: "string \<Rightarrow> string list option"
  ce_tags_json :: "string list \<Rightarrow> string option"
  ce_footprint_json :: "footprint \<Rightarrow> string"
  ce_outcome_json :: "int \<Rightarrow> string"
  ce_outcome :: "string \<Rightarrow> int option"
  ce_ulid :: "nat \<Rightarrow> string"
  ce_tables :: "chat_store node_db \<Rightarrow> sqlite_error option"
  ce_host_error :: "chat_store node_db \<Rightarrow> string \<Rightarrow> sqlite_error option"
  ce_order :: "string option list \<Rightarrow> string option list"
  ce_begin :: "chat_store node_db \<Rightarrow> sqlite_error option"
  ce_commit :: "chat_store node_db \<Rightarrow> sqlite_error option"

subsection \<open>Reading a message\<close>

fun lit_text :: "Vocab.rdf_term \<Rightarrow> string option" where
  "lit_text (TLiteral l) = Some (lit_value l)"
| "lit_text _ = None"

definition node_pairs :: "Vocab.triple list \<Rightarrow> Vocab.node \<Rightarrow> (string \<times> Vocab.rdf_term) list" where
  "node_pairs ts at = map (\<lambda>t. (predicate t, object t)) (filter (\<lambda>t. subject t = at) ts)"

record message_scan =
  sc_msg :: chat_message
  sc_body :: "string option"
  sc_attachment :: "Vocab.node option"

definition scan_pair ::
  "chat_ext \<Rightarrow> string \<times> Vocab.rdf_term \<Rightarrow> message_scan \<Rightarrow> (chat_parse_error, message_scan) result" where
  "scan_pair x po s =
     (let (pred, ob) = po; m = sc_msg s
      in if pred = rsntr_iri ''id'' then Inr (s\<lparr>sc_msg := m\<lparr>cm_id := lit_text ob\<rparr>\<rparr>)
         else if pred = rsntr_iri ''from'' then Inr (s\<lparr>sc_msg := m\<lparr>cm_from := lit_text ob\<rparr>\<rparr>)
         else if pred = rsntr_iri ''at'' then Inr (s\<lparr>sc_msg := m\<lparr>cm_at := lit_text ob\<rparr>\<rparr>)
         else if pred = rsntr_iri ''body'' then Inr (s\<lparr>sc_body := lit_text ob\<rparr>)
         else if pred = rsntr_iri ''re'' then Inr (s\<lparr>sc_msg := m\<lparr>cm_re := lit_text ob\<rparr>\<rparr>)
         else if pred = rsntr_iri ''tag''
         then (case lit_text ob of
                 Some tag \<Rightarrow> Inr (s\<lparr>sc_msg := m\<lparr>cm_tags := cm_tags m @ [tag]\<rparr>\<rparr>) | None \<Rightarrow> Inr s)
         else if pred = rsntr_iri ''room''
         then (case ob of
                 TNamed n \<Rightarrow> Inr (s\<lparr>sc_msg := m\<lparr>cm_room := Some n\<rparr>\<rparr>)
               | _ \<Rightarrow> Inl (CProtocol (''rsntr:room must be an IRI, got '' @ ce_term x ob)))
         else if pred = rsntr_iri ''attachment''
         then (case node_of_term ob of
                 Some n \<Rightarrow> Inr (s\<lparr>sc_attachment := Some n\<rparr>)
               | None \<Rightarrow> Inl (CProtocol (''rsntr:attachment must be a node, got '' @ ce_term x ob)))
         else Inr s)"

fun scan_pairs ::
  "chat_ext \<Rightarrow> (string \<times> Vocab.rdf_term) list \<Rightarrow> message_scan \<Rightarrow> (chat_parse_error, message_scan) result" where
  "scan_pairs x [] s = Inr s"
| "scan_pairs x (po # pos) s = rbind (scan_pair x po s) (scan_pairs x pos)"

definition blob_pair :: "string \<times> Vocab.rdf_term \<Rightarrow> blob_attachment \<Rightarrow> blob_attachment" where
  "blob_pair po b =
     (let (pred, ob) = po
      in if pred = rsntr_iri ''hash'' then b\<lparr>ba_hash := (case lit_text ob of Some h \<Rightarrow> h | None \<Rightarrow> [])\<rparr>
         else if pred = rsntr_iri ''bytes'' then b\<lparr>ba_bytes := Option.bind (lit_text ob) parse_i64\<rparr>
         else if pred = rsntr_iri ''name'' then b\<lparr>ba_name := lit_text ob\<rparr>
         else if pred = rsntr_iri ''contentType'' then b\<lparr>ba_content_type := lit_text ob\<rparr>
         else b)"

definition read_attachment :: "Vocab.triple list \<Rightarrow> Vocab.node \<Rightarrow> (chat_parse_error, blob_attachment) result" where
  "read_attachment ts n =
     (let b = fold blob_pair (node_pairs ts n) \<lparr>ba_hash = [], ba_bytes = None, ba_name = None, ba_content_type = None\<rparr>
      in if ba_hash b = [] then Inl (CProtocol ''rsntr:attachment BlobRef is missing its rsntr:hash'') else Inr b)"

definition message_subjects :: "Vocab.triple list \<Rightarrow> Vocab.node list" where
  "message_subjects ts =
     map subject (filter (\<lambda>t. predicate t = rdf_iri ''type'' \<and> object t = TNamed (rsntr_iri ''Message'')) ts)"

definition BODY_TOO_LONG :: "nat \<Rightarrow> string" where
  "BODY_TOO_LONG n = ''rsntr:body is '' @ show_nat n @ '' bytes; the ceiling is '' @ show_nat BODY_MAX_BYTES
     @ ''; anything bigger belongs in an attachment''"

text \<open>The checks on what was scanned, in the order of the code.\<close>

definition finish_message ::
  "chat_ext \<Rightarrow> Vocab.triple list \<Rightarrow> message_scan \<Rightarrow> (chat_parse_error, chat_message) result" where
  "finish_message x ts s =
     (case sc_body s of
        None \<Rightarrow> Inl (CProtocol ''rsntr:Message is missing its rsntr:body'')
      | Some body \<Rightarrow>
          if BODY_MAX_BYTES < length body then Inl (CLimit (BODY_TOO_LONG (length body)))
          else if (case cm_id (sc_msg s) of None \<Rightarrow> False | Some i \<Rightarrow> i = [] \<or> 256 < length i)
          then Inl (CProtocol ''rsntr:id must be 1..=256 characters'')
          else
            rbind (validate_thread_fields (cm_re (sc_msg s)) (cm_tags (sc_msg s))) (\<lambda>tags.
            rbind (case sc_attachment s of
                     None \<Rightarrow> Inr None | Some n \<Rightarrow> rbind (read_attachment ts n) (\<lambda>b. Inr (Some b))) (\<lambda>att.
              Inr ((sc_msg s)\<lparr>cm_body := body, cm_tags := tags, cm_attachment := att,
                cm_room_name := (case cm_room (sc_msg s) of
                   None \<Rightarrow> None
                 | Some room \<Rightarrow>
                     if \<not> ce_iri_ok x room then None
                     else Option.bind (map_of (node_pairs ts (Vocab.NamedNode room)) (rsntr_iri ''name'')) lit_text)\<rparr>))))"

definition parse_message :: "chat_ext \<Rightarrow> string \<Rightarrow> (chat_parse_error, chat_message) result" where
  "parse_message x signal =
     (case ce_turtle x signal of
        Inl e \<Rightarrow> Inl (CProtocol (''chat signal is not valid Turtle: '' @ e))
      | Inr ts \<Rightarrow>
          (case message_subjects ts of
             [] \<Rightarrow> Inl (CProtocol ''chat signal carries no rsntr:Message node'')
           | [s] \<Rightarrow>
               rbind (scan_pairs x (node_pairs ts s) \<lparr>sc_msg = empty_message, sc_body = None, sc_attachment = None\<rparr>)
                 (finish_message x ts)
           | _ \<Rightarrow> Inl (CProtocol ''chat signal carries more than one rsntr:Message node'')))"

subsection \<open>Writing a message\<close>

definition iri_text :: "string \<Rightarrow> string" where "iri_text i = ''<'' @ i @ ''>''"

definition nt_line :: "string \<Rightarrow> string \<Rightarrow> string \<Rightarrow> string" where
  "nt_line s p ob = s @ '' '' @ p @ '' '' @ ob @ '' .'' @ [CHR 0x0A]"

definition lit_line :: "chat_ext \<Rightarrow> string \<Rightarrow> string \<Rightarrow> string option \<Rightarrow> string" where
  "lit_line x s local v =
     (case v of None \<Rightarrow> [] | Some t \<Rightarrow> nt_line s (iri_text (rsntr_iri local)) (ce_lit x (plain_lit t)))"

definition blob_to_turtle :: "chat_ext \<Rightarrow> blob_attachment \<Rightarrow> string" where
  "blob_to_turtle x b =
     nt_line ''_:m'' (iri_text (rsntr_iri ''attachment'')) ''_:b''
     @ nt_line ''_:b'' (iri_text (rdf_iri ''type'')) (iri_text (rsntr_iri ''BlobRef''))
     @ lit_line x ''_:b'' ''hash'' (Some (ba_hash b))
     @ (case ba_bytes b of None \<Rightarrow> []
        | Some n \<Rightarrow> nt_line ''_:b'' (iri_text (rsntr_iri ''bytes'')) (ce_lit x (typed_lit (show_int n) (xsd_iri ''integer''))))
     @ lit_line x ''_:b'' ''name'' (ba_name b) @ lit_line x ''_:b'' ''contentType'' (ba_content_type b)"

definition message_to_turtle :: "chat_ext \<Rightarrow> chat_message \<Rightarrow> string" where
  "message_to_turtle x m =
     nt_line ''_:m'' (iri_text (rdf_iri ''type'')) (iri_text (rsntr_iri ''Message''))
     @ lit_line x ''_:m'' ''id'' (cm_id m) @ lit_line x ''_:m'' ''from'' (cm_from m)
     @ (case cm_room m of None \<Rightarrow> [] | Some room \<Rightarrow> nt_line ''_:m'' (iri_text (rsntr_iri ''room'')) (iri_text room))
     @ (case cm_at m of None \<Rightarrow> []
        | Some t \<Rightarrow> nt_line ''_:m'' (iri_text (rsntr_iri ''at'')) (ce_lit x (typed_lit t (xsd_iri ''dateTime''))))
     @ lit_line x ''_:m'' ''body'' (Some (cm_body m)) @ lit_line x ''_:m'' ''re'' (cm_re m)
     @ concat (map (\<lambda>t. lit_line x ''_:m'' ''tag'' (Some t)) (cm_tags m))
     @ (case cm_attachment m of None \<Rightarrow> [] | Some b \<Rightarrow> blob_to_turtle x b)
     @ (case (cm_room m, cm_room_name m) of
          (Some room, Some name) \<Rightarrow> lit_line x (iri_text room) ''name'' (Some name) | _ \<Rightarrow> [])"

subsection \<open>Roles\<close>

record chat_plan =
  pl_resource :: string
  pl_sender :: string
  pl_scope :: string
  pl_bind_room :: "room_row option"
  pl_fan_out_room :: "string option"

text \<open>The recorded host of a room. A read that fails counts as no host (\<open>.optional().unwrap_or(None)\<close>).\<close>

definition read_host :: "chat_ext \<Rightarrow> chat_store node_db \<Rightarrow> string \<Rightarrow> string option" where
  "read_host x db room =
     (case ce_host_error x db room of
        Some e \<Rightarrow> None
      | None \<Rightarrow> map_option ro_host (List.find (\<lambda>r. ro_room_id r = room) (cs_rooms (nd_user db))))"

text \<open>Who is trusted about what; the error is the reason of a refusal. \<open>hosted\<close> is the read of a
  room's host.\<close>

definition plan_of ::
  "string \<Rightarrow> string \<Rightarrow> chat_message \<Rightarrow> (string \<Rightarrow> string option) \<Rightarrow> (string, chat_plan) result" where
  "plan_of self_id peer m hosted =
     (let vouched = (case cm_from m of Some f \<Rightarrow> f | None \<Rightarrow> peer)
      in case cm_room m of
           None \<Rightarrow> Inr \<lparr>pl_resource = DIRECT_RESOURCE, pl_sender = peer, pl_scope = peer,
                       pl_bind_room = None, pl_fan_out_room = None\<rparr>
         | Some room \<Rightarrow>
             (case hosted room of
                Some host \<Rightarrow>
                  if host = self_id
                  then Inr \<lparr>pl_resource = room, pl_sender = peer, pl_scope = room,
                            pl_bind_room = None, pl_fan_out_room = Some room\<rparr>
                  else if host \<noteq> peer
                  then Inl (''room <'' @ room @ ''> is bound to host '' @ host @ ''; fan-out from '' @ peer @ '' refused'')
                  else Inr \<lparr>pl_resource = DIRECT_RESOURCE, pl_sender = vouched, pl_scope = room,
                            pl_bind_room = None, pl_fan_out_room = None\<rparr>
              | None \<Rightarrow>
                  Inr \<lparr>pl_resource = DIRECT_RESOURCE, pl_sender = vouched, pl_scope = room,
                       pl_bind_room = Some \<lparr>ro_room_id = room,
                         ro_name = (case cm_room_name m of Some n \<Rightarrow> n | None \<Rightarrow> room), ro_host = peer\<rparr>,
                       pl_fan_out_room = None\<rparr>))"

subsection \<open>The transaction\<close>

definition bind_room :: "room_row option \<Rightarrow> chat_store \<Rightarrow> chat_store" where
  "bind_room r st =
     (case r of
        None \<Rightarrow> st
      | Some room \<Rightarrow>
          if ro_room_id room \<in> set (map ro_room_id (cs_rooms st)) then st
          else st\<lparr>cs_rooms := cs_rooms st @ [room]\<rparr>)"

definition append_message :: "message_row \<Rightarrow> chat_store \<Rightarrow> int \<times> chat_store" where
  "append_message r st =
     (if mr_id r \<in> set (map mr_id (cs_messages st)) then (0, st)
      else (1, st\<lparr>cs_messages := cs_messages st @ [r]\<rparr>))"

text \<open>One outbox row for each member; a row that cannot be written is skipped.\<close>

fun enqueue_all :: "chat_ext \<Rightarrow> string \<Rightarrow> nat \<Rightarrow> string list \<Rightarrow> chat_outbox_row list \<Rightarrow> chat_outbox_row list" where
  "enqueue_all x signal n [] rows = rows"
| "enqueue_all x signal n (m # ms) rows =
     enqueue_all x signal (Suc n) ms
       (if ce_ulid x n \<in> set (map co_request_id rows) then rows
        else rows @ [\<lparr>co_request_id = ce_ulid x n, co_peer = m, co_mod = ''chat'', co_signal = signal\<rparr>])"

text \<open>The members as the query delivers them, in no particular order; a row that is not text does not
  decode and is dropped (\<open>filter_map(Result::ok)\<close>).\<close>

definition fan_out_members :: "chat_ext \<Rightarrow> string \<Rightarrow> string \<Rightarrow> string \<Rightarrow> chat_store \<Rightarrow> string list" where
  "fan_out_members x room sender self_id st =
     List.map_filter id (ce_order x
       (map snd (filter (\<lambda>(r, m). r = room \<and> m \<noteq> Some sender \<and> m \<noteq> Some self_id) (cs_members st))))"

definition fan_out ::
  "chat_ext \<Rightarrow> string \<Rightarrow> message_row \<Rightarrow> chat_message \<Rightarrow> string \<Rightarrow> chat_store \<Rightarrow> chat_store" where
  "fan_out x self_id row m room st =
     (let out = m\<lparr>cm_id := Some (mr_id row), cm_from := Some (mr_sender row), cm_room := Some room,
            cm_at := Some (mr_at row),
            cm_room_name := map_option ro_name (List.find (\<lambda>r. ro_room_id r = room) (cs_rooms st))\<rparr>
      in st\<lparr>cs_outbox := map_option
              (enqueue_all x (message_to_turtle x out) 0 (fan_out_members x room (mr_sender row) self_id st))
              (cs_outbox st)\<rparr>)"

definition message_row_of :: "chat_ext \<Rightarrow> node_env \<Rightarrow> string \<Rightarrow> chat_message \<Rightarrow> chat_plan \<Rightarrow> message_row" where
  "message_row_of x env i m p =
     \<lparr>mr_id = (case cm_id m of Some d \<Rightarrow> d | None \<Rightarrow> i), mr_scope = pl_scope p, mr_sender = pl_sender p,
      mr_at = (case cm_at m of Some t \<Rightarrow> t | None \<Rightarrow> now_rfc3339 env), mr_body = cm_body m,
      mr_blob = cm_attachment m, mr_outgoing = 0, mr_re_id = cm_re m,
      mr_tags = (if cm_tags m = [] then None else ce_tags_json x (cm_tags m))\<rparr>"

definition deliver ::
  "chat_ext \<Rightarrow> node_env \<Rightarrow> string \<Rightarrow> string \<Rightarrow> chat_message \<Rightarrow> chat_plan \<Rightarrow> chat_store \<Rightarrow> int \<times> chat_store" where
  "deliver x env i self_id m p st =
     (let row = message_row_of x env i m p;
          (affected, st1) = append_message row (bind_room (pl_bind_room p) st)
      in (affected, case pl_fan_out_room p of
            Some room \<Rightarrow> if affected = 1 then fan_out x self_id row m room st1 else st1
          | None \<Rightarrow> st1))"

definition apply_message ::
  "chat_ext \<Rightarrow> node_env \<Rightarrow> string \<Rightarrow> string \<Rightarrow> chat_message \<Rightarrow> chat_plan \<Rightarrow> chat_store node_db
    \<Rightarrow> (sqlite_error, int) result \<times> chat_store node_db" where
  "apply_message x env i self_id m p db =
     (case ce_begin x db of
        Some e \<Rightarrow> (Inl e, db)
      | None \<Rightarrow>
          (case recorded_outcome db i of
             Inl e \<Rightarrow> (Inl e, db)
           | Inr (Some json) \<Rightarrow>
               (case ce_commit x db of
                  Some e \<Rightarrow> (Inl e, db)
                | None \<Rightarrow> (Inr (case ce_outcome x json of Some n \<Rightarrow> n | None \<Rightarrow> 0), db))
           | Inr None \<Rightarrow>
               (case deliver x env i self_id m p (nd_user db) of
                  (affected, st) \<Rightarrow>
                    (case insert_applied \<lparr>al_request_id = i, al_at = now_rfc3339 env,
                            al_outcome = ce_outcome_json x affected\<rparr> (db\<lparr>nd_user := st\<rparr>) of
                       Inl e \<Rightarrow> (Inl e, db)
                     | Inr db1 \<Rightarrow>
                         (case ce_commit x db1 of None \<Rightarrow> (Inr affected, db1) | Some e \<Rightarrow> (Inl e, db))))))"

subsection \<open>The handler\<close>

datatype chat_outcome =
    ChatUnknownPeer
  | ChatModUnsupported
  | ChatDenied string
  | ChatBadRequest string
  | ChatLimitExceeded string
  | ChatEngineError string
  | ChatApplied int

definition chat_footprint :: "string \<Rightarrow> footprint" where
  "chat_footprint resource = from_tables Write [(resource, [])]"

text \<open>The decision on a plan and its ledger row: the reason of a refusal, if any.\<close>

definition decide_chat ::
  "chat_ext \<Rightarrow> config_json \<Rightarrow> registry \<Rightarrow> node_env \<Rightarrow> lane \<Rightarrow> string \<Rightarrow> string \<Rightarrow> string \<Rightarrow> string
    \<Rightarrow> chat_store node_db \<Rightarrow> string option \<times> chat_store node_db" where
  "decide_chat x j reg env lane peer i signal resource db =
     (let f = chat_footprint resource
      in case lane of
           Owner \<Rightarrow>
             (None, snd (audit_full_dir env ''local'' peer i signal (ce_footprint_json x f) ''allow'' ''owner'' None 0 db))
         | Remote \<Rightarrow>
             let (decided, db1) = decide_on j reg env
                   \<lparr>rq_peer = peer, rq_action = ''chat'', rq_footprint = f, rq_statement = signal\<rparr> db;
                 (str, reason) = sparql_decision_str (dc_decision decided)
             in (reason, snd (audit_full env peer i signal (ce_footprint_json x f) str (dc_decided_by decided) reason 0 db1)))"

definition handle_chat ::
  "chat_ext \<Rightarrow> ulid \<Rightarrow> config_json \<Rightarrow> registry \<Rightarrow> node_env \<Rightarrow> lane \<Rightarrow> string \<Rightarrow> request
    \<Rightarrow> chat_store node_db \<Rightarrow> chat_outcome \<times> chat_store node_db" where
  "handle_chat x u j reg env lane peer rq db =
     (let i = id_string u rq; signal = rq_signal rq;
          refuse = (\<lambda>reason. audit_direct_dir env (lane_direction lane) peer i signal ''deny'' ''node'' reason db)
      in if lane = Remote \<and> \<not> peer_known db peer
         then (ChatUnknownPeer, audit_direct env peer i signal ''deny'' ''peer-gate'' ''unknown peer'' db)
         else if \<not> list_ex (mod_matches ''chat'') (served_modulations (ce_strings x) db)
         then (ChatModUnsupported, db)
         else case ce_tables x db of
           Some e \<Rightarrow> (ChatEngineError (''chat tables unavailable: '' @ err_text e), db)
         | None \<Rightarrow>
             (case parse_message x signal of
                Inl (CProtocol message) \<Rightarrow> (ChatBadRequest message, refuse message)
              | Inl (CLimit message) \<Rightarrow> (ChatLimitExceeded message, refuse message)
              | Inr m \<Rightarrow>
                  let self_id = (case read_rsntr (nd_auth db) ''endpoint_id'' of Some h \<Rightarrow> h | None \<Rightarrow> [])
                  in case plan_of self_id peer m (read_host x db) of
                       Inl reason \<Rightarrow> (ChatDenied reason, refuse reason)
                     | Inr p \<Rightarrow>
                         (case decide_chat x j reg env lane peer i signal (pl_resource p) db of
                            (Some reason, db1) \<Rightarrow> (ChatDenied reason, db1)
                          | (None, db1) \<Rightarrow>
                              (case apply_message x env i self_id m p db1 of
                                 (Inr affected, db2) \<Rightarrow> (ChatApplied affected, db2)
                               | (Inl e, db2) \<Rightarrow> (ChatEngineError (err_text e), db2)))))"

subsection \<open>The lanes\<close>

definition chat_frames :: "string \<Rightarrow> chat_outcome \<Rightarrow> envelope_object list" where
  "chat_frames i out =
     (let err = (\<lambda>code message. [Error \<lparr>er_id = Some i, er_code = code_as_str code, er_reason = Some message\<rparr>])
      in case out of
           ChatUnknownPeer \<Rightarrow> [Denied \<lparr>de_id = Some i, de_reason = Some UNKNOWN_PEER\<rparr>]
         | ChatModUnsupported \<Rightarrow>
             err ModUnsupported (''modulation '' @ [CHR 0x22] @ ''chat'' @ [CHR 0x22] @ '' is not served by this node'')
         | ChatDenied reason \<Rightarrow> [Denied \<lparr>de_id = Some i, de_reason = Some reason\<rparr>]
         | ChatBadRequest message \<Rightarrow> err ProtocolErrorCode message
         | ChatLimitExceeded message \<Rightarrow> err LimitExceeded message
         | ChatEngineError message \<Rightarrow> err EngineError message
         | ChatApplied affected \<Rightarrow> [sparql_header i [], sparql_done i 0 (Some affected) False])"

definition serve_chat ::
  "chat_ext \<Rightarrow> ulid \<Rightarrow> config_json \<Rightarrow> registry \<Rightarrow> node_env \<Rightarrow> string \<Rightarrow> request \<Rightarrow> chat_store node_db \<Rightarrow> stream
    \<Rightarrow> chat_store node_db \<times> stream" where
  "serve_chat x u j reg env peer rq db c =
     (let i = id_string u rq
      in if rq_params rq \<noteq> []
         then (db, send_error c (Some i) ProtocolErrorCode ''a chat Execute carries no parameters on this surface'')
         else case handle_chat x u j reg env Remote peer rq db of
                (out, db') \<Rightarrow> (db', send_all c (chat_frames i out)))"

text \<open>On the owner channel a text parameter names a file to import first; \<open>importer\<close> is the registered
  callback, \<open>between\<close> what other jobs do meanwhile.\<close>

definition serve_chat_owner ::
  "chat_ext \<Rightarrow> (string \<Rightarrow> (string, string \<times> nat) result) option \<Rightarrow> ulid \<Rightarrow> config_json \<Rightarrow> registry \<Rightarrow> node_env
    \<Rightarrow> (chat_store node_db \<Rightarrow> chat_store node_db) \<Rightarrow> string \<Rightarrow> request \<Rightarrow> chat_store node_db \<Rightarrow> stream
    \<Rightarrow> chat_store node_db \<times> stream" where
  "serve_chat_owner x importer u j reg env between peer rq db c =
     (let i = id_string u rq;
          run = (\<lambda>d. case handle_chat x u j reg env Owner peer rq d of
             (out, db') \<Rightarrow> (db', send_all c (chat_frames i out)))
      in case rq_params rq of
           [] \<Rightarrow> run db
         | [Text path] \<Rightarrow>
             (case importer of
                None \<Rightarrow> (db, send_error c (Some i) EngineError
                  (''no blob store is wired on this node; import the attachment '' @ ''in-process instead''))
              | Some import_blob \<Rightarrow>
                  (case import_blob path of
                     Inl e \<Rightarrow> (db, send_error c (Some i) EngineError (''attachment import failed: '' @ e))
                   | Inr b \<Rightarrow> run (between db)))
         | _ \<Rightarrow> (db, send_error c (Some i) ProtocolErrorCode
                  (''a chat Execute on the owner channel carries at most one ''
                   @ ''parameter: the attachment source path as a text literal'')))"

end
