(* ===== verification/Chat_Properties.thy ===== *)
theory Chat_Properties
  imports Chat Pipeline_Properties "HOL-Library.Multiset"
begin

text \<open>The properties of chat, with the facts they rest on.\<close>

subsection \<open>What a request can do\<close>

definition self_of :: "'u node_db \<Rightarrow> string" where
  "self_of db = (case read_rsntr (nd_auth db) ''endpoint_id'' of Some h \<Rightarrow> h | None \<Rightarrow> [])"

definition chat_request :: "string \<Rightarrow> string \<Rightarrow> string \<Rightarrow> auth_request" where
  "chat_request peer resource signal =
     \<lparr>rq_peer = peer, rq_action = ''chat'', rq_footprint = chat_footprint resource, rq_statement = signal\<rparr>"

text \<open>The chain lets the message through.\<close>

definition chat_allowed :: "config_json \<Rightarrow> registry \<Rightarrow> node_env \<Rightarrow> string \<Rightarrow> string \<Rightarrow> string \<Rightarrow> 'u node_db \<Rightarrow> bool" where
  "chat_allowed j reg env peer resource signal db \<longleftrightarrow>
     lets_through (dc_decision (fst (decide_on j reg env (chat_request peer resource signal) db)))"

lemma sparql_decision_None: "snd (sparql_decision_str d) = None \<longleftrightarrow> lets_through d"
  by (cases d) simp_all

lemma decide_chat_cases:
  assumes "decide_chat x j reg env lane peer i signal resource db = (reason, db1)"
  shows "nd_user db1 = nd_user db" "nd_applied db1 = nd_applied db"
    "reason = None \<Longrightarrow> lane = Remote \<Longrightarrow> chat_allowed j reg env peer resource signal db"
  using assms
  by (auto simp: decide_chat_def Let_def chat_allowed_def chat_request_def sparql_decision_None [symmetric] audit_full_def
      dest!: decide_on_keeps_eq split: lane.splits prod.splits)

lemma apply_message_cases:
  assumes "apply_message x env i self_id m p db = (res, db')"
  obtains "db' = db" "\<And>n. res = Inr n \<Longrightarrow> \<exists>json. recorded_outcome db i = Inr (Some json)"
  | rows where "nd_applied db = Some rows" "i \<notin> set (map al_request_id rows)"
      "res = Inr (fst (deliver x env i self_id m p (nd_user db)))"
      "nd_user db' = snd (deliver x env i self_id m p (nd_user db))"
      "nd_applied db' = Some (rows @ [\<lparr>al_request_id = i, al_at = now_rfc3339 env,
         al_outcome = ce_outcome_json x (fst (deliver x env i self_id m p (nd_user db)))\<rparr>])"
proof (cases "ce_begin x db = None \<and> recorded_outcome db i = Inr None")
  case False
  with assms that(1) show ?thesis
    by (auto simp: apply_message_def split: option.splits sum.splits)
next
  case True
  obtain rows where r: "nd_applied db = Some rows" using True by (cases "nd_applied db") (auto simp: recorded_outcome_def)
  obtain n st where d: "deliver x env i self_id m p (nd_user db) = (n, st)" by fastforce
  show ?thesis
  proof (cases "i \<in> set (map al_request_id rows)")
    case in_rows: True
    with True r d assms that(1) show ?thesis by (auto simp: apply_message_def insert_applied_def)
  next
    case False
    define db1 where "db1 = db\<lparr>nd_user := st, nd_applied := Some (rows @ [\<lparr>al_request_id = i, al_at = now_rfc3339 env,
       al_outcome = ce_outcome_json x n\<rparr>])\<rparr>"
    have ins: "insert_applied \<lparr>al_request_id = i, al_at = now_rfc3339 env, al_outcome = ce_outcome_json x n\<rparr>
        (db\<lparr>nd_user := st\<rparr>) = Inr db1"
      using r False by (simp add: insert_applied_def db1_def)
    show ?thesis
    proof (cases "ce_commit x db1")
      case None
      with True d ins assms have "res = Inr n" "db' = db1" by (simp_all add: apply_message_def)
      then show ?thesis using that(2) [OF r False] d by (simp add: db1_def)
    next
      case (Some e)
      with True d ins assms that(1) show ?thesis by (auto simp: apply_message_def)
    qed
  qed
qed

text \<open>A request leaves the chat store alone, or delivers one message.\<close>

lemma handle_chat_cases:
  assumes "handle_chat x u j reg env lane peer rq db = (out, db')"
  obtains (untouched) "nd_user db' = nd_user db"
      "\<And>n. out = ChatApplied n \<Longrightarrow> \<exists>json. recorded_outcome db (id_string u rq) = Inr (Some json)"
  | (delivered) m p rows where "parse_message x (rq_signal rq) = Inr m"
      "plan_of (self_of db) peer m (read_host x db) = Inr p"
      "lane = Remote \<Longrightarrow> peer_known db peer \<and> chat_allowed j reg env peer (pl_resource p) (rq_signal rq) db"
      "nd_applied db = Some rows" "id_string u rq \<notin> set (map al_request_id rows)"
      "out = ChatApplied (fst (deliver x env (id_string u rq) (self_of db) m p (nd_user db)))"
      "nd_user db' = snd (deliver x env (id_string u rq) (self_of db) m p (nd_user db))"
      "nd_applied db' = Some (rows @ [\<lparr>al_request_id = id_string u rq, al_at = now_rfc3339 env,
         al_outcome = ce_outcome_json x (fst (deliver x env (id_string u rq) (self_of db) m p (nd_user db)))\<rparr>])"
proof (cases "\<exists>m p db1. (lane = Remote \<longrightarrow> peer_known db peer) \<and> parse_message x (rq_signal rq) = Inr m
    \<and> plan_of (self_of db) peer m (read_host x db) = Inr p
    \<and> list_ex (mod_matches ''chat'') (served_modulations (ce_strings x) db) \<and> ce_tables x db = None
    \<and> decide_chat x j reg env lane peer (id_string u rq) (rq_signal rq) (pl_resource p) db = (None, db1)")
  case True
  then obtain m p db1 where a: "lane = Remote \<longrightarrow> peer_known db peer" "parse_message x (rq_signal rq) = Inr m"
    "plan_of (self_of db) peer m (read_host x db) = Inr p"
    "list_ex (mod_matches ''chat'') (served_modulations (ce_strings x) db)" "ce_tables x db = None"
    "decide_chat x j reg env lane peer (id_string u rq) (rq_signal rq) (pl_resource p) db = (None, db1)" by blast
  note d = decide_chat_cases [OF a(6)]
  obtain res db2 where ap: "apply_message x env (id_string u rq) (self_of db) m p db1 = (res, db2)" by fastforce
  have h: "(out, db') = (case res of Inr n \<Rightarrow> (ChatApplied n, db2) | Inl e \<Rightarrow> (ChatEngineError (err_text e), db2))"
    using assms a ap by (auto simp: handle_chat_def Let_def self_of_def split: sum.splits)
  show ?thesis
  proof (rule apply_message_cases [OF ap])
    assume "db2 = db1" "\<And>n. res = Inr n \<Longrightarrow> \<exists>json. recorded_outcome db1 (id_string u rq) = Inr (Some json)"
    with h d(1,2) untouched show ?thesis
      by (cases res) (auto simp: recorded_outcome_def)
  next
    fix rows
    assume "nd_applied db1 = Some rows" "id_string u rq \<notin> set (map al_request_id rows)"
      "res = Inr (fst (deliver x env (id_string u rq) (self_of db) m p (nd_user db1)))"
      "nd_user db2 = snd (deliver x env (id_string u rq) (self_of db) m p (nd_user db1))"
      "nd_applied db2 = Some (rows @ [\<lparr>al_request_id = id_string u rq, al_at = now_rfc3339 env,
         al_outcome = ce_outcome_json x (fst (deliver x env (id_string u rq) (self_of db) m p (nd_user db1)))\<rparr>])"
    with h d a(1-3) show ?thesis by (intro delivered [of m p rows]) simp_all
  qed
next
  case False
  have "nd_user db' = nd_user db \<and> (\<forall>n. out \<noteq> ChatApplied n)"
  proof (cases "parse_message x (rq_signal rq)")
    case (Inl e)
    then show ?thesis using assms
      by (cases e) (auto simp: handle_chat_def Let_def audit_direct_def audit_direct_dir_def split: if_splits option.splits)
  next
    case (Inr m)
    show ?thesis
    proof (cases "plan_of (self_of db) peer m (read_host x db)")
      case (Inl reason)
      with Inr assms show ?thesis
        by (auto simp: handle_chat_def Let_def self_of_def audit_direct_def audit_direct_dir_def split: if_splits option.splits)
    next
      case p: (Inr p)
      obtain reason db1 where dc: "decide_chat x j reg env lane peer (id_string u rq) (rq_signal rq) (pl_resource p) db = (reason, db1)"
        by fastforce
      show ?thesis
      proof (cases reason)
        case None
        have no: "\<not> ((lane = Remote \<longrightarrow> peer_known db peer)
            \<and> list_ex (mod_matches ''chat'') (served_modulations (ce_strings x) db) \<and> ce_tables x db = None)"
        proof
          assume "(lane = Remote \<longrightarrow> peer_known db peer)
            \<and> list_ex (mod_matches ''chat'') (served_modulations (ce_strings x) db) \<and> ce_tables x db = None"
          with Inr p dc None have "(lane = Remote \<longrightarrow> peer_known db peer) \<and> parse_message x (rq_signal rq) = Inr m
            \<and> plan_of (self_of db) peer m (read_host x db) = Inr p
            \<and> list_ex (mod_matches ''chat'') (served_modulations (ce_strings x) db) \<and> ce_tables x db = None
            \<and> decide_chat x j reg env lane peer (id_string u rq) (rq_signal rq) (pl_resource p) db = (None, db1)"
            by simp
          with False show False by (metis (no_types))
        qed
        have "(lane = Remote \<and> \<not> peer_known db peer)
            \<or> \<not> list_ex (mod_matches ''chat'') (served_modulations (ce_strings x) db) \<or> ce_tables x db \<noteq> None" using no by simp
        then show ?thesis using assms
          by (auto simp: handle_chat_def Let_def audit_direct_def audit_direct_dir_def split: if_splits)
      next
        case (Some r)
        with Inr p dc assms decide_chat_cases(1) [OF dc] show ?thesis
          by (auto simp: handle_chat_def Let_def self_of_def audit_direct_def audit_direct_dir_def split: if_splits option.splits)
      qed
    qed
  qed
  then show ?thesis by (intro untouched) auto
qed

lemma serve_chat_cases:
  assumes "serve_chat x u j reg env peer rq db c = (db', c')"
  obtains (untouched) "nd_user db' = nd_user db"
  | (delivered) m p rows where "parse_message x (rq_signal rq) = Inr m"
      "plan_of (self_of db) peer m (read_host x db) = Inr p"
      "peer_known db peer" "chat_allowed j reg env peer (pl_resource p) (rq_signal rq) db"
      "nd_applied db = Some rows" "id_string u rq \<notin> set (map al_request_id rows)"
      "nd_user db' = snd (deliver x env (id_string u rq) (self_of db) m p (nd_user db))"
      "nd_applied db' = Some (rows @ [\<lparr>al_request_id = id_string u rq, al_at = now_rfc3339 env,
         al_outcome = ce_outcome_json x (fst (deliver x env (id_string u rq) (self_of db) m p (nd_user db)))\<rparr>])"
proof (cases "rq_params rq = []")
  case False
  with assms untouched show ?thesis by (simp add: serve_chat_def Let_def)
next
  case True
  obtain out db1 where h: "handle_chat x u j reg env Remote peer rq db = (out, db1)" by fastforce
  with assms True have e: "db' = db1" by (simp add: serve_chat_def Let_def)
  from h show ?thesis
  proof (cases rule: handle_chat_cases)
    case untouched
    with e that(1) show ?thesis by simp
  next
    case (delivered m p rows)
    with e show ?thesis by (intro that(2) [of m p rows]) simp_all
  qed
qed

subsection \<open>What a delivery does to the store\<close>

definition room_host :: "chat_store \<Rightarrow> string \<Rightarrow> string option" where
  "room_host st room = map_option ro_host (List.find (\<lambda>r. ro_room_id r = room) (cs_rooms st))"

lemma bind_room_rooms:
  "cs_rooms (bind_room b st) = cs_rooms st @ (case b of None \<Rightarrow> []
     | Some r \<Rightarrow> if ro_room_id r \<in> set (map ro_room_id (cs_rooms st)) then [] else [r])"
  by (simp add: bind_room_def split: option.splits)

lemma room_host_bind_room:
  "room_host (bind_room b st) room =
     (case room_host st room of
        Some h \<Rightarrow> Some h
      | None \<Rightarrow> (case b of Some r \<Rightarrow> if ro_room_id r = room then Some (ro_host r) else None | None \<Rightarrow> None))"
proof (cases "List.find (\<lambda>r. ro_room_id r = room) (cs_rooms st)")
  case (Some r)
  then show ?thesis by (simp add: room_host_def bind_room_rooms find_append)
next
  case None
  then have "room \<notin> set (map ro_room_id (cs_rooms st))" by (auto simp: find_None_iff)
  with None show ?thesis by (auto simp: room_host_def bind_room_rooms find_append split: option.splits)
qed

lemma bind_room_keeps [simp]:
  "cs_messages (bind_room b st) = cs_messages st" "cs_members (bind_room b st) = cs_members st"
  "cs_outbox (bind_room b st) = cs_outbox st"
  by (auto simp: bind_room_def split: option.splits)

lemma append_message_keeps [simp]:
  "cs_rooms (snd (append_message r st)) = cs_rooms st" "cs_members (snd (append_message r st)) = cs_members st"
  "cs_outbox (snd (append_message r st)) = cs_outbox st"
  by (simp_all add: append_message_def)

lemma fan_out_keeps [simp]:
  "cs_rooms (fan_out x self_id row m room st) = cs_rooms st"
  "cs_members (fan_out x self_id row m room st) = cs_members st"
  "cs_messages (fan_out x self_id row m room st) = cs_messages st"
  by (simp_all add: fan_out_def Let_def)

lemma deliver_rooms: "cs_rooms (snd (deliver x env i self_id m p st)) = cs_rooms (bind_room (pl_bind_room p) st)"
  by (simp add: deliver_def Let_def append_message_def split: option.splits)

lemma deliver_members: "cs_members (snd (deliver x env i self_id m p st)) = cs_members st"
  by (simp add: deliver_def Let_def append_message_def split: option.splits)

lemma deliver_messages:
  "cs_messages (snd (deliver x env i self_id m p st)) =
     (if mr_id (message_row_of x env i m p) \<in> set (map mr_id (cs_messages st)) then cs_messages st
      else cs_messages st @ [message_row_of x env i m p])"
  by (simp add: deliver_def Let_def append_message_def split: option.splits)

lemma deliver_outbox:
  "cs_outbox (snd (deliver x env i self_id m p st)) =
     (let row = message_row_of x env i m p
      in if pl_fan_out_room p = None \<or> mr_id row \<in> set (map mr_id (cs_messages st)) then cs_outbox st
         else cs_outbox (fan_out x self_id row m (the (pl_fan_out_room p))
                ((bind_room (pl_bind_room p) st)\<lparr>cs_messages := cs_messages st @ [row]\<rparr>)))"
  by (auto simp: deliver_def Let_def append_message_def split: option.splits)

lemma plan_of_cases:
  assumes "plan_of self_id peer m hosts = Inr p"
  obtains (direct) "cm_room m = None" "pl_resource p = DIRECT_RESOURCE" "pl_sender p = peer" "pl_scope p = peer"
      "pl_bind_room p = None" "pl_fan_out_room p = None"
  | (hosting) room where "cm_room m = Some room" "hosts room = Some self_id" "pl_resource p = room"
      "pl_sender p = peer" "pl_scope p = room" "pl_bind_room p = None" "pl_fan_out_room p = Some room"
  | (hosted) room where "cm_room m = Some room" "hosts room = Some peer" "peer \<noteq> self_id"
      "pl_resource p = DIRECT_RESOURCE" "pl_scope p = room" "pl_bind_room p = None" "pl_fan_out_room p = None"
  | (binding) room b where "cm_room m = Some room" "hosts room = None" "pl_resource p = DIRECT_RESOURCE"
      "pl_scope p = room" "pl_bind_room p = Some b" "ro_room_id b = room" "ro_host b = peer" "pl_fan_out_room p = None"
proof (cases "cm_room m")
  case None
  with assms direct show ?thesis by (auto simp: plan_of_def Let_def)
next
  case (Some room)
  show ?thesis
  proof (cases "hosts room")
    case None
    with Some assms have "p = \<lparr>pl_resource = DIRECT_RESOURCE, pl_sender = (case cm_from m of Some f \<Rightarrow> f | None \<Rightarrow> peer),
        pl_scope = room, pl_bind_room = Some \<lparr>ro_room_id = room, ro_name = (case cm_room_name m of Some n \<Rightarrow> n | None \<Rightarrow> room),
        ro_host = peer\<rparr>, pl_fan_out_room = None\<rparr>"
      by (simp add: plan_of_def Let_def)
    with Some None show ?thesis by (intro binding) auto
  next
    case h: (Some host)
    with Some assms hosting hosted show ?thesis
      by (auto simp: plan_of_def Let_def split: if_splits)
  qed
qed

lemma read_host_Some: "read_host x db room = Some h \<Longrightarrow> room_host (nd_user db) room = Some h"
  by (auto simp: read_host_def room_host_def split: option.splits)

lemma read_host_None: "read_host x db room = None \<Longrightarrow> room_host (nd_user db) room = None \<or> ce_host_error x db room \<noteq> None"
  by (auto simp: read_host_def room_host_def split: option.splits)

text \<open>When the read of a room's host fails, the message goes in under the author it claims, whoever
  hosts the room.\<close>

lemma unread_host_admits_claimed_author:
  assumes "ce_host_error x db room = Some e" "cm_room m = Some room" "cm_from m = Some claimed"
  shows "\<exists>p. plan_of self_id peer m (read_host x db) = Inr p \<and> pl_sender p = claimed \<and> pl_scope p = room
    \<and> pl_resource p = DIRECT_RESOURCE"
  using assms by (simp add: plan_of_def read_host_def Let_def)

subsection \<open>Properties\<close>

text \<open>C9. A message enters the store of a remote chat request only when the
  sender's connection belongs to a known peer and the chain allowed it, and its author is proven or
  vouched for by the one node entitled to: a direct message is filed under the peer and names the peer;
  a message in a room this node hosts names the peer, and the chain allowed it on that very room; any
  other message lies in a room bound to the very peer that delivered it, so no third node can speak in
  a room it does not host. The one way around it is a read of the room's host that fails: the code
  takes that for an unknown room, and the author is then what the message claims.\<close>
theorem chat_author_is_proven:
  assumes "serve_chat x u j reg env peer rq db c = (db', c')"
    and "r \<in> set (cs_messages (nd_user db'))" "r \<notin> set (cs_messages (nd_user db))"
  shows "peer_known db peer
    \<and> (mr_scope r = peer \<and> mr_sender r = peer \<and> chat_allowed j reg env peer DIRECT_RESOURCE (rq_signal rq) db
       \<or> room_host (nd_user db') (mr_scope r) = Some (self_of db) \<and> mr_sender r = peer
          \<and> chat_allowed j reg env peer (mr_scope r) (rq_signal rq) db
       \<or> room_host (nd_user db') (mr_scope r) = Some peer
          \<and> chat_allowed j reg env peer DIRECT_RESOURCE (rq_signal rq) db
       \<or> ce_host_error x db (mr_scope r) \<noteq> None
          \<and> chat_allowed j reg env peer DIRECT_RESOURCE (rq_signal rq) db)"
  using assms(1)
proof (cases rule: serve_chat_cases)
  case untouched
  with assms show ?thesis by simp
next
  case (delivered m p rows)
  let ?st = "nd_user db"
  have row: "r = message_row_of x env (id_string u rq) m p"
    using assms(2,3) delivered(7) by (auto simp: deliver_messages split: if_splits)
  have rooms: "room_host (nd_user db') room = room_host (bind_room (pl_bind_room p) ?st) room" for room
    using delivered(7) by (simp add: room_host_def deliver_rooms)
  from delivered(2) show ?thesis
  proof (cases rule: plan_of_cases)
    case (binding room b)
    with delivered(3,4) row rooms read_host_None [OF binding(2)] show ?thesis
      by (auto simp: message_row_of_def room_host_bind_room)
  qed (use delivered(3,4) row rooms read_host_Some [of x db] in \<open>auto simp: message_row_of_def room_host_bind_room\<close>)
qed

text \<open>C26. A remote chat request adds at most one message and one room binding,
  at the end; it never edits a stored message, never rebinds a room to another host and never
  touches a membership, and message identifiers and room identifiers stay unique.\<close>
theorem chat_store_only_grows:
  assumes "serve_chat x u j reg env peer rq db c = (db', c')"
    and "distinct (map mr_id (cs_messages (nd_user db)))" "distinct (map ro_room_id (cs_rooms (nd_user db)))"
  shows "(\<exists>ms rs. cs_messages (nd_user db') = cs_messages (nd_user db) @ ms \<and> length ms \<le> 1
      \<and> cs_rooms (nd_user db') = cs_rooms (nd_user db) @ rs \<and> length rs \<le> 1)
    \<and> cs_members (nd_user db') = cs_members (nd_user db)
    \<and> distinct (map mr_id (cs_messages (nd_user db'))) \<and> distinct (map ro_room_id (cs_rooms (nd_user db')))
    \<and> (\<forall>room h. room_host (nd_user db) room = Some h \<longrightarrow> room_host (nd_user db') room = Some h)"
  using assms(1)
proof (cases rule: serve_chat_cases)
  case untouched
  with assms show ?thesis by simp
next
  case (delivered m p rows)
  let ?st = "nd_user db"
  have rooms: "cs_rooms (nd_user db') = cs_rooms (bind_room (pl_bind_room p) ?st)"
    using delivered(7) by (simp add: deliver_rooms)
  obtain rs where rs: "cs_rooms (nd_user db') = cs_rooms ?st @ rs" "length rs \<le> 1"
    unfolding rooms bind_room_rooms by (simp split: option.splits if_splits)
  have "cs_messages (nd_user db') = cs_messages ?st \<or> (\<exists>r. cs_messages (nd_user db') = cs_messages ?st @ [r])"
    using delivered(7) by (simp add: deliver_messages)
  then obtain ms where ms: "cs_messages (nd_user db') = cs_messages ?st @ ms" "length ms \<le> 1" by fastforce
  have "distinct (map mr_id (cs_messages (nd_user db')))"
    using assms(2) delivered(7) by (auto simp: deliver_messages)
  moreover have "distinct (map ro_room_id (cs_rooms (nd_user db')))"
    unfolding rooms using assms(3) by (cases "pl_bind_room p") (auto simp: bind_room_rooms image_iff)
  moreover have "\<forall>room h. room_host ?st room = Some h \<longrightarrow> room_host (nd_user db') room = Some h"
    using rs(1) by (auto simp: room_host_def find_append)
  ultimately show ?thesis using rs ms delivered(7) by (auto simp: deliver_members)
qed

text \<open>C25. A message that was delivered is delivered once: in any later
  state that still holds the rows of \<open>_applied\<close>, a request with the same identifier, whoever sends it
  and whatever it says, leaves the messages, the rooms and the outbox as they are.\<close>
theorem chat_retry_changes_nothing:
  assumes "serve_chat x u j reg env peer rq db c = (db1, c1)" "nd_user db1 \<noteq> nd_user db"
    and "nd_applied db1 = Some rows" "nd_applied db2 = Some later" "set rows \<subseteq> set later"
    and "id_string u2 rq2 = id_string u rq" "serve_chat x u2 j2 reg2 env2 peer2 rq2 db2 c2 = (db3, c3)"
  shows "nd_user db3 = nd_user db2"
  using assms(1)
proof (cases rule: serve_chat_cases)
  case untouched
  with assms(2) show ?thesis by simp
next
  case (delivered m p old)
  with assms(3,5,6) have stored: "id_string u2 rq2 \<in> set (map al_request_id later)" by force
  from assms(7) show ?thesis
    by (cases rule: serve_chat_cases) (use stored assms(4) in auto)
qed

lemma enqueue_all_fresh:
  assumes "inj (ce_ulid x)" "\<forall>k. ce_ulid x (n + k) \<notin> set (map co_request_id rows)"
  shows "\<exists>new. enqueue_all x signal n ms rows = rows @ new \<and> map co_peer new = ms
    \<and> distinct (map co_request_id new) \<and> (\<forall>q \<in> set new. co_mod q = ''chat'' \<and> co_signal q = signal
       \<and> (\<exists>k. co_request_id q = ce_ulid x (n + k)))"
  using assms(2)
proof (induction ms arbitrary: n rows)
  case Nil
  then show ?case by simp
next
  case (Cons m ms)
  let ?q = "\<lparr>co_request_id = ce_ulid x n, co_peer = m, co_mod = ''chat'', co_signal = signal\<rparr>"
  have "ce_ulid x n \<notin> set (map co_request_id rows)" using Cons.prems [rule_format, of 0] by simp
  then have step: "enqueue_all x signal n (m # ms) rows = enqueue_all x signal (Suc n) ms (rows @ [?q])" by simp
  have "ce_ulid x (Suc n + k) \<noteq> ce_ulid x n" for k using assms(1) by (simp add: inj_eq)
  moreover have "ce_ulid x (Suc n + k) \<notin> set (map co_request_id rows)" for k
    using Cons.prems [rule_format, of "Suc k"] by simp
  ultimately have "\<forall>k. ce_ulid x (Suc n + k) \<notin> set (map co_request_id (rows @ [?q]))" by auto
  from Cons.IH [OF this] obtain new where new: "enqueue_all x signal (Suc n) ms (rows @ [?q]) = (rows @ [?q]) @ new"
    "map co_peer new = ms" "distinct (map co_request_id new)"
    "\<forall>q \<in> set new. co_mod q = ''chat'' \<and> co_signal q = signal \<and> (\<exists>k. co_request_id q = ce_ulid x (Suc n + k))" by blast
  have other: "\<exists>k. co_request_id q = ce_ulid x (n + k)" "co_request_id q \<noteq> ce_ulid x n" if "q \<in> set new" for q
  proof -
    from new(4) that obtain k where k: "co_request_id q = ce_ulid x (Suc n + k)" by blast
    then show "\<exists>k. co_request_id q = ce_ulid x (n + k)" by (intro exI [of _ "Suc k"]) simp
    show "co_request_id q \<noteq> ce_ulid x n" using k assms(1) by (simp add: inj_eq)
  qed
  show ?case
  proof (intro exI conjI)
    show "enqueue_all x signal n (m # ms) rows = rows @ (?q # new)" using step new(1) by simp
    show "map co_peer (?q # new) = m # ms" using new(2) by simp
    show "distinct (map co_request_id (?q # new))" using new(3) other(2) by fastforce
    show "\<forall>q \<in> set (?q # new). co_mod q = ''chat'' \<and> co_signal q = signal \<and> (\<exists>k. co_request_id q = ce_ulid x (n + k))"
      using new(4) other(1) by (auto intro: exI [of _ 0])
  qed
qed

lemma fan_out_members_mset:
  assumes "\<forall>rows. mset (ce_order x rows) = mset rows"
  shows "mset (fan_out_members x room sender self_id st) =
    mset (List.map_filter (\<lambda>(r, who). if r = room \<and> who \<noteq> Some sender \<and> who \<noteq> Some self_id then who else None) (cs_members st))"
proof -
  have m: "mset (List.map_filter id xs) = image_mset the (filter_mset (\<lambda>y. y \<noteq> None) (mset xs))" for xs :: "string option list"
    by (induction xs) (auto simp: List.map_filter_simps)
  have "mset (fan_out_members x room sender self_id st) =
      mset (List.map_filter id (map snd (filter (\<lambda>(r, m). r = room \<and> m \<noteq> Some sender \<and> m \<noteq> Some self_id) (cs_members st))))"
    unfolding fan_out_members_def m assms [rule_format] ..
  also have "List.map_filter id (map snd (filter (\<lambda>(r, m). r = room \<and> m \<noteq> Some sender \<and> m \<noteq> Some self_id) ms))
      = List.map_filter (\<lambda>(r, who). if r = room \<and> who \<noteq> Some sender \<and> who \<noteq> Some self_id then who else None) ms" for ms
    by (induction ms) (auto simp: List.map_filter_simps split: option.splits if_splits)
  finally show ?thesis .
qed

text \<open>C20. When a remote chat request adds a message, the outbox gains exactly one
  entry for each member (that is text) of the room this node hosts, except the author and this
  node, in whatever order the query delivers them, each carrying the message with the proven author
  and the room; a message of any other kind, and a request that adds none, leaves the outbox as it
  is. Assumed: the delivered rows are those of the table, and the fresh ULIDs of the entries
  collide neither with each other nor with the queue (an entry whose identifier is taken is
  skipped). A read of the room's host that fails counts as a room this node does not host, and
  then the message is stored without fan-out.\<close>
theorem chat_fans_out_once:
  assumes "serve_chat x u j reg env peer rq db c = (db', c')" "parse_message x (rq_signal rq) = Inr m"
    and "cs_outbox (nd_user db) = Some queue" "\<forall>rows. mset (ce_order x rows) = mset rows"
    and "inj (ce_ulid x)" "\<forall>k. ce_ulid x k \<notin> set (map co_request_id queue)"
  shows "\<exists>new. cs_outbox (nd_user db') = Some (queue @ new)
    \<and> (if cs_messages (nd_user db') = cs_messages (nd_user db) then new = []
       else case cm_room m of
         None \<Rightarrow> new = []
       | Some room \<Rightarrow>
           image_mset co_peer (mset new) = (if read_host x db room = Some (self_of db)
             then mset (List.map_filter (\<lambda>(r, who). if r = room \<and> who \<noteq> Some peer \<and> who \<noteq> Some (self_of db) then who else None)
                    (cs_members (nd_user db)))
             else {#})
           \<and> (\<forall>q \<in> set new. co_mod q = ''chat'' \<and> (\<exists>i at name. co_signal q
               = message_to_turtle x (m\<lparr>cm_id := Some i, cm_from := Some peer, cm_room := Some room,
                   cm_at := Some at, cm_room_name := name\<rparr>))))"
  using assms(1)
proof (cases rule: serve_chat_cases)
  case untouched
  with assms show ?thesis by simp
next
  case (delivered m' p rows)
  let ?st = "nd_user db" and ?row = "message_row_of x env (id_string u rq) m p"
  have m': "m' = m" using delivered(1) assms(2) by simp
  have out: "cs_outbox (nd_user db') = (if pl_fan_out_room p = None \<or> mr_id ?row \<in> set (map mr_id (cs_messages ?st))
      then cs_outbox ?st
      else cs_outbox (fan_out x (self_of db) ?row m (the (pl_fan_out_room p))
                ((bind_room (pl_bind_room p) ?st)\<lparr>cs_messages := cs_messages ?st @ [?row]\<rparr>)))"
    and msgs: "cs_messages (nd_user db') = (if mr_id ?row \<in> set (map mr_id (cs_messages ?st)) then cs_messages ?st
      else cs_messages ?st @ [?row])"
    using delivered(7) m' by (simp_all add: deliver_outbox deliver_messages Let_def)
  show ?thesis
  proof (cases "mr_id ?row \<in> set (map mr_id (cs_messages ?st))")
    case True
    with out msgs assms(3) show ?thesis by simp
  next
    case False
    with msgs have added: "cs_messages (nd_user db') \<noteq> cs_messages ?st" by simp
    from delivered(2) [unfolded m'] show ?thesis
    proof (cases rule: plan_of_cases)
      case direct
      with out False assms(3) added show ?thesis by simp
    next
      case (hosted room)
      with out False assms(3) added show ?thesis by simp
    next
      case (binding room b)
      with out False assms(3) added show ?thesis by simp
    next
      case (hosting room)
      define signal where "signal = message_to_turtle x (m\<lparr>cm_id := Some (mr_id ?row), cm_from := Some (mr_sender ?row),
        cm_room := Some room, cm_at := Some (mr_at ?row),
        cm_room_name := map_option ro_name (List.find (\<lambda>r. ro_room_id r = room) (cs_rooms ?st))\<rparr>)"
      define ms where "ms = fan_out_members x room peer (self_of db) ?st"
      have sender: "mr_sender ?row = peer" using hosting by (simp add: message_row_of_def)
      have "cs_outbox (nd_user db') = Some (enqueue_all x signal 0 ms queue)"
        using out False hosting assms(3) sender
        by (simp add: fan_out_def Let_def signal_def ms_def fan_out_members_def bind_room_def)
      moreover obtain new where "enqueue_all x signal 0 ms queue = queue @ new" "map co_peer new = ms"
        "distinct (map co_request_id new)" "\<forall>q \<in> set new. co_mod q = ''chat'' \<and> co_signal q = signal"
        using enqueue_all_fresh [OF assms(5), of 0 queue signal ms] assms(6) by auto
      moreover from this(2) have "image_mset co_peer (mset new) = mset ms" by (metis mset_map)
      ultimately show ?thesis using added hosting sender
        by (intro exI [of _ new]) (auto simp: ms_def fan_out_members_mset [OF assms(4)] signal_def)
    qed
  qed
qed

text \<open>A chat request that carries parameters is refused, whatever they are.\<close>

lemma chat_params_refused:
  assumes "rq_params rq \<noteq> []"
  shows "serve_chat x u j reg env peer rq db c = (db, send_error c (Some (id_string u rq)) ProtocolErrorCode
    ''a chat Execute carries no parameters on this surface'')"
  using assms by (simp add: serve_chat_def Let_def)

subsection \<open>A room of three\<close>

definition room_message :: "Vocab.triple list" where
  "room_message =
     [\<lparr>subject = Vocab.BlankNode ''m'', predicate = rdf_iri ''type'', object = TNamed (rsntr_iri ''Message'')\<rparr>,
      \<lparr>subject = Vocab.BlankNode ''m'', predicate = rsntr_iri ''from'', object = plain_lit ''q''\<rparr>,
      \<lparr>subject = Vocab.BlankNode ''m'', predicate = rsntr_iri ''room'', object = TNamed ''r''\<rparr>,
      \<lparr>subject = Vocab.BlankNode ''m'', predicate = rsntr_iri ''body'', object = plain_lit ''hi''\<rparr>]"

definition room_ext :: chat_ext where
  "room_ext =
     \<lparr>ce_turtle = (\<lambda>_. Inr room_message), ce_lit = (\<lambda>_. []), ce_term = (\<lambda>_. []), ce_iri_ok = (\<lambda>_. False),
      ce_strings = (\<lambda>_. Some [''chat'']), ce_tags_json = (\<lambda>_. None), ce_footprint_json = (\<lambda>_. []),
      ce_outcome_json = (\<lambda>_. []), ce_outcome = (\<lambda>_. None), ce_ulid = (\<lambda>n. replicate n CHR ''u''),
      ce_tables = (\<lambda>_. None), ce_host_error = (\<lambda>_ _. None), ce_order = (\<lambda>rows. rows), ce_begin = (\<lambda>_. None), ce_commit = (\<lambda>_. None)\<rparr>"

definition room_store :: chat_store where
  "room_store = \<lparr>cs_messages = [], cs_rooms = [\<lparr>ro_room_id = ''r'', ro_name = ''room'', ro_host = ''me''\<rparr>],
     cs_members = [(''r'', Some ''p''), (''r'', Some ''q''), (''r'', Some ''me'')], cs_outbox = Some []\<rparr>"

definition room_db :: "chat_store node_db" where
  "room_db =
     \<lparr>nd_auth = (nd_auth toy_db)\<lparr>db_rsntr := Some [(''auth_chain'', ''c''), (''endpoint_id'', ''me''), (''modulations'', ''chat'')]\<rparr>,
      nd_audit = Some [], nd_applied = Some [], nd_budget = Some [], nd_media = Some [],
      nd_projection = Some [], nd_modulations = Some [], nd_user = room_store\<rparr>"

definition room_ulid :: ulid where
  "room_ulid = \<lparr>ulid_string = (\<lambda>_. ''e''), ulid_parse = (\<lambda>_. None)\<rparr>"

definition room_serve :: "string \<Rightarrow> chat_store node_db \<times> stream" where
  "room_serve peer = serve_chat room_ext room_ulid toy_json toy_registry toy_env peer ((toy_request ''x'')\<lparr>rq_params := []\<rparr>) room_db toy_stream"

definition room_said :: chat_message where
  "room_said = empty_message\<lparr>cm_from := Some ''q'', cm_room := Some ''r'', cm_body := ''hi''\<rparr>"

definition room_plan :: "string \<Rightarrow> chat_plan" where
  "room_plan peer = \<lparr>pl_resource = ''r'', pl_sender = peer, pl_scope = ''r'', pl_bind_room = None, pl_fan_out_room = Some ''r''\<rparr>"

lemma room_parse: "parse_message room_ext s = Inr room_said"
  by (simp add: parse_message_def room_ext_def message_subjects_def room_message_def node_pairs_def scan_pair_def
    finish_message_def validate_thread_fields_def empty_message_def room_said_def RSNTR_NS_def RDF_NS_def rsntr_iri_def rdf_iri_def BODY_MAX_BYTES_def TAGS_MAX_def bset_of_def Let_def)

lemma room_served: "list_ex (mod_matches ''chat'') (served_modulations (ce_strings room_ext) room_db)"
  by (simp add: mod_matches_def served_modulations_def room_db_def toy_db_def read_rsntr_def room_ext_def Let_def)

lemma room_planned: "plan_of (self_of room_db) peer room_said (read_host room_ext room_db) = Inr (room_plan peer)"
  by (simp add: plan_of_def read_host_def room_ext_def [THEN arg_cong [where f = ce_host_error]] self_of_def room_db_def room_store_def
    read_rsntr_def Let_def room_said_def empty_message_def room_plan_def)

lemma room_decided: "fst (decide_chat room_ext toy_json toy_registry toy_env Remote ''p'' i s ''r'' room_db) = None"
  by (simp add: decide_chat_def decide_on_def chain_decide_def read_config_def toy_json_def toy_registry_def register_def
    run_chain.simps room_db_def toy_db_def read_rsntr_def Let_def chain_new_def permitted_def)


lemma room_delivered: "snd (deliver room_ext toy_env ''e'' ''me'' room_said (room_plan ''p'') room_store) =
   room_store\<lparr>cs_messages := [\<lparr>mr_id = ''e'', mr_scope = ''r'', mr_sender = ''p'', mr_at = now_rfc3339 toy_env, mr_body = ''hi'',
     mr_blob = None, mr_outgoing = 0, mr_re_id = None, mr_tags = None\<rparr>],
    cs_outbox := Some [\<lparr>co_request_id = [], co_peer = ''q'', co_mod = ''chat'',
      co_signal = message_to_turtle room_ext (room_said\<lparr>cm_id := Some ''e'', cm_from := Some ''p'', cm_room := Some ''r'',
        cm_at := Some (now_rfc3339 toy_env), cm_room_name := Some ''room''\<rparr>)\<rparr>]\<rparr>"
  by (simp add: deliver_def message_row_of_def append_message_def bind_room_def fan_out_def fan_out_members_def room_said_def
    empty_message_def room_plan_def room_store_def Let_def List.map_filter_simps room_ext_def [THEN arg_cong [where f = ce_ulid]]
    room_ext_def [THEN arg_cong [where f = ce_order]])

lemma room_run:
  "nd_user (fst (room_serve ''p'')) = snd (deliver room_ext toy_env ''e'' ''me'' room_said (room_plan ''p'') room_store)
   \<and> (\<exists>row. nd_applied (fst (room_serve ''p'')) = Some [row] \<and> al_request_id row = ''e'')"
proof -
  obtain db1 where d: "decide_chat room_ext toy_json toy_registry toy_env Remote ''p'' ''e'' ''x'' ''r'' room_db = (None, db1)"
    using room_decided [of "''e''" "''x''"] by (metis prod.collapse)
  note k = decide_chat_cases(1,2) [OF d]
  have known: "peer_known room_db ''p''" by (simp add: peer_known_def room_db_def toy_db_def)
  have self: "self_of room_db = ''me''" by (simp add: self_of_def room_db_def read_rsntr_def)
  obtain n st where dl: "deliver room_ext toy_env ''e'' ''me'' room_said (room_plan ''p'') room_store = (n, st)" by fastforce
  have store: "nd_user room_db = room_store" "nd_applied room_db = Some []" by (simp_all add: room_db_def)
  define row where "row = \<lparr>al_request_id = ''e'', al_at = now_rfc3339 toy_env, al_outcome = []\<rparr>"
  have a: "apply_message room_ext toy_env ''e'' ''me'' room_said (room_plan ''p'') db1
    = (Inr n, db1\<lparr>nd_user := st, nd_applied := Some [row]\<rparr>)"
    using k dl store by (simp add: apply_message_def recorded_outcome_def insert_applied_def row_def
      room_ext_def [THEN arg_cong [where f = ce_begin]] room_ext_def [THEN arg_cong [where f = ce_commit]]
      room_ext_def [THEN arg_cong [where f = ce_outcome_json]])
  have r: "pl_resource (room_plan ''p'') = ''r''" by (simp add: room_plan_def)
  have "handle_chat room_ext room_ulid toy_json toy_registry toy_env Remote ''p'' ((toy_request ''x'')\<lparr>rq_params := []\<rparr>) room_db
    = (ChatApplied n, db1\<lparr>nd_user := st, nd_applied := Some [row]\<rparr>)"
    using known room_served d a room_planned [of "''p''", unfolded store] r self
    by (simp add: handle_chat_def Let_def id_string_def room_ulid_def toy_request_def room_parse store self_of_def
      room_ext_def [THEN arg_cong [where f = ce_tables]])
  then show ?thesis using dl by (simp add: room_serve_def serve_chat_def Let_def row_def)
qed

lemma chat_author_is_proven_witness:
  "\<exists>r \<in> set (cs_messages (nd_user (fst (room_serve ''p'')))). mr_sender r = ''p''
     \<and> chat_allowed toy_json toy_registry toy_env ''p'' ''r'' ''x'' room_db"
proof -
  obtain db' c' where s: "room_serve ''p'' = (db', c')" by fastforce
  have ms: "cs_messages (nd_user db') = [\<lparr>mr_id = ''e'', mr_scope = ''r'', mr_sender = ''p'', mr_at = now_rfc3339 toy_env,
      mr_body = ''hi'', mr_blob = None, mr_outgoing = 0, mr_re_id = None, mr_tags = None\<rparr>]" (is "_ = [?r]")
    and rooms: "room_host (nd_user db') ''r'' = Some ''me''"
    using room_run [unfolded room_delivered] s by (simp_all add: room_store_def room_host_def)
  have "?r \<in> set (cs_messages (nd_user db'))" "?r \<notin> set (cs_messages (nd_user room_db))"
    using ms by (simp_all add: room_db_def room_store_def)
  from chat_author_is_proven [OF s [unfolded room_serve_def] this] rooms ms s
  show ?thesis by (auto simp: toy_request_def room_ext_def [THEN arg_cong [where f = ce_host_error]])
qed

lemma chat_store_only_grows_witness:
  "\<exists>ms. cs_messages (nd_user (fst (room_serve ''p''))) = cs_messages room_store @ ms \<and> length ms \<le> 1"
proof -
  obtain db' c' where s: "room_serve ''p'' = (db', c')" by fastforce
  have "distinct (map mr_id (cs_messages (nd_user room_db)))" "distinct (map ro_room_id (cs_rooms (nd_user room_db)))"
    "nd_user room_db = room_store" by (simp_all add: room_db_def room_store_def)
  from chat_store_only_grows [OF s [unfolded room_serve_def] this(1,2)] this(3) s show ?thesis by auto
qed

lemma chat_retry_changes_nothing_witness:
  "nd_user (fst (serve_chat room_ext room_ulid toy_json toy_registry toy_env ''p'' ((toy_request ''y'')\<lparr>rq_params := []\<rparr>)
      (fst (room_serve ''p'')) toy_stream)) = nd_user (fst (room_serve ''p''))"
proof -
  obtain db1 c1 where s: "room_serve ''p'' = (db1, c1)" by fastforce
  obtain db3 c3 where s2: "serve_chat room_ext room_ulid toy_json toy_registry toy_env ''p'' ((toy_request ''y'')\<lparr>rq_params := []\<rparr>)
      db1 toy_stream = (db3, c3)" by fastforce
  have ne: "nd_user db1 \<noteq> nd_user room_db"
    using room_run [unfolded room_delivered] s by (simp add: room_db_def room_store_def)
  obtain row where row: "nd_applied db1 = Some [row]" using room_run s by auto
  have "id_string room_ulid ((toy_request ''y'')\<lparr>rq_params := []\<rparr>) = id_string room_ulid ((toy_request ''x'')\<lparr>rq_params := []\<rparr>)"
    by (simp add: id_string_def room_ulid_def)
  from chat_retry_changes_nothing [OF s [unfolded room_serve_def] ne row row subset_refl this s2] s s2
  show ?thesis by simp
qed

lemma chat_fans_out_once_witness:
  "\<exists>new. cs_outbox (nd_user (fst (room_serve ''p''))) = Some new \<and> image_mset co_peer (mset new) = {#''q''#}"
proof -
  obtain db' c' where s: "room_serve ''p'' = (db', c')" by fastforce
  have q: "cs_outbox (nd_user room_db) = Some []" by (simp add: room_db_def room_store_def)
  have perm: "\<forall>rows. mset (ce_order room_ext rows) = mset rows" by (simp add: room_ext_def)
  have inj: "inj (ce_ulid room_ext)"
    by (rule injI) (metis length_replicate room_ext_def chat_ext.select_convs(10))
  have fresh: "\<forall>k. ce_ulid room_ext k \<notin> set (map co_request_id [])" by simp
  have self: "self_of room_db = ''me''" by (simp add: self_of_def room_db_def read_rsntr_def)
  have host: "read_host room_ext room_db ''r'' = Some ''me''"
    by (simp add: read_host_def room_ext_def [THEN arg_cong [where f = ce_host_error]] room_db_def room_store_def)
  have mem: "cs_members (nd_user room_db) = [(''r'', Some ''p''), (''r'', Some ''q''), (''r'', Some ''me'')]"
    by (simp add: room_db_def room_store_def)
  have ne: "cs_messages (nd_user db') \<noteq> cs_messages (nd_user room_db)"
    using room_run [unfolded room_delivered] s by (simp add: room_db_def room_store_def)
  have room: "cm_room room_said = Some ''r''" by (simp add: room_said_def)
  from chat_fans_out_once [OF s [unfolded room_serve_def] room_parse q perm inj fresh] ne s
  show ?thesis by (auto simp: room self host mem List.map_filter_simps)
qed

end
