(* ===== verification/Spec2Isabelle.thy ===== *)
theory Spec2Isabelle
  imports Protocol_Properties Codec_Properties Auth_Properties Node_Properties
    Sparql_Properties Knock_Properties Graph_Properties Entrain_Properties
    Install_Properties System_Properties Chat_Properties
begin

text \<open>
  A model of the resonator workspace (a peer-to-peer data network of SQLite nodes) with the
  theorems that make its protocol and its authorization correct.

  The program. A node answers requests of its peers. A request is an RDF object written as
  Turtle in a length-prefixed frame; the response is a stream of such frames whose order the
  client checks. Before a statement runs, SQLite reports what it would touch (its
  footprint), a chain of tiers decides whether the peer may do that, and while it runs every
  action is checked against the decided footprint.

  The theories and the code they model (paths under \<open>src/crates\<close>):
  \<^item> \<open>Prelude\<close>, \<open>Text_Lib\<close>, \<open>Btree\<close>: results, the folds of fallible loops, text functions of
    the Rust library (splitting, numbers, white space), ordered maps and sets.
  \<^item> \<open>Protocol_Error\<close> (\<open>protocol/src/error.rs\<close>), \<open>Vocab\<close> (\<open>vocab.rs\<close>), \<open>Float64\<close> and \<open>Value\<close>
    (\<open>value.rs\<close>: doubles as 64-bit words, the shortest digits that read back).
  \<^item> \<open>Envelope_Types\<close>, \<open>Column_Name\<close>, \<open>Envelope_Decode\<close>, \<open>Envelope_Encode\<close> (\<open>envelope.rs\<close>).
    The Turtle parser is a third-party package: \<open>from_turtle\<close> takes it as an argument.
  \<^item> \<open>Frame\<close> (\<open>frame.rs\<close>); \<open>Frame_Stream\<close>: the \<open>recv\<close> loops of
    \<open>transport/src/iroh_transport.rs\<close> and \<open>cli/src/owner.rs\<close> over a list of reads, and the
    framed body of \<open>web/src/frames.rs\<close>. The locale \<open>framing\<close> is what both loops need of a
    frame decoder; it is interpreted on the texts and on the objects. \<open>Response_Stream\<close>: the
    \<open>send\<close> of a stream, which refuses a frame it cannot encode, and how the frames of a job
    reach it.
  \<^item> \<open>Request\<close> (\<open>request.rs\<close>), \<open>Response\<close> (\<open>response.rs\<close>), \<open>Entrainment\<close> (\<open>entrainment.rs\<close>).
    The locale of \<open>Reader\<close> holds what the two stream readers share and is interpreted on both.
  \<^item> \<open>Auth_Types\<close>, \<open>Chain\<close>, \<open>Policy\<close>, \<open>Fingerprint\<close>, \<open>Cache\<close>, \<open>Script\<close>, \<open>Human\<close>
    (\<open>authenticator/src\<close>, one theory per file), \<open>Authenticator\<close>: the registry of built-in
    tiers, and \<open>Inbox\<close>: the step relation of requests and answers over the inbox. The locale
    of \<open>Chain\<close> gives what a chain of guarded tiers never does.
  \<^item> \<open>Footprint\<close> (\<open>node/src/footprint.rs\<close>), \<open>Clock\<close> (\<open>node/src/clock.rs\<close>), \<open>Csv\<close>
    (\<open>web/src/csv.rs\<close>).
  \<^item> The SPARQL engine (\<open>sparql/src\<close>): \<open>Sparql_Ast\<close> (\<open>term.rs\<close>, \<open>ast.rs\<close>); the parser \<open>parser.rs\<close>
    in four layers, \<open>Sparql_Lex\<close> (the cursor and the tokens), \<open>Sparql_Triples\<close>, \<open>Sparql_Parser\<close>
    (expressions and groups) and \<open>Sparql_Query\<close> (the request forms); \<open>Sparql_Compile\<close>
    (\<open>compile.rs\<close>), \<open>Sparql_Serialize\<close> (\<open>serialize.rs\<close>) and \<open>Sparql_Store\<close> (\<open>store.rs\<close>: the
    dictionary, the triples, loads, queries, updates). Facts about them: \<open>Sparql_Reads\<close> (what
    the serializers write reads back), \<open>Sparql_Wf\<close> (invariants of a parsed request),
    \<open>Sparql_Compile_Facts\<close>, \<open>Sparql_Store_Facts\<close>, \<open>Sparql_Updates\<close> and \<open>Sparql_Loads\<close> (the store
    refines a set of triples), \<open>Sparql_Dictionary\<close> (the locale \<open>dictionary\<close>, interpreted on the
    store), \<open>Sparql_Eval\<close> (evaluation of the parser on given text).

  \<^item> The node's tables and its serving pipeline (\<open>node/src/pipeline.rs\<close>): \<open>Node_Db\<close> (\<open>ddl.rs\<close>,
    \<open>db.rs\<close>, \<open>audit.rs\<close>: the tables as the handlers read and write them, the ledger, the peer
    gate), \<open>Pipeline_Screen\<close> (peer gate, collected footprint, decision, ledger row),
    \<open>Pipeline_Exec\<close> (limits, enforced prepare, row loop, applied-writes ledger; rows in \<open>Sql_Row\<close>),
    \<open>Pipeline_Serve\<close> (the SQL lanes of a peer, of the owner and of a mod), \<open>Pipeline_Knock\<close> (token
    buckets over the doubles of \<open>F64_Arith\<close>, admission, parked knocks). \<open>Exec_Facts\<close> holds what
    their proofs share.
  \<^item> \<open>Pipeline_Sparql\<close> (\<open>sparql_mod.rs\<close>): the SPARQL lane over the store, with \<open>Graph_Lane\<close> for the
    frames of its answers.
  \<^item> \<open>Projection\<close> (\<open>projection.rs\<close>): the points of a node and which of them a caller sees;
    \<open>Entrainments\<close> (\<open>entrain.rs\<close>): the registry of signals and its SQLite hooks; \<open>Entrain_Lane\<close>: the
    handler as a step relation, interleaved in any order with commits, other handlers, the
    watcher of foreign commits and the shutdown; \<open>Entrain_Facts\<close>: its invariants.
  \<^item> \<open>Mod_Install\<close> (\<open>mod_install.rs\<close> and its lanes), \<open>System_Graph\<close> (\<open>system.rs\<close> and its lane),
    \<open>Chat\<close> (\<open>chat.rs\<close> and its lanes): the builtin modulations.

  How the parts meet. A request arrives through \<open>Frame_Stream\<close> and \<open>Request\<close>; a lane screens
  it (\<open>Node_Db.peer_known\<close>, then \<open>Chain\<close> over the tiers), runs it, and answers with frames
  that \<open>Response\<close> and \<open>Entrainment\<close> check on the other side. \<open>Human\<close> writes the inbox that
  \<open>Pipeline_Knock\<close> and \<open>Mod_Install\<close> park in and answers it; \<open>Sparql_Store\<close> is the store that
  \<open>Pipeline_Sparql\<close> updates; the writes of \<open>Pipeline_Exec\<close> are the commits that \<open>Entrainments\<close>
  signals.

  State and effects. Handlers take the state and return it: the buffer and the remaining
  reads of a stream, the state of a reader, the node's tables (a missing table is \<open>None\<close>, and a
  statement that names it fails), the collect state of a statement, the channel of a response
  (the frames sent, and how many more the client takes before it is gone) and the stream behind
  it (\<open>stream\<close> adds which frames can be encoded: one above \<open>MAX_FRAME_LEN\<close> is refused, and the
  response ends there without a trailer). A query runs on the writable connection, so the run of
  its text is a function from the store to the rows and the store it leaves. A stalled vibration
  may leave a part of its frame on the wire. A failed read of a chat room's host counts as an
  unknown room. Where a handler
  awaits between two jobs of the database thread, other jobs run: the argument \<open>between\<close> is what
  they do. Errors are the left side of a sum. The part of the database that is the user's own
  is a type parameter of \<open>node_db\<close>; the chat lane instantiates it with the chat tables, the
  SPARQL lane with the store.

  What the lemmas show. \<open>Protocol_Properties\<close>: streams of frames deliver what
  their documents read as, the readers accept exactly the documented streams. \<open>Codec_Properties\<close>: round trips of
  texts, numbers, column names and requests. \<open>Auth_Properties\<close>: the chain, the tiers, what an
  answer of the owner changes for later requests. \<open>Node_Properties\<close>: the two SQLite callbacks
  agree, CSV comes back. \<open>Sparql_Properties\<close>: the parser always answers and gives well-formed
  requests, updates are set operations on the stored graph with fresh blank nodes, written
  graphs load back, the compiler's bounds and its text literals. \<open>Pipeline_Properties\<close>: only
  statements that the chain cleared touch the data, within the decided footprint, a write is
  applied once, an error leaves the data as it was, every response is complete and within its
  limits, and reaches the client up to the first frame its stream refuses. \<open>Knock_Properties\<close>: the burst a stranger gets, who is admitted. \<open>Graph_Properties\<close>: the
  same for the SPARQL lane. \<open>Entrain_Properties\<close>: no commit is missed, signals are exactly the
  commits, the registry lives with its streams. \<open>Install_Properties\<close>: mods change only as the
  policy grants, a refused mod ends disabled, an approved install proceeds.
  \<open>System_Properties\<close>: the graph a caller gets depends only on the tables it may read, the members
  of the rooms and the comments on the tables it is shown.
  \<open>Chat_Properties\<close>: authors are proven or vouched for by the room's host unless the read of
  the host fails, a message is stored and fanned out once. Some lemmas record a divergence: they state what the code does where a
  comment or a document says something else.

  Bounds and fuel. Frames are bounded by \<open>MAX_FRAME_LEN\<close>, as in the code. A Turtle list is
  walked with a bound on its length, as the code does. The SPARQL parser's nested groups and
  expressions recurse through loops, and take the length of the text as fuel: every token
  reads at least a byte, so that it is enough (\<open>parse_fueled\<close>). No other definition uses fuel:
  the loops are structural or have a measure.

  Parameters. The Turtle and JSON parsers, the base64 engine, the BLAKE3 and SHA-256 hashes,
  the rhai engine, the random identifiers, the clock, \<open>str::to_lowercase\<close>, the transfer of blobs,
  the registry that loads mods, and SQLite: the actions it reports for a statement, the rows it
  gives for it, what it leaves of the store, the order of unordered rows, the failures of reads and
  transactions. What a theorem needs of them is a hypothesis
  with a witness.

  Not modelled. The dispatch of a request to its lane, the help, media and pages lanes; the
  transport below the frames; the web server, the console tool, the host of wasm mods, the
  surfaces (outbox worker, presence) and the bindings; the registration of SQL functions and the
  virtual table over the store; SQLite itself, and with it what a compiled query means. These
  are input and output, processes, third-party runtimes, or statements whose meaning is
  SQLite's.
\<close>

end
